(* ===== verification/Prelude.thy ===== *)
theory Prelude
  imports Main "HOL-Library.AList" "HOL-Library.Char_ord" "HOL-Library.List_Lexorder"
begin

text \<open>
  Shared vocabulary of the development.

  \<^item> Fallible Rust code returns \<open>Result<T, E>\<close>; the models return \<open>'e + 'a\<close> with
    \<open>Inl\<close> for the error.  \<open>anyhow\<close> errors are carried as their message
    (\<open>'a res\<close>); components with an error enum of their own use that datatype instead.
    \<open>ensure\<close> is the macro of the same name and \<open>and_then\<close> is the \<open>?\<close> operator.
  \<^item> Machine integers are \<open>nat\<close> or \<open>int\<close> with the range written out: checked and
    saturating arithmetic of the standard library are the functions below.
  \<^item> Text and byte buffers are \<open>char list\<close>: an Isabelle \<open>char\<close> is one octet, so a
    \<open>&str\<close> is its UTF-8 bytes and \<open>len()\<close> is \<open>length\<close>.
  \<^item> Instants of the monotonic clock are nanoseconds since an arbitrary origin.
\<close>

section \<open>Collections of facts\<close>

named_theorems res_simps \<open>inversion of successful results\<close>
named_theorems int_defs \<open>definitions of the integer ranges\<close>

section \<open>Results\<close>

type_synonym 'a res = "string + 'a"
type_synonym instant = nat
type_synonym bytes = "char list"

abbreviation ensure :: "bool \<Rightarrow> 'e \<Rightarrow> ('e + 'a) \<Rightarrow> 'e + 'a" where
  "ensure c e k \<equiv> (if c then k else Inl e)"

definition and_then :: "'e + 'a \<Rightarrow> ('a \<Rightarrow> 'e + 'b) \<Rightarrow> 'e + 'b" where
  "and_then r k = (case r of Inl e \<Rightarrow> Inl e | Inr a \<Rightarrow> k a)"

definition ok_or :: "'a option \<Rightarrow> 'e \<Rightarrow> 'e + 'a" where
  "ok_or v e = (case v of None \<Rightarrow> Inl e | Some a \<Rightarrow> Inr a)"

definition is_ok :: "'e + 'a \<Rightarrow> bool" where
  "is_ok r = (case r of Inl _ \<Rightarrow> False | Inr _ \<Rightarrow> True)"

section \<open>Integer ranges\<close>

definition I64_MAX :: int where [int_defs]: "I64_MAX = 9223372036854775807"
definition I64_MIN :: int where [int_defs]: "I64_MIN = -9223372036854775808"
definition U64_MAX :: nat where [int_defs]: "U64_MAX = 18446744073709551615"
definition U128_MAX :: nat where [int_defs]: "U128_MAX = 340282366920938463463374607431768211455"

definition in_i64 :: "int \<Rightarrow> bool" where
  "in_i64 x \<longleftrightarrow> I64_MIN \<le> x \<and> x \<le> I64_MAX"

definition checked_add_i64 :: "int \<Rightarrow> int \<Rightarrow> int option" where
  "checked_add_i64 a b = (if in_i64 (a + b) then Some (a + b) else None)"

definition checked_sub_i64 :: "int \<Rightarrow> int \<Rightarrow> int option" where
  "checked_sub_i64 a b = (if in_i64 (a - b) then Some (a - b) else None)"

definition checked_mul_i64 :: "int \<Rightarrow> int \<Rightarrow> int option" where
  "checked_mul_i64 a b = (if in_i64 (a * b) then Some (a * b) else None)"

definition saturating_sub_i64 :: "int \<Rightarrow> int \<Rightarrow> int" where
  "saturating_sub_i64 a b = max I64_MIN (min I64_MAX (a - b))"

definition checked_add_u64 :: "nat \<Rightarrow> nat \<Rightarrow> nat option" where
  "checked_add_u64 a b = (if a + b \<le> U64_MAX then Some (a + b) else None)"

definition checked_add_signed_u64 :: "nat \<Rightarrow> int \<Rightarrow> nat option" where
  "checked_add_signed_u64 a d =
     (if 0 \<le> int a + d \<and> int a + d \<le> int U64_MAX then Some (nat (int a + d)) else None)"

definition i64_try_from_u64 :: "nat \<Rightarrow> int option" where
  "i64_try_from_u64 a = (if int a \<le> I64_MAX then Some (int a) else None)"

definition saturating_add_u128 :: "nat \<Rightarrow> nat \<Rightarrow> nat" where
  "saturating_add_u128 a b = min (a + b) U128_MAX"

definition saturating_mul_u128 :: "nat \<Rightarrow> nat \<Rightarrow> nat" where
  "saturating_mul_u128 a b = min (a * b) U128_MAX"

section \<open>ASCII classes\<close>

definition is_ascii_digit :: "char \<Rightarrow> bool" where
  "is_ascii_digit c \<longleftrightarrow> 48 \<le> (of_char c :: nat) \<and> (of_char c :: nat) \<le> 57"

definition is_ascii_lowercase :: "char \<Rightarrow> bool" where
  "is_ascii_lowercase c \<longleftrightarrow> 97 \<le> (of_char c :: nat) \<and> (of_char c :: nat) \<le> 122"

definition is_ascii_uppercase :: "char \<Rightarrow> bool" where
  "is_ascii_uppercase c \<longleftrightarrow> 65 \<le> (of_char c :: nat) \<and> (of_char c :: nat) \<le> 90"

definition is_ascii_alphabetic :: "char \<Rightarrow> bool" where
  "is_ascii_alphabetic c \<longleftrightarrow> is_ascii_lowercase c \<or> is_ascii_uppercase c"

definition is_ascii_alphanumeric :: "char \<Rightarrow> bool" where
  "is_ascii_alphanumeric c \<longleftrightarrow> is_ascii_alphabetic c \<or> is_ascii_digit c"

definition is_ascii_hexdigit :: "char \<Rightarrow> bool" where
  "is_ascii_hexdigit c \<longleftrightarrow>
     is_ascii_digit c \<or> (97 \<le> (of_char c :: nat) \<and> (of_char c :: nat) \<le> 102)
       \<or> (65 \<le> (of_char c :: nat) \<and> (of_char c :: nat) \<le> 70)"

definition is_ascii_graphic :: "char \<Rightarrow> bool" where
  "is_ascii_graphic c \<longleftrightarrow> 33 \<le> (of_char c :: nat) \<and> (of_char c :: nat) \<le> 126"

definition to_ascii_lowercase :: "char \<Rightarrow> char" where
  "to_ascii_lowercase c = (if is_ascii_uppercase c then char_of ((of_char c :: nat) + 32) else c)"

definition eq_ignore_ascii_case :: "bytes \<Rightarrow> bytes \<Rightarrow> bool" where
  "eq_ignore_ascii_case a b \<longleftrightarrow> map to_ascii_lowercase a = map to_ascii_lowercase b"

lemmas ascii_defs =
  is_ascii_digit_def is_ascii_lowercase_def is_ascii_uppercase_def is_ascii_alphabetic_def
  is_ascii_alphanumeric_def is_ascii_hexdigit_def is_ascii_graphic_def

section \<open>Slices of text\<close>

text \<open>\<open>str::split(c)\<close>: always at least one piece, separators dropped.\<close>

fun split_on :: "'a \<Rightarrow> 'a list \<Rightarrow> 'a list list" where
  "split_on c [] = [[]]"
| "split_on c (x # xs) =
     (if x = c then [] # split_on c xs
      else case split_on c xs of [] \<Rightarrow> [[x]] | p # ps \<Rightarrow> (x # p) # ps)"

text \<open>\<open>str::split_once(c)\<close>: around the first occurrence.\<close>

fun split_once :: "'a \<Rightarrow> 'a list \<Rightarrow> ('a list \<times> 'a list) option" where
  "split_once c [] = None"
| "split_once c (x # xs) =
     (if x = c then Some ([], xs)
      else map_option (\<lambda>(a, b). (x # a, b)) (split_once c xs))"

definition strip_suffix :: "'a list \<Rightarrow> 'a list \<Rightarrow> 'a list option" where
  "strip_suffix suf s =
     (if length suf \<le> length s \<and> drop (length s - length suf) s = suf
      then Some (take (length s - length suf) s) else None)"

definition strip_prefix_list :: "'a list \<Rightarrow> 'a list \<Rightarrow> 'a list option" where
  "strip_prefix_list p s = (if take (length p) s = p then Some (drop (length p) s) else None)"

definition trim_matches :: "('a \<Rightarrow> bool) \<Rightarrow> 'a list \<Rightarrow> 'a list" where
  "trim_matches p s = rev (dropWhile p (rev (dropWhile p s)))"

section \<open>Generic lemmas\<close>

lemma and_then_simps [simp]:
  "and_then (Inl e) k = Inl e"
  "and_then (Inr a) k = k a"
  by (simp_all add: and_then_def)

lemma and_then_eq_Inr [res_simps]:
  "and_then r k = Inr b \<longleftrightarrow> (\<exists>a. r = Inr a \<and> k a = Inr b)"
  by (auto simp: and_then_def split: sum.splits)

lemma and_then_eq_Inl [res_simps]:
  "and_then r k = Inl e \<longleftrightarrow> r = Inl e \<or> (\<exists>a. r = Inr a \<and> k a = Inl e)"
  by (auto simp: and_then_def split: sum.splits)

lemma ok_or_simps [simp]:
  "ok_or None e = Inl e"
  "ok_or (Some a) e = Inr a"
  by (simp_all add: ok_or_def)

lemma ok_or_eq_Inr [res_simps]: "ok_or v e = Inr a \<longleftrightarrow> v = Some a"
  by (cases v) auto

lemma ensure_eq_Inr [res_simps]: "ensure c e k = Inr a \<longleftrightarrow> c \<and> k = Inr a"
  by simp

lemma is_ok_simps [simp]: "is_ok (Inl e) = False" "is_ok (Inr a) = True"
  by (simp_all add: is_ok_def)

lemma is_ok_iff: "is_ok r \<longleftrightarrow> (\<exists>a. r = Inr a)"
  by (cases r) auto

lemma checked_add_i64_Some [res_simps]:
  "checked_add_i64 a b = Some c \<longleftrightarrow> c = a + b \<and> in_i64 c"
  by (auto simp: checked_add_i64_def)

lemma checked_sub_i64_Some [res_simps]:
  "checked_sub_i64 a b = Some c \<longleftrightarrow> c = a - b \<and> in_i64 c"
  by (auto simp: checked_sub_i64_def)

lemma checked_mul_i64_Some [res_simps]:
  "checked_mul_i64 a b = Some c \<longleftrightarrow> c = a * b \<and> in_i64 c"
  by (auto simp: checked_mul_i64_def)

lemma checked_add_signed_u64_Some [res_simps]:
  "checked_add_signed_u64 a d = Some c \<longleftrightarrow> int c = int a + d \<and> c \<le> U64_MAX"
  by (auto simp: checked_add_signed_u64_def)

lemma checked_add_u64_Some [res_simps]:
  "checked_add_u64 a b = Some c \<longleftrightarrow> c = a + b \<and> c \<le> U64_MAX"
  by (auto simp: checked_add_u64_def)

lemma i64_try_from_u64_Some [res_simps]:
  "i64_try_from_u64 a = Some x \<longleftrightarrow> x = int a \<and> int a \<le> I64_MAX"
  by (auto simp: i64_try_from_u64_def)

lemma saturating_add_u128_le: "saturating_add_u128 a b \<le> a + b"
  by (simp add: saturating_add_u128_def)

lemma saturating_mul_u128_le: "saturating_mul_u128 a b \<le> a * b"
  by (simp add: saturating_mul_u128_def)

lemma split_on_not_Nil [simp]: "split_on c xs \<noteq> []"
  by (induction xs) (auto split: list.splits)

lemma split_on_no_sep: "p \<in> set (split_on c xs) \<Longrightarrow> c \<notin> set p"
  by (induction xs arbitrary: p) (auto split: if_splits list.splits)

text \<open>Joining the pieces with the separator restores the text.\<close>

fun join_with :: "'a \<Rightarrow> 'a list list \<Rightarrow> 'a list" where
  "join_with c [] = []"
| "join_with c [p] = p"
| "join_with c (p # q # ps) = p @ c # join_with c (q # ps)"

lemma join_split_on: "join_with c (split_on c xs) = xs"
proof (induction xs)
  case Nil
  then show ?case by simp
next
  case (Cons x xs)
  obtain p ps where sp: "split_on c xs = p # ps"
    by (cases "split_on c xs") auto
  with Cons show ?case by (cases ps) auto
qed

lemma split_on_append_sep:
  "c \<notin> set p \<Longrightarrow> split_on c (p @ c # xs) = p # split_on c xs"
  by (induction p) auto

lemma split_on_single: "c \<notin> set p \<Longrightarrow> split_on c p = [p]"
  by (induction p) auto

lemma split_on_join_with:
  assumes "ps \<noteq> []" and "\<And>p. p \<in> set ps \<Longrightarrow> c \<notin> set p"
  shows "split_on c (join_with c ps) = ps"
  using assms
  by (induction c ps rule: join_with.induct) (auto simp: split_on_single split_on_append_sep)

lemma split_once_Some:
  "split_once c xs = Some (a, b) \<longleftrightarrow> xs = a @ c # b \<and> c \<notin> set a"
proof (induction xs arbitrary: a)
  case Nil
  then show ?case by simp
next
  case (Cons x xs)
  then show ?case by (cases a) (auto simp: Cons_eq_append_conv)
qed

lemma map_of_filter_key: "map_of (filter (\<lambda>p. fst p \<noteq> k) m) = (map_of m)(k := None)"
  by (induction m) (auto simp: fun_eq_iff)

lemma map_of_AList_update: "map_of (AList.update k v m) = (map_of m)(k \<mapsto> v)"
  by (rule update_conv')

lemma map_of_AList_delete: "map_of (AList.delete k m) = (map_of m)(k := None)"
  by (rule delete_conv')

end
