(* ===== verification/Ordered_Map.thy ===== *)
theory Ordered_Map
  imports Prelude
begin

text \<open>
  \<open>std::collections::BTreeMap\<close> as the library uses it: look-up, insertion, removal,
  \<open>pop_first\<close> and iteration in key order.  The map is its ascending entry list; the locale
  \<open>ordered_map\<close> is what clients rely on, interpreted on these operations below.
\<close>

section \<open>The operations\<close>

type_synonym ('k, 'v) btree = "('k \<times> 'v) list"

definition bt_ok :: "('k :: linorder, 'v) btree \<Rightarrow> bool" where
  "bt_ok m \<longleftrightarrow> sorted_wrt (<) (map fst m)"

definition bt_get :: "('k, 'v) btree \<Rightarrow> 'k \<Rightarrow> 'v option" where
  "bt_get m k = map_of m k"

fun bt_insert :: "'k :: linorder \<Rightarrow> 'v \<Rightarrow> ('k, 'v) btree \<Rightarrow> ('k, 'v) btree" where
  "bt_insert k v [] = [(k, v)]"
| "bt_insert k v ((k', v') # m) =
     (if k < k' then (k, v) # (k', v') # m
      else if k = k' then (k, v) # m
      else (k', v') # bt_insert k v m)"

definition bt_remove :: "'k \<Rightarrow> ('k, 'v) btree \<Rightarrow> ('k, 'v) btree" where
  "bt_remove k m = filter (\<lambda>p. fst p \<noteq> k) m"

definition bt_pop_first :: "('k, 'v) btree \<Rightarrow> (('k \<times> 'v) \<times> ('k, 'v) btree) option" where
  "bt_pop_first m = (case m of [] \<Rightarrow> None | p # r \<Rightarrow> Some (p, r))"

section \<open>The interface\<close>

locale ordered_map =
  fixes entries :: "'m \<Rightarrow> ('k :: linorder \<times> 'v) list"
    and get :: "'m \<Rightarrow> 'k \<Rightarrow> 'v option"
    and put :: "'k \<Rightarrow> 'v \<Rightarrow> 'm \<Rightarrow> 'm"
    and remove :: "'k \<Rightarrow> 'm \<Rightarrow> 'm"
    and pop_first :: "'m \<Rightarrow> (('k \<times> 'v) \<times> 'm) option"
    and ok :: "'m \<Rightarrow> bool"
  assumes entries_sorted: "ok m \<Longrightarrow> sorted_wrt (<) (map fst (entries m))"
    and get_entries: "ok m \<Longrightarrow> get m k = map_of (entries m) k"
    and put_ok: "ok m \<Longrightarrow> ok (put k v m)"
    and get_put: "ok m \<Longrightarrow> get (put k v m) = (get m)(k \<mapsto> v)"
    and remove_ok: "ok m \<Longrightarrow> ok (remove k m)"
    and get_remove: "ok m \<Longrightarrow> get (remove k m) = (get m)(k := None)"
    and pop_first_empty: "ok m \<Longrightarrow> pop_first m = None \<longleftrightarrow> entries m = []"
    and pop_first_some: "ok m \<Longrightarrow> pop_first m = Some (p, r) \<Longrightarrow> ok r \<and> entries m = p # entries r"
begin

lemma sorted_entries_unique:
  fixes xs ys :: "('k \<times> 'v) list"
  assumes "sorted_wrt (<) (map fst xs)" and "sorted_wrt (<) (map fst ys)"
    and "map_of xs = map_of ys"
  shows "xs = ys"
proof -
  have d: "distinct (map fst xs)" "distinct (map fst ys)"
    using assms(1,2) by (simp_all only: strict_sorted_iff)
  have dom: "set (map fst xs) = set (map fst ys)"
    using assms(3) dom_map_of_conv_image_fst [of xs] dom_map_of_conv_image_fst [of ys] by simp
  have keys: "map fst xs = map fst ys"
    using assms(1,2) dom by (simp add: strict_sorted_equal)
  have "set xs = set ys"
    using assms(3) map_of_inject_set [OF d] by simp
  then have "(k, v) \<in> set xs \<longleftrightarrow> (k, v) \<in> set ys" for k v by simp
  then have "map (\<lambda>k. (k, the (map_of xs k))) (map fst xs) = xs"
    "map (\<lambda>k. (k, the (map_of ys k))) (map fst ys) = ys"
    using d by (auto simp: comp_def intro!: map_idI)
  then show ?thesis using keys assms(3) by metis
qed

lemma map_of_entries: "ok m \<Longrightarrow> map_of (entries m) = get m"
  using get_entries by auto

lemma entries_distinct: "ok m \<Longrightarrow> distinct (map fst (entries m))"
  using entries_sorted strict_sorted_iff by blast

lemma get_iff_entry: "ok m \<Longrightarrow> get m k = Some v \<longleftrightarrow> (k, v) \<in> set (entries m)"
  using entries_distinct get_entries by (simp add: map_of_eq_Some_iff)

text \<open>Inserting above every key appends; removing drops the entry and keeps the order.\<close>

lemma entries_put_above:
  assumes "ok m" and "\<And>p. p \<in> set (entries m) \<Longrightarrow> fst p < k"
  shows "entries (put k v m) = entries m @ [(k, v)]"
proof (rule sorted_entries_unique)
  show "sorted_wrt (<) (map fst (entries (put k v m)))"
    using assms put_ok entries_sorted by blast
  show "sorted_wrt (<) (map fst (entries m @ [(k, v)]))"
    using assms entries_sorted by (auto simp: sorted_wrt_append)
  have "k \<notin> fst ` set (entries m)" using assms(2) by fastforce
  then have "map_of (entries m) k = None" by (simp add: map_of_eq_None_iff)
  then show "map_of (entries (put k v m)) = map_of (entries m @ [(k, v)])"
    using assms put_ok
    by (auto simp: map_of_entries get_put map_add_def fun_eq_iff split: option.splits)
qed

lemma entries_remove:
  assumes "ok m"
  shows "entries (remove k m) = filter (\<lambda>p. fst p \<noteq> k) (entries m)"
proof (rule sorted_entries_unique)
  show "sorted_wrt (<) (map fst (entries (remove k m)))"
    using assms remove_ok entries_sorted by blast
  show "sorted_wrt (<) (map fst (filter (\<lambda>p. fst p \<noteq> k) (entries m)))"
    using entries_sorted [OF assms] by (induction "entries m") (auto simp: sorted_wrt_map sorted_wrt_filter)
  show "map_of (entries (remove k m)) = map_of (filter (\<lambda>p. fst p \<noteq> k) (entries m))"
    using assms remove_ok
    by (simp add: map_of_entries get_remove map_of_filter_key)
qed

end

section \<open>The model is an ordered map\<close>

lemma keys_bt_insert: "set (map fst (bt_insert k v m)) = insert k (set (map fst m))"
  by (induction k v m rule: bt_insert.induct) (simp_all add: insert_commute)

lemma bt_insert_ok: "bt_ok m \<Longrightarrow> bt_ok (bt_insert k v m)"
proof (induction m)
  case Nil
  then show ?case by (simp add: bt_ok_def)
next
  case (Cons p m)
  obtain k' v' where p: "p = (k', v')" by (cases p)
  have "\<forall>q \<in> set (map fst m). k' < q" using Cons.prems p by (simp add: bt_ok_def)
  moreover have "bt_ok (bt_insert k v m)" using Cons by (simp add: bt_ok_def)
  ultimately show ?case
    using Cons.prems p keys_bt_insert [of k v m] by (fastforce simp: bt_ok_def)
qed

lemma map_of_bt_insert: "bt_ok m \<Longrightarrow> map_of (bt_insert k v m) = (map_of m)(k \<mapsto> v)"
proof (induction m)
  case Nil
  then show ?case by simp
next
  case (Cons p m)
  obtain k' v' where p: "p = (k', v')" by (cases p)
  have "bt_ok m" using Cons.prems by (simp add: bt_ok_def)
  with Cons.IH p show ?case by (auto simp: fun_eq_iff)
qed

lemma bt_remove_ok: "bt_ok m \<Longrightarrow> bt_ok (bt_remove k m)"
  by (auto simp: bt_ok_def bt_remove_def sorted_wrt_map sorted_wrt_filter)

lemma map_of_bt_remove: "map_of (bt_remove k m) = (map_of m)(k := None)"
  by (simp add: bt_remove_def map_of_filter_key)

interpretation bt: ordered_map "\<lambda>m. m" bt_get bt_insert bt_remove bt_pop_first bt_ok
proof unfold_locales
  fix m :: "('a, 'b) btree" and k v p r
  assume ok: "bt_ok m"
  show "sorted_wrt (<) (map fst m)" using ok by (simp add: bt_ok_def)
  show "bt_get m k = map_of m k" by (simp add: bt_get_def)
  show "bt_ok (bt_insert k v m)" using ok by (rule bt_insert_ok)
  show "bt_get (bt_insert k v m) = (bt_get m)(k \<mapsto> v)"
    using map_of_bt_insert [OF ok] by (auto simp: bt_get_def fun_eq_iff)
  show "bt_ok (bt_remove k m)" using ok by (rule bt_remove_ok)
  show "bt_get (bt_remove k m) = (bt_get m)(k := None)"
    using map_of_bt_remove [of k m] by (auto simp: bt_get_def fun_eq_iff)
  show "bt_pop_first m = None \<longleftrightarrow> m = []" by (simp add: bt_pop_first_def split: list.splits)
  show "bt_pop_first m = Some (p, r) \<Longrightarrow> bt_ok r \<and> m = p # r"
    using ok by (auto simp: bt_pop_first_def bt_ok_def split: list.splits)
qed

end
