(* ===== verification/Limiter.thy ===== *)
theory Limiter
  imports Prelude Ordered_Map
begin

text \<open>
  \<^verbatim>\<open>crates/noxide-authority/src/limiter.rs\<close>: request admission.  The per-minute rate
  window, the token buckets of Tor circuits and principals with their least-recently-used table,
  and the split of permits between anonymous, session-check and verified lanes.

  A \<open>HashMap\<close> is an association list with distinct keys; the mutex-protected fields are
  threaded through.  The counting semaphores themselves belong to tokio and are not modelled:
  a \<open>BoundedPermits\<close> is the capacity and queue bound it is created with.
\<close>

section \<open>Constants and requests\<close>

datatype peer = Local | Circuit nat

datatype request_class = Get | AuthenticatedAction | AnonymousAction | PasswordHash

fun class_cost :: "request_class \<Rightarrow> nat" where
  "class_cost Get = 1"
| "class_cost AuthenticatedAction = 5"
| "class_cost AnonymousAction = 10"
| "class_cost PasswordHash = 20"

definition TOKEN :: nat where "TOKEN = 60000000000"
definition NANOS :: nat where "NANOS = 1000000000"
definition TABLE_CAPACITY :: nat where "TABLE_CAPACITY = 65536"

section \<open>Rate window\<close>

record rate_state =
  rs_credit :: nat
  rs_last :: instant

record rate_window =
  rw_per_minute :: nat
  rw_state :: rate_state

definition rate_new :: "nat \<Rightarrow> instant \<Rightarrow> rate_window" where
  "rate_new per_minute now =
     \<lparr>rw_per_minute = per_minute,
      rw_state = \<lparr>rs_credit = per_minute * TOKEN, rs_last = now\<rparr>\<rparr>"

definition rate_at :: "rate_window \<Rightarrow> instant \<Rightarrow> rate_window \<times> bool" where
  "rate_at w now =
     (let s = rw_state w;
          refill = saturating_mul_u128 (now - rs_last s) (rw_per_minute w);
          credit = min (saturating_add_u128 (rs_credit s) refill) (rw_per_minute w * TOKEN)
      in if credit < TOKEN
         then (w\<lparr>rw_state := \<lparr>rs_credit = credit, rs_last = now\<rparr>\<rparr>, False)
         else (w\<lparr>rw_state := \<lparr>rs_credit = credit - TOKEN, rs_last = now\<rparr>\<rparr>, True))"

fun rate_run :: "rate_window \<Rightarrow> instant list \<Rightarrow> nat" where
  "rate_run w [] = 0"
| "rate_run w (t # ts) =
     (case rate_at w t of (w', ok) \<Rightarrow> (if ok then 1 else 0) + rate_run w' ts)"

section \<open>Token buckets\<close>

record bucket_entry =
  be_millitokens :: nat
  be_last_refill :: instant
  be_tick :: nat

record 'k table =
  tb_entries :: "('k \<times> bucket_entry) list"
  tb_lru :: "(nat, 'k) btree"
  tb_tick :: nat

record 'k buckets =
  bk_table :: "'k table"
  bk_capacity :: nat
  bk_start :: nat
  bk_refill :: nat

definition buckets_new :: "nat \<Rightarrow> nat \<Rightarrow> nat \<Rightarrow> 'k buckets" where
  "buckets_new capacity start refill =
     \<lparr>bk_table = \<lparr>tb_entries = [], tb_lru = [], tb_tick = 0\<rparr>,
      bk_capacity = capacity, bk_start = start, bk_refill = refill\<rparr>"

definition table_evict :: "'k \<Rightarrow> 'k table \<Rightarrow> 'k table" where
  "table_evict key t =
     (if map_of (tb_entries t) key = None \<and> length (tb_entries t) = TABLE_CAPACITY
      then (case bt_pop_first (tb_lru t) of
              None \<Rightarrow> t
            | Some ((_, oldest), lru) \<Rightarrow>
                t\<lparr>tb_entries := AList.delete oldest (tb_entries t), tb_lru := lru\<rparr>)
      else t)"

text \<open>The renumbering loop; \<open>get_mut(\&key).unwrap()\<close> finds an entry for every key of the
  index (\<open>table_ok\<close> below), so the missing case only keeps the function total.\<close>

fun renumber :: "nat \<Rightarrow> 'k list \<Rightarrow> ('k \<times> bucket_entry) list \<times> (nat, 'k) btree
    \<Rightarrow> ('k \<times> bucket_entry) list \<times> (nat, 'k) btree" where
  "renumber tick [] acc = acc"
| "renumber tick (key # keys) (entries, lru) =
     renumber (Suc tick) keys
       (case map_of entries key of
          None \<Rightarrow> entries
        | Some e \<Rightarrow> AList.update key (e\<lparr>be_tick := tick\<rparr>) entries,
        bt_insert tick key lru)"

definition table_renumber :: "'k table \<Rightarrow> 'k table" where
  "table_renumber t =
     (if tb_tick t = U64_MAX
      then (case renumber 0 (map snd (tb_lru t)) (tb_entries t, []) of (entries, lru) \<Rightarrow>
              \<lparr>tb_entries = entries, tb_lru = lru, tb_tick = length entries\<rparr>)
      else t)"

definition bucket_refill :: "'k buckets \<Rightarrow> instant \<Rightarrow> bucket_entry \<Rightarrow> bucket_entry" where
  "bucket_refill b now e =
     (let elapsed = now - be_last_refill e;
          refill = saturating_mul_u128 elapsed (bk_refill b) div NANOS;
          tokens = min (saturating_add_u128 (be_millitokens e) refill) (bk_capacity b);
          last = (if tokens = bk_capacity b then now
                  else be_last_refill e
                    + min (saturating_mul_u128 refill NANOS div bk_refill b) U64_MAX)
      in e\<lparr>be_millitokens := tokens, be_last_refill := last\<rparr>)"

definition bucket_spend :: "nat \<Rightarrow> bool \<Rightarrow> bucket_entry \<Rightarrow> bucket_entry \<times> bool" where
  "bucket_spend cost drain e =
     (let ok = cost \<le> be_millitokens e
      in (if ok \<or> drain then e\<lparr>be_millitokens := be_millitokens e - cost\<rparr> else e, ok))"

definition charge :: "'k buckets \<Rightarrow> 'k \<Rightarrow> nat \<Rightarrow> bool \<Rightarrow> instant \<Rightarrow> 'k buckets \<times> bool" where
  "charge b key cost drain now =
     (if drain \<and> map_of (tb_entries (bk_table b)) key = None then (b, False)
      else
        (let t = table_renumber (table_evict key (bk_table b));
             tick = tb_tick t;
             e = (case map_of (tb_entries t) key of
                    None \<Rightarrow> \<lparr>be_millitokens = bk_start b, be_last_refill = now, be_tick = tick\<rparr>
                  | Some e \<Rightarrow> e);
             old_tick = be_tick e;
             (e', ok) = bucket_spend cost drain ((bucket_refill b now e)\<lparr>be_tick := tick\<rparr>)
         in (b\<lparr>bk_table :=
                 \<lparr>tb_entries = AList.update key e' (tb_entries t),
                  tb_lru = bt_insert tick key (bt_remove old_tick (tb_lru t)),
                  tb_tick = tick + 1\<rparr>\<rparr>, ok)))"

section \<open>Lanes\<close>

record bounded_permits =
  bp_capacity :: nat
  bp_max_waiting :: nat
  bp_max_wait :: nat

record lane =
  ln_requests :: bounded_permits
  ln_database :: bounded_permits
  ln_wasm :: bounded_permits

definition REQUESTS :: nat where "REQUESTS = 64"
definition REQUEST_WAITING :: nat where "REQUEST_WAITING = 64"
definition DATABASE :: nat where "DATABASE = 8"
definition DATABASE_WAITING :: nat where "DATABASE_WAITING = 16"
definition WASM :: nat where "WASM = 8"
definition WASM_WAITING :: nat where "WASM_WAITING = 16"
definition REQUEST_WAIT :: nat where "REQUEST_WAIT = 2 * NANOS"
definition DATABASE_WAIT :: nat where "DATABASE_WAIT = NANOS"
definition WASM_WAIT :: nat where "WASM_WAIT = NANOS"
definition ARGON2 :: nat where "ARGON2 = 2"
definition ARGON2_WAITING :: nat where "ARGON2_WAITING = 8"
definition ARGON2_WAIT :: nat where "ARGON2_WAIT = NANOS"
definition ARGON2_PER_MINUTE :: nat where "ARGON2_PER_MINUTE = 60"
definition ANONYMOUS_WRITES :: nat where "ANONYMOUS_WRITES = 1"
definition ANONYMOUS_WRITE_WAITING :: nat where "ANONYMOUS_WRITE_WAITING = 4"
definition ANONYMOUS_WRITE_WAIT :: nat where "ANONYMOUS_WRITE_WAIT = NANOS"
definition ANONYMOUS_WRITES_PER_MINUTE :: nat where "ANONYMOUS_WRITES_PER_MINUTE = 30"

lemmas lane_consts =
  REQUESTS_def REQUEST_WAITING_def DATABASE_def DATABASE_WAITING_def WASM_def WASM_WAITING_def

definition permits :: "nat \<Rightarrow> nat \<Rightarrow> nat \<Rightarrow> bounded_permits" where
  "permits capacity max_waiting max_wait =
     \<lparr>bp_capacity = capacity, bp_max_waiting = max_waiting, bp_max_wait = max_wait\<rparr>"

definition shares :: "nat \<Rightarrow> nat \<Rightarrow> nat \<Rightarrow> bool \<Rightarrow> nat \<times> nat \<times> nat" where
  "shares units session reserve authenticated =
     (if reserve = 0 \<or> \<not> authenticated then (units, 0, 0)
      else let verified = (units * reserve + 50) div 100
           in (units - session - verified, session, verified))"

definition lane_new :: "nat \<Rightarrow> nat \<Rightarrow> nat \<Rightarrow> lane" where
  "lane_new requests database wasm =
     \<lparr>ln_requests = permits requests (requests * REQUEST_WAITING div REQUESTS) REQUEST_WAIT,
      ln_database = permits database (database * DATABASE_WAITING div DATABASE) DATABASE_WAIT,
      ln_wasm = permits wasm (wasm * WASM_WAITING div WASM) WASM_WAIT\<rparr>"

record admission_limits =
  al_partitioned :: bool
  al_reserve :: nat
  al_shared :: lane
  al_verified :: lane
  al_session_check :: lane
  al_circuits :: "nat buckets"
  al_principals :: "string buckets"
  al_anonymous_writes :: bounded_permits
  al_anonymous_write_attempts :: rate_window
  al_argon2 :: bounded_permits
  al_argon2_attempts :: rate_window

definition CIRCUIT_CAPACITY :: nat where "CIRCUIT_CAPACITY = 40000"
definition CIRCUIT_REFILL :: nat where "CIRCUIT_REFILL = 2000"
definition CIRCUIT_START :: nat where "CIRCUIT_START = 5000"
definition PRINCIPAL_PER_MINUTE :: nat where "PRINCIPAL_PER_MINUTE = 30"

definition limits_new :: "nat \<Rightarrow> bool \<Rightarrow> instant \<Rightarrow> admission_limits" where
  "limits_new reserve authenticated now =
     (let (requests, sr, vr) = shares REQUESTS 4 reserve authenticated;
          (database, sd, vd) = shares DATABASE 1 reserve authenticated;
          (wasm, sw, vw) = shares WASM 0 reserve authenticated
      in \<lparr>al_partitioned = (vr \<noteq> 0),
          al_reserve = (if authenticated then reserve else 0),
          al_shared = lane_new requests database wasm,
          al_verified = lane_new vr vd vw,
          al_session_check = lane_new sr sd sw,
          al_circuits = buckets_new CIRCUIT_CAPACITY CIRCUIT_START CIRCUIT_REFILL,
          al_principals = buckets_new (PRINCIPAL_PER_MINUTE * 1000) (PRINCIPAL_PER_MINUTE * 1000)
            (PRINCIPAL_PER_MINUTE * 1000 div 60),
          al_anonymous_writes = permits ANONYMOUS_WRITES ANONYMOUS_WRITE_WAITING ANONYMOUS_WRITE_WAIT,
          al_anonymous_write_attempts = rate_new ANONYMOUS_WRITES_PER_MINUTE now,
          al_argon2 = permits ARGON2 ARGON2_WAITING ARGON2_WAIT,
          al_argon2_attempts = rate_new ARGON2_PER_MINUTE now\<rparr>)"

definition with_wasm_capacity :: "admission_limits \<Rightarrow> nat \<Rightarrow> admission_limits" where
  "with_wasm_capacity l concurrency =
     (let units = min WASM concurrency;
          (anonymous, _, verified) = shares units 0 (al_reserve l) True
      in if anonymous = 0 \<or> verified = 0
         then l\<lparr>al_shared := (al_shared l)\<lparr>ln_wasm := permits units WASM_WAITING WASM_WAIT\<rparr>,
                al_verified := (al_verified l)\<lparr>ln_wasm := permits 0 0 WASM_WAIT\<rparr>\<rparr>
         else l\<lparr>al_shared := (al_shared l)\<lparr>ln_wasm := permits anonymous (anonymous * WASM_WAITING div WASM) WASM_WAIT\<rparr>,
                al_verified := (al_verified l)\<lparr>ln_wasm := permits verified (verified * WASM_WAITING div WASM) WASM_WAIT\<rparr>\<rparr>)"

text \<open>\<open>verified_scope\<close>: the task-local context belongs to these limits and holds a verified
  identity.\<close>

definition is_verified :: "admission_limits \<Rightarrow> bool \<Rightarrow> bool" where
  "is_verified l verified_scope \<longleftrightarrow> al_partitioned l \<and> verified_scope"

definition requests_lane :: "admission_limits \<Rightarrow> bool \<Rightarrow> bounded_permits" where
  "requests_lane l v = (if is_verified l v then ln_requests (al_verified l) else ln_requests (al_shared l))"

definition database_lane :: "admission_limits \<Rightarrow> bool \<Rightarrow> bounded_permits" where
  "database_lane l v =
     (if is_verified l v \<and> bp_max_waiting (ln_database (al_verified l)) \<noteq> 0
      then ln_database (al_verified l) else ln_database (al_shared l))"

definition wasm_lane :: "admission_limits \<Rightarrow> bool \<Rightarrow> bounded_permits" where
  "wasm_lane l v =
     (if is_verified l v \<and> bp_max_waiting (ln_wasm (al_verified l)) \<noteq> 0
      then ln_wasm (al_verified l) else ln_wasm (al_shared l))"

definition session_requests :: "admission_limits \<Rightarrow> bounded_permits" where
  "session_requests l =
     (if al_partitioned l then ln_requests (al_session_check l) else ln_requests (al_shared l))"

definition session_database :: "admission_limits \<Rightarrow> bounded_permits" where
  "session_database l =
     (if al_partitioned l then ln_database (al_session_check l) else ln_database (al_shared l))"

definition charge_circuit ::
  "admission_limits \<Rightarrow> peer \<Rightarrow> request_class \<Rightarrow> instant \<Rightarrow> admission_limits \<times> bool" where
  "charge_circuit l peer c now =
     (case peer of
        Local \<Rightarrow> (l, True)
      | Circuit i \<Rightarrow>
          (case charge (al_circuits l) i (class_cost c * 1000) False now of
             (b, ok) \<Rightarrow> (l\<lparr>al_circuits := b\<rparr>, ok)))"

definition failed_session :: "admission_limits \<Rightarrow> peer \<Rightarrow> instant \<Rightarrow> admission_limits" where
  "failed_session l peer now =
     (case peer of
        Local \<Rightarrow> l
      | Circuit i \<Rightarrow> l\<lparr>al_circuits := fst (charge (al_circuits l) i 20000 True now)\<rparr>)"

definition principal_action :: "admission_limits \<Rightarrow> string \<Rightarrow> instant \<Rightarrow> admission_limits \<times> bool" where
  "principal_action l account now =
     (case charge (al_principals l) account 1000 False now of
        (b, ok) \<Rightarrow> (l\<lparr>al_principals := b\<rparr>, ok))"

section \<open>Invariants and specifications\<close>

definition table_ok :: "'k table \<Rightarrow> bool" where
  "table_ok t \<longleftrightarrow>
     distinct (map fst (tb_entries t)) \<and> bt_ok (tb_lru t)
     \<and> (\<forall>tk k. (tk, k) \<in> set (tb_lru t) \<longleftrightarrow> (\<exists>e. map_of (tb_entries t) k = Some e \<and> be_tick e = tk))
     \<and> (\<forall>p \<in> set (tb_lru t). fst p < tb_tick t)
     \<and> tb_tick t \<le> U64_MAX \<and> length (tb_entries t) \<le> TABLE_CAPACITY"

definition params_ok :: "'k buckets \<Rightarrow> bool" where
  "params_ok b \<longleftrightarrow>
     0 < bk_refill b \<and> bk_refill b dvd NANOS \<and> bk_start b \<le> bk_capacity b
     \<and> bk_capacity b * NANOS \<le> U64_MAX"

definition buckets_ok :: "'k buckets \<Rightarrow> bool" where
  "buckets_ok b \<longleftrightarrow>
     params_ok b \<and> table_ok (bk_table b)
     \<and> (\<forall>e \<in> snd ` set (tb_entries (bk_table b)). be_millitokens e \<le> bk_capacity b)"

text \<open>Least-recently-used order, oldest first, and what a request does to it.\<close>

definition lru_order :: "'k buckets \<Rightarrow> 'k list" where
  "lru_order b = map snd (tb_lru (bk_table b))"

definition lru_touch :: "'k \<Rightarrow> 'k list \<Rightarrow> 'k list" where
  "lru_touch key order =
     (let order = (if key \<notin> set order \<and> length order = TABLE_CAPACITY then tl order else order)
      in filter (\<lambda>k. k \<noteq> key) order @ [key])"

definition rate_potential :: "'k buckets \<Rightarrow> instant \<Rightarrow> bucket_entry \<Rightarrow> nat" where
  "rate_potential b t e = be_millitokens e * NANOS + (t - be_last_refill e) * bk_refill b"

text \<open>A run of charges; the cost admitted for one key, and that the key is never evicted.\<close>

type_synonym 'k charge_call = "'k \<times> nat \<times> bool \<times> instant"

fun admitted_cost :: "'k \<Rightarrow> 'k buckets \<Rightarrow> 'k charge_call list \<Rightarrow> nat" where
  "admitted_cost k b [] = 0"
| "admitted_cost k b ((key, cost, drain, now) # cs) =
     (case charge b key cost drain now of (b', ok) \<Rightarrow>
        (if key = k \<and> ok then cost else 0) + admitted_cost k b' cs)"

fun never_evicted :: "'k \<Rightarrow> 'k buckets \<Rightarrow> 'k charge_call list \<Rightarrow> bool" where
  "never_evicted k b [] = True"
| "never_evicted k b ((key, cost, drain, now) # cs) =
     (k \<in> set (lru_order (fst (charge b key cost drain now)))
      \<and> never_evicted k (fst (charge b key cost drain now)) cs)"

section \<open>The rate window\<close>

lemma rate_at_per_minute: "rw_per_minute (fst (rate_at w t)) = rw_per_minute w"
  by (simp add: rate_at_def Let_def)

lemma rate_at_last: "rs_last (rw_state (fst (rate_at w t))) = t"
  by (simp add: rate_at_def Let_def)

lemma rate_at_credit:
  assumes "rate_at w t = (w', ok)"
  shows "rs_credit (rw_state w') + (if ok then TOKEN else 0)
           \<le> rs_credit (rw_state w) + (t - rs_last (rw_state w)) * rw_per_minute w"
proof -
  have "min (saturating_add_u128 (rs_credit (rw_state w))
          (saturating_mul_u128 (t - rs_last (rw_state w)) (rw_per_minute w))) (rw_per_minute w * TOKEN)
        \<le> rs_credit (rw_state w) + (t - rs_last (rw_state w)) * rw_per_minute w"
    by (meson add_left_mono le_trans min.cobounded1 saturating_add_u128_le saturating_mul_u128_le)
  then show ?thesis
    using assms by (auto simp: rate_at_def Let_def split: if_splits)
qed

lemma rate_at_credit_cap:
  "rs_credit (rw_state (fst (rate_at w t))) \<le> rw_per_minute w * TOKEN"
  by (auto simp: rate_at_def Let_def)

lemma rate_run_bound:
  assumes "sorted (rs_last (rw_state w) # ts @ [T])"
  shows "rate_run w ts * TOKEN
           \<le> rs_credit (rw_state w) + (T - rs_last (rw_state w)) * rw_per_minute w"
  using assms
proof (induction ts arbitrary: w)
  case Nil
  then show ?case by simp
next
  case (Cons t ts)
  obtain w' ok where w': "rate_at w t = (w', ok)" by fastforce
  have last: "rs_last (rw_state w') = t" and pm: "rw_per_minute w' = rw_per_minute w"
    using rate_at_last [of w t] rate_at_per_minute [of w t] w' by simp_all
  have "sorted (rs_last (rw_state w') # ts @ [T])"
    using Cons.prems last by (simp add: sorted_append)
  then have "rate_run w' ts * TOKEN \<le> rs_credit (rw_state w') + (T - t) * rw_per_minute w"
    using Cons.IH last pm by metis
  moreover have "rs_credit (rw_state w') + (if ok then TOKEN else 0)
      \<le> rs_credit (rw_state w) + (t - rs_last (rw_state w)) * rw_per_minute w"
    by (rule rate_at_credit [OF w'])
  moreover have "(T - rs_last (rw_state w)) * rw_per_minute w
      = (t - rs_last (rw_state w)) * rw_per_minute w + (T - t) * rw_per_minute w"
  proof -
    have "T - rs_last (rw_state w) = (t - rs_last (rw_state w)) + (T - t)"
      using Cons.prems by (simp add: sorted_append)
    then show ?thesis by (simp only: add_mult_distrib)
  qed
  ultimately show ?case
    using w' by (auto simp: add_mult_distrib split: if_splits)
qed

text \<open>C19: the per-minute window is a real ceiling.  For a window created at \<open>t0\<close> and consulted at
  non-decreasing instants up to \<open>T\<close>, the number of admitted attempts is at most the burst of one
  minute's allowance plus the allowance accrued in \<open>T - t0\<close> (one token is sixty thousand
  million nano-units).\<close>

theorem rate_window_ceiling:
  assumes "sorted (t0 # ts @ [T])"
  shows "rate_run (rate_new per_minute t0) ts * TOKEN
           \<le> per_minute * TOKEN + (T - t0) * per_minute"
  using rate_run_bound [of "rate_new per_minute t0" ts T] assms by (simp add: rate_new_def)

theorem rate_window_ceiling_witness:
  "sorted (0 # [0, 5, 60000000000] @ [60000000000 :: nat])
   \<and> rate_run (rate_new 1 0) [0, 5, 60000000000] = 2
   \<and> rate_run (rate_new 1 0) [0, 5, 60000000000] * TOKEN \<le> 1 * TOKEN + (60000000000 - 0) * 1"
proof -
  have h: "sorted (0 # [0, 5, 60000000000] @ [60000000000 :: nat])" by simp
  have "rate_run (rate_new 1 0) [0, 5, 60000000000] = 2"
    by (simp add: rate_new_def rate_at_def Let_def TOKEN_def saturating_add_u128_def
        saturating_mul_u128_def U128_MAX_def)
  with rate_window_ceiling [OF h, of 1] h show ?thesis by simp
qed

lemma rate_run_alternating:
  assumes "w = \<lparr>rw_per_minute = 1, rw_state = \<lparr>rs_credit = c, rs_last = 0\<rparr>\<rparr>" and "c \<le> TOKEN"
  shows "rate_run w (concat (replicate n [TOKEN, 0])) = n"
  using assms
proof (induction n arbitrary: w c)
  case 0
  then show ?case by simp
next
  case (Suc n)
  have "rate_at w TOKEN = (\<lparr>rw_per_minute = 1, rw_state = \<lparr>rs_credit = 0, rs_last = TOKEN\<rparr>\<rparr>, True)"
    using Suc.prems by (simp add: rate_at_def Let_def TOKEN_def saturating_add_u128_def
        saturating_mul_u128_def U128_MAX_def)
  moreover have "rate_at \<lparr>rw_per_minute = 1, rw_state = \<lparr>rs_credit = 0, rs_last = TOKEN\<rparr>\<rparr> 0
      = (\<lparr>rw_per_minute = 1, rw_state = \<lparr>rs_credit = 0, rs_last = 0\<rparr>\<rparr>, False)"
    by (simp add: rate_at_def Let_def TOKEN_def saturating_add_u128_def
        saturating_mul_u128_def U128_MAX_def)
  ultimately show ?case using Suc.IH [OF refl, of 0] by simp
qed

text \<open>C39: the ceiling needs instants presented in order.  \<open>at\<close> stores the instant it is given
  even when it precedes the stored one, and \<open>allow\<close> reads the clock before it takes the lock, so
  two callers can present their readings in the opposite order; the time between the readings is
  then credited again.  Two readings one minute apart, presented alternately, admit one attempt per
  pair without bound, although the window allows one attempt per minute.\<close>

theorem rate_window_recredits_out_of_order:
  "rate_run (rate_new 1 0) (concat (replicate n [TOKEN, 0])) = n"
  by (rule rate_run_alternating [of _ TOKEN]) (simp_all add: rate_new_def)

section \<open>The bucket table\<close>

lemma table_ok_order:
  assumes "table_ok t"
  shows "distinct (map snd (tb_lru t))"
    and "set (map snd (tb_lru t)) = dom (map_of (tb_entries t))"
    and "length (tb_lru t) = length (tb_entries t)"
proof -
  have mem: "\<And>tk k. (tk, k) \<in> set (tb_lru t) \<longleftrightarrow> (\<exists>e. map_of (tb_entries t) k = Some e \<and> be_tick e = tk)"
    and d: "distinct (map fst (tb_entries t))" "bt_ok (tb_lru t)"
    using assms unfolding table_ok_def by auto
  have dl: "distinct (tb_lru t)"
    using bt.entries_distinct [OF d(2)] by (simp add: distinct_map)
  have inj: "inj_on snd (set (tb_lru t))"
    using mem by (fastforce intro: inj_onI)
  show dist: "distinct (map snd (tb_lru t))"
    using dl inj by (simp add: distinct_map)
  show dom: "set (map snd (tb_lru t)) = dom (map_of (tb_entries t))"
    using mem by (force simp: dom_def)
  have "length (tb_lru t) = card (set (map snd (tb_lru t)))"
    using dist distinct_card by fastforce
  also have "\<dots> = card (set (map fst (tb_entries t)))"
    using dom by (simp add: dom_map_of_conv_image_fst)
  also have "\<dots> = length (tb_entries t)"
    using d(1) distinct_card by fastforce
  finally show "length (tb_lru t) = length (tb_entries t)" .
qed

lemma table_evict_ok:
  assumes "table_ok t"
  shows "table_ok (table_evict key t)"
    and "map_of (tb_entries (table_evict key t)) key = None
           \<Longrightarrow> length (tb_entries (table_evict key t)) < TABLE_CAPACITY"
    and "map snd (tb_lru (table_evict key t))
           = (if key \<notin> set (map snd (tb_lru t)) \<and> length (tb_lru t) = TABLE_CAPACITY
              then tl (map snd (tb_lru t)) else map snd (tb_lru t))"
    and "k \<in> dom (map_of (tb_entries (table_evict key t)))
           \<Longrightarrow> map_of (tb_entries (table_evict key t)) k = map_of (tb_entries t) k"
    and "map_of (tb_entries (table_evict key t)) key = map_of (tb_entries t) key"
proof -
  note ord = table_ok_order [OF assms]
  let ?full = "map_of (tb_entries t) key = None \<and> length (tb_entries t) = TABLE_CAPACITY"
  have "table_ok (table_evict key t)
      \<and> (map_of (tb_entries (table_evict key t)) key = None
           \<longrightarrow> length (tb_entries (table_evict key t)) < TABLE_CAPACITY)
      \<and> map snd (tb_lru (table_evict key t)) = (if ?full then tl (map snd (tb_lru t)) else map snd (tb_lru t))
      \<and> (k \<in> dom (map_of (tb_entries (table_evict key t)))
           \<longrightarrow> map_of (tb_entries (table_evict key t)) k = map_of (tb_entries t) k)
      \<and> map_of (tb_entries (table_evict key t)) key = map_of (tb_entries t) key"
  proof (cases ?full)
    case False
    then have "table_evict key t = t" by (simp only: table_evict_def if_False)
    moreover have "length (tb_entries t) \<le> TABLE_CAPACITY" using assms by (simp add: table_ok_def)
    ultimately show ?thesis using False assms by auto
  next
    case True
    then have "tb_lru t \<noteq> []" using ord(3) by (auto simp: TABLE_CAPACITY_def)
    then obtain tk old r where lru: "tb_lru t = (tk, old) # r"
      by (metis list.exhaust surj_pair)
    have ev: "table_evict key t
        = t\<lparr>tb_entries := AList.delete old (tb_entries t), tb_lru := r\<rparr>"
      using True lru by (simp add: table_evict_def bt_pop_first_def)
    have dist: "distinct (map fst (tb_entries t))" and bt: "bt_ok (tb_lru t)"
      and mem: "\<And>tk k. (tk, k) \<in> set (tb_lru t) \<longleftrightarrow> (\<exists>e. map_of (tb_entries t) k = Some e \<and> be_tick e = tk)"
      and below: "\<And>p. p \<in> set (tb_lru t) \<Longrightarrow> fst p < tb_tick t"
      and tick: "tb_tick t \<le> U64_MAX"
      using assms unfolding table_ok_def by auto
    have old: "old \<in> dom (map_of (tb_entries t))" "old \<notin> set (map snd r)"
      using ord(1,2) lru by auto
    then have ne: "old \<noteq> key" using True by auto
    have len: "length (AList.delete old (tb_entries t)) < length (tb_entries t)"
    proof -
      have "set (map fst (AList.delete old (tb_entries t))) \<subset> set (map fst (tb_entries t))"
        using old(1) by (auto simp: delete_keys dom_map_of_conv_image_fst)
      then have "card (set (map fst (AList.delete old (tb_entries t)))) < card (set (map fst (tb_entries t)))"
        by (intro psubset_card_mono) auto
      then show ?thesis
        using dist distinct_delete [OF dist] by (simp only: distinct_card length_map)
    qed
    have "table_ok (table_evict key t)"
      unfolding table_ok_def ev
    proof (intro conjI allI)
      fix tk' k'
      show "(tk', k') \<in> set (tb_lru (t\<lparr>tb_entries := AList.delete old (tb_entries t), tb_lru := r\<rparr>))
          \<longleftrightarrow> (\<exists>e. map_of (tb_entries (t\<lparr>tb_entries := AList.delete old (tb_entries t), tb_lru := r\<rparr>)) k' = Some e
                \<and> be_tick e = tk')"
        using mem [of tk' k'] mem [of tk' old] lru old(2) by (auto simp: map_of_AList_delete image_iff)
    qed (use lru bt below tick dist len True in \<open>auto simp: bt_ok_def distinct_delete\<close>)
    then show ?thesis
      using ev len True lru ne by (auto simp: map_of_AList_delete)
  qed
  then show "table_ok (table_evict key t)"
    and "map_of (tb_entries (table_evict key t)) key = None
           \<Longrightarrow> length (tb_entries (table_evict key t)) < TABLE_CAPACITY"
    and "map snd (tb_lru (table_evict key t))
           = (if key \<notin> set (map snd (tb_lru t)) \<and> length (tb_lru t) = TABLE_CAPACITY
              then tl (map snd (tb_lru t)) else map snd (tb_lru t))"
    and "k \<in> dom (map_of (tb_entries (table_evict key t)))
           \<Longrightarrow> map_of (tb_entries (table_evict key t)) k = map_of (tb_entries t) k"
    and "map_of (tb_entries (table_evict key t)) key = map_of (tb_entries t) key"
    using ord by (auto simp: domIff split: if_splits)
qed

lemma renumber_lru:
  assumes "bt_ok l" and "\<And>p. p \<in> set l \<Longrightarrow> fst p < i"
  shows "snd (renumber i keys (es, l)) = l @ zip [i..<i + length keys] keys"
  using assms
proof (induction keys arbitrary: i es l)
  case Nil
  then show ?case by simp
next
  case (Cons k keys)
  have ins: "bt_insert i k l = l @ [(i, k)]"
    using Cons.prems by (intro bt.entries_put_above) auto
  have ok: "bt_ok (l @ [(i, k)])"
    using bt_insert_ok [OF Cons.prems(1)] ins by metis
  have "p \<in> set (l @ [(i, k)]) \<Longrightarrow> fst p < Suc i" for p
    using Cons.prems(2) [of p] by auto
  from Cons.IH [OF ok this] show ?case
    by (simp add: ins upt_conv_Cons del: upt_Suc)
qed

lemma update_tick_keys:
  assumes "map_of es a = Some e"
  shows "map fst (AList.update a e' es) = map fst es"
    and "dom (map_of (AList.update a e' es)) = dom (map_of es)"
proof -
  have "a \<in> set (map fst es)" using assms by (force dest: map_of_SomeD)
  then show "map fst (AList.update a e' es) = map fst es" by (simp add: update_keys)
  then show "dom (map_of (AList.update a e' es)) = dom (map_of es)"
    by (metis dom_map_of_conv_image_fst image_set)
qed

lemma renumber_entries:
  fixes es :: "('k \<times> bucket_entry) list"
  assumes "distinct keys" and "set keys \<subseteq> dom (map_of es)"
  shows "map fst (fst (renumber i keys (es, l))) = map fst es \<and>
    (\<forall>k. k \<notin> set keys \<longrightarrow> map_of (fst (renumber i keys (es, l))) k = map_of es k) \<and>
    (\<forall>j < length keys. map_of (fst (renumber i keys (es, l))) (keys ! j)
           = map_option (\<lambda>e. e\<lparr>be_tick := i + j\<rparr>) (map_of es (keys ! j)))"
  using assms
proof (induction keys arbitrary: i es l)
  case Nil
  then show ?case by simp
next
  case (Cons a keys)
  then obtain e where e: "map_of es a = Some e" by auto
  define es' where "es' = AList.update a (e\<lparr>be_tick := i\<rparr>) es"
  note upd = update_tick_keys [OF e, of "e\<lparr>be_tick := i\<rparr>", folded es'_def]
  have es': "map_of es' k = (if k = a then Some (e\<lparr>be_tick := i\<rparr>) else map_of es k)" for k
    by (simp add: es'_def map_of_AList_update)
  have ren: "renumber i (a # keys) (es, l) = renumber (Suc i) keys (es', bt_insert i a l)"
    by (simp add: e es'_def)
  have "set keys \<subseteq> dom (map_of es')" "distinct keys" using Cons.prems upd by simp_all
  note IH = Cons.IH [OF this(2,1), of "Suc i" "bt_insert i a l"]
  show ?case
    unfolding ren
  proof (intro conjI allI impI)
    fix j assume j: "j < length (a # keys)"
    show "map_of (fst (renumber (Suc i) keys (es', bt_insert i a l))) ((a # keys) ! j)
        = map_option (\<lambda>e. e\<lparr>be_tick := i + j\<rparr>) (map_of es ((a # keys) ! j))"
    proof (cases j)
      case 0
      then show ?thesis using IH Cons.prems e by (simp add: es')
    next
      case (Suc j')
      then have "keys ! j' \<noteq> a" using j Cons.prems(1) nth_mem by fastforce
      then show ?thesis using Suc j IH by (simp add: es')
    qed
  qed (use IH upd Cons.prems in \<open>auto simp: es'\<close>)
qed

text \<open>The entries after a renumbering are the entries before it up to their ticks.\<close>

definition same_credit :: "bucket_entry \<Rightarrow> bucket_entry \<Rightarrow> bool" where
  "same_credit e e' \<longleftrightarrow> e' = e\<lparr>be_tick := be_tick e'\<rparr>"

lemma table_renumber_ok:
  assumes "table_ok t"
  shows "table_ok (table_renumber t)"
    and "tb_tick (table_renumber t) < U64_MAX"
    and "map snd (tb_lru (table_renumber t)) = map snd (tb_lru t)"
    and "rel_option same_credit (map_of (tb_entries t) k) (map_of (tb_entries (table_renumber t)) k)"
    and "length (tb_entries (table_renumber t)) = length (tb_entries t)"
proof -
  note ord = table_ok_order [OF assms]
  have refl: "rel_option same_credit x x" for x
    by (cases x) (simp_all add: same_credit_def)
  have "table_ok (table_renumber t) \<and> tb_tick (table_renumber t) < U64_MAX
      \<and> map snd (tb_lru (table_renumber t)) = map snd (tb_lru t)
      \<and> rel_option same_credit (map_of (tb_entries t) k) (map_of (tb_entries (table_renumber t)) k)
      \<and> length (tb_entries (table_renumber t)) = length (tb_entries t)"
  proof (cases "tb_tick t = U64_MAX")
    case False
    then show ?thesis using assms refl by (auto simp: table_renumber_def table_ok_def)
  next
    case True
    define keys where "keys = map snd (tb_lru t)"
    obtain es l where r: "renumber 0 keys (tb_entries t, []) = (es, l)" by fastforce
    have l: "l = zip [0..<length keys] keys"
      using renumber_lru [of "[]" 0 keys "tb_entries t"] r by (simp add: bt_ok_def)
    have "distinct keys" "set keys \<subseteq> dom (map_of (tb_entries t))"
      using ord(1,2) by (simp_all add: keys_def)
    note E = renumber_entries [OF this, of 0 "[]", unfolded r fst_conv]
    have t: "table_renumber t = \<lparr>tb_entries = es, tb_lru = l, tb_tick = length es\<rparr>"
      using True r by (simp add: table_renumber_def keys_def)
    have len: "length es = length (tb_entries t)" "length keys = length es"
      using E ord(3) by (metis length_map) (metis E keys_def length_map ord(3))
    have dk: "distinct keys" "set keys = dom (map_of (tb_entries t))"
      using ord by (simp_all add: keys_def)
    have at: "map_of es (keys ! j) = map_option (\<lambda>e. e\<lparr>be_tick := j\<rparr>) (map_of (tb_entries t) (keys ! j))"
      if "j < length keys" for j using E that by simp
    have none: "map_of es k' = None" if "k' \<notin> set keys" for k'
      using E that dk(2) by auto
    have mem: "(tk, k') \<in> set l \<longleftrightarrow> (\<exists>e. map_of es k' = Some e \<and> be_tick e = tk)" for tk k'
    proof (cases "k' \<in> set keys")
      case False
      then show ?thesis using none by (auto simp: l dest: set_zip_rightD)
    next
      case True
      then obtain j where j: "j < length keys" "k' = keys ! j" by (metis in_set_conv_nth)
      then have "(tk, k') \<in> set l \<longleftrightarrow> tk = j"
        using dk(1) by (force simp: l set_zip nth_eq_iff_index_eq)
      moreover have "\<exists>e. map_of (tb_entries t) k' = Some e" using True dk(2) by blast
      ultimately show ?thesis using at [OF j(1)] j(2) by auto
    qed
    have "table_ok (table_renumber t)"
      unfolding table_ok_def t
    proof (simp, intro conjI allI ballI)
      show "distinct (map fst es)" using E assms by (simp add: table_ok_def)
      show "bt_ok l" by (simp add: l bt_ok_def)
      show "(tk, k') \<in> set l \<longleftrightarrow> (\<exists>e. map_of es k' = Some e \<and> be_tick e = tk)" for tk k' by (rule mem)
      show "fst p < length es" if "p \<in> set l" for p
        using that len(2) by (auto simp: l set_zip)
      show "length es \<le> U64_MAX" "length es \<le> TABLE_CAPACITY"
        using assms len(1) by (simp_all add: table_ok_def TABLE_CAPACITY_def U64_MAX_def)
    qed
    moreover have "rel_option same_credit (map_of (tb_entries t) k) (map_of es k)"
    proof (cases "k \<in> set keys")
      case False
      then show ?thesis using none dk(2) by (auto simp: domIff)
    next
      case True
      then obtain j where j: "j < length keys" "k = keys ! j" by (metis in_set_conv_nth)
      then show ?thesis using at [OF j(1)]
        by (cases "map_of (tb_entries t) k") (simp_all add: same_credit_def)
    qed
    ultimately show ?thesis
      using t len l assms by (auto simp: keys_def table_ok_def TABLE_CAPACITY_def U64_MAX_def)
  qed
  then show "table_ok (table_renumber t)" "tb_tick (table_renumber t) < U64_MAX"
    "map snd (tb_lru (table_renumber t)) = map snd (tb_lru t)"
    "rel_option same_credit (map_of (tb_entries t) k) (map_of (tb_entries (table_renumber t)) k)"
    "length (tb_entries (table_renumber t)) = length (tb_entries t)"
    by simp_all
qed

definition table_touch :: "'k \<Rightarrow> bucket_entry \<Rightarrow> nat \<Rightarrow> 'k table \<Rightarrow> 'k table" where
  "table_touch key e old t =
     \<lparr>tb_entries = AList.update key e (tb_entries t),
      tb_lru = bt_insert (tb_tick t) key (bt_remove old (tb_lru t)),
      tb_tick = tb_tick t + 1\<rparr>"

lemma table_touch_lru:
  assumes "table_ok t"
    and "old = (case map_of (tb_entries t) key of None \<Rightarrow> tb_tick t | Some e \<Rightarrow> be_tick e)"
  shows "tb_lru (table_touch key e' old t)
           = filter (\<lambda>p. snd p \<noteq> key) (tb_lru t) @ [(tb_tick t, key)]"
proof -
  have bt: "bt_ok (tb_lru t)" and below: "\<And>p. p \<in> set (tb_lru t) \<Longrightarrow> fst p < tb_tick t"
    and mem: "\<And>tk k. (tk, k) \<in> set (tb_lru t) \<longleftrightarrow> (\<exists>e. map_of (tb_entries t) k = Some e \<and> be_tick e = tk)"
    using assms(1) unfolding table_ok_def by auto
  have key: "fst p \<noteq> old \<longleftrightarrow> snd p \<noteq> key" if p: "p \<in> set (tb_lru t)" for p
  proof (cases "map_of (tb_entries t) key")
    case None
    then show ?thesis using p below [OF p] mem [of "fst p" "snd p"] assms(2) by auto
  next
    case (Some e)
    then have "(old, key) \<in> set (tb_lru t)" using mem assms(2) by auto
    moreover have "distinct (map fst (tb_lru t))" "distinct (map snd (tb_lru t))"
      using bt.entries_distinct [OF bt] table_ok_order(1) [OF assms(1)] by simp_all
    ultimately show ?thesis using p by (metis distinct_map inj_onD fst_conv snd_conv)
  qed
  have rem: "bt_remove old (tb_lru t) = filter (\<lambda>p. snd p \<noteq> key) (tb_lru t)"
    using key by (simp add: bt_remove_def cong: filter_cong)
  have "bt_insert (tb_tick t) key (bt_remove old (tb_lru t))
      = bt_remove old (tb_lru t) @ [(tb_tick t, key)]"
    using below by (intro bt.entries_put_above bt.remove_ok bt) (auto simp: bt_remove_def)
  then show ?thesis by (simp add: table_touch_def rem)
qed

lemma table_touch_ok:
  assumes "table_ok t" and "tb_tick t < U64_MAX"
    and "map_of (tb_entries t) key = None \<Longrightarrow> length (tb_entries t) < TABLE_CAPACITY"
    and "old = (case map_of (tb_entries t) key of None \<Rightarrow> tb_tick t | Some e \<Rightarrow> be_tick e)"
    and "be_tick e' = tb_tick t"
  shows "table_ok (table_touch key e' old t)"
proof -
  let ?t = "table_touch key e' old t"
  note lru = table_touch_lru [OF assms(1,4), of e']
  have bt: "bt_ok (tb_lru t)" and below: "\<And>p. p \<in> set (tb_lru t) \<Longrightarrow> fst p < tb_tick t"
    and mem: "\<And>tk k. (tk, k) \<in> set (tb_lru t) \<longleftrightarrow> (\<exists>e. map_of (tb_entries t) k = Some e \<and> be_tick e = tk)"
    and dist: "distinct (map fst (tb_entries t))" and cap: "length (tb_entries t) \<le> TABLE_CAPACITY"
    using assms(1) unfolding table_ok_def by auto
  have ents: "tb_entries ?t = AList.update key e' (tb_entries t)" "tb_tick ?t = tb_tick t + 1"
    by (simp_all add: table_touch_def)
  show ?thesis
    unfolding table_ok_def
  proof (intro conjI allI ballI)
    show "distinct (map fst (tb_entries ?t))" by (simp add: ents distinct_update dist)
    show "bt_ok (tb_lru ?t)" by (simp add: table_touch_def bt bt_insert_ok bt_remove_ok)
    show "(tk, k) \<in> set (tb_lru ?t) \<longleftrightarrow> (\<exists>e. map_of (tb_entries ?t) k = Some e \<and> be_tick e = tk)" for tk k
      using mem [of tk k] assms(5) by (auto simp: ents lru map_of_AList_update)
    show "fst p < tb_tick ?t" if "p \<in> set (tb_lru ?t)" for p
      using that below by (fastforce simp: ents lru)
    show "tb_tick ?t \<le> U64_MAX" using assms(2) by (simp add: ents)
    show "length (tb_entries ?t) \<le> TABLE_CAPACITY"
    proof (cases "map_of (tb_entries t) key")
      case None
      then have "key \<notin> set (map fst (tb_entries t))" by (simp add: map_of_eq_None_iff)
      then have "length (map fst (tb_entries ?t)) = length (tb_entries t) + 1"
        by (simp only: ents update_keys) simp
      then show ?thesis using assms(3) [OF None] by simp
    next
      case (Some e)
      then show ?thesis using update_tick_keys(1) [OF Some, of e'] cap ents by (metis length_map)
    qed
  qed
qed

text \<open>What a charge that reaches the table does, in terms of the table before it.\<close>

definition charged_entry :: "'k buckets \<Rightarrow> 'k \<Rightarrow> instant \<Rightarrow> bucket_entry" where
  "charged_entry b key now =
     (case map_of (tb_entries (bk_table b)) key of
        None \<Rightarrow> \<lparr>be_millitokens = bk_start b, be_last_refill = now, be_tick = 0\<rparr>
      | Some e \<Rightarrow> e)"

lemma same_credit_fields:
  assumes "same_credit e e'"
  shows "be_millitokens e' = be_millitokens e" "be_last_refill e' = be_last_refill e"
  using assms unfolding same_credit_def by (metis bucket_entry.select_convs(1,2) bucket_entry.surjective bucket_entry.update_convs(3))+

lemma bucket_refill_same_credit:
  assumes "same_credit e e'"
  shows "(bucket_refill b now e)\<lparr>be_tick := n\<rparr> = (bucket_refill b now e')\<lparr>be_tick := n\<rparr>"
  using same_credit_fields [OF assms] by (simp add: bucket_refill_def Let_def)

lemma same_credit_spend:
  assumes "same_credit e e'"
  shows "same_credit (fst (bucket_spend cost drain e)) (fst (bucket_spend cost drain (e'\<lparr>be_tick := n\<rparr>)))"
    and "snd (bucket_spend cost drain (e'\<lparr>be_tick := n\<rparr>)) = snd (bucket_spend cost drain e)"
  using same_credit_fields [OF assms] assms
  by (auto simp: bucket_spend_def same_credit_def Let_def)

lemma same_credit_refill:
  "same_credit e e' \<Longrightarrow> same_credit (bucket_refill b now e) (bucket_refill b now e')"
  using same_credit_fields [of e e']
  by (simp add: same_credit_def bucket_refill_def Let_def)

lemma charge_effect:
  assumes "buckets_ok b" and "\<not> (drain \<and> map_of (tb_entries (bk_table b)) key = None)"
    and "charge b key cost drain now = (b', ok)"
  shows "table_ok (bk_table b')"
    and "lru_order b' = lru_touch key (lru_order b)"
    and "ok \<longleftrightarrow> cost \<le> be_millitokens (bucket_refill b now (charged_entry b key now))"
    and "\<exists>e'. map_of (tb_entries (bk_table b')) key = Some e'
           \<and> same_credit (fst (bucket_spend cost drain (bucket_refill b now (charged_entry b key now)))) e'"
    and "\<And>k. k \<noteq> key \<Longrightarrow> k \<in> dom (map_of (tb_entries (bk_table b')))
           \<Longrightarrow> rel_option same_credit (map_of (tb_entries (bk_table b)) k) (map_of (tb_entries (bk_table b')) k)"
proof -
  define t0 where "t0 = table_evict key (bk_table b)"
  define t where "t = table_renumber t0"
  have tok: "table_ok (bk_table b)" using assms(1) by (simp add: buckets_ok_def)
  note ev = table_evict_ok [OF tok, of key, folded t0_def]
  note rn = table_renumber_ok [OF ev(1), folded t_def]
  define e where "e = (case map_of (tb_entries t) key of
      None \<Rightarrow> \<lparr>be_millitokens = bk_start b, be_last_refill = now, be_tick = tb_tick t\<rparr> | Some e \<Rightarrow> e)"
  define r where "r = (bucket_refill b now e)\<lparr>be_tick := tb_tick t\<rparr>"
  obtain e' where sp: "bucket_spend cost drain r = (e', ok)"
    and b': "b' = b\<lparr>bk_table := table_touch key e' (be_tick e) t\<rparr>"
  proof -
    obtain e' ok' where sp: "bucket_spend cost drain r = (e', ok')" by fastforce
    have "charge b key cost drain now = (b\<lparr>bk_table := table_touch key e' (be_tick e) t\<rparr>, ok')"
      unfolding charge_def Let_def if_not_P [OF assms(2)] t0_def [symmetric] t_def [symmetric]
        e_def [symmetric] r_def [symmetric] sp
      by (simp add: table_touch_def)
    with assms(3) sp that show thesis by simp
  qed
  have ce: "same_credit (charged_entry b key now) e"
    using rn(4) [of key] ev(5)
    by (auto simp: charged_entry_def e_def same_credit_def split: option.splits elim: option.rel_cases)
  have old: "be_tick e = (case map_of (tb_entries t) key of None \<Rightarrow> tb_tick t | Some e \<Rightarrow> be_tick e)"
    by (simp add: e_def split: option.splits)
  have tick: "be_tick e' = tb_tick t"
    using sp by (auto simp: bucket_spend_def r_def Let_def split: if_splits)
  have small: "length (tb_entries t) < TABLE_CAPACITY" if "map_of (tb_entries t) key = None"
    using that rn(4) [of key] rn(5) ev(2) by (auto elim: option.rel_cases)
  show "table_ok (bk_table b')"
    using table_touch_ok [OF rn(1,2) small old tick] by (simp add: b')
  show "lru_order b' = lru_touch key (lru_order b)"
  proof -
    have "map snd (filter (\<lambda>p. snd p \<noteq> key) (tb_lru t)) = filter (\<lambda>k. k \<noteq> key) (map snd (tb_lru t))"
      by (simp add: filter_map comp_def)
    then show ?thesis
      using table_touch_lru [OF rn(1) old, of e'] rn(3) ev(3)
      by (simp add: b' lru_order_def lru_touch_def Let_def del: filter_map)
  qed
  note rf = same_credit_refill [OF ce, of b now]
  show "ok \<longleftrightarrow> cost \<le> be_millitokens (bucket_refill b now (charged_entry b key now))"
    using same_credit_spend(2) [OF rf, of cost drain "tb_tick t"] sp
    by (simp add: r_def) (simp add: bucket_spend_def Let_def)
  show "\<exists>e'. map_of (tb_entries (bk_table b')) key = Some e'
      \<and> same_credit (fst (bucket_spend cost drain (bucket_refill b now (charged_entry b key now)))) e'"
    using same_credit_spend(1) [OF rf, of cost drain "tb_tick t"] sp
    by (simp add: b' table_touch_def map_of_AList_update r_def)
  show "rel_option same_credit (map_of (tb_entries (bk_table b)) k) (map_of (tb_entries (bk_table b')) k)"
    if "k \<noteq> key" "k \<in> dom (map_of (tb_entries (bk_table b')))" for k
  proof -
    have "k \<in> dom (map_of (tb_entries t0))"
      using that rn(4) [of k] by (auto simp: b' table_touch_def map_of_AList_update elim: option.rel_cases)
    then show ?thesis
      using rn(4) [of k] table_evict_ok(4) [OF tok, of k key] that(1) t0_def by (simp add: b' table_touch_def map_of_AList_update)
  qed
qed

lemma charge_params:
  "bk_capacity (fst (charge b key cost drain now)) = bk_capacity b"
  "bk_start (fst (charge b key cost drain now)) = bk_start b"
  "bk_refill (fst (charge b key cost drain now)) = bk_refill b"
  by (simp_all add: charge_def Let_def split: prod.splits)

lemma bucket_refill_cap: "be_millitokens (bucket_refill b now e) \<le> bk_capacity b"
  by (simp add: bucket_refill_def Let_def)

lemma bucket_spend_le: "be_millitokens (fst (bucket_spend cost drain e)) \<le> be_millitokens e"
  by (simp add: bucket_spend_def Let_def)

lemma charge_keeps:
  assumes "buckets_ok b" and "charge b key cost drain now = (b', ok)"
  shows "buckets_ok b' \<and>
    lru_order b' = (if drain \<and> key \<notin> set (lru_order b) then lru_order b else lru_touch key (lru_order b))"
proof (cases "drain \<and> map_of (tb_entries (bk_table b)) key = None")
  case True
  then have "b' = b" "key \<notin> set (lru_order b)"
    using assms table_ok_order(2) [of "bk_table b"]
    by (auto simp: charge_def buckets_ok_def lru_order_def)
  with True assms show ?thesis by simp
next
  case False
  note E = charge_effect [OF assms(1) False assms(2)]
  have p: "params_ok b'" "bk_capacity b' = bk_capacity b"
    using assms charge_params [of b key cost drain now] by (simp_all add: buckets_ok_def params_ok_def)
  have ent: "be_millitokens e \<le> bk_capacity b" if e: "map_of (tb_entries (bk_table b')) k = Some e" for k e
  proof (cases "k = key")
    case True
    then have "same_credit (fst (bucket_spend cost drain (bucket_refill b now (charged_entry b key now)))) e"
      using E(4) e by auto
    from same_credit_fields(1) [OF this] show ?thesis
      using bucket_spend_le bucket_refill_cap le_trans by metis
  next
    case False
    then obtain e0 where e0: "map_of (tb_entries (bk_table b)) k = Some e0" "same_credit e0 e"
      using E(5) [of k] e by (auto simp: option_rel_Some2)
    then have "be_millitokens e0 \<le> bk_capacity b"
      using assms(1) by (force simp: buckets_ok_def dest: map_of_SomeD)
    then show ?thesis using same_credit_fields(1) [OF e0(2)] by simp
  qed
  have "distinct (map fst (tb_entries (bk_table b')))" using E(1) by (simp add: table_ok_def)
  then have "buckets_ok b'"
    unfolding buckets_ok_def using p E(1) ent by auto
  moreover have "\<not> (drain \<and> key \<notin> set (lru_order b))"
    using False assms(1) table_ok_order(2) [of "bk_table b"] by (auto simp: buckets_ok_def lru_order_def)
  ultimately show ?thesis using E(2) by (simp only: if_False simp_thms)
qed

lemmas charge_keeps_ok = charge_keeps [THEN conjunct1]

text \<open>What a bucket holds, its place in the tick index aside.\<close>

definition bucket_credit :: "'k buckets \<Rightarrow> 'k \<Rightarrow> (nat \<times> instant) option" where
  "bucket_credit b k =
     map_option (\<lambda>e. (be_millitokens e, be_last_refill e)) (map_of (tb_entries (bk_table b)) k)"

lemma rel_option_credit:
  "rel_option same_credit x y \<Longrightarrow> map_option (\<lambda>e. (be_millitokens e, be_last_refill e)) y
     = map_option (\<lambda>e. (be_millitokens e, be_last_refill e)) x"
  by (cases x; cases y) (simp_all add: same_credit_fields)

lemma charge_missing:
  assumes "buckets_ok b" and "charge b key cost drain now = (b', ok)"
    and "drain" and "key \<notin> set (lru_order b)"
  shows "b' = b \<and> \<not> ok"
proof -
  have "map_of (tb_entries (bk_table b)) key = None"
    using assms(1,4) table_ok_order(2) [of "bk_table b"] by (auto simp: buckets_ok_def lru_order_def)
  then show ?thesis using assms(2,3) by (simp add: charge_def)
qed

lemma charge_present:
  assumes "buckets_ok b" and "charge b key cost drain now = (b', ok)"
    and "\<not> (drain \<and> key \<notin> set (lru_order b))"
  shows "ok = (cost \<le> be_millitokens (bucket_refill b now (charged_entry b key now)))"
    and "bucket_credit b' key
      = Some (be_millitokens (bucket_refill b now (charged_entry b key now)) - (if ok \<or> drain then cost else 0),
              be_last_refill (bucket_refill b now (charged_entry b key now)))"
    and "k \<noteq> key \<Longrightarrow> k \<in> set (lru_order b') \<Longrightarrow> bucket_credit b' k = bucket_credit b k"
proof -
  let ?r = "bucket_refill b now (charged_entry b key now)"
  have "\<not> (drain \<and> map_of (tb_entries (bk_table b)) key = None)"
    using assms(1,3) table_ok_order(2) [of "bk_table b"] by (auto simp: buckets_ok_def lru_order_def)
  note E = charge_effect [OF assms(1) this assms(2)]
  show ok: "ok = (cost \<le> be_millitokens ?r)" by (rule E(3))
  obtain e' where e': "map_of (tb_entries (bk_table b')) key = Some e'"
    "same_credit (fst (bucket_spend cost drain ?r)) e'" using E(4) by blast
  then show "bucket_credit b' key
      = Some (be_millitokens ?r - (if ok \<or> drain then cost else 0), be_last_refill ?r)"
    using same_credit_fields [OF e'(2)] ok by (simp add: bucket_credit_def bucket_spend_def Let_def)
  show "bucket_credit b' k = bucket_credit b k" if "k \<noteq> key" "k \<in> set (lru_order b')"
    unfolding bucket_credit_def using E(5) [OF that(1)] that(2) table_ok_order(2) [OF E(1)]
    by (simp add: lru_order_def rel_option_credit)
qed

text \<open>C18: the bucket table under any charge.  The hash map, the tick index and the tick counter
  stay consistent (one index entry per key, at most \<open>TABLE_CAPACITY\<close> keys, no bucket above its
  capacity), and the index behaves as a least-recently-used queue: the charged key moves to the back
  and a full table drops its front, whatever renumbering of the ticks takes place in between.  Every
  other bucket that remains keeps its tokens and its refill time.  The charged bucket (a fresh one for
  an unknown key) is refilled to the instant of the charge and then pays: the charge is allowed exactly
  when the refilled tokens cover the cost, and the cost is taken, down to zero at most, when it is
  allowed or is a penalty.  A penalty for a key without a bucket is refused and leaves the buckets
  as they are.\<close>

theorem charge_refines_lru:
  assumes "buckets_ok b" and "charge b key cost drain now = (b', ok)"
  shows "buckets_ok b' \<and>
    (if drain \<and> key \<notin> set (lru_order b) then b' = b \<and> \<not> ok
     else lru_order b' = lru_touch key (lru_order b)
       \<and> (\<forall>k \<in> set (lru_order b'). k \<noteq> key \<longrightarrow> bucket_credit b' k = bucket_credit b k)
       \<and> ok = (cost \<le> be_millitokens (bucket_refill b now (charged_entry b key now)))
       \<and> bucket_credit b' key
           = Some (be_millitokens (bucket_refill b now (charged_entry b key now)) - (if ok \<or> drain then cost else 0),
                   be_last_refill (bucket_refill b now (charged_entry b key now)))
       \<and> bk_capacity b' = bk_capacity b \<and> bk_start b' = bk_start b \<and> bk_refill b' = bk_refill b)"
proof (cases "drain \<and> key \<notin> set (lru_order b)")
  case True
  then show ?thesis using charge_missing [OF assms] charge_keeps_ok [OF assms] by simp
next
  case False
  note P = charge_present [OF assms False]
  have K: "buckets_ok b'" "lru_order b' = lru_touch key (lru_order b)"
    using charge_keeps [OF assms] unfolding if_not_P [OF False] by blast+
  show ?thesis
    unfolding if_not_P [OF False]
    by (intro conjI ballI impI K P) (use charge_params [of b key cost drain now] assms(2) in simp_all)
qed

theorem charge_refines_lru_witness:
  "buckets_ok (buckets_new CIRCUIT_CAPACITY CIRCUIT_START CIRCUIT_REFILL :: nat buckets)
   \<and> buckets_ok (fst (charge (buckets_new CIRCUIT_CAPACITY CIRCUIT_START CIRCUIT_REFILL) (7 :: nat) 1000 False 3))
   \<and> lru_order (fst (charge (buckets_new CIRCUIT_CAPACITY CIRCUIT_START CIRCUIT_REFILL) (7 :: nat) 1000 False 3)) = [7]"
proof -
  let ?b = "buckets_new CIRCUIT_CAPACITY CIRCUIT_START CIRCUIT_REFILL :: nat buckets"
  have ok: "buckets_ok ?b"
    by (simp add: buckets_ok_def buckets_new_def params_ok_def table_ok_def bt_ok_def CIRCUIT_CAPACITY_def
        CIRCUIT_START_def CIRCUIT_REFILL_def NANOS_def U64_MAX_def)
  have "lru_touch 7 (lru_order ?b) = [7]" "lru_order ?b = []"
    by (simp_all add: buckets_new_def lru_order_def lru_touch_def TABLE_CAPACITY_def)
  then show ?thesis
    using ok charge_refines_lru [OF ok, of 7 1000 False 3 _ "snd (charge ?b 7 1000 False 3)"] by (simp add: prod_eq_iff)
qed

section \<open>The rate of one key\<close>

lemma bucket_refill_potential:
  assumes "params_ok b" and "be_last_refill e \<le> now" and "now \<le> T"
  shows "rate_potential b T (bucket_refill b now e) \<le> rate_potential b T e"
    and "be_last_refill (bucket_refill b now e) \<le> now"
proof -
  let ?r = "bk_refill b" and ?l = "be_last_refill e" and ?m = "be_millitokens e"
  obtain q where q: "NANOS = ?r * q" and pos: "0 < ?r" using assms(1) by (auto simp: params_ok_def)
  define refill where "refill = saturating_mul_u128 (now - ?l) ?r div NANOS"
  have sat: "saturating_mul_u128 (now - ?l) ?r \<le> (now - ?l) * ?r" by (rule saturating_mul_u128_le)
  have N: "0 < NANOS" by (simp add: NANOS_def)
  have rq_eq: "refill * NANOS = refill * q * ?r" by (simp add: q)
  then have rN: "refill * NANOS div ?r = refill * q"
    using pos by (metis nonzero_mult_div_cancel_right less_not_refl)
  have rf: "refill * NANOS \<le> (now - ?l) * ?r"
    unfolding refill_def using sat by (meson div_times_less_eq_dividend le_trans)
  have step: "min (saturating_mul_u128 refill NANOS div ?r) U64_MAX \<le> refill * q"
  proof -
    have "saturating_mul_u128 refill NANOS div ?r \<le> refill * NANOS div ?r"
      by (intro div_le_mono saturating_mul_u128_le)
    also have "\<dots> = refill * q" by (rule rN)
    finally show ?thesis by simp
  qed
  have rq: "refill * q \<le> now - ?l"
  proof -
    have "refill * q * ?r \<le> (now - ?l) * ?r" using rf by (simp only: rq_eq)
    then show ?thesis using pos by simp
  qed
  define tokens where "tokens = min (saturating_add_u128 ?m refill) (bk_capacity b)"
  define l' where "l' = (if tokens = bk_capacity b then now
      else ?l + min (saturating_mul_u128 refill NANOS div ?r) U64_MAX)"
  have bre: "bucket_refill b now e = e\<lparr>be_millitokens := tokens, be_last_refill := l'\<rparr>"
    by (simp add: bucket_refill_def Let_def refill_def tokens_def l'_def)
  show "be_last_refill (bucket_refill b now e) \<le> now"
    using step rq assms(2) by (auto simp: bre l'_def)
  have tok: "tokens \<le> ?m + refill"
    unfolding tokens_def using saturating_add_u128_le [of ?m refill] by linarith
  show "rate_potential b T (bucket_refill b now e) \<le> rate_potential b T e"
  proof (cases "tokens = bk_capacity b")
    case True
    have "tokens * NANOS + (T - now) * ?r \<le> ?m * NANOS + refill * NANOS + (T - now) * ?r"
      using mult_le_mono1 [OF tok, of NANOS] by (simp add: add_mult_distrib)
    also have "\<dots> \<le> ?m * NANOS + (now - ?l) * ?r + (T - now) * ?r" using rf by simp
    also have "\<dots> = ?m * NANOS + (T - ?l) * ?r"
      using assms(2,3) by (simp add: add_mult_distrib [symmetric] add.assoc)
    finally show ?thesis by (simp add: bre rate_potential_def l'_def True)
  next
    case False
    text \<open>Below the capacity nothing saturates, and the remainder of the elapsed time is kept.\<close>
    have "tokens = saturating_add_u128 ?m refill" "tokens < bk_capacity b"
      using False by (simp_all add: tokens_def)
    moreover have "bk_capacity b \<le> U64_MAX"
    proof -
      have "bk_capacity b \<le> bk_capacity b * NANOS" by (simp add: NANOS_def)
      then show ?thesis using assms(1) unfolding params_ok_def by linarith
    qed
    ultimately have tk: "tokens = ?m + refill"
      by (auto simp: saturating_add_u128_def min_def U128_MAX_def U64_MAX_def split: if_splits)
    have "refill * NANOS \<le> bk_capacity b * NANOS"
      using tk \<open>tokens < bk_capacity b\<close> by (intro mult_le_mono1) simp
    then have "refill * NANOS \<le> U64_MAX" using assms(1) unfolding params_ok_def by linarith
    then have "saturating_mul_u128 refill NANOS = refill * NANOS"
      by (simp add: saturating_mul_u128_def U128_MAX_def U64_MAX_def)
    moreover note rN
    moreover have "refill * q \<le> U64_MAX"
    proof -
      have "refill * q \<le> refill * q * ?r" using pos by (cases ?r) simp_all
      then show ?thesis using \<open>refill * NANOS \<le> U64_MAX\<close> rq_eq by linarith
    qed
    ultimately have "l' = ?l + refill * q" using False by (simp add: l'_def)
    moreover have "(T - ?l) * ?r = (T - (?l + refill * q)) * ?r + refill * q * ?r"
      using rq assms(2,3) by (simp add: add_mult_distrib [symmetric])
    ultimately show ?thesis
      by (simp add: bre rate_potential_def tk q algebra_simps)
  qed
qed

lemma bucket_spend_potential:
  "rate_potential b T (fst (bucket_spend cost drain e)) + (if snd (bucket_spend cost drain e) then cost * NANOS else 0)
     \<le> rate_potential b T e"
proof -
  have "(m - cost) * NANOS + cost * NANOS = m * NANOS" if "cost \<le> m" for m
    using that by (simp add: add_mult_distrib [symmetric])
  then show ?thesis
    by (simp add: bucket_spend_def rate_potential_def Let_def)
qed

lemma rate_potential_same:
  "same_credit e e' \<Longrightarrow> rate_potential b T e' = rate_potential b T e"
  by (simp add: rate_potential_def same_credit_fields)

lemma rate_potential_params:
  "bk_refill b' = bk_refill b \<Longrightarrow> rate_potential b' T e = rate_potential b T e"
  by (simp add: rate_potential_def)

lemma charge_potential:
  assumes "buckets_ok b" and "charge b key cost drain now = (b', ok)"
    and "map_of (tb_entries (bk_table b)) k = Some e" and "k \<in> set (lru_order b')"
    and "be_last_refill e \<le> now" and "now \<le> T"
  shows "\<exists>e'. map_of (tb_entries (bk_table b')) k = Some e' \<and> be_last_refill e' \<le> now
           \<and> rate_potential b T e' + (if key = k \<and> ok then cost * NANOS else 0) \<le> rate_potential b T e"
proof (cases "drain \<and> map_of (tb_entries (bk_table b)) key = None")
  case True
  then have "b' = b" "key \<noteq> k" using assms(2,3) by (auto simp: charge_def)
  then show ?thesis using assms by simp
next
  case False
  note E = charge_effect [OF assms(1) False assms(2)]
  have pk: "params_ok b" using assms(1) by (simp add: buckets_ok_def)
  show ?thesis
  proof (cases "k = key")
    case True
    define r where "r = bucket_refill b now e"
    have ce: "charged_entry b key now = e" using assms(3) True by (simp add: charged_entry_def)
    obtain e' where e': "map_of (tb_entries (bk_table b')) key = Some e'"
      and sc: "same_credit (fst (bucket_spend cost drain r)) e'"
      using E(4) ce r_def by auto
    have ok: "ok = snd (bucket_spend cost drain r)"
      using E(3) ce by (simp add: r_def bucket_spend_def Let_def)
    have "be_last_refill (fst (bucket_spend cost drain r)) = be_last_refill r"
      by (simp add: bucket_spend_def Let_def)
    then have "be_last_refill e' \<le> now"
      using same_credit_fields(2) [OF sc] bucket_refill_potential(2) [OF pk assms(5,6)] by (simp add: r_def)
    moreover have "rate_potential b T e' + (if ok then cost * NANOS else 0) \<le> rate_potential b T e"
      using bucket_spend_potential [of b T cost drain r] bucket_refill_potential(1) [OF pk assms(5,6)]
        rate_potential_same [OF sc, of b T]
      by (auto simp: ok r_def split: if_splits)
    ultimately show ?thesis using e' True by simp
  next
    case False
    have "k \<in> dom (map_of (tb_entries (bk_table b')))"
      using assms(4) table_ok_order(2) [OF E(1)] by (simp add: lru_order_def)
    then obtain e' where e': "map_of (tb_entries (bk_table b')) k = Some e'" "same_credit e e'"
      using E(5) [OF False] assms(3) by (auto simp: option_rel_Some1)
    then show ?thesis
      using False assms(5) same_credit_fields(2) [OF e'(2)] rate_potential_same [OF e'(2), of b T] by simp
  qed
qed

text \<open>The rate a bucket admits.  While a key keeps its bucket, the cost admitted for it over any
  interleaving of charges (its own, other keys', penalties) at non-decreasing instants up to \<open>T\<close> is
  bounded by the tokens it holds plus what the configured refill rate accrues until \<open>T\<close>: rounding
  in the refill computation never creates credit.\<close>

theorem bucket_rate_bound:
  assumes "buckets_ok b" and "map_of (tb_entries (bk_table b)) k = Some e"
    and "never_evicted k b cs"
    and "sorted (be_last_refill e # map (\<lambda>c. snd (snd (snd c))) cs @ [T])"
  shows "admitted_cost k b cs * NANOS \<le> be_millitokens e * NANOS + (T - be_last_refill e) * bk_refill b"
  unfolding rate_potential_def [symmetric]
  using assms
proof (induction cs arbitrary: b e)
  case Nil
  then show ?case by simp
next
  case (Cons c cs)
  obtain key cost drain now where c: "c = (key, cost, drain, now)" by (cases c)
  obtain b' ok where ch: "charge b key cost drain now = (b', ok)" by fastforce
  have srt: "be_last_refill e \<le> now" "now \<le> T" "sorted (now # map (\<lambda>c. snd (snd (snd c))) cs @ [T])"
    using Cons.prems(4) c by (simp_all add: sorted_append)
  have kin: "k \<in> set (lru_order b')" using Cons.prems(3) c ch by simp
  obtain e' where e': "map_of (tb_entries (bk_table b')) k = Some e'" "be_last_refill e' \<le> now"
    and pot: "rate_potential b T e' + (if key = k \<and> ok then cost * NANOS else 0) \<le> rate_potential b T e"
    using charge_potential [OF Cons.prems(1) ch Cons.prems(2) kin srt(1,2)] by blast
  have "buckets_ok b'" using charge_keeps_ok [OF Cons.prems(1) ch] .
  moreover have "never_evicted k b' cs" using Cons.prems(3) c ch by simp
  moreover have "sorted (be_last_refill e' # map (\<lambda>c. snd (snd (snd c))) cs @ [T])"
    using srt e'(2) by (auto simp: sorted_append)
  ultimately have "admitted_cost k b' cs * NANOS \<le> rate_potential b' T e'"
    using Cons.IH e'(1) by blast
  moreover have "bk_refill b' = bk_refill b" using charge_params(3) [of b key cost drain now] ch by simp
  ultimately show ?case
    using pot rate_potential_params [of b' b] by (auto simp: c ch add_mult_distrib split: if_splits)
qed

theorem bucket_rate_bound_witness:
  "\<exists>b e. buckets_ok b \<and> map_of (tb_entries (bk_table b)) (7 :: nat) = Some e
     \<and> never_evicted 7 b [(7, 1000, False, 5), (9, 1000, False, 6)]
     \<and> sorted (be_last_refill e # map (\<lambda>c. snd (snd (snd c))) [(7 :: nat, 1000 :: nat, False, 5), (9, 1000, False, 6)] @ [1000000000])
     \<and> admitted_cost 7 b [(7, 1000, False, 5), (9, 1000, False, 6)] * NANOS
         \<le> be_millitokens e * NANOS + (1000000000 - be_last_refill e) * bk_refill b"
proof -
  define b where "b = fst (charge (buckets_new CIRCUIT_CAPACITY CIRCUIT_START CIRCUIT_REFILL) (7 :: nat) 1000 False 3)"
  define e where "e = \<lparr>be_millitokens = 4000, be_last_refill = 3, be_tick = 0\<rparr>"
  note cs = CIRCUIT_CAPACITY_def CIRCUIT_START_def CIRCUIT_REFILL_def NANOS_def U64_MAX_def U128_MAX_def
    TABLE_CAPACITY_def
  have bv: "b = \<lparr>bk_table = \<lparr>tb_entries = [(7, e)], tb_lru = [(0, 7)], tb_tick = 1\<rparr>,
      bk_capacity = 40000, bk_start = 5000, bk_refill = 2000\<rparr>"
    by (simp add: b_def e_def charge_def buckets_new_def table_evict_def table_renumber_def Let_def cs
        bucket_refill_def bucket_spend_def saturating_mul_u128_def saturating_add_u128_def bt_remove_def)
  have ok: "buckets_ok b"
    by (simp add: bv e_def buckets_ok_def params_ok_def table_ok_def bt_ok_def cs)
  have e: "map_of (tb_entries (bk_table b)) 7 = Some e" by (simp add: bv)
  have nev: "never_evicted 7 b [(7, 1000, False, 5), (9, 1000, False, 6)]"
    by (simp add: bv e_def charge_def table_evict_def table_renumber_def Let_def cs lru_order_def
        bucket_refill_def bucket_spend_def saturating_mul_u128_def saturating_add_u128_def bt_remove_def)
  have srt: "sorted (be_last_refill e # map (\<lambda>c. snd (snd (snd c))) [(7 :: nat, 1000 :: nat, False, 5), (9, 1000, False, 6)] @ [1000000000])"
    by (simp add: e_def)
  show ?thesis using ok e nev srt bucket_rate_bound [OF ok e nev srt] by blast
qed

section \<open>Lanes\<close>

lemma shares_verified_bound:
  fixes units reserve :: nat
  assumes "reserve \<le> 50"
  shows "(units * reserve + 50) div 100 \<le> (units + 1) div 2"
proof -
  have "(units * reserve + 50) div 100 \<le> (units * 50 + 50) div 100"
    using assms by (intro div_le_mono) simp
  then show ?thesis by simp
qed

lemma waiting_scale: "(n * 64 div 64 :: nat) = n" "(n * 16 div 8 :: nat) = 2 * n"
  by simp_all

definition usable :: "bounded_permits \<Rightarrow> bool" where
  "usable p \<longleftrightarrow> 1 \<le> bp_capacity p \<and> 1 \<le> bp_max_waiting p"

text \<open>Splitting the permits loses none and starves nobody.  For every reserve the manifest
  admits (0 to 50 percent) the shared, session-check and verified lanes add up to the configured
  capacity of requests, database and guest permits, and each lane a request can be directed to,
  verified or not, has at least one permit and one waiting place.\<close>

theorem lanes_conserve_capacity:
  assumes "reserve \<le> 50"
  shows "let l = limits_new reserve authenticated now;
             sum = (\<lambda>f. bp_capacity (f (al_shared l)) + bp_capacity (f (al_session_check l))
                          + bp_capacity (f (al_verified l)))
         in sum ln_requests = REQUESTS \<and> sum ln_database = DATABASE \<and> sum ln_wasm = WASM
            \<and> usable (requests_lane l v) \<and> usable (database_lane l v) \<and> usable (wasm_lane l v)
            \<and> usable (session_requests l) \<and> usable (session_database l)"
proof (cases "reserve = 0 \<or> \<not> authenticated")
  case True
  then have l: "shares u s reserve authenticated = (u, 0, 0)" for u s by (simp add: shares_def)
  have "al_partitioned (limits_new reserve authenticated now) = False"
    by (simp add: limits_new_def l)
  then show ?thesis
    by (simp add: limits_new_def l lane_new_def permits_def lane_consts usable_def requests_lane_def
        database_lane_def wasm_lane_def session_requests_def session_database_def is_verified_def)
next
  case False
  define vr vd where "vr = (64 * reserve + 50) div 100" and "vd = (8 * reserve + 50) div 100"
  have b: "vr \<le> 32" "vd \<le> 4"
    using shares_verified_bound [OF assms, of 64] shares_verified_bound [OF assms, of 8]
    by (simp_all add: vr_def vd_def)
  have "100 \<le> 64 * reserve + 50" using False by linarith
  then have "1 \<le> vr" unfolding vr_def by (metis div_le_mono div_self zero_neq_numeral)
  have l: "shares REQUESTS 4 reserve authenticated = (60 - vr, 4, vr)"
    "shares DATABASE 1 reserve authenticated = (7 - vd, 1, vd)"
    "shares WASM 0 reserve authenticated = (8 - vd, 0, vd)"
    using False by (simp_all add: shares_def Let_def lane_consts vr_def vd_def)
  define k where "k = limits_new reserve authenticated now"
  have lanes: "al_partitioned k" "al_shared k = lane_new (60 - vr) (7 - vd) (8 - vd)"
    "al_verified k = lane_new vr vd vd" "al_session_check k = lane_new 4 1 0"
    unfolding k_def limits_new_def l using \<open>1 \<le> vr\<close> by (simp_all add: Let_def)
  show ?thesis
    unfolding k_def [symmetric] using b \<open>1 \<le> vr\<close>
    by (simp add: lanes lane_new_def permits_def lane_consts usable_def requests_lane_def Let_def
        database_lane_def wasm_lane_def session_requests_def session_database_def is_verified_def) linarith
qed

theorem lanes_conserve_capacity_witness:
  "(6 :: nat) \<le> 50 \<and>
   (let l = limits_new 6 True 0;
        sum = (\<lambda>f. bp_capacity (f (al_shared l)) + bp_capacity (f (al_session_check l))
                     + bp_capacity (f (al_verified l)))
    in sum ln_requests = REQUESTS \<and> sum ln_database = DATABASE \<and> sum ln_wasm = WASM
       \<and> usable (requests_lane l True) \<and> usable (database_lane l True) \<and> usable (wasm_lane l True)
       \<and> usable (session_requests l) \<and> usable (session_database l))"
  using lanes_conserve_capacity [of 6 True 0 True] by simp

lemma with_wasm_capacity_units:
  assumes "1 \<le> concurrency" and "al_reserve l \<le> 50"
  shows "bp_capacity (ln_wasm (al_shared (with_wasm_capacity l concurrency)))
           + bp_capacity (ln_wasm (al_verified (with_wasm_capacity l concurrency))) = min WASM concurrency"
    and "usable (wasm_lane (with_wasm_capacity l concurrency) v)"
proof -
  let ?u = "min WASM concurrency"
  have u: "1 \<le> ?u" using assms(1) by (simp add: WASM_def)
  have half: "(?u + 1) div 2 \<le> ?u" using u by linarith
  then have v: "(?u * al_reserve l + 50) div 100 \<le> ?u"
    using shares_verified_bound [OF assms(2), of ?u] by linarith
  have pos: "0 < n \<Longrightarrow> 0 < (n * 16 div 8 :: nat)" for n by simp
  show "bp_capacity (ln_wasm (al_shared (with_wasm_capacity l concurrency)))
           + bp_capacity (ln_wasm (al_verified (with_wasm_capacity l concurrency))) = ?u"
    using v by (simp add: with_wasm_capacity_def shares_def Let_def permits_def)
  show "usable (wasm_lane (with_wasm_capacity l concurrency) v)"
    using u v pos by (simp add: with_wasm_capacity_def shares_def Let_def permits_def usable_def
        wasm_lane_def is_verified_def WASM_WAITING_def WASM_def Suc_le_eq not_le)
qed

end
