(* ===== verification/Decimal.thy ===== *)
theory Decimal
  imports Prelude
begin

text \<open>
  Decimal text of the standard library: \<open>to_string\<close> on unsigned and signed integers and
  \<open>str::parse\<close> for \<open>u64\<close> and \<open>i64\<close> (one optional sign, at least one digit, no
  overflow).  Routes, canonical scalars and SQL placeholders are printed and read with these.
\<close>

section \<open>Definitions\<close>

definition digit_char :: "nat \<Rightarrow> char" where
  "digit_char d = char_of (48 + d)"

definition digit_value :: "char \<Rightarrow> nat" where
  "digit_value c = of_char c - 48"

fun show_nat :: "nat \<Rightarrow> bytes" where
  "show_nat n = (if n < 10 then [digit_char n] else show_nat (n div 10) @ [digit_char (n mod 10)])"

declare show_nat.simps [simp del]

definition show_int :: "int \<Rightarrow> bytes" where
  "show_int x = (if x < 0 then CHR ''-'' # show_nat (nat (- x)) else show_nat (nat x))"

definition digits_value :: "bytes \<Rightarrow> nat" where
  "digits_value ds = foldl (\<lambda>acc c. 10 * acc + digit_value c) 0 ds"

definition parse_digits :: "bytes \<Rightarrow> nat option" where
  "parse_digits ds =
     (if ds \<noteq> [] \<and> list_all is_ascii_digit ds then Some (digits_value ds) else None)"

definition parse_u64 :: "bytes \<Rightarrow> nat option" where
  "parse_u64 s =
     (case parse_digits (case s of [] \<Rightarrow> [] | c # r \<Rightarrow> if c = CHR ''+'' then r else s) of
        None \<Rightarrow> None
      | Some n \<Rightarrow> if n \<le> U64_MAX then Some n else None)"

definition parse_i64 :: "bytes \<Rightarrow> int option" where
  "parse_i64 s =
     (case s of
        [] \<Rightarrow> None
      | c # r \<Rightarrow>
          (case parse_digits (if c = CHR ''+'' \<or> c = CHR ''-'' then r else s) of
             None \<Rightarrow> None
           | Some n \<Rightarrow>
               (let x = (if c = CHR ''-'' then - int n else int n)
                in if in_i64 x then Some x else None)))"

section \<open>Digits\<close>

lemma of_char_digit_char [simp]: "d < 10 \<Longrightarrow> of_char (digit_char d) = 48 + d"
  by (simp add: digit_char_def)

lemma is_ascii_digit_digit_char [simp]: "d < 10 \<Longrightarrow> is_ascii_digit (digit_char d)"
  by (simp add: is_ascii_digit_def)

lemma digit_value_digit_char [simp]: "d < 10 \<Longrightarrow> digit_value (digit_char d) = d"
  by (simp add: digit_value_def)

lemma digit_char_digit_value: "is_ascii_digit c \<Longrightarrow> digit_char (digit_value c) = c"
  by (simp add: is_ascii_digit_def digit_value_def digit_char_def)

lemma digit_value_less: "is_ascii_digit c \<Longrightarrow> digit_value c < 10"
  by (auto simp: is_ascii_digit_def digit_value_def)

lemma digit_char_eq_zero: "d < 10 \<Longrightarrow> digit_char d = CHR ''0'' \<longleftrightarrow> d = 0"
proof -
  assume d: "d < 10"
  have "digit_char d = CHR ''0'' \<longleftrightarrow> (of_char (digit_char d) :: nat) = of_char CHR ''0''"
    by (simp only: of_char_eq_iff)
  with d show ?thesis by simp
qed

lemma digit_not_sign: "is_ascii_digit c \<Longrightarrow> c \<noteq> CHR ''+'' \<and> c \<noteq> CHR ''-''"
  by (auto simp: is_ascii_digit_def)

lemma digits_value_snoc: "digits_value (ds @ [c]) = 10 * digits_value ds + digit_value c"
  by (simp add: digits_value_def)

lemma digits_value_Nil [simp]: "digits_value [] = 0"
  by (simp add: digits_value_def)

section \<open>Printing then reading\<close>

lemma show_nat_ne [simp]: "show_nat n \<noteq> []"
  by (subst show_nat.simps) simp

lemma show_nat_digits: "list_all is_ascii_digit (show_nat n)"
proof (induction n rule: show_nat.induct)
  case (1 n)
  then show ?case by (subst show_nat.simps) simp
qed

lemma digits_value_show_nat [simp]: "digits_value (show_nat n) = n"
proof (induction n rule: show_nat.induct)
  case (1 n)
  show ?case
  proof (cases "n < 10")
    case True
    then show ?thesis
      using digits_value_snoc [of "[]" "digit_char n"] by (simp add: show_nat.simps)
  next
    case False
    with "1" show ?thesis
      by (subst show_nat.simps) (simp add: digits_value_snoc)
  qed
qed

lemma parse_digits_show_nat [simp]: "parse_digits (show_nat n) = Some n"
  by (simp add: parse_digits_def show_nat_digits)

lemma show_nat_hd_digit: "show_nat n = c # r \<Longrightarrow> is_ascii_digit c"
  using show_nat_digits [of n] by simp

lemma parse_u64_show_nat [simp]: "n \<le> U64_MAX \<Longrightarrow> parse_u64 (show_nat n) = Some n"
proof -
  assume n: "n \<le> U64_MAX"
  obtain c r where s: "show_nat n = c # r"
    by (cases "show_nat n") auto
  then have "c \<noteq> CHR ''+''"
    using show_nat_hd_digit digit_not_sign by blast
  then show ?thesis
    using n s parse_digits_show_nat [of n] by (simp add: parse_u64_def)
qed

lemma parse_i64_show_int [simp]: "in_i64 x \<Longrightarrow> parse_i64 (show_int x) = Some x"
proof (cases "x < 0")
  case True
  moreover assume "in_i64 x"
  ultimately show ?thesis by (simp add: parse_i64_def show_int_def)
next
  case False
  assume x: "in_i64 x"
  obtain c r where s: "show_nat (nat x) = c # r"
    by (cases "show_nat (nat x)") auto
  then have "c \<noteq> CHR ''+'' \<and> c \<noteq> CHR ''-''"
    using show_nat_hd_digit digit_not_sign by blast
  then show ?thesis
    using x s False parse_digits_show_nat [of "nat x"] by (simp add: parse_i64_def show_int_def)
qed

lemma length_show_nat: "n < 10 ^ k \<Longrightarrow> 0 < k \<Longrightarrow> length (show_nat n) \<le> k"
proof (induction k arbitrary: n)
  case 0
  then show ?case by simp
next
  case (Suc k)
  show ?case
  proof (cases "n < 10")
    case True
    then show ?thesis by (simp add: show_nat.simps)
  next
    case False
    then have "0 < k" using Suc.prems by (cases k) auto
    moreover have "n div 10 < 10 ^ k" using Suc.prems by (simp add: div_less_iff_less_mult mult.commute)
    ultimately show ?thesis using Suc.IH False by (subst show_nat.simps) simp
  qed
qed

section \<open>Reading then printing\<close>

lemma show_nat_digits_value:
  assumes "list_all is_ascii_digit ds" and "ds \<noteq> []" and "hd ds \<noteq> CHR ''0''"
  shows "show_nat (digits_value ds) = ds \<and> 0 < digits_value ds"
  using assms
proof (induction ds rule: rev_induct)
  case Nil
  then show ?case by simp
next
  case (snoc c ds)
  have c: "digit_value c < 10" "digit_char (digit_value c) = c"
    using snoc.prems by (auto simp: digit_value_less digit_char_digit_value)
  show ?case
  proof (cases "ds = []")
    case True
    have "digit_value c \<noteq> 0"
      using snoc.prems True c digit_char_eq_zero [of "digit_value c"] by auto
    with True c show ?thesis
      using digits_value_snoc [of "[]" c] by (simp add: show_nat.simps)
  next
    case False
    have ih: "show_nat (digits_value ds) = ds \<and> 0 < digits_value ds"
      using snoc False by auto
    let ?n = "digits_value (ds @ [c])"
    have n: "?n = 10 * digits_value ds + digit_value c"
      by (rule digits_value_snoc)
    have "\<not> ?n < 10" "?n div 10 = digits_value ds" "?n mod 10 = digit_value c"
      using n c ih by auto
    with ih c show ?thesis by (subst show_nat.simps) (simp add: n)
  qed
qed

lemma parse_digits_show:
  assumes "parse_digits ds = Some n" and "hd ds \<noteq> CHR ''0''"
  shows "show_nat n = ds" and "0 < n"
  using assms show_nat_digits_value [of ds] by (auto simp: parse_digits_def split: if_splits)

lemma show_nat_inj: "show_nat a = show_nat b \<longleftrightarrow> a = b"
  by (metis digits_value_show_nat)

lemma show_nat_hd_nonzero:
  assumes "0 < n" shows "hd (show_nat n) \<noteq> CHR ''0''"
  using assms
proof (induction n rule: show_nat.induct)
  case (1 n)
  show ?case
  proof (cases "n < 10")
    case True
    with "1.prems" show ?thesis
      by (subst show_nat.simps) (simp add: digit_char_eq_zero)
  next
    case False
    with "1" show ?thesis by (subst show_nat.simps) (simp add: hd_append)
  qed
qed

end
