(* ===== verification/Lifecycle_Time.thy ===== *)
theory Lifecycle_Time
  imports Prelude
begin

text \<open>
  \<^verbatim>\<open>crates/noxide-protocol/src/time.rs\<close>: lifecycle timestamps and durations, whole
  milliseconds in the non-negative half of \<open>i64\<close>.  The private field of the two Rust
  newtypes is the integer itself; \<open>time_ok\<close> is the range their constructors enforce.
\<close>

section \<open>Definitions\<close>

datatype time_error = Negative | Overflow | BeforeEpoch | PrecisionLoss

type_synonym timestamp = int
type_synonym duration = int

definition time_ok :: "int \<Rightarrow> bool" where
  "time_ok t \<longleftrightarrow> 0 \<le> t \<and> t \<le> I64_MAX"

definition timestamp_try_from :: "int \<Rightarrow> time_error + timestamp" where
  "timestamp_try_from v = (if v < 0 then Inl Negative else Inr v)"

definition duration_try_from :: "int \<Rightarrow> time_error + duration" where
  "duration_try_from v = (if v < 0 then Inl Negative else Inr v)"

definition from_unix_millis :: "int \<Rightarrow> time_error + timestamp" where
  "from_unix_millis v = timestamp_try_from v"

definition from_unix_seconds :: "int \<Rightarrow> time_error + timestamp" where
  "from_unix_seconds v =
     (if v < 0 then Inl Negative
      else and_then (ok_or (checked_mul_i64 v 1000) Overflow) timestamp_try_from)"

text \<open>A wall-clock reading is its distance from the epoch in nanoseconds.\<close>

definition from_system_time :: "int \<Rightarrow> time_error + timestamp" where
  "from_system_time nanos =
     (if nanos < 0 then Inl BeforeEpoch
      else let millis = nanos div 1000000
           in if millis \<le> I64_MAX then timestamp_try_from millis else Inl Overflow)"

definition unix_seconds_floor :: "timestamp \<Rightarrow> int" where
  "unix_seconds_floor t = t div 1000"

definition timestamp_checked_add :: "timestamp \<Rightarrow> duration \<Rightarrow> time_error + timestamp" where
  "timestamp_checked_add t d =
     and_then (ok_or (checked_add_i64 t d) Overflow) timestamp_try_from"

definition timestamp_checked_sub :: "timestamp \<Rightarrow> duration \<Rightarrow> time_error + timestamp" where
  "timestamp_checked_sub t d =
     and_then (ok_or (checked_sub_i64 t d) Overflow) timestamp_try_from"

definition timestamp_duration_since :: "timestamp \<Rightarrow> timestamp \<Rightarrow> time_error + duration" where
  "timestamp_duration_since t earlier =
     and_then (ok_or (checked_sub_i64 t earlier) Overflow) duration_try_from"

definition duration_from_millis :: "int \<Rightarrow> time_error + duration" where
  "duration_from_millis v = duration_try_from v"

definition duration_from_secs :: "int \<Rightarrow> time_error + duration" where
  "duration_from_secs v =
     (if v < 0 then Inl Negative
      else and_then (ok_or (checked_mul_i64 v 1000) Overflow) duration_try_from)"

text \<open>\<open>TryFrom<std::time::Duration>\<close>: seconds and a sub-second part in nanoseconds.\<close>

definition duration_from_std :: "nat \<Rightarrow> nat \<Rightarrow> time_error + duration" where
  "duration_from_std secs subsec_nanos =
     (if subsec_nanos mod 1000000 \<noteq> 0 then Inl PrecisionLoss
      else let millis = int secs * 1000 + int subsec_nanos div 1000000
           in if millis \<le> I64_MAX then duration_try_from millis else Inl Overflow)"

lemmas time_defs =
  time_ok_def timestamp_try_from_def duration_try_from_def from_unix_millis_def
  from_unix_seconds_def from_system_time_def unix_seconds_floor_def timestamp_checked_add_def
  timestamp_checked_sub_def timestamp_duration_since_def duration_from_millis_def
  duration_from_secs_def duration_from_std_def

section \<open>Ranges\<close>

lemma timestamp_try_from_Inr [res_simps]:
  "timestamp_try_from v = Inr t \<longleftrightarrow> t = v \<and> 0 \<le> v"
  by (auto simp: timestamp_try_from_def)

lemma duration_try_from_Inr [res_simps]:
  "duration_try_from v = Inr t \<longleftrightarrow> t = v \<and> 0 \<le> v"
  by (auto simp: duration_try_from_def)

lemma timestamp_checked_add_Inr [res_simps]:
  "timestamp_checked_add t d = Inr u \<longleftrightarrow> u = t + d \<and> 0 \<le> u \<and> in_i64 u"
  by (auto simp: timestamp_checked_add_def res_simps)

lemma timestamp_checked_sub_Inr [res_simps]:
  "timestamp_checked_sub t d = Inr u \<longleftrightarrow> u = t - d \<and> 0 \<le> u \<and> in_i64 u"
  by (auto simp: timestamp_checked_sub_def res_simps)

lemma timestamp_duration_since_Inr [res_simps]:
  "timestamp_duration_since t e = Inr d \<longleftrightarrow> d = t - e \<and> 0 \<le> d \<and> in_i64 d"
  by (auto simp: timestamp_duration_since_def res_simps)

lemma time_ok_in_i64: "time_ok t \<Longrightarrow> in_i64 t"
  by (simp add: time_ok_def in_i64_def int_defs)

lemma time_ok_of_add: "0 \<le> u \<Longrightarrow> in_i64 u \<Longrightarrow> time_ok u"
  by (simp add: time_ok_def in_i64_def)

text \<open>Arithmetic is exact whenever it succeeds, and adding a duration is undone by
  subtracting it and measured by \<open>duration_since\<close>.\<close>

lemma timestamp_add_sub_exact:
  assumes "time_ok t" and "time_ok d" and "timestamp_checked_add t d = Inr u"
  shows "u = t + d" and "time_ok u"
    and "timestamp_checked_sub u d = Inr t"
    and "timestamp_duration_since u t = Inr d"
  using assms by (auto simp: res_simps time_ok_of_add time_ok_in_i64) (auto simp: time_ok_def)

end
