(* ===== verification/Contract.thy ===== *)
theory Contract
  imports Prelude Decimal Lifecycle_Time
begin

text \<open>
  \<^verbatim>\<open>crates/noxide-protocol/src/lib.rs\<close> (with the token grammar of \<^verbatim>\<open>blobs.rs\<close> and
  the membership predicate of \<^verbatim>\<open>membership.rs\<close>): the contract vocabulary shared by guest
  and host, the identifier grammars, and the canonical text form of scalar values.
\<close>

section \<open>Field kinds and fields\<close>

datatype account_scope = AccountSameTenant

record choice_variant =
  cv_key :: string
  cv_label :: string

datatype field_kind =
    KText
  | KAccount account_scope
  | KBoolean
  | KBlob nat
  | KUploadHandle nat
  | KTimestamp
  | KDuration int
  | KReference string
  | KInteger "int option" "int option"
  | KChoice "choice_variant list"

record text_field =
  tf_immutable :: bool
  tf_kind :: field_kind
  tf_optional :: bool
  tf_initial :: "string option"
  tf_name :: string
  tf_label :: string
  tf_max_bytes :: nat

record action_input =
  in_name :: string
  in_label :: string
  in_kind :: field_kind
  in_optional :: bool
  in_max_bytes :: nat

text \<open>\<open>Fields\<close> is a \<open>BTreeMap<String, String>\<close>; the models only look keys up.\<close>

type_synonym fields = "string \<rightharpoonup> string"

definition is_immutable :: "text_field \<Rightarrow> bool" where
  "is_immutable f \<longleftrightarrow>
     tf_immutable f
     \<or> (case tf_kind f of KReference _ \<Rightarrow> True | KAccount _ \<Rightarrow> True | KBlob _ \<Rightarrow> True | _ \<Rightarrow> False)"

section \<open>Policies\<close>

datatype related_target = SelfRecord | RelatedReference string

datatype membership_literal = MBoolean bool | MChoice string

record exists_related =
  er_resource :: string
  er_reference :: string
  er_target :: related_target
  er_account :: string
  er_conditions :: "(string \<times> membership_literal) list"

datatype predicate =
    Public
  | Capability
  | Owner
  | SameTenant
  | Service string
  | PrincipalIs string
  | Role string bool
  | ExistsRelated exists_related

record policy =
  any_of :: "predicate list list"

section \<open>Identifier grammars\<close>

definition is_identifier :: "string \<Rightarrow> bool" where
  "is_identifier name \<longleftrightarrow>
     name \<noteq> [] \<and> length name \<le> 32 \<and> is_ascii_lowercase (hd name)
     \<and> list_all (\<lambda>b. is_ascii_lowercase b \<or> is_ascii_digit b \<or> b = CHR ''_'') name"

definition account_id :: "string \<Rightarrow> bool" where
  "account_id v \<longleftrightarrow>
     length v = 43
     \<and> list_all (\<lambda>b. is_ascii_alphanumeric b \<or> b = CHR ''-'' \<or> b = CHR ''_'') v
     \<and> v ! 42 \<in> set ''AEIMQUYcgkosw048''"

definition opaque_token :: "string \<Rightarrow> string \<Rightarrow> string res" where
  "opaque_token prefix v =
     and_then (ok_or (strip_prefix_list prefix v) ''invalid blob token'') (\<lambda>suffix.
     if length suffix \<noteq> 64
        \<or> \<not> list_all (\<lambda>b. is_ascii_digit b \<or> (97 \<le> (of_char b :: nat) \<and> (of_char b :: nat) \<le> 102)) suffix
     then Inl ''invalid blob token'' else Inr v)"

definition blob_ref_parse :: "string \<Rightarrow> string res" where
  "blob_ref_parse = opaque_token ''b1_''"

definition upload_handle_parse :: "string \<Rightarrow> string res" where
  "upload_handle_parse = opaque_token ''u1_''"

section \<open>Canonical scalars\<close>

text \<open>\<open>replace("\r\n", "\n").replace('\r', "\n")\<close>.\<close>

abbreviation CR :: char where "CR \<equiv> CHR 0x0D"
abbreviation LF :: char where "LF \<equiv> CHR 0x0A"
abbreviation TAB :: char where "TAB \<equiv> CHR 0x09"

fun replace_crlf :: "string \<Rightarrow> string" where
  "replace_crlf (a # b # s) = (if a = CR \<and> b = LF then LF # replace_crlf s else a # replace_crlf (b # s))"
| "replace_crlf s = s"

definition replace_cr :: "string \<Rightarrow> string" where
  "replace_cr s = map (\<lambda>c. if c = CR then LF else c) s"

text \<open>\<open>chars().any(|c| c.is_control() \&\& !matches!(c, '\n' | '\t'))\<close> on UTF-8 text: the
  general category Cc is U+0000..U+001F, U+007F and U+0080..U+009F, and the last range is
  encoded as the octet 0xC2 followed by 0x80..0x9F.\<close>

fun has_control :: "string \<Rightarrow> bool" where
  "has_control [] = False"
| "has_control (a # s) =
     (((of_char a :: nat) < 32 \<and> a \<noteq> LF \<and> a \<noteq> TAB) \<or> (of_char a :: nat) = 127
      \<or> (of_char a :: nat) = 194 \<and> s \<noteq> [] \<and> 128 \<le> (of_char (hd s) :: nat) \<and> (of_char (hd s) :: nat) \<le> 159
      \<or> has_control s)"

definition canonical_value :: "field_kind \<Rightarrow> string \<Rightarrow> string res" where
  "canonical_value kind s =
     (case kind of
        KBlob _ \<Rightarrow> blob_ref_parse s
      | KUploadHandle _ \<Rightarrow> upload_handle_parse s
      | KAccount _ \<Rightarrow> if account_id s then Inr s else Inl ''invalid account reference''
      | KText \<Rightarrow>
          (let v = replace_cr (replace_crlf s)
           in if v = [] \<or> has_control v then Inl ''Enter text.'' else Inr v)
      | KBoolean \<Rightarrow>
          if s = ''true'' \<or> s = ''on'' then Inr ''true''
          else if s = ''false'' then Inr ''false''
          else Inl ''Choose true or false.''
      | KReference _ \<Rightarrow>
          (case parse_u64 s of
             None \<Rightarrow> Inl ''invalid reference ID''
           | Some n \<Rightarrow>
               if n = 0 \<or> I64_MAX < int n \<or> show_nat n \<noteq> s then Inl ''invalid reference ID''
               else Inr (show_nat n))
      | KTimestamp \<Rightarrow>
          (case parse_i64 s of
             None \<Rightarrow> Inl ''Enter UTC milliseconds.''
           | Some v \<Rightarrow>
               (case from_unix_millis v of
                  Inl _ \<Rightarrow> Inl ''Timestamp is outside its permitted range.''
                | Inr _ \<Rightarrow> Inr (show_int v)))
      | KDuration max_millis \<Rightarrow>
          (case parse_i64 s of
             None \<Rightarrow> Inl ''Enter whole duration milliseconds.''
           | Some v \<Rightarrow>
               if v < 0 \<or> max_millis < v then Inl ''Duration is outside its permitted range.''
               else Inr (show_int v))
      | KInteger lo hi \<Rightarrow>
          (case parse_i64 s of
             None \<Rightarrow> Inl ''Enter a whole number.''
           | Some v \<Rightarrow>
               if (case lo of None \<Rightarrow> False | Some m \<Rightarrow> v < m) \<or> (case hi of None \<Rightarrow> False | Some m \<Rightarrow> m < v)
               then Inl ''Number is outside the permitted range.'' else Inr (show_int v))
      | KChoice variants \<Rightarrow>
          if list_ex (\<lambda>v. cv_key v = s) variants then Inr s else Inl ''Choose a listed value.'')"

definition canonical_scalar :: "field_kind \<Rightarrow> bool \<Rightarrow> nat \<Rightarrow> string \<Rightarrow> string res" where
  "canonical_scalar kind optional max_bytes s =
     (if optional \<and> s = [] then Inr []
      else and_then (canonical_value kind s) (\<lambda>v.
        if max_bytes < length v
        then Inl (''Use at most '' @ show_nat max_bytes @ '' UTF-8 bytes.'')
        else Inr v))"

definition field_canonical :: "text_field \<Rightarrow> string \<Rightarrow> string res" where
  "field_canonical f s =
     (case tf_kind f of
        KUploadHandle _ \<Rightarrow> Inl ''upload handles are action inputs only''
      | _ \<Rightarrow> canonical_scalar (tf_kind f) (tf_optional f) (tf_max_bytes f) s)"

definition input_canonical :: "action_input \<Rightarrow> string \<Rightarrow> string res" where
  "input_canonical i s =
     (case in_kind i of
        KReference _ \<Rightarrow> Inl ''invalid input kind''
      | KBlob _ \<Rightarrow> Inl ''invalid input kind''
      | _ \<Rightarrow> canonical_scalar (in_kind i) (in_optional i) (in_max_bytes i) s)"

text \<open>\<open>manifest::validate_value\<close>: a stored value must already be in canonical form.\<close>

definition validate_value :: "text_field \<Rightarrow> string \<Rightarrow> unit res" where
  "validate_value f v =
     and_then (field_canonical f v) (\<lambda>c. ensure (c = v) ''noncanonical stored value'' (Inr ()))"

section \<open>Line ends\<close>

lemma replace_crlf_no_CR: "CR \<notin> set s \<Longrightarrow> replace_crlf s = s"
  by (induction s rule: replace_crlf.induct) auto

lemma replace_cr_no_CR: "CR \<notin> set (replace_cr s)"
  by (auto simp: replace_cr_def)

lemma replace_cr_id: "CR \<notin> set s \<Longrightarrow> replace_cr s = s"
  by (auto simp: replace_cr_def intro: map_idI)

lemma normalized_text_fixed:
  "replace_cr (replace_crlf (replace_cr (replace_crlf s))) = replace_cr (replace_crlf s)"
  by (simp add: replace_crlf_no_CR replace_cr_no_CR replace_cr_id)

section \<open>Tokens\<close>

lemma strip_prefix_list_Some [res_simps]:
  "strip_prefix_list p s = Some r \<longleftrightarrow> s = p @ r"
  by (auto simp: strip_prefix_list_def) (metis append_take_drop_id)

lemma opaque_token_Inr [res_simps]:
  "opaque_token p v = Inr w \<longleftrightarrow>
     w = v \<and> (\<exists>r. v = p @ r \<and> length r = 64 \<and>
       list_all (\<lambda>b. is_ascii_digit b \<or> (97 \<le> (of_char b :: nat) \<and> (of_char b :: nat) \<le> 102)) r)"
  by (auto simp: opaque_token_def res_simps)

lemma blob_upload_disjoint: "is_ok (blob_ref_parse v) \<Longrightarrow> \<not> is_ok (upload_handle_parse v)"
  by (auto simp: is_ok_iff blob_ref_parse_def upload_handle_parse_def res_simps)

section \<open>Canonical values are fixed points\<close>

lemma parse_i64_in_i64: "parse_i64 s = Some v \<Longrightarrow> in_i64 v"
  by (auto simp: parse_i64_def Let_def split: list.splits option.splits if_splits)

lemma show_int_ne [simp]: "show_int v \<noteq> []"
  by (simp add: show_int_def)

lemma canonical_value_fixed:
  assumes "canonical_value k s = Inr v"
  shows "canonical_value k v = Inr v"
proof (cases k)
  case KText
  with assms show ?thesis
    by (auto simp: canonical_value_def Let_def normalized_text_fixed split: if_splits)
next
  case (KReference r)
  with assms show ?thesis
    by (auto simp: canonical_value_def split: if_splits option.splits)
next
  case KTimestamp
  with assms show ?thesis
    by (auto simp: canonical_value_def parse_i64_in_i64 split: if_splits option.splits sum.splits)
next
  case (KDuration m)
  with assms show ?thesis
    by (auto simp: canonical_value_def parse_i64_in_i64 split: if_splits option.splits)
next
  case (KInteger lo hi)
  with assms show ?thesis
    by (auto simp: canonical_value_def parse_i64_in_i64 split: if_splits option.splits)
next
  case (KBlob n)
  with assms show ?thesis
    by (auto simp: canonical_value_def blob_ref_parse_def res_simps)
next
  case (KUploadHandle n)
  with assms show ?thesis
    by (auto simp: canonical_value_def upload_handle_parse_def res_simps)
qed (use assms in \<open>auto simp: canonical_value_def split: if_splits\<close>)

lemma canonical_scalar_fixed:
  assumes "canonical_scalar k opt m s = Inr v"
  shows "canonical_scalar k opt m v = Inr v"
proof (cases "opt \<and> s = []")
  case True
  with assms show ?thesis by (simp add: canonical_scalar_def)
next
  case False
  with assms have v: "canonical_value k s = Inr v" "length v \<le> m"
    by (auto simp: canonical_scalar_def res_simps split: if_splits)
  from canonical_value_fixed [OF v(1)] v(2) show ?thesis
    by (auto simp: canonical_scalar_def)
qed

lemma canonical_scalar_bound:
  "canonical_scalar k opt m s = Inr v \<Longrightarrow> length v \<le> m"
  by (auto simp: canonical_scalar_def res_simps split: if_splits)

lemma field_canonical_eq:
  "field_canonical f s = Inr v \<Longrightarrow>
     canonical_scalar (tf_kind f) (tf_optional f) (tf_max_bytes f) s = Inr v
     \<and> field_canonical f v = canonical_scalar (tf_kind f) (tf_optional f) (tf_max_bytes f) v"
  by (auto simp: field_canonical_def split: field_kind.splits)

lemma field_canonical_fixed:
  "field_canonical f s = Inr v \<Longrightarrow> field_canonical f v = Inr v"
  using field_canonical_eq canonical_scalar_fixed by metis

lemma input_canonical_fixed:
  "input_canonical i s = Inr v \<Longrightarrow> input_canonical i v = Inr v"
  by (auto simp: input_canonical_def canonical_scalar_fixed split: field_kind.splits)

lemma validate_value_iff: "validate_value f v = Inr () \<longleftrightarrow> field_canonical f v = Inr v"
  by (auto simp: validate_value_def res_simps)

text \<open>C21: canonicalisation of a stored field is a projection: what it returns is accepted
  unchanged by a second pass and by \<open>validate_value\<close>, so a value that was canonicalised once
  can be stored, re-read and compared as text.  The result never exceeds the declared bytes.\<close>

theorem field_canonical_projection:
  assumes "field_canonical f s = Inr v"
  shows "field_canonical f v = Inr v \<and> validate_value f v = Inr () \<and> length v \<le> tf_max_bytes f"
  using assms field_canonical_fixed [OF assms] field_canonical_eq [OF assms]
  by (auto simp: validate_value_iff dest: canonical_scalar_bound)

theorem field_canonical_projection_witness:
  "field_canonical \<lparr>tf_immutable = False, tf_kind = KInteger (Some 1) (Some 10), tf_optional = False,
     tf_initial = None, tf_name = ''n'', tf_label = ''N'', tf_max_bytes = 20\<rparr> ''+07'' = Inr ''7''
   \<and> validate_value \<lparr>tf_immutable = False, tf_kind = KInteger (Some 1) (Some 10), tf_optional = False,
     tf_initial = None, tf_name = ''n'', tf_label = ''N'', tf_max_bytes = 20\<rparr> ''7'' = Inr ()"
proof -
  let ?f = "\<lparr>tf_immutable = False, tf_kind = KInteger (Some 1) (Some 10), tf_optional = False,
     tf_initial = None, tf_name = ''n'', tf_label = ''N'', tf_max_bytes = 20\<rparr>"
  have h: "field_canonical ?f ''+07'' = Inr ''7''"
    by code_simp
  from field_canonical_projection [OF h] h show ?thesis by simp
qed

end
