(* ===== verification/Sql_Text.thy ===== *)
theory Sql_Text
  imports Prelude Decimal Contract
begin

text \<open>
  \<^verbatim>\<open>crates/noxide-sql/src/lib.rs\<close> and the field expressions of
  \<^verbatim>\<open>crates/noxide-admission/src/query_plan/indexes.rs\<close>: statement text assembled from
  literals, checked identifiers and numbers, with run-time values travelling as bound
  parameters.  A \<open>Sql\<close> value is its text.
\<close>

section \<open>Definitions\<close>

type_synonym sql = string

datatype param = PText string | PNumber int

datatype native_provider = Sqlite | Postgres

abbreviation DQUOTE :: char where "DQUOTE \<equiv> CHR 0x22"
abbreviation SQUOTE :: char where "SQUOTE \<equiv> CHR 0x27"

definition sql_identifier :: "string \<Rightarrow> sql res" where
  "sql_identifier name =
     ensure (name \<noteq> [] \<and> length name \<le> 64 \<and> \<not> is_ascii_digit (hd name)
             \<and> list_all (\<lambda>b. b = CHR ''_'' \<or> is_ascii_alphanumeric b) name)
       ''invalid SQL identifier'' (Inr name)"

fun sql_join :: "sql list \<Rightarrow> string \<Rightarrow> sql" where
  "sql_join [] sep = []"
| "sql_join [p] sep = p"
| "sql_join (p # q # ps) sep = p @ sep @ sql_join (q # ps) sep"

text \<open>\<open>collect::<Result<Vec<_>>>()\<close>: the first error, or every value.\<close>

fun res_list :: "('e + 'a) list \<Rightarrow> 'e + 'a list" where
  "res_list [] = Inr []"
| "res_list (r # rs) = and_then r (\<lambda>a. and_then (res_list rs) (\<lambda>as. Inr (a # as)))"

definition field_on :: "native_provider \<Rightarrow> string \<Rightarrow> string \<Rightarrow> sql res" where
  "field_on provider column field =
     ensure (is_identifier field) ''invalid field''
       (and_then (sql_identifier field) (\<lambda>field.
        and_then (res_list (map sql_identifier (split_on CHR ''.'' column))) (\<lambda>parts.
        let column = sql_join parts ''.'' in
        Inr (case provider of
               Sqlite \<Rightarrow> ''json_extract('' @ column @ '', '' @ [SQUOTE] @ ''$.'' @ [DQUOTE] @ field
                 @ [DQUOTE, SQUOTE] @ '')''
             | Postgres \<Rightarrow> ''('' @ column @ ''::jsonb ->> '' @ [SQUOTE] @ field @ [SQUOTE] @ '')''))))"

definition field_expression :: "native_provider \<Rightarrow> string \<Rightarrow> sql res" where
  "field_expression provider field = field_on provider ''fields'' field"

definition qualified_field :: "native_provider \<Rightarrow> string \<Rightarrow> string \<Rightarrow> sql res" where
  "qualified_field provider alias field =
     ensure (is_identifier alias) ''invalid table alias''
       (field_on provider (alias @ ''.fields'') field)"

definition placeholder :: "param list \<Rightarrow> sql" where
  "placeholder params = ''$'' @ show_nat (length params)"

section \<open>Checked identifiers\<close>

lemma is_identifier_sql_identifier:
  assumes "is_identifier f"
  shows "sql_identifier f = Inr f"
proof -
  have "is_ascii_lowercase (hd f) \<Longrightarrow> \<not> is_ascii_digit (hd f)"
    by (auto simp: ascii_defs)
  moreover have "list_all (\<lambda>b. b = CHR ''_'' \<or> is_ascii_alphanumeric b) f"
    using assms
    by (auto simp: is_identifier_def is_ascii_alphanumeric_def is_ascii_alphabetic_def list_all_iff)
  ultimately show ?thesis
    using assms by (auto simp: sql_identifier_def is_identifier_def)
qed

lemma sql_identifier_plain:
  "sql_identifier n = Inr s \<Longrightarrow> s = n \<and> list_all (\<lambda>b. b = CHR ''_'' \<or> is_ascii_alphanumeric b) s"
  by (auto simp: sql_identifier_def split: if_splits)

lemma field_expression_total:
  assumes "is_identifier f"
  shows "\<exists>t. field_expression p f = Inr t"
proof -
  have "res_list (map sql_identifier (split_on CHR ''.'' ''fields'')) = Inr [''fields'']"
    by code_simp
  then show ?thesis
    using assms by (simp add: field_expression_def field_on_def is_identifier_sql_identifier Let_def)
qed

lemma field_on_rejects: "\<not> is_identifier f \<Longrightarrow> field_on p c f = Inl ''invalid field''"
  by (simp add: field_on_def)

end
