(* ===== verification/Filter_Text.thy ===== *)
theory Filter_Text
  imports Prelude Decimal Contract Sql_Text
begin

text \<open>
  The SQL subset a compiled policy filter is written in (\<^verbatim>\<open>filter_with\<close> in
  \<^verbatim>\<open>crates/noxide-admission/src/policy.rs\<close>): terms \<open>1=1\<close>, \<open>1=0\<close> and
  \<open>column=$n\<close>, clauses \<open>(term AND term)\<close>, a disjunction of clauses.  \<open>render_*\<close> prints the
  structure and \<open>read_*\<close> recovers it from the text alone, so that the meaning of a filter is a
  function of the text the code emits.
\<close>

section \<open>The language\<close>

datatype filter_column = OwnerColumn | TenantColumn | FieldColumn string

datatype filter_ast =
    TTrue
  | TFalse
  | TEq filter_column nat

definition column_text :: "native_provider \<Rightarrow> filter_column \<Rightarrow> sql" where
  "column_text provider c =
     (case c of
        OwnerColumn \<Rightarrow> ''owner''
      | TenantColumn \<Rightarrow> ''tenant''
      | FieldColumn f \<Rightarrow> (case field_expression provider f of Inl _ \<Rightarrow> [] | Inr t \<Rightarrow> t))"

fun render_term :: "native_provider \<Rightarrow> filter_ast \<Rightarrow> sql" where
  "render_term provider TTrue = ''1=1''"
| "render_term provider TFalse = ''1=0''"
| "render_term provider (TEq c n) = column_text provider c @ ''='' @ ''$'' @ show_nat n"

definition render_clause :: "native_provider \<Rightarrow> filter_ast list \<Rightarrow> sql" where
  "render_clause provider ts =
     (if ts = [] then ''1=0'' else ''('' @ sql_join (map (render_term provider) ts) '' AND '' @ '')'')"

fun ast_ok :: "filter_ast \<Rightarrow> bool" where
  "ast_ok (TEq (FieldColumn f) n) = is_identifier f"
| "ast_ok _ = True"

section \<open>Reading the text\<close>

text \<open>\<open>split_words w t\<close> cuts the text at every occurrence of the word \<open>w\<close> between spaces.\<close>

definition split_words :: "string \<Rightarrow> sql \<Rightarrow> sql list" where
  "split_words w t = map (\<lambda>ws. sql_join ws '' '') (split_on w (split_on CHR '' '' t))"

definition field_before :: "native_provider \<Rightarrow> sql" where
  "field_before provider =
     (case provider of
        Sqlite \<Rightarrow> ''json_extract(fields, '' @ [SQUOTE] @ ''$.'' @ [DQUOTE]
      | Postgres \<Rightarrow> ''(fields::jsonb ->> '' @ [SQUOTE])"

definition field_after :: "native_provider \<Rightarrow> sql" where
  "field_after provider =
     (case provider of Sqlite \<Rightarrow> [DQUOTE, SQUOTE] @ '')'' | Postgres \<Rightarrow> [SQUOTE] @ '')'')"

definition read_column :: "native_provider \<Rightarrow> sql \<Rightarrow> filter_column option" where
  "read_column provider t =
     (if t = ''owner'' then Some OwnerColumn
      else if t = ''tenant'' then Some TenantColumn
      else let f = drop (length (field_before provider))
                     (take (length t - length (field_after provider)) t)
           in if is_identifier f \<and> t = field_before provider @ f @ field_after provider
              then Some (FieldColumn f) else None)"

definition read_term :: "native_provider \<Rightarrow> sql \<Rightarrow> filter_ast option" where
  "read_term provider t =
     (if t = ''1=1'' then Some TTrue
      else if t = ''1=0'' then Some TFalse
      else case split_once CHR ''='' t of
             Some (c, CHR ''$'' # ds) \<Rightarrow>
               (case (read_column provider c, parse_digits ds) of
                  (Some c, Some n) \<Rightarrow> Some (TEq c n)
                | _ \<Rightarrow> None)
           | _ \<Rightarrow> None)"

fun read_all :: "('a \<Rightarrow> 'b option) \<Rightarrow> 'a list \<Rightarrow> 'b list option" where
  "read_all rd [] = Some []"
| "read_all rd (x # xs) =
     (case (rd x, read_all rd xs) of (Some y, Some ys) \<Rightarrow> Some (y # ys) | _ \<Rightarrow> None)"

definition read_clause :: "native_provider \<Rightarrow> sql \<Rightarrow> filter_ast list option" where
  "read_clause provider t =
     (if t = ''1=0'' then Some [TFalse]
      else if t \<noteq> [] \<and> hd t = CHR ''('' \<and> last t = CHR '')''
           then read_all (read_term provider) (split_words ''AND'' (butlast (tl t)))
           else None)"

definition read_filter :: "native_provider \<Rightarrow> sql \<Rightarrow> filter_ast list list option" where
  "read_filter provider t = read_all (read_clause provider) (split_words ''OR'' t)"

section \<open>Reading inverts printing\<close>

lemma split_on_ne [simp]: "split_on c t \<noteq> []"
  by (induction t) (auto split: list.splits)

lemma split_on_append: "split_on c (x @ c # y) = split_on c x @ split_on c y"
  by (induction x) (auto split: list.splits)

lemma split_on_absent: "c \<notin> set x \<Longrightarrow> split_on c x = [x]"
  by (induction x) auto

lemma split_on_chars: "w \<in> set (split_on c t) \<Longrightarrow> set w \<subseteq> set t"
  by (induction t arbitrary: w) (fastforce split: if_splits list.splits)+

lemma sql_join_Cons: "ps \<noteq> [] \<Longrightarrow> sql_join (p # ps) sep = p @ sep @ sql_join ps sep"
  by (cases ps) auto

lemma sql_join_split_on [simp]: "sql_join (split_on c t) [c] = t"
proof (induction t)
  case (Cons x t)
  then show ?case
    by (cases "split_on c t") (auto simp: sql_join_Cons, metis append_Cons sql_join.simps(2) sql_join_Cons)
qed simp

lemma split_words_absent:
  assumes "hd w \<notin> set t" and "w \<noteq> []"
  shows "split_words w t = [t]"
proof -
  have "w \<notin> set (split_on CHR '' '' t)"
    using assms split_on_chars by (metis hd_in_set subsetD)
  then show ?thesis by (simp add: split_words_def split_on_absent)
qed

lemma split_words_append:
  assumes "CHR '' '' \<notin> set w"
  shows "split_words w (x @ '' '' @ w @ '' '' @ y) = split_words w x @ split_words w y"
proof -
  have "split_on CHR '' '' (x @ CHR '' '' # (w @ CHR '' '' # y))
      = split_on CHR '' '' x @ w # split_on CHR '' '' y"
    by (simp only: split_on_append split_on_absent [OF assms] append_Cons append_Nil)
  then show ?thesis by (simp add: split_words_def split_on_append)
qed

lemma split_words_join:
  assumes "ts \<noteq> []" and "CHR '' '' \<notin> set w" and "w \<noteq> []"
    and "\<And>t. t \<in> set ts \<Longrightarrow> hd w \<notin> set t"
  shows "split_words w (sql_join ts ('' '' @ w @ '' '')) = ts"
  using assms
proof (induction ts)
  case (Cons t ts)
  show ?case
  proof (cases "ts = []")
    case True
    then show ?thesis using Cons.prems by (simp add: split_words_absent)
  next
    case False
    then show ?thesis
      using Cons split_words_append [of w t "sql_join ts ('' '' @ w @ '' '')"]
      by (simp add: sql_join_Cons split_words_absent)
  qed
qed simp

lemma read_all_map:
  "(\<And>x. x \<in> set xs \<Longrightarrow> rd (f x) = Some (g x)) \<Longrightarrow> read_all rd (map f xs) = Some (map g xs)"
  by (induction xs) auto

lemma identifier_chars:
  assumes "is_identifier f" and "c \<in> set f"
  shows "is_ascii_lowercase c \<or> is_ascii_digit c \<or> c = CHR ''_''"
  using assms by (auto simp: is_identifier_def list_all_iff)

lemma field_column_text:
  assumes "is_identifier f"
  shows "column_text provider (FieldColumn f) = field_before provider @ f @ field_after provider"
proof -
  have "res_list (map sql_identifier (split_on CHR ''.'' ''fields'')) = Inr [''fields'']"
    by code_simp
  then show ?thesis
    using assms
    by (cases provider) (simp_all add: column_text_def field_expression_def field_on_def
        is_identifier_sql_identifier Let_def field_before_def field_after_def)
qed

text \<open>The characters a column is printed with: no capital, no equality sign.\<close>

lemma column_text_chars:
  assumes "ast_ok (TEq c n)" and "b \<in> set (column_text provider c)"
  shows "b \<noteq> CHR ''A'' \<and> b \<noteq> CHR ''O'' \<and> b \<noteq> CHR ''=''"
proof (cases c)
  case (FieldColumn f)
  have "is_ascii_lowercase b \<or> is_ascii_digit b \<or> b = CHR ''_'' \<Longrightarrow> ?thesis"
    by (auto simp: ascii_defs)
  with FieldColumn assms show ?thesis
    using identifier_chars [of f b]
    by (cases provider) (auto simp: field_column_text field_before_def field_after_def)
qed (use assms in \<open>auto simp: column_text_def\<close>)

lemma show_nat_chars: "b \<in> set (show_nat n) \<Longrightarrow> is_ascii_digit b"
  using show_nat_digits [of n] by (simp add: list_all_iff)

lemma render_term_chars:
  assumes "ast_ok t" and "b \<in> set (render_term provider t)"
  shows "b \<noteq> CHR ''A'' \<and> b \<noteq> CHR ''O''"
proof (cases t)
  case (TEq c n)
  have "is_ascii_digit b \<Longrightarrow> ?thesis" by (auto simp: ascii_defs)
  with TEq assms show ?thesis
    using column_text_chars [of c n b provider] show_nat_chars [of b n] by auto
qed (use assms in auto)

lemma read_column_text:
  assumes "ast_ok (TEq c n)"
  shows "read_column provider (column_text provider c) = Some c"
proof (cases c)
  case (FieldColumn f)
  then have f: "is_identifier f" using assms by simp
  have "hd (field_before provider @ g) \<noteq> CHR ''o'' \<and> hd (field_before provider @ g) \<noteq> CHR ''t''" for g
    by (cases provider) (auto simp: field_before_def)
  then have "field_before provider @ g \<noteq> ''owner'' \<and> field_before provider @ g \<noteq> ''tenant''" for g
    by (metis list.sel(1))
  then show ?thesis
    using f FieldColumn by (simp add: read_column_def field_column_text)
qed (simp_all add: read_column_def column_text_def)

lemma split_once_append: "c \<notin> set x \<Longrightarrow> split_once c (x @ c # y) = Some (x, y)"
  by (induction x) auto

lemma read_term_render:
  assumes "ast_ok t"
  shows "read_term provider (render_term provider t) = Some t"
proof (cases t)
  case (TEq c n)
  have "CHR ''='' \<notin> set (column_text provider c)"
    using assms TEq column_text_chars by blast
  then have s: "split_once CHR ''='' (render_term provider t)
      = Some (column_text provider c, CHR ''$'' # show_nat n)"
    using TEq by (simp add: split_once_append)
  have "split_once CHR ''='' ''1=1'' \<noteq> Some (x, CHR ''$'' # y)"
    "split_once CHR ''='' ''1=0'' \<noteq> Some (x, CHR ''$'' # y)" for x y by simp_all
  with s have "render_term provider t \<noteq> ''1=1''" "render_term provider t \<noteq> ''1=0''"
    by auto
  then show ?thesis
    using s TEq assms read_column_text [of c n provider] by (simp add: read_term_def)
qed (simp_all add: read_term_def)

definition clause_ast :: "filter_ast list \<Rightarrow> filter_ast list" where
  "clause_ast ts = (if ts = [] then [TFalse] else ts)"

lemma read_clause_render:
  assumes "list_all ast_ok ts"
  shows "read_clause provider (render_clause provider ts) = Some (clause_ast ts)"
proof (cases "ts = []")
  case False
  let ?j = "sql_join (map (render_term provider) ts) '' AND ''"
  have "split_words ''AND'' ?j = map (render_term provider) ts"
    using split_words_join [of "map (render_term provider) ts" "''AND''"] False assms
      render_term_chars by (fastforce simp: list_all_iff)
  moreover have "read_all (read_term provider) (map (render_term provider) ts) = Some (map id ts)"
    using assms read_term_render by (intro read_all_map) (auto simp: list_all_iff)
  ultimately show ?thesis
    using False by (simp add: read_clause_def render_clause_def clause_ast_def)
qed (simp add: read_clause_def render_clause_def clause_ast_def)

lemma sql_join_chars: "set (sql_join ps sep) \<subseteq> \<Union> (set ` set ps) \<union> set sep"
  by (induction ps sep rule: sql_join.induct) auto

lemma render_clause_chars:
  assumes "list_all ast_ok ts"
  shows "CHR ''O'' \<notin> set (render_clause provider ts)"
proof -
  have "CHR ''O'' \<notin> \<Union> (set ` set (map (render_term provider) ts)) \<union> set '' AND ''"
    using assms render_term_chars by (auto simp: list_all_iff)
  then have "CHR ''O'' \<notin> set (sql_join (map (render_term provider) ts) '' AND '')"
    using sql_join_chars by blast
  then show ?thesis by (simp add: render_clause_def)
qed

lemma read_filter_render:
  assumes "cs \<noteq> []" and "list_all (list_all ast_ok) cs"
  shows "read_filter provider (sql_join (map (render_clause provider) cs) '' OR '')
           = Some (map clause_ast cs)"
proof -
  have "split_words ''OR'' (sql_join (map (render_clause provider) cs) '' OR '')
      = map (render_clause provider) cs"
    using split_words_join [of "map (render_clause provider) cs" "''OR''"] assms
      render_clause_chars by (fastforce simp: list_all_iff)
  moreover have "read_all (read_clause provider) (map (render_clause provider) cs)
      = Some (map clause_ast cs)"
    using assms(2) read_clause_render by (intro read_all_map) (auto simp: list_all_iff)
  ultimately show ?thesis by (simp add: read_filter_def)
qed

end
