(* ===== verification/Policy.thy ===== *)
theory Policy
  imports Prelude Contract Sql_Text Filter_Text
begin

text \<open>
  \<^verbatim>\<open>crates/noxide-admission/src/policy.rs\<close> and \<^verbatim>\<open>principal.rs\<close>: binding a policy
  predicate to a principal, the row check \<open>allowed_with\<close>, the SQL filter compiled from the
  same binding, and the relaxed scan policies of merged list queries.
\<close>

section \<open>Principals\<close>

record service_identity =
  svc_deployment :: string
  svc_tenant :: string
  svc_worker :: string

record user =
  user_id :: string
  user_tenant :: string
  user_roles :: "(string \<times> string) list"

datatype principal = Anonymous | User user | ServicePrincipal service_identity

datatype principal_key =
    KeyAnonymous
  | KeyUser string string
  | KeyService string string string

definition authority_key :: "principal \<Rightarrow> principal_key" where
  "authority_key p =
     (case p of
        Anonymous \<Rightarrow> KeyAnonymous
      | User u \<Rightarrow> KeyUser (user_id u) (user_tenant u)
      | ServicePrincipal s \<Rightarrow> KeyService (svc_deployment s) (svc_tenant s) (svc_worker s))"

section \<open>Binding and the row check\<close>

datatype condition =
    Allow
  | Deny
  | OwnerIs string
  | TenantIs string
  | AccountIs string string
  | Related exists_related

definition role_granted :: "user \<Rightarrow> string \<Rightarrow> bool \<Rightarrow> bool" where
  "role_granted u name tenant_scoped \<longleftrightarrow>
     list_ex (\<lambda>(r, t). r = name
       \<and> (if tenant_scoped then t \<noteq> [] \<and> t = user_tenant u else t = [])) (user_roles u)"

definition bind_predicate :: "predicate \<Rightarrow> principal \<Rightarrow> condition" where
  "bind_predicate p pr =
     (case pr of
        ServicePrincipal s \<Rightarrow>
          (case p of
             Public \<Rightarrow> TenantIs (svc_tenant s)
           | SameTenant \<Rightarrow> TenantIs (svc_tenant s)
           | Service worker \<Rightarrow> if svc_worker s = worker then TenantIs (svc_tenant s) else Deny
           | _ \<Rightarrow> Deny)
      | Anonymous \<Rightarrow> (case p of Public \<Rightarrow> Allow | _ \<Rightarrow> Deny)
      | User u \<Rightarrow>
          (case p of
             Public \<Rightarrow> Allow
           | Service _ \<Rightarrow> Deny
           | Capability \<Rightarrow> Deny
           | PrincipalIs field \<Rightarrow> AccountIs field (user_id u)
           | Owner \<Rightarrow> OwnerIs (user_id u)
           | SameTenant \<Rightarrow> if user_tenant u = [] then Deny else TenantIs (user_tenant u)
           | ExistsRelated e \<Rightarrow> Related e
           | Role name tenant_scoped \<Rightarrow>
               if \<not> role_granted u name tenant_scoped then Deny
               else if tenant_scoped then TenantIs (user_tenant u) else Allow))"

record row =
  row_owner :: string
  row_tenant :: string
  row_fields :: fields

definition condition_holds :: "(exists_related \<Rightarrow> bool) \<Rightarrow> row \<Rightarrow> condition \<Rightarrow> bool" where
  "condition_holds related r c =
     (case c of
        AccountIs field account \<Rightarrow> (case row_fields r field of None \<Rightarrow> False | Some v \<Rightarrow> v = account)
      | Related e \<Rightarrow> related e
      | Allow \<Rightarrow> True
      | Deny \<Rightarrow> False
      | OwnerIs v \<Rightarrow> row_owner r = v
      | TenantIs v \<Rightarrow> row_tenant r = v)"

definition allowed_with :: "policy \<Rightarrow> principal \<Rightarrow> row \<Rightarrow> (exists_related \<Rightarrow> bool) \<Rightarrow> bool" where
  "allowed_with pol pr r related \<longleftrightarrow>
     list_ex (\<lambda>rule. rule \<noteq> []
       \<and> list_all (\<lambda>p. condition_holds related r (bind_predicate p pr)) rule) (any_of pol)"

definition allowed :: "policy \<Rightarrow> principal \<Rightarrow> row \<Rightarrow> bool" where
  "allowed pol pr r = allowed_with pol pr r (\<lambda>_. False)"

section \<open>The compiled filter\<close>

text \<open>Clause compilation threads the parameter vector; a membership predicate is compiled by
  the caller's closure \<open>related\<close>.  The two \<open>expect\<close> panics are error values.\<close>

type_synonym compiler = "exists_related \<Rightarrow> param list \<Rightarrow> (sql \<times> param list) res"

definition membership_deny :: compiler where
  "membership_deny e params = Inr (''1=0'', params)"

definition filter_term ::
  "native_provider \<Rightarrow> compiler \<Rightarrow> condition \<Rightarrow> param list \<Rightarrow> (sql \<times> param list) res" where
  "filter_term provider related c params =
     (case c of
        Related e \<Rightarrow> related e params
      | AccountIs field account \<Rightarrow>
          (let params = params @ [PText account] in
           (case field_expression provider field of
              Inl _ \<Rightarrow> Inl ''admitted account field''
            | Inr expr \<Rightarrow> Inr (expr @ ''='' @ placeholder params, params)))
      | Allow \<Rightarrow> Inr (''1=1'', params)
      | Deny \<Rightarrow> Inr (''1=0'', params)
      | OwnerIs v \<Rightarrow> (let params = params @ [PText v] in Inr (''owner='' @ placeholder params, params))
      | TenantIs v \<Rightarrow> (let params = params @ [PText v] in Inr (''tenant='' @ placeholder params, params)))"

fun filter_rule ::
  "native_provider \<Rightarrow> compiler \<Rightarrow> principal \<Rightarrow> predicate list \<Rightarrow> param list
     \<Rightarrow> (sql list \<times> param list) res" where
  "filter_rule provider related pr [] params = Inr ([], params)"
| "filter_rule provider related pr (p # ps) params =
     and_then (filter_term provider related (bind_predicate p pr) params) (\<lambda>(t, params).
     and_then (filter_rule provider related pr ps params) (\<lambda>(ts, params). Inr (t # ts, params)))"

fun filter_rules ::
  "native_provider \<Rightarrow> compiler \<Rightarrow> principal \<Rightarrow> predicate list list \<Rightarrow> param list
     \<Rightarrow> (sql list \<times> param list) res" where
  "filter_rules provider related pr [] params = Inr ([], params)"
| "filter_rules provider related pr (rule # rules) params =
     and_then
       (if rule = [] then Inr (''1=0'', params)
        else and_then (filter_rule provider related pr rule params) (\<lambda>(terms, params).
               Inr (''('' @ sql_join terms '' AND '' @ '')'', params)))
       (\<lambda>(c, params).
     and_then (filter_rules provider related pr rules params) (\<lambda>(cs, params). Inr (c # cs, params)))"

definition filter_with ::
  "native_provider \<Rightarrow> policy \<Rightarrow> principal \<Rightarrow> param list \<Rightarrow> compiler \<Rightarrow> (sql list \<times> param list) res" where
  "filter_with provider pol pr params related =
     (if any_of pol = [] then Inr ([''1=0''], params)
      else filter_rules provider related pr (any_of pol) params)"

definition policy_filter ::
  "native_provider \<Rightarrow> policy \<Rightarrow> principal \<Rightarrow> param list \<Rightarrow> (sql list \<times> param list) res" where
  "policy_filter provider pol pr params = filter_with provider pol pr params membership_deny"

definition authorized_sql :: "sql list \<Rightarrow> sql" where
  "authorized_sql clauses = sql_join clauses '' OR ''"

section \<open>Scan strategies\<close>

record scan_rule =
  scan_rule_index :: nat
  scan_exact :: bool

datatype list_strategy_result = Single | Merge "scan_rule list"

definition residual_strategy :: "policy \<Rightarrow> list_strategy_result" where
  "residual_strategy pol =
     Merge (map (\<lambda>i. \<lparr>scan_rule_index = i, scan_exact = False\<rparr>) [0..<length (any_of pol)])"

fun is_related :: "predicate \<Rightarrow> bool" where
  "is_related (ExistsRelated _) = True"
| "is_related _ = False"

fun is_identity :: "predicate \<Rightarrow> bool" where
  "is_identity Owner = True"
| "is_identity (PrincipalIs _) = True"
| "is_identity _ = False"

fun is_principal_is :: "predicate \<Rightarrow> bool" where
  "is_principal_is (PrincipalIs _) = True"
| "is_principal_is _ = False"

fun is_service :: "predicate \<Rightarrow> bool" where
  "is_service (Service _) = True"
| "is_service _ = False"

definition list_strategy :: "policy \<Rightarrow> bool \<Rightarrow> list_strategy_result" where
  "list_strategy pol scoped =
     (if \<not> list_ex (\<lambda>p. is_principal_is p \<or> is_related p) (concat (any_of pol)) then Single
      else Merge (map (\<lambda>(i, atoms).
             \<lparr>scan_rule_index = i,
              scan_exact = (\<not> scoped \<and> \<not> list_ex is_related atoms
                            \<and> length (filter is_identity atoms) \<le> 1)\<rparr>)
           (enumerate 0 (any_of pol))))"

definition scan_policy :: "policy \<Rightarrow> scan_rule \<Rightarrow> policy" where
  "scan_policy pol scan =
     (let atoms = any_of pol ! scan_rule_index scan;
          rule = (if scan_exact scan then atoms
                  else if list_ex is_service atoms
                       then filter (\<lambda>a. is_service a \<or> a = SameTenant) atoms
                  else (case List.find is_identity atoms of None \<Rightarrow> [] | Some a \<Rightarrow> [a]))
      in \<lparr>any_of = [if rule = [] then [Public] else rule]\<rparr>)"

datatype index_column = ColOwner | ColTenant | ColField string | ColTimestamp string

fun identity_column :: "predicate \<Rightarrow> index_column option" where
  "identity_column Owner = Some ColOwner"
| "identity_column (PrincipalIs field) = Some (ColField field)"
| "identity_column _ = None"

fun binds_tenant :: "predicate \<Rightarrow> bool" where
  "binds_tenant SameTenant = True"
| "binds_tenant (Service _) = True"
| "binds_tenant (Role _ tenant_scoped) = tenant_scoped"
| "binds_tenant _ = False"

fun find_map :: "('a \<Rightarrow> 'b option) \<Rightarrow> 'a list \<Rightarrow> 'b option" where
  "find_map f [] = None"
| "find_map f (x # xs) = (case f x of Some y \<Rightarrow> Some y | None \<Rightarrow> find_map f xs)"

definition index_prefix :: "policy \<Rightarrow> scan_rule option \<Rightarrow> index_column list" where
  "index_prefix pol scan =
     (case (case scan of
              Some s \<Rightarrow> Some (any_of pol ! scan_rule_index s)
            | None \<Rightarrow> if length (any_of pol) = 1 then Some (any_of pol ! 0) else None) of
        None \<Rightarrow> []
      | Some atoms \<Rightarrow>
          (let columns = (case find_map identity_column atoms of None \<Rightarrow> [] | Some c \<Rightarrow> [c]);
               tenant = list_ex binds_tenant atoms;
               service = list_ex is_service atoms
           in if tenant
                 \<and> (service \<or> (case scan of None \<Rightarrow> True | Some s \<Rightarrow> scan_exact s))
                 \<and> (scan \<noteq> None \<or> columns = [])
              then columns @ [ColTenant] else columns))"

section \<open>Row checks\<close>

lemma allowed_with_iff:
  "allowed_with pol pr r rel \<longleftrightarrow>
     (\<exists>rule \<in> set (any_of pol). rule \<noteq> [] \<and>
        (\<forall>p \<in> set rule. condition_holds rel r (bind_predicate p pr)))"
  by (simp add: allowed_with_def list_ex_iff list_all_iff)

lemma condition_holds_mono:
  "condition_holds (\<lambda>_. False) r c \<Longrightarrow> condition_holds rel r c"
  by (auto simp: condition_holds_def split: condition.splits)

lemma allowed_imp_allowed_with: "allowed pol pr r \<Longrightarrow> allowed_with pol pr r rel"
  unfolding allowed_def allowed_with_iff using condition_holds_mono by blast

lemma service_condition:
  "condition_holds rel r (bind_predicate p (ServicePrincipal s)) \<Longrightarrow> row_tenant r = svc_tenant s"
  by (auto simp: bind_predicate_def condition_holds_def split: predicate.splits if_splits)

lemma anonymous_condition:
  "condition_holds rel r (bind_predicate p Anonymous) \<longleftrightarrow> p = Public"
  by (auto simp: bind_predicate_def condition_holds_def split: predicate.splits)

text \<open>An anonymous visitor is admitted to a row exactly when some non-empty rule of the
  policy consists of \<open>Public\<close> predicates only; no row data or membership can widen this.\<close>

theorem anonymous_needs_public_rule:
  "allowed_with pol Anonymous r rel
     = (\<exists>rule \<in> set (any_of pol). rule \<noteq> [] \<and> set rule = {Public})"
proof -
  have "rule \<noteq> [] \<and> (\<forall>p \<in> set rule. p = Public) \<longleftrightarrow> rule \<noteq> [] \<and> set rule = {Public}" for rule
    by (cases rule) auto
  then show ?thesis
    unfolding allowed_with_iff anonymous_condition by auto
qed

text \<open>C8: a background worker never reaches a row of another tenant, whatever the policy says
  and whatever the membership closure answers.\<close>

theorem service_confined_to_tenant:
  assumes "allowed_with pol (ServicePrincipal s) r rel"
  shows "row_tenant r = svc_tenant s"
proof -
  obtain rule p where "rule \<in> set (any_of pol)" "p \<in> set rule"
    "condition_holds rel r (bind_predicate p (ServicePrincipal s))"
    using assms unfolding allowed_with_iff by (metis list.set_sel(1))
  then show ?thesis by (blast intro: service_condition)
qed

theorem service_confined_to_tenant_witness:
  "allowed_with \<lparr>any_of = [[Service ''mail'', SameTenant]]\<rparr>
     (ServicePrincipal \<lparr>svc_deployment = ''d'', svc_tenant = ''t'', svc_worker = ''mail''\<rparr>)
     \<lparr>row_owner = ''o'', row_tenant = ''t'', row_fields = Map.empty\<rparr> (\<lambda>_. True)
   \<and> ''t'' = svc_tenant \<lparr>svc_deployment = ''d'', svc_tenant = ''t'', svc_worker = ''mail''\<rparr>"
proof -
  let ?s = "\<lparr>svc_deployment = ''d'', svc_tenant = ''t'', svc_worker = ''mail''\<rparr>"
  let ?r = "\<lparr>row_owner = ''o'', row_tenant = ''t'', row_fields = Map.empty\<rparr>"
  have h: "allowed_with \<lparr>any_of = [[Service ''mail'', SameTenant]]\<rparr> (ServicePrincipal ?s) ?r (\<lambda>_. True)"
    by (simp add: allowed_with_def bind_predicate_def condition_holds_def)
  from service_confined_to_tenant [OF h] h show ?thesis by simp
qed

section \<open>What the filter text means\<close>

text \<open>The database's reading of a filter text on a row: an equality compares a column with the
  value bound to the numbered placeholder.  A text outside the language of \<open>Filter_Text\<close> has no
  meaning here (\<open>None\<close>).\<close>

definition column_value :: "row \<Rightarrow> filter_column \<Rightarrow> string option" where
  "column_value r c =
     (case c of OwnerColumn \<Rightarrow> Some (row_owner r) | TenantColumn \<Rightarrow> Some (row_tenant r)
      | FieldColumn f \<Rightarrow> row_fields r f)"

fun term_holds :: "param list \<Rightarrow> row \<Rightarrow> filter_ast \<Rightarrow> bool" where
  "term_holds params r TTrue = True"
| "term_holds params r TFalse = False"
| "term_holds params r (TEq c n) =
     (1 \<le> n \<and> n \<le> length params
      \<and> (case column_value r c of None \<Rightarrow> False | Some v \<Rightarrow> params ! (n - 1) = PText v))"

definition clause_holds :: "param list \<Rightarrow> row \<Rightarrow> filter_ast list \<Rightarrow> bool" where
  "clause_holds params r ts \<longleftrightarrow> ts \<noteq> [] \<and> list_all (term_holds params r) ts"

definition filter_holds :: "native_provider \<Rightarrow> param list \<Rightarrow> row \<Rightarrow> sql \<Rightarrow> bool option" where
  "filter_holds provider params r t =
     map_option (list_ex (clause_holds params r)) (read_filter provider t)"

lemma clause_holds_ast [simp]: "clause_holds params r (clause_ast ts) = clause_holds params r ts"
  by (simp add: clause_holds_def clause_ast_def)

lemma filter_holds_render:
  assumes "cs \<noteq> []" and "list_all (list_all ast_ok) cs"
  shows "filter_holds provider params r (authorized_sql (map (render_clause provider) cs))
           = Some (list_ex (clause_holds params r) cs)"
  by (simp add: filter_holds_def authorized_sql_def read_filter_render [OF assms] list_ex_iff)

definition admitted_policy :: "policy \<Rightarrow> bool" where
  "admitted_policy pol \<longleftrightarrow>
     list_all (list_all (\<lambda>p. case p of PrincipalIs f \<Rightarrow> is_identifier f | _ \<Rightarrow> True)) (any_of pol)"

text \<open>What the filter compiler requires of a membership compiler: it succeeds, only appends
  parameters, and emits a term whose truth on a row is \<open>member\<close>.\<close>

locale membership_compiler =
  fixes related :: compiler and member :: "row \<Rightarrow> exists_related \<Rightarrow> bool"
  assumes related_appends: "\<exists>t ext. related e params = Inr (render_term provider t, params @ ext)
    \<and> ast_ok t \<and> (\<forall>rest r. term_holds (params @ ext @ rest) r t = member r e)"
begin

lemma filter_term_ast:
  assumes "\<And>f i. c = AccountIs f i \<Longrightarrow> is_identifier f"
  shows "\<exists>t ext. filter_term provider related c params = Inr (render_term provider t, params @ ext)
           \<and> ast_ok t
           \<and> (\<forall>rest. term_holds (params @ ext @ rest) r t = condition_holds (member r) r c)"
proof (cases c)
  case Allow
  then show ?thesis
    by (intro exI [of _ TTrue] exI [of _ "[]"]) (simp add: filter_term_def condition_holds_def)
next
  case Deny
  then show ?thesis
    by (intro exI [of _ TFalse] exI [of _ "[]"]) (simp add: filter_term_def condition_holds_def)
next
  case (OwnerIs v)
  then show ?thesis
    by (intro exI [of _ "TEq OwnerColumn (Suc (length params))"] exI [of _ "[PText v]"])
      (simp add: filter_term_def condition_holds_def placeholder_def column_text_def column_value_def
        nth_append eq_commute)
next
  case (TenantIs v)
  then show ?thesis
    by (intro exI [of _ "TEq TenantColumn (Suc (length params))"] exI [of _ "[PText v]"])
      (simp add: filter_term_def condition_holds_def placeholder_def column_text_def column_value_def
        nth_append eq_commute)
next
  case (AccountIs f v)
  then obtain t where "field_expression provider f = Inr t" "is_identifier f"
    using assms field_expression_total by blast
  with AccountIs show ?thesis
    by (intro exI [of _ "TEq (FieldColumn f) (Suc (length params))"] exI [of _ "[PText v]"])
      (auto simp: filter_term_def condition_holds_def placeholder_def column_text_def column_value_def
        nth_append split: option.splits)
next
  case (Related e)
  obtain t ext where "related e params = Inr (render_term provider t, params @ ext)" "ast_ok t"
    "\<forall>rest r. term_holds (params @ ext @ rest) r t = member r e"
    using related_appends [of e params provider] by blast
  with Related show ?thesis
    by (intro exI [of _ t] exI [of _ ext]) (simp add: filter_term_def condition_holds_def)
qed

lemma filter_rule_ast:
  assumes "list_all (\<lambda>p. case p of PrincipalIs f \<Rightarrow> is_identifier f | _ \<Rightarrow> True) rule"
  shows "\<exists>ts ext. filter_rule provider related pr rule params
             = Inr (map (render_term provider) ts, params @ ext)
           \<and> length ts = length rule \<and> list_all ast_ok ts
           \<and> (\<forall>rest. list_all (term_holds (params @ ext @ rest) r) ts
                = list_all (\<lambda>p. condition_holds (member r) r (bind_predicate p pr)) rule)"
  using assms
proof (induction rule arbitrary: params)
  case Nil
  then show ?case by (intro exI [of _ "[]"]) simp
next
  case (Cons p rule)
  have "bind_predicate p pr = AccountIs f i \<Longrightarrow> is_identifier f" for f i
    using Cons.prems
    by (auto simp: bind_predicate_def split: principal.splits predicate.splits if_splits)
  then obtain t ext where t: "filter_term provider related (bind_predicate p pr) params
      = Inr (render_term provider t, params @ ext)" "ast_ok t"
    "\<And>rest. term_holds (params @ ext @ rest) r t
       = condition_holds (member r) r (bind_predicate p pr)"
    using filter_term_ast by metis
  obtain ts ext' where ts: "filter_rule provider related pr rule (params @ ext)
      = Inr (map (render_term provider) ts, (params @ ext) @ ext')" "length ts = length rule"
    "list_all ast_ok ts"
    "\<And>rest. list_all (term_holds ((params @ ext) @ ext' @ rest) r) ts
       = list_all (\<lambda>p. condition_holds (member r) r (bind_predicate p pr)) rule"
    using Cons.IH Cons.prems by fastforce
  show ?case
    using t ts by (intro exI [of _ "t # ts"] exI [of _ "ext @ ext'"]) auto
qed

lemma filter_rules_ast:
  assumes "list_all (list_all (\<lambda>p. case p of PrincipalIs f \<Rightarrow> is_identifier f | _ \<Rightarrow> True)) rules"
  shows "\<exists>cs ext. filter_rules provider related pr rules params
             = Inr (map (render_clause provider) cs, params @ ext)
           \<and> length cs = length rules \<and> list_all (list_all ast_ok) cs
           \<and> (\<forall>rest. list_ex (clause_holds (params @ ext @ rest) r) cs
                = list_ex (\<lambda>rule. rule \<noteq> []
                    \<and> list_all (\<lambda>p. condition_holds (member r) r (bind_predicate p pr)) rule) rules)"
  using assms
proof (induction rules arbitrary: params)
  case Nil
  then show ?case by (intro exI [of _ "[]"]) simp
next
  case (Cons rule rules)
  obtain ts ext where ts: "filter_rule provider related pr rule params
      = Inr (map (render_term provider) ts, params @ ext)" "length ts = length rule"
    "list_all ast_ok ts"
    "\<And>rest. list_all (term_holds (params @ ext @ rest) r) ts
       = list_all (\<lambda>p. condition_holds (member r) r (bind_predicate p pr)) rule"
    using filter_rule_ast Cons.prems by fastforce
  have ext: "rule = [] \<Longrightarrow> ext = []" using ts(1) by auto
  obtain cs ext' where cs: "filter_rules provider related pr rules (params @ ext)
      = Inr (map (render_clause provider) cs, (params @ ext) @ ext')" "length cs = length rules"
    "list_all (list_all ast_ok) cs"
    "\<And>rest. list_ex (clause_holds ((params @ ext) @ ext' @ rest) r) cs
       = list_ex (\<lambda>rule. rule \<noteq> []
           \<and> list_all (\<lambda>p. condition_holds (member r) r (bind_predicate p pr)) rule) rules"
    using Cons.IH Cons.prems by fastforce
  have "clause_holds (params @ ext @ ext' @ rest) r ts
      = (rule \<noteq> [] \<and> list_all (\<lambda>p. condition_holds (member r) r (bind_predicate p pr)) rule)" for rest
    using ts(2) ts(4) [of "ext' @ rest"] by (auto simp: clause_holds_def)
  then show ?case
    using ts(1-3) cs ext
    by (intro exI [of _ "ts # cs"] exI [of _ "ext @ ext'"]) (auto simp: render_clause_def)
qed

lemma filter_with_text:
  assumes "admitted_policy pol"
  shows "\<exists>clauses ext. filter_with provider pol pr params related = Inr (clauses, params @ ext)
           \<and> clauses \<noteq> []
           \<and> filter_holds provider (params @ ext) r (authorized_sql clauses)
               = Some (allowed_with pol pr r (member r))"
proof (cases "any_of pol = []")
  case True
  have "filter_holds provider params r (authorized_sql (map (render_clause provider) [[]]))
      = Some (list_ex (clause_holds params r) [[]])"
    by (rule filter_holds_render) simp_all
  with True show ?thesis
    by (intro exI [of _ "[''1=0'']"] exI [of _ "[]"])
      (simp add: filter_with_def render_clause_def clause_holds_def allowed_with_def)
next
  case False
  obtain cs ext where cs: "filter_rules provider related pr (any_of pol) params
      = Inr (map (render_clause provider) cs, params @ ext)" "length cs = length (any_of pol)"
    "list_all (list_all ast_ok) cs"
    "\<And>rest. list_ex (clause_holds (params @ ext @ rest) r) cs
       = list_ex (\<lambda>rule. rule \<noteq> []
           \<and> list_all (\<lambda>p. condition_holds (member r) r (bind_predicate p pr)) rule) (any_of pol)"
    using filter_rules_ast assms unfolding admitted_policy_def by blast
  have "cs \<noteq> []" using cs(2) False by auto
  with cs(3) have "filter_holds provider (params @ ext) r (authorized_sql (map (render_clause provider) cs))
      = Some (list_ex (clause_holds (params @ ext) r) cs)"
    by (intro filter_holds_render)
  with \<open>cs \<noteq> []\<close> False cs(1) cs(4) [of "[]"] show ?thesis
    by (auto simp: filter_with_def allowed_with_def)
qed

end

interpretation deny: membership_compiler membership_deny "\<lambda>_ _. False"
proof unfold_locales
  show "\<exists>t ext. membership_deny e params = Inr (render_term provider t, params @ ext)
      \<and> ast_ok t \<and> (\<forall>rest r. term_holds (params @ ext @ rest) r t = False)" for e params provider
    by (intro exI [of _ TFalse] exI [of _ "[]"]) (simp add: membership_deny_def)
qed

text \<open>C3: the list filter compiled from an admitted policy is the row check.  For every provider,
  principal, parameter prefix and row, compilation succeeds, keeps the parameters it was given,
  and the SQL text it emits, the clauses joined by \<open>OR\<close>, read as a disjunction of conjunctions
  of terms and evaluated on the row with the bound parameters, is true exactly when \<open>allowed\<close>
  admits the row.  The meaning is a function of the text: a filter that emits \<open>1=1\<close> for a
  refused predicate, or one that binds the wrong column or placeholder, is excluded.\<close>

theorem policy_filter_refines_allowed:
  assumes "admitted_policy pol"
  shows "\<exists>clauses ext. policy_filter provider pol pr params = Inr (clauses, params @ ext)
           \<and> clauses \<noteq> []
           \<and> filter_holds provider (params @ ext) r (authorized_sql clauses) = Some (allowed pol pr r)"
  unfolding policy_filter_def allowed_def using assms by (rule deny.filter_with_text)

theorem policy_filter_refines_allowed_witness:
  "admitted_policy \<lparr>any_of = [[Owner], [PrincipalIs ''author'']]\<rparr>
   \<and> (\<exists>clauses ext. policy_filter Sqlite \<lparr>any_of = [[Owner], [PrincipalIs ''author'']]\<rparr>
          (User \<lparr>user_id = ''u'', user_tenant = [], user_roles = []\<rparr>) [PNumber 7]
        = Inr (clauses, [PNumber 7] @ ext)
      \<and> filter_holds Sqlite ([PNumber 7] @ ext)
          \<lparr>row_owner = ''x'', row_tenant = [], row_fields = [''author'' \<mapsto> ''u'']\<rparr>
          (authorized_sql clauses) = Some True)"
proof -
  let ?pol = "\<lparr>any_of = [[Owner], [PrincipalIs ''author'']]\<rparr>"
  let ?u = "User \<lparr>user_id = ''u'', user_tenant = [], user_roles = []\<rparr>"
  let ?r = "\<lparr>row_owner = ''x'', row_tenant = [], row_fields = [''author'' \<mapsto> ''u'']\<rparr>"
  have h: "admitted_policy ?pol" by code_simp
  have "allowed ?pol ?u ?r"
    by (simp add: allowed_def allowed_with_def bind_predicate_def condition_holds_def)
  with policy_filter_refines_allowed [OF h, of Sqlite ?u "[PNumber 7]" ?r] h show ?thesis by auto
qed

section \<open>Relaxed scans\<close>

lemma list_strategy_scan:
  assumes "list_strategy pol scoped = Merge scans"
  shows "(\<exists>s \<in> set scans. scan_rule_index s = i) \<longleftrightarrow> i < length (any_of pol)"
    and "s \<in> set scans \<Longrightarrow> scan_rule_index s < length (any_of pol)"
    and "s \<in> set scans \<Longrightarrow> scan_exact s \<Longrightarrow> \<not> list_ex is_related (any_of pol ! scan_rule_index s)"
  using assms
  by (force simp: list_strategy_def in_set_enumerate_eq Bex_def split: if_splits)+

lemma residual_strategy_scan:
  assumes "residual_strategy pol = Merge scans"
  shows "(\<exists>s \<in> set scans. scan_rule_index s = i) \<longleftrightarrow> i < length (any_of pol)"
    and "s \<in> set scans \<Longrightarrow> \<not> scan_exact s"
  using assms by (auto simp: residual_strategy_def)

lemma not_related_condition:
  assumes "\<not> is_related p"
  shows "condition_holds rel r (bind_predicate p pr) = condition_holds (\<lambda>_. False) r (bind_predicate p pr)"
  using assms
  by (cases p) (auto simp: bind_predicate_def condition_holds_def split: principal.splits)

lemma public_condition:
  assumes "condition_holds rel r (bind_predicate p pr)"
  shows "condition_holds (\<lambda>_. False) r (bind_predicate Public pr)"
proof (cases pr)
  case (ServicePrincipal s)
  then show ?thesis
    using service_condition assms by (auto simp: bind_predicate_def condition_holds_def)
qed (auto simp: bind_predicate_def condition_holds_def)

lemma is_identity_not_related: "is_identity p \<Longrightarrow> \<not> is_related p"
  by (cases p) auto

lemma find_identity: "List.find is_identity xs = Some a \<Longrightarrow> a \<in> set xs \<and> \<not> is_related a"
  by (auto simp: find_Some_iff dest: is_identity_not_related)

lemma is_service_not_related: "is_service p \<Longrightarrow> \<not> is_related p"
  by (cases p) auto

text \<open>The scan of a rule admits every row the rule admits.\<close>

lemma scan_policy_complete:
  assumes rule: "any_of pol ! scan_rule_index s = rule" "rule \<noteq> []"
    and holds: "\<And>p. p \<in> set rule \<Longrightarrow> condition_holds rel r (bind_predicate p pr)"
    and exact: "scan_exact s \<Longrightarrow> \<not> list_ex is_related rule"
  shows "allowed (scan_policy pol s) pr r"
proof -
  obtain p0 where "p0 \<in> set rule" using rule(2) by (cases rule) auto
  then have pub: "condition_holds (\<lambda>_. False) r (bind_predicate Public pr)"
    using holds public_condition by blast
  have nr: "p \<in> set rule \<Longrightarrow> \<not> is_related p \<Longrightarrow> condition_holds (\<lambda>_. False) r (bind_predicate p pr)" for p
    using holds not_related_condition by blast
  show ?thesis
    using pub nr rule exact
    by (auto simp: scan_policy_def Let_def allowed_def allowed_with_iff list_ex_iff
        dest!: find_identity is_service_not_related split: option.splits)
qed

lemma scan_policy_exact:
  assumes "scan_exact s" and "scan_rule_index s < length (any_of pol)"
    and "any_of pol ! scan_rule_index s \<noteq> []"
    and "allowed (scan_policy pol s) pr r"
  shows "allowed_with pol pr r rel"
proof -
  have "allowed \<lparr>any_of = [any_of pol ! scan_rule_index s]\<rparr> pr r"
    using assms by (simp add: scan_policy_def Let_def)
  then show ?thesis
    using assms(2) condition_holds_mono unfolding allowed_def allowed_with_iff
    by (fastforce intro!: bexI [of _ "any_of pol ! scan_rule_index s"])
qed

text \<open>C4: a merged list query misses no row: every row the full policy admits, memberships
  included, is admitted by the relaxed filter of at least one of the scans it runs.  Conversely a
  scan marked exact returns only rows the full policy admits, under the condition that its rule is
  not empty.  The scan of an empty rule, which operation admission refuses, is compiled to
  \<open>Public\<close> although that rule admits nothing.\<close>

theorem merged_scans_cover_policy:
  assumes "list_strategy pol scoped = Merge scans \<or> residual_strategy pol = Merge scans"
  shows "(allowed_with pol pr r rel \<longrightarrow> (\<exists>s \<in> set scans. allowed (scan_policy pol s) pr r))
       \<and> (\<forall>s \<in> set scans. scan_exact s \<and> any_of pol ! scan_rule_index s \<noteq> []
            \<and> allowed (scan_policy pol s) pr r \<longrightarrow> allowed_with pol pr r rel)
       \<and> (\<forall>s \<in> set scans. any_of pol ! scan_rule_index s = []
            \<longrightarrow> scan_policy pol s = \<lparr>any_of = [[Public]]\<rparr>)"
proof (intro conjI impI ballI)
  assume "allowed_with pol pr r rel"
  then obtain i where i: "i < length (any_of pol)" "any_of pol ! i \<noteq> []"
    "\<And>p. p \<in> set (any_of pol ! i) \<Longrightarrow> condition_holds rel r (bind_predicate p pr)"
    unfolding allowed_with_iff by (metis in_set_conv_nth)
  obtain s where s: "s \<in> set scans" "scan_rule_index s = i"
    using assms i(1) list_strategy_scan(1) residual_strategy_scan(1) by metis
  have "scan_exact s \<Longrightarrow> \<not> list_ex is_related (any_of pol ! i)"
    using assms s list_strategy_scan(3) residual_strategy_scan(2) by metis
  then have "allowed (scan_policy pol s) pr r"
    using scan_policy_complete s(2) i(2,3) by metis
  with s show "\<exists>s \<in> set scans. allowed (scan_policy pol s) pr r" by blast
next
  fix s assume s: "s \<in> set scans" and e: "scan_exact s \<and> any_of pol ! scan_rule_index s \<noteq> []
    \<and> allowed (scan_policy pol s) pr r"
  have "scan_rule_index s < length (any_of pol)"
    using assms s e list_strategy_scan(2) residual_strategy_scan(2) by metis
  with e show "allowed_with pol pr r rel" using scan_policy_exact by blast
next
  fix s :: scan_rule assume "any_of pol ! scan_rule_index s = []"
  then show "scan_policy pol s = \<lparr>any_of = [[Public]]\<rparr>"
    by (simp add: scan_policy_def)
qed

theorem merged_scans_cover_policy_witness:
  "list_strategy \<lparr>any_of = [[Owner], [PrincipalIs ''author'']]\<rparr> False
     = Merge [\<lparr>scan_rule_index = 0, scan_exact = True\<rparr>, \<lparr>scan_rule_index = 1, scan_exact = True\<rparr>]
   \<and> (\<exists>s \<in> set [\<lparr>scan_rule_index = 0, scan_exact = True\<rparr>, \<lparr>scan_rule_index = 1, scan_exact = True\<rparr>].
        allowed (scan_policy \<lparr>any_of = [[Owner], [PrincipalIs ''author'']]\<rparr> s)
          (User \<lparr>user_id = ''u'', user_tenant = [], user_roles = []\<rparr>)
          \<lparr>row_owner = ''x'', row_tenant = [], row_fields = [''author'' \<mapsto> ''u'']\<rparr>)"
proof -
  let ?pol = "\<lparr>any_of = [[Owner], [PrincipalIs ''author'']]\<rparr>"
  let ?u = "User \<lparr>user_id = ''u'', user_tenant = [], user_roles = []\<rparr>"
  let ?r = "\<lparr>row_owner = ''x'', row_tenant = [], row_fields = [''author'' \<mapsto> ''u'']\<rparr>"
  have h: "list_strategy ?pol False
     = Merge [\<lparr>scan_rule_index = 0, scan_exact = True\<rparr>, \<lparr>scan_rule_index = 1, scan_exact = True\<rparr>]"
    by (simp add: list_strategy_def)
  have "allowed_with ?pol ?u ?r (\<lambda>_. False)"
    by (simp add: allowed_with_def bind_predicate_def condition_holds_def)
  with merged_scans_cover_policy [OF disjI1 [OF h], of ?u ?r "\<lambda>_. False"] h show ?thesis by blast
qed

end
