(* ===== verification/Blob_Policy.thy ===== *)
theory Blob_Policy
  imports Prelude "HOL-Library.Multiset"
begin

text \<open>
  \<^verbatim>\<open>crates/noxide-protocol/src/blobs.rs\<close>: the hard ceilings on stored files, the policy a
  manifest requests, the ceilings an operator sets, and the effective policy that both grant.  The
  unsigned integers are naturals; their values are compared and minimised, never added.
\<close>

section \<open>Ceilings\<close>

definition MAX_UPLOAD_BYTES :: nat where "MAX_UPLOAD_BYTES = 10 * 1024 * 1024"
definition MAX_APP_BLOB_BYTES :: nat where "MAX_APP_BLOB_BYTES = 1024 * 1024 * 1024"
definition MAX_APP_BLOB_OBJECTS :: nat where "MAX_APP_BLOB_OBJECTS = 65536"
definition MAX_LIVE_STAGES :: nat where "MAX_LIVE_STAGES = 4"
definition MAX_CONCURRENT_UPLOADS :: nat where "MAX_CONCURRENT_UPLOADS = 4"
definition MAX_CONCURRENT_DOWNLOADS :: nat where "MAX_CONCURRENT_DOWNLOADS = 8"
definition MAX_UPLOAD_BINDINGS :: nat where "MAX_UPLOAD_BINDINGS = 16"
definition MAX_ANONYMOUS_STAGES :: nat where "MAX_ANONYMOUS_STAGES = 16"
definition MAX_ANONYMOUS_BYTES :: nat where "MAX_ANONYMOUS_BYTES = 160 * 1024 * 1024"
definition MAX_CAPABILITY_BYTES :: nat where "MAX_CAPABILITY_BYTES = 40 * 1024 * 1024"
definition TRANSFER_BUFFER_BYTES :: nat where "TRANSFER_BUFFER_BYTES = 64 * 1024"
definition STAGE_LIFETIME_MILLIS :: int where "STAGE_LIFETIME_MILLIS = 15 * 60 * 1000"
definition DOWNLOAD_IDLE_MILLIS :: nat where "DOWNLOAD_IDLE_MILLIS = 15 * 1000"
definition TRANSFER_TOTAL_MILLIS :: nat where "TRANSFER_TOTAL_MILLIS = 120 * 1000"

lemmas blob_consts =
  MAX_UPLOAD_BYTES_def MAX_APP_BLOB_BYTES_def MAX_APP_BLOB_OBJECTS_def MAX_LIVE_STAGES_def
  MAX_CONCURRENT_UPLOADS_def MAX_CONCURRENT_DOWNLOADS_def MAX_UPLOAD_BINDINGS_def
  MAX_ANONYMOUS_STAGES_def MAX_ANONYMOUS_BYTES_def MAX_CAPABILITY_BYTES_def
  TRANSFER_BUFFER_BYTES_def STAGE_LIFETIME_MILLIS_def DOWNLOAD_IDLE_MILLIS_def TRANSFER_TOTAL_MILLIS_def

record blob_limits =
  bl_file_bytes :: nat
  bl_app_bytes :: nat
  bl_objects :: nat
  bl_live_stages :: nat
  bl_uploads :: nat
  bl_downloads :: nat

definition limits_default :: blob_limits where
  "limits_default =
     \<lparr>bl_file_bytes = MAX_UPLOAD_BYTES, bl_app_bytes = MAX_APP_BLOB_BYTES,
      bl_objects = MAX_APP_BLOB_OBJECTS, bl_live_stages = MAX_LIVE_STAGES,
      bl_uploads = MAX_CONCURRENT_UPLOADS, bl_downloads = MAX_CONCURRENT_DOWNLOADS\<rparr>"

definition limits_validate :: "blob_limits \<Rightarrow> unit res" where
  "limits_validate l =
     (if bl_file_bytes l = 0 \<or> bl_file_bytes l > MAX_UPLOAD_BYTES
         \<or> bl_app_bytes l = 0 \<or> bl_app_bytes l > MAX_APP_BLOB_BYTES
         \<or> bl_file_bytes l > bl_app_bytes l
         \<or> bl_objects l = 0 \<or> bl_objects l > MAX_APP_BLOB_OBJECTS
         \<or> bl_live_stages l = 0 \<or> bl_live_stages l > MAX_LIVE_STAGES
         \<or> bl_uploads l = 0 \<or> bl_uploads l > MAX_CONCURRENT_UPLOADS
         \<or> bl_downloads l = 0 \<or> bl_downloads l > MAX_CONCURRENT_DOWNLOADS
      then Inl ''invalid blob limits'' else Inr ())"

definition limits_intersection :: "blob_limits \<Rightarrow> blob_limits \<Rightarrow> blob_limits res" where
  "limits_intersection a b =
     and_then (limits_validate a) (\<lambda>_.
     and_then (limits_validate b) (\<lambda>_.
     let v = \<lparr>bl_file_bytes = min (bl_file_bytes a) (bl_file_bytes b),
              bl_app_bytes = min (bl_app_bytes a) (bl_app_bytes b),
              bl_objects = min (bl_objects a) (bl_objects b),
              bl_live_stages = min (bl_live_stages a) (bl_live_stages b),
              bl_uploads = min (bl_uploads a) (bl_uploads b),
              bl_downloads = min (bl_downloads a) (bl_downloads b)\<rparr>
     in and_then (limits_validate v) (\<lambda>_. Inr v)))"

section \<open>Requested and effective policy\<close>

record anonymous_quota =
  aq_stages :: nat
  aq_bytes :: nat

record upload_declaration =
  ud_id :: nat
  ud_name :: string
  ud_web_binding :: nat
  ud_input :: string
  ud_anonymous :: "anonymous_quota option"

record blob_policy =
  bp_limits :: blob_limits
  bp_anonymous :: "anonymous_quota option"
  bp_uploads :: "upload_declaration list"

record anonymous_ceilings =
  ac_deployment :: anonymous_quota
  ac_capability :: anonymous_quota

record blob_ceilings =
  bc_limits :: blob_limits
  bc_anonymous :: "anonymous_ceilings option"

definition deployment_quota_validate :: "anonymous_quota \<Rightarrow> unit res" where
  "deployment_quota_validate q =
     (if aq_stages q = 0 \<or> aq_stages q > MAX_ANONYMOUS_STAGES
         \<or> aq_bytes q = 0 \<or> aq_bytes q > MAX_ANONYMOUS_BYTES
      then Inl ''invalid anonymous deployment quota'' else Inr ())"

definition capability_quota_validate :: "anonymous_quota \<Rightarrow> unit res" where
  "capability_quota_validate q =
     (if aq_stages q = 0 \<or> aq_stages q > MAX_LIVE_STAGES
         \<or> aq_bytes q = 0 \<or> aq_bytes q > MAX_CAPABILITY_BYTES
      then Inl ''invalid anonymous capability quota'' else Inr ())"

text \<open>The loop over the declared uploads, with the identities and bindings seen so far.\<close>

fun check_uploads :: "bool \<Rightarrow> nat list \<Rightarrow> nat list \<Rightarrow> upload_declaration list \<Rightarrow> unit res" where
  "check_uploads anonymous ids bindings [] = Inr ()"
| "check_uploads anonymous ids bindings (u # us) =
     (if ud_id u = 0 \<or> ud_web_binding u = 0 \<or> ud_id u \<in> set ids \<or> ud_web_binding u \<in> set bindings
      then Inl ''duplicate or invalid upload binding''
      else and_then
        (case ud_anonymous u of
           None \<Rightarrow> Inr ()
         | Some q \<Rightarrow> and_then (capability_quota_validate q) (\<lambda>_.
             if anonymous then Inr () else Inl ''anonymous upload lacks deployment quota''))
        (\<lambda>_. check_uploads anonymous (ud_id u # ids) (ud_web_binding u # bindings) us))"

definition validate_limits :: "blob_policy \<Rightarrow> unit res" where
  "validate_limits p =
     and_then (limits_validate (bp_limits p)) (\<lambda>_.
     if length (bp_uploads p) > MAX_UPLOAD_BINDINGS then Inl ''upload binding limit''
     else and_then (case bp_anonymous p of None \<Rightarrow> Inr () | Some q \<Rightarrow> deployment_quota_validate q) (\<lambda>_.
     and_then (check_uploads (bp_anonymous p \<noteq> None) [] [] (bp_uploads p)) (\<lambda>_.
     if bp_anonymous p \<noteq> None \<and> \<not> list_ex (\<lambda>u. ud_anonymous u \<noteq> None) (bp_uploads p)
     then Inl ''unused anonymous deployment quota'' else Inr ())))"

definition quota_min :: "anonymous_quota \<Rightarrow> anonymous_quota \<Rightarrow> anonymous_quota" where
  "quota_min a b = \<lparr>aq_stages = min (aq_stages a) (aq_stages b), aq_bytes = min (aq_bytes a) (aq_bytes b)\<rparr>"

definition effective :: "blob_policy \<Rightarrow> blob_ceilings \<Rightarrow> blob_policy res" where
  "effective p operator =
     and_then (validate_limits p) (\<lambda>_.
     and_then (limits_validate (bc_limits operator)) (\<lambda>_.
     and_then
       (case bc_anonymous operator of
          None \<Rightarrow> Inr ()
        | Some a \<Rightarrow> and_then (deployment_quota_validate (ac_deployment a)) (\<lambda>_.
            capability_quota_validate (ac_capability a))) (\<lambda>_.
     and_then (limits_intersection (bp_limits p) (bc_limits operator)) (\<lambda>limits.
     and_then
       (case bp_anonymous p of
          None \<Rightarrow> Inr (p\<lparr>bp_limits := limits\<rparr>)
        | Some requested \<Rightarrow>
            and_then (ok_or (bc_anonymous operator) ''anonymous uploads not approved by operator'') (\<lambda>granted.
            Inr (p\<lparr>bp_limits := limits,
                   bp_anonymous := Some (quota_min requested (ac_deployment granted)),
                   bp_uploads := map (\<lambda>u. u\<lparr>ud_anonymous :=
                     map_option (\<lambda>q. quota_min q (ac_capability granted)) (ud_anonymous u)\<rparr>) (bp_uploads p)\<rparr>)))
       (\<lambda>e.
     and_then (validate_limits e) (\<lambda>_.
     Inr (e\<lparr>bp_uploads := sort_key ud_id (bp_uploads e)\<rparr>)))))))"

section \<open>Orders between policies\<close>

definition limits_le :: "blob_limits \<Rightarrow> blob_limits \<Rightarrow> bool" where
  "limits_le a b \<longleftrightarrow>
     bl_file_bytes a \<le> bl_file_bytes b \<and> bl_app_bytes a \<le> bl_app_bytes b
     \<and> bl_objects a \<le> bl_objects b \<and> bl_live_stages a \<le> bl_live_stages b
     \<and> bl_uploads a \<le> bl_uploads b \<and> bl_downloads a \<le> bl_downloads b"

definition quota_le :: "anonymous_quota \<Rightarrow> anonymous_quota \<Rightarrow> bool" where
  "quota_le a b \<longleftrightarrow> aq_stages a \<le> aq_stages b \<and> aq_bytes a \<le> aq_bytes b"

text \<open>An absent quota grants nothing.\<close>

fun option_quota_le :: "anonymous_quota option \<Rightarrow> anonymous_quota option \<Rightarrow> bool" where
  "option_quota_le None _ = True"
| "option_quota_le (Some a) (Some b) = quota_le a b"
| "option_quota_le (Some a) None = False"

definition upload_identity :: "upload_declaration \<Rightarrow> nat \<times> string \<times> nat \<times> string" where
  "upload_identity u = (ud_id u, ud_name u, ud_web_binding u, ud_input u)"

definition within_ceilings :: "blob_policy \<Rightarrow> blob_ceilings \<Rightarrow> bool" where
  "within_ceilings p c \<longleftrightarrow>
     limits_le (bp_limits p) (bc_limits c)
     \<and> option_quota_le (bp_anonymous p) (map_option ac_deployment (bc_anonymous c))
     \<and> list_all (\<lambda>u. option_quota_le (ud_anonymous u) (map_option ac_capability (bc_anonymous c))) (bp_uploads p)"

section \<open>Validity\<close>

lemma limits_validate_Inr:
  "limits_validate l = Inr x \<longleftrightarrow>
     0 < bl_file_bytes l \<and> bl_file_bytes l \<le> bl_app_bytes l \<and> limits_le l limits_default
     \<and> 0 < bl_objects l \<and> 0 < bl_live_stages l \<and> 0 < bl_uploads l \<and> 0 < bl_downloads l"
  by (auto simp: limits_validate_def limits_le_def limits_default_def)

lemma limits_intersection_Inr:
  assumes "limits_validate a = Inr x" and "limits_validate b = Inr y"
  obtains v where "limits_intersection a b = Inr v" "limits_le v a" "limits_le v b" "limits_validate v = Inr ()"
    "limits_le a b \<Longrightarrow> v = a"
proof -
  define v where "v = \<lparr>bl_file_bytes = min (bl_file_bytes a) (bl_file_bytes b),
              bl_app_bytes = min (bl_app_bytes a) (bl_app_bytes b),
              bl_objects = min (bl_objects a) (bl_objects b),
              bl_live_stages = min (bl_live_stages a) (bl_live_stages b),
              bl_uploads = min (bl_uploads a) (bl_uploads b),
              bl_downloads = min (bl_downloads a) (bl_downloads b)\<rparr>"
  have le: "limits_le v a" "limits_le v b" by (simp_all add: v_def limits_le_def)
  have ok: "limits_validate v = Inr ()"
    using assms by (auto simp: limits_validate_Inr v_def limits_le_def limits_default_def)
  have "limits_intersection a b = Inr v"
    using assms ok by (simp add: limits_intersection_def v_def Let_def and_then_def)
  moreover have "v = a" if "limits_le a b" using that by (simp add: v_def limits_le_def min_absorb1)
  ultimately show thesis using le ok that by blast
qed

lemma quota_min_le: "quota_le (quota_min a b) a" "quota_le (quota_min a b) b"
  by (simp_all add: quota_le_def quota_min_def)

lemma quota_min_absorb: "quota_le a b \<Longrightarrow> quota_min a b = a"
  by (simp add: quota_le_def quota_min_def min_absorb1)

lemma check_uploads_Inr:
  "check_uploads anonymous ids bindings us = Inr x \<longleftrightarrow>
     distinct (map ud_id us) \<and> distinct (map ud_web_binding us)
     \<and> (\<forall>u \<in> set us. ud_id u \<noteq> 0 \<and> ud_web_binding u \<noteq> 0 \<and> ud_id u \<notin> set ids \<and> ud_web_binding u \<notin> set bindings
          \<and> (\<forall>q. ud_anonymous u = Some q \<longrightarrow> anonymous \<and> capability_quota_validate q = Inr ()))"
proof (induction us arbitrary: ids bindings)
  case Nil
  then show ?case by simp
next
  case (Cons u us)
  define rest where "rest = check_uploads anonymous (ud_id u # ids) (ud_web_binding u # bindings) us"
  have step: "check_uploads anonymous ids bindings (u # us) = Inr x \<longleftrightarrow>
      ud_id u \<noteq> 0 \<and> ud_web_binding u \<noteq> 0 \<and> ud_id u \<notin> set ids \<and> ud_web_binding u \<notin> set bindings
      \<and> (\<forall>q. ud_anonymous u = Some q \<longrightarrow> anonymous \<and> capability_quota_validate q = Inr ()) \<and> rest = Inr x"
    unfolding check_uploads.simps rest_def [symmetric]
    by (cases "ud_anonymous u"; cases "capability_quota_validate (the (ud_anonymous u))") (simp_all add: and_then_def)
  show ?case
    unfolding step rest_def Cons.IH by (simp add: ball_conj_distrib image_iff) (rule iffI; elim conjE; intro conjI; (assumption | metis))
qed

lemma validate_limits_Inr:
  "validate_limits p = Inr x \<longleftrightarrow>
     limits_validate (bp_limits p) = Inr () \<and> length (bp_uploads p) \<le> MAX_UPLOAD_BINDINGS
     \<and> (\<forall>q. bp_anonymous p = Some q \<longrightarrow> deployment_quota_validate q = Inr ())
     \<and> check_uploads (bp_anonymous p \<noteq> None) [] [] (bp_uploads p) = Inr ()
     \<and> (bp_anonymous p \<noteq> None \<longrightarrow> list_ex (\<lambda>u. ud_anonymous u \<noteq> None) (bp_uploads p))"
  by (auto simp: validate_limits_def and_then_def split: sum.splits option.splits if_splits)

lemma quota_min_valid:
  "deployment_quota_validate a = Inr () \<Longrightarrow> deployment_quota_validate b = Inr () \<Longrightarrow>
     deployment_quota_validate (quota_min a b) = Inr ()"
  "capability_quota_validate a = Inr () \<Longrightarrow> capability_quota_validate b = Inr () \<Longrightarrow>
     capability_quota_validate (quota_min a b) = Inr ()"
  by (auto simp: deployment_quota_validate_def capability_quota_validate_def quota_min_def split: if_splits)

definition ceilings_valid :: "blob_ceilings \<Rightarrow> bool" where
  "ceilings_valid c \<longleftrightarrow>
     limits_validate (bc_limits c) = Inr ()
     \<and> (\<forall>a. bc_anonymous c = Some a \<longrightarrow>
          deployment_quota_validate (ac_deployment a) = Inr () \<and> capability_quota_validate (ac_capability a) = Inr ())"

text \<open>The policy before its uploads are sorted.\<close>

definition lowered :: "blob_policy \<Rightarrow> blob_limits \<Rightarrow> anonymous_ceilings option \<Rightarrow> blob_policy" where
  "lowered p limits granted =
     (case bp_anonymous p of
        None \<Rightarrow> p\<lparr>bp_limits := limits\<rparr>
      | Some requested \<Rightarrow>
          p\<lparr>bp_limits := limits,
            bp_anonymous := Some (quota_min requested (ac_deployment (the granted))),
            bp_uploads := map (\<lambda>u. u\<lparr>ud_anonymous :=
              map_option (\<lambda>q. quota_min q (ac_capability (the granted))) (ud_anonymous u)\<rparr>) (bp_uploads p)\<rparr>)"

lemma validate_limits_uploads:
  assumes "validate_limits p = Inr ()"
  shows "distinct (map ud_id (bp_uploads p))"
    and "bp_anonymous p = None \<Longrightarrow> u \<in> set (bp_uploads p) \<Longrightarrow> ud_anonymous u = None"
  using assms by (auto simp: validate_limits_Inr check_uploads_Inr)

lemma lowered_valid:
  assumes "validate_limits p = Inr ()" and "ceilings_valid c" and "limits_validate l = Inr ()"
    and "bp_anonymous p \<noteq> None \<Longrightarrow> bc_anonymous c \<noteq> None"
  shows "validate_limits (lowered p l (bc_anonymous c)) = Inr ()"
proof (cases "bp_anonymous p")
  case None
  then show ?thesis using assms by (simp add: lowered_def validate_limits_Inr)
next
  case (Some q)
  then obtain a where a: "bc_anonymous c = Some a" using assms(4) by auto
  show ?thesis
    using assms Some a
    by (auto simp: lowered_def validate_limits_Inr check_uploads_Inr ceilings_valid_def quota_min_valid
        comp_def list_ex_iff)
qed

lemma effective_Inr:
  "effective p c = Inr e \<longleftrightarrow>
     validate_limits p = Inr () \<and> ceilings_valid c \<and> (bp_anonymous p \<noteq> None \<longrightarrow> bc_anonymous c \<noteq> None)
     \<and> (\<exists>l. limits_intersection (bp_limits p) (bc_limits c) = Inr l
          \<and> e = (lowered p l (bc_anonymous c))\<lparr>bp_uploads := sort_key ud_id (bp_uploads (lowered p l (bc_anonymous c)))\<rparr>)"
  (is "?l \<longleftrightarrow> ?r")
proof
  assume ?l
  then show ?r
    by (auto simp: effective_def and_then_def ok_or_def ceilings_valid_def lowered_def
        split: sum.splits option.splits)
next
  assume r: ?r
  then obtain l where l: "limits_intersection (bp_limits p) (bc_limits c) = Inr l"
    and e: "e = (lowered p l (bc_anonymous c))\<lparr>bp_uploads := sort_key ud_id (bp_uploads (lowered p l (bc_anonymous c)))\<rparr>"
    by blast
  have "limits_validate (bp_limits p) = Inr ()" "limits_validate (bc_limits c) = Inr ()"
    using r by (simp_all add: validate_limits_Inr ceilings_valid_def)
  then have "limits_validate l = Inr ()" using l limits_intersection_Inr by (metis Inr_inject)
  then have v: "validate_limits (lowered p l (bc_anonymous c)) = Inr ()" using lowered_valid r by blast
  show ?l
    using r l v unfolding e
    by (auto simp: effective_def and_then_def ok_or_def ceilings_valid_def lowered_def
        split: sum.splits option.splits)
qed

lemma map_sort_key_distinct:
  fixes f :: "'a \<Rightarrow> nat"
  assumes "\<And>x. f (g x) = f x"
  shows "sort_key f (map g xs) = map g (sort_key f xs)"
proof -
  have ins: "insort_key f (g x) (map g ys) = map g (insort_key f x ys)" for x ys
    by (induction ys) (simp_all add: assms)
  show ?thesis by (induction xs) (simp_all add: ins)
qed

lemma validate_limits_sort:
  assumes "validate_limits p = Inr ()"
  shows "validate_limits (p\<lparr>bp_uploads := sort_key ud_id (bp_uploads p)\<rparr>) = Inr ()"
proof -
  have "mset (sort_key ud_id (bp_uploads p)) = mset (bp_uploads p)" by simp
  then have d: "distinct (map f (sort_key ud_id (bp_uploads p))) = distinct (map f (bp_uploads p))" for f :: "_ \<Rightarrow> nat"
    by (metis mset_eq_imp_distinct_iff mset_map)
  show ?thesis
    using assms by (simp add: validate_limits_Inr check_uploads_Inr d list_ex_iff)
qed

lemma effective_props:
  assumes "effective p c = Inr e"
  shows "validate_limits e = Inr ()" and "within_ceilings e c"
    and "limits_le (bp_limits e) (bp_limits p)"
    and "option_quota_le (bp_anonymous e) (bp_anonymous p)"
    and "map upload_identity (bp_uploads e) = map upload_identity (sort_key ud_id (bp_uploads p))"
    and "list_all2 (\<lambda>u v. option_quota_le (ud_anonymous u) (ud_anonymous v))
           (bp_uploads e) (sort_key ud_id (bp_uploads p))"
proof -
  from assms obtain l where l: "limits_intersection (bp_limits p) (bc_limits c) = Inr l"
    and e: "e = (lowered p l (bc_anonymous c))\<lparr>bp_uploads := sort_key ud_id (bp_uploads (lowered p l (bc_anonymous c)))\<rparr>"
    and v: "validate_limits p = Inr ()" "ceilings_valid c" "bp_anonymous p \<noteq> None \<longrightarrow> bc_anonymous c \<noteq> None"
    by (auto simp: effective_Inr)
  have "limits_validate (bp_limits p) = Inr ()" "limits_validate (bc_limits c) = Inr ()"
    using v by (simp_all add: validate_limits_Inr ceilings_valid_def)
  then have le: "limits_le l (bp_limits p)" "limits_le l (bc_limits c)" "limits_validate l = Inr ()"
    using l limits_intersection_Inr by (metis Inr_inject)+
  show "validate_limits e = Inr ()"
    unfolding e by (intro validate_limits_sort lowered_valid) (use v le in auto)
  have refl: "option_quota_le x x" for x by (cases x) (simp_all add: quota_le_def)
  have none: "\<forall>u \<in> set (bp_uploads p). ud_anonymous u = None" if "bp_anonymous p = None"
    using validate_limits_uploads(2) [OF v(1) that] by blast
  have lw: "\<And>q. option_quota_le (map_option (\<lambda>q. quota_min q b) q) q" "\<And>q. option_quota_le (map_option (\<lambda>q. quota_min q b) q) (Some b)" for b
    by (auto simp: quota_min_le split: option.splits elim!: option_quota_le.elims simp: map_option_case)
  show "within_ceilings e c"
    using le v(3) none
    by (auto simp: e within_ceilings_def lowered_def quota_min_le list_all_iff lw split: option.splits)
  show "limits_le (bp_limits e) (bp_limits p)"
    using le by (simp add: e lowered_def split: option.splits)
  show "option_quota_le (bp_anonymous e) (bp_anonymous p)"
    by (simp add: e lowered_def quota_min_le split: option.splits)
  show "map upload_identity (bp_uploads e) = map upload_identity (sort_key ud_id (bp_uploads p))"
    by (simp add: e lowered_def map_sort_key_distinct upload_identity_def comp_def split: option.splits)
  show "list_all2 (\<lambda>u v. option_quota_le (ud_anonymous u) (ud_anonymous v))
      (bp_uploads e) (sort_key ud_id (bp_uploads p))"
    by (auto simp: e lowered_def map_sort_key_distinct list_all2_map1 list_all2_same refl lw split: option.splits)
qed

text \<open>C20: an operator can only lower what a manifest requests.  Whenever \<open>effective\<close> grants a
  policy, every limit and every anonymous quota of it is at most the requested one and at most the
  operator's, anonymous staging is present only where both allow it, the declared uploads are the
  requested ones ordered by identity, and the granted policy is valid and a fixed point: granting it
  again under the same ceilings changes nothing.\<close>

theorem effective_within_both:
  assumes "effective p c = Inr e"
  shows "within_ceilings e c \<and> limits_le (bp_limits e) (bp_limits p)
    \<and> option_quota_le (bp_anonymous e) (bp_anonymous p)
    \<and> map upload_identity (bp_uploads e) = map upload_identity (sort_key ud_id (bp_uploads p))
    \<and> list_all2 (\<lambda>u v. option_quota_le (ud_anonymous u) (ud_anonymous v))
        (bp_uploads e) (sort_key ud_id (bp_uploads p))
    \<and> effective e c = Inr e"
proof -
  note P = effective_props [OF assms]
  have v: "ceilings_valid c" using assms by (simp add: effective_Inr)
  have lv: "limits_validate (bp_limits e) = Inr ()" "limits_validate (bc_limits c) = Inr ()"
    using P(1) v by (simp_all add: validate_limits_Inr ceilings_valid_def)
  obtain l where l: "limits_intersection (bp_limits e) (bc_limits c) = Inr l" "limits_le (bp_limits e) (bc_limits c) \<Longrightarrow> l = bp_limits e"
    using limits_intersection_Inr [OF lv] by metis
  have leq: "l = bp_limits e" using l(2) P(2) by (simp add: within_ceilings_def)
  have srt: "sort_key ud_id (bp_uploads e) = bp_uploads e"
  proof -
    from P(5) have "map (fst \<circ> upload_identity) (bp_uploads e) = map (fst \<circ> upload_identity) (sort_key ud_id (bp_uploads p))"
      by (metis map_map)
    then have "map ud_id (bp_uploads e) = map ud_id (sort_key ud_id (bp_uploads p))"
      by (simp add: comp_def upload_identity_def)
    then have "sorted (map ud_id (bp_uploads e))" by simp
    then show ?thesis by (simp add: sorted_sort_id sort_key_id_if_sorted)
  qed
  have "lowered e l (bc_anonymous c) = e"
  proof (cases "bp_anonymous e")
    case None
    then show ?thesis by (simp add: lowered_def leq)
  next
    case (Some q)
    then obtain a where a: "bc_anonymous c = Some a" "quota_le q (ac_deployment a)"
      using P(2) by (cases "bc_anonymous c") (auto simp: within_ceilings_def)
    have "u\<lparr>ud_anonymous := map_option (\<lambda>q. quota_min q (ac_capability a)) (ud_anonymous u)\<rparr> = u"
      if "u \<in> set (bp_uploads e)" for u
      using P(2) a that by (cases "ud_anonymous u") (auto simp: within_ceilings_def list_all_iff quota_min_absorb)
    then have "map (\<lambda>u. u\<lparr>ud_anonymous := map_option (\<lambda>q. quota_min q (ac_capability a)) (ud_anonymous u)\<rparr>) (bp_uploads e)
        = bp_uploads e" by (intro map_idI)
    then show ?thesis using Some a by (simp add: lowered_def leq quota_min_absorb)
  qed
  moreover have "bp_anonymous e \<noteq> None \<longrightarrow> bc_anonymous c \<noteq> None"
    using P(2) by (cases "bp_anonymous e"; cases "bc_anonymous c") (auto simp: within_ceilings_def)
  ultimately have "effective e c = Inr e"
    using P(1) v l(1) srt by (simp add: effective_Inr)
  then show ?thesis using P by blast
qed

definition sample_policy :: blob_policy where
  "sample_policy =
     \<lparr>bp_limits = limits_default, bp_anonymous = Some \<lparr>aq_stages = 16, aq_bytes = 1000\<rparr>,
      bp_uploads =
        [\<lparr>ud_id = 2, ud_name = ''cover'', ud_web_binding = 3, ud_input = ''file'', ud_anonymous = None\<rparr>,
         \<lparr>ud_id = 1, ud_name = ''attachment'', ud_web_binding = 2, ud_input = ''file'',
          ud_anonymous = Some \<lparr>aq_stages = 4, aq_bytes = 900\<rparr>\<rparr>]\<rparr>"

definition sample_ceilings :: blob_ceilings where
  "sample_ceilings =
     \<lparr>bc_limits = limits_default\<lparr>bl_file_bytes := 10, bl_uploads := 1\<rparr>,
      bc_anonymous = Some \<lparr>ac_deployment = \<lparr>aq_stages = 2, aq_bytes = 5000\<rparr>,
                           ac_capability = \<lparr>aq_stages = 1, aq_bytes = 500\<rparr>\<rparr>\<rparr>"

theorem effective_within_both_witness:
  "\<exists>e. effective sample_policy sample_ceilings = Inr e
     \<and> map ud_id (bp_uploads e) = [1, 2] \<and> bp_anonymous e = Some \<lparr>aq_stages = 2, aq_bytes = 1000\<rparr>
     \<and> within_ceilings e sample_ceilings \<and> effective e sample_ceilings = Inr e"
proof -
  let ?e = "\<lparr>bp_limits = limits_default\<lparr>bl_file_bytes := 10, bl_uploads := 1\<rparr>,
      bp_anonymous = Some \<lparr>aq_stages = 2, aq_bytes = 1000\<rparr>,
      bp_uploads =
        [\<lparr>ud_id = 1, ud_name = ''attachment'', ud_web_binding = 2, ud_input = ''file'',
          ud_anonymous = Some \<lparr>aq_stages = 1, aq_bytes = 500\<rparr>\<rparr>,
         \<lparr>ud_id = 2, ud_name = ''cover'', ud_web_binding = 3, ud_input = ''file'', ud_anonymous = None\<rparr>]\<rparr>"
  have "effective sample_policy sample_ceilings = Inr ?e"
    by (simp add: effective_def sample_policy_def sample_ceilings_def validate_limits_def limits_validate_def
        limits_intersection_def limits_default_def deployment_quota_validate_def capability_quota_validate_def
        quota_min_def blob_consts and_then_def ok_or_def)
  then show ?thesis using effective_within_both [of sample_policy sample_ceilings ?e] by simp
qed

end
