(* ===== verification/Blob_State.thy ===== *)
theory Blob_State
  imports Contract Blob_Policy
begin

text \<open>
  \<^verbatim>\<open>crates/noxide-blobs/src/state.rs\<close>: the life of one stored file as pure transitions of its
  metadata, each fenced by a generation and carrying the change of the quota counters it must be
  persisted with.  The object identity of \<^verbatim>\<open>store.rs\<close> and the worker witness of \<^verbatim>\<open>io.rs\<close>
  that the transitions consume are here too.

  SHA-256 is the argument \<open>sha256\<close> of the definitions that hash; a digest is the list of its
  bytes.  An \<open>i64\<close> is an integer whose range the operations check, a \<open>u64\<close> a natural number.
\<close>

section \<open>Identities\<close>

definition lower_hex :: "char \<Rightarrow> bool" where
  "lower_hex b \<longleftrightarrow> is_ascii_digit b \<or> (97 \<le> (of_char b :: nat) \<and> (of_char b :: nat) \<le> 102)"

definition commitment_parse :: "string \<Rightarrow> string res" where
  "commitment_parse v =
     (if length v = 64 \<and> list_all lower_hex v then Inr v else Inl ''invalid blob binding'')"

definition object_key_parse :: "string \<Rightarrow> string res" where
  "object_key_parse v =
     (if length v = 64 \<and> list_all lower_hex v then Inr v else Inl ''invalid object identity'')"

definition HEX :: string where "HEX = ''0123456789abcdef''"

definition hex :: "bytes \<Rightarrow> string" where
  "hex value = concat (map (\<lambda>b. [HEX ! (of_char b div 16), HEX ! (of_char b mod 16)]) value)"

definition hex_digit :: "char \<Rightarrow> nat res" where
  "hex_digit b =
     (if is_ascii_digit b then Inr (of_char b - 48)
      else if 97 \<le> (of_char b :: nat) \<and> (of_char b :: nat) \<le> 102 then Inr (of_char b - 97 + 10)
      else Inl ''invalid blob digest'')"

fun hash_pairs :: "bytes \<Rightarrow> bytes res" where
  "hash_pairs (a # b # rest) =
     and_then (hex_digit a) (\<lambda>x.
     and_then (hex_digit b) (\<lambda>y.
     and_then (hash_pairs rest) (\<lambda>r. Inr (char_of (x * 16 + y) # r))))"
| "hash_pairs _ = Inr []"

definition hash :: "string \<Rightarrow> bytes res" where
  "hash value = (if length value = 64 then hash_pairs value else Inl ''invalid blob digest'')"

section \<open>Metadata\<close>

record upload_binding =
  ub_slot :: string
  ub_subject :: string
  ub_context :: string
  ub_input :: string

record association =
  as_resource :: int
  as_id :: int
  as_incarnation :: string
  as_field :: string

definition association_validate :: "association \<Rightarrow> unit res" where
  "association_validate a =
     (if as_resource a > 0 \<and> as_id a > 0 \<and> as_incarnation a \<noteq> [] \<and> length (as_incarnation a) \<le> 64
         \<and> list_all (\<lambda>b. is_ascii_alphanumeric b \<or> b \<in> set ''-_'') (as_incarnation a)
         \<and> as_field a \<noteq> [] \<and> length (as_field a) \<le> 64
         \<and> list_all (\<lambda>b. is_ascii_alphanumeric b \<or> b = CHR ''_'') (as_field a)
      then Inr () else Inl ''invalid blob association'')"

datatype blob_state = Uploading | Staged | Attached | Unreferenced | Deleting | Deleted

definition generation_parse :: "int \<Rightarrow> int res" where
  "generation_parse v = (if v > 0 then Inr v else Inl ''invalid blob generation'')"

definition generation_next :: "int \<Rightarrow> int res" where
  "generation_next g = and_then (ok_or (checked_add_i64 g 1) ''blob generation exhausted'') generation_parse"

record metadata =
  md_blob :: string
  md_handle :: string
  md_key :: string
  md_binding :: upload_binding
  md_state :: blob_state
  md_generation :: int
  md_expires :: timestamp
  md_reserved :: nat
  md_bytes :: nat
  md_digest :: "bytes option"
  md_association :: "association option"

record quota_delta =
  qd_reserved :: int
  qd_used :: int
  qd_objects :: int

definition no_delta :: quota_delta where
  "no_delta = \<lparr>qd_reserved = 0, qd_used = 0, qd_objects = 0\<rparr>"

record transition =
  tr_expected :: int
  tr_next :: metadata
  tr_quota :: quota_delta

record gc_claim =
  gc_key :: string
  gc_generation :: int

record durable_object =
  do_key :: string
  do_bytes :: nat
  do_sha256 :: bytes

datatype io_outcome = Running | Succeeded | Failed

record completion =
  co_key :: string
  co_generation :: int
  co_cancelled :: bool
  co_stopped :: bool
  co_outcome :: io_outcome

text \<open>\<open>IoWitness::stopped\<close>: the proof of a finished worker, minted only once it has stopped.\<close>

definition witness_stopped :: "completion \<Rightarrow> completion option" where
  "witness_stopped c = (if co_stopped c then Some c else None)"

definition failed_or_cancelled :: "completion \<Rightarrow> bool" where
  "failed_or_cancelled c \<longleftrightarrow> co_cancelled c \<or> co_outcome c \<noteq> Succeeded"

section \<open>Quota counters\<close>

record quota =
  qu_reserved :: nat
  qu_used :: nat
  qu_objects :: nat

definition quota_add :: "nat \<Rightarrow> int \<Rightarrow> nat res" where
  "quota_add v d = ok_or (checked_add_signed_u64 v d) ''blob quota underflow or overflow''"

definition quota_apply :: "quota \<Rightarrow> quota_delta \<Rightarrow> blob_limits \<Rightarrow> quota res" where
  "quota_apply q d limits =
     and_then (limits_validate limits) (\<lambda>_.
     and_then (quota_add (qu_reserved q) (qd_reserved d)) (\<lambda>r.
     and_then (quota_add (qu_used q) (qd_used d)) (\<lambda>u.
     and_then (quota_add (qu_objects q) (qd_objects d)) (\<lambda>n.
     and_then (ok_or (checked_add_u64 (qu_reserved q) (qu_used q)) ''blob quota overflow'') (\<lambda>before.
     and_then (ok_or (checked_add_u64 r u) ''blob quota overflow'') (\<lambda>after.
     if \<not> (int before \<le> I64_MAX \<and> int after \<le> I64_MAX \<and> int (qu_objects q) \<le> I64_MAX \<and> int n \<le> I64_MAX)
     then Inl ''blob quota exceeds database representation''
     else if \<not> ((after \<le> bl_app_bytes limits \<or> after \<le> before)
                \<and> (n \<le> bl_objects limits \<or> n \<le> qu_objects q)
                \<and> (qd_objects d \<le> 0 \<or> (after \<le> bl_app_bytes limits \<and> n \<le> bl_objects limits)))
     then Inl ''blob app quota exceeded''
     else Inr \<lparr>qu_reserved = r, qu_used = u, qu_objects = n\<rparr>))))))"

section \<open>Transitions\<close>

definition candidate :: "metadata \<Rightarrow> int \<Rightarrow> blob_state \<Rightarrow> quota_delta \<Rightarrow> transition res" where
  "candidate m expected st q =
     (if md_generation m = expected
      then and_then (generation_next expected) (\<lambda>g.
        Inr \<lparr>tr_expected = expected, tr_next = m\<lparr>md_generation := g, md_state := st\<rparr>, tr_quota = q\<rparr>)
      else Inl ''stale blob generation'')"

definition fresh :: "metadata \<Rightarrow> timestamp \<Rightarrow> upload_binding \<Rightarrow> unit res" where
  "fresh m now binding =
     (if md_binding m = binding \<and> now < md_expires m then Inr () else Inl ''foreign or expired upload handle'')"

text \<open>\<open>u64::to_be_bytes\<close>.\<close>

definition to_be_bytes :: "nat \<Rightarrow> bytes" where
  "to_be_bytes n = map (\<lambda>i. char_of (n div 256 ^ (7 - i) mod 256)) [0..<8]"

definition expected_handle :: "(bytes \<Rightarrow> bytes) \<Rightarrow> metadata \<Rightarrow> nat \<Rightarrow> bytes \<Rightarrow> string res" where
  "expected_handle sha256 m bytes digest =
     upload_handle_parse (''u1_'' @ hex (sha256
       (''noxide/finalized-upload/v1'' @ [CHR 0x00] @ ub_slot (md_binding m) @ md_key m @ md_blob m
        @ to_be_bytes bytes @ digest)))"

definition stage :: "(bytes \<Rightarrow> bytes) \<Rightarrow> metadata \<Rightarrow> int \<Rightarrow> durable_object \<Rightarrow> timestamp \<Rightarrow> upload_binding
    \<Rightarrow> transition res" where
  "stage sha256 m expected object now binding =
     and_then (fresh m now binding) (\<lambda>_.
     if \<not> (md_state m = Uploading \<and> md_reserved m \<le> MAX_UPLOAD_BYTES \<and> md_bytes m = 0 \<and> md_digest m = None
           \<and> md_association m = None \<and> do_key object = md_key m \<and> do_bytes object \<le> md_reserved m)
     then Inl ''invalid staged object''
     else and_then (ok_or (i64_try_from_u64 (md_reserved m)) ''blob reservation overflow'') (\<lambda>r.
     and_then (ok_or (i64_try_from_u64 (do_bytes object)) ''blob size overflow'') (\<lambda>u.
     and_then (candidate m expected Staged \<lparr>qd_reserved = - r, qd_used = u, qd_objects = 0\<rparr>) (\<lambda>t.
     and_then (expected_handle sha256 m (do_bytes object) (do_sha256 object)) (\<lambda>h.
     Inr (t\<lparr>tr_next := (tr_next t)\<lparr>md_reserved := 0, md_bytes := do_bytes object,
              md_digest := Some (do_sha256 object), md_handle := h\<rparr>\<rparr>))))))"

definition attach :: "metadata \<Rightarrow> int \<Rightarrow> timestamp \<Rightarrow> upload_binding \<Rightarrow> string \<Rightarrow> association
    \<Rightarrow> transition res" where
  "attach m expected now binding handle a =
     and_then (fresh m now binding) (\<lambda>_.
     and_then (association_validate a) (\<lambda>_.
     if \<not> (md_state m = Staged \<and> md_association m = None \<and> md_handle m = handle \<and> md_digest m \<noteq> None)
     then Inl ''upload handle is not attachable''
     else and_then (candidate m expected Attached no_delta) (\<lambda>t.
     Inr (t\<lparr>tr_next := (tr_next t)\<lparr>md_association := Some a\<rparr>\<rparr>))))"

definition unreference :: "metadata \<Rightarrow> int \<Rightarrow> association \<Rightarrow> transition res" where
  "unreference m expected a =
     (if md_state m = Attached \<and> md_association m = Some a then candidate m expected Unreferenced no_delta
      else Inl ''blob association does not match'')"

definition with_claim :: "metadata \<Rightarrow> transition \<Rightarrow> transition \<times> gc_claim" where
  "with_claim m t = (t, \<lparr>gc_key = md_key m, gc_generation = md_generation (tr_next t)\<rparr>)"

definition claim :: "metadata \<Rightarrow> int \<Rightarrow> timestamp \<Rightarrow> (transition \<times> gc_claim) res" where
  "claim m expected now =
     (if md_state m = Unreferenced \<or> (md_state m = Staged \<and> now \<ge> md_expires m)
      then and_then (candidate m expected Deleting no_delta) (\<lambda>t. Inr (with_claim m t))
      else Inl ''blob is not collectable'')"

definition claim_stopped_upload :: "metadata \<Rightarrow> int \<Rightarrow> timestamp \<Rightarrow> completion \<Rightarrow> (transition \<times> gc_claim) res" where
  "claim_stopped_upload m expected now stopped =
     (if md_state m = Uploading \<and> co_key stopped = md_key m \<and> co_generation stopped = md_generation m
         \<and> (failed_or_cancelled stopped \<or> now \<ge> md_expires m)
      then and_then (candidate m expected Deleting no_delta) (\<lambda>t. Inr (with_claim m t))
      else Inl ''upload worker is not collectable'')"

definition deleted :: "metadata \<Rightarrow> gc_claim \<Rightarrow> transition res" where
  "deleted m c =
     (if md_state m = Deleting \<and> md_key m = gc_key c \<and> md_generation m = gc_generation c
      then and_then (ok_or (i64_try_from_u64 (md_reserved m)) ''blob reservation overflow'') (\<lambda>r.
        and_then (ok_or (i64_try_from_u64 (md_bytes m)) ''blob size overflow'') (\<lambda>u.
        and_then (candidate m (gc_generation c) Deleted \<lparr>qd_reserved = - r, qd_used = - u, qd_objects = - 1\<rparr>) (\<lambda>t.
        Inr (t\<lparr>tr_next := (tr_next t)\<lparr>md_reserved := 0, md_bytes := 0\<rparr>\<rparr>))))
      else Inl ''stale blob GC claim'')"

definition recover_prior_upload :: "metadata \<Rightarrow> (transition \<times> gc_claim) res" where
  "recover_prior_upload m =
     (if md_state m = Uploading
      then and_then (candidate m (md_generation m) Deleting no_delta) (\<lambda>t. Inr (with_claim m t))
      else Inl ''not an uploading reservation'')"

definition resume_deletion :: "metadata \<Rightarrow> (transition \<times> gc_claim) res" where
  "resume_deletion m =
     (if md_state m = Deleting
      then and_then (candidate m (md_generation m) Deleting no_delta) (\<lambda>t. Inr (with_claim m t))
      else Inl ''not a deletion claim'')"

lemmas transition_defs =
  stage_def attach_def unreference_def claim_def claim_stopped_upload_def deleted_def
  recover_prior_upload_def resume_deletion_def with_claim_def

section \<open>Stored shape\<close>

text \<open>The shape \<open>BlobRow::parse\<close> demands of a stored row in each state.\<close>

definition shape_check :: "metadata \<Rightarrow> unit res" where
  "shape_check m =
     (let r = md_reserved m; b = md_bytes m; d = md_digest m; a = md_association m in
      case md_state m of
        Uploading \<Rightarrow>
          if r > 0 \<and> b = 0 \<and> d = None \<and> a = None then Inr () else Inl ''invalid Uploading metadata''
      | Staged \<Rightarrow>
          if r = 0 \<and> d \<noteq> None \<and> a = None then Inr () else Inl ''invalid Staged metadata''
      | Attached \<Rightarrow>
          if r = 0 \<and> d \<noteq> None \<and> a \<noteq> None then Inr () else Inl ''invalid attached metadata''
      | Unreferenced \<Rightarrow>
          if r = 0 \<and> d \<noteq> None \<and> a \<noteq> None then Inr () else Inl ''invalid attached metadata''
      | Deleting \<Rightarrow>
          if (r > 0 \<and> b = 0 \<and> d = None \<and> a = None) \<or> (r = 0 \<and> d \<noteq> None)
          then Inr () else Inl ''invalid deleting metadata''
      | Deleted \<Rightarrow>
          if r = 0 \<and> b = 0 then Inr () else Inl ''invalid deleted charge'')"

definition binding_ok :: "upload_binding \<Rightarrow> bool" where
  "binding_ok b \<longleftrightarrow>
     list_all (\<lambda>c. is_ok (commitment_parse c)) [ub_slot b, ub_subject b, ub_context b, ub_input b]"

definition association_ok :: "association \<Rightarrow> bool" where
  "association_ok a \<longleftrightarrow> association_validate a = Inr () \<and> is_identifier (as_field a)
     \<and> as_resource a \<le> I64_MAX \<and> as_id a \<le> I64_MAX"

definition metadata_ok :: "(bytes \<Rightarrow> bytes) \<Rightarrow> metadata \<Rightarrow> bool" where
  "metadata_ok sha256 m \<longleftrightarrow>
     shape_check m = Inr () \<and> md_reserved m \<le> MAX_UPLOAD_BYTES \<and> md_bytes m \<le> MAX_UPLOAD_BYTES
     \<and> 0 < md_generation m \<and> md_generation m \<le> I64_MAX \<and> time_ok (md_expires m)
     \<and> is_ok (blob_ref_parse (md_blob m)) \<and> is_ok (upload_handle_parse (md_handle m))
     \<and> is_ok (object_key_parse (md_key m)) \<and> binding_ok (md_binding m)
     \<and> (\<forall>a. md_association m = Some a \<longrightarrow> association_ok a)
     \<and> (\<forall>d. md_digest m = Some d \<longrightarrow> length d = 32
          \<and> (md_state m \<noteq> Deleted \<longrightarrow> expected_handle sha256 m (md_bytes m) d = Inr (md_handle m)))"

section \<open>The life of a file\<close>

inductive blob_step :: "(bytes \<Rightarrow> bytes) \<Rightarrow> metadata \<Rightarrow> transition \<Rightarrow> bool" for sha256 where
  do_stage: "stage sha256 m e object now binding = Inr t \<Longrightarrow> length (do_sha256 object) = 32
    \<Longrightarrow> blob_step sha256 m t"
| do_attach: "attach m e now binding handle a = Inr t \<Longrightarrow> association_ok a \<Longrightarrow> blob_step sha256 m t"
| do_unreference: "unreference m e a = Inr t \<Longrightarrow> blob_step sha256 m t"
| do_claim: "claim m e now = Inr (t, c) \<Longrightarrow> blob_step sha256 m t"
| do_claim_stopped: "claim_stopped_upload m e now stopped = Inr (t, c) \<Longrightarrow> blob_step sha256 m t"
| do_deleted: "deleted m c = Inr t \<Longrightarrow> blob_step sha256 m t"
| do_recover: "recover_prior_upload m = Inr (t, c) \<Longrightarrow> blob_step sha256 m t"
| do_resume: "resume_deletion m = Inr (t, c) \<Longrightarrow> blob_step sha256 m t"

inductive_cases blob_stepE: "blob_step sha256 m t"

inductive blob_run :: "(bytes \<Rightarrow> bytes) \<Rightarrow> metadata \<Rightarrow> metadata \<Rightarrow> bool" for sha256 where
  run_refl: "blob_run sha256 m m"
| run_step: "blob_run sha256 m m' \<Longrightarrow> blob_step sha256 m' t \<Longrightarrow> blob_run sha256 m (tr_next t)"

text \<open>What a file is charged: reserved bytes, used bytes and one object until its deletion.\<close>

definition live :: "metadata \<Rightarrow> int" where
  "live m = (if md_state m = Deleted then 0 else 1)"

definition charge_delta :: "metadata \<Rightarrow> metadata \<Rightarrow> quota_delta" where
  "charge_delta m m' =
     \<lparr>qd_reserved = int (md_reserved m') - int (md_reserved m),
      qd_used = int (md_bytes m') - int (md_bytes m), qd_objects = live m' - live m\<rparr>"

definition same_identity :: "metadata \<Rightarrow> metadata \<Rightarrow> bool" where
  "same_identity m m' \<longleftrightarrow>
     md_blob m' = md_blob m \<and> md_key m' = md_key m \<and> md_binding m' = md_binding m \<and> md_expires m' = md_expires m"

fun edge :: "blob_state \<Rightarrow> blob_state \<Rightarrow> bool" where
  "edge Uploading Staged = True"
| "edge Uploading Deleting = True"
| "edge Staged Attached = True"
| "edge Staged Deleting = True"
| "edge Attached Unreferenced = True"
| "edge Unreferenced Deleting = True"
| "edge Deleting Deleting = True"
| "edge Deleting Deleted = True"
| "edge _ _ = False"

lemma candidate_Inr [res_simps]:
  "candidate m e st q = Inr t \<longleftrightarrow>
     md_generation m = e \<and> in_i64 (e + 1) \<and> 0 < e + 1
     \<and> t = \<lparr>tr_expected = e, tr_next = m\<lparr>md_generation := e + 1, md_state := st\<rparr>, tr_quota = q\<rparr>"
  by (auto simp: candidate_def generation_next_def generation_parse_def res_simps split: if_splits)

lemma shape_check_simp:
  "shape_check m = Inr () \<longleftrightarrow>
     (case md_state m of
        Uploading \<Rightarrow> md_reserved m > 0 \<and> md_bytes m = 0 \<and> md_digest m = None \<and> md_association m = None
      | Staged \<Rightarrow> md_reserved m = 0 \<and> md_digest m \<noteq> None \<and> md_association m = None
      | Attached \<Rightarrow> md_reserved m = 0 \<and> md_digest m \<noteq> None \<and> md_association m \<noteq> None
      | Unreferenced \<Rightarrow> md_reserved m = 0 \<and> md_digest m \<noteq> None \<and> md_association m \<noteq> None
      | Deleting \<Rightarrow> (md_reserved m > 0 \<and> md_bytes m = 0 \<and> md_digest m = None \<and> md_association m = None)
          \<or> (md_reserved m = 0 \<and> md_digest m \<noteq> None)
      | Deleted \<Rightarrow> md_reserved m = 0 \<and> md_bytes m = 0)"
  by (cases "md_state m") (simp_all add: shape_check_def Let_def)

lemma expected_handle_update [simp]:
  "expected_handle sha256 (m\<lparr>md_generation := g\<rparr>) = expected_handle sha256 m"
  "expected_handle sha256 (m\<lparr>md_state := st\<rparr>) = expected_handle sha256 m"
  "expected_handle sha256 (m\<lparr>md_reserved := r\<rparr>) = expected_handle sha256 m"
  "expected_handle sha256 (m\<lparr>md_bytes := b\<rparr>) = expected_handle sha256 m"
  "expected_handle sha256 (m\<lparr>md_digest := d\<rparr>) = expected_handle sha256 m"
  "expected_handle sha256 (m\<lparr>md_handle := h\<rparr>) = expected_handle sha256 m"
  "expected_handle sha256 (m\<lparr>md_association := a\<rparr>) = expected_handle sha256 m"
  by (simp_all add: expected_handle_def fun_eq_iff)

lemma upload_handle_parse_Inr: "upload_handle_parse v = Inr h \<Longrightarrow> h = v"
  by (auto simp: upload_handle_parse_def opaque_token_def res_simps split: if_splits)

lemma expected_handle_Inr_ok:
  "expected_handle sha256 m b d = Inr h \<Longrightarrow> upload_handle_parse h = Inr h"
  unfolding expected_handle_def using upload_handle_parse_Inr by metis

text \<open>Every transition: fenced by the generation it was computed from, along an edge of the state
  graph, with the identity kept and the quota delta equal to the change of the charge.\<close>

lemma blob_step_effect:
  assumes "blob_step sha256 m t"
  shows "tr_expected t = md_generation m" and "md_generation (tr_next t) = md_generation m + 1"
    and "same_identity m (tr_next t)" and "edge (md_state m) (md_state (tr_next t))"
    and "tr_quota t = charge_delta m (tr_next t)"
  using assms
  by (cases rule: blob_step.cases;
      auto simp: transition_defs res_simps same_identity_def charge_delta_def live_def no_delta_def
        split: if_splits)+

lemma blob_step_ok:
  assumes "metadata_ok sha256 m" and "blob_step sha256 m t"
  shows "metadata_ok sha256 (tr_next t)"
proof -
  have g: "\<And>e. in_i64 (e + 1) \<Longrightarrow> e + 1 \<le> I64_MAX" by (simp add: in_i64_def)
  from assms(2) show ?thesis
  proof (cases rule: blob_step.cases)
    case (do_stage e object now binding)
    then show ?thesis
      using assms(1) expected_handle_Inr_ok g
      by (auto simp: stage_def res_simps metadata_ok_def shape_check_simp is_ok_iff split: if_splits)
  next
    case (do_deleted c)
    then show ?thesis
      using assms(1) g by (auto simp: deleted_def res_simps metadata_ok_def shape_check_simp split: if_splits)
  qed (use assms(1) g in \<open>auto simp: transition_defs res_simps metadata_ok_def shape_check_simp split: if_splits\<close>)
qed

section \<open>Digests as text\<close>

lemma HEX_nth:
  assumes "n < 16"
  shows "hex_digit (HEX ! n) = Inr n" and "lower_hex (HEX ! n)"
proof -
  have "list_all (\<lambda>n. hex_digit (HEX ! n) = Inr n \<and> lower_hex (HEX ! n)) [0..<16]" by code_simp
  then have "hex_digit (HEX ! n) = Inr n \<and> lower_hex (HEX ! n)"
    using assms by (simp add: list_all_iff)
  then show "hex_digit (HEX ! n) = Inr n" "lower_hex (HEX ! n)" by simp_all
qed

lemma hex_Cons: "hex (b # bs) = (HEX ! (of_char b div 16)) # (HEX ! (of_char b mod 16)) # hex bs"
  by (simp add: hex_def)

lemma of_char_div_16: "of_char (b :: char) div 16 < (16 :: nat)"
  using nat_of_char_less_256 [of b] by (simp add: less_mult_imp_div_less)

lemma hash_pairs_hex: "hash_pairs (hex bs) = Inr bs"
proof (induction bs)
  case Nil
  then show ?case by (simp add: hex_def)
next
  case (Cons b bs)
  have "(of_char b :: nat) div 16 * 16 + of_char b mod 16 = of_char b" by simp
  then show ?case
    using Cons by (simp only: hex_Cons hash_pairs.simps HEX_nth of_char_div_16 and_then_simps) (simp add: HEX_nth)
qed

lemma length_hex: "length (hex bs) = 2 * length bs"
  by (induction bs) (simp_all add: hex_def)

lemma hash_hex: "length d = 32 \<Longrightarrow> hash (hex d) = Inr d"
  by (simp add: hash_def length_hex hash_pairs_hex)

lemma hex_lower: "list_all lower_hex (hex bs)"
  by (induction bs) (simp_all add: hex_def HEX_nth of_char_div_16)

text \<open>With a hash of 32 bytes, as SHA-256 is, a finalised handle always exists.\<close>

lemma expected_handle_total:
  assumes "\<And>x. length (sha256 x) = 32"
  shows "is_ok (expected_handle sha256 m b d)"
proof -
  have "list_all lower_hex (hex (sha256 v))" "length (hex (sha256 v)) = 64" for v
    by (simp_all add: hex_lower length_hex assms)
  then show ?thesis
    by (simp add: expected_handle_def upload_handle_parse_def opaque_token_def strip_prefix_list_def
        lower_hex_def cong: list.pred_cong)
qed

section \<open>Fenced transitions\<close>

text \<open>C10: every transition of a stored file is fenced and exactly accounted.  It is computed from the
  current generation and advances it by one, follows an edge of the state graph (an attached file is
  never claimed for deletion before its owner lets go of it, a deleted one never changes again),
  keeps the file's identity, binding and expiry, preserves the stored shape of its state, and carries
  as quota delta exactly the change of what the file is charged.\<close>

theorem blob_transition_fenced:
  assumes "metadata_ok sha256 m" and "blob_step sha256 m t"
  shows "metadata_ok sha256 (tr_next t) \<and> tr_expected t = md_generation m
    \<and> md_generation (tr_next t) = md_generation m + 1 \<and> edge (md_state m) (md_state (tr_next t))
    \<and> same_identity m (tr_next t) \<and> tr_quota t = charge_delta m (tr_next t)"
  using blob_step_ok [OF assms] blob_step_effect [OF assms(2)] by blast

definition sample_digest :: bytes where "sample_digest = replicate 32 CHR 0x02"

definition sample_metadata :: metadata where
  "sample_metadata =
     \<lparr>md_blob = ''b1_'' @ replicate 64 CHR ''e'', md_handle = ''u1_'' @ replicate 64 CHR ''f'',
      md_key = replicate 64 CHR ''1'',
      md_binding = \<lparr>ub_slot = replicate 64 CHR ''a'', ub_subject = replicate 64 CHR ''b'',
        ub_context = replicate 64 CHR ''c'', ub_input = replicate 64 CHR ''d''\<rparr>,
      md_state = Uploading, md_generation = 1, md_expires = 901000, md_reserved = 10, md_bytes = 0,
      md_digest = None, md_association = None\<rparr>"

text \<open>A stand-in hash of the right output length, for concrete runs.\<close>

definition sample_sha256 :: "bytes \<Rightarrow> bytes" where
  "sample_sha256 v = replicate 32 (hd (v @ [CHR 0x00]))"

lemma sample_metadata_ok: "metadata_ok sample_sha256 sample_metadata"
  by (simp add: metadata_ok_def sample_metadata_def shape_check_def binding_ok_def commitment_parse_def
      object_key_parse_def blob_ref_parse_def upload_handle_parse_def opaque_token_def strip_prefix_list_def
      lower_hex_def ascii_defs time_ok_def int_defs MAX_UPLOAD_BYTES_def list_all_iff)

definition sample_object :: durable_object where
  "sample_object = \<lparr>do_key = replicate 64 CHR ''1'', do_bytes = 3, do_sha256 = sample_digest\<rparr>"

lemma sample_stage:
  "is_ok (stage sample_sha256 sample_metadata 1 sample_object 1000 (md_binding sample_metadata))"
proof -
  have "is_ok (expected_handle sample_sha256 sample_metadata 3 sample_digest)"
    by (rule expected_handle_total) (simp add: sample_sha256_def)
  then obtain h where "expected_handle sample_sha256 sample_metadata 3 sample_digest = Inr h"
    by (auto simp: is_ok_iff)
  then show ?thesis
    by (simp add: stage_def fresh_def candidate_def generation_next_def generation_parse_def sample_metadata_def
        sample_object_def i64_try_from_u64_def checked_add_i64_def in_i64_def int_defs MAX_UPLOAD_BYTES_def)
qed

theorem blob_transition_fenced_witness:
  "\<exists>t. metadata_ok sample_sha256 sample_metadata \<and> blob_step sample_sha256 sample_metadata t
     \<and> metadata_ok sample_sha256 (tr_next t) \<and> edge Uploading (md_state (tr_next t))
     \<and> tr_quota t = charge_delta sample_metadata (tr_next t)"
proof -
  obtain t where t: "stage sample_sha256 sample_metadata 1 sample_object 1000 (md_binding sample_metadata) = Inr t"
    using sample_stage by (auto simp: is_ok_iff)
  have "length (do_sha256 sample_object) = 32" by (simp add: sample_object_def sample_digest_def)
  then have st: "blob_step sample_sha256 sample_metadata t" by (rule do_stage [OF t])
  have "md_state sample_metadata = Uploading" by (simp add: sample_metadata_def)
  then show ?thesis
    using blob_transition_fenced [OF sample_metadata_ok st] sample_metadata_ok st by auto
qed

section \<open>Immutability\<close>

lemma blob_step_immutable:
  assumes "metadata_ok sha256 m" and "blob_step sha256 m t"
  shows "md_digest m = Some d \<Longrightarrow> md_digest (tr_next t) = Some d \<and> md_handle (tr_next t) = md_handle m
          \<and> (md_state (tr_next t) \<noteq> Deleted \<longrightarrow> md_bytes (tr_next t) = md_bytes m)"
    and "md_association m = Some a \<Longrightarrow> md_association (tr_next t) = Some a"
  using assms(2)
  by (cases rule: blob_step.cases; auto simp: transition_defs res_simps split: if_splits)+

lemma blob_run_ok: "blob_run sha256 m m' \<Longrightarrow> metadata_ok sha256 m \<Longrightarrow> metadata_ok sha256 m'"
  by (induction rule: blob_run.induct) (auto intro: blob_step_ok)

lemma blob_run_generation:
  assumes "blob_run sha256 m m'"
  shows "md_generation m \<le> md_generation m' \<and> (md_generation m' = md_generation m \<longrightarrow> m' = m)"
  using assms by induction (use blob_step_effect(2) in force)+

lemma edge_from_Deleted: "\<not> edge Deleted s"
  by (cases s) simp_all

lemma blob_run_content:
  assumes "blob_run sha256 m m'" and "metadata_ok sha256 m"
  shows "md_digest m = Some d \<Longrightarrow> md_digest m' = Some d \<and> md_handle m' = md_handle m
          \<and> (md_state m' \<noteq> Deleted \<longrightarrow> md_bytes m' = md_bytes m)"
    and "md_association m = Some a \<Longrightarrow> md_association m' = Some a"
    and "same_identity m m'"
  using assms
proof (induction rule: blob_run.induct)
  case (run_refl m)
  {
    case 1 then show ?case by simp
  next
    case 2 then show ?case by simp
  next
    case 3 then show ?case by (simp add: same_identity_def)
  }
next
  case (run_step m m' t)
  note ok = blob_run_ok [OF run_step.hyps(1)]
  note E = blob_step_effect [OF run_step.hyps(2)]
  {
    case 1
    have "md_state m' \<noteq> Deleted" using E(4) edge_from_Deleted by metis
    then show ?case using run_step.IH(1) 1 blob_step_immutable(1) [OF ok [OF 1(2)] run_step.hyps(2)] by auto
  next
    case 2
    then show ?case using run_step.IH(2) blob_step_immutable(2) [OF ok run_step.hyps(2)] by blast
  next
    case 3
    then show ?case using run_step.IH(3) E(3) by (auto simp: same_identity_def)
  }
qed

text \<open>C11: what a stored file is never changes behind its generation.  Along any sequence of
  transitions the identity, binding and expiry stay fixed; once staged the digest and the upload handle
  that commits to it never change, nor does the recorded length until the deletion is complete; once
  attached it is never attached to anything else; generations only grow and equal generations mean
  equal metadata; and nothing follows a deletion.\<close>

theorem blob_run_immutable:
  assumes "metadata_ok sha256 m" and "blob_run sha256 m m'"
  shows "metadata_ok sha256 m' \<and> same_identity m m' \<and> md_generation m \<le> md_generation m'
    \<and> (md_generation m' = md_generation m \<longrightarrow> m' = m)
    \<and> (\<forall>d. md_digest m = Some d \<longrightarrow> md_digest m' = Some d \<and> md_handle m' = md_handle m
          \<and> (md_state m' \<noteq> Deleted \<longrightarrow> md_bytes m' = md_bytes m))
    \<and> (\<forall>a. md_association m = Some a \<longrightarrow> md_association m' = Some a)
    \<and> (md_state m = Deleted \<longrightarrow> m' = m)"
proof -
  have "m' = m" if "md_state m = Deleted"
    using assms(2) that by induction (use blob_step_effect(4) edge_from_Deleted in metis)+
  then show ?thesis
    using blob_run_ok [OF assms(2,1)] blob_run_generation [OF assms(2)] blob_run_content [OF assms(2,1)] by blast
qed

theorem blob_run_immutable_witness:
  "\<exists>m'. metadata_ok sample_sha256 sample_metadata \<and> blob_run sample_sha256 sample_metadata m'
     \<and> md_generation m' = 2 \<and> metadata_ok sample_sha256 m' \<and> same_identity sample_metadata m'"
proof -
  obtain t where t: "stage sample_sha256 sample_metadata 1 sample_object 1000 (md_binding sample_metadata) = Inr t"
    using sample_stage by (auto simp: is_ok_iff)
  have "length (do_sha256 sample_object) = 32" by (simp add: sample_object_def sample_digest_def)
  then have st: "blob_step sample_sha256 sample_metadata t" by (rule do_stage [OF t])
  then have run: "blob_run sample_sha256 sample_metadata (tr_next t)" by (rule run_step [OF run_refl])
  have "md_generation (tr_next t) = 2" using blob_step_effect(2) [OF st] by (simp add: sample_metadata_def)
  then show ?thesis using run sample_metadata_ok blob_run_immutable [OF sample_metadata_ok run] by blast
qed

end
