(* ===== verification/Blob_Transport.thy ===== *)
theory Blob_Transport
  imports Prelude Blob_Policy
begin

text \<open>
  \<^verbatim>\<open>crates/noxide-blobs/src/transport.rs\<close>: the display label of an attachment and the byte and
  deadline accounting of a transfer.  A Rust \<open>str\<close> is its UTF-8 byte sequence; its characters are
  the bytes that are not continuation bytes, each standing for the character it leads.  An
  \<open>Instant\<close> is a number of milliseconds, bounded by what the platform's clock type can hold.
\<close>

section \<open>Attachment names\<close>

definition MAX_RAW_FILENAME_BYTES :: nat where "MAX_RAW_FILENAME_BYTES = 255"
definition MAX_FILENAME_BYTES :: nat where "MAX_FILENAME_BYTES = 80"

definition is_continuation :: "char \<Rightarrow> bool" where
  "is_continuation c \<longleftrightarrow> 128 \<le> (of_char c :: nat) \<and> (of_char c :: nat) < 192"

definition label_char :: "char \<Rightarrow> bool" where
  "label_char c \<longleftrightarrow> is_ascii_alphanumeric c \<or> c \<in> set ''._-''"

definition name_basename :: "bytes \<Rightarrow> bytes" where
  "name_basename input = rev (takeWhile (\<lambda>c. c \<noteq> CHR ''/'' \<and> c \<noteq> CHR 0x5C) (rev input))"

definition normalize :: "bytes \<Rightarrow> bytes res" where
  "normalize input =
     (if length input > MAX_RAW_FILENAME_BYTES then Inl ''upload filename limit''
      else let label = take MAX_FILENAME_BYTES
                 (map (\<lambda>c. if label_char c then c else CHR ''_'')
                   (filter (\<lambda>c. \<not> is_continuation c) (name_basename input)));
               label = trim_matches (\<lambda>c. c \<in> set ''._-'') label
           in Inr (if label = [] then ''download.bin'' else label))"

definition disposition :: "bytes \<Rightarrow> bytes" where
  "disposition name = ''attachment; filename='' @ [CHR 0x22] @ name @ [CHR 0x22]"

section \<open>Transfer budgets\<close>

definition INSTANT_MAX :: nat where "INSTANT_MAX = 9223372036854775807 * 1000 + 999"

definition instant_checked_add :: "instant \<Rightarrow> nat \<Rightarrow> instant option" where
  "instant_checked_add t d = (if t + d \<le> INSTANT_MAX then Some (t + d) else None)"

record transfer_budget =
  bt_total :: instant
  bt_idle :: instant
  bt_remaining :: nat

definition budget_new :: "instant \<Rightarrow> instant \<Rightarrow> nat \<Rightarrow> transfer_budget res" where
  "budget_new now request_deadline bytes =
     (if \<not> bytes \<le> MAX_UPLOAD_BYTES then Inl ''download byte limit''
      else and_then (ok_or (instant_checked_add now TRANSFER_TOTAL_MILLIS) ''blob transfer deadline overflow'') (\<lambda>t.
      let whole = min request_deadline t in
      and_then (ok_or (instant_checked_add now DOWNLOAD_IDLE_MILLIS) ''blob idle deadline overflow'') (\<lambda>i.
      let idle = min whole i in
      if \<not> now < whole then Inl ''blob transfer deadline''
      else Inr \<lparr>bt_total = whole, bt_idle = idle, bt_remaining = bytes\<rparr>)))"

definition budget_deadline :: "transfer_budget \<Rightarrow> instant" where
  "budget_deadline b = min (bt_total b) (bt_idle b)"

definition budget_check :: "transfer_budget \<Rightarrow> instant \<Rightarrow> unit res" where
  "budget_check b now =
     (if now < budget_deadline b then Inr () else Inl ''blob transfer idle or total deadline'')"

text \<open>A failed call leaves the budget as the fields already assigned; the caller abandons it.\<close>

definition budget_progress :: "transfer_budget \<Rightarrow> instant \<Rightarrow> nat \<Rightarrow> transfer_budget res" where
  "budget_progress b now bytes =
     and_then (budget_check b now) (\<lambda>_.
     if \<not> (0 < bytes \<and> bytes \<le> TRANSFER_BUFFER_BYTES) then Inl ''blob transfer buffer limit''
     else if bt_remaining b < bytes then Inl ''blob transfer length exceeded''
     else and_then (ok_or (instant_checked_add now DOWNLOAD_IDLE_MILLIS) ''blob idle deadline overflow'') (\<lambda>i.
     Inr (b\<lparr>bt_remaining := bt_remaining b - bytes, bt_idle := min (bt_total b) i\<rparr>)))"

definition budget_complete :: "transfer_budget \<Rightarrow> bool" where
  "budget_complete b \<longleftrightarrow> bt_remaining b = 0"

fun budget_run :: "transfer_budget \<Rightarrow> (instant \<times> nat) list \<Rightarrow> transfer_budget res" where
  "budget_run b [] = Inr b"
| "budget_run b ((now, n) # steps) = and_then (budget_progress b now n) (\<lambda>b'. budget_run b' steps)"

section \<open>Names are labels\<close>

lemma label_trim_chars:
  assumes "list_all label_char xs"
  shows "list_all label_char (trim_matches P xs)"
  using assms
  by (auto simp: trim_matches_def list_all_iff dest!: set_dropWhileD)

lemma label_chars_plain:
  assumes "label_char c"
  shows "c \<noteq> CHR ''/''" "c \<noteq> CHR 0x5C" "\<not> is_continuation c" "c \<noteq> CHR 0x22" "c \<noteq> CHR 0x0D" "c \<noteq> CHR 0x0A"
  using assms by (auto simp: label_char_def is_continuation_def ascii_defs)

lemma name_basename_plain:
  "list_all (\<lambda>c. c \<noteq> CHR ''/'' \<and> c \<noteq> CHR 0x5C) xs \<Longrightarrow> name_basename xs = xs"
  by (simp add: name_basename_def list_all_iff takeWhile_eq_all_conv [THEN iffD2])

lemma trim_matches_ends:
  assumes "trim_matches P xs \<noteq> []"
  shows "\<not> P (hd (trim_matches P xs))" and "\<not> P (last (trim_matches P xs))"
proof -
  let ?d = "dropWhile P xs"
  let ?t = "trim_matches P xs"
  have rv: "rev ?t = dropWhile P (rev ?d)" by (simp add: trim_matches_def)
  then have "dropWhile P (rev ?d) \<noteq> []" using assms by (metis rev_is_Nil_conv)
  then show l: "\<not> P (last ?t)" using rv hd_dropWhile [of P "rev ?d"] by (metis hd_rev)
  obtain us where "rev ?d = us @ rev ?t" using rv by (metis takeWhile_dropWhile_id)
  then have d: "?d = ?t @ rev us" by (metis rev_append rev_rev_ident)
  then have "?d \<noteq> []" using assms by simp
  then have "\<not> P (hd ?d)" by (rule hd_dropWhile)
  then show "\<not> P (hd ?t)" using d assms by (metis hd_append2)
qed

lemma trim_matches_fixed:
  assumes "xs = [] \<or> (\<not> P (hd xs) \<and> \<not> P (last xs))"
  shows "trim_matches P xs = xs"
proof (cases "xs = []")
  case True
  then show ?thesis by (simp add: trim_matches_def)
next
  case False
  with assms have "dropWhile P xs = xs" "dropWhile P (rev xs) = rev xs"
    by (simp_all add: dropWhile_eq_self_iff hd_rev)
  then show ?thesis by (simp add: trim_matches_def)
qed

lemma length_trim_matches: "length (trim_matches P xs) \<le> length xs"
  unfolding trim_matches_def by (metis length_dropWhile_le length_rev order_trans)

text \<open>What every normalised name looks like.\<close>

definition attachment_name :: "bytes \<Rightarrow> bool" where
  "attachment_name n \<longleftrightarrow>
     n \<noteq> [] \<and> length n \<le> MAX_FILENAME_BYTES \<and> list_all label_char n
     \<and> hd n \<notin> set ''._-'' \<and> List.last n \<notin> set ''._-''"

lemma attachment_name_fixed:
  assumes "attachment_name n"
  shows "normalize n = Inr n"
proof -
  have lab: "\<And>c. c \<in> set n \<Longrightarrow> label_char c" using assms by (simp add: attachment_name_def list_all_iff)
  have "name_basename n = n" using lab label_chars_plain by (intro name_basename_plain) (auto simp: list_all_iff)
  moreover have "filter (\<lambda>c. \<not> is_continuation c) n = n" using lab label_chars_plain by (simp add: filter_id_conv)
  moreover have "map (\<lambda>c. if label_char c then c else CHR ''_'') n = n" using lab by (simp add: map_idI)
  moreover have "take MAX_FILENAME_BYTES n = n" using assms by (simp add: attachment_name_def)
  moreover have "trim_matches (\<lambda>c. c \<in> set ''._-'') n = n"
    using assms by (intro trim_matches_fixed) (simp add: attachment_name_def)
  moreover have "\<not> length n > MAX_RAW_FILENAME_BYTES" "n \<noteq> []"
    using assms by (simp_all add: attachment_name_def MAX_FILENAME_BYTES_def MAX_RAW_FILENAME_BYTES_def)
  ultimately show ?thesis by (simp add: normalize_def Let_def)
qed

lemma normalize_label:
  assumes "normalize input = Inr n"
  shows "attachment_name n"
proof -
  define label where "label = take MAX_FILENAME_BYTES
      (map (\<lambda>c. if label_char c then c else CHR ''_'') (filter (\<lambda>c. \<not> is_continuation c) (name_basename input)))"
  define t where "t = trim_matches (\<lambda>c. c \<in> set ''._-'') label"
  have n: "n = (if t = [] then ''download.bin'' else t)"
    using assms by (simp add: normalize_def Let_def label_def t_def split: if_splits)
  have "label_char CHR ''_''" by (simp add: label_char_def)
  then have lab: "list_all label_char label" by (auto simp: label_def list_all_iff dest!: in_set_takeD)
  have len: "length t \<le> MAX_FILENAME_BYTES"
    using length_trim_matches [of _ label] order_trans by (fastforce simp: t_def label_def)
  have "attachment_name ''download.bin''" by code_simp
  moreover have "attachment_name t" if "t \<noteq> []"
    unfolding attachment_name_def
    using that len label_trim_chars [OF lab] trim_matches_ends [of "\<lambda>c. c \<in> set ''._-''" label]
    by (simp add: t_def)
  ultimately show ?thesis using n by simp
qed

text \<open>A stored file name is only a label.  Whatever bytes an upload declares, a normalised name
  is non-empty, at most 80 bytes of letters, digits, dots, underscores and hyphens, neither begins
  nor ends with punctuation (so it is no path and no header syntax, and cannot close the quotes of a
  \<open>Content-Disposition\<close>), and normalising it again returns it unchanged.\<close>

theorem normalize_is_label:
  assumes "normalize input = Inr n"
  shows "attachment_name n \<and> normalize n = Inr n
    \<and> (\<forall>c \<in> set n. c \<noteq> CHR ''/'' \<and> c \<noteq> CHR 0x5C \<and> c \<noteq> CHR 0x22 \<and> c \<noteq> CHR 0x0D \<and> c \<noteq> CHR 0x0A)"
  using normalize_label [OF assms] attachment_name_fixed [OF normalize_label [OF assms]] label_chars_plain
  by (auto simp: attachment_name_def list_all_iff)

theorem normalize_is_label_witness:
  "normalize ''../../secret.txt'' = Inr ''secret.txt'' \<and> normalize ''secret.txt'' = Inr ''secret.txt''
   \<and> attachment_name ''secret.txt''"
proof -
  have "normalize ''../../secret.txt'' = Inr ''secret.txt''" by code_simp
  then show ?thesis using normalize_is_label [of "''../../secret.txt''" "''secret.txt''"] by simp
qed

section \<open>Transfers are exact and bounded\<close>

lemma budget_progress_Inr:
  assumes "budget_progress b now n = Inr b'"
  shows "bt_total b' = bt_total b" and "bt_remaining b = bt_remaining b' + n"
    and "0 < n" and "now < bt_total b" and "now < bt_idle b"
    and "bt_idle b' = min (bt_total b) (now + DOWNLOAD_IDLE_MILLIS)"
  using assms
  by (auto simp: budget_progress_def budget_check_def budget_deadline_def instant_checked_add_def res_simps
      split: if_splits)

text \<open>Consecutive instants of a run, starting from the instant of the last progress.\<close>

fun gaps_below :: "nat \<Rightarrow> instant \<Rightarrow> instant list \<Rightarrow> bool" where
  "gaps_below d t [] = True"
| "gaps_below d t (u # us) = (u < t + d \<and> gaps_below d u us)"

lemma budget_run_Inr:
  assumes "budget_run b steps = Inr b'" and "bt_idle b \<le> t0 + DOWNLOAD_IDLE_MILLIS"
  shows "bt_remaining b = bt_remaining b' + sum_list (map snd steps)
    \<and> bt_total b' = bt_total b \<and> (\<forall>s \<in> set steps. fst s < bt_total b \<and> 0 < snd s)
    \<and> gaps_below DOWNLOAD_IDLE_MILLIS t0 (map fst steps)"
  using assms
proof (induction steps arbitrary: b t0)
  case Nil
  then show ?case by simp
next
  case (Cons s steps)
  obtain now n where s: "s = (now, n)" by (cases s)
  obtain b1 where b1: "budget_progress b now n = Inr b1" "budget_run b1 steps = Inr b'"
    using Cons.prems(1) by (auto simp: s res_simps)
  note P = budget_progress_Inr [OF b1(1)]
  have "bt_idle b1 \<le> now + DOWNLOAD_IDLE_MILLIS" by (simp add: P(6))
  from Cons.IH [OF b1(2) this] show ?case
    using P Cons.prems(2) by (auto simp: s)
qed

text \<open>C22: a download accounts for every byte and cannot be kept open.  If a budget is created at
  \<open>t0\<close> and a sequence of progress calls succeeds, the bytes reported add up exactly to what the
  budget lost, the transfer is complete exactly when they add up to the declared length, every call
  happened before the request deadline and within 120 seconds of the start, and no two consecutive
  calls (nor the first and \<open>t0\<close>) were 15 seconds or more apart.\<close>

theorem transfer_exact_and_bounded:
  assumes "budget_new t0 deadline bytes = Inr b" and "budget_run b steps = Inr b'"
  shows "bytes = bt_remaining b' + sum_list (map snd steps)
    \<and> (budget_complete b' \<longleftrightarrow> sum_list (map snd steps) = bytes)
    \<and> (\<forall>s \<in> set steps. fst s < deadline \<and> fst s < t0 + TRANSFER_TOTAL_MILLIS \<and> 0 < snd s)
    \<and> gaps_below DOWNLOAD_IDLE_MILLIS t0 (map fst steps)"
proof -
  have b: "bt_remaining b = bytes" "bt_total b = min deadline (t0 + TRANSFER_TOTAL_MILLIS)"
    "bt_idle b \<le> t0 + DOWNLOAD_IDLE_MILLIS"
    using assms(1) by (auto simp: budget_new_def instant_checked_add_def Let_def res_simps split: if_splits)
  from budget_run_Inr [OF assms(2) b(3)] show ?thesis
    by (auto simp: b budget_complete_def)
qed

theorem transfer_exact_and_bounded_witness:
  "\<exists>b b'. budget_new 1000 500000 65537 = Inr b
     \<and> budget_run b [(15000, 65536), (29000, 1)] = Inr b' \<and> budget_complete b'
     \<and> gaps_below DOWNLOAD_IDLE_MILLIS 1000 [15000, 29000]"
proof -
  let ?b = "\<lparr>bt_total = 121000, bt_idle = 16000, bt_remaining = 65537\<rparr>"
  let ?b' = "\<lparr>bt_total = 121000, bt_idle = 44000, bt_remaining = 0\<rparr>"
  have b: "budget_new 1000 500000 65537 = Inr ?b"
    by (simp add: budget_new_def instant_checked_add_def INSTANT_MAX_def blob_consts)
  have b': "budget_run ?b [(15000, 65536), (29000, 1)] = Inr ?b'"
    by (simp add: budget_progress_def budget_check_def budget_deadline_def instant_checked_add_def
        INSTANT_MAX_def blob_consts)
  show ?thesis using transfer_exact_and_bounded [OF b b'] b b' by (auto simp: budget_complete_def)
qed

end
