(* ===== verification/Blob_Metadata.thy ===== *)
theory Blob_Metadata
  imports Blob_State Blob_Transport
begin

text \<open>
  \<^verbatim>\<open>crates/noxide-blobs/src/metadata.rs\<close> over the statements of
  \<^verbatim>\<open>crates/noxide-store/src/statements/blobs.rs\<close>: stored files in the database.

  The four tables of \<^verbatim>\<open>blobs_layout.rs\<close> are lists of typed rows (a \<open>BIGINT\<close> is an integer,
  a \<open>TEXT\<close> a string, so the integrality test \<open>counter_predicate\<close> repeats of every counter always
  holds), with their \<open>CHECK\<close> constraints and unique indexes.  Each statement is a function on the
  tables that returns how many rows it touched; an operation threads the tables through its
  statements and fails as a whole, which the caller turns into a rollback.  Randomness, the outcomes
  of the transfer guard and SHA-256 are arguments.
\<close>

section \<open>Tables\<close>

datatype pair_phase = Pending | Paired

record store_row =
  st_identity :: string
  st_pair_id :: string
  st_pair_state :: pair_phase
  st_serial :: int
  st_reserved :: int
  st_used :: int
  st_objects :: int
  st_anonymous_reserved :: int
  st_anonymous_used :: int

record subject_row =
  sb_subject :: string
  sb_anonymous :: int
  sb_reserved :: int
  sb_used :: int
  sb_objects :: int

record nx_blob =
  nb_slot :: string
  nb_blob_ref :: string
  nb_upload_handle :: string
  nb_object_key :: string
  nb_subject :: string
  nb_context :: string
  nb_input :: string
  nb_anonymous :: int
  nb_state :: string
  nb_generation :: int
  nb_reserved_bytes :: int
  nb_actual_bytes :: int
  nb_sha256 :: string
  nb_filename :: string
  nb_created_ms :: int
  nb_expires_ms :: int
  nb_owner_resource :: int
  nb_owner_id :: int
  nb_owner_incarnation :: string
  nb_owner_field :: string
  nb_claimed_ms :: int
  nb_owner_process :: string

record orphan_row =
  or_object_key :: string
  or_first_seen_ms :: int
  or_charged_bytes :: int
  or_charged_objects :: int
  or_owner_process :: string

record blob_db =
  db_store :: "store_row option"
  db_subjects :: "subject_row list"
  db_blobs :: "nx_blob list"
  db_orphans :: "orphan_row list"

type_synonym 'a tx = "blob_db \<Rightarrow> ('a \<times> blob_db) res"

definition store_check :: "store_row \<Rightarrow> bool" where
  "store_check s \<longleftrightarrow> st_serial s > 0 \<and> st_reserved s \<ge> 0 \<and> st_used s \<ge> 0 \<and> st_objects s \<ge> 0
     \<and> st_anonymous_reserved s \<ge> 0 \<and> st_anonymous_used s \<ge> 0"

definition subject_check :: "subject_row \<Rightarrow> bool" where
  "subject_check s \<longleftrightarrow> sb_anonymous s \<in> {0, 1} \<and> sb_reserved s \<ge> 0 \<and> sb_used s \<ge> 0 \<and> sb_objects s \<ge> 0"

definition blob_check :: "nx_blob \<Rightarrow> bool" where
  "blob_check r \<longleftrightarrow> nb_anonymous r \<in> {0, 1}
     \<and> nb_state r \<in> {''uploading'', ''staged'', ''attached'', ''unreferenced'', ''deleting'', ''deleted''}
     \<and> nb_generation r > 0 \<and> nb_reserved_bytes r \<ge> 0 \<and> nb_actual_bytes r \<ge> 0 \<and> nb_created_ms r \<ge> 0
     \<and> nb_expires_ms r \<ge> nb_created_ms r \<and> nb_claimed_ms r \<ge> 0"

definition orphan_check :: "orphan_row \<Rightarrow> bool" where
  "orphan_check r \<longleftrightarrow> or_first_seen_ms r \<ge> 0 \<and> or_charged_bytes r \<ge> 0 \<and> or_charged_objects r > 0"

definition blob_owner :: "nx_blob \<Rightarrow> int \<times> int \<times> string \<times> string" where
  "blob_owner r = (nb_owner_resource r, nb_owner_id r, nb_owner_incarnation r, nb_owner_field r)"

definition blobs_unique :: "nx_blob list \<Rightarrow> bool" where
  "blobs_unique rows \<longleftrightarrow> distinct (map nb_slot rows)
     \<and> distinct (map nb_blob_ref rows) \<and> distinct (map nb_upload_handle rows) \<and> distinct (map nb_object_key rows)
     \<and> distinct (map blob_owner (filter (\<lambda>r. nb_state r = ''attached'') rows))"

section \<open>Statements\<close>

text \<open>The shapes of \<open>UPDATE\<close>: the singleton store row, one subject, any blobs.\<close>

definition update_store :: "(store_row \<Rightarrow> bool) \<Rightarrow> (store_row \<Rightarrow> store_row) \<Rightarrow> nat tx" where
  "update_store P f db =
     (case db_store db of
        None \<Rightarrow> Inr (0, db)
      | Some s \<Rightarrow> if \<not> P s then Inr (0, db)
          else if store_check (f s) then Inr (1, db\<lparr>db_store := Some (f s)\<rparr>)
          else Inl ''CHECK constraint'')"

definition update_subjects :: "(subject_row \<Rightarrow> bool) \<Rightarrow> (subject_row \<Rightarrow> subject_row) \<Rightarrow> nat tx" where
  "update_subjects P f db =
     (let rows = map (\<lambda>r. if P r then f r else r) (db_subjects db) in
      if list_all subject_check rows
      then Inr (length (filter P (db_subjects db)), db\<lparr>db_subjects := rows\<rparr>)
      else Inl ''CHECK constraint'')"

definition update_blobs :: "(nx_blob \<Rightarrow> bool) \<Rightarrow> (nx_blob \<Rightarrow> nx_blob) \<Rightarrow> nat tx" where
  "update_blobs P f db =
     (let rows = map (\<lambda>r. if P r then f r else r) (db_blobs db) in
      if list_all blob_check rows \<and> blobs_unique rows
      then Inr (length (filter P (db_blobs db)), db\<lparr>db_blobs := rows\<rparr>)
      else Inl ''constraint violation'')"

definition I64_LIMIT :: int where "I64_LIMIT = 9223372036854775807"

definition live_stage :: "nx_blob \<Rightarrow> bool" where
  "live_stage r \<longleftrightarrow> nb_state r \<in> {''uploading'', ''staged''}"

definition reserve_store ::
  "string \<Rightarrow> int \<Rightarrow> int \<Rightarrow> int \<Rightarrow> int \<Rightarrow> int \<Rightarrow> int \<Rightarrow> string \<Rightarrow> int \<Rightarrow> int \<Rightarrow> nat tx" where
  "reserve_store identity bytes anon_bytes app_bytes objects anonymous deployment_bytes subject stages deployment_stages db =
     update_store
       (\<lambda>s. st_identity s = identity \<and> st_pair_state s = Paired \<and> db_orphans db = []
          \<and> st_serial s < I64_LIMIT \<and> st_reserved s \<le> app_bytes - st_used s - bytes \<and> st_objects s < objects
          \<and> (anonymous = 0 \<or> st_anonymous_reserved s \<le> deployment_bytes - st_anonymous_used s - bytes)
          \<and> int (length (take 5 (filter (\<lambda>r. nb_subject r = subject \<and> live_stage r) (db_blobs db)))) < stages
          \<and> (anonymous = 0
             \<or> int (length (take 17 (filter (\<lambda>r. nb_anonymous r = 1 \<and> live_stage r) (db_blobs db)))) < deployment_stages))
       (\<lambda>s. s\<lparr>st_reserved := st_reserved s + bytes, st_objects := st_objects s + 1,
              st_anonymous_reserved := st_anonymous_reserved s + anon_bytes, st_serial := st_serial s + 1\<rparr>) db"

definition reserve_subject :: "string \<Rightarrow> int \<Rightarrow> int \<Rightarrow> int \<Rightarrow> nat tx" where
  "reserve_subject subject anonymous bytes cap_bytes db =
     (if list_ex (\<lambda>r. sb_subject r = subject) (db_subjects db)
      then update_subjects
        (\<lambda>r. sb_subject r = subject \<and> sb_anonymous r = anonymous \<and> sb_objects r < 65536
           \<and> (anonymous = 0 \<or> sb_reserved r \<le> cap_bytes - sb_used r - bytes))
        (\<lambda>r. r\<lparr>sb_reserved := sb_reserved r + bytes, sb_objects := sb_objects r + 1\<rparr>) db
      else let r = \<lparr>sb_subject = subject, sb_anonymous = anonymous, sb_reserved = bytes, sb_used = 0, sb_objects = 1\<rparr>
           in if subject_check r then Inr (1, db\<lparr>db_subjects := db_subjects db @ [r]\<rparr>) else Inl ''CHECK constraint'')"

definition stage_store :: "string \<Rightarrow> int \<Rightarrow> int \<Rightarrow> int \<Rightarrow> nat tx" where
  "stage_store identity reserved used anonymous =
     update_store
       (\<lambda>s. st_identity s = identity \<and> st_pair_state s = Paired \<and> st_reserved s \<ge> reserved
          \<and> st_anonymous_reserved s \<ge> reserved * anonymous \<and> st_objects s > 0 \<and> st_serial s < I64_LIMIT
          \<and> st_used s \<le> I64_LIMIT - used \<and> st_anonymous_used s \<le> I64_LIMIT - used * anonymous)
       (\<lambda>s. s\<lparr>st_reserved := st_reserved s - reserved, st_used := st_used s + used,
              st_anonymous_reserved := st_anonymous_reserved s - reserved * anonymous,
              st_anonymous_used := st_anonymous_used s + used * anonymous, st_serial := st_serial s + 1\<rparr>)"

definition stage_subject :: "string \<Rightarrow> int \<Rightarrow> int \<Rightarrow> int \<Rightarrow> nat tx" where
  "stage_subject subject reserved used anonymous =
     update_subjects
       (\<lambda>r. sb_subject r = subject \<and> sb_anonymous r = anonymous \<and> sb_reserved r \<ge> reserved \<and> sb_objects r > 0
          \<and> sb_used r \<le> I64_LIMIT - used)
       (\<lambda>r. r\<lparr>sb_reserved := sb_reserved r - reserved, sb_used := sb_used r + used\<rparr>)"

definition release_store :: "string \<Rightarrow> int \<Rightarrow> int \<Rightarrow> int \<Rightarrow> nat tx" where
  "release_store identity reserved used anonymous =
     update_store
       (\<lambda>s. st_identity s = identity \<and> st_pair_state s = Paired \<and> st_reserved s \<ge> reserved \<and> st_used s \<ge> used
          \<and> st_objects s > 0 \<and> st_anonymous_reserved s \<ge> reserved * anonymous
          \<and> st_anonymous_used s \<ge> used * anonymous \<and> st_serial s < I64_LIMIT)
       (\<lambda>s. s\<lparr>st_reserved := st_reserved s - reserved, st_used := st_used s - used, st_objects := st_objects s - 1,
              st_anonymous_reserved := st_anonymous_reserved s - reserved * anonymous,
              st_anonymous_used := st_anonymous_used s - used * anonymous, st_serial := st_serial s + 1\<rparr>)"

definition release_subject :: "string \<Rightarrow> int \<Rightarrow> int \<Rightarrow> int \<Rightarrow> nat tx" where
  "release_subject subject reserved used anonymous =
     update_subjects
       (\<lambda>r. sb_subject r = subject \<and> sb_anonymous r = anonymous \<and> sb_reserved r \<ge> reserved
          \<and> sb_used r \<ge> used \<and> sb_objects r > 0)
       (\<lambda>r. r\<lparr>sb_reserved := sb_reserved r - reserved, sb_used := sb_used r - used, sb_objects := sb_objects r - 1\<rparr>)"

definition delete_empty_subject :: "string \<Rightarrow> nat tx" where
  "delete_empty_subject subject db =
     (let P = (\<lambda>r. sb_subject r = subject \<and> sb_reserved r = 0 \<and> sb_used r = 0 \<and> sb_objects r = 0)
      in Inr (length (filter P (db_subjects db)), db\<lparr>db_subjects := filter (\<lambda>r. \<not> P r) (db_subjects db)\<rparr>))"

definition insert_blob :: "nx_blob \<Rightarrow> nat tx" where
  "insert_blob r db =
     (if list_ex (\<lambda>x. or_object_key x = nb_object_key r) (db_orphans db)
         \<or> list_ex (\<lambda>x. nb_slot x = nb_slot r) (db_blobs db)
      then Inr (0, db)
      else let rows = db_blobs db @ [r] in
        if blob_check r \<and> blobs_unique rows then Inr (1, db\<lparr>db_blobs := rows\<rparr>) else Inl ''constraint violation'')"

definition stage_blob ::
  "string \<Rightarrow> int \<Rightarrow> int \<Rightarrow> string \<Rightarrow> string \<Rightarrow> int \<Rightarrow> string \<Rightarrow> int \<Rightarrow> string \<Rightarrow> string \<Rightarrow> string \<Rightarrow> nat tx" where
  "stage_blob slot generation bytes sha handle expected process now subject context input =
     update_blobs
       (\<lambda>r. nb_slot r = slot \<and> nb_state r = ''uploading'' \<and> nb_generation r = expected \<and> nb_owner_process r = process
          \<and> nb_expires_ms r > now \<and> nb_subject r = subject \<and> nb_context r = context \<and> nb_input r = input)
       (\<lambda>r. r\<lparr>nb_state := ''staged'', nb_generation := generation, nb_reserved_bytes := 0, nb_actual_bytes := bytes,
              nb_sha256 := sha, nb_upload_handle := handle\<rparr>)"

definition attach_blob ::
  "string \<Rightarrow> int \<Rightarrow> int \<Rightarrow> int \<Rightarrow> string \<Rightarrow> string \<Rightarrow> int \<Rightarrow> string \<Rightarrow> nat tx" where
  "attach_blob slot generation resource record_id incarnation field expected handle =
     update_blobs
       (\<lambda>r. nb_slot r = slot \<and> nb_state r = ''staged'' \<and> nb_generation r = expected \<and> nb_upload_handle r = handle)
       (\<lambda>r. r\<lparr>nb_state := ''attached'', nb_generation := generation, nb_owner_resource := resource,
              nb_owner_id := record_id, nb_owner_incarnation := incarnation, nb_owner_field := field\<rparr>)"

definition unreference_blobs :: "int \<Rightarrow> int \<Rightarrow> string \<Rightarrow> (string \<times> int) list \<Rightarrow> nat tx" where
  "unreference_blobs resource record_id incarnation selected =
     update_blobs
       (\<lambda>r. nb_state r = ''attached'' \<and> nb_owner_resource r = resource \<and> nb_owner_id r = record_id
          \<and> nb_owner_incarnation r = incarnation
          \<and> list_ex (\<lambda>(slot, generation). nb_slot r = slot \<and> nb_generation r = generation) selected)
       (\<lambda>r. r\<lparr>nb_state := ''unreferenced'', nb_generation := nb_generation r + 1\<rparr>)"

definition claim_for_deletion :: "string \<Rightarrow> int \<Rightarrow> int \<Rightarrow> string \<Rightarrow> string \<Rightarrow> int \<Rightarrow> string \<Rightarrow> nat tx" where
  "claim_for_deletion slot generation now process st expected owner =
     update_blobs
       (\<lambda>r. nb_slot r = slot \<and> nb_state r = st \<and> nb_generation r = expected \<and> nb_owner_process r = owner)
       (\<lambda>r. r\<lparr>nb_state := ''deleting'', nb_generation := generation, nb_claimed_ms := now, nb_owner_process := process\<rparr>)"

definition mark_deleted :: "string \<Rightarrow> int \<Rightarrow> int \<Rightarrow> int \<Rightarrow> string \<Rightarrow> nat tx" where
  "mark_deleted slot generation now expected process =
     update_blobs
       (\<lambda>r. nb_slot r = slot \<and> nb_state r = ''deleting'' \<and> nb_generation r = expected \<and> nb_owner_process r = process)
       (\<lambda>r. r\<lparr>nb_state := ''deleted'', nb_generation := generation, nb_reserved_bytes := 0, nb_actual_bytes := 0,
              nb_claimed_ms := now\<rparr>)"

definition insert_orphan :: "string \<Rightarrow> int \<Rightarrow> int \<Rightarrow> int \<Rightarrow> string \<Rightarrow> nat tx" where
  "insert_orphan key now bytes paths process db =
     (if list_ex (\<lambda>r. nb_object_key r = key) (db_blobs db) \<or> list_ex (\<lambda>x. or_object_key x = key) (db_orphans db)
      then Inr (0, db)
      else let r = \<lparr>or_object_key = key, or_first_seen_ms = now, or_charged_bytes = bytes, or_charged_objects = paths,
                    or_owner_process = process\<rparr>
           in if orphan_check r then Inr (1, db\<lparr>db_orphans := db_orphans db @ [r]\<rparr>) else Inl ''CHECK constraint'')"

definition charge_orphan :: "string \<Rightarrow> int \<Rightarrow> int \<Rightarrow> nat tx" where
  "charge_orphan identity bytes paths =
     update_store
       (\<lambda>s. st_identity s = identity \<and> st_pair_state s = Paired \<and> st_used s \<le> I64_LIMIT - bytes
          \<and> st_objects s \<le> I64_LIMIT - paths \<and> st_serial s < I64_LIMIT)
       (\<lambda>s. s\<lparr>st_used := st_used s + bytes, st_objects := st_objects s + paths, st_serial := st_serial s + 1\<rparr>)"

definition insert_pending_pair :: "string \<Rightarrow> string \<Rightarrow> nat tx" where
  "insert_pending_pair identity pair db =
     (if db_blobs db \<noteq> [] \<or> db_subjects db \<noteq> [] \<or> db_orphans db \<noteq> [] \<or> db_store db \<noteq> None then Inr (0, db)
      else Inr (1, db\<lparr>db_store := Some
        \<lparr>st_identity = identity, st_pair_id = pair, st_pair_state = Pending, st_serial = 1, st_reserved = 0,
         st_used = 0, st_objects = 0, st_anonymous_reserved = 0, st_anonymous_used = 0\<rparr>\<rparr>))"

definition complete_pair :: "string \<Rightarrow> string \<Rightarrow> nat tx" where
  "complete_pair identity pair db =
     update_store
       (\<lambda>s. st_identity s = identity \<and> st_pair_id s = pair \<and> st_pair_state s = Pending \<and> st_serial s < I64_LIMIT
          \<and> st_reserved s = 0 \<and> st_used s = 0 \<and> st_objects s = 0 \<and> st_anonymous_reserved s = 0
          \<and> st_anonymous_used s = 0 \<and> db_blobs db = [] \<and> db_subjects db = [] \<and> db_orphans db = [])
       (\<lambda>s. s\<lparr>st_pair_state := Paired, st_serial := st_serial s + 1\<rparr>) db"

definition paired_identity :: "string \<Rightarrow> blob_db \<Rightarrow> nat" where
  "paired_identity identity db =
     (case db_store db of
        Some s \<Rightarrow> if st_identity s = identity \<and> st_pair_state s = Paired then 1 else 0
      | None \<Rightarrow> 0)"

definition lock_paired_store :: "string \<Rightarrow> nat tx" where
  "lock_paired_store identity = update_store (\<lambda>s. st_identity s = identity \<and> st_pair_state s = Paired) (\<lambda>s. s)"

section \<open>Rows as text\<close>

text \<open>The 22 selected columns, each bounded before it leaves the database; an oversized one is
  \<open>NULL\<close>, which the typed read refuses.\<close>

record row_text =
  rt_slot :: string
  rt_blob :: string
  rt_handle :: string
  rt_key :: string
  rt_subject :: string
  rt_context :: string
  rt_input :: string
  rt_anonymous :: string
  rt_state :: string
  rt_generation :: string
  rt_reserved :: string
  rt_bytes :: string
  rt_digest :: string
  rt_filename :: string
  rt_created :: string
  rt_expires :: string
  rt_resource :: string
  rt_id :: string
  rt_incarnation :: string
  rt_field :: string
  rt_claimed :: string
  rt_process :: string

definition within :: "string \<Rightarrow> nat \<Rightarrow> bool" where
  "within s maximum \<longleftrightarrow> length s \<le> maximum"

definition row_columns :: "nx_blob \<Rightarrow> row_text res" where
  "row_columns r =
     (let n = show_int in
      if within (nb_slot r) 64 \<and> within (nb_blob_ref r) 67 \<and> within (nb_upload_handle r) 67
         \<and> within (nb_object_key r) 64 \<and> within (nb_subject r) 64 \<and> within (nb_context r) 64
         \<and> within (nb_input r) 64 \<and> within (n (nb_anonymous r)) 20 \<and> within (nb_state r) 16
         \<and> within (n (nb_generation r)) 20 \<and> within (n (nb_reserved_bytes r)) 20
         \<and> within (n (nb_actual_bytes r)) 20 \<and> within (nb_sha256 r) 64 \<and> within (nb_filename r) 80
         \<and> within (n (nb_created_ms r)) 20 \<and> within (n (nb_expires_ms r)) 20
         \<and> within (n (nb_owner_resource r)) 20 \<and> within (n (nb_owner_id r)) 20
         \<and> within (nb_owner_incarnation r) 64 \<and> within (nb_owner_field r) 32
         \<and> within (n (nb_claimed_ms r)) 20 \<and> within (nb_owner_process r) 64
      then Inr
        \<lparr>rt_slot = nb_slot r, rt_blob = nb_blob_ref r, rt_handle = nb_upload_handle r, rt_key = nb_object_key r,
         rt_subject = nb_subject r, rt_context = nb_context r, rt_input = nb_input r,
         rt_anonymous = n (nb_anonymous r), rt_state = nb_state r, rt_generation = n (nb_generation r),
         rt_reserved = n (nb_reserved_bytes r), rt_bytes = n (nb_actual_bytes r), rt_digest = nb_sha256 r,
         rt_filename = nb_filename r, rt_created = n (nb_created_ms r), rt_expires = n (nb_expires_ms r),
         rt_resource = n (nb_owner_resource r), rt_id = n (nb_owner_id r), rt_incarnation = nb_owner_incarnation r,
         rt_field = nb_owner_field r, rt_claimed = n (nb_claimed_ms r), rt_process = nb_owner_process r\<rparr>
      else Inl ''unexpected NULL column'')"

definition integer :: "string \<Rightarrow> int res" where
  "integer v =
     and_then (ok_or (parse_i64 v) ''invalid blob integer'') (\<lambda>n.
     if n \<ge> 0 \<and> show_int n = v then Inr n else Inl ''noncanonical blob integer'')"

definition unsigned :: "string \<Rightarrow> nat res" where
  "unsigned v = and_then (integer v) (\<lambda>n. if n \<ge> 0 then Inr (nat n) else Inl ''out of range integral type conversion'')"

definition number :: "nat \<Rightarrow> int res" where
  "number v = ok_or (i64_try_from_u64 v) ''blob integer overflow''"

fun state_text :: "blob_state \<Rightarrow> string" where
  "state_text Uploading = ''uploading''"
| "state_text Staged = ''staged''"
| "state_text Attached = ''attached''"
| "state_text Unreferenced = ''unreferenced''"
| "state_text Deleting = ''deleting''"
| "state_text Deleted = ''deleted''"

definition state_parse :: "string \<Rightarrow> blob_state res" where
  "state_parse v =
     (if v = ''uploading'' then Inr Uploading
      else if v = ''staged'' then Inr Staged
      else if v = ''attached'' then Inr Attached
      else if v = ''unreferenced'' then Inr Unreferenced
      else if v = ''deleting'' then Inr Deleting
      else if v = ''deleted'' then Inr Deleted
      else Inl ''invalid blob state'')"

record blob_row =
  br_metadata :: metadata
  br_anonymous :: bool
  br_filename :: string
  br_created :: timestamp
  br_claimed :: timestamp
  br_process :: string

abbreviation time_text :: "time_error + 'a \<Rightarrow> 'a res" where
  "time_text r \<equiv> map_sum (\<lambda>_. ''time'') (\<lambda>x. x) r"

definition parse_association :: "row_text \<Rightarrow> association option res" where
  "parse_association row =
     and_then (integer (rt_resource row)) (\<lambda>resource.
     and_then (integer (rt_id row)) (\<lambda>record_id.
     if resource = 0 \<and> record_id = 0 \<and> rt_incarnation row = [] \<and> rt_field row = [] then Inr None
     else if resource > 0 \<and> record_id > 0 \<and> rt_incarnation row \<noteq> [] \<and> length (rt_incarnation row) \<le> 64
             \<and> is_identifier (rt_field row)
     then let a = \<lparr>as_resource = resource, as_id = record_id, as_incarnation = rt_incarnation row, as_field = rt_field row\<rparr>
          in and_then (association_validate a) (\<lambda>_. Inr (Some a))
     else Inl ''invalid blob owner''))"

definition parse_metadata :: "row_text \<Rightarrow> blob_state \<Rightarrow> timestamp \<Rightarrow> association option \<Rightarrow> metadata res" where
  "parse_metadata row st expires a =
     and_then (unsigned (rt_reserved row)) (\<lambda>reserved.
     and_then (unsigned (rt_bytes row)) (\<lambda>bytes.
     if \<not> (reserved \<le> MAX_UPLOAD_BYTES \<and> bytes \<le> MAX_UPLOAD_BYTES) then Inl ''invalid stored blob size''
     else and_then (if rt_digest row = [] then Inr None else and_then (hash (rt_digest row)) (\<lambda>d. Inr (Some d))) (\<lambda>digest.
     and_then (blob_ref_parse (rt_blob row)) (\<lambda>blob.
     and_then (upload_handle_parse (rt_handle row)) (\<lambda>handle.
     and_then (object_key_parse (rt_key row)) (\<lambda>key.
     and_then (commitment_parse (rt_slot row)) (\<lambda>slot.
     and_then (commitment_parse (rt_subject row)) (\<lambda>subject.
     and_then (commitment_parse (rt_context row)) (\<lambda>context.
     and_then (commitment_parse (rt_input row)) (\<lambda>input.
     and_then (integer (rt_generation row)) (\<lambda>g.
     and_then (generation_parse g) (\<lambda>generation.
     Inr \<lparr>md_blob = blob, md_handle = handle, md_key = key,
          md_binding = \<lparr>ub_slot = slot, ub_subject = subject, ub_context = context, ub_input = input\<rparr>,
          md_state = st, md_generation = generation, md_expires = expires, md_reserved = reserved,
          md_bytes = bytes, md_digest = digest, md_association = a\<rparr>))))))))))))"

definition parse_anonymous :: "string \<Rightarrow> bool res" where
  "parse_anonymous v =
     (if v = ''0'' then Inr False else if v = ''1'' then Inr True else Inl ''invalid anonymous metadata'')"

definition row_parse :: "(bytes \<Rightarrow> bytes) \<Rightarrow> row_text \<Rightarrow> blob_row res" where
  "row_parse sha256 row =
     and_then (state_parse (rt_state row)) (\<lambda>st.
     and_then (integer (rt_created row)) (\<lambda>c.
     and_then (time_text (from_unix_millis c)) (\<lambda>created.
     and_then (integer (rt_expires row)) (\<lambda>x.
     and_then (time_text (from_unix_millis x)) (\<lambda>expires.
     and_then (time_text (duration_from_millis STAGE_LIFETIME_MILLIS)) (\<lambda>lifetime.
     and_then (time_text (timestamp_checked_add created lifetime)) (\<lambda>due.
     if due \<noteq> expires then Inl ''invalid upload lifetime''
     else and_then (parse_association row) (\<lambda>a.
     and_then (parse_metadata row st expires a) (\<lambda>m.
     and_then (shape_check m) (\<lambda>_.
     and_then
       (case md_digest m of
          Some d \<Rightarrow> if md_state m \<noteq> Deleted
            then and_then (expected_handle sha256 m (md_bytes m) d) (\<lambda>h.
              if h = md_handle m then Inr () else Inl ''finalized handle does not match immutable object'')
            else Inr ()
        | None \<Rightarrow> Inr ()) (\<lambda>_.
     and_then (normalize (rt_filename row)) (\<lambda>name.
     if name \<noteq> rt_filename row then Inl ''invalid stored filename''
     else and_then (parse_anonymous (rt_anonymous row)) (\<lambda>anonymous.
     and_then (integer (rt_claimed row)) (\<lambda>k.
     and_then (time_text (from_unix_millis k)) (\<lambda>claimed.
     and_then (object_key_parse (rt_process row)) (\<lambda>process.
     Inr \<lparr>br_metadata = m, br_anonymous = anonymous, br_filename = name, br_created = created,
          br_claimed = claimed, br_process = process\<rparr>))))))))))))))))"

section \<open>Operations\<close>

datatype blob_identity = BySlot | ByReference | ByObjectKey

fun key_column :: "blob_identity \<Rightarrow> nx_blob \<Rightarrow> string" where
  "key_column BySlot = nb_slot"
| "key_column ByReference = nb_blob_ref"
| "key_column ByObjectKey = nb_object_key"

definition load :: "(bytes \<Rightarrow> bytes) \<Rightarrow> blob_identity \<Rightarrow> string \<Rightarrow> blob_db \<Rightarrow> blob_row option res" where
  "load sha256 identity v db =
     (case filter (\<lambda>r. key_column identity r = v) (db_blobs db) of
        [] \<Rightarrow> Inr None
      | [r] \<Rightarrow> and_then (row_columns r) (\<lambda>t. and_then (row_parse sha256 t) (\<lambda>row. Inr (Some row)))
      | _ \<Rightarrow> Inl ''duplicate blob identity'')"

record reservation =
  rv_binding :: upload_binding
  rv_filename :: string
  rv_limit :: nat
  rv_now :: timestamp
  rv_policy :: blob_policy
  rv_capability :: "anonymous_quota option"
  rv_store :: string
  rv_process :: string

datatype reservation_outcome = Created blob_row | Existing blob_row

text \<open>The random identities a reservation draws: object key, blob reference and pending handle.\<close>

record random_ids =
  rnd_key :: string
  rnd_blob :: string
  rnd_handle :: string

definition U64_LIMIT :: nat where "U64_LIMIT = 18446744073709551615"

definition reserve_quotas :: "reservation \<Rightarrow> (nat \<times> nat \<times> nat \<times> nat) res" where
  "reserve_quotas q =
     (case rv_capability q of
        Some cap \<Rightarrow>
          and_then (capability_quota_validate cap) (\<lambda>_.
          and_then (ok_or (bp_anonymous (rv_policy q)) ''anonymous upload not declared'') (\<lambda>deployment.
          if rv_limit q \<le> aq_bytes cap \<and> rv_limit q \<le> aq_bytes deployment
          then Inr (aq_stages deployment, aq_bytes deployment, aq_stages cap, aq_bytes cap)
          else Inl ''anonymous file exceeds quota''))
      | None \<Rightarrow> Inr (1, 1, bl_live_stages (bp_limits (rv_policy q)), U64_LIMIT))"

definition reserved_row :: "reservation \<Rightarrow> string \<Rightarrow> string \<Rightarrow> string \<Rightarrow> timestamp \<Rightarrow> blob_row" where
  "reserved_row q key blob handle expires =
     \<lparr>br_metadata =
        \<lparr>md_blob = blob, md_handle = handle, md_key = key, md_binding = rv_binding q, md_state = Uploading,
         md_generation = 1, md_expires = expires, md_reserved = rv_limit q, md_bytes = 0, md_digest = None,
         md_association = None\<rparr>,
      br_anonymous = (rv_capability q \<noteq> None), br_filename = rv_filename q, br_created = rv_now q,
      br_claimed = 0, br_process = rv_process q\<rparr>"

definition inserted_row :: "blob_row \<Rightarrow> int \<Rightarrow> nx_blob" where
  "inserted_row row reserved =
     (let m = br_metadata row in
      \<lparr>nb_slot = ub_slot (md_binding m), nb_blob_ref = md_blob m, nb_upload_handle = md_handle m,
       nb_object_key = md_key m, nb_subject = ub_subject (md_binding m), nb_context = ub_context (md_binding m),
       nb_input = ub_input (md_binding m), nb_anonymous = of_bool (br_anonymous row), nb_state = ''uploading'',
       nb_generation = 1, nb_reserved_bytes = reserved, nb_actual_bytes = 0, nb_sha256 = [],
       nb_filename = br_filename row, nb_created_ms = br_created row, nb_expires_ms = md_expires m,
       nb_owner_resource = 0, nb_owner_id = 0, nb_owner_incarnation = [], nb_owner_field = [], nb_claimed_ms = 0,
       nb_owner_process = br_process row\<rparr>)"

definition reserve :: "(bytes \<Rightarrow> bytes) \<Rightarrow> reservation \<Rightarrow> random_ids \<Rightarrow> reservation_outcome tx" where
  "reserve sha256 q rnd db =
     and_then (validate_limits (rv_policy q)) (\<lambda>_.
     if \<not> (1 \<le> rv_limit q \<and> rv_limit q \<le> bl_file_bytes (bp_limits (rv_policy q)))
     then Inl ''upload reservation ceiling''
     else and_then (load sha256 BySlot (ub_slot (rv_binding q)) db) (\<lambda>existing.
     case existing of
       Some row \<Rightarrow> if md_binding (br_metadata row) = rv_binding q then Inr (Existing row, db)
         else Inl ''foreign upload slot''
     | None \<Rightarrow>
        let anonymous = (rv_capability q \<noteq> None);
            anon_bytes = (if anonymous then rv_limit q else 0) in
        and_then (reserve_quotas q) (\<lambda>(deployment_stages, deployment_bytes, cap_stages, cap_bytes).
        let stages = min cap_stages (bl_live_stages (bp_limits (rv_policy q))) in
        and_then (number (rv_limit q)) (\<lambda>limit.
        and_then (number anon_bytes) (\<lambda>anon.
        and_then (number (bl_app_bytes (bp_limits (rv_policy q)))) (\<lambda>app.
        and_then (number deployment_bytes) (\<lambda>dep.
        and_then (reserve_store (rv_store q) limit anon app (int (bl_objects (bp_limits (rv_policy q))))
          (of_bool anonymous) dep (ub_subject (rv_binding q)) (int stages) (int deployment_stages) db) (\<lambda>(changed, db).
        if changed \<noteq> 1 then Inl ''blob app quota unavailable''
        else and_then (number (min cap_bytes (nat I64_LIMIT))) (\<lambda>cap.
        and_then (reserve_subject (ub_subject (rv_binding q)) (of_bool anonymous) limit cap db) (\<lambda>(changed, db).
        if changed \<noteq> 1 then Inl ''blob subject quota unavailable''
        else and_then (object_key_parse (rnd_key rnd)) (\<lambda>key.
        and_then (object_key_parse (rnd_blob rnd)) (\<lambda>b.
        and_then (blob_ref_parse (''b1_'' @ b)) (\<lambda>blob.
        and_then (object_key_parse (rnd_handle rnd)) (\<lambda>h.
        and_then (upload_handle_parse (''u1_'' @ h)) (\<lambda>handle.
        and_then (time_text (duration_from_millis STAGE_LIFETIME_MILLIS)) (\<lambda>lifetime.
        and_then (time_text (timestamp_checked_add (rv_now q) lifetime)) (\<lambda>expires.
        let row = reserved_row q key blob handle expires in
        and_then (number (md_reserved (br_metadata row))) (\<lambda>reserved.
        and_then (insert_blob (inserted_row row reserved) db) (\<lambda>(inserted, db).
        if inserted = 1 then Inr (Created row, db)
        else Inl ''upload slot raced or object identity unavailable'')))))))))))))))))))"

text \<open>\<open>guard n\<close> is the outcome of the \<open>n\<close>-th check of the transfer guard.\<close>

definition publish :: "(bytes \<Rightarrow> bytes) \<Rightarrow> blob_row \<Rightarrow> durable_object \<Rightarrow> timestamp \<Rightarrow> string \<Rightarrow> (nat \<Rightarrow> bool) \<Rightarrow> blob_row tx" where
  "publish sha256 row object now store guard db =
     (let m = br_metadata row; anonymous = of_bool (br_anonymous row) in
      if \<not> guard 0 then Inl ''blob transfer cancelled or expired''
      else and_then (stage sha256 m (md_generation m) object now (md_binding m)) (\<lambda>t.
      let next = tr_next t in
      and_then (ok_or (i64_try_from_u64 (md_reserved m)) ''out of range integral type conversion'') (\<lambda>r.
      and_then (ok_or (i64_try_from_u64 (md_bytes next)) ''out of range integral type conversion'') (\<lambda>u.
      if tr_quota t \<noteq> \<lparr>qd_reserved = - r, qd_used = u, qd_objects = 0\<rparr> then Inl ''upload quota transition mismatch''
      else and_then (stage_store store r u anonymous db) (\<lambda>(changed, db).
      if changed \<noteq> 1 then Inl ''blob app reservation mismatch''
      else if \<not> guard 1 then Inl ''blob transfer cancelled or expired''
      else and_then (stage_subject (ub_subject (md_binding m)) r u anonymous db) (\<lambda>(changed, db).
      if changed \<noteq> 1 then Inl ''blob subject reservation mismatch''
      else if \<not> guard 2 then Inl ''blob transfer cancelled or expired''
      else and_then (ok_or (md_digest next) ''missing finalized digest'') (\<lambda>digest.
      and_then (stage_blob (ub_slot (md_binding next)) (md_generation next) u (hex digest) (md_handle next) (tr_expected t)
        (br_process row) now (ub_subject (md_binding next)) (ub_context (md_binding next)) (ub_input (md_binding next)) db)
        (\<lambda>(changed, db).
      if changed \<noteq> 1 then Inl ''upload publication fence rejected''
      else if \<not> guard 3 then Inl ''blob transfer cancelled or expired''
      else Inr (row\<lparr>br_metadata := next\<rparr>, db)))))))))"

definition lock_stage :: "(bytes \<Rightarrow> bytes) \<Rightarrow> string \<Rightarrow> upload_binding \<Rightarrow> timestamp \<Rightarrow> blob_db \<Rightarrow> blob_row res" where
  "lock_stage sha256 handle binding now db =
     (case filter (\<lambda>r. nb_upload_handle r = handle \<and> nb_state r = ''staged'' \<and> nb_slot r = ub_slot binding
              \<and> nb_subject r = ub_subject binding \<and> nb_context r = ub_context binding \<and> nb_input r = ub_input binding
              \<and> nb_expires_ms r > now) (db_blobs db) of
        [r] \<Rightarrow> and_then (row_columns r) (row_parse sha256)
      | _ \<Rightarrow> Inl ''upload handle is foreign, expired or already attached'')"

definition associate :: "blob_row \<Rightarrow> association \<Rightarrow> timestamp \<Rightarrow> string tx" where
  "associate row a now db =
     (let m = br_metadata row in
      and_then (attach m (md_generation m) now (md_binding m) (md_handle m) a) (\<lambda>t.
      and_then (attach_blob (ub_slot (md_binding m)) (md_generation (tr_next t)) (as_resource a) (as_id a)
        (as_incarnation a) (as_field a) (tr_expected t) (md_handle m) db) (\<lambda>(changed, db).
      if changed = 1 then Inr (md_blob m, db) else Inl ''upload association fence rejected'')))"

text \<open>The loop of \<open>detach_resource\<close> over the selected rows, with the fields seen so far.\<close>

fun detach_select :: "(string \<times> string) list \<Rightarrow> string list \<Rightarrow> nx_blob list \<Rightarrow> (string \<times> int) list res" where
  "detach_select expected seen [] = Inr []"
| "detach_select expected seen (r # rows) =
     and_then (commitment_parse (nb_slot r)) (\<lambda>slot.
     and_then (blob_ref_parse (nb_blob_ref r)) (\<lambda>reference.
     and_then (integer (show_int (nb_generation r))) (\<lambda>g.
     and_then (generation_parse g) (\<lambda>generation.
     if generation < I64_LIMIT \<and> nb_owner_field r \<notin> set seen \<and> map_of expected (nb_owner_field r) = Some reference
     then and_then (detach_select expected (nb_owner_field r # seen) rows) (\<lambda>rest. Inr ((slot, generation) # rest))
     else Inl ''foreign or exhausted blob association during deletion''))))"

definition detach_resource :: "int \<Rightarrow> int \<Rightarrow> string \<Rightarrow> (string \<times> string) list \<Rightarrow> unit tx" where
  "detach_resource resource record_id incarnation expected db =
     (if \<not> (resource > 0 \<and> record_id > 0 \<and> incarnation \<noteq> [] \<and> length incarnation \<le> 64 \<and> length expected \<le> 8)
      then Inl ''invalid blob detachment scope''
      else
        let rows = take (length expected + 1) (sort_key (\<lambda>r. map (of_char :: char \<Rightarrow> nat) (nb_slot r))
              (filter (\<lambda>r. nb_state r = ''attached'' \<and> nb_owner_resource r = resource \<and> nb_owner_id r = record_id
                 \<and> nb_owner_incarnation r = incarnation) (db_blobs db)))
        in if list_ex (\<lambda>r. \<not> within (nb_slot r) 64 \<or> \<not> within (nb_owner_field r) 32 \<or> \<not> within (nb_blob_ref r) 67
                 \<or> \<not> within (show_int (nb_generation r)) 20) rows
           then Inl ''unexpected NULL column''
           else if length rows \<noteq> length expected then Inl ''blob detachment association mismatch''
           else and_then (detach_select expected [] rows) (\<lambda>selected.
             if selected = [] then Inr ((), db)
             else and_then (unreference_blobs resource record_id incarnation selected db) (\<lambda>(changed, db).
             if changed = length expected then Inr ((), db) else Inl ''blob detachment fence rejected'')))"

definition persist_claim :: "blob_row \<Rightarrow> transition \<Rightarrow> string \<Rightarrow> timestamp \<Rightarrow> blob_row tx" where
  "persist_claim row t process now db =
     (let m = br_metadata row in
      if \<not> (md_generation m = tr_expected t \<and> md_key m = md_key (tr_next t)) then Inl ''foreign metadata transition''
      else if md_state (tr_next t) \<noteq> Deleting then Inl ''invalid GC claim state''
      else and_then (claim_for_deletion (ub_slot (md_binding m)) (md_generation (tr_next t)) now process
        (state_text (md_state m)) (tr_expected t) (br_process row) db) (\<lambda>(changed, db).
      if changed = 1
      then Inr (row\<lparr>br_metadata := tr_next t, br_claimed := now, br_process := process\<rparr>, db)
      else Inl ''blob GC claim fence rejected''))"

definition claim_collectable :: "blob_row \<Rightarrow> string \<Rightarrow> timestamp \<Rightarrow> (blob_row \<times> gc_claim) tx" where
  "claim_collectable row process now db =
     and_then (claim (br_metadata row) (md_generation (br_metadata row)) now) (\<lambda>(t, c).
     and_then (persist_claim row t process now db) (\<lambda>(next, db). Inr ((next, c), db)))"

definition claim_stopped :: "blob_row \<Rightarrow> string \<Rightarrow> timestamp \<Rightarrow> completion \<Rightarrow> (blob_row \<times> gc_claim) tx" where
  "claim_stopped row process now stopped db =
     (if br_process row \<noteq> process then Inl ''foreign blob upload process''
      else and_then (claim_stopped_upload (br_metadata row) (md_generation (br_metadata row)) now stopped) (\<lambda>(t, c).
      and_then (persist_claim row t process now db) (\<lambda>(next, db). Inr ((next, c), db))))"

text \<open>A process fence names the store whose exclusive lease the process holds, and the process.\<close>

record process_fence =
  pf_store :: string
  pf_process :: string

definition recover_upload :: "blob_row \<Rightarrow> process_fence \<Rightarrow> timestamp \<Rightarrow> (blob_row \<times> gc_claim) tx" where
  "recover_upload row fence now db =
     (if paired_identity (pf_store fence) db \<noteq> 1 then Inl ''blob process fence belongs to another store''
      else if br_process row = pf_process fence then Inl ''live process upload cannot be abandoned''
      else and_then (recover_prior_upload (br_metadata row)) (\<lambda>(t, c).
      and_then (persist_claim row t (pf_process fence) now db) (\<lambda>(next, db). Inr ((next, c), db))))"

definition resume_delete :: "blob_row \<Rightarrow> process_fence \<Rightarrow> timestamp \<Rightarrow> completion option \<Rightarrow> (blob_row \<times> gc_claim) tx" where
  "resume_delete row fence now stopped db =
     (if paired_identity (pf_store fence) db \<noteq> 1 then Inl ''blob process fence belongs to another store''
      else if \<not> (br_process row \<noteq> pf_process fence
                 \<or> (case stopped of None \<Rightarrow> False | Some s \<Rightarrow>
                      co_key s = md_key (br_metadata row) \<and> co_generation s = md_generation (br_metadata row)))
      then Inl ''deletion worker may still be running''
      else and_then (resume_deletion (br_metadata row)) (\<lambda>(t, c).
      and_then (persist_claim row t (pf_process fence) now db) (\<lambda>(next, db). Inr ((next, c), db))))"

definition finish_deletion :: "blob_row \<Rightarrow> gc_claim \<Rightarrow> string \<Rightarrow> timestamp \<Rightarrow> blob_row tx" where
  "finish_deletion row c store now db =
     (let m = br_metadata row; anonymous = of_bool (br_anonymous row) in
      and_then (deleted m c) (\<lambda>t.
      and_then (number (md_reserved m)) (\<lambda>r.
      and_then (number (md_bytes m)) (\<lambda>u.
      if tr_quota t \<noteq> \<lparr>qd_reserved = - r, qd_used = - u, qd_objects = - 1\<rparr> then Inl ''deletion quota transition mismatch''
      else and_then (release_store store r u anonymous db) (\<lambda>(changed, db).
      if changed \<noteq> 1 then Inl ''blob deletion app counter mismatch''
      else and_then (release_subject (ub_subject (md_binding m)) r u anonymous db) (\<lambda>(changed, db).
      if changed \<noteq> 1 then Inl ''blob deletion subject counter mismatch''
      else and_then (mark_deleted (ub_slot (md_binding m)) (md_generation (tr_next t)) now (tr_expected t) (br_process row) db)
        (\<lambda>(changed, db).
      if changed \<noteq> 1 then Inl ''blob deletion fence rejected''
      else and_then (delete_empty_subject (ub_subject (md_binding m)) db) (\<lambda>(_, db).
      Inr (row\<lparr>br_metadata := tr_next t, br_claimed := now\<rparr>, db)))))))))"

definition quarantine_unknown :: "string \<Rightarrow> nat \<Rightarrow> nat \<Rightarrow> string \<Rightarrow> string \<Rightarrow> timestamp \<Rightarrow> unit tx" where
  "quarantine_unknown key bytes paths store process now db =
     (if \<not> (1 \<le> paths \<and> paths \<le> 2) then Inl ''invalid orphan evidence''
      else and_then (number bytes) (\<lambda>b.
      and_then (insert_orphan key now b (int paths) process db) (\<lambda>(inserted, db).
      if inserted = 1
      then and_then (charge_orphan store b (int paths) db) (\<lambda>(changed, db).
        if changed = 1 then Inr ((), db) else Inl ''orphan quota accounting overflow'')
      else Inr ((), db))))"

definition lock_form :: "string \<Rightarrow> unit tx" where
  "lock_form store db =
     and_then (lock_paired_store store db) (\<lambda>(changed, db).
     if changed = 1 then Inr ((), db) else Inl ''blob store pairing unavailable'')"

end
