(* ===== verification/Blob_Rows.thy ===== *)
theory Blob_Rows
  imports Blob_Metadata
begin

text \<open>
  Reading back what the database holds: the encoding of a row of \<open>nx_blobs\<close> that
  \<open>MetadataContext\<close> writes, and that \<open>BlobRow::parse\<close> accepts exactly the encodings of
  well-formed rows.
\<close>

section \<open>The encoding\<close>

definition to_nx :: "blob_row \<Rightarrow> nx_blob" where
  "to_nx row =
     (let m = br_metadata row; b = md_binding m; a = md_association m in
      \<lparr>nb_slot = ub_slot b, nb_blob_ref = md_blob m, nb_upload_handle = md_handle m, nb_object_key = md_key m,
       nb_subject = ub_subject b, nb_context = ub_context b, nb_input = ub_input b,
       nb_anonymous = of_bool (br_anonymous row), nb_state = state_text (md_state m),
       nb_generation = md_generation m, nb_reserved_bytes = int (md_reserved m), nb_actual_bytes = int (md_bytes m),
       nb_sha256 = (case md_digest m of None \<Rightarrow> [] | Some d \<Rightarrow> hex d), nb_filename = br_filename row,
       nb_created_ms = br_created row, nb_expires_ms = md_expires m,
       nb_owner_resource = (case a of None \<Rightarrow> 0 | Some a \<Rightarrow> as_resource a),
       nb_owner_id = (case a of None \<Rightarrow> 0 | Some a \<Rightarrow> as_id a),
       nb_owner_incarnation = (case a of None \<Rightarrow> [] | Some a \<Rightarrow> as_incarnation a),
       nb_owner_field = (case a of None \<Rightarrow> [] | Some a \<Rightarrow> as_field a),
       nb_claimed_ms = br_claimed row, nb_owner_process = br_process row\<rparr>)"

definition row_ok :: "(bytes \<Rightarrow> bytes) \<Rightarrow> blob_row \<Rightarrow> bool" where
  "row_ok sha256 row \<longleftrightarrow>
     metadata_ok sha256 (br_metadata row) \<and> attachment_name (br_filename row) \<and> time_ok (br_created row)
     \<and> md_expires (br_metadata row) = br_created row + STAGE_LIFETIME_MILLIS \<and> time_ok (br_claimed row)
     \<and> is_ok (object_key_parse (br_process row))"

definition read_row :: "(bytes \<Rightarrow> bytes) \<Rightarrow> nx_blob \<Rightarrow> blob_row res" where
  "read_row sha256 r = and_then (row_columns r) (row_parse sha256)"

section \<open>Columns\<close>

lemma show_int_inj: "show_int a = show_int b \<longleftrightarrow> a = b"
proof -
  have "hd (show_nat n) \<noteq> CHR ''-''" for n
    using show_nat_hd_digit [of n "hd (show_nat n)" "tl (show_nat n)"] digit_not_sign by auto
  then have "show_nat n \<noteq> CHR ''-'' # s" for n s by (metis list.sel(1))
  then show ?thesis by (auto simp: show_int_def show_nat_inj) (metis show_nat_inj)+
qed

lemma within_show_int: "0 \<le> n \<Longrightarrow> n \<le> I64_MAX \<Longrightarrow> within (show_int n) 20"
proof -
  assume n: "0 \<le> n" "n \<le> I64_MAX"
  then have "nat n \<le> 9223372036854775807" by (simp add: int_defs nat_le_iff)
  then have "nat n < 10 ^ 20" by (rule order_le_less_trans) simp
  then have "length (show_nat (nat n)) \<le> 20" by (rule length_show_nat) simp
  then show ?thesis using n by (simp add: within_def show_int_def)
qed

lemma parse_i64_range: "parse_i64 v = Some n \<Longrightarrow> in_i64 n"
  by (auto simp: parse_i64_def Let_def split: list.splits option.splits if_splits)

lemma integer_show [res_simps]:
  "integer (show_int n) = Inr k \<longleftrightarrow> k = n \<and> 0 \<le> n \<and> n \<le> I64_MAX"
proof
  assume h: "integer (show_int n) = Inr k"
  then have k: "parse_i64 (show_int n) = Some k" "0 \<le> k" "show_int k = show_int n"
    by (simp_all add: integer_def res_simps split: if_splits)
  then show "k = n \<and> 0 \<le> n \<and> n \<le> I64_MAX"
    using parse_i64_range [OF k(1)] by (simp add: show_int_inj in_i64_def)
next
  assume n: "k = n \<and> 0 \<le> n \<and> n \<le> I64_MAX"
  then have "in_i64 n" by (simp add: in_i64_def int_defs)
  then show "integer (show_int n) = Inr k" using n by (simp add: integer_def)
qed

lemma unsigned_show [res_simps]:
  "unsigned (show_int n) = Inr k \<longleftrightarrow> n = int k \<and> n \<le> I64_MAX"
  by (auto simp: unsigned_def res_simps split: if_splits)

lemma commitment_parse_Inr [res_simps]:
  "commitment_parse v = Inr w \<longleftrightarrow> w = v \<and> length v = 64 \<and> list_all lower_hex v"
  by (auto simp: commitment_parse_def)

lemma object_key_parse_Inr [res_simps]:
  "object_key_parse v = Inr w \<longleftrightarrow> w = v \<and> length v = 64 \<and> list_all lower_hex v"
  by (auto simp: object_key_parse_def)

lemma opaque_token_ok:
  "opaque_token p v = Inr w \<longleftrightarrow> w = v \<and> (\<exists>suffix. v = p @ suffix \<and> length suffix = 64 \<and> list_all lower_hex suffix)"
  (is "_ \<longleftrightarrow> ?r")
proof -
  have lh: "(\<lambda>b. is_ascii_digit b \<or> 97 \<le> (of_char b :: nat) \<and> (of_char b :: nat) \<le> 102) = lower_hex"
    by (simp add: fun_eq_iff lower_hex_def)
  have "opaque_token p v = Inr w \<longleftrightarrow>
      take (length p) v = p \<and> length (drop (length p) v) = 64 \<and> list_all lower_hex (drop (length p) v) \<and> w = v"
    unfolding opaque_token_def lh strip_prefix_list_def by (auto simp del: length_drop)
  also have "\<dots> \<longleftrightarrow> ?r"
  proof
    assume "take (length p) v = p \<and> length (drop (length p) v) = 64 \<and> list_all lower_hex (drop (length p) v) \<and> w = v"
    then show ?r by (metis append_take_drop_id)
  next
    assume ?r
    then show "take (length p) v = p \<and> length (drop (length p) v) = 64 \<and> list_all lower_hex (drop (length p) v) \<and> w = v"
      by auto
  qed
  finally show ?thesis .
qed

definition token :: "string \<Rightarrow> string \<Rightarrow> bool" where
  "token p v \<longleftrightarrow> (\<exists>suffix. v = p @ suffix \<and> length suffix = 64 \<and> list_all lower_hex suffix)"

lemma token_parse_Inr [res_simps]:
  "blob_ref_parse v = Inr w \<longleftrightarrow> w = v \<and> token ''b1_'' v"
  "upload_handle_parse v = Inr w \<longleftrightarrow> w = v \<and> token ''u1_'' v"
  by (simp_all only: blob_ref_parse_def upload_handle_parse_def opaque_token_ok token_def)

lemma token_length: "token p v \<Longrightarrow> length v = length p + 64"
  by (auto simp: token_def)

lemma state_parse_text [res_simps]: "state_parse v = Inr st \<longleftrightarrow> v = state_text st"
  by (cases st) (auto simp: state_parse_def)

lemma hex_digit_Inr:
  assumes "hex_digit c = Inr x"
  shows "x < 16 \<and> HEX ! x = c"
proof -
  have inj: "a = c" if "hex_digit a = Inr x" for a
  proof -
    have "(of_char a :: nat) = of_char c"
      using that assms by (auto simp: hex_digit_def is_ascii_digit_def simp del: of_char_eq_iff split: if_splits)
    then show ?thesis by simp
  qed
  have "x < 16" using assms by (auto simp: hex_digit_def is_ascii_digit_def split: if_splits)
  then show ?thesis using inj HEX_nth(1) by blast
qed

lemma hex_hash_pairs: "hash_pairs v = Inr d \<Longrightarrow> even (length v) \<Longrightarrow> hex d = v"
proof (induction v arbitrary: d rule: hash_pairs.induct)
  case (1 a b rest)
  then obtain x y r where xy: "hex_digit a = Inr x" "hex_digit b = Inr y" "hash_pairs rest = Inr r"
    and d: "d = char_of (x * 16 + y) # r" by (auto simp: res_simps)
  have "x < 16" "y < 16" "HEX ! x = a" "HEX ! y = b" using hex_digit_Inr xy by blast+
  then show ?case using 1 xy d by (simp add: hex_Cons)
qed (auto simp: hex_def)

lemma hash_Inr [res_simps]: "hash v = Inr d \<longleftrightarrow> v = hex d \<and> length d = 32"
proof
  assume h: "hash v = Inr d"
  then have v: "hex d = v" "length v = 64"
    using hex_hash_pairs [of v d] by (auto simp: hash_def split: if_splits)
  then show "v = hex d \<and> length d = 32" using length_hex [of d] by simp
qed (auto simp: hash_hex)

lemma normalize_fixed [res_simps]: "normalize v = Inr v \<longleftrightarrow> attachment_name v"
  using normalize_label attachment_name_fixed by blast

lemma parse_anonymous_text [res_simps]:
  "parse_anonymous (show_int n) = Inr b \<longleftrightarrow> n = of_bool b"
proof -
  have "show_int 0 = ''0''" "show_int 1 = ''1''" by code_simp+
  then have "show_int n = ''0'' \<longleftrightarrow> n = 0" "show_int n = ''1'' \<longleftrightarrow> n = 1" by (metis show_int_inj)+
  then show ?thesis by (auto simp: parse_anonymous_def)
qed

section \<open>Reading a row\<close>

definition text_of :: "nx_blob \<Rightarrow> row_text" where
  "text_of r =
     \<lparr>rt_slot = nb_slot r, rt_blob = nb_blob_ref r, rt_handle = nb_upload_handle r, rt_key = nb_object_key r,
      rt_subject = nb_subject r, rt_context = nb_context r, rt_input = nb_input r,
      rt_anonymous = show_int (nb_anonymous r), rt_state = nb_state r, rt_generation = show_int (nb_generation r),
      rt_reserved = show_int (nb_reserved_bytes r), rt_bytes = show_int (nb_actual_bytes r), rt_digest = nb_sha256 r,
      rt_filename = nb_filename r, rt_created = show_int (nb_created_ms r), rt_expires = show_int (nb_expires_ms r),
      rt_resource = show_int (nb_owner_resource r), rt_id = show_int (nb_owner_id r),
      rt_incarnation = nb_owner_incarnation r, rt_field = nb_owner_field r, rt_claimed = show_int (nb_claimed_ms r),
      rt_process = nb_owner_process r\<rparr>"

lemma row_columns_Inr: "row_columns r = Inr t \<Longrightarrow> t = text_of r"
  by (auto simp: row_columns_def text_of_def Let_def split: if_splits)

definition owner_columns :: "nx_blob \<Rightarrow> association option \<Rightarrow> bool" where
  "owner_columns r a \<longleftrightarrow>
     nb_owner_resource r = (case a of None \<Rightarrow> 0 | Some a \<Rightarrow> as_resource a)
     \<and> nb_owner_id r = (case a of None \<Rightarrow> 0 | Some a \<Rightarrow> as_id a)
     \<and> nb_owner_incarnation r = (case a of None \<Rightarrow> [] | Some a \<Rightarrow> as_incarnation a)
     \<and> nb_owner_field r = (case a of None \<Rightarrow> [] | Some a \<Rightarrow> as_field a)"

lemma parse_association_text:
  "parse_association (text_of r) = Inr a \<longleftrightarrow> owner_columns r a \<and> (\<forall>x. a = Some x \<longrightarrow> association_ok x)"
proof (cases a)
  case None
  have "0 \<le> I64_MAX" by (simp add: int_defs)
  then show ?thesis
    by (auto simp: None parse_association_def text_of_def owner_columns_def res_simps Let_def split: if_splits)
next
  case (Some x)
  have ne: "\<not> is_identifier []" by (simp add: is_identifier_def)
  show ?thesis
  proof
    assume "parse_association (text_of r) = Inr a"
    then show "owner_columns r a \<and> (\<forall>x. a = Some x \<longrightarrow> association_ok x)"
      by (auto simp: Some parse_association_def text_of_def owner_columns_def res_simps Let_def association_ok_def
          split: if_splits)
  next
    assume "owner_columns r a \<and> (\<forall>x. a = Some x \<longrightarrow> association_ok x)"
    then have o: "owner_columns r (Some x)" and ok: "association_ok x" using Some by auto
    have v: "association_validate x = Inr ()" "as_resource x > 0" "as_id x > 0" "as_incarnation x \<noteq> []"
      "length (as_incarnation x) \<le> 64" "is_identifier (as_field x)" "as_resource x \<le> I64_MAX" "as_id x \<le> I64_MAX"
      using ok by (auto simp: association_ok_def association_validate_def split: if_splits)
    have "integer (show_int (as_resource x)) = Inr (as_resource x)" "integer (show_int (as_id x)) = Inr (as_id x)"
      using v by (simp_all add: integer_show)
    then show "parse_association (text_of r) = Inr a"
      using o v by (cases x) (simp add: Some parse_association_def text_of_def owner_columns_def Let_def)
  qed
qed

lemma parse_digest_text:
  "(if v = [] then Inr None else and_then (hash v) (\<lambda>d. Inr (Some d))) = (Inr digest :: bytes option res)
     \<longleftrightarrow> v = (case digest of None \<Rightarrow> [] | Some d \<Rightarrow> hex d) \<and> (\<forall>d. digest = Some d \<longrightarrow> length d = 32)"
proof -
  have "length d = 32 \<Longrightarrow> [] \<noteq> hex d" for d using length_hex [of d] by auto
  then show ?thesis by (cases digest) (auto simp: res_simps)
qed

definition metadata_columns :: "nx_blob \<Rightarrow> metadata \<Rightarrow> bool" where
  "metadata_columns r m \<longleftrightarrow>
     nb_slot r = ub_slot (md_binding m) \<and> nb_blob_ref r = md_blob m \<and> nb_upload_handle r = md_handle m
     \<and> nb_object_key r = md_key m \<and> nb_subject r = ub_subject (md_binding m) \<and> nb_context r = ub_context (md_binding m)
     \<and> nb_input r = ub_input (md_binding m) \<and> nb_generation r = md_generation m
     \<and> nb_reserved_bytes r = int (md_reserved m) \<and> nb_actual_bytes r = int (md_bytes m)
     \<and> nb_sha256 r = (case md_digest m of None \<Rightarrow> [] | Some d \<Rightarrow> hex d)"

definition metadata_fields_ok :: "metadata \<Rightarrow> bool" where
  "metadata_fields_ok m \<longleftrightarrow>
     md_reserved m \<le> MAX_UPLOAD_BYTES \<and> md_bytes m \<le> MAX_UPLOAD_BYTES \<and> 0 < md_generation m \<and> md_generation m \<le> I64_MAX
     \<and> is_ok (blob_ref_parse (md_blob m)) \<and> is_ok (upload_handle_parse (md_handle m)) \<and> is_ok (object_key_parse (md_key m))
     \<and> binding_ok (md_binding m) \<and> (\<forall>d. md_digest m = Some d \<longrightarrow> length d = 32)"

lemma parse_metadata_text:
  "parse_metadata (text_of r) st expires a = Inr m \<longleftrightarrow>
     metadata_columns r m \<and> metadata_fields_ok m \<and> md_state m = st \<and> md_expires m = expires \<and> md_association m = a"
  (is "?l \<longleftrightarrow> ?r")
proof
  assume ?l
  then show ?r
    unfolding parse_metadata_def
    by (auto simp: res_simps parse_digest_text generation_parse_def text_of_def metadata_columns_def
        metadata_fields_ok_def is_ok_iff binding_ok_def split: if_splits)
next
  assume r: ?r
  have max: "int MAX_UPLOAD_BYTES \<le> I64_MAX" by (simp add: MAX_UPLOAD_BYTES_def int_defs)
  have tok: "blob_ref_parse (md_blob m) = Inr (md_blob m)" "upload_handle_parse (md_handle m) = Inr (md_handle m)"
    "object_key_parse (md_key m) = Inr (md_key m)"
    using r by (auto simp: metadata_fields_ok_def is_ok_iff res_simps)
  have com: "commitment_parse c = Inr c" if "c \<in> {ub_slot (md_binding m), ub_subject (md_binding m), ub_context (md_binding m), ub_input (md_binding m)}" for c
    using r that by (auto simp: metadata_fields_ok_def binding_ok_def is_ok_iff res_simps)
  have nums: "unsigned (show_int (int (md_reserved m))) = Inr (md_reserved m)" "unsigned (show_int (int (md_bytes m))) = Inr (md_bytes m)"
    "integer (show_int (md_generation m)) = Inr (md_generation m)" "generation_parse (md_generation m) = Inr (md_generation m)"
    using r max by (auto simp: metadata_fields_ok_def res_simps generation_parse_def)
  have dig: "(if nb_sha256 r = [] then Inr None else and_then (hash (nb_sha256 r)) (\<lambda>d. Inr (Some d))) = (Inr (md_digest m) :: bytes option res)"
    unfolding parse_digest_text using r by (auto simp: metadata_columns_def metadata_fields_ok_def)
  have cols: "rt_reserved (text_of r) = show_int (int (md_reserved m))" "rt_bytes (text_of r) = show_int (int (md_bytes m))"
    "rt_digest (text_of r) = nb_sha256 r" "rt_blob (text_of r) = md_blob m" "rt_handle (text_of r) = md_handle m"
    "rt_key (text_of r) = md_key m" "rt_slot (text_of r) = ub_slot (md_binding m)"
    "rt_subject (text_of r) = ub_subject (md_binding m)" "rt_context (text_of r) = ub_context (md_binding m)"
    "rt_input (text_of r) = ub_input (md_binding m)" "rt_generation (text_of r) = show_int (md_generation m)"
    using r by (simp_all add: text_of_def metadata_columns_def)
  have le: "md_reserved m \<le> MAX_UPLOAD_BYTES" "md_bytes m \<le> MAX_UPLOAD_BYTES" "md_state m = st" "md_expires m = expires"
    "md_association m = a" using r by (simp_all add: metadata_fields_ok_def)
  show ?l
    unfolding parse_metadata_def cols nums tok com [OF insertI1] dig and_then_simps
    using le com by (cases m; cases "md_binding m") simp
qed

lemma time_text_Inr [res_simps]: "time_text r = Inr x \<longleftrightarrow> r = Inr x"
  by (cases r) simp_all

lemma to_nx_columns:
  "r = to_nx row \<longleftrightarrow>
     metadata_columns r (br_metadata row) \<and> owner_columns r (md_association (br_metadata row))
     \<and> nb_state r = state_text (md_state (br_metadata row)) \<and> nb_anonymous r = of_bool (br_anonymous row)
     \<and> nb_filename r = br_filename row \<and> nb_created_ms r = br_created row \<and> nb_expires_ms r = md_expires (br_metadata row)
     \<and> nb_claimed_ms r = br_claimed row \<and> nb_owner_process r = br_process row"
  by (cases r) (auto simp: to_nx_def metadata_columns_def owner_columns_def Let_def)

lemma metadata_ok_split:
  "metadata_ok sha256 m \<longleftrightarrow>
     metadata_fields_ok m \<and> shape_check m = Inr () \<and> time_ok (md_expires m)
     \<and> (\<forall>a. md_association m = Some a \<longrightarrow> association_ok a)
     \<and> (\<forall>d. md_digest m = Some d \<longrightarrow> md_state m \<noteq> Deleted \<longrightarrow> expected_handle sha256 m (md_bytes m) d = Inr (md_handle m))"
  unfolding metadata_ok_def metadata_fields_ok_def by blast

lemma handle_check_Inr:
  "(case md_digest m of
      Some d \<Rightarrow> if md_state m \<noteq> Deleted
        then and_then (expected_handle sha256 m (md_bytes m) d) (\<lambda>h.
          if h = md_handle m then Inr () else Inl ''finalized handle does not match immutable object'')
        else Inr ()
    | None \<Rightarrow> Inr ()) = Inr () \<longleftrightarrow>
   (\<forall>d. md_digest m = Some d \<longrightarrow> md_state m \<noteq> Deleted \<longrightarrow> expected_handle sha256 m (md_bytes m) d = Inr (md_handle m))"
  by (auto simp: res_simps split: option.splits)

lemma if_Inl_eq_Inr: "(if c then Inl e else k) = Inr x \<longleftrightarrow> \<not> c \<and> k = Inr x"
  by simp

lemma row_parse_text:
  "row_parse sha256 (text_of r) = Inr row \<longleftrightarrow> row_ok sha256 row \<and> r = to_nx row"
proof -
  have life: "duration_from_millis STAGE_LIFETIME_MILLIS = Inr STAGE_LIFETIME_MILLIS" "0 \<le> STAGE_LIFETIME_MILLIS"
    by (simp_all add: duration_from_millis_def duration_try_from_def STAGE_LIFETIME_MILLIS_def)
  have ms: "from_unix_millis n = Inr k \<longleftrightarrow> k = n \<and> 0 \<le> n" for n k by (auto simp: from_unix_millis_def res_simps)
  have cols: "rt_state (text_of r) = nb_state r" "rt_created (text_of r) = show_int (nb_created_ms r)"
    "rt_expires (text_of r) = show_int (nb_expires_ms r)" "rt_filename (text_of r) = nb_filename r"
    "rt_anonymous (text_of r) = show_int (nb_anonymous r)" "rt_claimed (text_of r) = show_int (nb_claimed_ms r)"
    "rt_process (text_of r) = nb_owner_process r"
    by (simp_all add: text_of_def)
  have norm: "and_then (normalize v) (\<lambda>name. if name \<noteq> v then Inl e else k name) = Inr x \<longleftrightarrow> attachment_name v \<and> k v = Inr x"
    for v e x and k :: "string \<Rightarrow> blob_row res"
    using normalize_fixed [of v] by (auto simp: res_simps split: if_splits)
  have add: "timestamp_checked_add t STAGE_LIFETIME_MILLIS = Inr u \<longleftrightarrow> u = t + STAGE_LIFETIME_MILLIS \<and> in_i64 u"
    if "0 \<le> t" for t u using that life(2) by (auto simp: res_simps)
  have i64: "0 \<le> n \<Longrightarrow> in_i64 n \<longleftrightarrow> n \<le> I64_MAX" for n by (simp add: in_i64_def int_defs)
  show ?thesis
  proof
    assume p: "row_parse sha256 (text_of r) = Inr row"
    obtain st c created x expires lifetime due a m u name anonymous k claimed process v
      where st: "state_parse (nb_state r) = Inr st"
      and tm: "integer (show_int (nb_created_ms r)) = Inr c" "time_text (from_unix_millis c) = Inr created"
        "integer (show_int (nb_expires_ms r)) = Inr x" "time_text (from_unix_millis x) = Inr expires"
        "time_text (duration_from_millis STAGE_LIFETIME_MILLIS) = Inr lifetime"
        "time_text (timestamp_checked_add created lifetime) = Inr due" "\<not> due \<noteq> expires"
      and as: "parse_association (text_of r) = Inr a" and m: "parse_metadata (text_of r) st expires a = Inr m"
      and sh: "shape_check m = Inr u"
      and h: "(case md_digest m of Some d \<Rightarrow> if md_state m \<noteq> Deleted
            then and_then (expected_handle sha256 m (md_bytes m) d) (\<lambda>h.
              if h = md_handle m then Inr () else Inl ''finalized handle does not match immutable object'')
            else Inr () | None \<Rightarrow> Inr ()) = Inr v"
      and f: "normalize (nb_filename r) = Inr name" "\<not> name \<noteq> nb_filename r"
      and an: "parse_anonymous (show_int (nb_anonymous r)) = Inr anonymous"
      and k: "integer (show_int (nb_claimed_ms r)) = Inr k" "time_text (from_unix_millis k) = Inr claimed"
      and pr: "object_key_parse (nb_owner_process r) = Inr process"
      and row: "Inr \<lparr>br_metadata = m, br_anonymous = anonymous, br_filename = name, br_created = created,
          br_claimed = claimed, br_process = process\<rparr> = (Inr row :: blob_row res)"
      using p unfolding row_parse_def cols and_then_eq_Inr if_Inl_eq_Inr
      by (elim exE conjE) (rule that; assumption)
    have tm': "created = nb_created_ms r" "expires = nb_expires_ms r" "claimed = nb_claimed_ms r"
      "time_ok (nb_created_ms r)" "time_ok (nb_expires_ms r)" "time_ok (nb_claimed_ms r)"
      "nb_expires_ms r = nb_created_ms r + STAGE_LIFETIME_MILLIS"
      using tm k life(1) by (auto simp: res_simps ms time_ok_def)
    have m': "metadata_columns r m" "metadata_fields_ok m" "md_expires m = nb_expires_ms r" "md_association m = a" "md_state m = st"
      using m tm'(2) by (simp_all add: parse_metadata_text)
    have hh: "\<forall>d. md_digest m = Some d \<longrightarrow> md_state m \<noteq> Deleted \<longrightarrow> expected_handle sha256 m (md_bytes m) d = Inr (md_handle m)"
      unfolding handle_check_Inr [symmetric] using h by (cases v) (simp only:)
    have "attachment_name (nb_filename r)" "name = nb_filename r" using f normalize_fixed by auto
    moreover have "nb_anonymous r = of_bool anonymous" using an parse_anonymous_text by simp
    ultimately show "row_ok sha256 row \<and> r = to_nx row"
      using row m' tm' hh sh pr st as
      by (auto simp: row_ok_def to_nx_columns metadata_ok_split parse_association_text state_parse_text is_ok_iff object_key_parse_Inr)
  next
    assume "row_ok sha256 row \<and> r = to_nx row"
    then show "row_parse sha256 (text_of r) = Inr row"
      unfolding row_parse_def cols life to_nx_columns row_ok_def metadata_ok_split
      using life(2)
      by (cases row) (simp add: res_simps ms norm handle_check_Inr life add i64 time_ok_def parse_metadata_text
          parse_association_text is_ok_iff parse_anonymous_text)
  qed
qed

lemma row_columns_ok:
  assumes "row_ok sha256 row"
  shows "row_columns (to_nx row) = Inr (text_of (to_nx row))"
proof -
  let ?m = "br_metadata row"
  have m: "metadata_fields_ok ?m" "time_ok (md_expires ?m)" "\<And>a. md_association ?m = Some a \<Longrightarrow> association_ok a"
    and r: "attachment_name (br_filename row)" "time_ok (br_created row)" "time_ok (br_claimed row)"
      "is_ok (object_key_parse (br_process row))"
    using assms by (auto simp: row_ok_def metadata_ok_split)
  have "int MAX_UPLOAD_BYTES \<le> I64_MAX" by (simp add: MAX_UPLOAD_BYTES_def int_defs)
  then have bytes: "int (md_reserved ?m) \<le> I64_MAX" "int (md_bytes ?m) \<le> I64_MAX"
    using m(1) by (auto simp: metadata_fields_ok_def)
  have toks: "length (md_blob ?m) = 67" "length (md_handle ?m) = 67" "length (md_key ?m) = 64"
    "length (ub_slot (md_binding ?m)) = 64" "length (ub_subject (md_binding ?m)) = 64"
    "length (ub_context (md_binding ?m)) = 64" "length (ub_input (md_binding ?m)) = 64"
    using m(1) token_length by (auto simp: metadata_fields_ok_def is_ok_iff res_simps binding_ok_def)
  have st: "length (state_text st) \<le> 16" for st by (cases st) simp_all
  have dig: "length (case md_digest ?m of None \<Rightarrow> [] | Some d \<Rightarrow> hex d) \<le> 64"
    using m(1) by (simp add: metadata_fields_ok_def length_hex split: option.splits)
  have own: "within (show_int (case md_association ?m of None \<Rightarrow> 0 | Some a \<Rightarrow> as_resource a)) 20"
    "within (show_int (case md_association ?m of None \<Rightarrow> 0 | Some a \<Rightarrow> as_id a)) 20"
    "length (case md_association ?m of None \<Rightarrow> [] | Some a \<Rightarrow> as_incarnation a) \<le> 64"
    "length (case md_association ?m of None \<Rightarrow> [] | Some a \<Rightarrow> as_field a) \<le> 32"
    using m(3) by (auto simp: association_ok_def association_validate_def is_identifier_def int_defs
        intro!: within_show_int split: option.splits if_splits)
  have nums: "within (show_int (of_bool (br_anonymous row))) 20" "within (show_int (md_generation ?m)) 20"
    "within (show_int (int (md_reserved ?m))) 20" "within (show_int (int (md_bytes ?m))) 20"
    "within (show_int (br_created row)) 20" "within (show_int (md_expires ?m)) 20" "within (show_int (br_claimed row)) 20"
    using m(1,2) r(2,3) bytes by (auto intro!: within_show_int simp: metadata_fields_ok_def time_ok_def int_defs)
  have "length (br_filename row) \<le> 80" "length (br_process row) = 64"
    using r by (auto simp: attachment_name_def MAX_FILENAME_BYTES_def is_ok_iff res_simps)
  then show ?thesis
    unfolding row_columns_def text_of_def
    using toks st dig own nums by (simp add: to_nx_def Let_def) (simp add: within_def)
qed

lemma read_row_iff: "read_row sha256 r = Inr row \<longleftrightarrow> row_ok sha256 row \<and> r = to_nx row"
proof
  assume "read_row sha256 r = Inr row"
  then have "row_parse sha256 (text_of r) = Inr row"
    using row_columns_Inr by (auto simp: read_row_def and_then_eq_Inr)
  then show "row_ok sha256 row \<and> r = to_nx row" by (simp only: row_parse_text)
next
  assume r: "row_ok sha256 row \<and> r = to_nx row"
  then have "row_parse sha256 (text_of r) = Inr row" by (simp only: row_parse_text)
  moreover have "row_columns r = Inr (text_of r)" using r row_columns_ok by blast
  ultimately show "read_row sha256 r = Inr row" by (simp add: read_row_def)
qed

text \<open>C17: reading a stored row is exact.  \<open>BlobRow::parse\<close> applied to the columns a query returns
  succeeds precisely when those columns are the encoding of a well-formed row, and then yields that
  row: no two rows read alike, nothing malformed is read (non-canonical numbers, a handle that does
  not commit to the object, a file name that is not a label, a shape foreign to the state), and every
  row the operations write can be read back.\<close>

theorem stored_row_roundtrip:
  "and_then (row_columns r) (row_parse sha256) = Inr row \<longleftrightarrow> row_ok sha256 row \<and> r = to_nx row"
  using read_row_iff by (simp add: read_row_def)

end
