(* ===== verification/Blob_Accounting.thy ===== *)
theory Blob_Accounting
  imports Blob_Rows
begin

text \<open>
  The quota counters of the blob store, per application and per subject, against the rows they
  account for: every operation of \<open>MetadataContext\<close> keeps them equal to the sums over the rows,
  and every operation on a row read earlier is fenced by the generation of the row as it is now.
\<close>

section \<open>Sums over tables\<close>

definition tot :: "('a \<Rightarrow> int) \<Rightarrow> 'a list \<Rightarrow> int" where
  "tot f xs = sum_list (map f xs)"

lemma tot_simps [simp]:
  "tot f [] = 0" "tot f (x # xs) = f x + tot f xs" "tot f (xs @ ys) = tot f xs + tot f ys"
  by (simp_all add: tot_def)

lemma tot_map: "(\<And>x. x \<in> set xs \<Longrightarrow> f (g x) = h x) \<Longrightarrow> tot f (map g xs) = tot h xs"
  by (simp add: tot_def comp_def cong: map_cong)

lemma tot_nonneg: "(\<And>x. x \<in> set xs \<Longrightarrow> 0 \<le> f x) \<Longrightarrow> 0 \<le> tot f xs"
  by (induction xs) auto

lemma tot_zero_iff:
  assumes "\<And>x. x \<in> set xs \<Longrightarrow> 0 \<le> f x"
  shows "tot f xs = 0 \<longleftrightarrow> (\<forall>x \<in> set xs. f x = 0)"
  using assms
proof (induction xs)
  case Nil
  then show ?case by simp
next
  case (Cons x xs)
  then have "0 \<le> tot f xs" "0 \<le> f x" by (auto intro: tot_nonneg)
  then show ?case using Cons by (auto simp: add_nonneg_eq_0_iff)
qed

text \<open>An \<open>UPDATE\<close> of rows with a distinct key that touched one row touched exactly one.\<close>

lemma update_one:
  assumes "distinct (map key rows)" and "\<And>r. P r \<Longrightarrow> key r = k" and "length (filter P rows) = 1"
  obtains xs r ys where "rows = xs @ r # ys" "P r" "map (\<lambda>r. if P r then f r else r) rows = xs @ f r # ys"
    "k \<notin> key ` set xs" "k \<notin> key ` set ys"
proof -
  from assms(3) obtain r where "filter P rows = [r]" by (auto simp: length_Suc_conv)
  then have "{x \<in> set rows. P x} = {r}" by (metis list.set(1) list.set(2) set_filter)
  then have r: "r \<in> set rows" "P r" by auto
  then obtain xs ys where rows: "rows = xs @ r # ys" by (metis split_list)
  have k: "k \<notin> key ` set xs" "k \<notin> key ` set ys"
    using assms(1) assms(2) [OF r(2)] by (auto simp: rows)
  then have "\<forall>x \<in> set xs \<union> set ys. \<not> P x" using assms(2) by auto
  then have "map (\<lambda>r. if P r then f r else r) rows = xs @ f r # ys"
    using r(2) by (simp add: rows map_idI)
  then show thesis using that rows r(2) k by blast
qed

section \<open>The invariant\<close>

definition alive :: "nx_blob \<Rightarrow> int" where
  "alive r = of_bool (nb_state r \<noteq> ''deleted'')"

definition store_counts :: "nx_blob list \<Rightarrow> orphan_row list \<Rightarrow> store_row \<Rightarrow> bool" where
  "store_counts blobs orphans s \<longleftrightarrow>
     st_reserved s = tot nb_reserved_bytes blobs
     \<and> st_used s = tot nb_actual_bytes blobs + tot or_charged_bytes orphans
     \<and> st_objects s = tot alive blobs + tot or_charged_objects orphans
     \<and> st_anonymous_reserved s = tot (\<lambda>r. nb_reserved_bytes r * nb_anonymous r) blobs
     \<and> st_anonymous_used s = tot (\<lambda>r. nb_actual_bytes r * nb_anonymous r) blobs"

definition of_subject :: "string \<Rightarrow> (nx_blob \<Rightarrow> int) \<Rightarrow> nx_blob \<Rightarrow> int" where
  "of_subject subject f r = (if nb_subject r = subject then f r else 0)"

definition subject_counts :: "nx_blob list \<Rightarrow> subject_row \<Rightarrow> bool" where
  "subject_counts blobs sr \<longleftrightarrow>
     sb_reserved sr = tot (of_subject (sb_subject sr) nb_reserved_bytes) blobs
     \<and> sb_used sr = tot (of_subject (sb_subject sr) nb_actual_bytes) blobs
     \<and> sb_objects sr = tot (of_subject (sb_subject sr) alive) blobs
     \<and> (\<forall>r \<in> set blobs. nb_subject r = sb_subject sr \<longrightarrow> alive r = 1 \<longrightarrow> nb_anonymous r = sb_anonymous sr)"

definition rows_ok :: "(bytes \<Rightarrow> bytes) \<Rightarrow> nx_blob list \<Rightarrow> bool" where
  "rows_ok sha256 blobs \<longleftrightarrow> (\<forall>r \<in> set blobs. \<exists>row. row_ok sha256 row \<and> r = to_nx row)"

definition subjects_ok :: "nx_blob list \<Rightarrow> subject_row list \<Rightarrow> bool" where
  "subjects_ok blobs subjects \<longleftrightarrow>
     distinct (map sb_subject subjects) \<and> (\<forall>sr \<in> set subjects. subject_counts blobs sr)
     \<and> (\<forall>r \<in> set blobs. alive r = 1 \<longrightarrow> nb_subject r \<in> sb_subject ` set subjects)"

definition db_inv :: "(bytes \<Rightarrow> bytes) \<Rightarrow> blob_db \<Rightarrow> bool" where
  "db_inv sha256 db \<longleftrightarrow>
     rows_ok sha256 (db_blobs db) \<and> blobs_unique (db_blobs db) \<and> subjects_ok (db_blobs db) (db_subjects db)
     \<and> (case db_store db of
          None \<Rightarrow> db_blobs db = [] \<and> db_subjects db = [] \<and> db_orphans db = []
        | Some s \<Rightarrow> store_counts (db_blobs db) (db_orphans db) s)"

text \<open>A row read at some point: the slot still exists, its generation has not gone back, and it is
  the same row if the generation is the same.\<close>

definition row_slot :: "blob_row \<Rightarrow> string" where
  "row_slot row = ub_slot (md_binding (br_metadata row))"

definition coherent :: "(bytes \<Rightarrow> bytes) \<Rightarrow> blob_db \<Rightarrow> blob_row \<Rightarrow> bool" where
  "coherent sha256 db row \<longleftrightarrow> row_ok sha256 row
     \<and> (\<exists>r \<in> set (db_blobs db). nb_slot r = row_slot row \<and> md_generation (br_metadata row) \<le> nb_generation r
          \<and> (nb_generation r = md_generation (br_metadata row) \<longrightarrow> r = to_nx row))"

section \<open>Charges of one row\<close>

lemma state_text_inj: "state_text a = state_text b \<longleftrightarrow> a = b"
  by (cases a; cases b) simp_all

lemma to_nx_simps [simp]:
  "nb_slot (to_nx row) = row_slot row" "nb_subject (to_nx row) = ub_subject (md_binding (br_metadata row))"
  "nb_anonymous (to_nx row) = of_bool (br_anonymous row)" "nb_state (to_nx row) = state_text (md_state (br_metadata row))"
  "nb_generation (to_nx row) = md_generation (br_metadata row)"
  "nb_reserved_bytes (to_nx row) = int (md_reserved (br_metadata row))"
  "nb_actual_bytes (to_nx row) = int (md_bytes (br_metadata row))"
  "nb_owner_process (to_nx row) = br_process row" "nb_object_key (to_nx row) = md_key (br_metadata row)"
  by (simp_all add: to_nx_def Let_def row_slot_def)

lemma alive_to_nx: "alive (to_nx row) = live (br_metadata row)"
  using state_text_inj [of "md_state (br_metadata row)" Deleted] by (simp add: alive_def live_def)

lemma alive_range: "alive r = 0 \<or> alive r = 1"
  by (simp add: alive_def)

lemma dead_uncharged:
  assumes "row_ok sha256 row" and "alive (to_nx row) = 0"
  shows "nb_reserved_bytes (to_nx row) = 0" "nb_actual_bytes (to_nx row) = 0"
  using assms by (auto simp: alive_to_nx live_def row_ok_def metadata_ok_def shape_check_simp split: if_splits)

lemma row_step_ok:
  assumes "row_ok sha256 row" and "blob_step sha256 (br_metadata row) t" and "time_ok now"
    and "is_ok (object_key_parse process)"
  shows "row_ok sha256 (row\<lparr>br_metadata := tr_next t\<rparr>)"
    and "row_ok sha256 (row\<lparr>br_metadata := tr_next t, br_claimed := now, br_process := process\<rparr>)"
    and "row_ok sha256 (row\<lparr>br_metadata := tr_next t, br_claimed := now\<rparr>)"
  using assms blob_step_ok [OF _ assms(2)] blob_step_effect(3) [OF assms(2)]
  by (simp_all add: row_ok_def same_identity_def)

section \<open>Preservation\<close>

text \<open>Changes that touch no charge keep every counter right.\<close>

definition same_charge :: "nx_blob \<Rightarrow> nx_blob \<Rightarrow> bool" where
  "same_charge r r' \<longleftrightarrow>
     nb_subject r' = nb_subject r \<and> nb_anonymous r' = nb_anonymous r \<and> nb_reserved_bytes r' = nb_reserved_bytes r
     \<and> nb_actual_bytes r' = nb_actual_bytes r \<and> alive r' = alive r"

lemma neutral_inv:
  assumes "db_inv sha256 db" and "\<And>r. r \<in> set (db_blobs db) \<Longrightarrow> same_charge r (g r)"
    and "rows_ok sha256 (map g (db_blobs db))" and "blobs_unique (map g (db_blobs db))"
  shows "db_inv sha256 (db\<lparr>db_blobs := map g (db_blobs db)\<rparr>)"
proof -
  have sc: "nb_subject (g r) = nb_subject r" "nb_anonymous (g r) = nb_anonymous r"
    "nb_reserved_bytes (g r) = nb_reserved_bytes r" "nb_actual_bytes (g r) = nb_actual_bytes r" "alive (g r) = alive r"
    if "r \<in> set (db_blobs db)" for r using assms(2) [OF that] by (simp_all add: same_charge_def)
  have t: "tot f (map g (db_blobs db)) = tot f (db_blobs db)"
    if "\<And>r. r \<in> set (db_blobs db) \<Longrightarrow> f (g r) = f r" for f using that by (rule tot_map)
  have "subjects_ok (map g (db_blobs db)) (db_subjects db)"
    using assms(1) sc by (auto simp: db_inv_def subjects_ok_def subject_counts_def of_subject_def t)
  moreover have "store_counts (map g (db_blobs db)) (db_orphans db) s" if "db_store db = Some s" for s
    using assms(1) that sc by (simp add: db_inv_def store_counts_def t)
  ultimately show ?thesis
    using assms by (auto simp: db_inv_def split: option.splits)
qed

text \<open>A change of one charged row, with its store and subject counters.\<close>

lemma charged_inv:
  assumes inv: "db_inv sha256 db"
    and blobs: "db_blobs db = xs @ r # ys" and "alive r = 1"
    and store: "db_store db = Some s"
    and subs: "db_subjects db = as @ sr # bs" and "sb_subject sr = nb_subject r"
    and r': "\<exists>row. row_ok sha256 row \<and> r' = to_nx row" "nb_subject r' = nb_subject r" "nb_anonymous r' = nb_anonymous r"
    and "blobs_unique (xs @ r' # ys)"
    and s': "st_reserved s' = st_reserved s + (nb_reserved_bytes r' - nb_reserved_bytes r)"
      "st_used s' = st_used s + (nb_actual_bytes r' - nb_actual_bytes r)" "st_objects s' = st_objects s + (alive r' - alive r)"
      "st_anonymous_reserved s' = st_anonymous_reserved s + (nb_reserved_bytes r' - nb_reserved_bytes r) * nb_anonymous r"
      "st_anonymous_used s' = st_anonymous_used s + (nb_actual_bytes r' - nb_actual_bytes r) * nb_anonymous r"
    and sr': "sb_subject sr' = sb_subject sr" "sb_anonymous sr' = sb_anonymous sr"
      "sb_reserved sr' = sb_reserved sr + (nb_reserved_bytes r' - nb_reserved_bytes r)"
      "sb_used sr' = sb_used sr + (nb_actual_bytes r' - nb_actual_bytes r)" "sb_objects sr' = sb_objects sr + (alive r' - alive r)"
  shows "db_inv sha256 (db\<lparr>db_store := Some s', db_subjects := as @ sr' # bs, db_blobs := xs @ r' # ys\<rparr>)"
proof -
  have rows: "rows_ok sha256 (xs @ r' # ys)"
    using inv r'(1) by (auto simp: db_inv_def rows_ok_def blobs)
  have old: "subjects_ok (xs @ r # ys) (as @ sr # bs)" and cnt: "store_counts (xs @ r # ys) (db_orphans db) s"
    using inv by (simp_all add: db_inv_def blobs subs store)
  have "subject_counts (xs @ r' # ys) sr'"
  proof -
    have "subject_counts (xs @ r # ys) sr" using old by (simp add: subjects_ok_def)
    then show ?thesis
      using sr' r'(2,3) assms(3) \<open>sb_subject sr = nb_subject r\<close>
      by (auto simp: subject_counts_def of_subject_def)
  qed
  moreover have "subject_counts (xs @ r' # ys) q" if "q \<in> set as \<union> set bs" for q
  proof -
    have "sb_subject sr \<notin> sb_subject ` (set as \<union> set bs)" using old by (auto simp: subjects_ok_def)
    then have "sb_subject q \<noteq> sb_subject sr" using that by (metis imageI)
    moreover have "subject_counts (xs @ r # ys) q" using old that unfolding subjects_ok_def by force
    ultimately show ?thesis using r'(2) \<open>sb_subject sr = nb_subject r\<close> by (auto simp: subject_counts_def of_subject_def)
  qed
  ultimately have "subjects_ok (xs @ r' # ys) (as @ sr' # bs)"
    using old sr'(1) r'(2) assms(3) \<open>sb_subject sr = nb_subject r\<close> by (auto simp: subjects_ok_def)
  moreover have "store_counts (xs @ r' # ys) (db_orphans db) s'"
    using cnt s' r'(3) by (simp add: store_counts_def algebra_simps)
  ultimately show ?thesis using rows assms(10) by (simp add: db_inv_def)
qed

lemma update_store_one:
  "update_store P f db = Inr (Suc 0, db') \<longleftrightarrow>
     (\<exists>s. db_store db = Some s \<and> P s \<and> store_check (f s) \<and> db' = db\<lparr>db_store := Some (f s)\<rparr>)"
  by (auto simp: update_store_def split: option.splits)

lemma update_subjects_Inr:
  "update_subjects P f db = Inr (n, db') \<longleftrightarrow>
     n = length (filter P (db_subjects db)) \<and> list_all subject_check (map (\<lambda>r. if P r then f r else r) (db_subjects db))
     \<and> db' = db\<lparr>db_subjects := map (\<lambda>r. if P r then f r else r) (db_subjects db)\<rparr>"
  by (auto simp: update_subjects_def Let_def)

lemma update_blobs_Inr:
  "update_blobs P f db = Inr (n, db') \<longleftrightarrow>
     n = length (filter P (db_blobs db)) \<and> list_all blob_check (map (\<lambda>r. if P r then f r else r) (db_blobs db))
     \<and> blobs_unique (map (\<lambda>r. if P r then f r else r) (db_blobs db))
     \<and> db' = db\<lparr>db_blobs := map (\<lambda>r. if P r then f r else r) (db_blobs db)\<rparr>"
  by (auto simp: update_blobs_def Let_def)

text \<open>A row found by its slot and generation is the row that was read.\<close>

lemma coherent_current:
  assumes "coherent sha256 db row" and "db_inv sha256 db" and "r \<in> set (db_blobs db)"
    and "nb_slot r = row_slot row" and "nb_generation r = md_generation (br_metadata row)"
  shows "r = to_nx row"
proof -
  from assms(1) obtain r0 where r0: "r0 \<in> set (db_blobs db)" "nb_slot r0 = row_slot row"
    "nb_generation r0 = md_generation (br_metadata row) \<longrightarrow> r0 = to_nx row" by (auto simp: coherent_def)
  have "distinct (map nb_slot (db_blobs db))" using assms(2) by (simp add: db_inv_def blobs_unique_def)
  then have "r = r0" using assms(3,4) r0(1,2) by (metis distinct_map inj_onD)
  then show ?thesis using r0(3) assms(5) by simp
qed

text \<open>One fenced update of a row: nothing else changes, and the generation advances.\<close>

definition replaces :: "(bytes \<Rightarrow> bytes) \<Rightarrow> blob_db \<Rightarrow> blob_db \<Rightarrow> blob_row \<Rightarrow> blob_row \<Rightarrow> bool" where
  "replaces sha256 db db' row row' \<longleftrightarrow>
     (\<exists>t. blob_step sha256 (br_metadata row) t \<and> br_metadata row' = tr_next t)
     \<and> row_slot row' = row_slot row \<and> md_generation (br_metadata row') = md_generation (br_metadata row) + 1
     \<and> (\<exists>xs ys. db_blobs db = xs @ to_nx row # ys \<and> db_blobs db' = xs @ to_nx row' # ys)"

lemma replaces_coherent:
  assumes "replaces sha256 db db' row row'" and "db_inv sha256 db" and "coherent sha256 db q"
  shows "coherent sha256 db' q"
proof -
  from assms(1) obtain xs ys where b: "db_blobs db = xs @ to_nx row # ys" "db_blobs db' = xs @ to_nx row' # ys"
    and s: "row_slot row' = row_slot row" and g: "md_generation (br_metadata row') = md_generation (br_metadata row) + 1"
    by (auto simp: replaces_def)
  from assms(3) obtain r where r: "r \<in> set (db_blobs db)" "nb_slot r = row_slot q"
    "md_generation (br_metadata q) \<le> nb_generation r" "nb_generation r = md_generation (br_metadata q) \<longrightarrow> r = to_nx q"
    and ok: "row_ok sha256 q" by (auto simp: coherent_def)
  show ?thesis
  proof (cases "r = to_nx row")
    case True
    then show ?thesis using r ok s g b by (auto simp: coherent_def)
  next
    case False
    then have "r \<in> set (db_blobs db')" using r(1) b by auto
    then show ?thesis using r ok by (auto simp: coherent_def)
  qed
qed

lemma replaces_current:
  assumes "replaces sha256 db db' row row'" and "row_ok sha256 row'"
  shows "coherent sha256 db' row'"
  using assms by (auto simp: replaces_def coherent_def)

lemma delete_empty_subject_inv:
  assumes "db_inv sha256 db" and "delete_empty_subject subject db = Inr (n, db')"
  shows "db_inv sha256 db'" and "db_blobs db' = db_blobs db"
proof -
  let ?P = "\<lambda>r. sb_subject r = subject \<and> sb_reserved r = 0 \<and> sb_used r = 0 \<and> sb_objects r = 0"
  have db': "db' = db\<lparr>db_subjects := filter (\<lambda>r. \<not> ?P r) (db_subjects db)\<rparr>"
    using assms(2) by (auto simp: delete_empty_subject_def Let_def)
  have so: "subjects_ok (db_blobs db) (db_subjects db)" using assms(1) by (simp add: db_inv_def)
  have "nb_subject r \<in> sb_subject ` set (filter (\<lambda>r. \<not> ?P r) (db_subjects db))"
    if r: "r \<in> set (db_blobs db)" "alive r = 1" for r
  proof -
    obtain sr where sr: "sr \<in> set (db_subjects db)" "sb_subject sr = nb_subject r"
      using so r by (force simp: subjects_ok_def)
    then have "sb_objects sr = tot (of_subject (sb_subject sr) alive) (db_blobs db)"
      using so by (auto simp: subjects_ok_def subject_counts_def)
    moreover have nn: "0 \<le> of_subject (sb_subject sr) alive x" for x
      using alive_range [of x] by (auto simp: of_subject_def)
    moreover have "of_subject (sb_subject sr) alive r = 1" using r sr by (simp add: of_subject_def)
    ultimately have "sb_objects sr \<noteq> 0"
      using tot_zero_iff [of "db_blobs db" "of_subject (sb_subject sr) alive"] r(1) by force
    then show ?thesis using sr by (metis (mono_tags, lifting) filter_set image_eqI mem_Collect_eq set_filter)
  qed
  then have "subjects_ok (db_blobs db) (filter (\<lambda>r. \<not> ?P r) (db_subjects db))"
    using so by (auto simp: subjects_ok_def distinct_map_filter)
  then show "db_inv sha256 db'" using assms(1) by (auto simp: db' db_inv_def split: option.splits)
  show "db_blobs db' = db_blobs db" by (simp add: db')
qed

section \<open>Operations\<close>

lemma blobs_slots_distinct: "db_inv sha256 db \<Longrightarrow> distinct (map nb_slot (db_blobs db))"
  by (simp add: db_inv_def blobs_unique_def)

lemma subjects_distinct: "db_inv sha256 db \<Longrightarrow> distinct (map sb_subject (db_subjects db))"
  by (simp add: db_inv_def subjects_ok_def)

lemma publish_inv:
  assumes inv: "db_inv sha256 db" and co: "coherent sha256 db row" and len: "length (do_sha256 object) = 32"
    and pub: "publish sha256 row object now store guard db = Inr (row', db')"
  shows "db_inv sha256 db' \<and> row_ok sha256 row' \<and> replaces sha256 db db' row row' \<and> db_orphans db' = db_orphans db"
proof -
  let ?m = "br_metadata row" and ?a = "of_bool (br_anonymous row) :: int"
  from pub obtain t r u db1 db2 digest
    where st: "stage sha256 ?m (md_generation ?m) object now (md_binding ?m) = Inr t"
      and r: "r = int (md_reserved ?m)" and u: "u = int (md_bytes (tr_next t))"
      and row': "row' = row\<lparr>br_metadata := tr_next t\<rparr>" and dig: "md_digest (tr_next t) = Some digest"
      and d1: "stage_store store r u ?a db = Inr (Suc 0, db1)"
      and d2: "stage_subject (ub_subject (md_binding ?m)) r u ?a db1 = Inr (Suc 0, db2)"
      and d3: "stage_blob (ub_slot (md_binding (tr_next t))) (md_generation (tr_next t)) u (hex digest)
          (md_handle (tr_next t)) (tr_expected t) (br_process row) now (ub_subject (md_binding (tr_next t)))
          (ub_context (md_binding (tr_next t))) (ub_input (md_binding (tr_next t))) db2 = Inr (Suc 0, db')"
    by (auto simp: publish_def Let_def res_simps split: if_splits prod.splits)
  have step: "blob_step sha256 ?m t" by (rule do_stage [OF st len])
  note eff = blob_step_effect [OF step]
  have rok: "row_ok sha256 row" using co by (simp add: coherent_def)
  have ok': "row_ok sha256 row'"
    using rok row_step_ok(1) [OF rok step, of 0 "br_process row"] by (simp add: row' row_ok_def time_ok_def int_defs)
  obtain s where s: "db_store db = Some s"
    and d1': "db1 = db\<lparr>db_store := Some (s\<lparr>st_reserved := st_reserved s - r, st_used := st_used s + u,
              st_anonymous_reserved := st_anonymous_reserved s - r * ?a,
              st_anonymous_used := st_anonymous_used s + u * ?a, st_serial := st_serial s + 1\<rparr>)\<rparr>"
    using d1 by (auto simp: stage_store_def update_store_one)
  obtain as sr bs where subs: "db_subjects db = as @ sr # bs" "sb_subject sr = ub_subject (md_binding ?m)"
    and d2': "db2 = db1\<lparr>db_subjects := as @ (sr\<lparr>sb_reserved := sb_reserved sr - r, sb_used := sb_used sr + u\<rparr>) # bs\<rparr>"
  proof -
    let ?P = "\<lambda>r'. sb_subject r' = ub_subject (md_binding ?m) \<and> sb_anonymous r' = ?a \<and> sb_reserved r' \<ge> r
        \<and> sb_objects r' > 0 \<and> sb_used r' \<le> I64_LIMIT - u"
    have one: "length (filter ?P (db_subjects db)) = 1"
      and db2: "db2 = db1\<lparr>db_subjects := map (\<lambda>r'. if ?P r' then r'\<lparr>sb_reserved := sb_reserved r' - r, sb_used := sb_used r' + u\<rparr> else r') (db_subjects db)\<rparr>"
      using d2 by (simp_all add: stage_subject_def update_subjects_Inr d1')
    show thesis
      by (rule update_one [OF subjects_distinct [OF inv] _ one, of "ub_subject (md_binding ?m)" "\<lambda>r'. r'\<lparr>sb_reserved := sb_reserved r' - r, sb_used := sb_used r' + u\<rparr>"])
        (use that db2 in auto)
  qed
  obtain xs ys where bl: "db_blobs db = xs @ to_nx row # ys" and d3': "db' = db2\<lparr>db_blobs := xs @ to_nx row' # ys\<rparr>"
    and uq: "blobs_unique (xs @ to_nx row' # ys)"
  proof -
    let ?P = "\<lambda>q. nb_slot q = row_slot row \<and> nb_state q = ''uploading'' \<and> nb_generation q = md_generation ?m
        \<and> nb_owner_process q = br_process row \<and> nb_expires_ms q > now \<and> nb_subject q = ub_subject (md_binding ?m)
        \<and> nb_context q = ub_context (md_binding ?m) \<and> nb_input q = ub_input (md_binding ?m)"
    let ?f = "\<lambda>q. q\<lparr>nb_state := ''staged'', nb_generation := md_generation (tr_next t), nb_reserved_bytes := 0,
        nb_actual_bytes := u, nb_sha256 := hex digest, nb_upload_handle := md_handle (tr_next t)\<rparr>"
    have b: "md_binding (tr_next t) = md_binding ?m" using eff(3) by (simp add: same_identity_def)
    have one: "length (filter ?P (db_blobs db)) = 1" "blobs_unique (map (\<lambda>q. if ?P q then ?f q else q) (db_blobs db))"
      and db': "db' = db2\<lparr>db_blobs := map (\<lambda>q. if ?P q then ?f q else q) (db_blobs db)\<rparr>"
      using d3 eff(1) by (simp_all add: stage_blob_def update_blobs_Inr d1' d2' b row_slot_def)
    obtain xs q ys where q: "db_blobs db = xs @ q # ys" "?P q" "map (\<lambda>q. if ?P q then ?f q else q) (db_blobs db) = xs @ ?f q # ys"
      by (rule update_one [OF blobs_slots_distinct [OF inv] _ one(1), of "row_slot row" ?f]) auto
    have "q = to_nx row" using q(1,2) by (intro coherent_current [OF co inv]) auto
    moreover have "?f (to_nx row) = to_nx row'"
      using st dig by (auto simp: row' stage_def res_simps to_nx_def Let_def u split: if_splits)
    ultimately show thesis using that q one(2) db' by simp
  qed
  have al: "alive (to_nx row) = 1" "alive (to_nx row') = 1" "md_reserved (tr_next t) = 0" "md_bytes ?m = 0"
    using st by (auto simp: alive_to_nx live_def row' stage_def res_simps split: if_splits)
  have b: "md_binding (tr_next t) = md_binding ?m" using eff(3) by (simp add: same_identity_def)
  have "db_inv sha256 (db\<lparr>db_store := Some (s\<lparr>st_reserved := st_reserved s - r, st_used := st_used s + u,
              st_anonymous_reserved := st_anonymous_reserved s - r * ?a,
              st_anonymous_used := st_anonymous_used s + u * ?a, st_serial := st_serial s + 1\<rparr>),
      db_subjects := as @ (sr\<lparr>sb_reserved := sb_reserved sr - r, sb_used := sb_used sr + u\<rparr>) # bs,
      db_blobs := xs @ to_nx row' # ys\<rparr>)"
    by (rule charged_inv [OF inv bl al(1) s subs(1)])
      (use ok' subs(2) uq al r u in \<open>auto simp: row' b algebra_simps\<close>)
  then have "db_inv sha256 db'" by (simp add: d3' d2' d1')
  moreover have "replaces sha256 db db' row row'"
    using bl eff(2) b step by (auto simp: replaces_def d3' row' row_slot_def)
  ultimately show ?thesis using ok' by (simp add: d3' d2' d1')
qed

text \<open>A fenced update of one row that keeps its charge.\<close>

lemma fenced_neutral_inv:
  assumes inv: "db_inv sha256 db" and co: "coherent sha256 db row" and ok': "row_ok sha256 row'"
    and upd: "update_blobs P f db = Inr (Suc 0, db')"
    and P: "\<And>r. P r \<Longrightarrow> nb_slot r = row_slot row \<and> nb_generation r = md_generation (br_metadata row)"
    and f: "f (to_nx row) = to_nx row'" and ch: "same_charge (to_nx row) (to_nx row')"
    and s: "row_slot row' = row_slot row" and g: "md_generation (br_metadata row') = md_generation (br_metadata row) + 1"
    and st: "blob_step sha256 (br_metadata row) t" "br_metadata row' = tr_next t"
  shows "db_inv sha256 db' \<and> row_ok sha256 row' \<and> replaces sha256 db db' row row' \<and> db_orphans db' = db_orphans db"
proof -
  have one: "length (filter P (db_blobs db)) = 1" "blobs_unique (map (\<lambda>q. if P q then f q else q) (db_blobs db))"
    and db': "db' = db\<lparr>db_blobs := map (\<lambda>q. if P q then f q else q) (db_blobs db)\<rparr>"
    using upd by (simp_all add: update_blobs_Inr)
  obtain xs q ys where q: "db_blobs db = xs @ q # ys" "P q" "map (\<lambda>q. if P q then f q else q) (db_blobs db) = xs @ f q # ys"
    by (rule update_one [OF blobs_slots_distinct [OF inv] _ one(1), of "row_slot row" f]) (use P in auto)
  have cur: "r = to_nx row" if "P r" "r \<in> set (db_blobs db)" for r
    using coherent_current [OF co inv that(2)] P [OF that(1)] by blast
  have "q = to_nx row" using q cur by auto
  then have q': "db_blobs db = xs @ to_nx row # ys" "db_blobs db' = xs @ to_nx row' # ys"
    using q f by (simp_all add: db')
  have "db_inv sha256 db'"
    unfolding db'
  proof (rule neutral_inv [OF inv])
    show "same_charge r (if P r then f r else r)" if "r \<in> set (db_blobs db)" for r
      using cur [OF _ that] ch f by (auto simp: same_charge_def)
    show "rows_ok sha256 (map (\<lambda>q. if P q then f q else q) (db_blobs db))"
      using inv ok' q' by (auto simp: db' db_inv_def rows_ok_def)
    show "blobs_unique (map (\<lambda>q. if P q then f q else q) (db_blobs db))" by (rule one(2))
  qed
  then show ?thesis using ok' q' s g st by (auto simp: replaces_def db')
qed

lemma persist_claim_inv:
  assumes inv: "db_inv sha256 db" and co: "coherent sha256 db row" and step: "blob_step sha256 (br_metadata row) t"
    and t: "tr_next t = (br_metadata row)\<lparr>md_generation := md_generation (br_metadata row) + 1, md_state := Deleting\<rparr>"
    and now: "time_ok now" and pr: "is_ok (object_key_parse process)"
    and pc: "persist_claim row t process now db = Inr (row', db')"
  shows "db_inv sha256 db' \<and> row_ok sha256 row' \<and> replaces sha256 db db' row row' \<and> db_orphans db' = db_orphans db"
proof -
  note eff = blob_step_effect [OF step]
  have upd: "claim_for_deletion (row_slot row) (md_generation (tr_next t)) now process
        (state_text (md_state (br_metadata row))) (tr_expected t) (br_process row) db = Inr (Suc 0, db')"
    and row': "row' = row\<lparr>br_metadata := tr_next t, br_claimed := now, br_process := process\<rparr>"
    using pc by (auto simp: persist_claim_def Let_def res_simps row_slot_def split: if_splits prod.splits)
  have rok: "row_ok sha256 row" using co by (simp add: coherent_def)
  have "md_state (br_metadata row) \<noteq> Deleted" using eff(4) edge_from_Deleted by metis
  then have al: "alive (to_nx row') = alive (to_nx row)" by (simp add: alive_to_nx live_def row' t)
  show ?thesis
  proof (rule fenced_neutral_inv [OF inv co _ upd [unfolded claim_for_deletion_def] _ _ _ _ _ step])
    show "row_ok sha256 row'" unfolding row' by (rule row_step_ok(2) [OF rok step now pr])
    show "same_charge (to_nx row) (to_nx row')" using al by (simp add: same_charge_def row' t)
  qed (use eff in \<open>auto simp: row' t to_nx_def Let_def row_slot_def\<close>)
qed

lemma claim_collectable_inv:
  assumes "db_inv sha256 db" and "coherent sha256 db row" and "time_ok now" and "is_ok (object_key_parse process)"
    and "claim_collectable row process now db = Inr ((row', c), db')"
  shows "db_inv sha256 db' \<and> row_ok sha256 row' \<and> replaces sha256 db db' row row' \<and> db_orphans db' = db_orphans db"
proof -
  obtain t where t: "claim (br_metadata row) (md_generation (br_metadata row)) now = Inr (t, c)"
    and pc: "persist_claim row t process now db = Inr (row', db')"
    using assms(5) by (auto simp: claim_collectable_def res_simps split: prod.splits)
  have "tr_next t = (br_metadata row)\<lparr>md_generation := md_generation (br_metadata row) + 1, md_state := Deleting\<rparr>"
    using t by (auto simp: claim_def with_claim_def res_simps split: if_splits)
  from persist_claim_inv [OF assms(1,2) do_claim [OF t] this assms(3,4) pc] show ?thesis .
qed

lemma claim_stopped_inv:
  assumes "db_inv sha256 db" and "coherent sha256 db row" and "time_ok now"
    and "claim_stopped row process now stopped db = Inr ((row', c), db')"
  shows "db_inv sha256 db' \<and> row_ok sha256 row' \<and> replaces sha256 db db' row row' \<and> db_orphans db' = db_orphans db"
proof -
  obtain t where t: "claim_stopped_upload (br_metadata row) (md_generation (br_metadata row)) now stopped = Inr (t, c)"
    and pc: "persist_claim row t process now db = Inr (row', db')" and pr: "br_process row = process"
    using assms(4) by (auto simp: claim_stopped_def res_simps split: prod.splits if_splits)
  have "is_ok (object_key_parse process)" using assms(2) pr by (auto simp: coherent_def row_ok_def)
  moreover have "tr_next t = (br_metadata row)\<lparr>md_generation := md_generation (br_metadata row) + 1, md_state := Deleting\<rparr>"
    using t by (auto simp: claim_stopped_upload_def with_claim_def res_simps split: if_splits)
  ultimately show ?thesis using persist_claim_inv [OF assms(1,2) do_claim_stopped [OF t] _ assms(3) _ pc] by blast
qed

lemma recover_upload_inv:
  assumes "db_inv sha256 db" and "coherent sha256 db row" and "time_ok now"
    and "is_ok (object_key_parse (pf_process fence))"
    and "recover_upload row fence now db = Inr ((row', c), db')"
  shows "db_inv sha256 db' \<and> row_ok sha256 row' \<and> replaces sha256 db db' row row' \<and> db_orphans db' = db_orphans db"
proof -
  obtain t where t: "recover_prior_upload (br_metadata row) = Inr (t, c)"
    and pc: "persist_claim row t (pf_process fence) now db = Inr (row', db')"
    using assms(5) by (auto simp: recover_upload_def res_simps split: prod.splits if_splits)
  have "tr_next t = (br_metadata row)\<lparr>md_generation := md_generation (br_metadata row) + 1, md_state := Deleting\<rparr>"
    using t by (auto simp: recover_prior_upload_def with_claim_def res_simps split: if_splits)
  from persist_claim_inv [OF assms(1,2) do_recover [OF t] this assms(3,4) pc] show ?thesis .
qed

lemma resume_delete_inv:
  assumes "db_inv sha256 db" and "coherent sha256 db row" and "time_ok now"
    and "is_ok (object_key_parse (pf_process fence))"
    and "resume_delete row fence now stopped db = Inr ((row', c), db')"
  shows "db_inv sha256 db' \<and> row_ok sha256 row' \<and> replaces sha256 db db' row row' \<and> db_orphans db' = db_orphans db"
proof -
  obtain t where t: "resume_deletion (br_metadata row) = Inr (t, c)"
    and pc: "persist_claim row t (pf_process fence) now db = Inr (row', db')"
    using assms(5) by (auto simp: resume_delete_def res_simps split: prod.splits if_splits)
  have "tr_next t = (br_metadata row)\<lparr>md_generation := md_generation (br_metadata row) + 1, md_state := Deleting\<rparr>"
    using t by (auto simp: resume_deletion_def with_claim_def res_simps split: if_splits)
  from persist_claim_inv [OF assms(1,2) do_resume [OF t] this assms(3,4) pc] show ?thesis .
qed

lemma associate_inv:
  assumes inv: "db_inv sha256 db" and co: "coherent sha256 db row" and a: "association_ok a"
    and as: "associate row a now db = Inr (blob, db')"
  shows "\<exists>row'. db_inv sha256 db' \<and> row_ok sha256 row' \<and> replaces sha256 db db' row row' \<and> db_orphans db' = db_orphans db
    \<and> blob = md_blob (br_metadata row) \<and> md_association (br_metadata row') = Some a"
proof -
  let ?m = "br_metadata row"
  obtain t where t: "attach ?m (md_generation ?m) now (md_binding ?m) (md_handle ?m) a = Inr t" and bl: "blob = md_blob ?m"
    and upd: "attach_blob (row_slot row) (md_generation (tr_next t)) (as_resource a) (as_id a)
        (as_incarnation a) (as_field a) (tr_expected t) (md_handle ?m) db = Inr (Suc 0, db')"
    using as by (auto simp: associate_def Let_def res_simps row_slot_def split: if_splits prod.splits)
  have step: "blob_step sha256 ?m t" by (rule do_attach [OF t a])
  note eff = blob_step_effect [OF step]
  define row' where "row' = row\<lparr>br_metadata := tr_next t\<rparr>"
  have rok: "row_ok sha256 row" using co by (simp add: coherent_def)
  have t': "tr_next t = ?m\<lparr>md_generation := md_generation ?m + 1, md_state := Attached, md_association := Some a\<rparr>"
    "md_state ?m = Staged" "md_association ?m = None"
    using t by (auto simp: attach_def res_simps split: if_splits)
  have "db_inv sha256 db' \<and> row_ok sha256 row' \<and> replaces sha256 db db' row row' \<and> db_orphans db' = db_orphans db"
  proof (rule fenced_neutral_inv [OF inv co _ upd [unfolded attach_blob_def] _ _ _ _ _ step])
    show "row_ok sha256 row'"
      using row_step_ok(1) [OF rok step, of 0 "br_process row"] rok by (simp add: row'_def row_ok_def time_ok_def int_defs)
    show "same_charge (to_nx row) (to_nx row')"
      using t' by (simp add: same_charge_def row'_def alive_to_nx live_def)
  qed (use eff t' in \<open>auto simp: row'_def to_nx_def Let_def row_slot_def\<close>)
  then show ?thesis using bl t'(1) by (auto simp: row'_def)
qed

lemma finish_deletion_inv:
  assumes inv: "db_inv sha256 db" and co: "coherent sha256 db row" and now: "time_ok now"
    and fin: "finish_deletion row c store now db = Inr (row', db')"
  shows "db_inv sha256 db' \<and> row_ok sha256 row' \<and> replaces sha256 db db' row row' \<and> db_orphans db' = db_orphans db"
proof -
  let ?m = "br_metadata row" and ?a = "of_bool (br_anonymous row) :: int"
  from fin obtain t r u db1 db2 db3 n
    where del: "deleted ?m c = Inr t"
      and r: "r = int (md_reserved ?m)" and u: "u = int (md_bytes ?m)"
      and row': "row' = row\<lparr>br_metadata := tr_next t, br_claimed := now\<rparr>"
      and d1: "release_store store r u ?a db = Inr (Suc 0, db1)"
      and d2: "release_subject (ub_subject (md_binding ?m)) r u ?a db1 = Inr (Suc 0, db2)"
      and d3: "mark_deleted (ub_slot (md_binding ?m)) (md_generation (tr_next t)) now (tr_expected t) (br_process row) db2
          = Inr (Suc 0, db3)"
      and d4: "delete_empty_subject (ub_subject (md_binding ?m)) db3 = Inr (n, db')"
    by (auto simp: finish_deletion_def number_def Let_def res_simps split: if_splits prod.splits)
  have step: "blob_step sha256 ?m t" by (rule do_deleted [OF del])
  note eff = blob_step_effect [OF step]
  have rok: "row_ok sha256 row" using co by (simp add: coherent_def)
  have ok': "row_ok sha256 row'"
    unfolding row' using row_step_ok(3) [OF rok step now, of "br_process row"] rok by (simp add: row_ok_def)
  obtain s where s: "db_store db = Some s"
    and d1': "db1 = db\<lparr>db_store := Some (s\<lparr>st_reserved := st_reserved s - r, st_used := st_used s - u,
              st_objects := st_objects s - 1, st_anonymous_reserved := st_anonymous_reserved s - r * ?a,
              st_anonymous_used := st_anonymous_used s - u * ?a, st_serial := st_serial s + 1\<rparr>)\<rparr>"
    using d1 by (auto simp: release_store_def update_store_one)
  obtain as sr bs where subs: "db_subjects db = as @ sr # bs" "sb_subject sr = ub_subject (md_binding ?m)"
    and d2': "db2 = db1\<lparr>db_subjects := as @ (sr\<lparr>sb_reserved := sb_reserved sr - r, sb_used := sb_used sr - u,
        sb_objects := sb_objects sr - 1\<rparr>) # bs\<rparr>"
  proof -
    let ?P = "\<lambda>r'. sb_subject r' = ub_subject (md_binding ?m) \<and> sb_anonymous r' = ?a \<and> sb_reserved r' \<ge> r
        \<and> sb_used r' \<ge> u \<and> sb_objects r' > 0"
    let ?f = "\<lambda>r'. r'\<lparr>sb_reserved := sb_reserved r' - r, sb_used := sb_used r' - u, sb_objects := sb_objects r' - 1\<rparr>"
    have one: "length (filter ?P (db_subjects db)) = 1"
      and db2: "db2 = db1\<lparr>db_subjects := map (\<lambda>r'. if ?P r' then ?f r' else r') (db_subjects db)\<rparr>"
      using d2 by (simp_all add: release_subject_def update_subjects_Inr d1')
    show thesis
      by (rule update_one [OF subjects_distinct [OF inv] _ one, of "ub_subject (md_binding ?m)" ?f])
        (use that db2 in auto)
  qed
  obtain xs ys where bl: "db_blobs db = xs @ to_nx row # ys" and d3': "db3 = db2\<lparr>db_blobs := xs @ to_nx row' # ys\<rparr>"
    and uq: "blobs_unique (xs @ to_nx row' # ys)"
  proof -
    let ?P = "\<lambda>q. nb_slot q = row_slot row \<and> nb_state q = ''deleting'' \<and> nb_generation q = md_generation ?m
        \<and> nb_owner_process q = br_process row"
    let ?f = "\<lambda>q. q\<lparr>nb_state := ''deleted'', nb_generation := md_generation (tr_next t), nb_reserved_bytes := 0,
        nb_actual_bytes := 0, nb_claimed_ms := now\<rparr>"
    have one: "length (filter ?P (db_blobs db)) = 1" "blobs_unique (map (\<lambda>q. if ?P q then ?f q else q) (db_blobs db))"
      and db': "db3 = db2\<lparr>db_blobs := map (\<lambda>q. if ?P q then ?f q else q) (db_blobs db)\<rparr>"
      using d3 eff(1) by (simp_all add: mark_deleted_def update_blobs_Inr d1' d2' row_slot_def)
    obtain xs q ys where q: "db_blobs db = xs @ q # ys" "?P q" "map (\<lambda>q. if ?P q then ?f q else q) (db_blobs db) = xs @ ?f q # ys"
      by (rule update_one [OF blobs_slots_distinct [OF inv] _ one(1), of "row_slot row" ?f]) auto
    have "q = to_nx row" using q(1,2) by (intro coherent_current [OF co inv]) auto
    moreover have "?f (to_nx row) = to_nx row'"
      using del by (auto simp: row' deleted_def res_simps to_nx_def Let_def split: if_splits)
    ultimately show thesis using that q one(2) db' by simp
  qed
  have t: "tr_next t = ?m\<lparr>md_generation := md_generation ?m + 1, md_state := Deleted, md_reserved := 0, md_bytes := 0\<rparr>"
    "md_state ?m = Deleting"
    using del by (auto simp: deleted_def res_simps split: if_splits)
  have al: "alive (to_nx row) = 1" "alive (to_nx row') = 0"
    using t by (auto simp: alive_to_nx live_def row')
  have "db_inv sha256 (db\<lparr>db_store := Some (s\<lparr>st_reserved := st_reserved s - r, st_used := st_used s - u,
              st_objects := st_objects s - 1, st_anonymous_reserved := st_anonymous_reserved s - r * ?a,
              st_anonymous_used := st_anonymous_used s - u * ?a, st_serial := st_serial s + 1\<rparr>),
      db_subjects := as @ (sr\<lparr>sb_reserved := sb_reserved sr - r, sb_used := sb_used sr - u,
        sb_objects := sb_objects sr - 1\<rparr>) # bs,
      db_blobs := xs @ to_nx row' # ys\<rparr>)"
    by (rule charged_inv [OF inv bl al(1) s subs(1)])
      (use ok' subs(2) uq al r u t in \<open>auto simp: row' algebra_simps\<close>)
  then have inv3: "db_inv sha256 db3" by (simp add: d3' d2' d1')
  note E = delete_empty_subject_inv [OF inv3 d4]
  have "db_orphans db' = db_orphans db3" using d4 by (auto simp: delete_empty_subject_def Let_def)
  moreover have "replaces sha256 db db' row row'"
    using bl t(1) E(2) step by (auto simp: replaces_def d3' row' row_slot_def)
  ultimately show ?thesis using ok' E(1) by (simp add: d3' d2' d1')
qed

lemma detach_select_slots:
  assumes "detach_select expected seen rows = Inr sel"
  shows "sel = map (\<lambda>r. (nb_slot r, nb_generation r)) rows" and "\<And>r. r \<in> set rows \<Longrightarrow> nb_generation r < I64_LIMIT"
  using assms
  by (induction expected seen rows arbitrary: sel rule: detach_select.induct)
    (auto simp: res_simps generation_parse_def split: if_splits)

lemma detach_resource_inv:
  assumes inv: "db_inv sha256 db" and det: "detach_resource resource rid inc expected db = Inr (v, db')"
  shows "db_inv sha256 db' \<and> db_orphans db' = db_orphans db"
    and "coherent sha256 db q \<Longrightarrow> coherent sha256 db' q"
proof -
  let ?own = "\<lambda>r. nb_state r = ''attached'' \<and> nb_owner_resource r = resource \<and> nb_owner_id r = rid
                 \<and> nb_owner_incarnation r = inc"
  define rows where "rows = take (length expected + 1) (sort_key (\<lambda>r. map (of_char :: char \<Rightarrow> nat) (nb_slot r))
              (filter ?own (db_blobs db)))"
  obtain sel where sel: "detach_select expected [] rows = Inr sel"
    and or: "sel = [] \<and> db' = db \<or> (\<exists>n. unreference_blobs resource rid inc sel db = Inr (n, db'))"
    using det by (auto simp: detach_resource_def rows_def Let_def res_simps split: if_splits prod.splits)
  note S = detach_select_slots [OF sel]
  have "(db_inv sha256 db' \<and> db_orphans db' = db_orphans db) \<and> (coherent sha256 db q \<longrightarrow> coherent sha256 db' q)"
  proof (cases "\<exists>n. unreference_blobs resource rid inc sel db = Inr (n, db')")
    case False
    then show ?thesis using or inv by auto
  next
    case True
    let ?P = "\<lambda>r. nb_state r = ''attached'' \<and> nb_owner_resource r = resource \<and> nb_owner_id r = rid
          \<and> nb_owner_incarnation r = inc
          \<and> list_ex (\<lambda>(slot, generation). nb_slot r = slot \<and> nb_generation r = generation) sel"
    let ?f = "\<lambda>r. r\<lparr>nb_state := ''unreferenced'', nb_generation := nb_generation r + 1\<rparr>"
    let ?g = "\<lambda>r. if ?P r then ?f r else r"
    have db': "db' = db\<lparr>db_blobs := map ?g (db_blobs db)\<rparr>" and uq: "blobs_unique (map ?g (db_blobs db))"
      using True by (auto simp: unreference_blobs_def update_blobs_Inr)
    have next_ok: "\<exists>row'. row_ok sha256 row' \<and> ?f r = to_nx row'" if r: "r \<in> set (db_blobs db)" "?P r" for r
    proof -
      obtain row where row: "row_ok sha256 row" "r = to_nx row" using inv r(1) by (auto simp: db_inv_def rows_ok_def)
      have g: "nb_generation r < I64_LIMIT" using r(2) S by (auto simp: list_ex_iff)
      have m: "md_state (br_metadata row) = Attached"
        using r(2) row(2) state_text_inj [of _ Attached] by simp
      obtain a where a: "md_association (br_metadata row) = Some a"
        using row(1) m by (auto simp: row_ok_def metadata_ok_def shape_check_simp)
      have gpos: "0 < md_generation (br_metadata row)" using row(1) by (simp add: row_ok_def metadata_ok_def)
      define t where "t = \<lparr>tr_expected = md_generation (br_metadata row), tr_next = (br_metadata row)
          \<lparr>md_generation := md_generation (br_metadata row) + 1, md_state := Unreferenced\<rparr>, tr_quota = no_delta\<rparr>"
      have "unreference (br_metadata row) (md_generation (br_metadata row)) a = Inr t"
        using m a g gpos row(2) by (simp add: unreference_def candidate_Inr t_def in_i64_def int_defs I64_LIMIT_def)
      then have step: "blob_step sha256 (br_metadata row) t" by (rule do_unreference)
      have "row_ok sha256 (row\<lparr>br_metadata := tr_next t\<rparr>)"
        using row_step_ok(1) [OF row(1) step, of 0 "br_process row"] row(1) by (simp add: row_ok_def time_ok_def int_defs)
      moreover have "?f r = to_nx (row\<lparr>br_metadata := tr_next t\<rparr>)" by (simp add: row(2) t_def to_nx_def Let_def)
      ultimately show ?thesis by blast
    qed
    have "db_inv sha256 db'"
      unfolding db'
    proof (rule neutral_inv [OF inv])
      show "same_charge r (?g r)" for r by (simp add: same_charge_def alive_def)
      show "rows_ok sha256 (map ?g (db_blobs db))"
        using inv next_ok by (auto simp: db_inv_def rows_ok_def)
    qed (rule uq)
    moreover have "coherent sha256 db' q" if "coherent sha256 db q"
    proof -
      from that obtain r where r: "r \<in> set (db_blobs db)" "nb_slot r = row_slot q" "row_ok sha256 q"
        "md_generation (br_metadata q) \<le> nb_generation r" "nb_generation r = md_generation (br_metadata q) \<longrightarrow> r = to_nx q"
        by (auto simp: coherent_def)
      have "?g r \<in> set (db_blobs db')" using r(1) by (simp add: db')
      then show ?thesis unfolding coherent_def using r by (intro conjI bexI [of _ "?g r"]) auto
    qed
    ultimately show ?thesis by (simp add: db')
  qed
  then show "db_inv sha256 db' \<and> db_orphans db' = db_orphans db" and "coherent sha256 db q \<Longrightarrow> coherent sha256 db' q"
    by blast+
qed

lemma current_coherent:
  assumes "row_ok sha256 row" and "to_nx row \<in> set (db_blobs db)"
  shows "coherent sha256 db row"
  unfolding coherent_def using assms by (intro conjI bexI [of _ "to_nx row"]) auto

lemma load_Some:
  assumes "load sha256 ident v db = Inr (Some row)"
  shows "row_ok sha256 row" and "to_nx row \<in> set (db_blobs db)" and "key_column ident (to_nx row) = v"
proof -
  obtain r where f: "filter (\<lambda>r. key_column ident r = v) (db_blobs db) = [r]" and p: "read_row sha256 r = Inr row"
    using assms by (auto simp: load_def read_row_def res_simps split: list.splits)
  have "r \<in> set (db_blobs db)" "key_column ident r = v"
    using f by (metis (mono_tags, lifting) filter_set list.set_intros(1) mem_Collect_eq set_filter)+
  then show "row_ok sha256 row" "to_nx row \<in> set (db_blobs db)" "key_column ident (to_nx row) = v"
    using p by (simp_all add: read_row_iff)
qed

lemma load_None: "load sha256 ident v db = Inr None \<Longrightarrow> r \<in> set (db_blobs db) \<Longrightarrow> key_column ident r \<noteq> v"
  by (auto simp: load_def res_simps filter_empty_conv split: list.splits)

text \<open>What the types of a reservation guarantee: parsed commitments, keys, names and instants.\<close>

definition reservation_ok :: "reservation \<Rightarrow> bool" where
  "reservation_ok q \<longleftrightarrow> binding_ok (rv_binding q) \<and> attachment_name (rv_filename q) \<and> time_ok (rv_now q)
     \<and> is_ok (object_key_parse (rv_process q))"

lemma append_inv:
  assumes inv: "db_inv sha256 db" and store: "db_store db = Some s" and row: "row_ok sha256 row"
    and uq: "blobs_unique (db_blobs db @ [to_nx row])" and al: "alive (to_nx row) = 1"
    and s': "store_counts (db_blobs db @ [to_nx row]) (db_orphans db) s'"
    and subs: "subjects_ok (db_blobs db @ [to_nx row]) subs"
  shows "db_inv sha256 (db\<lparr>db_store := Some s', db_subjects := subs, db_blobs := db_blobs db @ [to_nx row]\<rparr>)"
  using assms by (auto simp: db_inv_def rows_ok_def)

lemma reserve_subject_inv:
  assumes inv: "db_inv sha256 db" and so: "db_subjects db0 = db_subjects db"
    and rs: "reserve_subject (nb_subject r) (nb_anonymous r) (nb_reserved_bytes r) cap db0 = Inr (Suc 0, db1)"
    and r: "alive r = 1" "nb_actual_bytes r = 0"
  shows "subjects_ok (db_blobs db @ [r]) (db_subjects db1)" and "db1 = db0\<lparr>db_subjects := db_subjects db1\<rparr>"
proof -
  let ?x = "nb_subject r" and ?bs = "db_blobs db"
  have old: "subjects_ok ?bs (db_subjects db)" using inv by (simp add: db_inv_def)
  have other: "subject_counts (?bs @ [r]) q" if "q \<in> set (db_subjects db)" "sb_subject q \<noteq> ?x" for q
    using old that by (auto simp: subjects_ok_def subject_counts_def of_subject_def)
  have "subjects_ok (?bs @ [r]) (db_subjects db1) \<and> db1 = db0\<lparr>db_subjects := db_subjects db1\<rparr>"
  proof (cases "list_ex (\<lambda>q. sb_subject q = ?x) (db_subjects db)")
    case True
    let ?P = "\<lambda>q. sb_subject q = ?x \<and> sb_anonymous q = nb_anonymous r \<and> sb_objects q < 65536
           \<and> (nb_anonymous r = 0 \<or> sb_reserved q \<le> cap - sb_used q - nb_reserved_bytes r)"
    let ?f = "\<lambda>q. q\<lparr>sb_reserved := sb_reserved q + nb_reserved_bytes r, sb_objects := sb_objects q + 1\<rparr>"
    have one: "length (filter ?P (db_subjects db)) = 1"
      and db1: "db1 = db0\<lparr>db_subjects := map (\<lambda>q. if ?P q then ?f q else q) (db_subjects db)\<rparr>"
      using rs True so by (simp_all add: reserve_subject_def update_subjects_Inr)
    obtain as q bs where q: "db_subjects db = as @ q # bs" "?P q"
        "map (\<lambda>q. if ?P q then ?f q else q) (db_subjects db) = as @ ?f q # bs"
      and ns: "?x \<notin> sb_subject ` set as" "?x \<notin> sb_subject ` set bs"
      by (rule update_one [OF subjects_distinct [OF inv] _ one, of ?x ?f]) auto
    have "subject_counts ?bs q" using old q(1) by (simp add: subjects_ok_def)
    then have "subject_counts (?bs @ [r]) (?f q)"
      using q(2) r by (auto simp: subject_counts_def of_subject_def)
    moreover have "subject_counts (?bs @ [r]) p" if "p \<in> set as \<union> set bs" for p
    proof (rule other)
      show "p \<in> set (db_subjects db)" using that q(1) by auto
      show "sb_subject p \<noteq> ?x" using that ns by (metis UnE imageI)
    qed
    ultimately have "subjects_ok (?bs @ [r]) (as @ ?f q # bs)"
      using old q by (auto simp: subjects_ok_def)
    then show ?thesis using q(3) by (simp add: db1)
  next
    case False
    define n where "n = \<lparr>sb_subject = ?x, sb_anonymous = nb_anonymous r, sb_reserved = nb_reserved_bytes r, sb_used = 0, sb_objects = 1\<rparr>"
    have db1: "db1 = db0\<lparr>db_subjects := db_subjects db @ [n]\<rparr>"
      using rs False so by (auto simp: reserve_subject_def n_def Let_def split: if_splits)
    have dead: "alive q = 0" "nb_reserved_bytes q = 0" "nb_actual_bytes q = 0" if "q \<in> set ?bs" "nb_subject q = ?x" for q
    proof -
      have "nb_subject q \<notin> sb_subject ` set (db_subjects db)" using False that by (auto simp: list_ex_iff)
      then show "alive q = 0" using old that(1) alive_range [of q] unfolding subjects_ok_def by metis
      then show "nb_reserved_bytes q = 0" "nb_actual_bytes q = 0"
        using inv that dead_uncharged by (auto simp: db_inv_def rows_ok_def)
    qed
    have z: "tot (of_subject ?x f) ?bs = 0" if "\<And>q. q \<in> set ?bs \<Longrightarrow> nb_subject q = ?x \<Longrightarrow> f q = 0" for f
      using that tot_map [of ?bs "of_subject ?x f" "\<lambda>q. q" "\<lambda>_. 0"] by (auto simp: of_subject_def tot_def)
    have "subject_counts (?bs @ [r]) n"
      using r dead z [of nb_reserved_bytes] z [of nb_actual_bytes] z [of alive]
      by (auto simp: subject_counts_def n_def of_subject_def)
    moreover have "subject_counts (?bs @ [r]) p" if "p \<in> set (db_subjects db)" for p
      using that False by (intro other) (auto simp: list_ex_iff)
    moreover have "sb_subject n \<notin> sb_subject ` set (db_subjects db)" using False by (auto simp: n_def list_ex_iff)
    ultimately have "subjects_ok (?bs @ [r]) (db_subjects db @ [n])"
      using old by (auto simp: subjects_ok_def n_def)
    then show ?thesis by (simp add: db1)
  qed
  then show "subjects_ok (db_blobs db @ [r]) (db_subjects db1)" "db1 = db0\<lparr>db_subjects := db_subjects db1\<rparr>" by blast+
qed

lemma reserve_Created:
  assumes "reserve sha256 q rnd db = Inr (out, db')" and "\<And>row. out \<noteq> Existing row"
  obtains row limit anon dep cap db1 db2 a b c d
    where "out = Created row" and "validate_limits (rv_policy q) = Inr ()"
      and "1 \<le> rv_limit q" and "rv_limit q \<le> bl_file_bytes (bp_limits (rv_policy q))"
      and "limit = int (rv_limit q)" and "anon = int (if rv_capability q \<noteq> None then rv_limit q else 0)"
      and "reserve_store (rv_store q) limit anon (int (bl_app_bytes (bp_limits (rv_policy q)))) (int (bl_objects (bp_limits (rv_policy q))))
          (of_bool (rv_capability q \<noteq> None)) dep (ub_subject (rv_binding q)) a b db = Inr (Suc 0, db1)"
      and "reserve_subject (ub_subject (rv_binding q)) (of_bool (rv_capability q \<noteq> None)) limit cap db1 = Inr (Suc 0, db2)"
      and "row = reserved_row q (rnd_key rnd) (''b1_'' @ rnd_blob rnd) (''u1_'' @ rnd_handle rnd) (rv_now q + STAGE_LIFETIME_MILLIS)"
      and "is_ok (object_key_parse (rnd_key rnd))" and "is_ok (blob_ref_parse (''b1_'' @ rnd_blob rnd))"
      and "is_ok (upload_handle_parse (''u1_'' @ rnd_handle rnd))"
      and "time_ok (rv_now q + STAGE_LIFETIME_MILLIS)"
      and "insert_blob (inserted_row row limit) db2 = Inr (Suc 0, db')"
      and "\<And>r. r \<in> set (db_blobs db) \<Longrightarrow> nb_slot r \<noteq> ub_slot (rv_binding q)"
proof -
  have life: "duration_from_millis STAGE_LIFETIME_MILLIS = Inr STAGE_LIFETIME_MILLIS"
    by (simp add: duration_from_millis_def duration_try_from_def STAGE_LIFETIME_MILLIS_def)
  obtain ex where ld: "load sha256 BySlot (ub_slot (rv_binding q)) db = Inr ex"
    using assms(1) by (auto simp: reserve_def res_simps split: if_splits)
  have "ex = None"
    using assms ld by (auto simp: reserve_def res_simps split: if_splits option.splits)
  with ld have none: "load sha256 BySlot (ub_slot (rv_binding q)) db = Inr None" by simp
  have slots: "nb_slot r \<noteq> ub_slot (rv_binding q)" if "r \<in> set (db_blobs db)" for r
    using load_None [OF none that] by simp
  have t: "0 \<le> e \<Longrightarrow> in_i64 e \<Longrightarrow> time_ok e" for e by (simp add: time_ok_def in_i64_def)
  show thesis
    using assms(1) none
    by (auto simp: reserve_def res_simps Let_def number_def life is_ok_iff t reserved_row_def split: if_splits prod.splits
        intro!: that slots)
qed

lemma reserve_inv:
  assumes inv: "db_inv sha256 db" and q: "reservation_ok q"
    and rv: "reserve sha256 q rnd db = Inr (Created row, db')"
  shows "db_inv sha256 db'" and "row_ok sha256 row" and "db_blobs db' = db_blobs db @ [to_nx row]"
    and "db_orphans db' = []"
    and "\<exists>s. db_store db' = Some s \<and> st_reserved s + st_used s \<le> int (bl_app_bytes (bp_limits (rv_policy q)))
           \<and> st_objects s \<le> int (bl_objects (bp_limits (rv_policy q)))"
    and "limits_validate (bp_limits (rv_policy q)) = Inr ()"
proof -
  obtain limit anon dep cap db1 db2 a b where
    pol: "validate_limits (rv_policy q) = Inr ()" "1 \<le> rv_limit q" "rv_limit q \<le> bl_file_bytes (bp_limits (rv_policy q))"
    and lim: "limit = int (rv_limit q)" "anon = int (if rv_capability q \<noteq> None then rv_limit q else 0)"
    and d1: "reserve_store (rv_store q) limit anon (int (bl_app_bytes (bp_limits (rv_policy q)))) (int (bl_objects (bp_limits (rv_policy q))))
          (of_bool (rv_capability q \<noteq> None)) dep (ub_subject (rv_binding q)) a b db = Inr (Suc 0, db1)"
    and d2: "reserve_subject (ub_subject (rv_binding q)) (of_bool (rv_capability q \<noteq> None)) limit cap db1 = Inr (Suc 0, db2)"
    and row: "row = reserved_row q (rnd_key rnd) (''b1_'' @ rnd_blob rnd) (''u1_'' @ rnd_handle rnd) (rv_now q + STAGE_LIFETIME_MILLIS)"
    and ids: "is_ok (object_key_parse (rnd_key rnd))" "is_ok (blob_ref_parse (''b1_'' @ rnd_blob rnd))"
      "is_ok (upload_handle_parse (''u1_'' @ rnd_handle rnd))" "time_ok (rv_now q + STAGE_LIFETIME_MILLIS)"
    and d3: "insert_blob (inserted_row row limit) db2 = Inr (Suc 0, db')"
    by (rule reserve_Created [OF rv]) auto
  have lv: "limits_validate (bp_limits (rv_policy q)) = Inr ()" using pol(1) by (simp add: validate_limits_Inr)
  then show "limits_validate (bp_limits (rv_policy q)) = Inr ()" .
  have max: "rv_limit q \<le> MAX_UPLOAD_BYTES"
    using lv pol(3) by (auto simp: limits_validate_Inr limits_le_def limits_default_def)
  show ok: "row_ok sha256 row"
    using q pol(2) max ids
    by (auto simp: row reserved_row_def row_ok_def metadata_ok_def shape_check_def reservation_ok_def time_ok_def int_defs)
  have nx: "inserted_row row limit = to_nx row"
    by (simp add: row inserted_row_def reserved_row_def to_nx_def Let_def lim)
  have al: "alive (to_nx row) = 1" by (simp add: alive_to_nx live_def row reserved_row_def)
  obtain s where s: "db_store db = Some s" and g: "db_orphans db = []" "st_reserved s \<le> int (bl_app_bytes (bp_limits (rv_policy q))) - st_used s - limit"
      "st_objects s < int (bl_objects (bp_limits (rv_policy q)))"
    and d1': "db1 = db\<lparr>db_store := Some (s\<lparr>st_reserved := st_reserved s + limit, st_objects := st_objects s + 1,
        st_anonymous_reserved := st_anonymous_reserved s + anon, st_serial := st_serial s + 1\<rparr>)\<rparr>"
    using d1 by (auto simp: reserve_store_def update_store_one)
  let ?s' = "s\<lparr>st_reserved := st_reserved s + limit, st_objects := st_objects s + 1,
        st_anonymous_reserved := st_anonymous_reserved s + anon, st_serial := st_serial s + 1\<rparr>"
  have colr: "nb_subject (to_nx row) = ub_subject (rv_binding q)" "nb_anonymous (to_nx row) = of_bool (rv_capability q \<noteq> None)"
    "nb_reserved_bytes (to_nx row) = limit" "nb_actual_bytes (to_nx row) = 0"
    by (simp_all add: row reserved_row_def lim)
  have so: "subjects_ok (db_blobs db @ [to_nx row]) (db_subjects db2)" and d2': "db2 = db1\<lparr>db_subjects := db_subjects db2\<rparr>"
    using reserve_subject_inv [OF inv _ _ al colr(4), of db1 cap db2] d2 colr d1' by auto
  have bl2: "db_blobs db2 = db_blobs db" using d2' d1' by (metis blob_db.select_convs(3) blob_db.surjective blob_db.update_convs(1) blob_db.update_convs(2))
  have d3': "db' = db2\<lparr>db_blobs := db_blobs db @ [to_nx row]\<rparr>" and uq: "blobs_unique (db_blobs db @ [to_nx row])"
    using d3 bl2 by (auto simp: insert_blob_def nx Let_def split: if_splits)
  have cnt: "store_counts (db_blobs db @ [to_nx row]) (db_orphans db) ?s'"
    using inv s colr al lim by (auto simp: db_inv_def store_counts_def)
  have full: "db' = db\<lparr>db_store := Some ?s', db_subjects := db_subjects db2, db_blobs := db_blobs db @ [to_nx row]\<rparr>"
    unfolding d3' by (subst d2') (simp add: d1')
  show "db_inv sha256 db'" unfolding full by (rule append_inv [OF inv s ok uq al cnt so])
  show "db_blobs db' = db_blobs db @ [to_nx row]" "db_orphans db' = []" by (simp_all add: full g)
  show "\<exists>s. db_store db' = Some s \<and> st_reserved s + st_used s \<le> int (bl_app_bytes (bp_limits (rv_policy q)))
           \<and> st_objects s \<le> int (bl_objects (bp_limits (rv_policy q)))"
    using g by (simp add: full)
qed

lemma quarantine_inv:
  assumes inv: "db_inv sha256 db" and qu: "quarantine_unknown key bytes paths store process now db = Inr (v, db')"
  shows "db_inv sha256 db'" and "db_blobs db' = db_blobs db"
proof -
  obtain n db1 where i: "insert_orphan key now (int bytes) (int paths) process db = Inr (n, db1)"
    and rest: "n \<noteq> 1 \<and> db' = db1 \<or> n = 1 \<and> charge_orphan store (int bytes) (int paths) db1 = Inr (Suc 0, db')"
    using qu by (auto simp: quarantine_unknown_def number_def res_simps split: if_splits prod.splits)
  have "db_inv sha256 db' \<and> db_blobs db' = db_blobs db"
  proof (cases "n = 1")
    case False
    then have "db1 = db" using i by (auto simp: insert_orphan_def Let_def split: if_splits)
    then show ?thesis using False rest inv by simp
  next
    case True
    define o1 where "o1 = \<lparr>or_object_key = key, or_first_seen_ms = now, or_charged_bytes = int bytes, or_charged_objects = int paths,
                    or_owner_process = process\<rparr>"
    have db1: "db1 = db\<lparr>db_orphans := db_orphans db @ [o1]\<rparr>"
      using i True by (auto simp: insert_orphan_def Let_def o1_def split: if_splits)
    obtain s where s: "db_store db = Some s"
      and db': "db' = db1\<lparr>db_store := Some (s\<lparr>st_used := st_used s + int bytes, st_objects := st_objects s + int paths, st_serial := st_serial s + 1\<rparr>)\<rparr>"
      using rest True by (auto simp: charge_orphan_def update_store_one db1)
    show ?thesis using inv s by (auto simp: db_inv_def db' db1 store_counts_def o1_def)
  qed
  then show "db_inv sha256 db'" "db_blobs db' = db_blobs db" by blast+
qed

end
