(* ===== verification/Blob_Pairing.thy ===== *)
theory Blob_Pairing
  imports Blob_Accounting
begin

text \<open>
  \<^verbatim>\<open>crates/noxide-blobs/src/pairing.rs\<close> and the pairing operations of \<^verbatim>\<open>metadata.rs\<close>: a
  database and a file store become one deployment.  The database records a pending pair, the store
  installs a durable marker, the database acknowledges it; a crash may fall between any two system
  calls.  The marker files are the part of the file system that \<open>install_pair\<close> changes: what processes
  see, and what a crash may leave of it until it is synced.
\<close>

section \<open>Decisions\<close>

record pair_record =
  pr_store :: string
  pr_pair :: string
  pr_phase :: pair_phase
  pr_empty_metadata :: bool

record pair_observation =
  po_store :: string
  po_marker :: "string option"
  po_pending :: "bytes option"
  po_empty :: bool

datatype pair_step = CreatePending | InstallMarker string | Acknowledge string | Ready string

definition starts_with :: "bytes \<Rightarrow> bytes \<Rightarrow> bool" where
  "starts_with v p \<longleftrightarrow> take (length p) v = p"

definition decide :: "pair_observation \<Rightarrow> pair_record option \<Rightarrow> pair_step res" where
  "decide ob rec =
     (case rec of
        None \<Rightarrow>
          if po_marker ob = None \<and> po_pending ob = None \<and> po_empty ob then Inr CreatePending
          else Inl ''unpaired database cannot adopt an existing store''
      | Some r \<Rightarrow>
          if pr_store r \<noteq> po_store ob then Inl ''pair store identity mismatch''
          else (case pr_phase r of
            Paired \<Rightarrow>
              if po_pending ob = None \<and> po_marker ob = Some (pr_pair r) then Inr (Ready (pr_pair r))
              else Inl ''paired database lacks matching durable marker''
          | Pending \<Rightarrow>
              if \<not> (pr_empty_metadata r \<and> po_empty ob)
              then Inl ''pending database cannot adopt populated store or metadata''
              else (case po_marker ob of
                Some marker \<Rightarrow>
                  if marker = pr_pair r \<and> po_pending ob = None then Inr (Acknowledge (pr_pair r))
                  else Inl ''pending pair marker mismatch''
              | None \<Rightarrow>
                  (case po_pending ob of
                     Some b \<Rightarrow> if starts_with (pr_pair r) b then Inr (InstallMarker (pr_pair r))
                       else Inl ''partial pairing marker disagrees with pending database''
                   | None \<Rightarrow> Inr (InstallMarker (pr_pair r))))))"

section \<open>The record in the database\<close>

definition metadata_empty :: "blob_db \<Rightarrow> bool" where
  "metadata_empty db \<longleftrightarrow> db_blobs db = [] \<and> db_subjects db = [] \<and> db_orphans db = []"

definition read_pair_record :: "blob_db \<Rightarrow> pair_record option res" where
  "read_pair_record db =
     (case db_store db of
        None \<Rightarrow> Inr None
      | Some s \<Rightarrow>
          if \<not> (within (st_identity s) 64 \<and> within (st_pair_id s) 64) then Inl ''unexpected NULL column''
          else and_then (integer (show_int (st_serial s))) (\<lambda>serial.
          if \<not> serial > 0 then Inl ''invalid blob store serial''
          else and_then (unsigned (show_int (st_reserved s))) (\<lambda>reserved.
          and_then (unsigned (show_int (st_used s))) (\<lambda>used.
          and_then (unsigned (show_int (st_objects s))) (\<lambda>objects.
          and_then (unsigned (show_int (st_anonymous_reserved s))) (\<lambda>anonymous_reserved.
          and_then (unsigned (show_int (st_anonymous_used s))) (\<lambda>anonymous_used.
          if \<not> ((case checked_add_u64 reserved used of None \<Rightarrow> False | Some n \<Rightarrow> n \<le> MAX_APP_BLOB_BYTES)
                \<and> objects \<le> MAX_APP_BLOB_OBJECTS \<and> anonymous_reserved \<le> reserved \<and> anonymous_used \<le> used
                \<and> (case checked_add_u64 anonymous_reserved anonymous_used of None \<Rightarrow> False | Some n \<Rightarrow> n \<le> MAX_ANONYMOUS_BYTES)
                \<and> (objects > 0 \<or> (reserved = 0 \<and> used = 0)))
          then Inl ''invalid blob store counters''
          else let vacant = metadata_empty db \<and> objects = 0 \<and> reserved = 0 \<and> used = 0 in
          if st_pair_state s = Pending \<and> \<not> vacant then Inl ''pending pairing contains metadata or charges''
          else and_then (object_key_parse (st_identity s)) (\<lambda>store.
          and_then (object_key_parse (st_pair_id s)) (\<lambda>pair.
          Inr (Some \<lparr>pr_store = store, pr_pair = pair, pr_phase = st_pair_state s, pr_empty_metadata = vacant\<rparr>))))))))))"

record pair_preparation =
  pp_record :: pair_record
  pp_step :: pair_step
  pp_inserted :: bool

definition prepare_pair :: "pair_observation \<Rightarrow> string \<Rightarrow> pair_preparation tx" where
  "prepare_pair ob rnd db =
     and_then (read_pair_record db) (\<lambda>rec.
     case rec of
       Some r \<Rightarrow> and_then (decide ob (Some r)) (\<lambda>s. Inr (\<lparr>pp_record = r, pp_step = s, pp_inserted = False\<rparr>, db))
     | None \<Rightarrow> and_then (decide ob None) (\<lambda>s.
         if s \<noteq> CreatePending then Inl ''unsafe new store pairing''
         else and_then (object_key_parse rnd) (\<lambda>pair.
         and_then (insert_pending_pair (po_store ob) pair db) (\<lambda>(changed, db).
         if changed \<noteq> 1 then Inl ''store pairing raced or metadata exists''
         else Inr (\<lparr>pp_record = \<lparr>pr_store = po_store ob, pr_pair = pair, pr_phase = Pending, pr_empty_metadata = True\<rparr>,
                   pp_step = InstallMarker pair, pp_inserted = True\<rparr>, db)))))"

definition acknowledge_pair :: "string \<Rightarrow> string \<Rightarrow> unit tx" where
  "acknowledge_pair store pair db =
     and_then (complete_pair store pair db) (\<lambda>(changed, db).
     if changed = 0
     then and_then (read_pair_record db) (\<lambda>rec.
       case rec of
         None \<Rightarrow> Inl ''store pairing missing''
       | Some r \<Rightarrow> if pr_store r = store \<and> pr_pair r = pair \<and> pr_phase r = Paired then Inr ((), db)
           else Inl ''store pairing acknowledgement mismatch'')
     else if changed = 1 then Inr ((), db) else Inl ''duplicate pairing acknowledgement'')"

section \<open>The marker files\<close>

text \<open>
  A file is visible at once and durable only once it is synced: a crash leaves a prefix of unsynced
  data, and either of the two modes.  The directory holds the names \<open>pair\<close> and \<open>pair.pending\<close>; its changes
  reach the disk in order, so a crash leaves one of the states since the last sync of the directory.
  \<open>fs_dirs\<close> lists these states, the visible one first.
\<close>

datatype file_mode = ReadWrite | ReadOnly

record inode =
  nd_data :: bytes
  nd_mode :: file_mode
  nd_synced :: bool

record directory =
  dr_marker :: "nat option"
  dr_pending :: "nat option"

record marker_fs =
  fs_files :: "inode list"
  fs_dirs :: "directory list"

abbreviation names :: "marker_fs \<Rightarrow> directory" where
  "names fs \<equiv> hd (fs_dirs fs)"

definition opened :: "marker_fs \<Rightarrow> nat option \<Rightarrow> inode option" where
  "opened fs name = map_option (\<lambda>i. fs_files fs ! i) name"

definition read_marker :: "inode option \<Rightarrow> bool \<Rightarrow> bytes option res" where
  "read_marker fd partial =
     (case fd of
        None \<Rightarrow> Inr None
      | Some f \<Rightarrow>
          ensure (length (nd_data f) \<le> 64) ''pair marker length''
          (ensure (nd_mode f = ReadOnly \<or> partial) ''pair marker mode''
          (ensure (partial \<or> length (nd_data f) = 64) ''pair marker length''
          (ensure (list_all lower_hex (nd_data f)) ''invalid pair marker encoding'' (Inr (Some (nd_data f)))))))"

text \<open>\<open>vacant\<close> is what the two directory scans find.\<close>

definition observe_pair :: "string \<Rightarrow> bool \<Rightarrow> marker_fs \<Rightarrow> pair_observation res" where
  "observe_pair store vacant fs =
     and_then (read_marker (opened fs (dr_marker (names fs))) False) (\<lambda>found.
     and_then (case found of None \<Rightarrow> Inr None | Some b \<Rightarrow> and_then (object_key_parse b) (\<lambda>k. Inr (Some k))) (\<lambda>marker.
     and_then (read_marker (opened fs (dr_pending (names fs))) True) (\<lambda>pending.
     ensure (marker = None \<or> pending = None) ''ambiguous pairing markers''
       (Inr \<lparr>po_store = store, po_marker = marker, po_pending = pending, po_empty = vacant\<rparr>))))"

section \<open>Installing the marker\<close>

text \<open>The system calls of \<open>install_pair\<close>, in its order.\<close>

datatype fs_call = UnlinkPending | CreatePendingFile | WritePending bytes | ProtectPending | SyncPending | RenamePending
  | SyncMarker | SyncDirectory | VerifyMarker bytes

definition on_pending :: "(inode \<Rightarrow> inode) \<Rightarrow> marker_fs \<Rightarrow> marker_fs res" where
  "on_pending f fs =
     and_then (ok_or (dr_pending (names fs)) ''bad file descriptor'') (\<lambda>i.
     Inr (fs\<lparr>fs_files := (fs_files fs)[i := f (fs_files fs ! i)]\<rparr>))"

definition rename_to :: "directory \<Rightarrow> marker_fs \<Rightarrow> marker_fs" where
  "rename_to d fs = fs\<lparr>fs_dirs := d # fs_dirs fs\<rparr>"

definition fs_apply :: "fs_call \<Rightarrow> marker_fs \<Rightarrow> marker_fs res" where
  "fs_apply c fs =
     (case c of
        UnlinkPending \<Rightarrow>
          ensure (dr_pending (names fs) \<noteq> None) ''no such file'' (Inr (rename_to ((names fs)\<lparr>dr_pending := None\<rparr>) fs))
      | CreatePendingFile \<Rightarrow>
          ensure (dr_pending (names fs) = None) ''file exists''
            (Inr (rename_to ((names fs)\<lparr>dr_pending := Some (length (fs_files fs))\<rparr>)
               (fs\<lparr>fs_files := fs_files fs @ [\<lparr>nd_data = [], nd_mode = ReadWrite, nd_synced = False\<rparr>]\<rparr>)))
      | WritePending b \<Rightarrow> on_pending (\<lambda>f. f\<lparr>nd_data := nd_data f @ b, nd_synced := False\<rparr>) fs
      | ProtectPending \<Rightarrow> on_pending (\<lambda>f. f\<lparr>nd_mode := ReadOnly, nd_synced := False\<rparr>) fs
      | SyncPending \<Rightarrow> on_pending (\<lambda>f. f\<lparr>nd_synced := True\<rparr>) fs
      | RenamePending \<Rightarrow>
          ensure (dr_marker (names fs) = None \<and> dr_pending (names fs) \<noteq> None) ''file exists''
            (Inr (rename_to \<lparr>dr_marker = dr_pending (names fs), dr_pending = None\<rparr> fs))
      | SyncMarker \<Rightarrow>
          and_then (ok_or (dr_marker (names fs)) ''no such file'') (\<lambda>i.
          ensure (nd_mode (fs_files fs ! i) = ReadOnly \<and> length (nd_data (fs_files fs ! i)) = 64) ''unsafe blob file''
            (Inr (fs\<lparr>fs_files := (fs_files fs)[i := (fs_files fs ! i)\<lparr>nd_synced := True\<rparr>]\<rparr>)))
      | SyncDirectory \<Rightarrow> Inr (fs\<lparr>fs_dirs := [names fs]\<rparr>)
      | VerifyMarker pair \<Rightarrow>
          and_then (read_marker (opened fs (dr_marker (names fs))) False) (\<lambda>found.
          and_then (ok_or found ''pair marker unavailable'') (\<lambda>marker.
          ensure (marker = pair) ''pair marker changed'' (Inr fs))))"

definition sync_script :: "string \<Rightarrow> fs_call list" where
  "sync_script pair = [SyncMarker, SyncDirectory, VerifyMarker pair]"

definition write_script :: "string \<Rightarrow> fs_call list" where
  "write_script pair = [CreatePendingFile, WritePending pair, ProtectPending, SyncPending, RenamePending] @ sync_script pair"

definition install_script :: "pair_observation \<Rightarrow> pair_record \<Rightarrow> fs_call list res" where
  "install_script ob r =
     and_then (decide ob (Some r)) (\<lambda>step.
     case step of
       InstallMarker _ \<Rightarrow> Inr ((if po_pending ob = None then [] else [UnlinkPending, SyncDirectory]) @ write_script (pr_pair r))
     | Acknowledge _ \<Rightarrow> Inr (sync_script (pr_pair r))
     | _ \<Rightarrow> Inl ''pair installation requires pending database'')"

fun run_calls :: "fs_call list \<Rightarrow> marker_fs \<Rightarrow> marker_fs res" where
  "run_calls [] fs = Inr fs"
| "run_calls (c # cs) fs = and_then (fs_apply c fs) (run_calls cs)"

text \<open>\<open>install_pair\<close> when nothing interrupts it; its result is the proof that the marker is durable.\<close>

definition install_pair :: "string \<Rightarrow> bool \<Rightarrow> pair_record \<Rightarrow> marker_fs \<Rightarrow> (string \<times> marker_fs) res" where
  "install_pair store vacant r fs =
     and_then (observe_pair store vacant fs) (\<lambda>ob.
     and_then (install_script ob r) (\<lambda>cs.
     and_then (run_calls cs fs) (\<lambda>fs. Inr (pr_pair r, fs))))"

section \<open>A deployment that may crash\<close>

text \<open>
  A start reads the record, decides, and follows the decision.  \<open>ps_task\<close> holds the calls an installation
  has still to make, \<open>ps_proof\<close> the \<open>DurablePairMarker\<close> of the running process.  An installation makes one
  call at a time; it may stop before any of them, also in the middle of a write; a crash ends the
  process as well and leaves of the files what was synced and some of the rest.
\<close>

record pairing_state =
  ps_db :: blob_db
  ps_fs :: marker_fs
  ps_task :: "(string \<times> fs_call list) option"
  ps_proof :: "string option"

definition crashed_file :: "inode \<Rightarrow> inode \<Rightarrow> bool" where
  "crashed_file f g \<longleftrightarrow>
     (if nd_synced f then g = f else (\<exists>n m. g = \<lparr>nd_data = take n (nd_data f), nd_mode = m, nd_synced = True\<rparr>))"

inductive pairing_step :: "string \<Rightarrow> pairing_state \<Rightarrow> pairing_state \<Rightarrow> bool" for store where
  ps_create:
    "observe_pair store True (ps_fs p) = Inr ob \<Longrightarrow> prepare_pair ob rnd (ps_db p) = Inr (prep, db) \<Longrightarrow>
       pairing_step store p (p\<lparr>ps_db := db\<rparr>)"
| ps_begin:
    "ps_task p = None \<Longrightarrow> read_pair_record (ps_db p) = Inr (Some r) \<Longrightarrow> observe_pair store True (ps_fs p) = Inr ob \<Longrightarrow>
       install_script ob r = Inr cs \<Longrightarrow> pairing_step store p (p\<lparr>ps_task := Some (pr_pair r, cs)\<rparr>)"
| ps_call:
    "ps_task p = Some (pair, c # cs) \<Longrightarrow> fs_apply c (ps_fs p) = Inr fs \<Longrightarrow>
       pairing_step store p (p\<lparr>ps_fs := fs, ps_task := Some (pair, cs)\<rparr>)"
| ps_short_write:
    "ps_task p = Some (pair, WritePending b # cs) \<Longrightarrow> fs_apply (WritePending (take n b)) (ps_fs p) = Inr fs \<Longrightarrow>
       pairing_step store p (p\<lparr>ps_fs := fs, ps_task := None\<rparr>)"
| ps_stop: "pairing_step store p (p\<lparr>ps_task := None\<rparr>)"
| ps_done: "ps_task p = Some (pair, []) \<Longrightarrow> pairing_step store p (p\<lparr>ps_task := None, ps_proof := Some pair\<rparr>)"
| ps_acknowledge:
    "ps_proof p = Some pair \<Longrightarrow> acknowledge_pair store pair (ps_db p) = Inr (v, db) \<Longrightarrow>
       pairing_step store p (p\<lparr>ps_db := db\<rparr>)"
| ps_crash:
    "d \<in> set (fs_dirs (ps_fs p)) \<Longrightarrow> list_all2 crashed_file (fs_files (ps_fs p)) files \<Longrightarrow>
       pairing_step store p (p\<lparr>ps_fs := \<lparr>fs_files = files, fs_dirs = [d]\<rparr>, ps_task := None, ps_proof := None\<rparr>)"

definition unpaired :: pairing_state where
  "unpaired = \<lparr>ps_db = \<lparr>db_store = None, db_subjects = [], db_blobs = [], db_orphans = []\<rparr>,
     ps_fs = \<lparr>fs_files = [], fs_dirs = [\<lparr>dr_marker = None, dr_pending = None\<rparr>]\<rparr>, ps_task = None, ps_proof = None\<rparr>"

inductive pairing_reach :: "string \<Rightarrow> pairing_state \<Rightarrow> bool" for store where
  pr_init: "pairing_reach store unpaired"
| pr_next: "pairing_reach store p \<Longrightarrow> pairing_step store p p' \<Longrightarrow> pairing_reach store p'"

section \<open>Crash safety\<close>

definition fresh_store :: "string \<Rightarrow> string \<Rightarrow> pair_phase \<Rightarrow> store_row \<Rightarrow> bool" where
  "fresh_store store pair phase s \<longleftrightarrow>
     st_identity s = store \<and> st_pair_id s = pair \<and> st_pair_state s = phase
     \<and> st_serial s \<in> {1, 2} \<and> (st_serial s = 2 \<longleftrightarrow> phase = Paired)
     \<and> st_reserved s = 0 \<and> st_used s = 0 \<and> st_objects s = 0 \<and> st_anonymous_reserved s = 0 \<and> st_anonymous_used s = 0"

definition prefix_of :: "bytes \<Rightarrow> bytes \<Rightarrow> bool" where
  "prefix_of b pair \<longleftrightarrow> (\<exists>n. b = take n pair)"

definition complete_file :: "string \<Rightarrow> inode" where
  "complete_file pair = \<lparr>nd_data = pair, nd_mode = ReadOnly, nd_synced = True\<rparr>"

text \<open>A directory state that names complete markers and partial pending files only.\<close>

definition dir_ok :: "string \<Rightarrow> inode list \<Rightarrow> directory \<Rightarrow> bool" where
  "dir_ok pair files d \<longleftrightarrow>
     (case dr_marker d of
        Some i \<Rightarrow> i < length files \<and> files ! i = complete_file pair \<and> dr_pending d = None
      | None \<Rightarrow> (case dr_pending d of
            None \<Rightarrow> True
          | Some i \<Rightarrow> i < length files \<and> prefix_of (nd_data (files ! i)) pair))"

definition fs_ok :: "string \<Rightarrow> marker_fs \<Rightarrow> bool" where
  "fs_ok pair fs \<longleftrightarrow> fs_dirs fs \<noteq> [] \<and> (\<forall>d \<in> set (fs_dirs fs). dir_ok pair (fs_files fs) d)
     \<and> (dr_marker (names fs) = None \<longrightarrow> (\<forall>d \<in> set (fs_dirs fs). dr_marker d = None))"

definition durable :: "marker_fs \<Rightarrow> bool" where
  "durable fs \<longleftrightarrow> (\<forall>d \<in> set (fs_dirs fs). dr_marker d \<noteq> None)"

text \<open>What the calls still to be made rely on.\<close>

definition pending_file :: "marker_fs \<Rightarrow> inode \<Rightarrow> bool" where
  "pending_file fs f \<longleftrightarrow> dr_marker (names fs) = None \<and> (\<exists>i. dr_pending (names fs) = Some i \<and> fs_files fs ! i = f)"

definition task_ok :: "string \<Rightarrow> marker_fs \<Rightarrow> fs_call list \<Rightarrow> bool" where
  "task_ok pair fs cs \<longleftrightarrow>
     cs = [UnlinkPending, SyncDirectory] @ write_script pair \<and> dr_marker (names fs) = None \<and> dr_pending (names fs) \<noteq> None
     \<or> cs = SyncDirectory # write_script pair \<and> dr_marker (names fs) = None \<and> dr_pending (names fs) = None
     \<or> cs = write_script pair \<and> dr_marker (names fs) = None \<and> dr_pending (names fs) = None
     \<or> cs = drop 1 (write_script pair) \<and> pending_file fs \<lparr>nd_data = [], nd_mode = ReadWrite, nd_synced = False\<rparr>
     \<or> cs = drop 2 (write_script pair) \<and> pending_file fs \<lparr>nd_data = pair, nd_mode = ReadWrite, nd_synced = False\<rparr>
     \<or> cs = drop 3 (write_script pair) \<and> pending_file fs \<lparr>nd_data = pair, nd_mode = ReadOnly, nd_synced = False\<rparr>
     \<or> cs = drop 4 (write_script pair) \<and> pending_file fs (complete_file pair)
     \<or> cs \<in> {sync_script pair, drop 1 (sync_script pair)} \<and> dr_marker (names fs) \<noteq> None
     \<or> cs \<in> {drop 2 (sync_script pair), []} \<and> durable fs"

definition pairing_inv :: "string \<Rightarrow> pairing_state \<Rightarrow> bool" where
  "pairing_inv store p \<longleftrightarrow>
     metadata_empty (ps_db p)
     \<and> (case db_store (ps_db p) of
          None \<Rightarrow> fs_dirs (ps_fs p) = [\<lparr>dr_marker = None, dr_pending = None\<rparr>] \<and> ps_task p = None \<and> ps_proof p = None
        | Some s \<Rightarrow> \<exists>pair phase. is_ok (object_key_parse pair) \<and> fresh_store store pair phase s \<and> fs_ok pair (ps_fs p)
            \<and> (phase = Paired \<longrightarrow> durable (ps_fs p))
            \<and> (\<forall>q cs. ps_task p = Some (q, cs) \<longrightarrow> q = pair \<and> task_ok pair (ps_fs p) cs)
            \<and> (\<forall>q. ps_proof p = Some q \<longrightarrow> q = pair \<and> durable (ps_fs p)))"

lemma read_pair_record_fresh:
  assumes "metadata_empty db" and "db_store db = Some s" and "fresh_store store pair phase s"
    and "is_ok (object_key_parse store)" and "is_ok (object_key_parse pair)"
  shows "read_pair_record db = Inr (Some \<lparr>pr_store = store, pr_pair = pair, pr_phase = phase, pr_empty_metadata = True\<rparr>)"
proof -
  have z: "unsigned (show_int 0) = Inr 0" "integer (show_int 1) = Inr 1" "integer (show_int 2) = Inr 2"
    by (simp_all add: unsigned_show integer_show int_defs)
  have "st_serial s = 1 \<or> st_serial s = 2" using assms(3) by (auto simp: fresh_store_def)
  then show ?thesis
    using assms z by (auto simp: read_pair_record_def fresh_store_def within_def is_ok_iff res_simps checked_add_u64_def
        int_defs Let_def)
qed

text \<open>Reading the files of a state that is in order.\<close>

lemma key_parse: "is_ok (object_key_parse pair) \<longleftrightarrow> length pair = 64 \<and> list_all lower_hex pair"
  by (simp add: object_key_parse_def)

lemma prefix_hex: "prefix_of b pair \<Longrightarrow> list_all lower_hex pair \<Longrightarrow> list_all lower_hex b"
  by (auto simp: prefix_of_def list_all_iff dest: in_set_takeD)

lemma prefix_length: "prefix_of b pair \<Longrightarrow> length b \<le> length pair"
  by (auto simp: prefix_of_def)

lemma prefix_starts: "prefix_of b pair \<Longrightarrow> starts_with pair b"
  by (auto simp: prefix_of_def starts_with_def min_def)

lemma prefix_take: "prefix_of b pair \<Longrightarrow> prefix_of (take n b) pair"
  by (auto simp: prefix_of_def)

lemma prefix_simps [simp]: "prefix_of [] pair" "prefix_of pair pair" "prefix_of (take n pair) pair"
  unfolding prefix_of_def by (rule exI [of _ 0], simp) (rule exI [of _ "length pair"], simp, blast)

lemma names_ok: "fs_ok pair fs \<Longrightarrow> dir_ok pair (fs_files fs) (names fs)"
  by (simp add: fs_ok_def)

lemma marker_file:
  "fs_ok pair fs \<Longrightarrow> dr_marker (names fs) = Some i \<Longrightarrow> i < length (fs_files fs) \<and> fs_files fs ! i = complete_file pair \<and> dr_pending (names fs) = None"
  using names_ok [of pair fs] by (simp add: dir_ok_def)

lemma observe_ok:
  assumes "fs_ok pair fs" and "is_ok (object_key_parse pair)"
  shows "observe_pair store vacant fs = Inr \<lparr>po_store = store, po_marker = (if dr_marker (names fs) = None then None else Some pair),
     po_pending = map_option (\<lambda>i. nd_data (fs_files fs ! i)) (dr_pending (names fs)), po_empty = vacant\<rparr>
   \<and> (\<forall>b. map_option (\<lambda>i. nd_data (fs_files fs ! i)) (dr_pending (names fs)) = Some b \<longrightarrow> starts_with pair b)
   \<and> (dr_marker (names fs) \<noteq> None \<longrightarrow> dr_pending (names fs) = None)"
proof (cases "dr_marker (names fs)")
  case (Some i)
  then show ?thesis
    using marker_file [OF assms(1) Some] assms(2)
    by (simp add: observe_pair_def opened_def read_marker_def complete_file_def object_key_parse_def split: if_splits)
next
  case None
  then have "prefix_of (nd_data (fs_files fs ! i)) pair" if "dr_pending (names fs) = Some i" for i
    using names_ok [OF assms(1)] that by (simp add: dir_ok_def)
  then show ?thesis
    using None assms(2) prefix_hex prefix_length prefix_starts key_parse
    by (cases "dr_pending (names fs)") (fastforce simp: observe_pair_def opened_def read_marker_def)+
qed

text \<open>One call of an installation.\<close>

lemma fs_ok_files:
  assumes "fs_ok pair fs" and "fs_files fs' = (fs_files fs)[i := f]" and "fs_dirs fs' = fs_dirs fs" and "dr_marker (names fs) = None"
    and "prefix_of (nd_data f) pair"
  shows "fs_ok pair fs'"
  using assms
  by (auto simp: fs_ok_def dir_ok_def split: option.splits) (metis nth_list_update_eq nth_list_update_neq)

lemma fs_ok_names:
  assumes "fs_ok pair fs" and "fs_files fs' = fs_files fs @ fs0" and "fs_dirs fs' = d # fs_dirs fs" and "dr_marker (names fs) = None"
    and "dir_ok pair (fs_files fs') d"
  shows "fs_ok pair fs'"
  using assms by (auto simp: fs_ok_def dir_ok_def nth_append split: option.splits)

lemma fs_ok_sync: "fs_ok pair fs \<Longrightarrow> fs_ok pair (fs\<lparr>fs_dirs := [names fs]\<rparr>)"
  by (simp add: fs_ok_def)

lemmas scripts = write_script_def sync_script_def

lemma pending_index: "fs_ok pair fs \<Longrightarrow> dr_marker (names fs) = None \<Longrightarrow> dr_pending (names fs) = Some i \<Longrightarrow> i < length (fs_files fs)"
  using names_ok [of pair fs] by (simp add: dir_ok_def)

lemma on_pending_ok:
  assumes "fs_ok pair fs" and "pending_file fs f" and "prefix_of (nd_data (g f)) pair"
  shows "\<exists>fs'. on_pending g fs = Inr fs' \<and> fs_ok pair fs' \<and> pending_file fs' (g f)"
proof -
  obtain i where i: "dr_marker (names fs) = None" "dr_pending (names fs) = Some i" "fs_files fs ! i = f"
    using assms(2) by (auto simp: pending_file_def)
  let ?fs = "fs\<lparr>fs_files := (fs_files fs)[i := g f]\<rparr>"
  have "on_pending g fs = Inr ?fs" using i by (simp add: on_pending_def)
  moreover have "fs_ok pair ?fs" using fs_ok_files [OF assms(1), of ?fs i "g f"] i(1) assms(3) by simp
  moreover have "pending_file ?fs (g f)" using i pending_index [OF assms(1) i(1,2)] by (simp add: pending_file_def)
  ultimately show ?thesis by blast
qed

lemma call_ok:
  assumes fs: "fs_ok pair fs" and t: "task_ok pair fs (c # cs)" and key: "is_ok (object_key_parse pair)"
  shows "\<exists>fs'. fs_apply c fs = Inr fs' \<and> fs_ok pair fs' \<and> task_ok pair fs' cs"
proof -
  note ok = fs_ok_names [OF fs]
  have dirs: "fs_dirs fs \<noteq> []" using fs by (simp add: fs_ok_def)
  from t consider
      "c = UnlinkPending" "cs = SyncDirectory # write_script pair" "dr_marker (names fs) = None" "dr_pending (names fs) \<noteq> None"
    | "c = SyncDirectory" "cs = write_script pair" "dr_marker (names fs) = None" "dr_pending (names fs) = None"
    | "c = CreatePendingFile" "cs = drop 1 (write_script pair)" "dr_marker (names fs) = None" "dr_pending (names fs) = None"
    | "c = WritePending pair" "cs = drop 2 (write_script pair)" "pending_file fs \<lparr>nd_data = [], nd_mode = ReadWrite, nd_synced = False\<rparr>"
    | "c = ProtectPending" "cs = drop 3 (write_script pair)" "pending_file fs \<lparr>nd_data = pair, nd_mode = ReadWrite, nd_synced = False\<rparr>"
    | "c = SyncPending" "cs = drop 4 (write_script pair)" "pending_file fs \<lparr>nd_data = pair, nd_mode = ReadOnly, nd_synced = False\<rparr>"
    | "c = RenamePending" "cs = sync_script pair" "pending_file fs (complete_file pair)"
    | "c = SyncMarker" "cs = drop 1 (sync_script pair)" "dr_marker (names fs) \<noteq> None"
    | "c = SyncDirectory" "cs = drop 2 (sync_script pair)" "dr_marker (names fs) \<noteq> None"
    | "c = VerifyMarker pair" "cs = []" "durable fs"
    unfolding task_ok_def scripts by (elim disjE conjE; simp) (auto)
  then show ?thesis
  proof cases
    case 1
    then show ?thesis
      using ok [of "rename_to ((names fs)\<lparr>dr_pending := None\<rparr>) fs" "[]"]
      by (simp add: fs_apply_def rename_to_def dir_ok_def task_ok_def)
  next
    case 2
    then show ?thesis using fs_ok_sync [OF fs] by (simp add: fs_apply_def task_ok_def)
  next
    case 3
    let ?f = "\<lparr>nd_data = [], nd_mode = ReadWrite, nd_synced = False\<rparr>"
    let ?fs = "rename_to ((names fs)\<lparr>dr_pending := Some (length (fs_files fs))\<rparr>) (fs\<lparr>fs_files := fs_files fs @ [?f]\<rparr>)"
    have "fs_ok pair ?fs" using ok [of ?fs "[?f]"] 3 by (simp add: rename_to_def dir_ok_def)
    moreover have "pending_file ?fs ?f" using 3 by (simp add: pending_file_def rename_to_def)
    ultimately show ?thesis using 3 by (simp add: fs_apply_def task_ok_def)
  next
    case 4
    then show ?thesis
      using on_pending_ok [OF fs 4(3), of "\<lambda>f. f\<lparr>nd_data := nd_data f @ pair, nd_synced := False\<rparr>"]
      by (auto simp: fs_apply_def task_ok_def)
  next
    case 5
    then show ?thesis
      using on_pending_ok [OF fs 5(3), of "\<lambda>f. f\<lparr>nd_mode := ReadOnly, nd_synced := False\<rparr>"] by (auto simp: fs_apply_def task_ok_def)
  next
    case 6
    then show ?thesis
      using on_pending_ok [OF fs 6(3), of "\<lambda>f. f\<lparr>nd_synced := True\<rparr>"] by (auto simp: fs_apply_def task_ok_def complete_file_def)
  next
    case 7
    then obtain i where i: "dr_marker (names fs) = None" "dr_pending (names fs) = Some i" "fs_files fs ! i = complete_file pair"
      by (auto simp: pending_file_def)
    let ?fs = "rename_to \<lparr>dr_marker = Some i, dr_pending = None\<rparr> fs"
    have "fs_ok pair ?fs"
      using fs i pending_index [OF fs i(1,2)] by (auto simp: fs_ok_def rename_to_def dir_ok_def)
    then show ?thesis using 7 i by (auto simp: fs_apply_def task_ok_def rename_to_def)
  next
    case 8
    then obtain i where i: "dr_marker (names fs) = Some i" by auto
    have f: "i < length (fs_files fs)" "fs_files fs ! i = complete_file pair" using marker_file [OF fs i] by simp_all
    have same: "(fs_files fs)[i := complete_file pair] = fs_files fs" using f(2) by (metis list_update_id)
    have whole: "(complete_file pair)\<lparr>nd_synced := True\<rparr> = complete_file pair" "nd_mode (complete_file pair) = ReadOnly"
      "length (nd_data (complete_file pair)) = 64"
      using key by (simp_all add: complete_file_def key_parse)
    have "fs_apply c fs = Inr fs" using 8 i by (simp add: fs_apply_def f(2) whole same)
    then show ?thesis using 8 fs by (auto simp: task_ok_def)
  next
    case 9
    then show ?thesis using fs_ok_sync [OF fs] by (auto simp: fs_apply_def task_ok_def durable_def)
  next
    case 10
    then have "dr_marker (names fs) \<noteq> None" using hd_in_set [OF dirs] unfolding durable_def by blast
    then obtain i where i: "dr_marker (names fs) = Some i" by blast
    have "opened fs (dr_marker (names fs)) = Some (complete_file pair)" using i marker_file [OF fs i] by (simp add: opened_def)
    then have "fs_apply c fs = Inr fs" using 10 key by (simp add: fs_apply_def read_marker_def complete_file_def key_parse)
    then show ?thesis using 10 fs by (auto simp: task_ok_def)
  qed
qed

text \<open>An installation that is not interrupted finishes, and its marker is durable.\<close>

lemma run_ok:
  assumes "is_ok (object_key_parse pair)"
  shows "fs_ok pair fs \<Longrightarrow> task_ok pair fs cs \<Longrightarrow> \<exists>fs'. run_calls cs fs = Inr fs' \<and> fs_ok pair fs' \<and> durable fs'"
proof (induction cs arbitrary: fs)
  case Nil
  then show ?case by (auto simp: task_ok_def scripts)
next
  case (Cons c cs)
  obtain fs' where "fs_apply c fs = Inr fs'" "fs_ok pair fs'" "task_ok pair fs' cs" using call_ok [OF Cons.prems assms] by blast
  with Cons.IH show ?case by simp
qed

lemma durable_kept:
  assumes "durable fs" and "fs_apply c fs = Inr fs'" and "fs_dirs fs \<noteq> []"
  shows "durable fs'"
  using assms
  by (cases c) (auto simp: fs_apply_def durable_def rename_to_def on_pending_def res_simps split: if_splits)

text \<open>The record of a pending pair in an orderly state: what a start decides and what it will run.\<close>

lemma decide_ok:
  assumes fs: "fs_ok pair fs" and key: "is_ok (object_key_parse pair)" and d: "phase = Paired \<longrightarrow> durable fs"
  shows "\<exists>ob step. observe_pair store True fs = Inr ob
     \<and> decide ob (Some \<lparr>pr_store = store, pr_pair = pair, pr_phase = phase, pr_empty_metadata = True\<rparr>) = Inr step
     \<and> (phase = Paired \<longrightarrow> step = Ready pair)
     \<and> (phase = Pending \<longrightarrow> (dr_marker (names fs) \<noteq> None \<and> step = Acknowledge pair \<or> step = InstallMarker pair)
          \<and> (\<exists>cs. install_script ob \<lparr>pr_store = store, pr_pair = pair, pr_phase = phase, pr_empty_metadata = True\<rparr> = Inr cs
              \<and> task_ok pair fs cs))"
proof -
  have m: "phase = Paired \<longrightarrow> dr_marker (names fs) \<noteq> None" using d fs by (simp add: durable_def fs_ok_def)
  note ob = observe_ok [OF fs key, of store True]
  show ?thesis
  proof (cases phase)
    case Paired
    then show ?thesis using ob m by (simp add: decide_def)
  next
    case Pending
    then show ?thesis
      using ob by (cases "dr_marker (names fs)"; cases "dr_pending (names fs)")
        (auto simp: decide_def install_script_def task_ok_def)
  qed
qed

lemma acknowledge_ok:
  assumes "metadata_empty db" and "db_store db = Some s" and "fresh_store store pair phase s" and "is_ok (object_key_parse store)"
    and "is_ok (object_key_parse pair)"
  shows "acknowledge_pair store pair db
     = Inr ((), if phase = Pending then db\<lparr>db_store := Some (s\<lparr>st_pair_state := Paired, st_serial := st_serial s + 1\<rparr>)\<rparr> else db)"
proof (cases phase)
  case Pending
  then show ?thesis
    using assms(1-3) by (auto simp: acknowledge_pair_def complete_pair_def update_store_def fresh_store_def metadata_empty_def
      I64_LIMIT_def store_check_def)
next
  case Paired
  then show ?thesis
    using assms(2,3) read_pair_record_fresh [OF assms]
    by (simp add: acknowledge_pair_def complete_pair_def update_store_def fresh_store_def)
qed

lemma crash_ok:
  assumes "fs_ok pair fs" and "d \<in> set (fs_dirs fs)" and "list_all2 crashed_file (fs_files fs) files"
  shows "fs_ok pair \<lparr>fs_files = files, fs_dirs = [d]\<rparr>" and "durable fs \<Longrightarrow> durable \<lparr>fs_files = files, fs_dirs = [d]\<rparr>"
proof -
  have l: "length files = length (fs_files fs)" using assms(3) by (simp add: list_all2_lengthD)
  have f: "crashed_file (fs_files fs ! i) (files ! i)" if "i < length files" for i using assms(3) that by (simp add: list_all2_conv_all_nth)
  have "dir_ok pair (fs_files fs) d" using assms(1,2) by (simp add: fs_ok_def)
  then have "dir_ok pair files d"
    using l f by (auto simp: dir_ok_def crashed_file_def complete_file_def prefix_take split: option.splits if_splits)
      (metis inode.select_convs(1) inode.select_convs(3) prefix_take)+
  then show "fs_ok pair \<lparr>fs_files = files, fs_dirs = [d]\<rparr>" by (simp add: fs_ok_def)
  show "durable \<lparr>fs_files = files, fs_dirs = [d]\<rparr>" if "durable fs" using that assms(2) by (simp add: durable_def)
qed

lemma pairing_step_inv:
  assumes "pairing_inv store p" and "pairing_step store p p'" and key: "is_ok (object_key_parse store)"
  shows "pairing_inv store p'"
proof (cases "db_store (ps_db p)")
  case None
  then have empty: "fs_dirs (ps_fs p) = [\<lparr>dr_marker = None, dr_pending = None\<rparr>]" "metadata_empty (ps_db p)"
    and idle: "ps_task p = None" "ps_proof p = None"
    using assms(1) by (simp_all add: pairing_inv_def)
  have no_record: "read_pair_record (ps_db p) = Inr None" using None by (simp add: read_pair_record_def)
  have fs: "fs_ok pair \<lparr>fs_files = files, fs_dirs = [\<lparr>dr_marker = None, dr_pending = None\<rparr>]\<rparr>" for pair files
    by (simp add: fs_ok_def dir_ok_def)
  from assms(2) show ?thesis
  proof (cases rule: pairing_step.cases)
    case (ps_create ob rnd prep db)
    have ob: "po_store ob = store" using ps_create(2) by (auto simp: observe_pair_def res_simps)
    have d: "db = (ps_db p)\<lparr>db_store := Some \<lparr>st_identity = store, st_pair_id = rnd, st_pair_state = Pending, st_serial = 1,
        st_reserved = 0, st_used = 0, st_objects = 0, st_anonymous_reserved = 0, st_anonymous_used = 0\<rparr>\<rparr>"
      and k: "is_ok (object_key_parse rnd)"
      using ps_create(3) ob empty(2) None no_record
      by (auto simp: prepare_pair_def insert_pending_pair_def metadata_empty_def object_key_parse_def res_simps split: if_splits)
    have "fs_ok rnd (ps_fs p)" using fs [of rnd "fs_files (ps_fs p)"] empty(1) by (simp add: fs_ok_def)
    then show ?thesis
      using d k empty idle unfolding ps_create(1)
      by (auto simp: pairing_inv_def metadata_empty_def fresh_store_def intro!: exI [of _ rnd] exI [of _ Pending])
  next
    case (ps_crash d files)
    then show ?thesis using None empty by (simp add: pairing_inv_def)
  qed (use idle no_record None assms(1) in \<open>simp_all add: pairing_inv_def\<close>)
next
  case (Some s)
  then obtain pair phase where k: "is_ok (object_key_parse pair)" and fr: "fresh_store store pair phase s" and fs: "fs_ok pair (ps_fs p)"
    and paired: "phase = Paired \<longrightarrow> durable (ps_fs p)"
    and task: "\<And>q cs. ps_task p = Some (q, cs) \<Longrightarrow> q = pair \<and> task_ok pair (ps_fs p) cs"
    and proof_: "\<And>q. ps_proof p = Some q \<Longrightarrow> q = pair \<and> durable (ps_fs p)" and me: "metadata_empty (ps_db p)"
    using assms(1) unfolding pairing_inv_def by auto
  let ?r = "\<lparr>pr_store = store, pr_pair = pair, pr_phase = phase, pr_empty_metadata = True\<rparr>"
  note rd = read_pair_record_fresh [OF me Some fr key k]
  have inv: "pairing_inv store p'"
    if "ps_db p' = ps_db p" "fs_ok pair (ps_fs p')" "durable (ps_fs p) \<Longrightarrow> durable (ps_fs p')"
      "\<And>q cs. ps_task p' = Some (q, cs) \<Longrightarrow> q = pair \<and> task_ok pair (ps_fs p') cs"
      "\<And>q. ps_proof p' = Some q \<Longrightarrow> q = pair \<and> durable (ps_fs p')"
    using me Some k fr paired that(2-5) unfolding pairing_inv_def that(1) Some option.case
    by (intro conjI exI [of _ pair] exI [of _ phase]; auto)
  from assms(2) show ?thesis
  proof (cases rule: pairing_step.cases)
    case (ps_create ob rnd prep db)
    then have "db = ps_db p" using rd by (auto simp: prepare_pair_def res_simps)
    then show ?thesis using ps_create(1) assms(1) by simp
  next
    case (ps_begin r ob cs)
    have r: "r = ?r" using ps_begin(3) rd by simp
    have "task_ok pair (ps_fs p) cs"
      using decide_ok [OF fs k paired, of store] ps_begin(4,5) unfolding r
      by (cases phase) (auto simp: install_script_def)
    then show ?thesis using r fs proof_ by (intro inv) (auto simp: ps_begin(1))
  next
    case (ps_call q c cs fs')
    have t: "q = pair" "task_ok pair (ps_fs p) (c # cs)" using task [OF ps_call(2)] by simp_all
    have "fs_ok pair fs'" "task_ok pair fs' cs" using call_ok [OF fs t(2) k] ps_call(3) by simp_all
    moreover have "durable (ps_fs p) \<Longrightarrow> durable fs'" using durable_kept [OF _ ps_call(3)] fs by (simp add: fs_ok_def)
    ultimately show ?thesis using t(1) proof_ by (intro inv) (auto simp: ps_call(1))
  next
    case (ps_short_write q b cs n fs')
    have t: "task_ok pair (ps_fs p) (WritePending b # cs)" using task [OF ps_short_write(2)] by simp
    then have pf: "pending_file (ps_fs p) \<lparr>nd_data = [], nd_mode = ReadWrite, nd_synced = False\<rparr>" and b: "b = pair"
      by (auto simp: task_ok_def scripts)
    have "fs_ok pair fs'"
      using on_pending_ok [OF fs pf, of "\<lambda>f. f\<lparr>nd_data := nd_data f @ take n b, nd_synced := False\<rparr>"] ps_short_write(3) b
      by (auto simp: fs_apply_def)
    moreover have "durable (ps_fs p) \<Longrightarrow> durable fs'" using durable_kept [OF _ ps_short_write(3)] fs by (simp add: fs_ok_def)
    ultimately show ?thesis using proof_ by (intro inv) (auto simp: ps_short_write(1))
  next
    case ps_stop
    then show ?thesis using fs proof_ by (intro inv) auto
  next
    case (ps_done q)
    have "q = pair" "durable (ps_fs p)" using task [OF ps_done(2)] by (auto simp: task_ok_def scripts)
    then show ?thesis using fs by (intro inv) (auto simp: ps_done(1))
  next
    case (ps_acknowledge q v db)
    have q: "q = pair" "durable (ps_fs p)" using proof_ [OF ps_acknowledge(2)] by simp_all
    have d: "db = (if phase = Pending then ps_db p\<lparr>db_store := Some (s\<lparr>st_pair_state := Paired, st_serial := st_serial s + 1\<rparr>)\<rparr> else ps_db p)"
      using acknowledge_ok [OF me Some fr key k] ps_acknowledge(3) q(1) by simp
    show ?thesis
    proof (cases phase)
      case Pending
      have "fresh_store store pair Paired (s\<lparr>st_pair_state := Paired, st_serial := st_serial s + 1\<rparr>)"
        using fr Pending by (auto simp: fresh_store_def)
      then show ?thesis
        using d Pending me k fs q(2) task proof_ unfolding ps_acknowledge(1)
        by (auto simp: pairing_inv_def metadata_empty_def intro!: exI [of _ pair] exI [of _ Paired])
    next
      case Paired
      then show ?thesis using d ps_acknowledge(1) assms(1) by simp
    qed
  next
    case (ps_crash d files)
    then show ?thesis using crash_ok [OF fs ps_crash(2,3)] by (intro inv) auto
  qed
qed

lemma pairing_reach_inv:
  assumes "pairing_reach store p" and "is_ok (object_key_parse store)"
  shows "pairing_inv store p"
  using assms
proof (induction rule: pairing_reach.induct)
  case pr_init
  then show ?case by (simp add: pairing_inv_def metadata_empty_def unpaired_def)
next
  case (pr_next p p')
  then show ?case using pairing_step_inv by blast
qed

text \<open>C12: pairing survives a crash at any point.  Processes may stop between any two system calls of the
  installation, in the middle of a write, and with them the machine, which keeps only what was
  synced; the next start always reads the record and the marker files and decides, it never finds an
  inconsistent pair.  A paired record makes it ready, and then every state of the directory that
  a crash could still leave names the complete, synced marker of that pair, so that a database is
  never paired with a marker that can be lost.  With a pending record an uninterrupted installation
  followed by the acknowledgement succeeds, and the start after it is ready.\<close>

theorem pairing_recoverable:
  assumes "is_ok (object_key_parse store)" and "pairing_reach store p"
  shows "\<exists>rec ob step. read_pair_record (ps_db p) = Inr rec \<and> observe_pair store True (ps_fs p) = Inr ob \<and> decide ob rec = Inr step
     \<and> (\<forall>r. rec = Some r \<and> pr_phase r = Paired \<longrightarrow> step = Ready (pr_pair r) \<and> pr_store r = store
          \<and> (\<forall>d \<in> set (fs_dirs (ps_fs p)). \<exists>i < length (fs_files (ps_fs p)).
               dr_marker d = Some i \<and> fs_files (ps_fs p) ! i = complete_file (pr_pair r)))
     \<and> (\<forall>r. rec = Some r \<and> pr_phase r = Pending \<longrightarrow>
          (\<exists>fs db ob' r'. install_pair store True r (ps_fs p) = Inr (pr_pair r, fs)
             \<and> acknowledge_pair store (pr_pair r) (ps_db p) = Inr ((), db)
             \<and> observe_pair store True fs = Inr ob' \<and> read_pair_record db = Inr (Some r')
             \<and> decide ob' (Some r') = Inr (Ready (pr_pair r))))"
proof -
  have inv: "pairing_inv store p" by (rule pairing_reach_inv [OF assms(2,1)])
  show ?thesis
  proof (cases "db_store (ps_db p)")
    case None
    then show ?thesis
      using inv by (simp add: pairing_inv_def read_pair_record_def decide_def observe_pair_def read_marker_def opened_def)
  next
    case (Some s)
    then obtain pair phase where k: "is_ok (object_key_parse pair)" and fr: "fresh_store store pair phase s" and fs: "fs_ok pair (ps_fs p)"
      and paired: "phase = Paired \<longrightarrow> durable (ps_fs p)" and me: "metadata_empty (ps_db p)"
      using inv unfolding pairing_inv_def by auto
    note rd = read_pair_record_fresh [OF me Some fr assms(1) k]
    obtain ob step where ob: "observe_pair store True (ps_fs p) = Inr ob"
        "decide ob (Some \<lparr>pr_store = store, pr_pair = pair, pr_phase = phase, pr_empty_metadata = True\<rparr>) = Inr step"
      and ready: "phase = Paired \<Longrightarrow> step = Ready pair"
      and script: "phase = Pending \<Longrightarrow> \<exists>cs. install_script ob \<lparr>pr_store = store, pr_pair = pair, pr_phase = phase, pr_empty_metadata = True\<rparr> = Inr cs
        \<and> task_ok pair (ps_fs p) cs"
      using decide_ok [OF fs k paired, of store] by blast
    show ?thesis
    proof (cases phase)
      case Paired
      have "\<exists>i < length (fs_files (ps_fs p)). dr_marker d = Some i \<and> fs_files (ps_fs p) ! i = complete_file pair"
        if d: "d \<in> set (fs_dirs (ps_fs p))" for d
      proof -
        have "dir_ok pair (fs_files (ps_fs p)) d" "dr_marker d \<noteq> None" using fs paired Paired d by (simp_all add: fs_ok_def durable_def)
        then show ?thesis by (auto simp: dir_ok_def)
      qed
      then show ?thesis using rd ob ready Paired by simp
    next
      case Pending
      obtain cs fs' where run: "install_script ob \<lparr>pr_store = store, pr_pair = pair, pr_phase = phase, pr_empty_metadata = True\<rparr> = Inr cs"
          "run_calls cs (ps_fs p) = Inr fs'" and fs': "fs_ok pair fs'" "durable fs'"
        using script [OF Pending] run_ok [OF k fs] by blast
      let ?s = "s\<lparr>st_pair_state := Paired, st_serial := st_serial s + 1\<rparr>"
      have fr': "fresh_store store pair Paired ?s" using fr Pending by (auto simp: fresh_store_def)
      have rd': "read_pair_record ((ps_db p)\<lparr>db_store := Some ?s\<rparr>)
          = Inr (Some \<lparr>pr_store = store, pr_pair = pair, pr_phase = Paired, pr_empty_metadata = True\<rparr>)"
        by (rule read_pair_record_fresh [OF _ _ fr' assms(1) k]) (use me in \<open>simp_all add: metadata_empty_def\<close>)
      note ack = acknowledge_ok [OF me Some fr assms(1) k]
      have "install_pair store True \<lparr>pr_store = store, pr_pair = pair, pr_phase = phase, pr_empty_metadata = True\<rparr> (ps_fs p) = Inr (pair, fs')"
        by (simp add: install_pair_def ob(1) run)
      then show ?thesis using rd ob ack rd' Pending decide_ok [OF fs'(1) k, of Paired store] fs'(2) by auto
    qed
  qed
qed

section \<open>A pairing\<close>

definition demo_store :: string where "demo_store = replicate 64 CHR ''1''"
definition demo_pair :: string where "demo_pair = replicate 64 CHR ''2''"

definition demo_pending_db :: blob_db where
  "demo_pending_db = \<lparr>db_store = Some \<lparr>st_identity = demo_store, st_pair_id = demo_pair, st_pair_state = Pending, st_serial = 1,
     st_reserved = 0, st_used = 0, st_objects = 0, st_anonymous_reserved = 0, st_anonymous_used = 0\<rparr>, db_subjects = [], db_blobs = [], db_orphans = []\<rparr>"

definition demo_fs :: marker_fs where
  "demo_fs = \<lparr>fs_files = [], fs_dirs = [\<lparr>dr_marker = None, dr_pending = None\<rparr>]\<rparr>"

text \<open>Renamed, and the directory not yet synced.\<close>

definition demo_renamed :: marker_fs where
  "demo_renamed = \<lparr>fs_files = [complete_file demo_pair], fs_dirs = [\<lparr>dr_marker = Some 0, dr_pending = None\<rparr>,
     \<lparr>dr_marker = None, dr_pending = Some 0\<rparr>, \<lparr>dr_marker = None, dr_pending = None\<rparr>]\<rparr>"

lemma demo_keys: "object_key_parse demo_store = Inr demo_store" "object_key_parse demo_pair = Inr demo_pair"
  by (simp_all add: object_key_parse_def demo_store_def demo_pair_def list_all_iff lower_hex_def is_ascii_digit_def)

lemma calls_reach:
  "run_calls cs (ps_fs p) = Inr fs \<Longrightarrow> pairing_reach store p \<Longrightarrow> ps_task p = Some (q, cs @ rest) \<Longrightarrow>
     pairing_reach store (p\<lparr>ps_fs := fs, ps_task := Some (q, rest)\<rparr>)"
proof (induction cs arbitrary: p)
  case (Cons c cs)
  then obtain fs1 where c: "fs_apply c (ps_fs p) = Inr fs1" "run_calls cs fs1 = Inr fs" by (auto simp: res_simps)
  have "pairing_reach store (p\<lparr>ps_fs := fs1, ps_task := Some (q, cs @ rest)\<rparr>)"
    using pr_next [OF Cons.prems(2) ps_call [OF _ c(1)]] Cons.prems(3) by simp
  from Cons.IH [OF _ this] c(2) show ?case by simp
next
  case Nil
  then show ?case by (cases p) simp
qed

lemma demo_begin:
  "pairing_reach demo_store \<lparr>ps_db = demo_pending_db, ps_fs = demo_fs, ps_task = Some (demo_pair, write_script demo_pair), ps_proof = None\<rparr>"
proof -
  let ?ob = "\<lparr>po_store = demo_store, po_marker = None, po_pending = None, po_empty = True\<rparr>"
  let ?r = "\<lparr>pr_store = demo_store, pr_pair = demo_pair, pr_phase = Pending, pr_empty_metadata = True\<rparr>"
  have ob: "observe_pair demo_store True demo_fs = Inr ?ob" by (simp add: observe_pair_def demo_fs_def opened_def read_marker_def)
  have "prepare_pair ?ob demo_pair (ps_db unpaired) = Inr (\<lparr>pp_record = ?r, pp_step = InstallMarker demo_pair, pp_inserted = True\<rparr>, demo_pending_db)"
    by (simp add: prepare_pair_def read_pair_record_def unpaired_def decide_def demo_keys insert_pending_pair_def demo_pending_db_def)
  then have create: "pairing_reach demo_store (unpaired\<lparr>ps_db := demo_pending_db\<rparr>)"
    using pr_next [OF pr_init ps_create] ob by (simp add: unpaired_def demo_fs_def)
  have rd: "read_pair_record demo_pending_db = Inr (Some ?r)"
    by (rule read_pair_record_fresh [OF _ _ _ _ _, of _ "the (db_store demo_pending_db)"])
      (simp_all add: demo_pending_db_def metadata_empty_def fresh_store_def demo_keys)
  have "install_script ?ob ?r = Inr (write_script demo_pair)" by (simp add: install_script_def decide_def)
  then show ?thesis
    using pr_next [OF create ps_begin [of "unpaired\<lparr>ps_db := demo_pending_db\<rparr>" ?r demo_store ?ob]] rd ob by (simp add: unpaired_def demo_fs_def)
qed

lemma demo_reach:
  "pairing_reach demo_store \<lparr>ps_db = demo_pending_db, ps_fs = demo_renamed, ps_task = Some (demo_pair, sync_script demo_pair), ps_proof = None\<rparr>"
proof -
  let ?cs = "[CreatePendingFile, WritePending demo_pair, ProtectPending, SyncPending, RenamePending]"
  let ?p = "\<lparr>ps_db = demo_pending_db, ps_fs = demo_fs, ps_task = Some (demo_pair, write_script demo_pair), ps_proof = None\<rparr>"
  have "run_calls ?cs (ps_fs ?p) = Inr demo_renamed"
    by (simp add: fs_apply_def demo_fs_def demo_renamed_def rename_to_def on_pending_def complete_file_def)
  from calls_reach [OF this demo_begin, of demo_pair "sync_script demo_pair"] show ?thesis by (simp add: write_script_def)
qed

theorem pairing_recoverable_witness:
  "pairing_reach demo_store \<lparr>ps_db = demo_pending_db, ps_fs = demo_renamed, ps_task = Some (demo_pair, sync_script demo_pair), ps_proof = None\<rparr>
   \<and> \<not> durable demo_renamed
   \<and> (\<exists>r fs db ob' r'. read_pair_record demo_pending_db = Inr (Some r) \<and> install_pair demo_store True r demo_renamed = Inr (pr_pair r, fs)
        \<and> acknowledge_pair demo_store (pr_pair r) demo_pending_db = Inr ((), db)
        \<and> observe_pair demo_store True fs = Inr ob' \<and> read_pair_record db = Inr (Some r') \<and> decide ob' (Some r') = Inr (Ready (pr_pair r)))"
proof -
  have rd: "read_pair_record demo_pending_db
      = Inr (Some \<lparr>pr_store = demo_store, pr_pair = demo_pair, pr_phase = Pending, pr_empty_metadata = True\<rparr>)"
    by (rule read_pair_record_fresh [OF _ _ _ _ _, of _ "the (db_store demo_pending_db)"])
      (simp_all add: demo_pending_db_def metadata_empty_def fresh_store_def demo_keys)
  have "\<not> durable demo_renamed" by (simp add: durable_def demo_renamed_def)
  moreover have "is_ok (object_key_parse demo_store)" by (simp add: demo_keys)
  ultimately show ?thesis using pairing_recoverable [OF _ demo_reach] demo_reach rd by auto
qed

end
