(* ===== verification/Blob_System.thy ===== *)
theory Blob_System
  imports Blob_Pairing
begin

text \<open>
  The stored files of one application as a system: any number of requests, workers and
  garbage-collection passes read rows, hold on to what they read, and later act on it, each in a
  transaction of its own.  A state is the committed database and the set of rows somebody may still
  hold; a step is one committed operation.
\<close>

section \<open>Steps\<close>

type_synonym blob_system = "blob_db \<times> blob_row set"

inductive system_step :: "(bytes \<Rightarrow> bytes) \<Rightarrow> blob_system \<Rightarrow> blob_system \<Rightarrow> bool" for sha256 where
  sys_pending: "insert_pending_pair store pair db = Inr (n, db') \<Longrightarrow> system_step sha256 (db, S) (db', S)"
| sys_paired: "complete_pair store pair db = Inr (n, db') \<Longrightarrow> system_step sha256 (db, S) (db', S)"
| sys_load: "load sha256 ident v db = Inr (Some row) \<Longrightarrow> system_step sha256 (db, S) (db, insert row S)"
| sys_lock_stage: "lock_stage sha256 handle binding now db = Inr row \<Longrightarrow> system_step sha256 (db, S) (db, insert row S)"
| sys_lock_form: "lock_form store db = Inr (v, db') \<Longrightarrow> system_step sha256 (db, S) (db', S)"
| sys_reserve: "reserve sha256 q rnd db = Inr (Created row, db') \<Longrightarrow> reservation_ok q \<Longrightarrow>
    system_step sha256 (db, S) (db', insert row S)"
| sys_existing: "reserve sha256 q rnd db = Inr (Existing row, db') \<Longrightarrow> reservation_ok q \<Longrightarrow>
    system_step sha256 (db, S) (db', insert row S)"
| sys_publish: "row \<in> S \<Longrightarrow> publish sha256 row object now store guard db = Inr (row', db') \<Longrightarrow>
    length (do_sha256 object) = 32 \<Longrightarrow> system_step sha256 (db, S) (db', insert row' S)"
| sys_associate: "row \<in> S \<Longrightarrow> associate row a now db = Inr (blob, db') \<Longrightarrow> association_ok a \<Longrightarrow>
    system_step sha256 (db, S) (db', S)"
| sys_detach: "detach_resource resource rid inc expected db = Inr (v, db') \<Longrightarrow> system_step sha256 (db, S) (db', S)"
| sys_collect: "row \<in> S \<Longrightarrow> claim_collectable row process now db = Inr ((row', c), db') \<Longrightarrow> time_ok now \<Longrightarrow>
    is_ok (object_key_parse process) \<Longrightarrow> system_step sha256 (db, S) (db', insert row' S)"
| sys_stopped: "row \<in> S \<Longrightarrow> claim_stopped row process now stopped db = Inr ((row', c), db') \<Longrightarrow> time_ok now \<Longrightarrow>
    system_step sha256 (db, S) (db', insert row' S)"
| sys_recover: "row \<in> S \<Longrightarrow> recover_upload row fence now db = Inr ((row', c), db') \<Longrightarrow> time_ok now \<Longrightarrow>
    is_ok (object_key_parse (pf_process fence)) \<Longrightarrow> system_step sha256 (db, S) (db', insert row' S)"
| sys_resume: "row \<in> S \<Longrightarrow> resume_delete row fence now stopped db = Inr ((row', c), db') \<Longrightarrow> time_ok now \<Longrightarrow>
    is_ok (object_key_parse (pf_process fence)) \<Longrightarrow> system_step sha256 (db, S) (db', insert row' S)"
| sys_deleted: "row \<in> S \<Longrightarrow> finish_deletion row c store now db = Inr (row', db') \<Longrightarrow> time_ok now \<Longrightarrow>
    system_step sha256 (db, S) (db', insert row' S)"
| sys_quarantine: "quarantine_unknown key bytes paths store process now db = Inr (v, db') \<Longrightarrow>
    system_step sha256 (db, S) (db', S)"

definition empty_db :: blob_db where
  "empty_db = \<lparr>db_store = None, db_subjects = [], db_blobs = [], db_orphans = []\<rparr>"

inductive system_reach :: "(bytes \<Rightarrow> bytes) \<Rightarrow> blob_system \<Rightarrow> bool" for sha256 where
  reach_init: "system_reach sha256 (empty_db, {})"
| reach_step: "system_reach sha256 x \<Longrightarrow> system_step sha256 x y \<Longrightarrow> system_reach sha256 y"

section \<open>The invariant of the system\<close>

definition system_inv :: "(bytes \<Rightarrow> bytes) \<Rightarrow> blob_system \<Rightarrow> bool" where
  "system_inv sha256 x \<longleftrightarrow> db_inv sha256 (fst x) \<and> (\<forall>row \<in> snd x. coherent sha256 (fst x) row)"

lemma replaces_system:
  assumes "db_inv sha256 db' \<and> row_ok sha256 row' \<and> replaces sha256 db db' row row' \<and> db_orphans db' = db_orphans db"
    and "system_inv sha256 (db, S)"
  shows "system_inv sha256 (db', insert row' S)" and "system_inv sha256 (db', S)"
  using assms replaces_coherent [of sha256 db db' row row'] replaces_current [of sha256 db db' row row']
  by (auto simp: system_inv_def)

lemma coherent_blobs:
  assumes "coherent sha256 db row" and "set (db_blobs db) \<subseteq> set (db_blobs db')"
  shows "coherent sha256 db' row"
  using assms by (auto simp: coherent_def)

lemma same_blobs_system:
  assumes "system_inv sha256 (db, S)" and "db_inv sha256 db'" and "set (db_blobs db) \<subseteq> set (db_blobs db')"
  shows "system_inv sha256 (db', S)"
  using assms coherent_blobs by (auto simp: system_inv_def)

lemma insert_pending_inv:
  assumes "db_inv sha256 db" and "insert_pending_pair store pair db = Inr (n, db')"
  shows "db_inv sha256 db'" and "db_blobs db' = db_blobs db"
  using assms by (auto simp: insert_pending_pair_def db_inv_def store_counts_def split: if_splits)

lemma update_store_neutral:
  assumes "db_inv sha256 db" and "update_store P f db = Inr (n, db')"
    and "\<And>s. st_reserved (f s) = st_reserved s \<and> st_used (f s) = st_used s \<and> st_objects (f s) = st_objects s
      \<and> st_anonymous_reserved (f s) = st_anonymous_reserved s \<and> st_anonymous_used (f s) = st_anonymous_used s"
  shows "db_inv sha256 db'" and "db_blobs db' = db_blobs db" and "db_orphans db' = db_orphans db"
  using assms by (auto simp: update_store_def db_inv_def store_counts_def split: option.splits if_splits)

lemma lock_stage_Inr:
  assumes "lock_stage sha256 handle binding now db = Inr row"
  shows "row_ok sha256 row" and "to_nx row \<in> set (db_blobs db)"
proof -
  obtain r where f: "[r] = filter (\<lambda>r. nb_upload_handle r = handle \<and> nb_state r = ''staged'' \<and> nb_slot r = ub_slot binding
              \<and> nb_subject r = ub_subject binding \<and> nb_context r = ub_context binding \<and> nb_input r = ub_input binding
              \<and> nb_expires_ms r > now) (db_blobs db)" and p: "read_row sha256 r = Inr row"
    using assms by (auto simp: lock_stage_def read_row_def split: list.splits)
  have "r \<in> set (db_blobs db)" using arg_cong [OF f, of set] by auto
  then show "row_ok sha256 row" "to_nx row \<in> set (db_blobs db)" using p by (simp_all add: read_row_iff)
qed

lemma reserve_Existing:
  assumes "reserve sha256 q rnd db = Inr (Existing row, db')"
  shows "db' = db" and "row_ok sha256 row" and "to_nx row \<in> set (db_blobs db)"
    and "md_binding (br_metadata row) = rv_binding q"
proof -
  obtain ex where ld: "load sha256 BySlot (ub_slot (rv_binding q)) db = Inr ex"
    using assms by (auto simp: reserve_def res_simps split: if_splits)
  have "ex = Some row \<and> db' = db \<and> md_binding (br_metadata row) = rv_binding q"
    using assms ld by (cases ex) (auto simp: reserve_def res_simps Let_def split: if_splits prod.splits)
  then show "db' = db" "row_ok sha256 row" "to_nx row \<in> set (db_blobs db)" "md_binding (br_metadata row) = rv_binding q"
    using ld load_Some by auto
qed

lemma system_step_inv:
  assumes "system_inv sha256 (db, S)" and "system_step sha256 (db, S) y"
  shows "system_inv sha256 y"
proof -
  have inv: "db_inv sha256 db" and co: "\<And>row. row \<in> S \<Longrightarrow> coherent sha256 db row"
    using assms(1) by (auto simp: system_inv_def)
  have read: "system_inv sha256 (db, insert row S)" if "row_ok sha256 row" "to_nx row \<in> set (db_blobs db)" for row
    using assms(1) current_coherent [OF that] by (simp add: system_inv_def)
  from assms(2) show ?thesis
  proof (cases rule: system_step.cases)
    case (sys_pending store pair n db')
    then show ?thesis using insert_pending_inv [OF inv] same_blobs_system [OF assms(1)] by simp
  next
    case (sys_paired store pair n db')
    then show ?thesis
      using update_store_neutral [OF inv] same_blobs_system [OF assms(1)] by (simp add: complete_pair_def)
  next
    case (sys_lock_form store v db')
    then show ?thesis
      using update_store_neutral [OF inv] same_blobs_system [OF assms(1)]
      by (auto simp: lock_form_def lock_paired_store_def res_simps split: if_splits)
  next
    case (sys_load ident v row)
    then show ?thesis using read load_Some by blast
  next
    case (sys_lock_stage handle binding now row)
    then show ?thesis using read lock_stage_Inr by blast
  next
    case (sys_reserve q rnd row db')
    note R = reserve_inv [OF inv sys_reserve(3,2)]
    have "coherent sha256 db' row" using R by (intro current_coherent) auto
    then show ?thesis using sys_reserve(1) R same_blobs_system [OF assms(1) R(1)] by (auto simp: system_inv_def)
  next
    case (sys_existing q rnd row db')
    then show ?thesis using read reserve_Existing by blast
  next
    case (sys_publish row object now store guard row' db')
    then show ?thesis using replaces_system(1) [OF publish_inv [OF inv co] assms(1)] by blast
  next
    case (sys_associate row a now blob db')
    then obtain row' where "db_inv sha256 db' \<and> row_ok sha256 row' \<and> replaces sha256 db db' row row' \<and> db_orphans db' = db_orphans db"
      using associate_inv [OF inv co] by blast
    then show ?thesis using sys_associate(1) replaces_system(2) [OF _ assms(1)] by blast
  next
    case (sys_detach resource rid inc expected v db')
    then show ?thesis using detach_resource_inv [OF inv] co by (auto simp: system_inv_def)
  next
    case (sys_collect row process now row' c db')
    then show ?thesis using replaces_system(1) [OF claim_collectable_inv [OF inv co] assms(1)] by blast
  next
    case (sys_stopped row process now stopped row' c db')
    then show ?thesis using replaces_system(1) [OF claim_stopped_inv [OF inv co] assms(1)] by blast
  next
    case (sys_recover row fence now row' c db')
    then show ?thesis using replaces_system(1) [OF recover_upload_inv [OF inv co] assms(1)] by blast
  next
    case (sys_resume row fence now stopped row' c db')
    then show ?thesis using replaces_system(1) [OF resume_delete_inv [OF inv co] assms(1)] by blast
  next
    case (sys_deleted row c store now row' db')
    then show ?thesis using replaces_system(1) [OF finish_deletion_inv [OF inv co] assms(1)] by blast
  next
    case (sys_quarantine key bytes paths store process now v db')
    then show ?thesis using quarantine_inv [OF inv] same_blobs_system [OF assms(1)] by simp
  qed
qed

lemma system_reach_inv:
  assumes "system_reach sha256 x" shows "system_inv sha256 x"
  using assms
proof (induction rule: system_reach.induct)
  case reach_init
  then show ?case
    by (simp add: system_inv_def db_inv_def empty_db_def rows_ok_def blobs_unique_def subjects_ok_def)
next
  case (reach_step x y)
  then show ?case using system_step_inv by (cases x) blast
qed

section \<open>Exact accounting\<close>

text \<open>C1: the quota counters are exact in every reachable state.  However uploads, attachments,
  deletions and collections interleave, and however old the rows are that they act on, the store's
  reserved and used bytes and its object count equal the sums over the rows (and the quarantined
  objects), the anonymous counters the sums over the anonymous rows, and every subject's counters the
  sums over that subject's rows; every stored row stays readable.\<close>

theorem blob_accounting_exact:
  assumes "system_reach sha256 (db, S)" and "db_store db = Some s"
  shows "store_counts (db_blobs db) (db_orphans db) s \<and> subjects_ok (db_blobs db) (db_subjects db)
    \<and> (\<forall>r \<in> set (db_blobs db). is_ok (and_then (row_columns r) (row_parse sha256)))"
proof -
  have inv: "db_inv sha256 db" using system_reach_inv [OF assms(1)] by (simp add: system_inv_def)
  have "is_ok (read_row sha256 r)" if "r \<in> set (db_blobs db)" for r
    using inv that read_row_iff by (fastforce simp: db_inv_def rows_ok_def is_ok_iff)
  then show ?thesis using inv assms(2) by (simp add: db_inv_def read_row_def)
qed

section \<open>Fencing\<close>

text \<open>Whatever succeeds on a row that was read finds that row, at that generation, in the table.\<close>

definition fenced :: "blob_db \<Rightarrow> blob_row \<Rightarrow> bool" where
  "fenced db row \<longleftrightarrow>
     (\<exists>r \<in> set (db_blobs db). nb_slot r = row_slot row \<and> nb_generation r = md_generation (br_metadata row))"

lemma update_blobs_fenced:
  assumes "update_blobs P f db' = Inr (Suc 0, d)" and "db_blobs db' = db_blobs db"
    and "\<And>r. P r \<Longrightarrow> nb_slot r = row_slot row \<and> nb_generation r = md_generation (br_metadata row)"
  shows "fenced db row"
proof -
  have "length (filter P (db_blobs db)) = 1" using assms(1,2) by (simp add: update_blobs_Inr)
  then have "filter P (db_blobs db) \<noteq> []" by auto
  then obtain r where "r \<in> set (db_blobs db)" "P r" by (auto simp: filter_empty_conv)
  then show ?thesis using assms(3) by (auto simp: fenced_def)
qed

lemma update_store_blobs: "update_store P f db = Inr (n, db') \<Longrightarrow> db_blobs db' = db_blobs db"
  by (auto simp: update_store_def split: option.splits if_splits)

lemma update_subjects_blobs: "update_subjects P f db = Inr (n, db') \<Longrightarrow> db_blobs db' = db_blobs db"
  by (auto simp: update_subjects_Inr)

lemma persist_claim_fenced: "persist_claim row t process now db = Inr x \<Longrightarrow> fenced db row"
  unfolding persist_claim_def Let_def claim_for_deletion_def
  by (auto simp: res_simps row_slot_def intro!: update_blobs_fenced [where row = row] split: if_splits prod.splits)

lemma publish_fenced:
  assumes "is_ok (publish sha256 row object now store guard db)" shows "fenced db row"
proof -
  let ?m = "br_metadata row" and ?a = "of_bool (br_anonymous row) :: int"
  from assms obtain t r u db1 db2 db3 digest
    where st: "stage sha256 ?m (md_generation ?m) object now (md_binding ?m) = Inr t"
      and d1: "stage_store store r u ?a db = Inr (Suc 0, db1)"
      and d2: "stage_subject (ub_subject (md_binding ?m)) r u ?a db1 = Inr (Suc 0, db2)"
      and d3: "stage_blob (ub_slot (md_binding (tr_next t))) (md_generation (tr_next t)) u (hex digest)
          (md_handle (tr_next t)) (tr_expected t) (br_process row) now (ub_subject (md_binding (tr_next t)))
          (ub_context (md_binding (tr_next t))) (ub_input (md_binding (tr_next t))) db2 = Inr (Suc 0, db3)"
    by (auto simp: publish_def Let_def res_simps is_ok_iff split: if_splits prod.splits)
  have "tr_expected t = md_generation ?m" "md_binding (tr_next t) = md_binding ?m"
    using st by (auto simp: stage_def res_simps split: if_splits)
  moreover have "db_blobs db2 = db_blobs db"
    using d1 d2 update_store_blobs update_subjects_blobs by (auto simp: stage_store_def stage_subject_def)
  ultimately show ?thesis
    by (intro update_blobs_fenced [OF d3 [unfolded stage_blob_def]]) (auto simp: row_slot_def)
qed

lemma associate_fenced:
  assumes "is_ok (associate row a now db)" shows "fenced db row"
proof -
  let ?m = "br_metadata row"
  obtain t d where t: "attach ?m (md_generation ?m) now (md_binding ?m) (md_handle ?m) a = Inr t"
    and upd: "attach_blob (row_slot row) (md_generation (tr_next t)) (as_resource a) (as_id a)
        (as_incarnation a) (as_field a) (tr_expected t) (md_handle ?m) db = Inr (Suc 0, d)"
    using assms by (auto simp: associate_def Let_def res_simps row_slot_def is_ok_iff split: if_splits prod.splits)
  have "tr_expected t = md_generation ?m" using t by (auto simp: attach_def res_simps split: if_splits)
  then show ?thesis by (intro update_blobs_fenced [OF upd [unfolded attach_blob_def]]) auto
qed

lemma finish_deletion_fenced:
  assumes "is_ok (finish_deletion row c store now db)" shows "fenced db row"
proof -
  let ?m = "br_metadata row" and ?a = "of_bool (br_anonymous row) :: int"
  from assms obtain t r u db1 db2 db3
    where del: "deleted ?m c = Inr t"
      and d1: "release_store store r u ?a db = Inr (Suc 0, db1)"
      and d2: "release_subject (ub_subject (md_binding ?m)) r u ?a db1 = Inr (Suc 0, db2)"
      and d3: "mark_deleted (ub_slot (md_binding ?m)) (md_generation (tr_next t)) now (tr_expected t) (br_process row) db2
          = Inr (Suc 0, db3)"
    by (auto simp: finish_deletion_def number_def Let_def res_simps is_ok_iff split: if_splits prod.splits)
  have "tr_expected t = md_generation ?m" using del by (auto simp: deleted_def res_simps split: if_splits)
  moreover have "db_blobs db2 = db_blobs db"
    using d1 d2 update_store_blobs update_subjects_blobs by (auto simp: release_store_def release_subject_def)
  ultimately show ?thesis
    by (intro update_blobs_fenced [OF d3 [unfolded mark_deleted_def]]) (auto simp: row_slot_def)
qed

lemma stale_row_fails:
  assumes "system_reach sha256 (db, S)"
    and "r \<in> set (db_blobs db)" and "nb_slot r = row_slot row"
    and "nb_generation r \<noteq> md_generation (br_metadata row)"
  shows "\<not> is_ok (publish sha256 row object now store guard db)"
    and "\<not> is_ok (associate row a now db)"
    and "\<not> is_ok (claim_collectable row process now db)"
    and "\<not> is_ok (claim_stopped row process now stopped db)"
    and "\<not> is_ok (recover_upload row fence now db)"
    and "\<not> is_ok (resume_delete row fence now mstopped db)"
    and "\<not> is_ok (finish_deletion row c store now db)"
proof -
  have "db_inv sha256 db" using system_reach_inv [OF assms(1)] by (simp add: system_inv_def)
  then have d: "distinct (map nb_slot (db_blobs db))" by (rule blobs_slots_distinct)
  have nf: "\<not> fenced db row"
    using assms(2-4) d unfolding fenced_def distinct_map by (metis inj_onD)
  then show "\<not> is_ok (publish sha256 row object now store guard db)" "\<not> is_ok (associate row a now db)"
    "\<not> is_ok (finish_deletion row c store now db)"
    using publish_fenced associate_fenced finish_deletion_fenced by blast+
  show "\<not> is_ok (claim_collectable row process now db)" "\<not> is_ok (claim_stopped row process now stopped db)"
    "\<not> is_ok (recover_upload row fence now db)" "\<not> is_ok (resume_delete row fence now mstopped db)"
    using nf persist_claim_fenced
    by (auto simp: is_ok_iff claim_collectable_def claim_stopped_def recover_upload_def resume_delete_def res_simps
        split: prod.splits if_splits)
qed

text \<open>A commit on the strength of a row that was read: one of the seven operations that take such a row.\<close>

inductive row_commit :: "(bytes \<Rightarrow> bytes) \<Rightarrow> blob_row \<Rightarrow> blob_db \<Rightarrow> blob_db \<Rightarrow> bool" for sha256 row db db' where
  by_publish: "publish sha256 row object now store guard db = Inr (row', db') \<Longrightarrow> length (do_sha256 object) = 32 \<Longrightarrow>
    row_commit sha256 row db db'"
| by_associate: "associate row a now db = Inr (blob, db') \<Longrightarrow> association_ok a \<Longrightarrow> row_commit sha256 row db db'"
| by_collect: "claim_collectable row process now db = Inr ((row', c), db') \<Longrightarrow> time_ok now \<Longrightarrow>
    is_ok (object_key_parse process) \<Longrightarrow> row_commit sha256 row db db'"
| by_stopped: "claim_stopped row process now stopped db = Inr ((row', c), db') \<Longrightarrow> time_ok now \<Longrightarrow> row_commit sha256 row db db'"
| by_recover: "recover_upload row fence now db = Inr ((row', c), db') \<Longrightarrow> time_ok now \<Longrightarrow>
    is_ok (object_key_parse (pf_process fence)) \<Longrightarrow> row_commit sha256 row db db'"
| by_resume: "resume_delete row fence now stopped db = Inr ((row', c), db') \<Longrightarrow> time_ok now \<Longrightarrow>
    is_ok (object_key_parse (pf_process fence)) \<Longrightarrow> row_commit sha256 row db db'"
| by_deleted: "finish_deletion row c store now db = Inr (row', db') \<Longrightarrow> time_ok now \<Longrightarrow> row_commit sha256 row db db'"

lemma commit_step:
  assumes "row_commit sha256 row db db'" and "row \<in> S"
  shows "\<exists>S'. S \<subseteq> S' \<and> system_step sha256 (db, S) (db', S')"
  using assms by (cases rule: row_commit.cases) (blast intro: system_step.intros)+

lemma commit_replaces:
  assumes "row_commit sha256 row db db'" and inv: "db_inv sha256 db" and co: "coherent sha256 db row"
  shows "\<exists>row'. db_inv sha256 db' \<and> row_ok sha256 row' \<and> replaces sha256 db db' row row'"
  using assms(1)
proof (cases rule: row_commit.cases)
  case by_publish
  then show ?thesis using publish_inv [OF inv co] by blast
next
  case by_associate
  then show ?thesis using associate_inv [OF inv co] by blast
next
  case by_collect
  then show ?thesis using claim_collectable_inv [OF inv co] by blast
next
  case by_stopped
  then show ?thesis using claim_stopped_inv [OF inv co] by blast
next
  case by_recover
  then show ?thesis using recover_upload_inv [OF inv co] by blast
next
  case by_resume
  then show ?thesis using resume_delete_inv [OF inv co] by blast
next
  case by_deleted
  then show ?thesis using finish_deletion_inv [OF inv co] by blast
qed

text \<open>Somebody else's rows do not matter to a step, so a row may be watched while the system runs: its
  generation never falls behind what it was.\<close>

lemma step_watching:
  assumes "system_step sha256 (db, S) (db', S')"
  shows "system_step sha256 (db, insert row S) (db', insert row S')"
  using assms
  by (cases rule: system_step.cases) (auto simp: insert_commute [of row] intro: system_step.intros)

lemma steps_watching:
  assumes "(system_step sha256)\<^sup>*\<^sup>* (db, S) x" and "system_inv sha256 (db, insert row S)"
  shows "system_inv sha256 (fst x, insert row (snd x))"
  using assms
proof (induction rule: rtranclp_induct)
  case base
  then show ?case by simp
next
  case (step y z)
  have "system_step sha256 (fst y, insert row (snd y)) (fst z, insert row (snd z))"
    using step.hyps(2) by (intro step_watching) simp
  then show ?case using step.IH [OF step.prems] system_step_inv by blast
qed

lemma steps_reach: "(system_step sha256)\<^sup>*\<^sup>* x y \<Longrightarrow> system_reach sha256 x \<Longrightarrow> system_reach sha256 y"
  by (induction rule: rtranclp_induct) (auto intro: reach_step)

lemma same_slot_row:
  assumes "db_inv sha256 db" and "r \<in> set (db_blobs db)" and "r' \<in> set (db_blobs db)" and "nb_slot r = nb_slot r'"
  shows "r = r'"
  using assms blobs_slots_distinct by (metis distinct_map inj_onD)

lemma commit_outdates:
  assumes reach: "system_reach sha256 (db, S)" and row: "row \<in> S" and q: "q \<in> S" "row_slot q = row_slot row"
    and commit: "row_commit sha256 row db db1" and step: "system_step sha256 (db, S) (db1, S1)"
    and later: "(system_step sha256)\<^sup>*\<^sup>* (db1, S1) (db2, S2)"
  shows "\<exists>r \<in> set (db_blobs db2). nb_slot r = row_slot q \<and> md_generation (br_metadata q) < nb_generation r"
proof -
  have inv: "db_inv sha256 db" and co: "coherent sha256 db row" "coherent sha256 db q"
    using system_reach_inv [OF reach] row q(1) by (auto simp: system_inv_def)
  obtain row' where new: "row_ok sha256 row'" "replaces sha256 db db1 row row'" using commit_replaces [OF commit inv co(1)] by blast
  have g: "row_slot row' = row_slot row" "md_generation (br_metadata row') = md_generation (br_metadata row) + 1"
    "to_nx row \<in> set (db_blobs db)"
    using new(2) by (auto simp: replaces_def)
  obtain r0 where r0: "r0 \<in> set (db_blobs db)" "nb_slot r0 = row_slot q" "md_generation (br_metadata q) \<le> nb_generation r0"
    using co(2) by (auto simp: coherent_def)
  have "r0 = to_nx row" using same_slot_row [OF inv r0(1) g(3)] r0(2) q(2) by simp
  then have old: "md_generation (br_metadata q) \<le> md_generation (br_metadata row)" using r0(3) by simp
  have "system_inv sha256 (db1, S1)" using system_reach_inv [OF reach_step [OF reach step]] .
  then have "system_inv sha256 (db1, insert row' S1)" using replaces_current [OF new(2,1)] by (simp add: system_inv_def)
  from steps_watching [OF later this] have "coherent sha256 db2 row'" by (simp add: system_inv_def)
  then obtain r where "r \<in> set (db_blobs db2)" "nb_slot r = row_slot row'" "md_generation (br_metadata row') \<le> nb_generation r"
    by (auto simp: coherent_def)
  with g(1,2) old q(2) show ?thesis by (intro bexI [of _ r]) auto
qed

text \<open>C2: of the actors that hold rows of a file, one commits.  When an operation commits on the strength of a
  row that was read, its commit advances the generation of the file for good: whatever the system
  does afterwards, publishing, attaching, claiming, recovering, resuming or finishing a deletion fails for
  every row of that file that anybody had read by then, the committed one included.\<close>

theorem stale_row_rejected:
  assumes "system_reach sha256 (db, S)" and "row \<in> S" and "q \<in> S" and "row_slot q = row_slot row"
    and "row_commit sha256 row db db1" and "system_step sha256 (db, S) (db1, S1)"
    and "(system_step sha256)\<^sup>*\<^sup>* (db1, S1) (db2, S2)"
  shows "(\<exists>r \<in> set (db_blobs db2). nb_slot r = row_slot q \<and> md_generation (br_metadata q) < nb_generation r)
    \<and> \<not> is_ok (publish sha256 q object now store guard db2)
    \<and> \<not> is_ok (associate q a now db2)
    \<and> \<not> is_ok (claim_collectable q process now db2)
    \<and> \<not> is_ok (claim_stopped q process now stopped db2)
    \<and> \<not> is_ok (recover_upload q fence now db2)
    \<and> \<not> is_ok (resume_delete q fence now mstopped db2)
    \<and> \<not> is_ok (finish_deletion q c store now db2)"
proof -
  obtain r where r: "r \<in> set (db_blobs db2)" "nb_slot r = row_slot q" "md_generation (br_metadata q) < nb_generation r"
    using commit_outdates [OF assms] by blast
  have reach: "system_reach sha256 (db2, S2)" by (rule steps_reach [OF assms(7) reach_step [OF assms(1,6)]])
  have "nb_generation r \<noteq> md_generation (br_metadata q)" using r(3) by simp
  note fails = stale_row_fails [OF reach r(1,2) this]
  show ?thesis using r by (intro conjI fails) blast
qed

section \<open>Ceilings\<close>

definition charged :: "nx_blob list \<Rightarrow> int" where
  "charged blobs = tot (\<lambda>r. nb_reserved_bytes r + nb_actual_bytes r) blobs"

lemma charged_sum: "charged blobs = tot nb_reserved_bytes blobs + tot nb_actual_bytes blobs"
  by (induction blobs) (simp_all add: charged_def)

lemma blob_step_shrinks:
  assumes "blob_step sha256 m t"
  shows "md_reserved (tr_next t) + md_bytes (tr_next t) \<le> md_reserved m + md_bytes m" and "live (tr_next t) \<le> live m"
  using assms
  by (cases rule: blob_step.cases; auto simp: transition_defs res_simps live_def split: if_splits)+

lemma replaces_shrinks:
  assumes "replaces sha256 db db' row row'"
  shows "charged (db_blobs db') \<le> charged (db_blobs db) \<and> tot alive (db_blobs db') \<le> tot alive (db_blobs db)"
  using assms blob_step_shrinks [of sha256 "br_metadata row"]
  by (force simp: replaces_def charged_def alive_to_nx)

lemma unchanged_store_charge:
  assumes "db_inv sha256 db" and "db_inv sha256 db'" and "db_store db' = db_store db" and "db_orphans db' = db_orphans db"
  shows "charged (db_blobs db') = charged (db_blobs db) \<and> tot alive (db_blobs db') = tot alive (db_blobs db)"
  using assms by (cases "db_store db") (auto simp: db_inv_def store_counts_def charged_sum)

lemma detach_store: "detach_resource resource rid inc expected db = Inr (v, db') \<Longrightarrow> db_store db' = db_store db"
  by (auto simp: detach_resource_def unreference_blobs_def update_blobs_Inr Let_def res_simps split: if_splits)

lemma system_step_charge:
  assumes "system_inv sha256 (db, S)" and "system_step sha256 (db, S) (db', S')"
  shows "charged (db_blobs db') \<le> charged (db_blobs db) \<and> tot alive (db_blobs db') \<le> tot alive (db_blobs db)
    \<or> charged (db_blobs db') \<le> int MAX_APP_BLOB_BYTES \<and> tot alive (db_blobs db') \<le> int MAX_APP_BLOB_OBJECTS"
proof -
  have inv: "db_inv sha256 db" and co: "\<And>row. row \<in> S \<Longrightarrow> coherent sha256 db row"
    using assms(1) by (auto simp: system_inv_def)
  have inv': "db_inv sha256 db'" using system_step_inv [OF assms] by (simp add: system_inv_def)
  from assms(2) show ?thesis
  proof (cases rule: system_step.cases)
    case (sys_pending store pair n)
    then show ?thesis using insert_pending_inv [OF inv] by simp
  next
    case (sys_paired store pair n)
    then show ?thesis using update_store_neutral [OF inv] by (simp add: complete_pair_def)
  next
    case (sys_lock_form store v)
    then show ?thesis
      using update_store_neutral [OF inv] by (auto simp: lock_form_def lock_paired_store_def res_simps split: if_splits)
  next
    case (sys_reserve q rnd row)
    note R = reserve_inv [OF inv sys_reserve(3,2)]
    have "bl_app_bytes (bp_limits (rv_policy q)) \<le> MAX_APP_BLOB_BYTES" "bl_objects (bp_limits (rv_policy q)) \<le> MAX_APP_BLOB_OBJECTS"
      using R(6) by (auto simp: limits_validate_Inr limits_le_def limits_default_def)
    then show ?thesis using R(4,5) inv' by (auto simp: db_inv_def store_counts_def charged_sum)
  next
    case (sys_existing q rnd row)
    then show ?thesis using reserve_Existing(1) by blast
  next
    case (sys_publish row object now store guard row')
    then show ?thesis using publish_inv [OF inv co] replaces_shrinks by blast
  next
    case (sys_associate row a now blob)
    then show ?thesis using associate_inv [OF inv co] replaces_shrinks by blast
  next
    case (sys_detach resource rid inc expected v)
    then show ?thesis using detach_resource_inv(1) [OF inv] detach_store unchanged_store_charge [OF inv inv'] by fastforce
  next
    case (sys_collect row process now row' c)
    then show ?thesis using claim_collectable_inv [OF inv co] replaces_shrinks by blast
  next
    case (sys_stopped row process now stopped row' c)
    then show ?thesis using claim_stopped_inv [OF inv co] replaces_shrinks by blast
  next
    case (sys_recover row fence now row' c)
    then show ?thesis using recover_upload_inv [OF inv co] replaces_shrinks by blast
  next
    case (sys_resume row fence now stopped row' c)
    then show ?thesis using resume_delete_inv [OF inv co] replaces_shrinks by blast
  next
    case (sys_deleted row c store now row')
    then show ?thesis using finish_deletion_inv [OF inv co] replaces_shrinks by blast
  next
    case (sys_quarantine key bytes paths store process now v)
    then show ?thesis using quarantine_inv [OF inv] by simp
  qed simp_all
qed

lemma system_reach_charge:
  assumes "system_reach sha256 x"
  shows "charged (db_blobs (fst x)) \<le> int MAX_APP_BLOB_BYTES \<and> tot alive (db_blobs (fst x)) \<le> int MAX_APP_BLOB_OBJECTS"
  using assms
proof (induction rule: system_reach.induct)
  case reach_init
  then show ?case by (simp add: empty_db_def charged_def)
next
  case (reach_step x y)
  then show ?case
    using system_step_charge [of sha256 "fst x" "snd x" "fst y" "snd y"] system_reach_inv [OF reach_step.hyps(1)] by auto
qed

text \<open>C9: no interleaving exceeds the hard ceilings.  In every reachable state the bytes charged to
  stored files (reserved and used together) stay within one gibibyte and their number within 65536;
  with no quarantined objects that bounds the store's counters themselves.\<close>

theorem blob_ceilings_hold:
  assumes "system_reach sha256 (db, S)" and "db_store db = Some s"
  shows "st_reserved s + st_used s - tot or_charged_bytes (db_orphans db) \<le> int MAX_APP_BLOB_BYTES
    \<and> st_objects s - tot or_charged_objects (db_orphans db) \<le> int MAX_APP_BLOB_OBJECTS
    \<and> (db_orphans db = [] \<longrightarrow> st_reserved s + st_used s \<le> int MAX_APP_BLOB_BYTES \<and> st_objects s \<le> int MAX_APP_BLOB_OBJECTS)"
proof -
  have "db_inv sha256 db" using system_reach_inv [OF assms(1)] by (simp add: system_inv_def)
  then have "store_counts (db_blobs db) (db_orphans db) s" using assms(2) by (simp add: db_inv_def)
  then show ?thesis using system_reach_charge [OF assms(1)] by (auto simp: store_counts_def charged_sum)
qed

section \<open>A concrete run\<close>

definition sample_key :: "char \<Rightarrow> string" where
  "sample_key c = replicate 64 c"

definition paired_store :: store_row where
  "paired_store = \<lparr>st_identity = sample_key CHR ''1'', st_pair_id = sample_key CHR ''2'', st_pair_state = Paired,
     st_serial = 2, st_reserved = 0, st_used = 0, st_objects = 0, st_anonymous_reserved = 0, st_anonymous_used = 0\<rparr>"

definition sample_reservation :: reservation where
  "sample_reservation =
     \<lparr>rv_binding = \<lparr>ub_slot = sample_key CHR ''a'', ub_subject = sample_key CHR ''b'', ub_context = sample_key CHR ''c'',
        ub_input = sample_key CHR ''d''\<rparr>,
      rv_filename = ''a.txt'', rv_limit = 10, rv_now = 1000,
      rv_policy = \<lparr>bp_limits = limits_default, bp_anonymous = None, bp_uploads = []\<rparr>, rv_capability = None,
      rv_store = sample_key CHR ''1'', rv_process = sample_key CHR ''5''\<rparr>"

definition sample_ids :: random_ids where
  "sample_ids = \<lparr>rnd_key = sample_key CHR ''6'', rnd_blob = sample_key CHR ''7'', rnd_handle = sample_key CHR ''8''\<rparr>"

definition sample_row :: blob_row where
  "sample_row = reserved_row sample_reservation (sample_key CHR ''6'') (''b1_'' @ sample_key CHR ''7'')
     (''u1_'' @ sample_key CHR ''8'') 901000"

definition sample_db :: blob_db where
  "sample_db =
     \<lparr>db_store = Some (paired_store\<lparr>st_reserved := 10, st_objects := 1, st_serial := 3\<rparr>),
      db_subjects = [\<lparr>sb_subject = sample_key CHR ''b'', sb_anonymous = 0, sb_reserved = 10, sb_used = 0, sb_objects = 1\<rparr>],
      db_blobs = [to_nx sample_row], db_orphans = []\<rparr>"

lemma sample_key_ok:
  "c \<in> set ''0123456789abcdef'' \<Longrightarrow> object_key_parse (sample_key c) = Inr (sample_key c)"
  "c \<in> set ''0123456789abcdef'' \<Longrightarrow> commitment_parse (sample_key c) = Inr (sample_key c)"
  "c \<in> set ''0123456789abcdef'' \<Longrightarrow> blob_ref_parse (''b1_'' @ sample_key c) = Inr (''b1_'' @ sample_key c)"
  "c \<in> set ''0123456789abcdef'' \<Longrightarrow> upload_handle_parse (''u1_'' @ sample_key c) = Inr (''u1_'' @ sample_key c)"
  by (auto simp: object_key_parse_def commitment_parse_def blob_ref_parse_def upload_handle_parse_def opaque_token_def
      strip_prefix_list_def sample_key_def list_all_iff lower_hex_def is_ascii_digit_def)

lemma sample_reach_paired:
  "system_reach sha256 (\<lparr>db_store = Some paired_store, db_subjects = [], db_blobs = [], db_orphans = []\<rparr>, {})"
proof -
  let ?p = "paired_store\<lparr>st_pair_state := Pending, st_serial := 1\<rparr>"
  have "insert_pending_pair (sample_key CHR ''1'') (sample_key CHR ''2'') empty_db
      = Inr (1, \<lparr>db_store = Some ?p, db_subjects = [], db_blobs = [], db_orphans = []\<rparr>)"
    by (simp add: insert_pending_pair_def empty_db_def paired_store_def)
  then have r: "system_reach sha256 (\<lparr>db_store = Some ?p, db_subjects = [], db_blobs = [], db_orphans = []\<rparr>, {})"
    by (rule reach_step [OF reach_init sys_pending])
  have "complete_pair (sample_key CHR ''1'') (sample_key CHR ''2'') \<lparr>db_store = Some ?p, db_subjects = [], db_blobs = [], db_orphans = []\<rparr>
      = Inr (1, \<lparr>db_store = Some paired_store, db_subjects = [], db_blobs = [], db_orphans = []\<rparr>)"
    by (simp add: complete_pair_def update_store_def paired_store_def I64_LIMIT_def store_check_def)
  then show ?thesis by (rule reach_step [OF r sys_paired])
qed

lemma sample_reserve:
  "reserve sha256 sample_reservation sample_ids \<lparr>db_store = Some paired_store, db_subjects = [], db_blobs = [], db_orphans = []\<rparr>
     = Inr (Created sample_row, sample_db)"
proof -
  have lv: "validate_limits (rv_policy sample_reservation) = Inr ()"
    by (simp add: sample_reservation_def validate_limits_def limits_validate_def limits_default_def blob_consts)
  note tok = sample_key_ok(3) [of "CHR ''7''", simplified] sample_key_ok(4) [of "CHR ''8''", simplified]
  show ?thesis
    unfolding reserve_def lv
    by (simp add: sample_reservation_def sample_ids_def load_def reserve_quotas_def number_def i64_try_from_u64_def int_defs
        limits_default_def blob_consts reserve_store_def update_store_def paired_store_def I64_LIMIT_def store_check_def
        reserve_subject_def subject_check_def sample_key_ok tok duration_from_millis_def duration_try_from_def
        timestamp_checked_add_def checked_add_i64_def in_i64_def timestamp_try_from_def reserved_row_def inserted_row_def
        insert_blob_def blob_check_def blobs_unique_def sample_db_def sample_row_def to_nx_def Let_def U64_LIMIT_def)
qed

lemma sample_reach: "system_reach sha256 (sample_db, {sample_row})"
proof (rule reach_step [OF sample_reach_paired])
  have nm: "attachment_name ''a.txt''" by code_simp
  have "reservation_ok sample_reservation"
    using nm by (simp add: reservation_ok_def sample_reservation_def binding_ok_def sample_key_ok time_ok_def int_defs)
  then show "system_step sha256 (\<lparr>db_store = Some paired_store, db_subjects = [], db_blobs = [], db_orphans = []\<rparr>, {})
      (sample_db, {sample_row})"
    by (rule sys_reserve [OF sample_reserve])
qed

theorem blob_accounting_exact_witness:
  "system_reach sample_sha256 (sample_db, {sample_row})
   \<and> store_counts (db_blobs sample_db) [] (paired_store\<lparr>st_reserved := 10, st_objects := 1, st_serial := 3\<rparr>)"
  using blob_accounting_exact [OF sample_reach [of sample_sha256], of "paired_store\<lparr>st_reserved := 10, st_objects := 1, st_serial := 3\<rparr>"]
    sample_reach by (simp add: sample_db_def)

text \<open>Two actors hold the row of a cancelled upload; the first one claims it.\<close>

definition sample_stopped :: completion where
  "sample_stopped = \<lparr>co_key = sample_key CHR ''6'', co_generation = 1, co_cancelled = True, co_stopped = True, co_outcome = Failed\<rparr>"

definition sample_claimed :: blob_row where
  "sample_claimed = sample_row\<lparr>br_metadata := (br_metadata sample_row)\<lparr>md_generation := 2, md_state := Deleting\<rparr>, br_claimed := 2000\<rparr>"

definition sample_claimed_db :: blob_db where
  "sample_claimed_db = sample_db\<lparr>db_blobs := [to_nx sample_claimed]\<rparr>"

lemma sample_claim:
  "claim_stopped sample_row (sample_key CHR ''5'') 2000 sample_stopped sample_db
     = Inr ((sample_claimed, \<lparr>gc_key = sample_key CHR ''6'', gc_generation = 2\<rparr>), sample_claimed_db)"
  by (simp add: claim_stopped_def claim_stopped_upload_def persist_claim_def claim_for_deletion_def update_blobs_def candidate_def
      generation_next_def generation_parse_def checked_add_i64_def in_i64_def int_defs with_claim_def failed_or_cancelled_def
      sample_stopped_def sample_claimed_def sample_claimed_db_def sample_row_def reserved_row_def sample_reservation_def sample_db_def
      to_nx_def row_slot_def blob_check_def blobs_unique_def no_delta_def Let_def)

theorem stale_row_rejected_witness:
  "row_commit sample_sha256 sample_row sample_db sample_claimed_db
   \<and> \<not> is_ok (claim_stopped sample_row (sample_key CHR ''5'') 2000 sample_stopped sample_claimed_db)"
proof -
  have now: "time_ok 2000" by (simp add: time_ok_def int_defs)
  have commit: "row_commit sample_sha256 sample_row sample_db sample_claimed_db" by (rule by_stopped [OF sample_claim now])
  have step: "system_step sample_sha256 (sample_db, {sample_row}) (sample_claimed_db, {sample_claimed, sample_row})"
    by (rule sys_stopped [OF _ sample_claim now]) simp
  from stale_row_rejected [OF sample_reach _ _ _ commit step, of sample_row] commit show ?thesis by blast
qed

theorem blob_ceilings_hold_witness:
  "system_reach sample_sha256 (sample_db, {sample_row})
   \<and> st_reserved (the (db_store sample_db)) + st_used (the (db_store sample_db)) \<le> int MAX_APP_BLOB_BYTES"
  using blob_ceilings_hold [OF sample_reach [of sample_sha256], of "the (db_store sample_db)"] sample_reach
  by (simp add: sample_db_def)

text \<open>C40: quarantined objects are outside the ceilings, and the next start refuses them.
  \<open>quarantine_unknown\<close> charges an object the database does not know without comparing the counters
  to the hard ceiling, while \<open>pair_record\<close>, read at every start, demands counters within it: from a
  freshly paired store, quarantining a single unknown file one byte larger than the ceiling commits
  and leaves a reachable state whose pairing can no longer be read.\<close>

theorem quarantine_blocks_restart:
  "\<exists>db'. quarantine_unknown (sample_key CHR ''9'') (MAX_APP_BLOB_BYTES + 1) 1 (sample_key CHR ''1'') (sample_key CHR ''5'') 1000
       \<lparr>db_store = Some paired_store, db_subjects = [], db_blobs = [], db_orphans = []\<rparr> = Inr ((), db')
     \<and> system_reach sha256 (db', {}) \<and> read_pair_record db' = Inl ''invalid blob store counters''"
proof -
  let ?n = "int (MAX_APP_BLOB_BYTES + 1)"
  let ?db' = "\<lparr>db_store = Some (paired_store\<lparr>st_used := ?n, st_objects := 1, st_serial := 3\<rparr>), db_subjects = [], db_blobs = [],
      db_orphans = [\<lparr>or_object_key = sample_key CHR ''9'', or_first_seen_ms = 1000, or_charged_bytes = ?n,
        or_charged_objects = 1, or_owner_process = sample_key CHR ''5''\<rparr>]\<rparr>"
  have q: "quarantine_unknown (sample_key CHR ''9'') (MAX_APP_BLOB_BYTES + 1) 1 (sample_key CHR ''1'') (sample_key CHR ''5'') 1000
       \<lparr>db_store = Some paired_store, db_subjects = [], db_blobs = [], db_orphans = []\<rparr> = Inr ((), ?db')"
    by (simp add: quarantine_unknown_def number_def i64_try_from_u64_def int_defs blob_consts insert_orphan_def orphan_check_def
        charge_orphan_def update_store_def paired_store_def I64_LIMIT_def store_check_def)
  have z: "unsigned (show_int 0) = Inr 0" "integer (show_int 3) = Inr 3" "unsigned (show_int 1) = Inr 1"
    "unsigned (show_int 1073741825) = Inr 1073741825"
    by (simp_all add: unsigned_show integer_show int_defs)
  have "read_pair_record ?db' = Inl ''invalid blob store counters''"
    by (simp add: read_pair_record_def paired_store_def within_def sample_key_def z blob_consts checked_add_u64_def int_defs)
  then show ?thesis using q reach_step [OF sample_reach_paired sys_quarantine [OF q]] by blast
qed

end
