(* ===== verification/Matcher.thy ===== *)
theory Matcher
  imports Prelude "HOL-Library.Sublist"
begin

text \<open>
  \<open>Matcher\<close> of \<^verbatim>\<open>crates/noxide-blobs/src/multipart.rs\<close>: streaming search for a delimiter with
  a failure table.  Bytes that turn out not to belong to the delimiter are handed to a callback, which
  has a state of its own and may fail; a call returns the callback's state also when it fails.

  The loops follow the failure table.  A table whose entries do not decrease would make them run
  forever, and an index past the delimiter would panic: both are an explicit outcome (\<open>None\<close>, or the
  error \<open>STUCK\<close>), which \<open>matcher_new_correct\<close> and \<open>feed_correct\<close> show never to arise.
\<close>

section \<open>Definitions\<close>

record matcher =
  mt_delimiter :: bytes
  mt_failure :: "nat list"
  mt_matched :: nat

type_synonym ('s, 'a) sres = "'s \<times> 'a res"
type_synonym 's emitter = "bytes \<Rightarrow> 's \<Rightarrow> ('s, unit) sres"

definition STUCK :: string where "STUCK = ''stuck''"

function (domintros) fall :: "bytes \<Rightarrow> nat list \<Rightarrow> char \<Rightarrow> nat \<Rightarrow> nat option" where
  "fall d f c m =
     (if m < length d \<and> m \<le> length f then
        if m > 0 \<and> c \<noteq> d ! m then
          (let fallback = f ! (m - 1) in if fallback < m then fall d f c fallback else None)
        else Some m
      else None)"
  by pat_completeness auto

termination by (relation "measure (\<lambda>(d, f, c, m). m)") auto

fun failure_table :: "bytes \<Rightarrow> nat list \<Rightarrow> nat \<Rightarrow> nat list \<Rightarrow> nat list option" where
  "failure_table d [] matched f = Some f"
| "failure_table d (i # is) matched f =
     (case fall d f (d ! i) matched of
        None \<Rightarrow> None
      | Some m \<Rightarrow> (let m' = (if d ! i = d ! m then m + 1 else m) in failure_table d is m' (f[i := m'])))"

definition matcher_new :: "bytes \<Rightarrow> matcher res" where
  "matcher_new d =
     and_then (ok_or (failure_table d [1..<length d] 0 (replicate (length d) 0)) STUCK) (\<lambda>f.
     Inr \<lparr>mt_delimiter = d, mt_failure = f, mt_matched = 0\<rparr>)"

function (domintros) release_loop :: "bytes \<Rightarrow> nat list \<Rightarrow> char \<Rightarrow> 's emitter \<Rightarrow> nat \<Rightarrow> 's \<Rightarrow> nat \<times> ('s, unit) sres" where
  "release_loop d f c emit m s =
     (if m < length d \<and> m \<le> length f then
        if m > 0 \<and> d ! m \<noteq> c then
          (let fallback = f ! (m - 1) in
           if fallback < m then
             (case emit (take (m - fallback) d) s of
                (s, Inl e) \<Rightarrow> (m, s, Inl e)
              | (s, Inr _) \<Rightarrow> release_loop d f c emit fallback s)
           else (m, s, Inl STUCK))
        else (m, s, Inr ())
      else (m, s, Inl STUCK))"
  by pat_completeness auto

termination by (relation "measure (\<lambda>(d, f, c, emit, m, s). m)") auto

definition matcher_byte :: "matcher \<Rightarrow> char \<Rightarrow> 's emitter \<Rightarrow> 's \<Rightarrow> matcher \<times> ('s, bool) sres" where
  "matcher_byte t c emit s =
     (case release_loop (mt_delimiter t) (mt_failure t) c emit (mt_matched t) s of
        (m, s, Inl e) \<Rightarrow> (t\<lparr>mt_matched := m\<rparr>, s, Inl e)
      | (m, s, Inr _) \<Rightarrow>
          if mt_delimiter t ! m = c then
            if m + 1 = length (mt_delimiter t) then (t\<lparr>mt_matched := 0\<rparr>, s, Inr True)
            else (t\<lparr>mt_matched := m + 1\<rparr>, s, Inr False)
          else
            (case emit [c] s of
               (s, Inl e) \<Rightarrow> (t\<lparr>mt_matched := m\<rparr>, s, Inl e)
             | (s, Inr _) \<Rightarrow> (t\<lparr>mt_matched := m\<rparr>, s, Inr False)))"

declare fall.simps [simp del] release_loop.simps [simp del]

section \<open>The longest held prefix\<close>

text \<open>\<open>held d s m\<close>: of all prefixes of the delimiter that end the text \<open>s\<close>, the longest has length
  \<open>m\<close>.\<close>

definition held :: "bytes \<Rightarrow> bytes \<Rightarrow> nat \<Rightarrow> bool" where
  "held d s m \<longleftrightarrow> m \<le> length d \<and> suffix (take m d) s
     \<and> (\<forall>k \<le> length d. suffix (take k d) s \<longrightarrow> k \<le> m)"

text \<open>A correct table holds, for every prefix, the longest prefix that ends it properly.\<close>

definition table_correct :: "bytes \<Rightarrow> nat list \<Rightarrow> nat \<Rightarrow> bool" where
  "table_correct d f n \<longleftrightarrow> length f = length d \<and> (\<forall>i < n. held d (tl (take (Suc i) d)) (f ! i))"

lemma suffix_tl_take:
  assumes "k < m" and "m \<le> length d"
  shows "suffix (take k d) (tl (take m d)) \<longleftrightarrow> suffix (take k d) (take m d)"
proof -
  have "take m d \<noteq> []" using assms by auto
  then obtain x xs where *: "take m d = x # xs" by (cases "take m d") auto
  have "length (take k d) < length (take m d)" using assms by simp
  then have "take k d \<noteq> x # xs" unfolding * by (metis less_irrefl)
  then show ?thesis unfolding * by (simp add: suffix_Cons)
qed

lemma held_tl_less:
  assumes "held d (tl (take m d)) k" and "0 < m" and "m \<le> length d"
  shows "k < m"
proof -
  have "length (take k d) \<le> length (tl (take m d))"
    using assms(1) by (auto simp: held_def dest: suffix_length_le)
  then show ?thesis using assms by (simp add: held_def)
qed

lemma held_Nil: "d \<noteq> [] \<Longrightarrow> held d [] 0"
  by (auto simp: held_def)

lemma take_release:
  assumes "suffix (take k d) (take m d)" and "k \<le> m" and "m \<le> length d"
  shows "take (m - k) d @ take k d = take m d"
proof -
  obtain p where p: "take m d = p @ take k d" using assms(1) by (auto simp: suffix_def)
  then have "length p = m - k" using assms by (metis add_diff_cancel_right' length_append length_take min.absorb2 order_trans)
  then have "take (m - k) (take m d) = p" unfolding p by simp
  moreover have "take (m - k) (take m d) = take (m - k) d" by (simp add: min_def)
  ultimately show ?thesis using p by simp
qed

text \<open>Falling back: the longest held prefix that the next byte extends, or none.\<close>

definition extends :: "bytes \<Rightarrow> nat \<Rightarrow> char \<Rightarrow> nat \<Rightarrow> bool" where
  "extends d m c k \<longleftrightarrow> k \<le> m \<and> suffix (take k d) (take m d) \<and> (k = 0 \<or> d ! k = c)
     \<and> (\<forall>j \<le> m. suffix (take j d) (take m d) \<and> d ! j = c \<longrightarrow> j \<le> k)"

lemma fall_extends:
  assumes "table_correct d f m" and "m < length d"
  shows "\<exists>k. fall d f c m = Some k \<and> extends d m c k"
  using assms
proof (induction m rule: less_induct)
  case (less m)
  show ?case
  proof (cases "m > 0 \<and> c \<noteq> d ! m")
    case False
    then show ?thesis using less.prems
      by (subst fall.simps) (auto simp: extends_def table_correct_def)
  next
    case True
    let ?b = "f ! (m - 1)"
    have held: "held d (tl (take m d)) ?b"
      using less.prems True by (auto simp: table_correct_def dest: spec [of _ "m - 1"])
    then have b: "?b < m" using held_tl_less True less.prems by simp
    have sb: "suffix (take ?b d) (take m d)"
      using held suffix_tl_take [OF b, of d] less.prems by (simp add: held_def)
    have "table_correct d f ?b" using less.prems b by (auto simp: table_correct_def)
    then obtain k where k: "fall d f c ?b = Some k" "extends d ?b c k"
      using less.IH [OF b] b less.prems by auto
    have "j \<le> k" if j: "j \<le> m" "suffix (take j d) (take m d)" "d ! j = c" for j
    proof -
      have "j < m" using j True by (cases "j = m") auto
      then have "suffix (take j d) (tl (take m d))" using j suffix_tl_take [of j m d] less.prems by simp
      then have "j \<le> ?b" using held \<open>j < m\<close> less.prems by (simp add: held_def)
      then have "suffix (take j d) (take ?b d)"
        using suffix_length_suffix [OF j(2) sb] b less.prems by simp
      then show ?thesis using k(2) j \<open>j \<le> ?b\<close> by (simp add: extends_def)
    qed
    then have "extends d m c k"
      using k(2) b sb by (auto simp: extends_def dest: suffix_order.trans)
    moreover have "fall d f c m = Some k"
      using True b k(1) less.prems by (subst fall.simps) (simp add: Let_def table_correct_def)
    ultimately show ?thesis by blast
  qed
qed

lemma extends_unique:
  assumes "extends d m c j" and "extends d m c k"
  shows "j = k"
proof -
  have "i \<le> i'" if "extends d m c i" "extends d m c i'" for i i'
    using that by (cases "i = 0") (auto simp: extends_def)
  then show ?thesis using assms by (simp add: antisym)
qed

lemma suffix_snoc_take:
  assumes "k < length d"
  shows "suffix (take (Suc k) d) (s @ [c]) \<longleftrightarrow> d ! k = c \<and> suffix (take k d) s"
  using assms by (simp add: take_Suc_conv_app_nth)

lemma held_step:
  assumes "held d s m" and "m < length d" and "extends d m c k"
  shows "held d (s @ [c]) (if d ! k = c then k + 1 else k)"
proof -
  let ?n = "if d ! k = c then k + 1 else k"
  have km: "k \<le> m" "suffix (take k d) (take m d)" using assms by (auto simp: extends_def)
  have sm: "suffix (take m d) s" using assms by (simp add: held_def)
  have "?n \<le> length d" using km assms by auto
  moreover have "suffix (take ?n d) (s @ [c])"
  proof (cases "d ! k = c")
    case True
    have "suffix (take k d) s" using km sm by (blast intro: suffix_order.trans)
    then show ?thesis using True suffix_snoc_take [of k d s c] km assms by (simp del: suffix_snoc)
  next
    case False
    then have "k = 0" using assms(3) by (simp add: extends_def)
    then show ?thesis using False by simp
  qed
  moreover have "j \<le> ?n" if j: "j \<le> length d" "suffix (take j d) (s @ [c])" for j
  proof (cases j)
    case (Suc i)
    then have i: "d ! i = c" "suffix (take i d) s" using j suffix_snoc_take [of i d s c] by auto
    then have "i \<le> m" using assms(1) j Suc by (simp add: held_def)
    moreover have "suffix (take i d) (take m d)"
      using suffix_length_suffix [OF i(2) sm] \<open>i \<le> m\<close> assms j by simp
    ultimately have "i \<le> k" using assms(3) i by (simp add: extends_def)
    moreover have "d ! k = c" using \<open>i \<le> k\<close> i assms(3) by (cases "k = 0") (auto simp: extends_def)
    ultimately show ?thesis using Suc by simp
  qed simp
  ultimately show ?thesis by (simp add: held_def)
qed

section \<open>Building the table\<close>

lemma failure_table_correct:
  assumes "table_correct d f i" and "held d (tl (take i d)) matched" and "0 < i" and "i \<le> length d"
  shows "\<exists>g. failure_table d [i..<length d] matched f = Some g \<and> table_correct d g (length d)"
  using assms
proof (induction "length d - i" arbitrary: i matched f)
  case 0
  then show ?case by (auto simp: upt_rec)
next
  case (Suc n)
  then have i: "i < length d" by simp
  have "matched < i" using held_tl_less Suc.prems by simp
  then have "table_correct d f matched" using Suc.prems by (auto simp: table_correct_def)
  then obtain k where k: "fall d f (d ! i) matched = Some k" "extends d matched (d ! i) k"
    using fall_extends \<open>matched < i\<close> i by (meson less_trans)
  let ?m = "if d ! i = d ! k then k + 1 else k"
  have "tl (take (Suc i) d) = tl (take i d) @ [d ! i]"
    using i Suc.prems by (auto simp: take_Suc_conv_app_nth tl_append split: list.splits)
  then have held': "held d (tl (take (Suc i) d)) ?m"
    using held_step [OF Suc.prems(2) _ k(2)] \<open>matched < i\<close> i by (simp add: eq_commute [of "d ! k"])
  have "table_correct d (f[i := ?m]) (Suc i)"
    using Suc.prems held' i by (auto simp: table_correct_def nth_list_update less_Suc_eq)
  then have "\<exists>g. failure_table d [Suc i..<length d] ?m (f[i := ?m]) = Some g \<and> table_correct d g (length d)"
    using Suc.hyps held' i by (metis Suc_diff_Suc Suc_leI diff_Suc_1 zero_less_Suc)
  then show ?case using k(1) i by (simp add: upt_rec [of i] Let_def)
qed

definition matcher_ok :: "matcher \<Rightarrow> bool" where
  "matcher_ok t \<longleftrightarrow> mt_delimiter t \<noteq> [] \<and> table_correct (mt_delimiter t) (mt_failure t) (length (mt_delimiter t))"

lemma matcher_new_correct:
  assumes "d \<noteq> []"
  shows "\<exists>t. matcher_new d = Inr t \<and> matcher_ok t \<and> mt_delimiter t = d \<and> mt_matched t = 0"
proof -
  have "held d (tl (take (Suc 0) d)) 0" using assms by (cases d) (auto simp: held_def)
  then have "table_correct d (replicate (length d) 0) 1" "held d (tl (take 1 d)) 0"
    using assms by (auto simp: table_correct_def)
  then obtain g where "failure_table d [1..<length d] 0 (replicate (length d) 0) = Some g" "table_correct d g (length d)"
    using failure_table_correct [of d _ 1 0] assms by (cases d) auto
  then show ?thesis using assms by (simp add: matcher_new_def matcher_ok_def)
qed

section \<open>Scanning\<close>

fun emit_all :: "'s emitter \<Rightarrow> bytes list \<Rightarrow> 's \<Rightarrow> ('s, unit) sres" where
  "emit_all emit [] s = (s, Inr ())"
| "emit_all emit (b # bs) s =
     (case emit b s of (s, Inl e) \<Rightarrow> (s, Inl e) | (s, Inr _) \<Rightarrow> emit_all emit bs s)"

lemma emit_all_append:
  "emit_all emit (bs @ cs) s =
     (case emit_all emit bs s of (s, Inl e) \<Rightarrow> (s, Inl e) | (s, Inr _) \<Rightarrow> emit_all emit cs s)"
  by (induction bs arbitrary: s) (auto split: prod.splits sum.splits)

text \<open>The bytes released while falling back, with the prefix still held, are the prefix held before.\<close>

lemma release_loop_chunks:
  assumes "table_correct d f m" and "m < length d"
  shows "\<exists>k bs. extends d m c k \<and> concat bs @ take k d = take m d
     \<and> (\<forall>(emit :: 's emitter) s. \<exists>j. release_loop d f c emit m s = (j, emit_all emit bs s)
          \<and> (\<forall>s'. emit_all emit bs s = (s', Inr ()) \<longrightarrow> j = k))"
  using assms
proof (induction m rule: less_induct)
  case (less m)
  obtain k where k: "fall d f c m = Some k" "extends d m c k" using fall_extends less.prems by blast
  show ?case
  proof (cases "m > 0 \<and> c \<noteq> d ! m")
    case False
    then have "extends d m c m" using less.prems by (auto simp: extends_def)
    moreover have "release_loop d f c emit m s = (m, emit_all emit [] s)" for emit :: "'s emitter" and s
      using False less.prems by (subst release_loop.simps) (auto simp: table_correct_def)
    ultimately show ?thesis by (intro exI [of _ m] exI [of _ "[]"]) auto
  next
    case True
    let ?b = "f ! (m - 1)"
    have held: "held d (tl (take m d)) ?b"
      using less.prems True by (auto simp: table_correct_def dest: spec [of _ "m - 1"])
    then have b: "?b < m" using held_tl_less True less.prems by simp
    have sb: "suffix (take ?b d) (take m d)"
      using held suffix_tl_take [OF b, of d] less.prems by (simp add: held_def)
    have tb: "table_correct d f ?b" using less.prems b by (auto simp: table_correct_def)
    obtain k' bs where IH: "extends d ?b c k'" "concat bs @ take k' d = take ?b d"
      "\<And>(emit :: 's emitter) s. \<exists>j. release_loop d f c emit ?b s = (j, emit_all emit bs s)
          \<and> (\<forall>s'. emit_all emit bs s = (s', Inr ()) \<longrightarrow> j = k')"
      using less.IH [OF b tb] b less.prems by auto
    have "fall d f c m = fall d f c ?b"
      using True b less.prems by (subst fall.simps) (simp add: Let_def table_correct_def)
    then have "extends d ?b c k" using fall_extends [OF tb, of c] k(1) b less.prems by auto
    then have "k' = k" using IH(1) extends_unique by blast
    moreover have "concat (take (m - ?b) d # bs) @ take k' d = take m d"
      using IH(2) take_release [OF sb] b less.prems by simp
    moreover have "\<exists>j. release_loop d f c emit m s = (j, emit_all emit (take (m - ?b) d # bs) s)
          \<and> (\<forall>s'. emit_all emit (take (m - ?b) d # bs) s = (s', Inr ()) \<longrightarrow> j = k')"
      for emit :: "'s emitter" and s
      using True b less.prems IH(3) [of emit "fst (emit (take (m - ?b) d) s)"]
      by (subst release_loop.simps) (auto simp: Let_def table_correct_def split: prod.splits sum.splits)
    ultimately show ?thesis using k(2) by blast
  qed
qed

text \<open>\<open>scanning t s out\<close>: the matcher has read \<open>s\<close>, in which the delimiter does not occur, has
  released \<open>out\<close> and holds the rest.\<close>

definition scanning :: "matcher \<Rightarrow> bytes \<Rightarrow> bytes \<Rightarrow> bool" where
  "scanning t s out \<longleftrightarrow> matcher_ok t \<and> held (mt_delimiter t) s (mt_matched t)
     \<and> mt_matched t < length (mt_delimiter t) \<and> out @ take (mt_matched t) (mt_delimiter t) = s
     \<and> \<not> sublist (mt_delimiter t) s"

lemma sublist_snoc_iff: "sublist d (s @ [c]) \<longleftrightarrow> sublist d s \<or> suffix d (s @ [c])"
proof
  assume "sublist d (s @ [c])"
  then obtain p q where *: "s @ [c] = p @ d @ q" by (auto simp: sublist_def)
  show "sublist d s \<or> suffix d (s @ [c])"
  proof (cases q rule: rev_cases)
    case Nil
    then show ?thesis using * by (auto simp: suffix_def)
  next
    case (snoc q' x)
    then have "s = p @ d @ q'" using * by simp
    then show ?thesis by (auto simp: sublist_def)
  qed
qed (metis prefixI prefix_imp_sublist sublist_order.order.trans suffix_imp_sublist)

lemma held_full_iff: "held d s n \<Longrightarrow> n = length d \<longleftrightarrow> suffix d s"
  unfolding held_def by (metis le_antisym order_refl take_all)

lemma matcher_byte_chunks:
  assumes "scanning t s out"
  shows "\<exists>bs n. held (mt_delimiter t) (s @ [c]) n \<and> (out @ concat bs) @ take n (mt_delimiter t) = s @ [c]
     \<and> (\<forall>(emit :: 's emitter) st st'. emit_all emit bs st = (st', Inr ()) \<longrightarrow>
          matcher_byte t c emit st = (t\<lparr>mt_matched := if n = length (mt_delimiter t) then 0 else n\<rparr>, st',
            Inr (n = length (mt_delimiter t))))
     \<and> (\<forall>(emit :: 's emitter) st st' e. emit_all emit bs st = (st', Inl e) \<longrightarrow>
          (\<exists>t'. matcher_byte t c emit st = (t', st', Inl e)))"
proof -
  let ?d = "mt_delimiter t" and ?m = "mt_matched t"
  have m: "?m < length ?d" "held ?d s ?m" "out @ take ?m ?d = s" using assms by (simp_all add: scanning_def)
  have "table_correct ?d (mt_failure t) ?m"
    using assms by (auto simp: scanning_def matcher_ok_def table_correct_def)
  then obtain k bs where k: "extends ?d ?m c k" "concat bs @ take k ?d = take ?m ?d"
    "\<And>(emit :: 's emitter) s. \<exists>j. release_loop ?d (mt_failure t) c emit ?m s = (j, emit_all emit bs s)
        \<and> (\<forall>s'. emit_all emit bs s = (s', Inr ()) \<longrightarrow> j = k)"
    using release_loop_chunks [where ?'s = 's] m(1) by blast
  let ?n = "if ?d ! k = c then k + 1 else k" and ?bs = "if ?d ! k = c then bs else bs @ [[c]]"
  have kd: "k < length ?d" using k(1) m by (simp add: extends_def)
  have k0: "?d ! k \<noteq> c \<Longrightarrow> k = 0" using k(1) by (auto simp: extends_def)
  have "held ?d (s @ [c]) ?n" by (rule held_step [OF m(2,1) k(1)])
  moreover have "(out @ concat ?bs) @ take ?n ?d = s @ [c]"
    using k(2) m(3) k0 kd by (auto simp: take_Suc_conv_app_nth)
  moreover have "matcher_byte t c emit st = (t\<lparr>mt_matched := if ?n = length ?d then 0 else ?n\<rparr>, st', Inr (?n = length ?d))"
    if "emit_all emit ?bs st = (st', Inr ())" for emit :: "'s emitter" and st st'
    using k(3) [of emit st] that kd
    by (auto simp: matcher_byte_def emit_all_append split: prod.splits sum.splits if_splits)
  moreover have "\<exists>t'. matcher_byte t c emit st = (t', st', Inl e)"
    if "emit_all emit ?bs st = (st', Inl e)" for emit :: "'s emitter" and st st' e
    using k(3) [of emit st] that kd
    by (auto simp: matcher_byte_def emit_all_append split: prod.splits sum.splits if_splits)
  ultimately show ?thesis by blast
qed

section \<open>Callbacks that append\<close>

text \<open>What the decoders promise of their callbacks: a successful call appends its argument to the
  contents, and a call succeeds as long as the contents fit.\<close>

locale appender =
  fixes emit :: "'s emitter" and contents :: "'s \<Rightarrow> bytes" and inv :: "'s \<Rightarrow> bool" and fits :: "bytes \<Rightarrow> bool"
  assumes emit_appends: "\<And>s b s'. inv s \<Longrightarrow> emit b s = (s', Inr ()) \<Longrightarrow> inv s' \<and> contents s' = contents s @ b"
    and emit_fits: "\<And>s b. inv s \<Longrightarrow> fits (contents s @ b) \<Longrightarrow> \<exists>s'. emit b s = (s', Inr ())"
    and fits_prefix: "\<And>a b. fits (a @ b) \<Longrightarrow> fits a"
begin

lemma emit_all_appends:
  fixes s s' :: 's and bs :: "bytes list"
  assumes "inv s" and "emit_all emit bs s = (s', Inr ())"
  shows "inv s' \<and> contents s' = contents s @ concat bs"
  using assms
proof (induction bs arbitrary: s)
  case (Cons b bs)
  then obtain s1 where "emit b s = (s1, Inr ())" "emit_all emit bs s1 = (s', Inr ())"
    by (auto split: prod.splits sum.splits)
  then show ?case using Cons.IH emit_appends Cons.prems by fastforce
qed simp

lemma emit_all_fits:
  fixes s :: 's and bs :: "bytes list"
  assumes "inv s" and "fits (contents s @ concat bs)"
  shows "\<exists>s'. emit_all emit bs s = (s', Inr ())"
  using assms
proof (induction bs arbitrary: s)
  case (Cons b bs)
  then have "fits (contents s @ b)" by (metis append_assoc concat.simps(2) fits_prefix)
  then obtain s1 where s1: "emit b s = (s1, Inr ())" using emit_fits Cons.prems by blast
  then show ?case using Cons.IH [of s1] emit_appends Cons.prems by simp
qed simp

text \<open>One byte through the matcher: the delimiter is recognised exactly when it is complete, what
  has been released is everything read but the held prefix, and only contents that do not fit make the
  call fail.\<close>

lemma byte_step:
  fixes st :: 's and t :: matcher and s :: bytes and c :: char
  assumes "scanning t s (contents st)" and "inv st"
  shows "(\<exists>t' st' ended. matcher_byte t c emit st = (t', st', Inr ended) \<and> inv st' \<and> mt_delimiter t' = mt_delimiter t
        \<and> (ended \<longleftrightarrow> suffix (mt_delimiter t) (s @ [c]))
        \<and> (if ended then contents st' @ mt_delimiter t = s @ [c] else scanning t' (s @ [c]) (contents st')))
     \<or> (\<exists>t' st' e out n. matcher_byte t c emit st = (t', st', Inl e) \<and> \<not> fits out
        \<and> held (mt_delimiter t) (s @ [c]) n \<and> out @ take n (mt_delimiter t) = s @ [c])"
proof -
  let ?d = "mt_delimiter t"
  obtain bs n where n: "held ?d (s @ [c]) n" "(contents st @ concat bs) @ take n ?d = s @ [c]"
    and okc: "\<And>st'. emit_all emit bs st = (st', Inr ()) \<Longrightarrow>
        matcher_byte t c emit st = (t\<lparr>mt_matched := if n = length ?d then 0 else n\<rparr>, st', Inr (n = length ?d))"
    and bad: "\<And>st' e. emit_all emit bs st = (st', Inl e) \<Longrightarrow> \<exists>t'. matcher_byte t c emit st = (t', st', Inl e)"
    using matcher_byte_chunks [OF assms(1), where ?'s = 's and c = c] by (elim exE conjE) (rule that; blast)
  obtain st' r where r: "emit_all emit bs st = (st', r)" by (cases "emit_all emit bs st")
  show ?thesis
  proof (cases r)
    case (Inl e)
    then have "\<not> fits (contents st @ concat bs)" using emit_all_fits [OF assms(2), of bs] r by auto
    then show ?thesis using bad r Inl n by blast
  next
    case (Inr u)
    then have st': "inv st' \<and> contents st' = contents st @ concat bs" using emit_all_appends assms(2) r by simp
    have full: "n = length ?d \<longleftrightarrow> suffix ?d (s @ [c])" by (rule held_full_iff [OF n(1)])
    have "scanning (t\<lparr>mt_matched := n\<rparr>) (s @ [c]) (contents st')" if "n \<noteq> length ?d"
      using that n st' full assms(1)
      by (auto simp: scanning_def matcher_ok_def sublist_snoc_iff held_def simp del: suffix_snoc)
    then show ?thesis using okc [of st'] r Inr st' full n(2) by auto
  qed
qed

end

lemma scanning_new:
  assumes "matcher_new d = Inr t" and "d \<noteq> []"
  shows "scanning t [] [] \<and> mt_delimiter t = d"
  using matcher_new_correct [OF assms(2)] assms by (auto simp: scanning_def held_def)

section \<open>The table\<close>

text \<open>C23: building the matcher terminates and yields the failure function.  For every non-empty
  delimiter the two nested loops of \<open>Matcher::new\<close> end without an index out of range, and entry \<open>i\<close>
  of the table is the length of the longest proper prefix of the first \<open>i + 1\<close> bytes that is also
  their suffix.\<close>

theorem matcher_table_built:
  assumes "d \<noteq> []"
  shows "\<exists>t. matcher_new d = Inr t \<and> mt_delimiter t = d \<and> mt_matched t = 0 \<and> length (mt_failure t) = length d
     \<and> (\<forall>i < length d. mt_failure t ! i \<le> i \<and> suffix (take (mt_failure t ! i) d) (take (Suc i) d)
          \<and> (\<forall>k \<le> i. suffix (take k d) (take (Suc i) d) \<longrightarrow> k \<le> mt_failure t ! i))"
proof -
  obtain t where t: "matcher_new d = Inr t" "matcher_ok t" "mt_delimiter t = d" "mt_matched t = 0"
    using matcher_new_correct [OF assms] by blast
  have "mt_failure t ! i \<le> i \<and> suffix (take (mt_failure t ! i) d) (take (Suc i) d)
          \<and> (\<forall>k \<le> i. suffix (take k d) (take (Suc i) d) \<longrightarrow> k \<le> mt_failure t ! i)" if "i < length d" for i
  proof -
    have h: "held d (tl (take (Suc i) d)) (mt_failure t ! i)"
      using t that by (simp add: matcher_ok_def table_correct_def)
    then have "mt_failure t ! i < Suc i" using held_tl_less that by simp
    then show ?thesis using h that suffix_tl_take [of _ "Suc i" d] by (simp add: held_def less_Suc_eq_le)
  qed
  then show ?thesis using t by (auto simp: matcher_ok_def table_correct_def)
qed

theorem matcher_table_built_witness:
  "\<exists>t. matcher_new ''abab'' = Inr t \<and> mt_failure t = [0, 0, 1, 2] \<and> mt_failure t ! 3 \<le> 3"
  using matcher_table_built [of "''abab''"]
  by (auto simp: matcher_new_def fall.simps numeral_eq_Suc upt_rec)

end
