(* ===== verification/Utf8.thy ===== *)
theory Utf8
  imports Prelude
begin

text \<open>
  What the code uses of Rust's text types: the UTF-8 validity test of \<open>str::from_utf8\<close> and the
  Unicode white space of \<open>str::trim\<close>, both on the encoded bytes.
\<close>

definition byte_in :: "nat \<Rightarrow> nat \<Rightarrow> char \<Rightarrow> bool" where
  "byte_in lo hi c \<longleftrightarrow> lo \<le> (of_char c :: nat) \<and> (of_char c :: nat) \<le> hi"

abbreviation continuation :: "char \<Rightarrow> bool" where
  "continuation \<equiv> byte_in 128 191"

text \<open>Overlong forms, surrogates and values above U+10FFFF are refused by the range of the second
  byte.\<close>

definition second_byte_ok :: "char \<Rightarrow> char \<Rightarrow> bool" where
  "second_byte_ok a b \<longleftrightarrow>
     (let n = (of_char a :: nat) in
      if n = 224 then byte_in 160 191 b
      else if n = 237 then byte_in 128 159 b
      else if n = 240 then byte_in 144 191 b
      else if n = 244 then byte_in 128 143 b
      else continuation b)"

fun utf8 :: "bytes \<Rightarrow> bool" where
  "utf8 [] = True"
| "utf8 (a # s) =
     (if byte_in 0 127 a then utf8 s
      else case s of
        [] \<Rightarrow> False
      | b # s \<Rightarrow>
          second_byte_ok a b \<and>
          (if byte_in 194 223 a then utf8 s
           else case s of
             [] \<Rightarrow> False
           | c # s \<Rightarrow>
               continuation c \<and>
               (if byte_in 224 239 a then utf8 s
                else case s of
                  [] \<Rightarrow> False
                | d # s \<Rightarrow> continuation d \<and> byte_in 240 244 a \<and> utf8 s)))"

definition white_space :: "bytes \<Rightarrow> bool" where
  "white_space s \<longleftrightarrow>
     (case s of
        [a] \<Rightarrow> byte_in 9 13 a \<or> a = CHR '' ''
      | [a, b] \<Rightarrow> of_char a = (194 :: nat) \<and> (of_char b = (133 :: nat) \<or> of_char b = (160 :: nat))
      | [a, b, c] \<Rightarrow>
          map of_char s \<in> {[225, 154, 128 :: nat], [226, 128, 168], [226, 128, 169], [226, 128, 175], [226, 129, 159],
            [227, 128, 128]}
          \<or> of_char a = (226 :: nat) \<and> of_char b = (128 :: nat) \<and> byte_in 128 138 c
      | _ \<Rightarrow> False)"

text \<open>The white-space character a text begins with, as the number of its bytes; \<open>0\<close> for none.\<close>

definition white_width :: "bytes \<Rightarrow> nat" where
  "white_width s =
     (if white_space (take 1 s) then 1 else if white_space (take 2 s) then 2
      else if white_space (take 3 s) then 3 else 0)"

definition white_width_end :: "bytes \<Rightarrow> nat" where
  "white_width_end s =
     (if white_space (drop (length s - 1) s) then 1 else if white_space (drop (length s - 2) s) then 2
      else if white_space (drop (length s - 3) s) then 3 else 0)"

function trim_start :: "bytes \<Rightarrow> bytes" where
  "trim_start s = (if s = [] \<or> white_width s = 0 then s else trim_start (drop (white_width s) s))"
  by pat_completeness auto
termination by (relation "measure length") auto

function trim_end :: "bytes \<Rightarrow> bytes" where
  "trim_end s = (if s = [] \<or> white_width_end s = 0 then s else trim_end (take (length s - white_width_end s) s))"
  by pat_completeness auto
termination by (relation "measure length") auto

declare trim_start.simps [simp del] trim_end.simps [simp del]

definition trim :: "bytes \<Rightarrow> bytes" where
  "trim s = trim_end (trim_start s)"

lemma utf8_ascii: "list_all (byte_in 0 127) s \<Longrightarrow> utf8 s"
  by (induction s) auto

end
