(* ===== verification/Multipart.thy ===== *)
theory Multipart
  imports Matcher Utf8 Ordered_Map Contract Blob_Transport
begin

text \<open>
  \<^verbatim>\<open>crates/noxide-blobs/src/multipart.rs\<close>: the bounded multipart decoder of native form uploads.
  \<open>PrefixDecoder\<close> reads the scalar fields and stops exactly before the first byte of the file;
  \<open>FileDecoder\<close> streams the file to a sink.  Both are fed in pieces of any size up to the transfer
  buffer.  An operation returns the decoder it leaves behind also when it fails, since a failed
  decoder stays poisoned.
\<close>

section \<open>The boundary\<close>

definition PREFIX_BYTES :: nat where "PREFIX_BYTES = 65536"
definition HEADER_BYTES :: nat where "HEADER_BYTES = 1024"
definition FIELD_BYTES :: nat where "FIELD_BYTES = 32768"
definition MAX_FIELDS :: nat where "MAX_FIELDS = 39"

definition boundary_token :: "bytes \<Rightarrow> bool" where
  "boundary_token v \<longleftrightarrow> v \<noteq> [] \<and> length v \<le> 70
     \<and> list_all (\<lambda>b. is_ascii_alphanumeric b \<or> b \<in> {CHR ''-'', CHR ''_'', CHR ''.''}) v"

definition unquote :: "bytes \<Rightarrow> bytes res" where
  "unquote v =
     (if take 1 v = [CHR 0x22]
      then ok_or (strip_suffix [CHR 0x22] (drop 1 v)) ''invalid quoted boundary''
      else Inr v)"

definition content_type :: "bytes \<Rightarrow> bytes res" where
  "content_type v =
     ensure (length v \<le> 256) ''multipart content type limit''
     (case split_on CHR '';'' v of
        [] \<Rightarrow> Inl ''invalid multipart media type''
      | media # parts \<Rightarrow>
         ensure (eq_ignore_ascii_case (trim media) ''multipart/form-data'') ''invalid multipart media type''
         (case parts of
            [] \<Rightarrow> Inl ''missing multipart boundary''
          | parameter # extra \<Rightarrow>
             ensure (extra = []) ''unknown multipart parameter''
             (and_then (ok_or (split_once CHR ''='' (trim parameter)) ''missing multipart boundary'') (\<lambda>(name, v).
              ensure (eq_ignore_ascii_case name ''boundary'') ''unknown multipart parameter''
              (and_then (unquote v) (\<lambda>v.
               ensure (boundary_token v) ''invalid multipart boundary'' (Inr v)))))))"

definition initial_delimiter :: "bytes \<Rightarrow> bytes" where
  "initial_delimiter b = ''--'' @ b @ [CR, LF]"

definition next_delimiter :: "bytes \<Rightarrow> bytes" where
  "next_delimiter b = [CR, LF] @ ''--'' @ b @ [CR, LF]"

definition file_end :: "bytes \<Rightarrow> bytes" where
  "file_end b = [CR, LF] @ ''--'' @ b"

section \<open>The schema\<close>

record scalar_part =
  sp_name :: string
  sp_max_bytes :: nat
  sp_required :: bool

record prefix_spec =
  ps_fields :: "scalar_part list"
  ps_file :: string
  ps_optional :: bool
  ps_limit :: nat

definition part_name :: "string \<Rightarrow> bool" where
  "part_name v \<longleftrightarrow> v \<noteq> [] \<and> length v \<le> 64
     \<and> list_all (\<lambda>b. is_ascii_alphanumeric b \<or> b \<in> {CHR ''_'', CHR ''-''}) v"

fun check_fields :: "string set \<Rightarrow> scalar_part list \<Rightarrow> string set res" where
  "check_fields seen [] = Inr seen"
| "check_fields seen (f # fs) =
     ensure (part_name (sp_name f) \<and> 1 \<le> sp_max_bytes f \<and> sp_max_bytes f \<le> FIELD_BYTES \<and> sp_name f \<notin> seen)
       ''invalid multipart scalar schema'' (check_fields (insert (sp_name f) seen) fs)"

definition spec_new :: "scalar_part list \<Rightarrow> string \<Rightarrow> bool \<Rightarrow> nat \<Rightarrow> prefix_spec res" where
  "spec_new parts file optional limit =
     ensure (3 \<le> length parts \<and> length parts \<le> MAX_FIELDS \<and> 1 \<le> limit \<and> limit \<le> MAX_UPLOAD_BYTES)
       ''invalid multipart schema''
     (and_then (check_fields {} parts) (\<lambda>seen.
      ensure (list_all sp_required (take 3 parts) \<and> sp_name (parts ! 2) = ''_upload'')
        ''invalid multipart security prefix''
      (ensure (part_name file \<and> file \<notin> seen) ''invalid multipart file schema''
       (Inr \<lparr>ps_fields = parts, ps_file = file, ps_optional = optional, ps_limit = limit\<rparr>))))"

section \<open>Part headers\<close>

record part_headers =
  ph_name :: string
  ph_filename :: "string option"
  ph_content_type :: bool

text \<open>The body of a quoted attribute value, up to and including the closing quote.\<close>

fun quoted :: "bytes \<Rightarrow> bytes \<Rightarrow> (bytes \<times> bytes) res" where
  "quoted out [] = Inl ''unclosed multipart attribute''"
| "quoted out (c # s) =
     (if c = CHR 0x22 then Inr (out, s)
      else if c = CHR 0x5C then
        (case s of
           [] \<Rightarrow> Inl ''truncated multipart quoted escape''
         | x # s \<Rightarrow>
             ensure (x = CHR 0x5C \<or> x = CHR 0x22) ''unknown multipart quoted escape''
             (ensure (length out < 255) ''multipart attribute limit'' (quoted (out @ [x]) s)))
      else
        ensure (32 \<le> (of_char c :: nat) \<and> (of_char c :: nat) \<noteq> 127 \<and> length out < 255) ''multipart attribute limit''
          (quoted (out @ [c]) s))"

definition attribute :: "bytes \<Rightarrow> (bytes \<times> bytes \<times> bytes) res" where
  "attribute s =
     and_then (ok_or (split_once CHR ''='' (dropWhile (\<lambda>c. c = CHR '' '') s)) ''invalid multipart attribute'') (\<lambda>(name, s).
     ensure (utf8 name) ''invalid utf-8''
     (ensure (list_all is_ascii_alphabetic name) ''invalid multipart attribute name''
      (ensure (take 1 s = [CHR 0x22]) ''multipart attribute must be quoted''
       (and_then (quoted [] (drop 1 s)) (\<lambda>(v, s).
        ensure (utf8 v) ''invalid multipart attribute encoding'' (Inr (name, v, s)))))))"

definition disposition_value :: "bytes \<Rightarrow> (string \<times> string option) res" where
  "disposition_value v =
     and_then (ok_or (split_once CHR '';'' v) ''missing multipart name'') (\<lambda>(kind, s).
     ensure (eq_ignore_ascii_case kind ''form-data'') ''invalid multipart disposition''
     (and_then (attribute s) (\<lambda>(name, field, s).
      ensure (name = ''name'' \<and> part_name field) ''invalid multipart field name''
      (case s of
         [] \<Rightarrow> Inr (field, None)
       | c # s \<Rightarrow>
          ensure (c = CHR '';'') ''invalid multipart disposition suffix''
          (and_then (attribute s) (\<lambda>(name, v, s).
           ensure (name = ''filename'' \<and> length v \<le> 255 \<and> s = []) ''unknown multipart disposition attribute''
             (Inr (field, Some v))))))))"

fun split_crlf :: "bytes \<Rightarrow> bytes list" where
  "split_crlf (a # b # s) =
     (if a = CR \<and> b = LF then [] # split_crlf s
      else case split_crlf (b # s) of [] \<Rightarrow> [[a]] | p # ps \<Rightarrow> (a # p) # ps)"
| "split_crlf s = [s]"

fun header_lines :: "bytes list \<Rightarrow> (string \<times> string option) option \<Rightarrow> bool
    \<Rightarrow> ((string \<times> string option) option \<times> bool) res" where
  "header_lines [] disp hint = Inr (disp, hint)"
| "header_lines (line # lines) disp hint =
     ensure (line \<noteq> [] \<and> \<not> list_ex (\<lambda>b. (of_char b :: nat) < 32 \<or> (of_char b :: nat) = 127) line)
       ''invalid multipart header line''
     (and_then (ok_or (split_once CHR '':'' line) ''invalid multipart header'') (\<lambda>(name, v).
      let v = trim_matches (\<lambda>c. c = CHR '' '') v in
      if eq_ignore_ascii_case name ''content-disposition'' then
        ensure (disp = None) ''duplicate multipart disposition''
        (and_then (disposition_value v) (\<lambda>d. header_lines lines (Some d) hint))
      else if eq_ignore_ascii_case name ''content-type'' then
        ensure (\<not> hint \<and> v \<noteq> [] \<and> length v \<le> 128 \<and> list_all (\<lambda>b. is_ascii_graphic b \<or> b = CHR '' '') v)
          ''invalid multipart media hint'' (header_lines lines disp True)
      else Inl ''unknown multipart header''))"

definition parse_headers :: "bytes \<Rightarrow> part_headers res" where
  "parse_headers s =
     ensure (utf8 s) ''invalid multipart header encoding''
     (and_then (header_lines (split_crlf s) None False) (\<lambda>(disp, hint).
      and_then (ok_or disp ''missing multipart disposition'') (\<lambda>(name, filename).
      ensure (filename \<noteq> None \<or> \<not> hint) ''scalar multipart media hint denied''
        (Inr \<lparr>ph_name = name, ph_filename = filename, ph_content_type = hint\<rparr>))))"

section \<open>The prefix decoder\<close>

datatype prefix_phase = PInitial nat | PHeaders | PScalar nat bytes matcher | PReady | PPoisoned

record prefix_decoder =
  pd_boundary :: bytes
  pd_spec :: prefix_spec
  pd_phase :: prefix_phase
  pd_headers :: bytes
  pd_values :: "(string, string) btree"
  pd_field :: nat
  pd_total :: nat

record ready_prefix =
  rp_values :: "(string, string) btree"
  rp_filename :: "string option"
  rp_boundary :: bytes
  rp_limit :: nat

record prefix_progress =
  pp_consumed :: nat
  pp_ready :: "ready_prefix option"

definition prefix_new :: "bytes \<Rightarrow> prefix_spec \<Rightarrow> prefix_decoder" where
  "prefix_new boundary spec =
     \<lparr>pd_boundary = boundary, pd_spec = spec, pd_phase = PInitial 0, pd_headers = [], pd_values = [],
      pd_field = 0, pd_total = 0\<rparr>"

abbreviation HEADER_END :: bytes where "HEADER_END \<equiv> [CR, LF, CR, LF]"

fun list_position :: "('a \<Rightarrow> bool) \<Rightarrow> 'a list \<Rightarrow> nat option" where
  "list_position P [] = None"
| "list_position P (x # xs) = (if P x then Some 0 else map_option Suc (list_position P xs))"

text \<open>The file part ends the prefix.\<close>

definition file_part :: "prefix_decoder \<Rightarrow> part_headers \<Rightarrow> ready_prefix res" where
  "file_part d h =
     ensure (list_all (\<lambda>f. \<not> sp_required f) (drop (pd_field d) (ps_fields (pd_spec d))))
       ''missing multipart prefix field''
     (and_then (ok_or (ph_filename h) ''file part lacks filename'') (\<lambda>raw.
      ensure (raw \<noteq> [] \<or> ps_optional (pd_spec d)) ''required upload missing''
      (and_then (if raw = [] then Inr None else and_then (normalize raw) (\<lambda>n. Inr (Some n))) (\<lambda>filename.
       Inr \<lparr>rp_values = pd_values d, rp_filename = filename, rp_boundary = pd_boundary d,
            rp_limit = (if filename \<noteq> None then ps_limit (pd_spec d) else 0)\<rparr>))))"

definition scalar_field :: "prefix_decoder \<Rightarrow> part_headers \<Rightarrow> nat res" where
  "scalar_field d h =
     ensure (ph_filename h = None \<and> \<not> ph_content_type h) ''file or media header in scalar prefix''
     (and_then (ok_or (list_position (\<lambda>f. sp_name f = ph_name h) (drop (pd_field d) (ps_fields (pd_spec d))))
        ''unknown, duplicate or reordered multipart field'') (\<lambda>i.
      ensure (list_all (\<lambda>f. \<not> sp_required f) (take i (drop (pd_field d) (ps_fields (pd_spec d)))))
        ''missing required multipart prefix'' (Inr (pd_field d + i))))"

definition scalar_emit :: "nat \<Rightarrow> bytes emitter" where
  "scalar_emit maximum bs v =
     (if (case checked_add_u64 (length v) (length bs) of None \<Rightarrow> False | Some n \<Rightarrow> n \<le> maximum)
      then (v @ bs, Inr ()) else (v, Inl ''multipart scalar limit''))"

definition headers_byte :: "prefix_decoder \<Rightarrow> char \<Rightarrow> (prefix_decoder, ready_prefix option) sres" where
  "headers_byte d c =
     (if \<not> length (pd_headers d) < HEADER_BYTES then (d, Inl ''multipart header limit'')
      else
        (let text = pd_headers d @ [c]; d = d\<lparr>pd_headers := text\<rparr> in
         case strip_suffix HEADER_END text of
           None \<Rightarrow> (d, Inr None)
         | Some block \<Rightarrow>
            (case parse_headers block of
               Inl e \<Rightarrow> (d, Inl e)
             | Inr h \<Rightarrow>
                (let d = d\<lparr>pd_headers := []\<rparr> in
                 if ph_name h = ps_file (pd_spec d) then
                   (case file_part d h of
                      Inl e \<Rightarrow> (d, Inl e)
                    | Inr r \<Rightarrow> (d\<lparr>pd_phase := PReady, pd_values := []\<rparr>, Inr (Some r)))
                 else
                   (case scalar_field d h of
                      Inl e \<Rightarrow> (d, Inl e)
                    | Inr next \<Rightarrow>
                       (let d = d\<lparr>pd_field := next + 1\<rparr> in
                        case matcher_new (next_delimiter (pd_boundary d)) of
                          Inl e \<Rightarrow> (d, Inl e)
                        | Inr t \<Rightarrow> (d\<lparr>pd_phase := PScalar next [] t\<rparr>, Inr None)))))))"

definition scalar_byte :: "prefix_decoder \<Rightarrow> nat \<Rightarrow> bytes \<Rightarrow> matcher \<Rightarrow> char \<Rightarrow> (prefix_decoder, ready_prefix option) sres" where
  "scalar_byte d field v t c =
     (let part = ps_fields (pd_spec d) ! field in
      case matcher_byte t c (scalar_emit (sp_max_bytes part)) v of
        (t, v, Inl e) \<Rightarrow> (d\<lparr>pd_phase := PScalar field v t\<rparr>, Inl e)
      | (t, v, Inr ended) \<Rightarrow>
          if \<not> ended then (d\<lparr>pd_phase := PScalar field v t\<rparr>, Inr None)
          else if utf8 v
          then (d\<lparr>pd_values := bt_insert (sp_name part) v (pd_values d), pd_phase := PHeaders\<rparr>, Inr None)
          else (d\<lparr>pd_phase := PScalar field [] t\<rparr>, Inl ''multipart scalar is not UTF-8''))"

definition prefix_byte :: "prefix_decoder \<Rightarrow> char \<Rightarrow> (prefix_decoder, ready_prefix option) sres" where
  "prefix_byte d c =
     (case checked_add_u64 (pd_total d) 1 of
        None \<Rightarrow> (d, Inl ''multipart prefix overflow'')
      | Some n \<Rightarrow>
         (let d = d\<lparr>pd_total := n\<rparr> in
          if \<not> n \<le> PREFIX_BYTES then (d, Inl ''multipart prefix limit'')
          else case pd_phase d of
            PInitial cursor \<Rightarrow>
              (let initial = initial_delimiter (pd_boundary d) in
               if cursor < length initial \<and> initial ! cursor = c
               then (d\<lparr>pd_phase := (if cursor + 1 = length initial then PHeaders else PInitial (cursor + 1))\<rparr>, Inr None)
               else (d, Inl ''invalid initial multipart delimiter''))
          | PHeaders \<Rightarrow> headers_byte d c
          | PScalar field v t \<Rightarrow> scalar_byte d field v t c
          | PReady \<Rightarrow> (d, Inl ''unreachable'')
          | PPoisoned \<Rightarrow> (d, Inl ''unreachable'')))"

fun prefix_loop :: "prefix_decoder \<Rightarrow> nat \<Rightarrow> bytes \<Rightarrow> (prefix_decoder, prefix_progress) sres" where
  "prefix_loop d index [] = (d, Inr \<lparr>pp_consumed = index, pp_ready = None\<rparr>)"
| "prefix_loop d index (c # cs) =
     (case prefix_byte d c of
        (d, Inl e) \<Rightarrow> (d, Inl e)
      | (d, Inr (Some r)) \<Rightarrow> (d, Inr \<lparr>pp_consumed = index + 1, pp_ready = Some r\<rparr>)
      | (d, Inr None) \<Rightarrow> prefix_loop d (index + 1) cs)"

definition prefix_push_inner :: "prefix_decoder \<Rightarrow> bytes \<Rightarrow> (prefix_decoder, prefix_progress) sres" where
  "prefix_push_inner d s =
     (if \<not> length s \<le> TRANSFER_BUFFER_BYTES then (d, Inl ''multipart input buffer limit'')
      else if pd_phase d = PReady \<or> pd_phase d = PPoisoned then (d, Inl ''multipart prefix is closed'')
      else prefix_loop d 0 s)"

definition prefix_push :: "prefix_decoder \<Rightarrow> bytes \<Rightarrow> (prefix_decoder, prefix_progress) sres" where
  "prefix_push d s =
     (case prefix_push_inner d s of
        (d, Inl e) \<Rightarrow> (d\<lparr>pd_phase := PPoisoned\<rparr>, Inl e)
      | (d, Inr p) \<Rightarrow> (d, Inr p))"

definition prefix_finish :: "prefix_decoder \<Rightarrow> unit res" where
  "prefix_finish d = ensure (pd_phase d = PReady) ''truncated multipart prefix'' (Inr ())"

section \<open>The file decoder\<close>

datatype file_phase = FData | FClosing nat | FDone | FPoisoned

record file_decoder =
  fd_matcher :: matcher
  fd_phase :: file_phase
  fd_limit :: nat
  fd_accepted :: nat

definition file_new :: "bytes \<Rightarrow> nat \<Rightarrow> file_decoder res" where
  "file_new boundary limit =
     and_then (matcher_new (file_end boundary)) (\<lambda>t.
     Inr \<lparr>fd_matcher = t, fd_phase = FData, fd_limit = limit, fd_accepted = 0\<rparr>)"

definition into_body :: "ready_prefix \<Rightarrow> file_decoder res" where
  "into_body r = file_new (rp_boundary r) (rp_limit r)"

text \<open>What one push works on: the filled part of the output buffer, the count of accepted bytes and
  the sink.\<close>

record 'k file_out =
  fo_pending :: bytes
  fo_accepted :: nat
  fo_sink :: 'k


definition file_flush :: "nat \<Rightarrow> 'k emitter \<Rightarrow> bytes \<Rightarrow> 'k file_out \<Rightarrow> ('k file_out, unit) sres" where
  "file_flush limit sink bs o1 =
     (case checked_add_u64 (fo_accepted o1) (length bs) of
        None \<Rightarrow> (o1, Inl ''multipart file overflow'')
      | Some n \<Rightarrow>
          if \<not> n \<le> limit then (o1, Inl ''multipart file byte limit'')
          else case sink bs (fo_sink o1) of
            (k, Inl e) \<Rightarrow> (o1\<lparr>fo_sink := k\<rparr>, Inl e)
          | (k, Inr _) \<Rightarrow> (o1\<lparr>fo_sink := k, fo_accepted := n\<rparr>, Inr ()))"

fun file_emit :: "nat \<Rightarrow> 'k emitter \<Rightarrow> 'k file_out emitter" where
  "file_emit limit sink [] o1 = (o1, Inr ())"
| "file_emit limit sink (c # cs) o1 =
     (let o1 = o1\<lparr>fo_pending := fo_pending o1 @ [c]\<rparr> in
      if length (fo_pending o1) = TRANSFER_BUFFER_BYTES then
        (case file_flush limit sink (fo_pending o1) o1 of
           (o1, Inl e) \<Rightarrow> (o1, Inl e)
         | (o1, Inr _) \<Rightarrow> file_emit limit sink cs (o1\<lparr>fo_pending := []\<rparr>))
      else file_emit limit sink cs o1)"

definition CLOSING :: bytes where "CLOSING = ''--'' @ [CR, LF]"

definition file_byte :: "nat \<Rightarrow> 'k emitter \<Rightarrow> char \<Rightarrow> matcher \<Rightarrow> file_phase \<Rightarrow> 'k file_out
    \<Rightarrow> (matcher \<times> file_phase) \<times> ('k file_out, unit) sres" where
  "file_byte limit sink c t phase o1 =
     (case phase of
        FData \<Rightarrow>
          (case matcher_byte t c (file_emit limit sink) o1 of
             (t, o1, Inl e) \<Rightarrow> ((t, FData), o1, Inl e)
           | (t, o1, Inr ended) \<Rightarrow> ((t, if ended then FClosing 0 else FData), o1, Inr ()))
      | FClosing cursor \<Rightarrow>
          if cursor < length CLOSING \<and> CLOSING ! cursor = c
          then ((t, if cursor + 1 = length CLOSING then FDone else FClosing (cursor + 1)), o1, Inr ())
          else ((t, phase), o1, Inl ''unexpected part or multipart closing suffix'')
      | FDone \<Rightarrow> ((t, phase), o1, Inl ''multipart epilogue or extra part denied'')
      | FPoisoned \<Rightarrow> ((t, phase), o1, Inl ''unreachable''))"

fun file_loop :: "nat \<Rightarrow> 'k emitter \<Rightarrow> bytes \<Rightarrow> matcher \<Rightarrow> file_phase \<Rightarrow> 'k file_out
    \<Rightarrow> (matcher \<times> file_phase) \<times> ('k file_out, unit) sres" where
  "file_loop limit sink [] t phase o1 = ((t, phase), o1, Inr ())"
| "file_loop limit sink (c # cs) t phase o1 =
     (case file_byte limit sink c t phase o1 of
        (tp, o1, Inl e) \<Rightarrow> (tp, o1, Inl e)
      | ((t, phase), o1, Inr _) \<Rightarrow> file_loop limit sink cs t phase o1)"

definition file_push_inner :: "file_decoder \<Rightarrow> bytes \<Rightarrow> 'k emitter \<Rightarrow> 'k \<Rightarrow> file_decoder \<times> ('k, unit) sres" where
  "file_push_inner d s sink k =
     (if \<not> length s \<le> TRANSFER_BUFFER_BYTES then (d, k, Inl ''multipart file input buffer limit'')
      else if fd_phase d = FPoisoned then (d, k, Inl ''multipart file is poisoned'')
      else case file_loop (fd_limit d) sink s (fd_matcher d) (fd_phase d)
                  \<lparr>fo_pending = [], fo_accepted = fd_accepted d, fo_sink = k\<rparr> of
        ((t, phase), o1, r) \<Rightarrow>
          (case (case r of
                   Inl e \<Rightarrow> (o1, Inl e)
                 | Inr _ \<Rightarrow> if fo_pending o1 \<noteq> [] then file_flush (fd_limit d) sink (fo_pending o1) o1 else (o1, Inr ())) of
             (o1, r) \<Rightarrow> (d\<lparr>fd_matcher := t, fd_phase := phase, fd_accepted := fo_accepted o1\<rparr>, fo_sink o1, r)))"

definition file_push :: "file_decoder \<Rightarrow> bytes \<Rightarrow> 'k emitter \<Rightarrow> 'k \<Rightarrow> file_decoder \<times> ('k, unit) sres" where
  "file_push d s sink k =
     (case file_push_inner d s sink k of
        (d, k, Inl e) \<Rightarrow> (d\<lparr>fd_phase := FPoisoned\<rparr>, k, Inl e)
      | (d, k, Inr _) \<Rightarrow> (d, k, Inr ()))"

definition file_finish :: "file_decoder \<Rightarrow> nat res" where
  "file_finish d = ensure (fd_phase d = FDone) ''truncated multipart file'' (Inr (fd_accepted d))"

section \<open>A body in pieces\<close>

text \<open>The adapter feeds the pieces of the body one after the other and stops at the first failure.\<close>

fun file_pushes :: "file_decoder \<Rightarrow> bytes list \<Rightarrow> 'k emitter \<Rightarrow> 'k \<Rightarrow> file_decoder \<times> ('k, unit) sres" where
  "file_pushes d [] sink k = (d, k, Inr ())"
| "file_pushes d (s # ss) sink k =
     (case file_push d s sink k of
        (d, k, Inl e) \<Rightarrow> (d, k, Inl e)
      | (d, k, Inr _) \<Rightarrow> file_pushes d ss sink k)"

definition file_decode :: "bytes \<Rightarrow> nat \<Rightarrow> bytes list \<Rightarrow> 'k emitter \<Rightarrow> 'k \<Rightarrow> (nat \<times> 'k) res" where
  "file_decode boundary limit pieces sink k =
     and_then (file_new boundary limit) (\<lambda>d.
       case file_pushes d pieces sink k of
         (d, k, Inl e) \<Rightarrow> Inl e
       | (d, k, Inr _) \<Rightarrow> and_then (file_finish d) (\<lambda>n. Inr (n, k)))"

end
