(* ===== verification/Multipart_File.thy ===== *)
theory Multipart_File
  imports Multipart
begin

text \<open>
  The file part of an upload: what reaches the sink, whatever the pieces the body arrives in.
\<close>

section \<open>The grammar of a body\<close>

text \<open>A body carries the file \<open>out\<close> when it is the file, the first delimiter, and the closing
  suffix.\<close>

definition body_text :: "bytes \<Rightarrow> bytes \<Rightarrow> bytes \<Rightarrow> bool" where
  "body_text d out w \<longleftrightarrow> w = out @ d @ CLOSING \<and> \<not> sublist d (butlast (out @ d))"

lemma first_occurrence_le:
  assumes "out @ d @ x = out' @ d @ y" and "\<not> sublist d (butlast (out' @ d))" and "d \<noteq> []"
  shows "length out' \<le> length out"
proof (rule ccontr)
  assume *: "\<not> length out' \<le> length out"
  let ?n = "length out + length d"
  have "take ?n (out @ d @ x) = out @ d" by simp
  then have "take ?n (out' @ d @ y) = out @ d" using assms(1) by simp
  moreover have "take ?n (out' @ d @ y) = take ?n (out' @ d)" using * by simp
  moreover have "take ?n (butlast (out' @ d)) = take ?n (out' @ d)" using * by (intro take_butlast) simp
  ultimately have "take ?n (butlast (out' @ d)) = out @ d" by simp
  then show False using assms(2) by (metis append_take_drop_id sublist_append_leftI sublist_append_rightI sublist_order.order.trans)
qed

lemma first_occurrence_unique:
  assumes "out @ d @ x = out' @ d @ y" and "\<not> sublist d (butlast (out @ d))"
    and "\<not> sublist d (butlast (out' @ d))" and "d \<noteq> []"
  shows "out = out' \<and> x = y"
proof -
  have "length out = length out'"
    using first_occurrence_le [OF assms(1,3,4)] first_occurrence_le [OF assms(1) [symmetric] assms(2,4)] by simp
  then show ?thesis using assms(1) by simp
qed

text \<open>What a scanner has released is no longer than the file.\<close>

lemma released_le:
  assumes "held d s n" and "out @ take n d = s" and "s @ rest = g @ d @ x"
    and "length s \<le> length g + length d"
  shows "length out \<le> length g"
proof (cases "length s \<le> length g")
  case True
  then show ?thesis using assms(2) by auto
next
  case False
  let ?j = "length s - length g"
  have "s = take (length s) (g @ d @ x)" using assms(3) by (metis append_eq_conv_conj)
  then have "s = g @ take ?j d" using False assms(4) by (simp add: take_append)
  then have "suffix (take ?j d) s" by (metis suffix_def)
  moreover have "?j \<le> length d" using assms(4) by simp
  ultimately have "?j \<le> n" using assms(1) by (simp add: held_def)
  moreover have "length s = length out + n" using assms(1,2) by (auto simp: held_def)
  ultimately show ?thesis using False by simp
qed

section \<open>The sink\<close>

text \<open>A sink that keeps what it is given.\<close>

definition collect :: "bytes emitter" where
  "collect bs k = (k @ bs, Inr ())"

definition file_contents :: "bytes file_out \<Rightarrow> bytes" where
  "file_contents o1 = fo_sink o1 @ fo_pending o1"

definition file_inv :: "nat \<Rightarrow> bytes file_out \<Rightarrow> bool" where
  "file_inv limit o1 \<longleftrightarrow> length (fo_pending o1) < TRANSFER_BUFFER_BYTES
     \<and> fo_accepted o1 = length (fo_sink o1) \<and> fo_accepted o1 \<le> limit"

definition file_fits :: "nat \<Rightarrow> bytes \<Rightarrow> bool" where
  "file_fits limit out \<longleftrightarrow> length out \<le> limit \<and> length out \<le> U64_MAX"

lemma file_flush_collect:
  "file_flush limit collect bs o1 =
     (if fo_accepted o1 + length bs \<le> U64_MAX then
        if fo_accepted o1 + length bs \<le> limit
        then (o1\<lparr>fo_sink := fo_sink o1 @ bs, fo_accepted := fo_accepted o1 + length bs\<rparr>, Inr ())
        else (o1, Inl ''multipart file byte limit'')
      else (o1, Inl ''multipart file overflow''))"
  by (simp add: file_flush_def checked_add_u64_def collect_def)

lemma file_emit_full:
  assumes "length (fo_pending o1) + 1 = TRANSFER_BUFFER_BYTES"
  shows "file_emit limit collect (c # bs) o1 =
     (if fo_accepted o1 + length (fo_pending o1 @ [c]) \<le> U64_MAX then
        if fo_accepted o1 + length (fo_pending o1 @ [c]) \<le> limit
        then file_emit limit collect bs (o1\<lparr>fo_pending := [], fo_sink := fo_sink o1 @ fo_pending o1 @ [c],
          fo_accepted := fo_accepted o1 + length (fo_pending o1 @ [c])\<rparr>)
        else (o1\<lparr>fo_pending := fo_pending o1 @ [c]\<rparr>, Inl ''multipart file byte limit'')
      else (o1\<lparr>fo_pending := fo_pending o1 @ [c]\<rparr>, Inl ''multipart file overflow''))"
  using assms by (cases o1) (simp add: file_flush_collect Let_def)

lemma file_emit_appends:
  assumes "file_inv limit o1" and "file_emit limit collect bs o1 = (o2, Inr ())"
  shows "file_inv limit o2 \<and> file_contents o2 = file_contents o1 @ bs"
  using assms
proof (induction bs arbitrary: o1)
  case (Cons c bs)
  show ?case
  proof (cases "length (fo_pending o1) + 1 = TRANSFER_BUFFER_BYTES")
    case True
    let ?o = "o1\<lparr>fo_pending := [], fo_sink := fo_sink o1 @ fo_pending o1 @ [c],
        fo_accepted := fo_accepted o1 + length (fo_pending o1 @ [c])\<rparr>"
    have e: "file_emit limit collect bs ?o = (o2, Inr ())" and l: "fo_accepted o1 + length (fo_pending o1 @ [c]) \<le> limit"
      using Cons.prems(2) unfolding file_emit_full [OF True] by (auto split: if_splits)
    have "file_inv limit ?o" using Cons.prems(1) l by (simp add: file_inv_def TRANSFER_BUFFER_BYTES_def)
    then show ?thesis using Cons.IH [OF _ e] by (simp add: file_contents_def)
  next
    case False
    let ?o = "o1\<lparr>fo_pending := fo_pending o1 @ [c]\<rparr>"
    have e: "file_emit limit collect bs ?o = (o2, Inr ())" using Cons.prems(2) False by simp
    have "file_inv limit ?o" using Cons.prems(1) False by (simp add: file_inv_def)
    then show ?thesis using Cons.IH [OF _ e] by (simp add: file_contents_def)
  qed
qed simp

lemma file_emit_fits:
  assumes "file_inv limit o1" and "file_fits limit (file_contents o1 @ bs)"
  shows "\<exists>o2. file_emit limit collect bs o1 = (o2, Inr ())"
  using assms
proof (induction bs arbitrary: o1)
  case (Cons c bs)
  show ?case
  proof (cases "length (fo_pending o1) + 1 = TRANSFER_BUFFER_BYTES")
    case True
    let ?o = "o1\<lparr>fo_pending := [], fo_sink := fo_sink o1 @ fo_pending o1 @ [c],
        fo_accepted := fo_accepted o1 + length (fo_pending o1 @ [c])\<rparr>"
    have l: "fo_accepted o1 + length (fo_pending o1 @ [c]) \<le> limit" "fo_accepted o1 + length (fo_pending o1 @ [c]) \<le> U64_MAX"
      using Cons.prems by (simp_all add: file_inv_def file_fits_def file_contents_def)
    have "file_inv limit ?o" using Cons.prems(1) l by (simp add: file_inv_def TRANSFER_BUFFER_BYTES_def)
    then have "\<exists>o2. file_emit limit collect bs ?o = (o2, Inr ())"
      using Cons.IH [of ?o] Cons.prems(2) by (simp add: file_contents_def)
    then show ?thesis unfolding file_emit_full [OF True] using l by simp
  next
    case False
    let ?o = "o1\<lparr>fo_pending := fo_pending o1 @ [c]\<rparr>"
    have "file_inv limit ?o" using Cons.prems(1) False by (simp add: file_inv_def)
    then show ?thesis using Cons.IH [of ?o] Cons.prems(2) False by (simp add: file_contents_def)
  qed
qed simp

interpretation file_body: appender "file_emit limit collect" file_contents "file_inv limit" "file_fits limit"
  for limit :: nat
  by unfold_locales (use file_emit_appends file_emit_fits in \<open>auto simp: file_fits_def\<close>)

section \<open>One byte\<close>

text \<open>What the decoder knows after reading \<open>w\<close>.\<close>

definition file_rel :: "bytes \<Rightarrow> bytes \<Rightarrow> matcher \<Rightarrow> file_phase \<Rightarrow> bytes \<Rightarrow> bool" where
  "file_rel d w t phase out \<longleftrightarrow> mt_delimiter t = d \<and> d \<noteq> [] \<and>
     (case phase of
        FData \<Rightarrow> scanning t w out
      | FClosing j \<Rightarrow> j < length CLOSING \<and> w = out @ d @ take j CLOSING \<and> \<not> sublist d (butlast (out @ d))
      | FDone \<Rightarrow> body_text d out w
      | FPoisoned \<Rightarrow> False)"

lemma scanning_released_le:
  assumes "scanning t w out" and "body_text (mt_delimiter t) g (w @ rest)"
  shows "length w < length g + length (mt_delimiter t) \<and> length out \<le> length g"
proof -
  let ?d = "mt_delimiter t"
  have w: "w @ rest = g @ ?d @ CLOSING" using assms(2) by (simp add: body_text_def)
  have "\<not> length g + length ?d \<le> length w"
  proof
    assume "length g + length ?d \<le> length w"
    then have "take (length g + length ?d) w = take (length g + length ?d) (w @ rest)" by simp
    also have "\<dots> = g @ ?d" unfolding w by simp
    finally have "sublist ?d w" by (metis append_take_drop_id sublist_append_leftI sublist_append_rightI sublist_order.order.trans)
    then show False using assms(1) by (simp add: scanning_def)
  qed
  then show ?thesis using released_le [of ?d w "mt_matched t" out rest g CLOSING] assms(1) w
    by (simp add: scanning_def)
qed

lemma file_rel_body:
  assumes "file_rel d w t phase out" and "body_text d g (w @ rest)"
  shows "length out \<le> length g"
proof (cases phase)
  case FData
  then show ?thesis using assms scanning_released_le by (auto simp: file_rel_def)
next
  case (FClosing j)
  then have "g @ d @ CLOSING = out @ d @ take j CLOSING @ rest" using assms by (simp add: file_rel_def body_text_def)
  then show ?thesis using first_occurrence_le [of g d CLOSING out "take j CLOSING @ rest"] FClosing assms
    by (simp add: file_rel_def)
next
  case FDone
  then have "g @ d @ CLOSING = out @ d @ CLOSING @ rest" using assms by (simp add: file_rel_def body_text_def)
  then show ?thesis using first_occurrence_le [of g d CLOSING out "CLOSING @ rest"] FDone assms
    by (simp add: file_rel_def body_text_def)
qed (use assms in \<open>simp add: file_rel_def\<close>)

lemma file_byte_closing:
  assumes "file_rel d w t phase (file_contents o1)" and "phase \<noteq> FData"
  shows "case file_byte limit collect c t phase o1 of
      ((t', phase'), o2, Inr _) \<Rightarrow> o2 = o1 \<and> file_rel d (w @ [c]) t' phase' (file_contents o1)
    | (_, _, Inl _) \<Rightarrow> \<forall>g rest. \<not> body_text d g (w @ [c] @ rest)"
proof (cases phase)
  case (FClosing j)
  have j: "j < length CLOSING" "w = file_contents o1 @ d @ take j CLOSING" "\<not> sublist d (butlast (file_contents o1 @ d))"
    "mt_delimiter t = d" "d \<noteq> []"
    using assms FClosing by (simp_all add: file_rel_def)
  have "\<not> body_text d g (w @ [c] @ rest)" if "CLOSING ! j \<noteq> c" for g rest
  proof
    assume b: "body_text d g (w @ [c] @ rest)"
    then have "file_contents o1 @ d @ (take j CLOSING @ c # rest) = g @ d @ CLOSING"
      using j(2) by (simp add: body_text_def)
    then have "take j CLOSING @ c # rest = CLOSING"
      using first_occurrence_unique j(3,5) b by (metis body_text_def)
    then have "CLOSING ! j = (take j CLOSING @ c # rest) ! j" by simp
    then show False using that j(1) by (simp add: nth_append)
  qed
  moreover have "take j CLOSING @ [CLOSING ! j] = take (Suc j) CLOSING"
    using j(1) by (simp add: take_Suc_conv_app_nth)
  ultimately show ?thesis using FClosing j
    by (auto simp: file_byte_def file_rel_def body_text_def)
next
  case FDone
  have "\<not> body_text d g (w @ [c] @ rest)" for g rest
  proof
    assume b: "body_text d g (w @ [c] @ rest)"
    then have "file_contents o1 @ d @ (CLOSING @ c # rest) = g @ d @ CLOSING"
      using FDone assms(1) by (simp add: body_text_def file_rel_def)
    moreover have "\<not> sublist d (butlast (file_contents o1 @ d))" "d \<noteq> []"
      using FDone assms(1) by (simp_all add: body_text_def file_rel_def)
    ultimately have "CLOSING @ c # rest = CLOSING"
      using first_occurrence_unique b by (metis body_text_def)
    then show False by simp
  qed
  then show ?thesis using FDone by (simp add: file_byte_def)
qed (use assms in \<open>simp_all add: file_rel_def\<close>)

lemma file_byte_data:
  assumes "file_rel d w t FData (file_contents o1)" and "file_inv limit o1"
  shows "case file_byte limit collect c t FData o1 of
      ((t', phase'), o2, Inr _) \<Rightarrow> file_inv limit o2 \<and> file_rel d (w @ [c]) t' phase' (file_contents o2)
    | (_, _, Inl _) \<Rightarrow> \<forall>g rest. body_text d g (w @ [c] @ rest) \<longrightarrow> \<not> file_fits limit g"
proof -
  have sc: "scanning t w (file_contents o1)" and d: "mt_delimiter t = d" "d \<noteq> []"
    using assms(1) by (simp_all add: file_rel_def)
  from file_body.byte_step [OF sc assms(2), of c] show ?thesis
  proof (elim disjE exE conjE)
    fix t' o2 ended
    assume *: "matcher_byte t c (file_emit limit collect) o1 = (t', o2, Inr ended)" "file_inv limit o2"
      "mt_delimiter t' = mt_delimiter t" "ended = suffix (mt_delimiter t) (w @ [c])"
      "if ended then file_contents o2 @ mt_delimiter t = w @ [c] else scanning t' (w @ [c]) (file_contents o2)"
    have "\<not> sublist d w" using sc d by (simp add: scanning_def)
    then have "file_rel d (w @ [c]) t' (if ended then FClosing 0 else FData) (file_contents o2)"
      using * d by (auto simp: file_rel_def CLOSING_def butlast_append split: if_splits)
    then show ?thesis using * by (simp add: file_byte_def)
  next
    fix t' o2 e out n
    assume *: "matcher_byte t c (file_emit limit collect) o1 = (t', o2, Inl e)" "\<not> file_fits limit out"
      "held (mt_delimiter t) (w @ [c]) n" "out @ take n (mt_delimiter t) = w @ [c]"
    have "\<not> file_fits limit g" if b: "body_text d g (w @ [c] @ rest)" for g rest
    proof -
      have "length w < length g + length d" using scanning_released_le [OF sc] b d by simp
      then have "length out \<le> length g"
        using released_le [of d "w @ [c]" n out rest g CLOSING] * b d by (simp add: body_text_def)
      then show ?thesis using *(2) by (auto simp: file_fits_def)
    qed
    then show ?thesis using *(1) by (simp add: file_byte_def)
  qed
qed

lemma file_byte_rel:
  assumes "file_rel d w t phase (file_contents o1)" and "file_inv limit o1"
  shows "case file_byte limit collect c t phase o1 of
      ((t', phase'), o2, Inr _) \<Rightarrow> file_inv limit o2 \<and> file_rel d (w @ [c]) t' phase' (file_contents o2)
    | (_, _, Inl _) \<Rightarrow> \<forall>g rest. body_text d g (w @ [c] @ rest) \<longrightarrow> \<not> file_fits limit g"
proof (cases "phase = FData")
  case True
  show ?thesis unfolding True by (rule file_byte_data) (use assms True in simp_all)
next
  case False
  show ?thesis using file_byte_closing [OF assms(1) False, where limit = limit and c = c] assms(2)
    by (auto split: prod.splits sum.splits)
qed

section \<open>Pushes\<close>

lemma file_loop_rel:
  assumes "file_rel d w t phase (file_contents o1)" and "file_inv limit o1"
  shows "case file_loop limit collect s t phase o1 of
      ((t', phase'), o2, Inr _) \<Rightarrow> file_inv limit o2 \<and> file_rel d (w @ s) t' phase' (file_contents o2)
    | (_, _, Inl _) \<Rightarrow> \<forall>g rest. body_text d g (w @ s @ rest) \<longrightarrow> \<not> file_fits limit g"
  using assms
proof (induction s arbitrary: w t phase o1)
  case (Cons c s)
  obtain t' phase' o2 r where b: "file_byte limit collect c t phase o1 = ((t', phase'), o2, r)"
    by (metis prod.exhaust)
  show ?case
  proof (cases r)
    case (Inl e)
    then show ?thesis using file_byte_rel [OF Cons.prems, of c] b by auto
  next
    case (Inr u)
    then have "file_inv limit o2" "file_rel d (w @ [c]) t' phase' (file_contents o2)"
      using file_byte_rel [OF Cons.prems, of c] b by simp_all
    then show ?thesis using Cons.IH [of "w @ [c]" t' phase' o2] b Inr by (auto split: prod.splits sum.splits)
  qed
qed simp

text \<open>Between pushes nothing is pending.\<close>

definition decoder_rel :: "bytes \<Rightarrow> nat \<Rightarrow> bytes \<Rightarrow> file_decoder \<Rightarrow> bytes \<Rightarrow> bool" where
  "decoder_rel d limit w fd k \<longleftrightarrow> fd_limit fd = limit \<and> fd_accepted fd = length k \<and> length k \<le> limit
     \<and> file_rel d w (fd_matcher fd) (fd_phase fd) k"

lemma file_push_rel:
  assumes "decoder_rel d limit w fd k" and "length s \<le> TRANSFER_BUFFER_BYTES"
  shows "case file_push fd s collect k of
      (fd', k', Inr _) \<Rightarrow> decoder_rel d limit (w @ s) fd' k'
    | (_, _, Inl _) \<Rightarrow> \<forall>g rest. body_text d g (w @ s @ rest) \<longrightarrow> \<not> file_fits limit g"
proof -
  let ?o = "\<lparr>fo_pending = [], fo_accepted = fd_accepted fd, fo_sink = k\<rparr>"
  have rel: "file_rel d w (fd_matcher fd) (fd_phase fd) (file_contents ?o)" "file_inv limit ?o"
    using assms(1) by (simp_all add: decoder_rel_def file_contents_def file_inv_def TRANSFER_BUFFER_BYTES_def)
  have np: "fd_phase fd \<noteq> FPoisoned" and lim: "fd_limit fd = limit" using assms(1) by (auto simp: decoder_rel_def file_rel_def)
  obtain t phase o2 r where l: "file_loop limit collect s (fd_matcher fd) (fd_phase fd) ?o = ((t, phase), o2, r)"
    by (metis prod.exhaust)
  show ?thesis
  proof (cases r)
    case (Inl e)
    then show ?thesis using file_loop_rel [OF rel, of s] l np lim assms(2)
      by (simp add: file_push_def file_push_inner_def)
  next
    case (Inr u)
    then have o2: "file_inv limit o2" "file_rel d (w @ s) t phase (file_contents o2)"
      using file_loop_rel [OF rel, of s] l by simp_all
    show ?thesis
    proof (cases "file_fits limit (file_contents o2)")
      case True
      then show ?thesis using o2 l Inr np lim assms(2)
        by (auto simp: file_push_def file_push_inner_def file_flush_collect decoder_rel_def file_inv_def
            file_fits_def file_contents_def)
    next
      case False
      have "\<not> file_fits limit g" if "body_text d g (w @ s @ rest)" for g rest
        using file_rel_body [OF o2(2), of g rest] that False by (auto simp: file_fits_def)
      moreover have "fo_pending o2 \<noteq> [] \<or> length (fo_sink o2) > U64_MAX"
        using False o2(1) by (auto simp: file_fits_def file_contents_def file_inv_def)
      ultimately show ?thesis using False o2 l Inr np lim assms(2)
        by (auto simp: file_push_def file_push_inner_def file_flush_collect decoder_rel_def file_inv_def
            file_fits_def file_contents_def split: if_splits)
    qed
  qed
qed

lemma file_pushes_rel:
  assumes "decoder_rel d limit w fd k" and "\<And>s. s \<in> set ss \<Longrightarrow> length s \<le> TRANSFER_BUFFER_BYTES"
  shows "case file_pushes fd ss collect k of
      (fd', k', Inr _) \<Rightarrow> decoder_rel d limit (w @ concat ss) fd' k'
    | (_, _, Inl _) \<Rightarrow> \<forall>g. body_text d g (w @ concat ss) \<longrightarrow> \<not> file_fits limit g"
  using assms
proof (induction ss arbitrary: w fd k)
  case (Cons s ss)
  obtain fd' k' r where p: "file_push fd s collect k = (fd', k', r)" by (metis prod.exhaust)
  note push = file_push_rel [OF Cons.prems(1), of s]
  show ?case
  proof (cases r)
    case (Inl e)
    then show ?thesis using push p Cons.prems(2) by auto
  next
    case (Inr u)
    then have "decoder_rel d limit (w @ s) fd' k'" using push p Cons.prems(2) by simp
    then show ?thesis using Cons.IH [of "w @ s" fd' k'] Cons.prems(2) p Inr by (auto split: prod.splits sum.splits)
  qed
qed simp

lemma file_end_ne: "file_end b \<noteq> []"
  by (simp add: file_end_def)

lemma file_new_rel:
  "\<exists>fd. file_new b limit = Inr fd \<and> decoder_rel (file_end b) limit [] fd []"
proof -
  obtain t where t: "matcher_new (file_end b) = Inr t" using matcher_new_correct [OF file_end_ne] by blast
  then show ?thesis using scanning_new [OF t file_end_ne] file_end_ne
    by (auto simp: file_new_def decoder_rel_def file_rel_def)
qed

lemma file_rel_finished:
  assumes "file_rel d w t phase out" and "body_text d g w"
  shows "phase = FDone \<and> g = out"
proof (cases phase)
  case FData
  then show ?thesis using assms by (auto simp: file_rel_def scanning_def body_text_def)
next
  case (FClosing j)
  then have *: "out @ d @ take j CLOSING = g @ d @ CLOSING" "j < length CLOSING" using assms by (simp_all add: file_rel_def body_text_def)
  then have "take j CLOSING = CLOSING"
    using first_occurrence_unique [OF *(1)] FClosing assms by (simp add: file_rel_def body_text_def)
  then have "length CLOSING \<le> j" by simp
  then show ?thesis using *(2) by simp
next
  case FDone
  then have *: "out @ d @ CLOSING = g @ d @ CLOSING" using assms by (simp add: file_rel_def body_text_def)
  then show ?thesis using FDone by simp
qed (use assms in \<open>simp add: file_rel_def\<close>)

section \<open>The whole body\<close>

text \<open>C15: streaming a file is exact.  Whatever pieces the body of an upload arrives in (each within the
  transfer buffer), decoding succeeds precisely when the body is a file, the first occurrence of the
  delimiter after it, and the closing suffix, with the file within its limit; then the sink has
  received exactly the bytes of the file, in order, and their count is returned.  In particular the
  result does not depend on how the body was cut, a delimiter spanning pieces is found, near misses of
  the delimiter are delivered intact, and nothing may follow the closing suffix.\<close>

theorem file_decode_exact:
  assumes "\<forall>s \<in> set pieces. length s \<le> TRANSFER_BUFFER_BYTES" and "limit \<le> U64_MAX"
  shows "file_decode b limit pieces collect [] = Inr (n, out)
     \<longleftrightarrow> n = length out \<and> n \<le> limit \<and> concat pieces = out @ file_end b @ CLOSING
         \<and> \<not> sublist (file_end b) (butlast (out @ file_end b))"
proof -
  obtain fd where fd: "file_new b limit = Inr fd" "decoder_rel (file_end b) limit [] fd []"
    using file_new_rel by blast
  obtain fd' k r where p: "file_pushes fd pieces collect [] = (fd', k, r)" by (metis prod.exhaust)
  note rel = file_pushes_rel [OF fd(2), of pieces]
  have "file_decode b limit pieces collect [] = Inr (n, out)
      \<longleftrightarrow> n = length out \<and> n \<le> limit \<and> body_text (file_end b) out (concat pieces)"
  proof (cases r)
    case (Inl e)
    then have "\<not> file_fits limit g" if "body_text (file_end b) g (concat pieces)" for g
      using rel p assms(1) that by simp
    then have "\<not> (length out \<le> limit \<and> body_text (file_end b) out (concat pieces))"
      using assms(2) by (auto simp: file_fits_def)
    then show ?thesis using p fd(1) Inl by (auto simp: file_decode_def)
  next
    case (Inr u)
    then have d: "decoder_rel (file_end b) limit (concat pieces) fd' k" using rel p assms by simp
    then have r: "file_rel (file_end b) (concat pieces) (fd_matcher fd') (fd_phase fd') k" by (simp add: decoder_rel_def)
    have "fd_phase fd' = FDone \<longleftrightarrow> body_text (file_end b) k (concat pieces)"
    proof
      assume "fd_phase fd' = FDone"
      then show "body_text (file_end b) k (concat pieces)" using r by (simp add: file_rel_def)
    qed (use file_rel_finished [OF r] in blast)
    moreover have "file_decode b limit pieces collect [] = and_then (file_finish fd') (\<lambda>n. Inr (n, k))"
      using fd(1) p Inr by (simp add: file_decode_def)
    moreover have "body_text (file_end b) out (concat pieces) \<Longrightarrow> out = k"
      using file_rel_finished [OF r] by simp
    ultimately show ?thesis using d by (auto simp: file_finish_def decoder_rel_def)
  qed
  then show ?thesis by (simp add: body_text_def)
qed

theorem file_decode_exact_witness:
  "file_decode ''x'' 10 [''hi'' @ [CR], [LF] @ ''-'', ''-x--'' @ [CR, LF]] collect [] = Inr (2, ''hi'')"
  using file_decode_exact [of "[''hi'' @ [CR], [LF] @ ''-'', ''-x--'' @ [CR, LF]]" 10 "''x''" 2 "''hi''"]
  by (simp add: TRANSFER_BUFFER_BYTES_def U64_MAX_def file_end_def CLOSING_def sublist_Cons_right)

end
