(* ===== verification/Multipart_Prefix.thy ===== *)
theory Multipart_Prefix
  imports Multipart "HOL-Library.Code_Target_Nat"
begin

text \<open>
  The scalar prefix of an upload: what a decoder that reports itself ready has read.
\<close>

section \<open>The grammar of a prefix\<close>

text \<open>A scalar part is its header block, the index of the declared field it fills, and its value.\<close>

type_synonym scalar_text = "bytes \<times> nat \<times> bytes"

definition prefix_text :: "bytes \<Rightarrow> scalar_text list \<Rightarrow> bytes" where
  "prefix_text b ps = initial_delimiter b @ concat (map (\<lambda>(h, i, v). h @ HEADER_END @ v @ next_delimiter b) ps)"

text \<open>The first occurrence of \<open>d\<close> in \<open>x\<close> followed by \<open>d\<close> is the one after \<open>x\<close>.\<close>

definition first_after :: "bytes \<Rightarrow> bytes \<Rightarrow> bool" where
  "first_after d x \<longleftrightarrow> \<not> sublist d (butlast (x @ d))"

lemma first_after_snoc: "x @ [c] = y @ d \<Longrightarrow> \<not> sublist d x \<Longrightarrow> first_after d y"
  unfolding first_after_def by (metis butlast_snoc)

definition scalar_ok :: "prefix_spec \<Rightarrow> bytes \<Rightarrow> nat \<Rightarrow> bool" where
  "scalar_ok spec h i \<longleftrightarrow> i < length (ps_fields spec) \<and>
     (\<exists>ph. parse_headers h = Inr ph \<and> ph_name ph = sp_name (ps_fields spec ! i) \<and> ph_filename ph = None
        \<and> \<not> ph_content_type ph)
     \<and> first_after HEADER_END h"

definition part_ok :: "bytes \<Rightarrow> prefix_spec \<Rightarrow> scalar_text \<Rightarrow> bool" where
  "part_ok b spec p \<longleftrightarrow> (case p of (h, i, v) \<Rightarrow>
     scalar_ok spec h i \<and> length v \<le> sp_max_bytes (ps_fields spec ! i) \<and> utf8 v
     \<and> first_after (next_delimiter b) v)"

definition part_index :: "scalar_text \<Rightarrow> nat" where
  "part_index p = fst (snd p)"

text \<open>The parts read so far fill declared fields in their order and skip no required one.\<close>

definition parts_ok :: "bytes \<Rightarrow> prefix_spec \<Rightarrow> scalar_text list \<Rightarrow> nat \<Rightarrow> bool" where
  "parts_ok b spec ps n \<longleftrightarrow> list_all (part_ok b spec) ps \<and> sorted_wrt (<) (map part_index ps)
     \<and> (\<forall>p \<in> set ps. part_index p < n) \<and> n \<le> length (ps_fields spec)
     \<and> (\<forall>i < n. sp_required (ps_fields spec ! i) \<longrightarrow> i \<in> part_index ` set ps)"

definition part_values :: "prefix_spec \<Rightarrow> scalar_text list \<Rightarrow> (string, string) btree" where
  "part_values spec ps = fold (\<lambda>(h, i, v). bt_insert (sp_name (ps_fields spec ! i)) v) ps []"

lemma part_values_snoc:
  "part_values spec (ps @ [(h, i, v)]) = bt_insert (sp_name (ps_fields spec ! i)) v (part_values spec ps)"
  by (simp add: part_values_def)

lemma prefix_text_snoc:
  "prefix_text b (ps @ [(h, i, v)]) = prefix_text b ps @ h @ HEADER_END @ v @ next_delimiter b"
  by (simp add: prefix_text_def)

lemma list_position_Some:
  "list_position P xs = Some i \<Longrightarrow> i < length xs \<and> P (xs ! i) \<and> (\<forall>x \<in> set (take i xs). \<not> P x)"
proof (induction xs arbitrary: i)
  case (Cons x xs)
  then show ?case by (cases i) (auto split: if_splits)
qed simp

section \<open>One byte\<close>

lemma scalar_emit_iff:
  "scalar_emit maximum bs v =
     (if length v + length bs \<le> U64_MAX \<and> length v + length bs \<le> maximum
      then (v @ bs, Inr ()) else (v, Inl ''multipart scalar limit''))"
  by (simp add: scalar_emit_def checked_add_u64_def)

interpretation scalar_value: appender "scalar_emit maximum" "\<lambda>v. v" "\<lambda>v. length v \<le> maximum"
    "\<lambda>v. length v \<le> maximum \<and> length v \<le> U64_MAX"
  for maximum :: nat
  by unfold_locales (auto simp: scalar_emit_iff split: if_splits)

definition prefix_rel :: "prefix_decoder \<Rightarrow> bytes \<Rightarrow> bool" where
  "prefix_rel d w \<longleftrightarrow> pd_total d = length w \<and> length w \<le> PREFIX_BYTES \<and>
     (case pd_phase d of
        PInitial j \<Rightarrow> j < length (initial_delimiter (pd_boundary d)) \<and> w = take j (initial_delimiter (pd_boundary d))
          \<and> pd_field d = 0 \<and> pd_values d = [] \<and> pd_headers d = []
      | PHeaders \<Rightarrow> (\<exists>ps. w = prefix_text (pd_boundary d) ps @ pd_headers d \<and> parts_ok (pd_boundary d) (pd_spec d) ps (pd_field d)
          \<and> pd_values d = part_values (pd_spec d) ps) \<and> \<not> sublist HEADER_END (pd_headers d)
      | PScalar i v t \<Rightarrow> pd_headers d = [] \<and> (\<exists>ps h s. w = prefix_text (pd_boundary d) ps @ h @ HEADER_END @ s
          \<and> scanning t s v \<and> mt_delimiter t = next_delimiter (pd_boundary d)
          \<and> scalar_ok (pd_spec d) h i \<and> length v \<le> sp_max_bytes (ps_fields (pd_spec d) ! i)
          \<and> parts_ok (pd_boundary d) (pd_spec d) ps i \<and> pd_field d = Suc i \<and> pd_values d = part_values (pd_spec d) ps)
      | PReady \<Rightarrow> False
      | PPoisoned \<Rightarrow> False)"

text \<open>What a ready decoder has read: the prefix, then the header block of the file part.\<close>

definition ready_rel :: "bytes \<Rightarrow> prefix_spec \<Rightarrow> ready_prefix \<Rightarrow> bytes \<Rightarrow> bool" where
  "ready_rel b spec r w \<longleftrightarrow> length w \<le> PREFIX_BYTES \<and>
     (\<exists>ps fh ph raw. w = prefix_text b ps @ fh @ HEADER_END \<and> parts_ok b spec ps (length (ps_fields spec))
        \<and> parse_headers fh = Inr ph \<and> ph_name ph = ps_file spec \<and> ph_filename ph = Some raw
        \<and> first_after HEADER_END fh \<and> rp_values r = part_values spec ps \<and> rp_boundary r = b
        \<and> (if raw = [] then ps_optional spec \<and> rp_filename r = None \<and> rp_limit r = 0
           else (\<exists>n. normalize raw = Inr n \<and> rp_filename r = Some n) \<and> rp_limit r = ps_limit spec))"

lemma strip_suffix_Some: "strip_suffix suf s = Some p \<longleftrightarrow> s = p @ suf"
  by (auto simp: strip_suffix_def) (metis append_take_drop_id)

lemma parts_ok_skip:
  assumes "parts_ok b spec ps n" and "n \<le> m" and "m \<le> length (ps_fields spec)"
    and "list_all (\<lambda>f. \<not> sp_required f) (take (m - n) (drop n (ps_fields spec)))"
  shows "parts_ok b spec ps m"
proof -
  have "\<not> sp_required (ps_fields spec ! i)" if "n \<le> i" "i < m" for i
  proof -
    have "take (m - n) (drop n (ps_fields spec)) ! (i - n) = ps_fields spec ! i"
      using that assms(3) by simp
    moreover have "i - n < length (take (m - n) (drop n (ps_fields spec)))" using that assms(3) by simp
    ultimately show ?thesis using assms(4) by (metis list_all_length)
  qed
  then show ?thesis using assms(1-3) unfolding parts_ok_def by (meson leI less_le_trans)
qed

lemma parts_ok_add:
  assumes "parts_ok b spec ps i" and "part_ok b spec (h, i, v)"
  shows "parts_ok b spec (ps @ [(h, i, v)]) (Suc i)"
  using assms by (auto simp: parts_ok_def part_index_def sorted_wrt_append part_ok_def scalar_ok_def less_Suc_eq)

lemma file_part_ready:
  assumes "file_part d h = Inr r" and "parse_headers fh = Inr h" and "first_after HEADER_END fh" and "ph_name h = ps_file (pd_spec d)"
    and "parts_ok (pd_boundary d) (pd_spec d) ps (pd_field d)" and "pd_values d = part_values (pd_spec d) ps"
    and "length (prefix_text (pd_boundary d) ps @ fh @ HEADER_END) \<le> PREFIX_BYTES"
  shows "ready_rel (pd_boundary d) (pd_spec d) r (prefix_text (pd_boundary d) ps @ fh @ HEADER_END)"
proof -
  obtain raw where raw: "ph_filename h = Some raw" "raw \<noteq> [] \<or> ps_optional (pd_spec d)"
    and rest: "list_all (\<lambda>f. \<not> sp_required f) (drop (pd_field d) (ps_fields (pd_spec d)))"
    and r: "rp_values r = pd_values d" "rp_boundary r = pd_boundary d"
      "if raw = [] then rp_filename r = None \<and> rp_limit r = 0
       else (\<exists>n. normalize raw = Inr n \<and> rp_filename r = Some n) \<and> rp_limit r = ps_limit (pd_spec d)"
    using assms(1) unfolding file_part_def by (auto simp: res_simps split: if_splits)
  have "parts_ok (pd_boundary d) (pd_spec d) ps (length (ps_fields (pd_spec d)))"
    by (rule parts_ok_skip [OF assms(5)]) (use assms(5) rest in \<open>auto simp: parts_ok_def\<close>)
  then show ?thesis unfolding ready_rel_def using assms raw r
    by (intro conjI exI [of _ ps] exI [of _ fh] exI [of _ h] exI [of _ raw]) (auto split: if_splits)
qed

text \<open>The outcome of a byte: an error, a decoder that has read one more byte, or readiness.\<close>

definition byte_outcome :: "prefix_decoder \<Rightarrow> bytes \<Rightarrow> (prefix_decoder, ready_prefix option) sres \<Rightarrow> bool" where
  "byte_outcome d w out \<longleftrightarrow>
     (case out of
        (d', Inl e) \<Rightarrow> True
      | (d', Inr None) \<Rightarrow> prefix_rel d' w \<and> pd_boundary d' = pd_boundary d \<and> pd_spec d' = pd_spec d
      | (d', Inr (Some r)) \<Rightarrow> ready_rel (pd_boundary d) (pd_spec d) r w)"

lemma scalar_field_next:
  assumes "scalar_field d h = Inr i" and "parse_headers fh = Inr h" and "first_after HEADER_END fh"
    and "parts_ok (pd_boundary d) (pd_spec d) ps (pd_field d)"
  shows "scalar_ok (pd_spec d) fh i \<and> parts_ok (pd_boundary d) (pd_spec d) ps i"
proof -
  let ?fs = "drop (pd_field d) (ps_fields (pd_spec d))"
  obtain j where j: "list_position (\<lambda>f. sp_name f = ph_name h) ?fs = Some j" "i = pd_field d + j"
    "list_all (\<lambda>f. \<not> sp_required f) (take j ?fs)" "ph_filename h = None" "\<not> ph_content_type h"
    using assms(1) unfolding scalar_field_def by (auto simp: res_simps split: if_splits)
  have p: "j < length ?fs" "sp_name (?fs ! j) = ph_name h" using list_position_Some [OF j(1)] by auto
  then have "scalar_ok (pd_spec d) fh i" using j assms(2,3) by (simp add: scalar_ok_def)
  moreover have "parts_ok (pd_boundary d) (pd_spec d) ps i"
    by (rule parts_ok_skip [OF assms(4)]) (use j p in auto)
  ultimately show ?thesis by simp
qed

lemma headers_byte_outcome:
  assumes "pd_phase d = PHeaders" and "pd_total d = length (w @ [c])" and "length (w @ [c]) \<le> PREFIX_BYTES"
    and "w = prefix_text (pd_boundary d) ps @ pd_headers d" and "parts_ok (pd_boundary d) (pd_spec d) ps (pd_field d)"
    and "pd_values d = part_values (pd_spec d) ps" and new: "\<not> sublist HEADER_END (pd_headers d)"
  shows "byte_outcome d (w @ [c]) (headers_byte d c)"
proof -
  let ?d = "d\<lparr>pd_headers := []\<rparr>" and ?text = "pd_headers d @ [c]"
  have first: "first_after HEADER_END block" if "?text = block @ HEADER_END" for block
    using first_after_snoc [OF that new] .
  consider (full) "\<not> length (pd_headers d) < HEADER_BYTES"
    | (open_block) "length (pd_headers d) < HEADER_BYTES" and "strip_suffix HEADER_END ?text = None"
    | (bad) block e where "length (pd_headers d) < HEADER_BYTES" and "strip_suffix HEADER_END ?text = Some block"
        and "parse_headers block = Inl e"
    | (parsed) block h where "length (pd_headers d) < HEADER_BYTES" and "strip_suffix HEADER_END ?text = Some block"
        and "parse_headers block = Inr h"
    by (metis old.sum.exhaust option.exhaust)
  then show ?thesis
  proof cases
    case open_block
    then have "\<not> sublist HEADER_END ?text"
      using new by (auto simp: sublist_snoc_iff suffix_def strip_suffix_Some [symmetric])
    then have "prefix_rel (d\<lparr>pd_headers := ?text\<rparr>) (w @ [c])"
      using assms by (auto simp: prefix_rel_def)
    then show ?thesis using open_block by (simp add: headers_byte_def byte_outcome_def Let_def)
  next
    case (parsed block h)
    have tx: "?text = block @ HEADER_END" using parsed(2) by (simp add: strip_suffix_Some)
    then have w: "w @ [c] = prefix_text (pd_boundary d) ps @ block @ HEADER_END" using assms(4) by simp
    show ?thesis
    proof (cases "ph_name h = ps_file (pd_spec d)")
      case True
      have "ready_rel (pd_boundary d) (pd_spec d) r (w @ [c])" if "file_part ?d h = Inr r" for r
        using file_part_ready [OF that parsed(3) first [OF tx]] True assms w by simp
      then show ?thesis using parsed True
        by (auto simp: headers_byte_def byte_outcome_def Let_def split: sum.splits)
    next
      case False
      obtain t where t: "matcher_new (next_delimiter (pd_boundary d)) = Inr t" "scanning t [] []"
        "mt_delimiter t = next_delimiter (pd_boundary d)"
        using matcher_new_correct [of "next_delimiter (pd_boundary d)"] scanning_new [of "next_delimiter (pd_boundary d)"]
        by (auto simp: next_delimiter_def)
      have "prefix_rel (?d\<lparr>pd_field := i + 1, pd_phase := PScalar i [] t\<rparr>) (w @ [c])"
        if "scalar_field ?d h = Inr i" for i
        using scalar_field_next [OF that parsed(3) first [OF tx]] assms(2,3,5,6) t w
        by (auto simp: prefix_rel_def)
      then show ?thesis using parsed False t(1)
        by (auto simp: headers_byte_def byte_outcome_def Let_def split: sum.splits)
    qed
  qed (simp_all add: headers_byte_def byte_outcome_def Let_def)
qed

lemma scalar_byte_outcome:
  assumes "prefix_rel d w" and "pd_phase d = PScalar i v t" and "length (w @ [c]) \<le> PREFIX_BYTES"
  shows "byte_outcome d (w @ [c]) (scalar_byte (d\<lparr>pd_total := length (w @ [c])\<rparr>) i v t c)"
proof -
  let ?max = "sp_max_bytes (ps_fields (pd_spec d) ! i)" and ?delim = "next_delimiter (pd_boundary d)"
  obtain ps h s where rel: "w = prefix_text (pd_boundary d) ps @ h @ HEADER_END @ s" "scanning t s v"
    "mt_delimiter t = ?delim" "scalar_ok (pd_spec d) h i" "length v \<le> ?max" "parts_ok (pd_boundary d) (pd_spec d) ps i"
    "pd_field d = Suc i" "pd_values d = part_values (pd_spec d) ps" "pd_headers d = []"
    using assms(1,2) by (auto simp: prefix_rel_def)
  from scalar_value.byte_step [OF rel(2,5), of c] show ?thesis
  proof (elim disjE exE conjE)
    fix t' v' ended
    assume *: "matcher_byte t c (scalar_emit ?max) v = (t', v', Inr ended)" "length v' \<le> ?max"
      "mt_delimiter t' = mt_delimiter t"
      "if ended then v' @ mt_delimiter t = s @ [c] else scanning t' (s @ [c]) v'"
    show ?thesis
    proof (cases ended)
      case True
      have first: "first_after ?delim v'"
        using first_after_snoc [of s c v' ?delim] *(4) True rel(2,3) by (simp add: scanning_def)
      have "w @ [c] = prefix_text (pd_boundary d) (ps @ [(h, i, v')])"
        using *(4) True rel(1,3) by (simp add: prefix_text_snoc)
      moreover have "parts_ok (pd_boundary d) (pd_spec d) (ps @ [(h, i, v')]) (Suc i)" if "utf8 v'"
        by (rule parts_ok_add [OF rel(6)]) (use that rel(4) *(2) first in \<open>simp add: part_ok_def\<close>)
      moreover have "\<not> sublist HEADER_END []" by simp
      ultimately show ?thesis using *(1) True rel assms(3)
        by (auto simp: scalar_byte_def byte_outcome_def Let_def prefix_rel_def part_values_snoc
            intro!: exI [of _ "ps @ [(h, i, v')]"])
    next
      case False
      have "\<exists>ps h s'. w @ [c] = prefix_text (pd_boundary d) ps @ h @ HEADER_END @ s' \<and> scanning t' s' v'
          \<and> mt_delimiter t' = ?delim \<and> scalar_ok (pd_spec d) h i \<and> length v' \<le> ?max
          \<and> parts_ok (pd_boundary d) (pd_spec d) ps i \<and> pd_field d = Suc i \<and> pd_values d = part_values (pd_spec d) ps"
        using rel * False by (intro exI [of _ ps] exI [of _ h] exI [of _ "s @ [c]"]) simp
      then show ?thesis using *(1) False assms(3) rel(9)
        by (simp add: scalar_byte_def byte_outcome_def Let_def prefix_rel_def)
    qed
  next
    fix t' v' e out n
    assume "matcher_byte t c (scalar_emit ?max) v = (t', v', Inl e)"
    then show ?thesis by (simp add: scalar_byte_def byte_outcome_def Let_def)
  qed
qed

lemma prefix_byte_outcome:
  assumes "prefix_rel d w"
  shows "byte_outcome d (w @ [c]) (prefix_byte d c)"
proof (cases "length (w @ [c]) \<le> PREFIX_BYTES")
  case False
  then show ?thesis using assms
    by (auto simp: prefix_byte_def byte_outcome_def prefix_rel_def checked_add_u64_def Let_def)
next
  case True
  let ?d = "d\<lparr>pd_total := length (w @ [c])\<rparr>"
  have small: "checked_add_u64 (pd_total d) 1 = Some (length (w @ [c]))"
    using True assms by (simp add: checked_add_u64_def prefix_rel_def PREFIX_BYTES_def U64_MAX_def)
  show ?thesis
  proof (cases "pd_phase d")
    case (PInitial j)
    let ?i = "initial_delimiter (pd_boundary d)"
    have j: "j < length ?i" "w = take j ?i" using assms PInitial by (simp_all add: prefix_rel_def)
    have "\<not> sublist HEADER_END []" by simp
    moreover have "take j ?i @ [?i ! j] = take (Suc j) ?i" using j by (simp add: take_Suc_conv_app_nth)
    ultimately show ?thesis using PInitial assms small True j
      by (auto simp: prefix_byte_def byte_outcome_def prefix_rel_def Let_def prefix_text_def parts_ok_def part_values_def
          intro!: exI [of _ "[]"])
  next
    case PHeaders
    then have "byte_outcome ?d (w @ [c]) (headers_byte ?d c)"
      using assms True by (auto simp: prefix_rel_def intro: headers_byte_outcome)
    moreover have "byte_outcome ?d = byte_outcome d" by (simp add: byte_outcome_def fun_eq_iff)
    ultimately show ?thesis using PHeaders small True by (simp add: prefix_byte_def Let_def)
  next
    case (PScalar i v t)
    then show ?thesis using scalar_byte_outcome [OF assms PScalar True] small True
      by (simp add: prefix_byte_def Let_def)
  qed (use assms in \<open>simp_all add: prefix_rel_def\<close>)
qed

section \<open>Pushes\<close>

lemma prefix_loop_rel:
  assumes "prefix_rel d w" and "prefix_loop d k s = (d', Inr p)"
  shows "case pp_ready p of
      None \<Rightarrow> pp_consumed p = k + length s \<and> prefix_rel d' (w @ s) \<and> pd_boundary d' = pd_boundary d \<and> pd_spec d' = pd_spec d
    | Some r \<Rightarrow> k \<le> pp_consumed p \<and> pp_consumed p - k \<le> length s
        \<and> ready_rel (pd_boundary d) (pd_spec d) r (w @ take (pp_consumed p - k) s)"
  using assms
proof (induction s arbitrary: d w k)
  case (Cons c s)
  note out = prefix_byte_outcome [OF Cons.prems(1), of c]
  obtain d1 r where b: "prefix_byte d c = (d1, Inr r)"
    using Cons.prems(2) by (auto split: prod.splits sum.splits)
  show ?case
  proof (cases r)
    case None
    then have d1: "prefix_rel d1 (w @ [c])" "pd_boundary d1 = pd_boundary d" "pd_spec d1 = pd_spec d"
      using out b by (simp_all add: byte_outcome_def)
    have l: "prefix_loop d1 (k + 1) s = (d', Inr p)" using Cons.prems(2) b None by simp
    show ?thesis using Cons.IH [OF d1(1) l] d1(2,3)
      by (auto simp: Suc_diff_le take_Cons' split: option.splits)
  next
    case (Some x)
    then show ?thesis using out b Cons.prems(2) by (auto simp: byte_outcome_def)
  qed
qed auto

text \<open>The adapter feeds the pieces of the request until the prefix is ready; the count is the number
  of bytes it has used up.\<close>

fun prefix_pushes :: "prefix_decoder \<Rightarrow> bytes list \<Rightarrow> (prefix_decoder, nat \<times> ready_prefix option) sres" where
  "prefix_pushes d [] = (d, Inr (0, None))"
| "prefix_pushes d (s # ss) =
     (case prefix_push d s of
        (d, Inl e) \<Rightarrow> (d, Inl e)
      | (d, Inr p) \<Rightarrow>
         (case pp_ready p of
            Some r \<Rightarrow> (d, Inr (pp_consumed p, Some r))
          | None \<Rightarrow>
             (case prefix_pushes d ss of
                (d, Inl e) \<Rightarrow> (d, Inl e)
              | (d, Inr (n, r)) \<Rightarrow> (d, Inr (pp_consumed p + n, r)))))"

lemma prefix_pushes_ready:
  assumes "prefix_rel d w" and "prefix_pushes d ss = (d', Inr (n, Some r))"
  shows "n \<le> length (concat ss) \<and> ready_rel (pd_boundary d) (pd_spec d) r (w @ take n (concat ss))"
  using assms
proof (induction ss arbitrary: d w n)
  case (Cons s ss)
  obtain d1 p where p: "prefix_push d s = (d1, Inr p)"
    using Cons.prems(2) by (auto split: prod.splits sum.splits)
  have np: "pd_phase d \<noteq> PReady" "pd_phase d \<noteq> PPoisoned" using Cons.prems(1) by (auto simp: prefix_rel_def)
  then have l: "prefix_loop d 0 s = (d1, Inr p)"
    using p by (auto simp: prefix_push_def prefix_push_inner_def split: prod.splits sum.splits if_splits)
  note rel = prefix_loop_rel [OF Cons.prems(1) l]
  show ?case
  proof (cases "pp_ready p")
    case None
    then have d1: "prefix_rel d1 (w @ s)" "pd_boundary d1 = pd_boundary d" "pd_spec d1 = pd_spec d" "pp_consumed p = length s"
      using rel by simp_all
    obtain m where m: "prefix_pushes d1 ss = (d', Inr (m, Some r))" "n = length s + m"
      using Cons.prems(2) p None d1(4) by (auto split: prod.splits sum.splits)
    then show ?thesis using Cons.IH [OF d1(1) m(1)] d1(2,3) by simp
  next
    case (Some x)
    then have "n = pp_consumed p" "x = r" using Cons.prems(2) p by simp_all
    then show ?thesis using rel Some by simp
  qed
qed simp

section \<open>Declared fields\<close>

lemma check_fields_Inr:
  "check_fields seen fs = Inr seen' \<Longrightarrow>
     distinct (map sp_name fs) \<and> set (map sp_name fs) \<inter> seen = {} \<and> seen' = seen \<union> set (map sp_name fs)"
  by (induction fs arbitrary: seen) (auto split: if_splits)

lemma spec_new_Inr:
  assumes "spec_new fs f optional limit = Inr spec"
  shows "ps_fields spec = fs \<and> ps_file spec = f \<and> ps_optional spec = optional \<and> ps_limit spec = limit
    \<and> distinct (map sp_name fs) \<and> f \<notin> set (map sp_name fs) \<and> 3 \<le> length fs
    \<and> (\<forall>i < 3. sp_required (fs ! i)) \<and> sp_name (fs ! 2) = ''_upload''"
proof -
  obtain seen where seen: "check_fields {} fs = Inr seen" and fs: "3 \<le> length fs" "list_all sp_required (take 3 fs)"
    "sp_name (fs ! 2) = ''_upload''" "f \<notin> seen"
    and spec: "spec = \<lparr>ps_fields = fs, ps_file = f, ps_optional = optional, ps_limit = limit\<rparr>"
    using assms unfolding spec_new_def by (auto simp: res_simps split: if_splits)
  have "sp_required (fs ! i)" if "i < 3" for i
    using fs(1,2) that by (auto simp: list_all_length)
  then show ?thesis using check_fields_Inr [OF seen] fs spec by auto
qed

lemma part_values_lookup:
  assumes "distinct (map sp_name (ps_fields spec))"
    and "list_all (part_ok b spec) ps" and "sorted_wrt (<) (map part_index ps)"
  shows "bt_ok (part_values spec ps) \<and> (map_of (part_values spec ps) k = Some v
     \<longleftrightarrow> (\<exists>h i. (h, i, v) \<in> set ps \<and> sp_name (ps_fields spec ! i) = k))"
  using assms(2,3)
proof (induction ps arbitrary: v rule: rev_induct)
  case Nil
  then show ?case by (simp add: part_values_def bt_ok_def)
next
  case (snoc p ps)
  obtain h i u where p: "p = (h, i, u)" by (cases p)
  let ?name = "\<lambda>i. sp_name (ps_fields spec ! i)"
  have ps: "list_all (part_ok b spec) ps" "sorted_wrt (<) (map part_index ps)"
    and below: "\<forall>q \<in> set ps. part_index q < part_index p" and pok: "part_ok b spec p"
    using snoc.prems by (simp_all add: sorted_wrt_append)
  have i: "i < length (ps_fields spec)" using pok p by (simp add: part_ok_def scalar_ok_def)
  have "?name j \<noteq> ?name i" if "(h', j, v') \<in> set ps" for h' j v'
  proof -
    have "j < i" using below that p by (auto simp: part_index_def)
    then show ?thesis using nth_eq_iff_index_eq [OF assms(1), of j i] i by simp
  qed
  then show ?case using snoc.IH [OF ps] p
    by (auto simp: part_values_snoc bt_insert_ok map_of_bt_insert)
qed

section \<open>The whole prefix\<close>

lemma prefix_new_rel: "prefix_rel (prefix_new b spec) []"
  by (simp add: prefix_rel_def prefix_new_def initial_delimiter_def PREFIX_BYTES_def)

lemma ready_values:
  assumes "parts_ok b spec ps (length (ps_fields spec))" and "distinct (map sp_name (ps_fields spec))"
  shows "bt_get (part_values spec ps) k = Some v \<longleftrightarrow> (\<exists>h i. (h, i, v) \<in> set ps \<and> sp_name (ps_fields spec ! i) = k)"
    and "bt_get (part_values spec ps) k = Some v \<Longrightarrow>
       utf8 v \<and> (\<exists>f \<in> set (ps_fields spec). sp_name f = k \<and> length v \<le> sp_max_bytes f)"
    and "i < length (ps_fields spec) \<Longrightarrow> sp_required (ps_fields spec ! i) \<Longrightarrow>
       bt_get (part_values spec ps) (sp_name (ps_fields spec ! i)) \<noteq> None"
proof -
  have look: "bt_get (part_values spec ps) k = Some v \<longleftrightarrow> (\<exists>h i. (h, i, v) \<in> set ps \<and> sp_name (ps_fields spec ! i) = k)" for k v
    using part_values_lookup [OF assms(2), of b ps k v] assms(1) by (simp add: parts_ok_def bt_get_def)
  then show "bt_get (part_values spec ps) k = Some v \<longleftrightarrow> (\<exists>h i. (h, i, v) \<in> set ps \<and> sp_name (ps_fields spec ! i) = k)" .
  show "utf8 v \<and> (\<exists>f \<in> set (ps_fields spec). sp_name f = k \<and> length v \<le> sp_max_bytes f)"
    if v: "bt_get (part_values spec ps) k = Some v"
  proof -
    obtain h i where p: "(h, i, v) \<in> set ps" "sp_name (ps_fields spec ! i) = k" using v look by blast
    then have "part_ok b spec (h, i, v)" using assms(1) by (auto simp: parts_ok_def list_all_iff)
    then show ?thesis using p by (auto simp: part_ok_def scalar_ok_def)
  qed
  show "bt_get (part_values spec ps) (sp_name (ps_fields spec ! i)) \<noteq> None"
    if i: "i < length (ps_fields spec)" "sp_required (ps_fields spec ! i)"
  proof -
    obtain p where "p \<in> set ps" "part_index p = i" using assms(1) i by (auto simp: parts_ok_def)
    then have "(fst p, i, snd (snd p)) \<in> set ps" by (auto simp: part_index_def)
    then show ?thesis using look by blast
  qed
qed

text \<open>C16: an upload prefix that is reported ready is exactly what was sent, and complete.  For a schema
  that was admitted and any cut of the request into pieces, the bytes used up are the initial
  delimiter, scalar parts, and the header block of the declared file part, and not one byte of the file.
  Each scalar part is a header block, ended by its first blank line, that names the declared field it is
  taken for and carries no file name or content type, and a value, ended by the first delimiter after it,
  within the size of that field and valid UTF-8; the parts come in the order of the declaration.  The
  values handed on are exactly the values of these parts, each under the name its own header gave; every
  required field is present, among them the three security fields in front (the third is
  \<open>_upload\<close>); the file name is the normalised one of the file part; and the file may have as many bytes
  as the schema grants, none when no file was chosen, which only an optional one allows.\<close>

theorem prefix_ready_complete:
  assumes "spec_new fs f optional limit = Inr spec"
    and "prefix_pushes (prefix_new b spec) pieces = (d, Inr (n, Some r))"
  shows "n \<le> PREFIX_BYTES \<and> n \<le> length (concat pieces)
    \<and> (\<exists>ps fh h raw. take n (concat pieces) = prefix_text b ps @ fh @ HEADER_END \<and> first_after HEADER_END fh
        \<and> parse_headers fh = Inr h \<and> ph_name h = f \<and> ph_filename h = Some raw
        \<and> (if raw = [] then rp_filename r = None else \<exists>x. normalize raw = Inr x \<and> rp_filename r = Some x)
        \<and> sorted_wrt (<) (map part_index ps)
        \<and> (\<forall>(ht, i, v) \<in> set ps. i < length fs
             \<and> (\<exists>ph. parse_headers ht = Inr ph \<and> ph_name ph = sp_name (fs ! i) \<and> ph_filename ph = None
                  \<and> \<not> ph_content_type ph)
             \<and> first_after HEADER_END ht \<and> first_after (next_delimiter b) v
             \<and> length v \<le> sp_max_bytes (fs ! i) \<and> utf8 v)
        \<and> (\<forall>k v. bt_get (rp_values r) k = Some v
             \<longleftrightarrow> (\<exists>ht i ph. (ht, i, v) \<in> set ps \<and> parse_headers ht = Inr ph \<and> ph_name ph = k)))
    \<and> (\<forall>k v. bt_get (rp_values r) k = Some v \<longrightarrow> utf8 v \<and> (\<exists>p \<in> set fs. sp_name p = k \<and> length v \<le> sp_max_bytes p))
    \<and> (\<forall>p \<in> set fs. sp_required p \<longrightarrow> bt_get (rp_values r) (sp_name p) \<noteq> None)
    \<and> list_all sp_required (take 3 fs) \<and> bt_get (rp_values r) ''_upload'' \<noteq> None
    \<and> rp_limit r = (if rp_filename r = None then 0 else limit) \<and> (rp_filename r = None \<longrightarrow> optional)"
proof -
  note spec = spec_new_Inr [OF assms(1)]
  have n: "n \<le> length (concat pieces)" and ready: "ready_rel b spec r (take n (concat pieces))"
    using prefix_pushes_ready [OF prefix_new_rel assms(2)] by (simp_all add: prefix_new_def)
  obtain ps fh h raw where w: "take n (concat pieces) = prefix_text b ps @ fh @ HEADER_END"
    and ok: "parts_ok b spec ps (length (ps_fields spec))" and h: "parse_headers fh = Inr h" "ph_name h = ps_file spec" "ph_filename h = Some raw"
    and first: "first_after HEADER_END fh" and vals: "rp_values r = part_values spec ps"
    and fl: "if raw = [] then ps_optional spec \<and> rp_filename r = None \<and> rp_limit r = 0
           else (\<exists>n. normalize raw = Inr n \<and> rp_filename r = Some n) \<and> rp_limit r = ps_limit spec"
    and len: "length (take n (concat pieces)) \<le> PREFIX_BYTES"
    using ready unfolding ready_rel_def by (elim conjE exE) (rule that; assumption)
  have dist: "distinct (map sp_name (ps_fields spec))" using spec by simp
  note vs = ready_values [OF ok dist, folded vals]
  have fs: "ps_fields spec = fs" "ps_file spec = f" using spec by simp_all
  have parts: "\<forall>(ht, i, v) \<in> set ps. i < length fs
      \<and> (\<exists>ph. parse_headers ht = Inr ph \<and> ph_name ph = sp_name (fs ! i) \<and> ph_filename ph = None \<and> \<not> ph_content_type ph)
      \<and> first_after HEADER_END ht \<and> first_after (next_delimiter b) v \<and> length v \<le> sp_max_bytes (fs ! i) \<and> utf8 v"
    using ok unfolding fs [symmetric] by (fastforce simp: parts_ok_def list_all_iff part_ok_def scalar_ok_def)
  have named: "bt_get (rp_values r) k = Some v
      \<longleftrightarrow> (\<exists>ht i ph. (ht, i, v) \<in> set ps \<and> parse_headers ht = Inr ph \<and> ph_name ph = k)" for k v
    unfolding vs(1) fs using parts by fastforce
  have order: "sorted_wrt (<) (map part_index ps)" using ok by (simp add: parts_ok_def)
  have chosen: "if raw = [] then rp_filename r = None else \<exists>x. normalize raw = Inr x \<and> rp_filename r = Some x"
    using fl by (simp split: if_splits)
  have req: "bt_get (rp_values r) (sp_name p) \<noteq> None" if "p \<in> set fs" "sp_required p" for p
    using that vs(3) spec by (metis in_set_conv_nth)
  have three: "list_all sp_required (take 3 fs)" using spec by (auto simp: list_all_length)
  have up: "bt_get (rp_values r) ''_upload'' \<noteq> None"
    using req [of "fs ! 2"] spec by simp
  have "n \<le> PREFIX_BYTES" using len n by simp
  moreover have "\<exists>ps fh h raw. take n (concat pieces) = prefix_text b ps @ fh @ HEADER_END \<and> first_after HEADER_END fh
        \<and> parse_headers fh = Inr h \<and> ph_name h = f \<and> ph_filename h = Some raw
        \<and> (if raw = [] then rp_filename r = None else \<exists>x. normalize raw = Inr x \<and> rp_filename r = Some x)
        \<and> sorted_wrt (<) (map part_index ps)
        \<and> (\<forall>(ht, i, v) \<in> set ps. i < length fs
             \<and> (\<exists>ph. parse_headers ht = Inr ph \<and> ph_name ph = sp_name (fs ! i) \<and> ph_filename ph = None
                  \<and> \<not> ph_content_type ph)
             \<and> first_after HEADER_END ht \<and> first_after (next_delimiter b) v
             \<and> length v \<le> sp_max_bytes (fs ! i) \<and> utf8 v)
        \<and> (\<forall>k v. bt_get (rp_values r) k = Some v
             \<longleftrightarrow> (\<exists>ht i ph. (ht, i, v) \<in> set ps \<and> parse_headers ht = Inr ph \<and> ph_name ph = k))"
    using w first h(1) h(2) [unfolded fs] h(3) chosen order parts named
    by (intro exI [of _ ps] exI [of _ fh] exI [of _ h] exI [of _ raw] conjI allI) assumption+
  moreover have "rp_limit r = (if rp_filename r = None then 0 else limit) \<and> (rp_filename r = None \<longrightarrow> optional)"
    using fl spec by (auto split: if_splits)
  ultimately show ?thesis using n vs(2) req three up spec by blast
qed

definition sample_fields :: "scalar_part list" where
  "sample_fields = [\<lparr>sp_name = ''a'', sp_max_bytes = 9, sp_required = True\<rparr>,
     \<lparr>sp_name = ''b'', sp_max_bytes = 9, sp_required = True\<rparr>,
     \<lparr>sp_name = ''_upload'', sp_max_bytes = 9, sp_required = True\<rparr>]"

definition sample_spec :: prefix_spec where
  "sample_spec = \<lparr>ps_fields = sample_fields, ps_file = ''f'', ps_optional = False, ps_limit = 100\<rparr>"

definition sample_header :: "string \<Rightarrow> bytes" where
  "sample_header name = ''Content-Disposition: form-data; name='' @ [CHR 0x22] @ name @ [CHR 0x22]"

definition sample_part :: "string \<Rightarrow> bytes \<Rightarrow> bytes" where
  "sample_part name v = sample_header name @ HEADER_END @ v @ next_delimiter ''x''"

definition sample_pieces :: "bytes list" where
  "sample_pieces =
     [initial_delimiter ''x'' @ sample_part ''a'' ''1'' @ take 50 (sample_part ''b'' ''2''),
      drop 50 (sample_part ''b'' ''2'') @ sample_part ''_upload'' ''3'' @ sample_header ''f'' @ ''; filename=''
        @ [CHR 0x22] @ ''t'' @ [CHR 0x22] @ HEADER_END @ ''data'']"

definition sample_ready :: ready_prefix where
  "sample_ready = \<lparr>rp_values = [(''_upload'', ''3''), (''a'', ''1''), (''b'', ''2'')], rp_filename = Some ''t'',
     rp_boundary = ''x'', rp_limit = 100\<rparr>"

lemma sample_run:
  "prefix_pushes (prefix_new ''x'' sample_spec) sample_pieces
     = (\<lparr>pd_boundary = ''x'', pd_spec = sample_spec, pd_phase = PReady, pd_headers = [], pd_values = [], pd_field = 3,
         pd_total = 225\<rparr>, Inr (225, Some sample_ready))"
  by code_simp

theorem prefix_ready_complete_witness:
  "spec_new sample_fields ''f'' False 100 = Inr sample_spec
   \<and> (\<exists>d. prefix_pushes (prefix_new ''x'' sample_spec) sample_pieces = (d, Inr (225, Some sample_ready)))
   \<and> 225 \<le> PREFIX_BYTES \<and> bt_get (rp_values sample_ready) ''_upload'' \<noteq> None"
proof -
  have spec: "spec_new sample_fields ''f'' False 100 = Inr sample_spec" by code_simp
  show ?thesis using prefix_ready_complete [OF spec sample_run] spec sample_run by blast
qed

end
