(* ===== verification/Routing.thy ===== *)
theory Routing
  imports Contract
begin

text \<open>
  \<^verbatim>\<open>crates/noxide-admission/src/routing.rs\<close>: the finite route grammar, with the path checks of
  \<open>validate_routes\<close> (\<^verbatim>\<open>manifest.rs\<close>) and the look-up of the request router
  (\<^verbatim>\<open>crates/noxide-http/src/lib.rs\<close>).  A manifest is here its list of routes.
\<close>

section \<open>Definitions\<close>

datatype access = Authenticated | AccessPublic | PublicOptional

record route =
  rt_params :: "string list"
  rt_route_id :: nat
  rt_path :: string
  rt_route_resource :: "nat option"
  rt_operations :: "nat list"
  rt_forms :: "nat list"
  rt_access :: access

record route_ref =
  rr_params :: "(string \<times> string) list"
  rr_route :: nat
  rr_target :: "nat option"

datatype path_segment = Static string | Target

definition canonical_id :: "string \<Rightarrow> nat option" where
  "canonical_id v =
     (if v = [] \<or> take 1 v = ''0'' \<or> \<not> list_all is_ascii_digit v then None
      else case parse_u64 v of
        None \<Rightarrow> None
      | Some n \<Rightarrow> if int n \<le> I64_MAX then Some n else None)"

definition target_name :: "string \<Rightarrow> string option" where
  "target_name part =
     (case strip_prefix_list ''{'' part of None \<Rightarrow> None | Some name \<Rightarrow> strip_suffix ''}'' name)"

fun segment_list :: "string list \<Rightarrow> (path_segment list \<times> nat) res" where
  "segment_list [] = Inr ([], 0)"
| "segment_list (part # parts) =
     (case target_name part of
        Some name \<Rightarrow>
          ensure (is_identifier name) ''invalid route parameter''
            (and_then (segment_list parts) (\<lambda>(ss, n). Inr (Target # ss, n + 1)))
      | None \<Rightarrow>
          ensure (is_identifier part) ''invalid route segment''
            (and_then (segment_list parts) (\<lambda>(ss, n). Inr (Static part # ss, n))))"

definition path_parts :: "string \<Rightarrow> string list" where
  "path_parts path = (if path = ''/'' then [] else split_on CHR ''/'' (drop 1 path))"

definition path_segments :: "route \<Rightarrow> path_segment list res" where
  "path_segments r =
     ensure (take 1 (rt_path r) = ''/'' \<and> length (rt_path r) \<le> 128) ''invalid route path''
     (and_then (segment_list (path_parts (rt_path r))) (\<lambda>(segments, targets).
      ensure (targets = of_bool (rt_route_resource r \<noteq> None)) ''route parameter mismatch''
      (ensure (length segments \<le> 8) ''route segment limit'' (Inr segments))))"

definition validate_path :: "route \<Rightarrow> unit res" where
  "validate_path r = and_then (path_segments r) (\<lambda>_. Inr ())"

fun segments_agree :: "path_segment \<times> path_segment \<Rightarrow> bool" where
  "segments_agree (Static a, Static b) = (a = b)"
| "segments_agree (Target, Target) = True"
| "segments_agree (Static v, Target) = (canonical_id v \<noteq> None)"
| "segments_agree (Target, Static v) = (canonical_id v \<noteq> None)"

definition paths_overlap :: "route \<Rightarrow> route \<Rightarrow> bool" where
  "paths_overlap l r =
     (case (path_segments l, path_segments r) of
        (Inr l, Inr r) \<Rightarrow> length l = length r \<and> list_all segments_agree (zip l r)
      | _ \<Rightarrow> True)"

fun match_segments :: "nat option \<Rightarrow> (path_segment \<times> string) list \<Rightarrow> nat option option" where
  "match_segments target [] = Some target"
| "match_segments target ((Static expected, part) # rest) =
     (if expected = part then match_segments target rest else None)"
| "match_segments target ((Target, part) # rest) =
     (case canonical_id part of None \<Rightarrow> None | Some n \<Rightarrow> match_segments (Some n) rest)"

definition match_path :: "route \<Rightarrow> string \<Rightarrow> nat option option" where
  "match_path r path =
     (case path_segments r of
        Inl _ \<Rightarrow> None
      | Inr segments \<Rightarrow>
          if take 1 path \<noteq> ''/'' then None
          else let parts = path_parts path in
            if length segments \<noteq> length parts then None else match_segments None (zip segments parts))"

definition find_route :: "route list \<Rightarrow> nat \<Rightarrow> route res" where
  "find_route routes n = ok_or (find (\<lambda>r. rt_route_id r = n) routes) ''unknown route''"

fun render_segments :: "nat option \<Rightarrow> path_segment list \<Rightarrow> string res" where
  "render_segments target [] = Inr []"
| "render_segments target (Static v # rest) =
     and_then (render_segments target rest) (\<lambda>s. Inr (''/'' @ v @ s))"
| "render_segments target (Target # rest) =
     and_then (ok_or target ''missing route target'') (\<lambda>n.
     and_then (render_segments target rest) (\<lambda>s. Inr (''/'' @ show_nat n @ s)))"

definition resolve_path :: "route list \<Rightarrow> route_ref \<Rightarrow> string res" where
  "resolve_path routes ref =
     and_then (find_route routes (rr_route ref)) (\<lambda>route.
     and_then (path_segments route) (\<lambda>segments.
     ensure ((rt_route_resource route \<noteq> None) = (rr_target ref \<noteq> None)) ''invalid route target''
     (ensure (case rr_target ref of None \<Rightarrow> True | Some n \<Rightarrow> 0 < n \<and> int n \<le> I64_MAX) ''invalid route target''
      (and_then (render_segments (rr_target ref) segments) (\<lambda>path.
       Inr (if path = [] then ''/'' else path))))))"

text \<open>The path checks \<open>validate_routes\<close> makes of every route: admitted grammar, no path declared
  twice, no other route with an overlapping pattern.\<close>

fun check_route_paths :: "route list \<Rightarrow> string set \<Rightarrow> route list \<Rightarrow> unit res" where
  "check_route_paths routes paths [] = Inr ()"
| "check_route_paths routes paths (r # rs) =
     and_then (validate_path r) (\<lambda>_.
     ensure (rt_path r \<notin> paths) ''duplicate route path''
     (ensure (list_all (\<lambda>other. rt_route_id other \<noteq> rt_route_id r \<longrightarrow> \<not> paths_overlap r other) routes)
        ''ambiguous route patterns''
      (check_route_paths routes (insert (rt_path r) paths) rs)))"

definition dispatch_route :: "route list \<Rightarrow> string \<Rightarrow> route option" where
  "dispatch_route routes path = find (\<lambda>r. match_path r path \<noteq> None) routes"

section \<open>Record identifiers in paths\<close>

lemma canonical_id_show: "0 < n \<Longrightarrow> int n \<le> I64_MAX \<Longrightarrow> canonical_id (show_nat n) = Some n"
proof -
  assume n: "0 < n" "int n \<le> I64_MAX"
  then have "n \<le> U64_MAX" by (simp add: I64_MAX_def U64_MAX_def)
  moreover have "take 1 (show_nat n) \<noteq> ''0''"
    using show_nat_hd_nonzero [of n] n by (cases "show_nat n") auto
  ultimately show ?thesis using n show_nat_digits [of n] by (simp add: canonical_id_def)
qed

lemma canonical_id_Some:
  assumes "canonical_id v = Some n"
  shows "v = show_nat n \<and> 0 < n \<and> int n \<le> I64_MAX"
proof -
  have v: "v \<noteq> []" "hd v \<noteq> CHR ''0''" "list_all is_ascii_digit v" "parse_u64 v = Some n" "int n \<le> I64_MAX"
    using assms by (cases v; auto simp: canonical_id_def split: if_splits option.splits)+
  then have "parse_digits v = Some n"
    by (cases v) (auto simp: parse_u64_def is_ascii_digit_def split: option.splits if_splits)
  then show ?thesis using parse_digits_show [of v n] v by simp
qed

lemma identifier_not_id: "is_identifier v \<Longrightarrow> canonical_id v = None"
  by (cases v) (auto simp: is_identifier_def canonical_id_def is_ascii_lowercase_def is_ascii_digit_def)

section \<open>Segments\<close>

definition segment_ok :: "path_segment \<Rightarrow> bool" where
  "segment_ok s = (case s of Static v \<Rightarrow> is_identifier v | Target \<Rightarrow> True)"

lemma segment_list_Inr:
  "segment_list parts = Inr (ss, n) \<Longrightarrow> list_all segment_ok ss \<and> n = length (filter (\<lambda>s. s = Target) ss)"
  by (induction parts arbitrary: ss n) (auto simp: segment_ok_def res_simps split: option.splits if_splits)

lemma path_segments_Inr:
  assumes "path_segments r = Inr ss"
  shows "list_all segment_ok ss \<and> (rt_route_resource r = None \<longleftrightarrow> Target \<notin> set ss)
     \<and> length (filter (\<lambda>s. s = Target) ss) \<le> 1"
proof -
  obtain n where "segment_list (path_parts (rt_path r)) = Inr (ss, n)" "n = of_bool (rt_route_resource r \<noteq> None)"
    using assms by (auto simp: path_segments_def res_simps split: if_splits)
  then have "list_all segment_ok ss" "length (filter (\<lambda>s. s = Target) ss) = of_bool (rt_route_resource r \<noteq> None)"
    using segment_list_Inr by auto
  moreover have "length (filter (\<lambda>s. s = Target) ss) = 0 \<longleftrightarrow> Target \<notin> set ss"
    by (simp add: filter_empty_conv) metis
  ultimately show ?thesis by (simp split: if_splits)
qed

text \<open>A segment accepts a part of a path.\<close>

definition accepts :: "path_segment \<Rightarrow> string \<Rightarrow> bool" where
  "accepts s p = (case s of Static v \<Rightarrow> v = p | Target \<Rightarrow> canonical_id p \<noteq> None)"

lemma match_segments_Some: "(match_segments t xs \<noteq> None) = list_all (\<lambda>(s, p). accepts s p) xs"
  by (induction t xs rule: match_segments.induct) (auto simp: accepts_def split: option.splits)

lemma match_path_iff:
  "(match_path r path \<noteq> None) \<longleftrightarrow>
     (\<exists>ss. path_segments r = Inr ss \<and> take 1 path = ''/'' \<and> list_all2 accepts ss (path_parts path))"
  by (cases "path_segments r") (simp_all add: match_path_def Let_def list_all2_iff list_all_iff match_segments_Some
      del: not_None_eq)

text \<open>Text of parts and back.\<close>

definition parts_path :: "string list \<Rightarrow> string" where
  "parts_path ps = (if ps = [] then ''/'' else concat (map (\<lambda>p. CHR ''/'' # p) ps))"

lemma concat_join: "ps \<noteq> [] \<Longrightarrow> concat (map (\<lambda>p. c # p) ps) = c # join_with c ps"
  by (induction c ps rule: join_with.induct) auto

lemma path_parts_path:
  assumes "\<forall>p \<in> set ps. p \<noteq> [] \<and> CHR ''/'' \<notin> set p"
  shows "path_parts (parts_path ps) = ps \<and> take 1 (parts_path ps) = ''/''"
proof (cases ps)
  case (Cons p qs)
  have t: "parts_path ps = CHR ''/'' # join_with CHR ''/'' ps"
    using Cons concat_join [of ps "CHR ''/''"] by (simp add: parts_path_def)
  moreover have "join_with CHR ''/'' ps \<noteq> []" using Cons assms by (cases qs) auto
  moreover have "split_on CHR ''/'' (join_with CHR ''/'' ps) = ps"
    by (rule split_on_join_with) (use Cons assms in auto)
  ultimately show ?thesis by (simp add: path_parts_def)
qed (simp add: parts_path_def path_parts_def)

lemma identifier_part: "is_identifier v \<Longrightarrow> v \<noteq> [] \<and> CHR ''/'' \<notin> set v"
  by (auto simp: is_identifier_def list_all_iff is_ascii_lowercase_def is_ascii_digit_def dest!: bspec)

lemma show_nat_part: "show_nat n \<noteq> [] \<and> CHR ''/'' \<notin> set (show_nat n)"
  using show_nat_digits [of n] by (auto simp: list_all_iff is_ascii_digit_def dest!: bspec)

section \<open>Overlap\<close>

definition common_part :: "path_segment \<Rightarrow> path_segment \<Rightarrow> string" where
  "common_part a b = (case a of Static v \<Rightarrow> v | Target \<Rightarrow> (case b of Static v \<Rightarrow> v | Target \<Rightarrow> show_nat 1))"

lemma common_part_accepted:
  assumes "segments_agree (a, b)" and "segment_ok a" and "segment_ok b"
  shows "accepts a (common_part a b) \<and> accepts b (common_part a b)
     \<and> common_part a b \<noteq> [] \<and> CHR ''/'' \<notin> set (common_part a b)"
  using assms canonical_id_show [of 1] identifier_not_id identifier_part show_nat_part [of 1]
  by (cases a; cases b) (auto simp: accepts_def common_part_def segment_ok_def I64_MAX_def)

lemma accepts_agree: "accepts a p \<Longrightarrow> accepts b p \<Longrightarrow> segments_agree (a, b)"
  by (cases a; cases b) (auto simp: accepts_def)

lemma paths_overlap_iff:
  assumes "validate_path l = Inr ()" and "validate_path r = Inr ()"
  shows "paths_overlap l r \<longleftrightarrow> (\<exists>path. match_path l path \<noteq> None \<and> match_path r path \<noteq> None)"
proof -
  obtain ls rs where s: "path_segments l = Inr ls" "path_segments r = Inr rs"
    using assms by (auto simp: validate_path_def res_simps)
  have ok: "list_all segment_ok ls" "list_all segment_ok rs" using path_segments_Inr s by blast+
  have "paths_overlap l r \<longleftrightarrow> list_all2 (\<lambda>a b. segments_agree (a, b)) ls rs"
    using s by (auto simp: paths_overlap_def list_all2_iff list_all_iff)
  also have "\<dots> \<longleftrightarrow> (\<exists>path. take 1 path = ''/'' \<and> list_all2 accepts ls (path_parts path) \<and> list_all2 accepts rs (path_parts path))"
  proof
    assume agree: "list_all2 (\<lambda>a b. segments_agree (a, b)) ls rs"
    let ?ps = "map2 common_part ls rs"
    have n: "length ls = length rs" using agree by (rule list_all2_lengthD)
    have each: "accepts (ls ! i) (?ps ! i) \<and> accepts (rs ! i) (?ps ! i) \<and> ?ps ! i \<noteq> [] \<and> CHR ''/'' \<notin> set (?ps ! i)"
      if "i < length ls" for i
      using common_part_accepted [of "ls ! i" "rs ! i"] agree ok that n
      by (simp add: list_all2_conv_all_nth list_all_length)
    then have "\<forall>p \<in> set ?ps. p \<noteq> [] \<and> CHR ''/'' \<notin> set p"
      unfolding all_set_conv_all_nth using n by simp
    then have parts: "path_parts (parts_path ?ps) = ?ps" "take 1 (parts_path ?ps) = ''/''"
      using path_parts_path [of ?ps] by simp_all
    show "\<exists>path. take 1 path = ''/'' \<and> list_all2 accepts ls (path_parts path) \<and> list_all2 accepts rs (path_parts path)"
      by (intro exI [of _ "parts_path ?ps"]) (use parts each n in \<open>simp add: list_all2_conv_all_nth\<close>)
  next
    assume "\<exists>path. take 1 path = ''/'' \<and> list_all2 accepts ls (path_parts path) \<and> list_all2 accepts rs (path_parts path)"
    then show "list_all2 (\<lambda>a b. segments_agree (a, b)) ls rs"
      by (auto simp: list_all2_conv_all_nth intro: accepts_agree)
  qed
  finally show ?thesis using s unfolding match_path_iff by auto
qed

text \<open>C27: the overlap test of admission is exact.  For two routes whose paths are admitted, it reports
  an overlap precisely when some request path matches both patterns.\<close>

theorem paths_overlap_exact:
  assumes "validate_path l = Inr ()" and "validate_path r = Inr ()"
  shows "paths_overlap l r \<longleftrightarrow> (\<exists>path. match_path l path \<noteq> None \<and> match_path r path \<noteq> None)"
  using assms by (rule paths_overlap_iff)

theorem paths_overlap_exact_witness:
  "let a = \<lparr>rt_params = [], rt_route_id = 1, rt_path = ''/notes/{id}'', rt_route_resource = Some 1, rt_operations = [],
        rt_forms = [], rt_access = Authenticated\<rparr>;
       b = \<lparr>rt_params = [], rt_route_id = 2, rt_path = ''/notes/new'', rt_route_resource = None, rt_operations = [],
        rt_forms = [], rt_access = Authenticated\<rparr>
   in validate_path a = Inr () \<and> validate_path b = Inr () \<and> \<not> paths_overlap a b
      \<and> \<not> (\<exists>path. match_path a path \<noteq> None \<and> match_path b path \<noteq> None)"
proof -
  let ?a = "\<lparr>rt_params = [], rt_route_id = 1, rt_path = ''/notes/{id}'', rt_route_resource = Some 1, rt_operations = [],
        rt_forms = [], rt_access = Authenticated\<rparr>"
  let ?b = "\<lparr>rt_params = [], rt_route_id = 2, rt_path = ''/notes/new'', rt_route_resource = None, rt_operations = [],
        rt_forms = [], rt_access = Authenticated\<rparr>"
  have v: "validate_path ?a = Inr ()" "validate_path ?b = Inr ()" and o: "\<not> paths_overlap ?a ?b"
    by (simp_all add: validate_path_def path_segments_def path_parts_def target_name_def strip_prefix_list_def
        strip_suffix_def is_identifier_def ascii_defs paths_overlap_def canonical_id_def)
  show ?thesis using paths_overlap_exact [OF v] v o by (simp del: not_None_eq)
qed

section \<open>Dispatch\<close>

lemma check_route_paths_Inr:
  assumes "check_route_paths routes paths rs = Inr ()" and "r \<in> set rs"
  shows "validate_path r = Inr () \<and> (\<forall>other \<in> set routes. rt_route_id other \<noteq> rt_route_id r \<longrightarrow> \<not> paths_overlap r other)"
  using assms
  by (induction rs arbitrary: paths) (auto simp: res_simps list_all_iff split: if_splits)

lemma render_segments_Inr:
  assumes "render_segments target ss = Inr path"
  shows "path = concat (map (\<lambda>s. CHR ''/'' # (case s of Static v \<Rightarrow> v | Target \<Rightarrow> show_nat (the target))) ss)
     \<and> (Target \<in> set ss \<longrightarrow> target \<noteq> None)"
  using assms
  by (induction target ss arbitrary: path rule: render_segments.induct) (auto simp: res_simps)

lemma match_segments_target:
  assumes "canonical_id (show_nat n) = Some n"
  shows "match_segments t (zip ss (map (\<lambda>s. case s of Static v \<Rightarrow> v | Target \<Rightarrow> show_nat n) ss))
     = Some (if Target \<in> set ss then Some n else t)"
  using assms by (induction ss arbitrary: t) (auto split: path_segment.splits)

lemma resolve_path_matches:
  assumes "find_route routes (rr_route ref) = Inr r" and "resolve_path routes ref = Inr path"
  shows "match_path r path = Some (rr_target ref)"
proof -
  obtain ss body where ss: "path_segments r = Inr ss" and tgt: "(rt_route_resource r \<noteq> None) = (rr_target ref \<noteq> None)"
      "case rr_target ref of None \<Rightarrow> True | Some n \<Rightarrow> 0 < n \<and> int n \<le> I64_MAX"
    and render: "render_segments (rr_target ref) ss = Inr body" and path: "path = (if body = [] then ''/'' else body)"
    using assms unfolding resolve_path_def by (auto simp: res_simps split: if_splits)
  let ?part = "\<lambda>s. case s of Static v \<Rightarrow> v | Target \<Rightarrow> show_nat (the (rr_target ref))"
  have seg: "list_all segment_ok ss" "rt_route_resource r = None \<longleftrightarrow> Target \<notin> set ss"
    using path_segments_Inr [OF ss] by auto
  have "body = concat (map (\<lambda>p. CHR ''/'' # p) (map ?part ss))"
    using render_segments_Inr [OF render] by (simp add: comp_def)
  then have "path = parts_path (map ?part ss)"
    using path by (simp add: parts_path_def)
  moreover have "\<forall>p \<in> set (map ?part ss). p \<noteq> [] \<and> CHR ''/'' \<notin> set p"
    using seg(1) identifier_part show_nat_part
    by (auto simp: list_all_iff segment_ok_def split: path_segment.splits)
  ultimately have parts: "path_parts path = map ?part ss" "take 1 path = ''/''"
    using path_parts_path by simp_all
  show ?thesis
  proof (cases "rr_target ref")
    case None
    then have "Target \<notin> set ss" using tgt seg(2) by simp
    then have "match_segments None (zip ss (map ?part ss)) = Some None"
      by (induction ss) (auto split: path_segment.splits)
    then show ?thesis using ss parts by (simp add: match_path_def None [symmetric])
  next
    case (Some n)
    then have n: "the (rr_target ref) = n" "canonical_id (show_nat n) = Some n" "Target \<in> set ss"
      using canonical_id_show [of n] tgt seg(2) by auto
    have "match_segments None (zip ss (map ?part ss)) = Some (Some n)"
      unfolding n(1) using match_segments_target [OF n(2), of None ss] n(3) by simp
    then show ?thesis using ss parts by (simp add: match_path_def Some [symmetric])
  qed
qed

text \<open>C28: links and requests agree.  For routes that pass the path checks of admission (with the distinct
  identities admission demands), whatever path is rendered for a reference is dispatched to exactly the
  referenced route, with the referenced record; and no request path is ever matched by two routes, so
  the first match the router takes is the only one.\<close>

theorem dispatch_inverts_resolve:
  assumes "check_route_paths routes {} routes = Inr ()" and "distinct (map rt_route_id routes)"
  shows "(\<forall>ref path. resolve_path routes ref = Inr path \<longrightarrow>
        (\<exists>r. dispatch_route routes path = Some r \<and> rt_route_id r = rr_route ref \<and> match_path r path = Some (rr_target ref)))
    \<and> (\<forall>path. \<forall>r \<in> set routes. match_path r path \<noteq> None \<longrightarrow> dispatch_route routes path = Some r)"
proof -
  have only: "dispatch_route routes path = Some r" if r: "r \<in> set routes" "match_path r path \<noteq> None" for r path
  proof -
    obtain q where q: "dispatch_route routes path = Some q"
      using r by (cases "dispatch_route routes path") (auto simp: dispatch_route_def find_None_iff)
    then have q': "q \<in> set routes" "match_path q path \<noteq> None"
      by (auto simp: dispatch_route_def find_Some_iff)
    have "rt_route_id q = rt_route_id r"
      using check_route_paths_Inr [OF assms(1)] paths_overlap_iff [of r q] r q' by blast
    then have "q = r" using assms(2) r(1) q'(1) by (simp add: distinct_map inj_on_def)
    then show ?thesis using q by simp
  qed
  moreover have "\<exists>r. dispatch_route routes path = Some r \<and> rt_route_id r = rr_route ref \<and> match_path r path = Some (rr_target ref)"
    if p: "resolve_path routes ref = Inr path" for ref path
  proof -
    obtain r where r: "find_route routes (rr_route ref) = Inr r" using p by (auto simp: resolve_path_def res_simps)
    then have "r \<in> set routes" "rt_route_id r = rr_route ref"
      by (auto simp: find_route_def res_simps find_Some_iff)
    then show ?thesis using resolve_path_matches [OF r p] only by auto
  qed
  ultimately show ?thesis by blast
qed

theorem dispatch_inverts_resolve_witness:
  "let routes = [\<lparr>rt_params = [], rt_route_id = 1, rt_path = ''/'', rt_route_resource = None, rt_operations = [],
        rt_forms = [], rt_access = Authenticated\<rparr>,
      \<lparr>rt_params = [], rt_route_id = 2, rt_path = ''/notes/{id}'', rt_route_resource = Some 1, rt_operations = [],
        rt_forms = [], rt_access = Authenticated\<rparr>]
   in check_route_paths routes {} routes = Inr () \<and> distinct (map rt_route_id routes)
      \<and> (\<exists>r. dispatch_route routes ''/notes/7'' = Some r \<and> rt_route_id r = 2 \<and> match_path r ''/notes/7'' = Some (Some 7))"
proof -
  let ?routes = "[\<lparr>rt_params = [], rt_route_id = 1, rt_path = ''/'', rt_route_resource = None, rt_operations = [],
        rt_forms = [], rt_access = Authenticated\<rparr>,
      \<lparr>rt_params = [], rt_route_id = 2, rt_path = ''/notes/{id}'', rt_route_resource = Some 1, rt_operations = [],
        rt_forms = [], rt_access = Authenticated\<rparr>]"
  let ?ref = "\<lparr>rr_params = [], rr_route = 2, rr_target = Some 7\<rparr>"
  have seven: "show_nat 7 = ''7''" by code_simp
  have c: "check_route_paths ?routes {} ?routes = Inr ()" and d: "distinct (map rt_route_id ?routes)"
    and p: "resolve_path ?routes ?ref = Inr ''/notes/7''"
    by (simp_all add: validate_path_def path_segments_def path_parts_def target_name_def strip_prefix_list_def
        strip_suffix_def is_identifier_def ascii_defs paths_overlap_def canonical_id_def resolve_path_def find_route_def
        seven I64_MAX_def)
  have "\<exists>r. dispatch_route ?routes ''/notes/7'' = Some r \<and> rt_route_id r = rr_route ?ref
      \<and> match_path r ''/notes/7'' = Some (rr_target ?ref)"
    using conjunct1 [OF dispatch_inverts_resolve [OF c d]] p by blast
  then show ?thesis using c d by simp
qed

end
