(* ===== verification/Guest_Wire.thy ===== *)
theory Guest_Wire
  imports Prelude "HOL-Library.Word"
begin

text \<open>
  \<^verbatim>\<open>crates/noxide-guest/src/wire.rs\<close> and the start-up message of
  \<^verbatim>\<open>crates/noxide-guest/src/pool.rs\<close>: the messages between the server and a guest worker, as
  little-endian bytes in length-prefixed frames.  A socket is the bytes still to be read; reading past
  its end is the error \<open>unexpected end of file\<close>.
\<close>

section \<open>Fixed-width integers\<close>

definition le_bytes :: "nat \<Rightarrow> nat \<Rightarrow> bytes" where
  "le_bytes width n = map (\<lambda>i. char_of (n div 256 ^ i mod 256)) [0..<width]"

fun le_value :: "bytes \<Rightarrow> nat" where
  "le_value [] = 0"
| "le_value (c # cs) = of_char c + 256 * le_value cs"

definition u32_bytes :: "32 word \<Rightarrow> bytes" where "u32_bytes w = le_bytes 4 (unat w)"
definition u64_bytes :: "64 word \<Rightarrow> bytes" where "u64_bytes w = le_bytes 8 (unat w)"

text \<open>\<open>Fields\<close>: the rest of a message; each read takes the next bytes off it.\<close>

definition take_bytes :: "nat \<Rightarrow> bytes \<Rightarrow> (bytes \<times> bytes) res" where
  "take_bytes n s = ensure (n \<le> length s) ''truncated worker message'' (Inr (take n s, drop n s))"

definition take_u32 :: "bytes \<Rightarrow> (32 word \<times> bytes) res" where
  "take_u32 s = and_then (take_bytes 4 s) (\<lambda>(b, s). Inr (word_of_nat (le_value b), s))"

definition take_u64 :: "bytes \<Rightarrow> (64 word \<times> bytes) res" where
  "take_u64 s = and_then (take_bytes 8 s) (\<lambda>(b, s). Inr (word_of_nat (le_value b), s))"

definition fields_end :: "bytes \<Rightarrow> unit res" where
  "fields_end s = ensure (s = []) ''trailing worker message bytes'' (Inr ())"

section \<open>Messages\<close>

definition MAX_IR_BYTES :: nat where "MAX_IR_BYTES = 65536"
definition MAX_REQUEST_BYTES :: nat where "MAX_REQUEST_BYTES = 65536"
definition MAX_RESULT_BYTES :: nat where "MAX_RESULT_BYTES = 65536"
definition MAX_BODY :: nat where "MAX_BODY = max (max MAX_IR_BYTES MAX_REQUEST_BYTES) MAX_RESULT_BYTES"
definition MAX_FRAME :: nat where "MAX_FRAME = MAX_BODY + 32"

datatype to_worker =
    Run "64 word" "32 word" "64 word" bytes
  | Reply "bytes option"

datatype outcome = Output bytes | Deadline | GuestFailed

datatype from_worker =
    Invoke "32 word" "64 word"
  | FollowSource "32 word" "64 word"
  | Follow "32 word"
  | Done "64 word" "32 word" outcome

definition to_encode :: "to_worker \<Rightarrow> bytes res" where
  "to_encode m =
     (case m of
        Run fuel calls wall_millis request \<Rightarrow>
          ensure (length request \<le> MAX_REQUEST_BYTES) ''request limit''
            (Inr (CHR 0x01 # u64_bytes fuel @ u32_bytes calls @ u64_bytes wall_millis @ request))
      | Reply (Some bs) \<Rightarrow> ensure (length bs \<le> MAX_RESULT_BYTES) ''result limit'' (Inr (CHR 0x02 # bs))
      | Reply None \<Rightarrow> Inr [CHR 0x03])"

definition to_decode :: "bytes \<Rightarrow> to_worker res" where
  "to_decode frame =
     (case frame of
        [] \<Rightarrow> Inl ''empty message''
      | tag # rest \<Rightarrow>
          if tag = CHR 0x01 then
            and_then (take_u64 rest) (\<lambda>(fuel, s).
            and_then (take_u32 s) (\<lambda>(calls, s).
            and_then (take_u64 s) (\<lambda>(wall_millis, s). Inr (Run fuel calls wall_millis s))))
          else if tag = CHR 0x02 then Inr (Reply (Some rest))
          else if tag = CHR 0x03 then and_then (fields_end rest) (\<lambda>_. Inr (Reply None))
          else Inl ''unknown server message'')"

definition outcome_tag :: "outcome \<Rightarrow> char" where
  "outcome_tag r = (case r of Output _ \<Rightarrow> CHR 0x04 | Deadline \<Rightarrow> CHR 0x05 | GuestFailed \<Rightarrow> CHR 0x06)"

definition from_encode :: "from_worker \<Rightarrow> bytes res" where
  "from_encode m =
     (case m of
        Invoke operation target \<Rightarrow> Inr (CHR 0x01 # u32_bytes operation @ u64_bytes target)
      | FollowSource resource n \<Rightarrow> Inr (CHR 0x02 # u32_bytes resource @ u64_bytes n)
      | Follow operation \<Rightarrow> Inr (CHR 0x03 # u32_bytes operation)
      | Done fuel_left calls_left r \<Rightarrow>
          (let out = outcome_tag r # u64_bytes fuel_left @ u32_bytes calls_left in
           case r of
             Output bs \<Rightarrow> ensure (length bs \<le> MAX_IR_BYTES) ''output limit'' (Inr (out @ bs))
           | _ \<Rightarrow> Inr out))"

text \<open>The body of a \<open>Done\<close> message after its two counters, with what is left of the fields.\<close>

definition decode_outcome :: "char \<Rightarrow> bytes \<Rightarrow> (outcome \<times> bytes) res" where
  "decode_outcome tag s =
     (if tag = CHR 0x04 then ensure (length s \<le> MAX_IR_BYTES) ''output limit'' (Inr (Output s, []))
      else if tag = CHR 0x05 then Inr (Deadline, s)
      else Inr (GuestFailed, s))"

definition from_decode :: "bytes \<Rightarrow> from_worker res" where
  "from_decode frame =
     (case frame of
        [] \<Rightarrow> Inl ''empty message''
      | tag # rest \<Rightarrow>
          and_then
            (if tag = CHR 0x01 then
               and_then (take_u32 rest) (\<lambda>(operation, s).
               and_then (take_u64 s) (\<lambda>(target, s). Inr (Invoke operation target, s)))
             else if tag = CHR 0x02 then
               and_then (take_u32 rest) (\<lambda>(resource, s).
               and_then (take_u64 s) (\<lambda>(n, s). Inr (FollowSource resource n, s)))
             else if tag = CHR 0x03 then and_then (take_u32 rest) (\<lambda>(operation, s). Inr (Follow operation, s))
             else if tag = CHR 0x04 \<or> tag = CHR 0x05 \<or> tag = CHR 0x06 then
               and_then (take_u64 rest) (\<lambda>(fuel_left, s).
               and_then (take_u32 s) (\<lambda>(calls_left, s).
               and_then (decode_outcome tag s) (\<lambda>(r, s). Inr (Done fuel_left calls_left r, s))))
             else Inl ''unknown worker message'')
            (\<lambda>(message, s). and_then (fields_end s) (\<lambda>_. Inr message)))"

section \<open>Frames\<close>

definition read_exact :: "nat \<Rightarrow> bytes \<Rightarrow> (bytes \<times> bytes) res" where
  "read_exact n s = ensure (n \<le> length s) ''unexpected end of file'' (Inr (take n s, drop n s))"

definition send_frame :: "bytes \<Rightarrow> bytes res" where
  "send_frame body =
     ensure (length body \<le> MAX_FRAME) ''message limit''
       (Inr (u32_bytes (word_of_nat (length body)) @ body))"

definition receive_frame :: "bytes \<Rightarrow> (bytes \<times> bytes) res" where
  "receive_frame s =
     and_then (read_exact 4 s) (\<lambda>(n, s).
     let len = le_value n in
     ensure (len \<le> MAX_FRAME) ''message limit'' (read_exact len s))"

section \<open>Start-up\<close>

definition MAX_CODE_BYTES :: nat where "MAX_CODE_BYTES = 256 * 1024 * 1024"

text \<open>\<open>Limits\<close>; the wall time is a \<open>Duration\<close>, in nanoseconds.\<close>

record guest_limits =
  lm_memory_bytes :: "64 word"
  lm_fuel :: "64 word"
  lm_host_calls :: "32 word"
  lm_wall_time :: nat
  lm_concurrency :: "64 word"

record startup =
  su_limits :: guest_limits
  su_retire_after :: "32 word"
  su_code :: bytes

definition write_init :: "bytes \<Rightarrow> guest_limits \<Rightarrow> 32 word \<Rightarrow> bytes res" where
  "write_init code limits retire_after =
     ensure (length code \<le> MAX_CODE_BYTES) ''code limit''
       (Inr (u64_bytes (lm_memory_bytes limits) @ u64_bytes (lm_fuel limits) @ u32_bytes (lm_host_calls limits)
          @ u64_bytes (lm_concurrency limits) @ u32_bytes retire_after
          @ u64_bytes (word_of_nat (lm_wall_time limits div 1000000)) @ u64_bytes (word_of_nat (length code)) @ code))"

definition read_u64 :: "bytes \<Rightarrow> (64 word \<times> bytes) res" where
  "read_u64 s = and_then (read_exact 8 s) (\<lambda>(b, s). Inr (word_of_nat (le_value b), s))"

definition read_u32 :: "bytes \<Rightarrow> (32 word \<times> bytes) res" where
  "read_u32 s = and_then (read_exact 4 s) (\<lambda>(b, s). Inr (word_of_nat (le_value b), s))"

definition read_init :: "bytes \<Rightarrow> (startup \<times> bytes) res" where
  "read_init s =
     and_then (read_u64 s) (\<lambda>(memory_bytes, s).
     and_then (read_u64 s) (\<lambda>(fuel, s).
     and_then (read_u32 s) (\<lambda>(calls, s).
     and_then (read_u64 s) (\<lambda>(concurrency, s).
     and_then (read_u32 s) (\<lambda>(retire_after, s).
     and_then (read_u64 s) (\<lambda>(millis, s).
     and_then (read_u64 s) (\<lambda>(len, s).
     ensure (unat len \<le> MAX_CODE_BYTES) ''code limit''
     (and_then (read_exact (unat len) s) (\<lambda>(code, s).
      Inr (\<lparr>su_limits = \<lparr>lm_memory_bytes = memory_bytes, lm_fuel = fuel, lm_host_calls = calls,
               lm_wall_time = unat millis * 1000000, lm_concurrency = concurrency\<rparr>,
             su_retire_after = retire_after, su_code = code\<rparr>, s))))))))))"

section \<open>Little-endian bytes\<close>

lemma length_le_bytes [simp]: "length (le_bytes w n) = w"
  by (simp add: le_bytes_def)

lemma le_bytes_Suc: "le_bytes (Suc w) n = char_of (n mod 256) # le_bytes w (n div 256)"
  by (simp add: le_bytes_def upt_conv_Cons div_mult2_eq del: upt_Suc flip: map_Suc_upt)

lemma le_value_le_bytes [simp]: "le_value (le_bytes w n) = n mod 256 ^ w"
proof (induction w arbitrary: n)
  case 0
  then show ?case by (simp add: le_bytes_def)
next
  case (Suc w)
  have "le_value (le_bytes (Suc w) n) = n mod 256 + 256 * (n div 256 mod 256 ^ w)"
    by (simp add: le_bytes_Suc Suc.IH)
  then show ?case by (simp add: mod_mult2_eq)
qed

lemma le_bytes_le_value: "length b = w \<Longrightarrow> le_bytes w (le_value b) = b \<and> le_value b < 256 ^ w"
proof (induction b arbitrary: w)
  case Nil
  then show ?case by (simp add: le_bytes_def)
next
  case (Cons c b)
  then obtain v where w: "w = Suc v" by (cases w) auto
  have c: "(of_char c :: nat) < 256" using of_char_mod_256 [of c, where ?'a = nat] by (metis mod_less_divisor zero_less_numeral)
  have IH: "le_bytes v (le_value b) = b" "le_value b < 256 ^ v" using Cons w by auto
  have "le_value (c # b) < 256 ^ w" using c IH(2) unfolding w le_value.simps power_Suc by linarith
  moreover have "le_bytes w (le_value (c # b)) = c # b" using w c IH(1) by (simp add: le_bytes_Suc)
  ultimately show ?case by blast
qed

text \<open>Reading a field of the stated width is the inverse of writing it.\<close>

lemma take_u32_iff: "take_u32 s = Inr (w, s') \<longleftrightarrow> s = u32_bytes w @ s'"
proof
  assume "take_u32 s = Inr (w, s')"
  then have *: "4 \<le> length s" "w = word_of_nat (le_value (take 4 s))" "s' = drop 4 s"
    by (auto simp: take_u32_def take_bytes_def res_simps split: if_splits)
  have v: "le_bytes 4 (le_value (take 4 s)) = take 4 s" "le_value (take 4 s) < 256 ^ 4"
    using le_bytes_le_value [of "take 4 s" 4] *(1) by auto
  then have "unat w = le_value (take 4 s)" using *(2) by (simp add: unat_of_nat)
  then show "s = u32_bytes w @ s'" using v *(3) by (simp add: u32_bytes_def)
next
  assume "s = u32_bytes w @ s'"
  then show "take_u32 s = Inr (w, s')"
    using unsigned_less [of w, where ?'a = nat] by (simp add: take_u32_def take_bytes_def u32_bytes_def)
qed

lemma take_u64_iff: "take_u64 s = Inr (w, s') \<longleftrightarrow> s = u64_bytes w @ s'"
proof
  assume "take_u64 s = Inr (w, s')"
  then have *: "8 \<le> length s" "w = word_of_nat (le_value (take 8 s))" "s' = drop 8 s"
    by (auto simp: take_u64_def take_bytes_def res_simps split: if_splits)
  have v: "le_bytes 8 (le_value (take 8 s)) = take 8 s" "le_value (take 8 s) < 256 ^ 8"
    using le_bytes_le_value [of "take 8 s" 8] *(1) by auto
  then have "unat w = le_value (take 8 s)" using *(2) by (simp add: unat_of_nat)
  then show "s = u64_bytes w @ s'" using v *(3) by (simp add: u64_bytes_def)
next
  assume "s = u64_bytes w @ s'"
  then show "take_u64 s = Inr (w, s')"
    using unsigned_less [of w, where ?'a = nat] by (simp add: take_u64_def take_bytes_def u64_bytes_def)
qed

lemma length_word_bytes [simp]: "length (u32_bytes w) = 4" "length (u64_bytes v) = 8"
  by (simp_all add: u32_bytes_def u64_bytes_def)

lemma read_u64_write [simp]: "read_u64 (u64_bytes w @ s) = Inr (w, s)"
  using unsigned_less [of w, where ?'a = nat] by (simp add: read_u64_def read_exact_def u64_bytes_def)

lemma read_u32_write [simp]: "read_u32 (u32_bytes w @ s) = Inr (w, s)"
  using unsigned_less [of w, where ?'a = nat] by (simp add: read_u32_def read_exact_def u32_bytes_def)

section \<open>Messages and frames\<close>

lemma from_decode_Inr: "from_decode f = Inr m \<Longrightarrow> from_encode m = Inr f"
  by (auto simp: from_decode_def from_encode_def decode_outcome_def outcome_tag_def fields_end_def res_simps
      take_u32_iff take_u64_iff Let_def split: list.splits if_splits)

lemma from_encode_Inr: "from_encode m = Inr f \<Longrightarrow> from_decode f = Inr m"
proof (cases m)
  case (Done fuel calls r)
  assume "from_encode m = Inr f"
  then show ?thesis using Done
    by (cases r) (auto simp: from_encode_def from_decode_def decode_outcome_def outcome_tag_def fields_end_def res_simps
      take_u32_iff take_u64_iff Let_def split: if_splits)
qed (auto simp: from_encode_def from_decode_def fields_end_def res_simps take_u32_iff take_u64_iff)

lemma to_encode_Inr: "to_encode m = Inr f \<Longrightarrow> to_decode f = Inr m \<and> length f \<le> MAX_FRAME"
  by (auto simp: to_encode_def to_decode_def fields_end_def res_simps take_u32_iff take_u64_iff MAX_FRAME_def MAX_BODY_def
      split: to_worker.splits option.splits if_splits)

lemma from_encode_length: "from_encode m = Inr f \<Longrightarrow> length f \<le> MAX_FRAME"
  by (auto simp: from_encode_def Let_def MAX_FRAME_def MAX_BODY_def split: from_worker.splits outcome.splits if_splits)

lemma receive_send: "send_frame body = Inr w \<Longrightarrow> receive_frame (w @ rest) = Inr (body, rest)"
proof -
  assume "send_frame body = Inr w"
  then have b: "length body \<le> MAX_FRAME" "w = u32_bytes (word_of_nat (length body)) @ body"
    by (auto simp: send_frame_def split: if_splits)
  have "length body < 2 ^ 32" using b(1) by (simp add: MAX_FRAME_def MAX_BODY_def MAX_IR_BYTES_def MAX_REQUEST_BYTES_def MAX_RESULT_BYTES_def)
  then have "le_value (u32_bytes (word_of_nat (length body))) = length body"
    by (simp add: u32_bytes_def unat_of_nat)
  then show ?thesis using b by (simp add: receive_frame_def read_exact_def)
qed

text \<open>C26: the worker protocol is unambiguous.  A frame from a worker decodes to a message exactly when
  it is that message's encoding, so truncated, oversized or padded frames and unknown tags are all
  refused and no two frames mean the same; whatever either side encodes fits a frame and is read back
  unchanged from the socket, leaving exactly what was sent after it.\<close>

theorem wire_exact:
  "(from_decode f = Inr m \<longleftrightarrow> from_encode m = Inr f)
   \<and> (from_encode m = Inr f \<longrightarrow> (\<exists>w. send_frame f = Inr w \<and> receive_frame (w @ rest) = Inr (f, rest)))
   \<and> (to_encode t = Inr g \<longrightarrow> to_decode g = Inr t \<and> (\<exists>w. send_frame g = Inr w \<and> receive_frame (w @ rest) = Inr (g, rest)))"
proof -
  have "\<exists>w. send_frame b = Inr w \<and> receive_frame (w @ rest) = Inr (b, rest)" if "length b \<le> MAX_FRAME" for b
    using that receive_send [of b _ rest] by (simp add: send_frame_def)
  then show ?thesis using from_decode_Inr from_encode_Inr to_encode_Inr from_encode_length by blast
qed

theorem wire_exact_witness:
  "from_encode (Invoke 7 9) = Inr (CHR 0x01 # u32_bytes 7 @ u64_bytes 9)
   \<and> from_decode (CHR 0x01 # u32_bytes 7 @ u64_bytes 9) = Inr (Invoke 7 9)
   \<and> to_encode (Reply None) = Inr [CHR 0x03] \<and> to_decode [CHR 0x03] = Inr (Reply None)"
  using wire_exact [of "CHR 0x01 # u32_bytes 7 @ u64_bytes 9" "Invoke 7 9" "[]" "Reply None" "[CHR 0x03]"]
  by (simp add: from_encode_def to_encode_def)

text \<open>A worker learns the limits the server was started with, provided the wall time is a whole number
  of milliseconds in range.\<close>

lemma startup_roundtrip:
  assumes "write_init code limits retire = Inr w"
    and "lm_wall_time limits mod 1000000 = 0" and "lm_wall_time limits div 1000000 < 2 ^ 64"
  shows "read_init (w @ rest) = Inr (\<lparr>su_limits = limits, su_retire_after = retire, su_code = code\<rparr>, rest)"
proof -
  have c: "length code \<le> MAX_CODE_BYTES" using assms(1) by (auto simp: write_init_def split: if_splits)
  then have "length code < 2 ^ 64" by (simp add: MAX_CODE_BYTES_def)
  then have u: "unat (word_of_nat (length code) :: 64 word) = length code"
    "unat (word_of_nat (lm_wall_time limits div 1000000) :: 64 word) * 1000000 = lm_wall_time limits"
    using assms(2,3) by (auto simp: unat_of_nat)
  show ?thesis using assms(1) c u
    by (cases limits) (auto simp: write_init_def read_init_def read_exact_def split: if_splits)
qed

end
