(* ===== verification/Guest_Pool.thy ===== *)
theory Guest_Pool
  imports Guest_Wire "HOL-Library.Multiset"
begin

text \<open>
  \<^verbatim>\<open>crates/noxide-guest/src/pool.rs\<close>: the pool of worker processes and one request's exchange
  with a worker.

  The pool's counters are atomics and its idle list is behind a lock, so its methods interleave.  Each
  method is a function on the pool, composed of the atomic actions of \<open>pool_action\<close>; the invariants
  are proved of the actions, hence of every interleaving.  Besides the fields of \<open>GuestPool\<close> the state
  records what the code keeps in running tasks: the workers checked out (\<open>gp_busy\<close>), the starts in
  flight, and the workers already dropped whose slot is not yet given back.  \<open>gp_history\<close> records, for
  a worker process, the isolation of each request sent to it; \<open>wk_id\<close> names the process (the broker
  numbers its starts), so a new one is fresh.  The broker's answers are arguments.

  An exchange reads arbitrary bytes from the worker; the storage host is a parameter.
\<close>

section \<open>Workers\<close>

datatype isolation = Shared string | SingleUse

record worker =
  wk_id :: nat
  wk_served :: nat
  wk_isolation :: "string option"
  wk_stream :: bool

definition U32_MAX :: nat where "U32_MAX = 4294967295"

definition WARM_WORKERS :: nat where "WARM_WORKERS = 4"

definition DEFAULT_RETIRE_AFTER :: nat where "DEFAULT_RETIRE_AFTER = 1"

record pool =
  gp_idle :: "worker list"
  gp_closed :: bool
  gp_live :: nat
  gp_starting :: nat
  gp_started :: nat
  gp_retire_after :: nat
  gp_concurrency :: nat
  gp_broker :: bool
  gp_busy :: "(worker \<times> isolation) list"
  gp_inflight :: nat
  gp_dropped :: nat
  gp_history :: "nat \<Rightarrow> isolation list"
  gp_ids :: "nat set"

definition new_worker :: "nat \<Rightarrow> worker" where
  "new_worker n = \<lparr>wk_id = n, wk_served = 0, wk_isolation = None, wk_stream = True\<rparr>"

definition pool_start :: "nat list \<Rightarrow> nat \<Rightarrow> nat \<Rightarrow> pool res" where
  "pool_start ids concurrency retire_after =
     ensure (retire_after > 0) ''a worker must serve at least one request''
       (let warm = min WARM_WORKERS concurrency in
        Inr \<lparr>gp_idle = map new_worker (take warm ids), gp_closed = False, gp_live = warm, gp_starting = 0,
             gp_started = warm, gp_retire_after = retire_after, gp_concurrency = concurrency, gp_broker = True,
             gp_busy = [], gp_inflight = 0, gp_dropped = 0, gp_history = (\<lambda>_. []), gp_ids = set (take warm ids)\<rparr>)"

definition add_worker :: "pool \<Rightarrow> pool" where
  "add_worker p =
     (if \<not> gp_broker p \<or> \<not> gp_live p < gp_concurrency p then p
      else p\<lparr>gp_live := gp_live p + 1, gp_starting := gp_starting p + 1, gp_started := gp_started p + 1,
             gp_inflight := gp_inflight p + 1\<rparr>)"

definition park :: "worker \<Rightarrow> pool \<Rightarrow> pool" where
  "park w p = p\<lparr>gp_idle := gp_idle p @ [w]\<rparr>"

text \<open>The task \<open>add_worker\<close> spawns, when the broker answers.\<close>

definition worker_ready :: "nat \<Rightarrow> pool \<Rightarrow> pool" where
  "worker_ready n p =
     park (new_worker n)
       (p\<lparr>gp_starting := gp_starting p - 1, gp_inflight := gp_inflight p - 1, gp_ids := insert n (gp_ids p)\<rparr>)"

definition worker_refused :: "pool \<Rightarrow> pool" where
  "worker_refused p =
     p\<lparr>gp_starting := gp_starting p - 1, gp_inflight := gp_inflight p - 1, gp_live := gp_live p - 1\<rparr>"

definition keep_warm :: "pool \<Rightarrow> pool" where
  "keep_warm p =
     (let ready = length (filter (\<lambda>w. wk_isolation w = None) (gp_idle p)) + gp_starting p
      in (add_worker ^^ (WARM_WORKERS - ready)) p)"

fun position :: "('a \<Rightarrow> bool) \<Rightarrow> 'a list \<Rightarrow> nat option" where
  "position P [] = None"
| "position P (x # xs) = (if P x then Some 0 else map_option Suc (position P xs))"

definition swap_remove :: "nat \<Rightarrow> 'a list \<Rightarrow> 'a list" where
  "swap_remove i xs = (if Suc i = length xs then butlast xs else butlast (xs[i := last xs]))"

definition take_position :: "isolation \<Rightarrow> worker list \<Rightarrow> nat option" where
  "take_position isolation idle =
     (case (case isolation of
              Shared key \<Rightarrow> position (\<lambda>w. wk_isolation w = Some key) idle
            | SingleUse \<Rightarrow> None) of
        Some i \<Rightarrow> Some i
      | None \<Rightarrow> position (\<lambda>w. wk_isolation w = None) idle)"

definition pool_take :: "isolation \<Rightarrow> pool \<Rightarrow> (worker \<times> pool) option" where
  "pool_take isolation p =
     (case take_position isolation (gp_idle p) of
        None \<Rightarrow> None
      | Some i \<Rightarrow>
          (let w = gp_idle p ! i in
           Some (w, p\<lparr>gp_idle := swap_remove i (gp_idle p), gp_busy := (w, isolation) # gp_busy p,
                      gp_history := (gp_history p)(wk_id w := gp_history p (wk_id w) @ [isolation])\<rparr>)))"

text \<open>A worker is dropped (its process killed) before its slot is given back.\<close>

definition release_slot :: "pool \<Rightarrow> pool" where
  "release_slot p = p\<lparr>gp_dropped := gp_dropped p - 1, gp_live := gp_live p - 1\<rparr>"

definition unlink_first :: "pool \<Rightarrow> pool" where
  "unlink_first p = p\<lparr>gp_idle := tl (gp_idle p), gp_dropped := gp_dropped p + 1\<rparr>"

definition evict_one :: "pool \<Rightarrow> pool" where
  "evict_one p =
     (if gp_live p < gp_concurrency p then p
      else if gp_idle p = [] then p
      else release_slot (unlink_first p))"

datatype guest_busy = BusyDeadline | BusyCapacity

text \<open>One turn of the loop of \<open>wait_for_worker\<close>: a worker, an error, or another turn after the pool
  changes (\<open>None\<close>); the deadline ends the wait from outside.\<close>

definition wait_turn :: "isolation \<Rightarrow> nat \<Rightarrow> pool \<Rightarrow> (guest_busy + worker) option \<times> pool" where
  "wait_turn isolation waiting p =
     (if gp_closed p then (Some (Inl BusyCapacity), p)
      else case pool_take isolation p of
        Some (w, p) \<Rightarrow> (Some (Inr w), keep_warm p)
      | None \<Rightarrow>
          if \<not> gp_broker p then (Some (Inl BusyCapacity), p)
          else (None, if gp_starting p < waiting then add_worker (evict_one p) else p))"

definition drop_busy :: "worker \<Rightarrow> isolation \<Rightarrow> pool \<Rightarrow> pool" where
  "drop_busy w isolation p = p\<lparr>gp_busy := remove1 (w, isolation) (gp_busy p), gp_dropped := gp_dropped p + 1\<rparr>"

definition discard :: "worker \<Rightarrow> isolation \<Rightarrow> pool \<Rightarrow> pool" where
  "discard w isolation p = keep_warm (add_worker (release_slot (drop_busy w isolation p)))"

definition park_busy :: "worker \<Rightarrow> isolation \<Rightarrow> pool \<Rightarrow> pool" where
  "park_busy w isolation p =
     park (w\<lparr>wk_served := min (wk_served w + 1) U32_MAX,
             wk_isolation := (case isolation of Shared key \<Rightarrow> Some key | SingleUse \<Rightarrow> wk_isolation w)\<rparr>)
       (p\<lparr>gp_busy := remove1 (w, isolation) (gp_busy p)\<rparr>)"

text \<open>The end of \<open>run\<close>: the worker goes back to the idle list or is replaced.\<close>

definition finish_run :: "worker \<Rightarrow> isolation \<Rightarrow> bool \<Rightarrow> pool \<Rightarrow> pool" where
  "finish_run w isolation reusable p =
     (if reusable \<and> (case isolation of Shared _ \<Rightarrow> True | SingleUse \<Rightarrow> False) \<and> min (wk_served w + 1) U32_MAX < gp_retire_after p
      then park_busy w isolation p else discard w isolation p)"

definition pool_close :: "pool \<Rightarrow> pool" where
  "pool_close p = p\<lparr>gp_closed := True, gp_idle := []\<rparr>"

section \<open>Interleavings\<close>

inductive pool_action :: "pool \<Rightarrow> pool \<Rightarrow> bool" where
  add: "pool_action p (add_worker p)"
| ready: "gp_inflight p > 0 \<Longrightarrow> n \<notin> gp_ids p \<Longrightarrow> pool_action p (worker_ready n p)"
| refused: "gp_inflight p > 0 \<Longrightarrow> pool_action p (worker_refused p)"
| take_idle: "pool_take isolation p = Some (w, p') \<Longrightarrow> pool_action p p'"
| unlink: "gp_idle p \<noteq> [] \<Longrightarrow> pool_action p (unlink_first p)"
| release: "gp_dropped p > 0 \<Longrightarrow> pool_action p (release_slot p)"
| drop_checked_out: "(w, isolation) \<in> set (gp_busy p) \<Longrightarrow> pool_action p (drop_busy w isolation p)"
| park_checked_out: "(w, Shared key) \<in> set (gp_busy p) \<Longrightarrow> min (wk_served w + 1) U32_MAX < gp_retire_after p
    \<Longrightarrow> pool_action p (park_busy w (Shared key) p)"
| close: "pool_action p (pool_close p)"

inductive pool_reach :: "pool \<Rightarrow> bool" where
  start: "pool_start ids concurrency retire_after = Inr p \<Longrightarrow> distinct ids \<Longrightarrow> retire_after \<le> U32_MAX
    \<Longrightarrow> pool_reach p"
| step: "pool_reach p \<Longrightarrow> pool_action p p' \<Longrightarrow> pool_reach p'"

lemmas pool_defs = add_worker_def worker_ready_def worker_refused_def park_def unlink_first_def release_slot_def
  drop_busy_def park_busy_def pool_close_def


section \<open>Invariants\<close>

text \<open>What a worker may have been sent: nothing but requests of one key, no more than it may serve, or a
  single request of its own.\<close>

definition history_ok :: "nat \<Rightarrow> isolation list \<Rightarrow> bool" where
  "history_ok limit h \<longleftrightarrow> h = [SingleUse] \<or> (\<exists>key. h = replicate (length h) (Shared key)) \<and> length h \<le> limit"

definition past :: "worker \<Rightarrow> isolation list" where
  "past w = (case wk_isolation w of None \<Rightarrow> [] | Some key \<Rightarrow> replicate (wk_served w) (Shared key))"

definition idle_ok :: "nat \<Rightarrow> (nat \<Rightarrow> isolation list) \<Rightarrow> worker \<Rightarrow> bool" where
  "idle_ok limit h w \<longleftrightarrow> h (wk_id w) = past w \<and> length (past w) = wk_served w \<and> wk_served w < limit"

definition busy_ok :: "nat \<Rightarrow> (nat \<Rightarrow> isolation list) \<Rightarrow> worker \<times> isolation \<Rightarrow> bool" where
  "busy_ok limit h wi \<longleftrightarrow> (case wi of (w, i) \<Rightarrow>
     h (wk_id w) = past w @ [i] \<and> length (past w) = wk_served w \<and> wk_served w < limit
     \<and> (case wk_isolation w of None \<Rightarrow> True | Some key \<Rightarrow> i = Shared key))"

definition pool_ids :: "pool \<Rightarrow> nat list" where
  "pool_ids p = map wk_id (gp_idle p) @ map (wk_id \<circ> fst) (gp_busy p)"

definition pool_inv :: "pool \<Rightarrow> bool" where
  "pool_inv p \<longleftrightarrow>
     length (gp_idle p) + length (gp_busy p) + gp_inflight p + gp_dropped p \<le> gp_live p
   \<and> gp_live p \<le> gp_concurrency p \<and> 0 < gp_retire_after p \<and> gp_retire_after p \<le> U32_MAX
   \<and> distinct (pool_ids p) \<and> set (pool_ids p) \<subseteq> gp_ids p
   \<and> (\<forall>n. n \<notin> gp_ids p \<longrightarrow> gp_history p n = [])
   \<and> (\<forall>w \<in> set (gp_idle p). idle_ok (gp_retire_after p) (gp_history p) w)
   \<and> (\<forall>wi \<in> set (gp_busy p). busy_ok (gp_retire_after p) (gp_history p) wi)
   \<and> (\<forall>n. history_ok (gp_retire_after p) (gp_history p n))"

lemma history_ok_Nil [simp]: "history_ok limit []"
  by (simp add: history_ok_def)

text \<open>A worker matching the request's isolation has only seen that key, or nothing.\<close>

definition suits :: "isolation \<Rightarrow> worker \<Rightarrow> bool" where
  "suits i w \<longleftrightarrow> (case wk_isolation w of None \<Rightarrow> True | Some key \<Rightarrow> i = Shared key)"

lemma position_Some: "position P xs = Some i \<Longrightarrow> i < length xs \<and> P (xs ! i)"
  by (induction xs arbitrary: i) (auto split: if_splits)

lemma take_position_suits: "take_position i idle = Some n \<Longrightarrow> n < length idle \<and> suits i (idle ! n)"
  by (auto simp: take_position_def suits_def dest!: position_Some split: isolation.splits option.splits)

lemma mset_swap_remove: "i < length xs \<Longrightarrow> add_mset (xs ! i) (mset (swap_remove i xs)) = mset xs"
proof -
  assume i: "i < length xs"
  then obtain ys y where xs: "xs = ys @ [y]" by (metis length_greater_0_conv less_zeroE list.size(3) rev_exhaust)
  show ?thesis
  proof (cases "i = length ys")
    case True
    then show ?thesis using xs by (simp add: swap_remove_def)
  next
    case False
    then have j: "i < length ys" using i xs by simp
    then have "swap_remove i xs = ys[i := y]" using xs by (simp add: swap_remove_def list_update_append1 butlast_append)
    moreover have "add_mset (ys ! i) (mset (ys[i := y])) = add_mset y (mset ys)" using j by (simp add: mset_update)
    ultimately show ?thesis using xs j by (simp add: nth_append)
  qed
qed

lemma pool_take_Some:
  assumes "pool_take i p = Some (w, p')"
  shows "w \<in> set (gp_idle p) \<and> suits i w \<and> mset (gp_idle p) = add_mset w (mset (gp_idle p'))
     \<and> p' = p\<lparr>gp_idle := gp_idle p', gp_busy := (w, i) # gp_busy p,
              gp_history := (gp_history p)(wk_id w := gp_history p (wk_id w) @ [i])\<rparr>"
proof -
  obtain n where n: "take_position i (gp_idle p) = Some n" "w = gp_idle p ! n"
    and p': "p' = p\<lparr>gp_idle := swap_remove n (gp_idle p), gp_busy := (w, i) # gp_busy p,
              gp_history := (gp_history p)(wk_id w := gp_history p (wk_id w) @ [i])\<rparr>"
    using assms by (auto simp: pool_take_def Let_def split: option.splits)
  have "n < length (gp_idle p)" "suits i w" using take_position_suits n by auto
  then show ?thesis using n(2) p' mset_swap_remove [of n "gp_idle p"] by simp
qed

lemma inv_take:
  assumes inv: "pool_inv p" and t: "pool_take i p = Some (w, p')"
  shows "pool_inv p'"
proof -
  have w: "w \<in> set (gp_idle p)" "suits i w" and m: "mset (gp_idle p) = add_mset w (mset (gp_idle p'))"
    and p': "p' = p\<lparr>gp_idle := gp_idle p', gp_busy := (w, i) # gp_busy p,
              gp_history := (gp_history p)(wk_id w := gp_history p (wk_id w) @ [i])\<rparr>"
    using pool_take_Some [OF t] by blast+
  have sel: "gp_busy p' = (w, i) # gp_busy p" "gp_history p' = (gp_history p)(wk_id w := gp_history p (wk_id w) @ [i])"
    "gp_live p' = gp_live p" "gp_inflight p' = gp_inflight p" "gp_dropped p' = gp_dropped p" "gp_ids p' = gp_ids p"
    "gp_concurrency p' = gp_concurrency p" "gp_retire_after p' = gp_retire_after p"
    by (subst p', simp)+
  have len: "length (gp_idle p) = Suc (length (gp_idle p'))" using m by (metis size_add_mset size_mset)
  have set: "set (gp_idle p) = insert w (set (gp_idle p'))" using m by (metis set_mset_add_mset_insert set_mset_mset)
  have "mset (pool_ids p') = mset (pool_ids p)" using m sel(1) by (simp add: pool_ids_def)
  then have ids: "distinct (pool_ids p')" "set (pool_ids p') = set (pool_ids p)"
    using inv by (metis pool_inv_def mset_eq_imp_distinct_iff, metis mset_eq_setD)
  have okw: "idle_ok (gp_retire_after p) (gp_history p) w" using inv w(1) by (simp add: pool_inv_def)
  have "wk_id w \<notin> wk_id ` (set (gp_idle p') \<union> fst ` set (gp_busy p))"
    using ids(1) by (simp add: pool_ids_def sel(1) image_Un image_comp)
  then have other: "wk_id v \<noteq> wk_id w" if "v \<in> set (gp_idle p') \<union> fst ` set (gp_busy p)" for v
    using that by (metis imageI)
  have new: "past w = [] \<or> (\<exists>key. past w = replicate (wk_served w) (Shared key) \<and> i = Shared key)"
    using w(2) by (auto simp: suits_def past_def split: option.splits)
  have hist: "history_ok (gp_retire_after p) (past w @ [i])"
  proof (cases "past w = []")
    case True
    then show ?thesis using okw by (cases i) (auto simp: history_ok_def idle_ok_def)
  next
    case False
    then show ?thesis using okw new by (auto simp: history_ok_def idle_ok_def replicate_append_same)
  qed
  have "\<forall>v \<in> set (gp_idle p'). idle_ok (gp_retire_after p) (gp_history p') v"
    using inv other set by (simp add: pool_inv_def idle_ok_def sel(2))
  moreover have "\<forall>wi \<in> set (gp_busy p'). busy_ok (gp_retire_after p) (gp_history p') wi"
    using inv other okw w(2) by (force simp: pool_inv_def idle_ok_def busy_ok_def sel(1,2) suits_def)
  moreover have "\<forall>n. history_ok (gp_retire_after p) (gp_history p' n)"
    using inv okw hist by (simp add: pool_inv_def sel(2) idle_ok_def)
  moreover have "\<forall>n. n \<notin> gp_ids p \<longrightarrow> gp_history p' n = []"
    using inv w(1) by (auto simp: pool_inv_def sel(2) pool_ids_def)
  ultimately show ?thesis using inv ids len by (simp add: pool_inv_def sel)
qed

lemma inv_ready:
  assumes "pool_inv p" and "gp_inflight p > 0" and "n \<notin> gp_ids p"
  shows "pool_inv (worker_ready n p)"
  using assms
  by (auto simp: pool_inv_def pool_defs new_worker_def pool_ids_def idle_ok_def past_def)

lemma inv_park:
  assumes inv: "pool_inv p" and b: "(w, Shared key) \<in> set (gp_busy p)"
    and r: "min (wk_served w + 1) U32_MAX < gp_retire_after p"
  shows "pool_inv (park_busy w (Shared key) p)"
proof -
  let ?w = "w\<lparr>wk_served := min (wk_served w + 1) U32_MAX, wk_isolation := Some key\<rparr>"
  let ?p = "park_busy w (Shared key) p"
  have sel: "gp_idle ?p = gp_idle p @ [?w]" "gp_busy ?p = remove1 (w, Shared key) (gp_busy p)" "gp_history ?p = gp_history p"
    "gp_live ?p = gp_live p" "gp_inflight ?p = gp_inflight p" "gp_dropped ?p = gp_dropped p" "gp_ids ?p = gp_ids p"
    "gp_concurrency ?p = gp_concurrency p" "gp_retire_after ?p = gp_retire_after p"
    by (simp_all add: park_busy_def park_def)
  have m: "mset (gp_busy p) = add_mset (w, Shared key) (mset (gp_busy ?p))" using b by (simp add: sel(2))
  then have len: "length (gp_busy p) = Suc (length (gp_busy ?p))" by (metis size_add_mset size_mset)
  have "mset (pool_ids ?p) = mset (pool_ids p)" using m by (simp add: pool_ids_def sel(1))
  then have ids: "distinct (pool_ids ?p)" "set (pool_ids ?p) = set (pool_ids p)"
    using inv by (metis pool_inv_def mset_eq_imp_distinct_iff, metis mset_eq_setD)
  have "busy_ok (gp_retire_after p) (gp_history p) (w, Shared key)" using inv b by (simp add: pool_inv_def)
  moreover have "wk_served ?w = wk_served w + 1" using inv r by (auto simp: pool_inv_def)
  ultimately have "idle_ok (gp_retire_after p) (gp_history p) ?w"
    using r by (auto simp: busy_ok_def idle_ok_def past_def replicate_append_same split: option.splits)
  then show ?thesis using inv ids len sel set_remove1_subset [of "(w, Shared key)" "gp_busy p"]
    by (auto simp: pool_inv_def)
qed

lemma inv_drop:
  assumes inv: "pool_inv p" and b: "(w, i) \<in> set (gp_busy p)"
  shows "pool_inv (drop_busy w i p)"
proof -
  let ?b = "remove1 (w, i) (gp_busy p)"
  have m: "mset (gp_busy p) = add_mset (w, i) (mset ?b)" using b by simp
  then have len: "length (gp_busy p) = Suc (length ?b)" by (metis size_add_mset size_mset)
  have "image_mset (wk_id \<circ> fst) (mset (gp_busy p)) = add_mset (wk_id w) (image_mset (wk_id \<circ> fst) (mset ?b))"
    by (subst m) simp
  then have "mset (pool_ids p) = add_mset (wk_id w) (mset (pool_ids (drop_busy w i p)))"
    by (simp add: pool_ids_def drop_busy_def del: mset_remove1)
  then have "distinct (wk_id w # pool_ids (drop_busy w i p))" "set (pool_ids (drop_busy w i p)) \<subseteq> set (pool_ids p)"
    using inv by (metis pool_inv_def mset.simps(2) mset_eq_imp_distinct_iff, metis set_mset_add_mset_insert set_mset_mset subset_insertI)
  moreover have "gp_idle (drop_busy w i p) = gp_idle p" "gp_busy (drop_busy w i p) = ?b"
    "gp_dropped (drop_busy w i p) = gp_dropped p + 1" "gp_history (drop_busy w i p) = gp_history p"
    "gp_live (drop_busy w i p) = gp_live p" "gp_inflight (drop_busy w i p) = gp_inflight p"
    "gp_ids (drop_busy w i p) = gp_ids p" "gp_concurrency (drop_busy w i p) = gp_concurrency p"
    "gp_retire_after (drop_busy w i p) = gp_retire_after p"
    by (simp_all add: drop_busy_def)
  ultimately show ?thesis using inv len set_remove1_subset [of "(w, i)" "gp_busy p"]
    by (auto simp: pool_inv_def)
qed

lemma inv_unlink: "pool_inv p \<Longrightarrow> gp_idle p \<noteq> [] \<Longrightarrow> pool_inv (unlink_first p)"
  by (cases "gp_idle p") (auto simp: pool_inv_def unlink_first_def pool_ids_def)

lemma inv_action: "pool_action p p' \<Longrightarrow> pool_inv p \<Longrightarrow> pool_inv p'"
proof (induction rule: pool_action.induct)
  case (add p)
  then show ?case by (auto simp: pool_inv_def pool_defs pool_ids_def)
next
  case (refused p)
  then show ?case by (auto simp: pool_inv_def pool_defs pool_ids_def)
next
  case (release p)
  then show ?case by (auto simp: pool_inv_def pool_defs pool_ids_def)
next
  case (close p)
  then show ?case by (auto simp: pool_inv_def pool_defs pool_ids_def)
qed (auto intro: inv_take inv_ready inv_park inv_drop inv_unlink)

lemma inv_start:
  "pool_start ids concurrency retire_after = Inr p \<Longrightarrow> distinct ids \<Longrightarrow> retire_after \<le> U32_MAX \<Longrightarrow> pool_inv p"
  by (auto simp: pool_start_def pool_inv_def pool_ids_def new_worker_def idle_ok_def past_def Let_def comp_def
      distinct_take split: if_splits)

lemma reach_inv: "pool_reach p \<Longrightarrow> pool_inv p"
  by (induction rule: pool_reach.induct) (auto intro: inv_start inv_action)

section \<open>The methods are sequences of atomic actions\<close>

lemma reach_keep_warm: "pool_reach p \<Longrightarrow> pool_reach (keep_warm p)"
proof -
  have "pool_reach p \<Longrightarrow> pool_reach ((add_worker ^^ n) p)" for n
    by (induction n) (auto intro: pool_reach.step pool_action.add)
  then show "pool_reach p \<Longrightarrow> pool_reach (keep_warm p)" by (simp add: keep_warm_def Let_def)
qed

lemma reach_evict: "pool_reach p \<Longrightarrow> pool_reach (evict_one p)"
proof (cases "gp_live p < gp_concurrency p \<or> gp_idle p = []")
  case False
  assume "pool_reach p"
  then have "pool_reach (unlink_first p)" using False by (auto intro: pool_reach.step pool_action.unlink)
  then have "pool_reach (release_slot (unlink_first p))"
    by (rule pool_reach.step) (rule pool_action.release, simp add: unlink_first_def)
  then show ?thesis using False by (simp add: evict_one_def)
qed (auto simp: evict_one_def)

lemma reach_discard:
  assumes "pool_reach p" and "(w, i) \<in> set (gp_busy p)"
  shows "pool_reach (discard w i p)"
proof -
  have "pool_reach (drop_busy w i p)" using assms by (auto intro: pool_reach.step pool_action.drop_checked_out)
  then have "pool_reach (release_slot (drop_busy w i p))"
    by (rule pool_reach.step) (rule pool_action.release, simp add: drop_busy_def)
  then have "pool_reach (add_worker (release_slot (drop_busy w i p)))" by (rule pool_reach.step) (rule pool_action.add)
  then show ?thesis unfolding discard_def by (rule reach_keep_warm)
qed

lemma reach_finish:
  assumes "pool_reach p" and "(w, i) \<in> set (gp_busy p)"
  shows "pool_reach (finish_run w i reusable p)"
proof -
  have "pool_reach (park_busy w (Shared key) p)"
    if "i = Shared key" "min (wk_served w + 1) U32_MAX < gp_retire_after p" for key
    using pool_reach.step [OF assms(1) pool_action.park_checked_out] assms(2) that by simp
  then show ?thesis using reach_discard [OF assms] by (auto simp: finish_run_def split: isolation.splits)
qed

lemma reach_wait_turn: "pool_reach p \<Longrightarrow> pool_reach (snd (wait_turn i waiting p))"
proof -
  assume p: "pool_reach p"
  have "pool_reach (keep_warm q)" if "pool_take i p = Some (w, q)" for w q
    using p that by (auto intro: reach_keep_warm pool_reach.step pool_action.take_idle)
  moreover have "pool_reach (add_worker (evict_one p))"
    using p by (auto intro: reach_evict pool_reach.step pool_action.add)
  ultimately show ?thesis using p by (auto simp: wait_turn_def split: option.splits)
qed

text \<open>C24: workers never cross an isolation boundary and processes stay bounded.  In every state the pool
  can reach, however requests, starts, refusals, evictions and the close of the pool interleave: the
  workers idle, checked out, starting or being dropped are at most the configured concurrency; and every
  worker process there ever was has been sent either one request that demanded a worker of its own and
  nothing else, or only requests sharing one key, no more of them than a worker may serve before it is
  replaced.  The waiting loop's turn and the end of a request (whatever the worker's exchange did) keep
  the pool among these states.\<close>

theorem pool_isolates_keys:
  assumes "pool_reach p"
  shows "length (gp_idle p) + length (gp_busy p) + gp_inflight p + gp_dropped p \<le> gp_concurrency p
    \<and> (\<forall>n. gp_history p n = [SingleUse]
         \<or> (\<exists>key. set (gp_history p n) \<subseteq> {Shared key}) \<and> length (gp_history p n) \<le> gp_retire_after p)
    \<and> (\<forall>i waiting. pool_reach (snd (wait_turn i waiting p)))
    \<and> (\<forall>(w, i) \<in> set (gp_busy p). \<forall>reusable. pool_reach (finish_run w i reusable p))"
proof -
  have inv: "pool_inv p" using assms by (rule reach_inv)
  have "set h \<subseteq> {Shared key}" if "h = replicate (length h) (Shared key)" for h key
    using that by (metis set_replicate_conv_if empty_subsetI order_refl)
  then have "\<forall>n. gp_history p n = [SingleUse]
         \<or> (\<exists>key. set (gp_history p n) \<subseteq> {Shared key}) \<and> length (gp_history p n) \<le> gp_retire_after p"
    using inv unfolding pool_inv_def history_ok_def by meson
  then show ?thesis using inv assms reach_wait_turn reach_finish by (auto simp: pool_inv_def)
qed

theorem pool_isolates_keys_witness:
  "\<exists>p w q. pool_reach p \<and> wait_turn (Shared ''alice'') 1 p = (Some (Inr w), q)
     \<and> gp_history q (wk_id w) = [Shared ''alice''] \<and> (w, Shared ''alice'') \<in> set (gp_busy q)
     \<and> length (gp_idle q) + length (gp_busy q) + gp_inflight q + gp_dropped q \<le> gp_concurrency q"
proof -
  let ?p = "\<lparr>gp_idle = [new_worker 1, new_worker 2], gp_closed = False, gp_live = 2, gp_starting = 0,
             gp_started = 2, gp_retire_after = 3, gp_concurrency = 2, gp_broker = True,
             gp_busy = [], gp_inflight = 0, gp_dropped = 0, gp_history = (\<lambda>_. []), gp_ids = {1, 2}\<rparr>"
  have p: "pool_reach ?p"
    by (rule pool_reach.start [of "[1, 2]" 2 3]) (auto simp: pool_start_def WARM_WORKERS_def Let_def U32_MAX_def)
  let ?t = "wait_turn (Shared ''alice'') 1 ?p"
  have t: "?t = (Some (Inr (new_worker 1)), snd ?t) \<and> gp_history (snd ?t) 1 = [Shared ''alice'']
      \<and> (new_worker 1, Shared ''alice'') \<in> set (gp_busy (snd ?t))"
    by (simp add: wait_turn_def pool_take_def take_position_def new_worker_def keep_warm_def WARM_WORKERS_def
        add_worker_def swap_remove_def Let_def eval_nat_numeral)
  have "pool_reach (snd ?t)" using pool_isolates_keys [OF p] by blast
  then have "length (gp_idle (snd ?t)) + length (gp_busy (snd ?t)) + gp_inflight (snd ?t) + gp_dropped (snd ?t)
      \<le> gp_concurrency (snd ?t)" by (rule conjunct1 [OF pool_isolates_keys])
  then show ?thesis using p t by (intro exI [of _ ?p] exI [of _ "new_worker 1"] exI [of _ "snd ?t"]) (simp add: new_worker_def)
qed

end
