(* ===== verification/Guest_Exchange.thy ===== *)
theory Guest_Exchange
  imports Guest_Pool "HOL-Library.Sublist"
begin

text \<open>
  \<^verbatim>\<open>crates/noxide-guest/src/pool.rs\<close>: one request's exchange with the worker it checked out.

  The worker is untrusted: \<open>inbound\<close> is whatever bytes it writes on its socket, \<open>writes\<close> how many
  frames it accepts before the socket breaks, \<open>elapsed\<close> whether the deadline cut the exchange short
  (the bytes read until then are \<open>inbound\<close>; it is not modelled in the middle of a storage call).  The storage host (the trait \<open>HostCalls\<close>) is a record of
  functions on its own state \<open>'h\<close>; encoding the request and decoding the response intent are
  parameters.  \<open>ex_log\<close> and \<open>ex_sent\<close> record the calls a worker made, with their fate, and the bytes it
  was sent.  Switching a socket between blocking and non-blocking mode is not modelled.
\<close>

section \<open>Definitions\<close>

record 'h host_calls =
  hc_isolation :: "'h \<Rightarrow> isolation"
  hc_storage_allowed :: "'h \<Rightarrow> bool"
  hc_invoke :: "32 word \<Rightarrow> 64 word \<Rightarrow> 'h \<Rightarrow> bytes res \<times> 'h"
  hc_follow_source :: "32 word \<Rightarrow> 64 word \<Rightarrow> 'h \<Rightarrow> unit res \<times> 'h"
  hc_follow :: "32 word \<Rightarrow> 'h \<Rightarrow> bytes res \<times> 'h"

record used =
  us_fuel_left :: "64 word"
  us_calls_left :: "32 word"
  us_failure :: "string option"

datatype call_fate = Answered bytes | CallFailed string | Refused string

record 'h exchange_state =
  ex_effects :: "'h option"
  ex_used :: used
  ex_log :: "call_fate list"
  ex_sent :: bytes

definition keep_failure :: "string \<Rightarrow> used \<Rightarrow> used" where
  "keep_failure e u = (case us_failure u of None \<Rightarrow> u\<lparr>us_failure := Some e\<rparr> | Some _ \<Rightarrow> u)"

text \<open>The checks before a storage call: the host to call, or the reason there is none.\<close>

definition granted :: "'h host_calls \<Rightarrow> 'h option \<Rightarrow> used \<Rightarrow> ((string + 'h) \<times> used) res" where
  "granted api effects u =
     (if us_calls_left u = 0 then Inl ''worker exceeded its host calls''
      else let u = u\<lparr>us_calls_left := us_calls_left u - 1\<rparr> in
        case effects of
          None \<Rightarrow> Inr (Inl ''no repository grant'', keep_failure ''no repository grant'' u)
        | Some host \<Rightarrow>
            if \<not> hc_storage_allowed api host
            then Inr (Inl ''storage import during action'', keep_failure ''storage import during action'' u)
            else Inr (Inr host, u))"

definition settle :: "bytes res \<Rightarrow> used \<Rightarrow> bytes option \<times> used" where
  "settle r u = (case r of Inr bs \<Rightarrow> (Some bs, u) | Inl e \<Rightarrow> (None, keep_failure e u))"

definition call_fate_of :: "bytes res \<Rightarrow> call_fate" where
  "call_fate_of r = (case r of Inr bs \<Rightarrow> Answered bs | Inl e \<Rightarrow> CallFailed e)"

definition serve_call ::
  "'h host_calls \<Rightarrow> ('h \<Rightarrow> bytes res \<times> 'h) \<Rightarrow> 'h exchange_state \<Rightarrow> bytes option res \<times> 'h exchange_state" where
  "serve_call api call st =
     (case granted api (ex_effects st) (ex_used st) of
        Inl e \<Rightarrow> (Inl e, st)
      | Inr (Inl e, u) \<Rightarrow> (Inr None, st\<lparr>ex_used := u, ex_log := ex_log st @ [Refused e]\<rparr>)
      | Inr (Inr host, u) \<Rightarrow>
          (case call host of (r, host) \<Rightarrow>
           case settle r u of (reply, u) \<Rightarrow>
             (Inr reply, st\<lparr>ex_effects := Some host, ex_used := u, ex_log := ex_log st @ [call_fate_of r]\<rparr>)))"

text \<open>One decoded frame: the outcome of the request, or the reply to a call.\<close>

definition serve_frame ::
  "'h host_calls \<Rightarrow> 64 word \<Rightarrow> 32 word \<Rightarrow> from_worker \<Rightarrow> 'h exchange_state
     \<Rightarrow> (outcome + bytes option) res \<times> 'h exchange_state" where
  "serve_frame api granted_fuel granted_calls m st =
     (case m of
        Done fuel_left calls_left r \<Rightarrow>
          (Inr (Inl r), st\<lparr>ex_used := (ex_used st)
             \<lparr>us_fuel_left := min fuel_left granted_fuel,
              us_calls_left := min (min calls_left (us_calls_left (ex_used st))) granted_calls\<rparr>\<rparr>)
      | Invoke operation target \<Rightarrow>
          map_prod (map_sum (\<lambda>e. e) Inr) (\<lambda>st. st) (serve_call api (hc_invoke api operation target) st)
      | Follow operation \<Rightarrow>
          map_prod (map_sum (\<lambda>e. e) Inr) (\<lambda>st. st) (serve_call api (hc_follow api operation) st)
      | FollowSource resource n \<Rightarrow>
          map_prod (map_sum (\<lambda>e. e) Inr) (\<lambda>st. st)
            (serve_call api (\<lambda>host. map_prod (map_sum (\<lambda>e. e) (\<lambda>_. [])) (\<lambda>host. host) (hc_follow_source api resource n host)) st))"

definition reply_frame :: "bytes option \<Rightarrow> bytes res" where
  "reply_frame reply = and_then (to_encode (Reply reply)) send_frame"

fun exchange_loop ::
  "'h host_calls \<Rightarrow> 64 word \<Rightarrow> 32 word \<Rightarrow> nat \<Rightarrow> bytes \<Rightarrow> 'h exchange_state \<Rightarrow> outcome res \<times> 'h exchange_state" where
  "exchange_loop api granted_fuel granted_calls writes inbound st =
     (case and_then (receive_frame inbound) (\<lambda>(frame, rest). and_then (from_decode frame) (\<lambda>m. Inr (m, rest))) of
        Inl e \<Rightarrow> (Inl e, st)
      | Inr (m, rest) \<Rightarrow>
          (case serve_frame api granted_fuel granted_calls m st of
             (Inl e, st) \<Rightarrow> (Inl e, st)
           | (Inr (Inl r), st) \<Rightarrow> (Inr r, st)
           | (Inr (Inr reply), st) \<Rightarrow>
               (case reply_frame reply of
                  Inl e \<Rightarrow> (Inl e, st)
                | Inr w \<Rightarrow>
                    (case writes of
                       0 \<Rightarrow> (Inl ''broken pipe'', st)
                     | Suc n \<Rightarrow> exchange_loop api granted_fuel granted_calls n rest (st\<lparr>ex_sent := ex_sent st @ w\<rparr>)))))"

declare exchange_loop.simps [simp del]

definition run_frame :: "used \<Rightarrow> 64 word \<Rightarrow> bytes \<Rightarrow> bytes res" where
  "run_frame u wall_millis request =
     and_then (to_encode (Run (us_fuel_left u) (us_calls_left u) wall_millis request)) send_frame"

text \<open>The exchange, with the worker as it leaves it: its socket is taken out and put back with \<open>Done\<close>.\<close>

definition exchange ::
  "'h host_calls \<Rightarrow> bytes res \<Rightarrow> 64 word \<Rightarrow> nat \<Rightarrow> bytes \<Rightarrow> worker \<Rightarrow> 'h exchange_state
     \<Rightarrow> outcome res \<times> worker \<times> 'h exchange_state" where
  "exchange api request wall_millis writes inbound w st =
     (case and_then request (\<lambda>r. ensure (length r \<le> MAX_REQUEST_BYTES) ''request limit'' (Inr r)) of
        Inl e \<Rightarrow> (Inl e, w, st)
      | Inr r \<Rightarrow>
          if \<not> wk_stream w then (Inl ''worker socket missing'', w, st)
          else case run_frame (ex_used st) wall_millis r of
            Inl e \<Rightarrow> (Inl e, w\<lparr>wk_stream := False\<rparr>, st)
          | Inr f \<Rightarrow>
              (case writes of
                 0 \<Rightarrow> (Inl ''broken pipe'', w\<lparr>wk_stream := False\<rparr>, st)
               | Suc n \<Rightarrow>
                   (case exchange_loop api (us_fuel_left (ex_used st)) (us_calls_left (ex_used st)) n inbound
                           (st\<lparr>ex_sent := ex_sent st @ f\<rparr>) of
                      (Inl e, st) \<Rightarrow> (Inl e, w\<lparr>wk_stream := False\<rparr>, st)
                    | (Inr r, st) \<Rightarrow> (Inr r, w, st))))"

datatype run_error = Busy guest_busy | RunError string

record ('h, 'r) attempt =
  at_result :: "run_error + 'r"
  at_effects :: "'h option"
  at_fuel_left :: "64 word"
  at_calls_left :: "32 word"

definition run_isolation :: "'h host_calls \<Rightarrow> 'h option \<Rightarrow> isolation" where
  "run_isolation api effects = (case effects of None \<Rightarrow> Shared [] | Some host \<Rightarrow> hc_isolation api host)"

definition run_result :: "(bytes \<Rightarrow> 'r res) \<Rightarrow> bool \<Rightarrow> outcome res \<Rightarrow> bool \<times> (run_error + 'r)" where
  "run_result decode_response elapsed r =
     (if elapsed then (False, Inl (Busy BusyDeadline))
      else case r of
        Inl e \<Rightarrow> (False, Inl (RunError e))
      | Inr (Output bs) \<Rightarrow> (True, map_sum RunError (\<lambda>v. v) (decode_response bs))
      | Inr Deadline \<Rightarrow> (True, Inl (Busy BusyDeadline))
      | Inr GuestFailed \<Rightarrow> (True, Inl (RunError ''guest failed'')))"

text \<open>\<open>GuestPool::run\<close> from the moment a worker is checked out: the attempt, the exchange's final state
  and the pool with the worker parked or replaced.\<close>

definition run_checked_out ::
  "'h host_calls \<Rightarrow> (bytes \<Rightarrow> 'r res) \<Rightarrow> bytes res \<Rightarrow> 'h option \<Rightarrow> 64 word \<Rightarrow> 32 word \<Rightarrow> 64 word \<Rightarrow> nat \<Rightarrow> bytes \<Rightarrow> bool
     \<Rightarrow> worker \<Rightarrow> pool \<Rightarrow> ('h, 'r) attempt \<times> 'h exchange_state \<times> pool" where
  "run_checked_out api decode_response request effects fuel calls wall_millis writes inbound elapsed w p =
     (case exchange api request wall_millis writes inbound w
             \<lparr>ex_effects = effects, ex_used = \<lparr>us_fuel_left = fuel, us_calls_left = calls, us_failure = None\<rparr>,
              ex_log = [], ex_sent = []\<rparr> of
        (r, _, st) \<Rightarrow>
          (case run_result decode_response elapsed r of
             (reusable, result) \<Rightarrow>
               (\<lparr>at_result = (case us_failure (ex_used st) of Some e \<Rightarrow> Inl (RunError e) | None \<Rightarrow> result),
                 at_effects = ex_effects st, at_fuel_left = us_fuel_left (ex_used st),
                 at_calls_left = us_calls_left (ex_used st)\<rparr>,
                st, finish_run w (run_isolation api effects) reusable p)))"

section \<open>The exchange keeps within its grant\<close>

fun log_failure :: "call_fate list \<Rightarrow> string option" where
  "log_failure [] = None"
| "log_failure (Answered _ # log) = log_failure log"
| "log_failure (CallFailed e # _) = Some e"
| "log_failure (Refused e # _) = Some e"

definition fate_frame :: "call_fate \<Rightarrow> bytes" where
  "fate_frame c = (case reply_frame (case c of Answered bs \<Rightarrow> Some bs | _ \<Rightarrow> None) of Inr w \<Rightarrow> w | Inl _ \<Rightarrow> [])"

text \<open>The state at the head of the loop, and at any return from it, after a grant of \<open>gf\<close> and \<open>gc\<close>
  announced in the frame \<open>f\<close>.\<close>

definition at_head :: "64 word \<Rightarrow> 32 word \<Rightarrow> bytes \<Rightarrow> 'h exchange_state \<Rightarrow> bool" where
  "at_head gf gc f st \<longleftrightarrow>
     us_fuel_left (ex_used st) = gf \<and> unat (us_calls_left (ex_used st)) + length (ex_log st) = unat gc
   \<and> us_failure (ex_used st) = log_failure (ex_log st) \<and> ex_sent st = f @ concat (map fate_frame (ex_log st))"

definition within_grant :: "64 word \<Rightarrow> 32 word \<Rightarrow> bytes \<Rightarrow> 'h exchange_state \<Rightarrow> bool" where
  "within_grant gf gc f st \<longleftrightarrow>
     us_fuel_left (ex_used st) \<le> gf \<and> unat (us_calls_left (ex_used st)) + length (ex_log st) \<le> unat gc
   \<and> us_failure (ex_used st) = log_failure (ex_log st) \<and> prefix (ex_sent st) (f @ concat (map fate_frame (ex_log st)))"

lemma log_failure_append: "log_failure (xs @ ys) = (case log_failure xs of None \<Rightarrow> log_failure ys | Some e \<Rightarrow> Some e)"
  by (induction xs rule: log_failure.induct) auto

lemma at_head_within: "at_head gf gc f st \<Longrightarrow> within_grant gf gc f st"
  by (simp add: at_head_def within_grant_def)

lemma keep_failure_sel [simp]:
  "us_fuel_left (keep_failure e u) = us_fuel_left u" "us_calls_left (keep_failure e u) = us_calls_left u"
  "us_failure (keep_failure e u) = (case us_failure u of None \<Rightarrow> Some e | Some e' \<Rightarrow> Some e')"
  by (simp_all add: keep_failure_def split: option.splits)

lemma unat_pred: "(w :: 32 word) \<noteq> 0 \<Longrightarrow> Suc (unat (w - 1) + n) = unat w + n"
  using unat_minus_one [of w] unat_gt_0 [of w] by simp

text \<open>A call within the budget adds one entry to the log, and nothing has been sent for it yet.\<close>

lemma serve_call_head:
  assumes "serve_call api call st = (Inr reply, st')" and "at_head gf gc f st"
  shows "\<exists>c. ex_log st' = ex_log st @ [c] \<and> reply = (case c of Answered bs \<Rightarrow> Some bs | _ \<Rightarrow> None)
     \<and> within_grant gf gc f st' \<and> at_head gf gc f (st'\<lparr>ex_sent := ex_sent st' @ fate_frame c\<rparr>)"
  using assms
  by (auto simp: serve_call_def granted_def settle_def call_fate_of_def Let_def at_head_def within_grant_def log_failure_append
      unat_pred split: if_splits option.splits sum.splits prod.splits)

lemma serve_call_error: "serve_call api call st = (Inl e, st') \<Longrightarrow> st' = st"
  by (auto simp: serve_call_def split: sum.splits prod.splits)

lemma serve_frame_call:
  assumes "serve_frame api gf gc m st = (Inr (Inr reply), st')"
  shows "\<exists>call. serve_call api call st = (Inr reply, st')"
  using assms by (cases m) (auto simp: serve_frame_def map_prod_def map_sum_def split: prod.splits sum.splits)

lemma serve_frame_error: "serve_frame api gf gc m st = (Inl e, st') \<Longrightarrow> st' = st"
  by (cases m) (auto simp: serve_frame_def map_prod_def map_sum_def dest: serve_call_error split: prod.splits sum.splits)

lemma serve_frame_done:
  assumes "serve_frame api gf gc m st = (Inr (Inl r), st')" and "at_head gf gc f st"
  shows "within_grant gf gc f st'"
  using assms
  by (cases m) (auto simp: serve_frame_def at_head_def within_grant_def map_prod_def map_sum_def word_le_nat_alt min_def
      split: prod.splits sum.splits)

lemma exchange_loop_within:
  "at_head gf gc f st \<Longrightarrow> within_grant gf gc f (snd (exchange_loop api gf gc writes inbound st))"
proof (induction writes arbitrary: inbound st)
  case (0 inbound st)
  then show ?case
    by (subst exchange_loop.simps) (auto intro: at_head_within dest: serve_frame_error serve_frame_done
        dest!: serve_frame_call dest: serve_call_head split: sum.splits prod.splits)
next
  case (Suc n inbound st)
  have "within_grant gf gc f (snd (exchange_loop api gf gc n rest (st'\<lparr>ex_sent := ex_sent st' @ w\<rparr>)))"
    if r: "serve_frame api gf gc m st = (Inr (Inr reply), st')" "reply_frame reply = Inr w" for m reply st' w rest
  proof -
    obtain c where "reply = (case c of Answered bs \<Rightarrow> Some bs | _ \<Rightarrow> None)"
        "at_head gf gc f (st'\<lparr>ex_sent := ex_sent st' @ fate_frame c\<rparr>)"
      using serve_frame_call [OF r(1)] serve_call_head Suc.prems by blast
    then show ?thesis using r(2) Suc.IH by (simp add: fate_frame_def)
  qed
  then show ?case using Suc.prems
    by (subst exchange_loop.simps) (auto intro: at_head_within dest: serve_frame_error serve_frame_done
        dest!: serve_frame_call dest: serve_call_head split: sum.splits prod.splits)
qed

lemma exchange_within:
  assumes e: "exchange api request wall writes inbound w st = (r, w', st')"
    and s: "ex_log st = []" "us_failure (ex_used st) = None" "ex_sent st = []"
  shows "st' = st \<or> (\<exists>bs f. request = Inr bs \<and> run_frame (ex_used st) wall bs = Inr f
     \<and> within_grant (us_fuel_left (ex_used st)) (us_calls_left (ex_used st)) f st')"
proof -
  let ?loop = "\<lambda>n g. exchange_loop api (us_fuel_left (ex_used st)) (us_calls_left (ex_used st)) n inbound (st\<lparr>ex_sent := ex_sent st @ g\<rparr>)"
  have "within_grant (us_fuel_left (ex_used st)) (us_calls_left (ex_used st)) g (snd (?loop n g))" for g n
    by (rule exchange_loop_within) (use s in \<open>simp add: at_head_def\<close>)
  moreover have "st' = st \<or> (\<exists>bs f n. request = Inr bs \<and> run_frame (ex_used st) wall bs = Inr f \<and> st' = snd (?loop n f))"
    using e by (auto simp: exchange_def res_simps split: sum.splits if_splits nat.splits prod.splits; metis snd_conv)
  ultimately show ?thesis by blast
qed

text \<open>Only an exchange that ended with \<open>Done\<close> leaves the worker its socket, so a parked worker has one.\<close>

lemma exchange_stream: "exchange api request wall writes inbound w st = (Inr r, w', st') \<Longrightarrow> w' = w \<and> wk_stream w"
  by (auto simp: exchange_def split: sum.splits if_splits nat.splits prod.splits)

text \<open>C25: an untrusted worker stays within the request's grant.  Whatever bytes a worker writes and
  whenever the deadline or its socket cuts it off, the request ends with at most the fuel it was granted
  and every storage call it made, refused ones included, is paid for out of its granted calls; the first
  call that failed or was refused decides the result, whatever the worker reports; the worker is sent
  the request and the answers of its calls and nothing else, a failed or refused call being answered
  alike without a reason; and the pool stays in a reachable state.\<close>

theorem run_within_grant:
  assumes "run_checked_out api decode_response request effects fuel calls wall writes inbound elapsed w p = (a, st, p')"
  shows "at_fuel_left a \<le> fuel \<and> unat (at_calls_left a) + length (ex_log st) \<le> unat calls
    \<and> (\<forall>e. log_failure (ex_log st) = Some e \<longrightarrow> at_result a = Inl (RunError e))
    \<and> (ex_sent st = [] \<or> (\<exists>bs f. request = Inr bs
         \<and> run_frame \<lparr>us_fuel_left = fuel, us_calls_left = calls, us_failure = None\<rparr> wall bs = Inr f
         \<and> prefix (ex_sent st) (f @ concat (map fate_frame (ex_log st)))))
    \<and> (pool_reach p \<and> (w, run_isolation api effects) \<in> set (gp_busy p) \<longrightarrow> pool_reach p')"
proof -
  let ?st = "\<lparr>ex_effects = effects, ex_used = \<lparr>us_fuel_left = fuel, us_calls_left = calls, us_failure = None\<rparr>,
              ex_log = [], ex_sent = []\<rparr>"
  obtain r w' reusable where e: "exchange api request wall writes inbound w ?st = (r, w', st)"
    and a: "at_fuel_left a = us_fuel_left (ex_used st)" "at_calls_left a = us_calls_left (ex_used st)"
      "\<And>e. us_failure (ex_used st) = Some e \<Longrightarrow> at_result a = Inl (RunError e)"
    and p': "p' = finish_run w (run_isolation api effects) reusable p"
    using assms by (auto simp: run_checked_out_def split: prod.splits)
  have "st = ?st \<or> (\<exists>bs f. request = Inr bs \<and> run_frame (ex_used ?st) wall bs = Inr f \<and> within_grant fuel calls f st)"
    using exchange_within [OF e] by simp
  moreover have "pool_reach p \<and> (w, run_isolation api effects) \<in> set (gp_busy p) \<longrightarrow> pool_reach p'"
    using p' reach_finish by auto
  ultimately show ?thesis using a by (auto simp: within_grant_def)
qed

definition deny_host :: "unit host_calls" where
  "deny_host = \<lparr>hc_isolation = (\<lambda>_. SingleUse), hc_storage_allowed = (\<lambda>_. False), hc_invoke = (\<lambda>_ _ h. (Inr [], h)),
       hc_follow_source = (\<lambda>_ _ h. (Inr (), h)), hc_follow = (\<lambda>_ h. (Inr [], h))\<rparr>"

lemma receive_message:
  assumes "from_encode m = Inr f"
  shows "and_then (receive_frame (u32_bytes (word_of_nat (length f)) @ f @ rest))
     (\<lambda>(frame, rest). and_then (from_decode frame) (\<lambda>m. Inr (m, rest))) = Inr (m, rest)"
proof -
  have "send_frame f = Inr (u32_bytes (word_of_nat (length f)) @ f)"
    using from_encode_length [OF assms] by (simp add: send_frame_def)
  then show ?thesis using receive_send [of f _ rest] from_encode_Inr [OF assms] by simp
qed

definition demo_pool :: pool where
  "demo_pool = \<lparr>gp_idle = [], gp_closed = False, gp_live = 1, gp_starting = 0, gp_started = 1, gp_retire_after = 3,
     gp_concurrency = 1, gp_broker = True, gp_busy = [(new_worker 1, SingleUse)], gp_inflight = 0, gp_dropped = 0,
     gp_history = (\<lambda>n. if n = 1 then [SingleUse] else []), gp_ids = {1}\<rparr>"

theorem run_within_grant_witness:
  "\<exists>a st p'. run_checked_out deny_host Inr (Inr ''{}'') (Some ()) 10 1 100 2
      (u32_bytes 5 @ (CHR 0x03 # u32_bytes 7) @ u32_bytes 13 @ (CHR 0x05 # u64_bytes 99 @ u32_bytes 99) @ [])
      False (new_worker 1) demo_pool = (a, st, p')
    \<and> ex_log st = [Refused ''storage import during action''] \<and> at_fuel_left a \<le> 10 \<and> at_calls_left a = 0
    \<and> at_result a = Inl (RunError ''storage import during action'')"
proof -
  let ?rest = "u32_bytes 13 @ (CHR 0x05 # u64_bytes 99 @ u32_bytes 99) @ []"
  let ?in = "u32_bytes 5 @ (CHR 0x03 # u32_bytes 7) @ ?rest"
  let ?run = "run_checked_out deny_host Inr (Inr ''{}'') (Some ()) 10 1 100 2 ?in False (new_worker 1) demo_pool"
  have deny: "hc_storage_allowed deny_host h = False" for h by (simp add: deny_host_def)
  have m1: "and_then (receive_frame ?in) (\<lambda>(frame, rest). and_then (from_decode frame) (\<lambda>m. Inr (m, rest))) = Inr (Follow 7, ?rest)"
    using receive_message [of "Follow 7" "CHR 0x03 # u32_bytes 7" ?rest] by (simp add: from_encode_def)
  have m2: "and_then (receive_frame ?rest) (\<lambda>(frame, rest). and_then (from_decode frame) (\<lambda>m. Inr (m, rest)))
      = Inr (Done 99 99 Deadline, [])"
    using receive_message [of "Done 99 99 Deadline" "CHR 0x05 # u64_bytes 99 @ u32_bytes 99" "[]"]
    by (simp add: from_encode_def outcome_tag_def)
  have l2: "ex_log (snd (exchange_loop deny_host f c n ?rest st)) = ex_log st" for f c n st
    by (subst exchange_loop.simps, subst m2) (simp add: serve_frame_def)
  have l1: "ex_log (snd (exchange_loop deny_host f c (Suc n) ?in st)) = ex_log st @ [Refused ''storage import during action'']"
    if "ex_effects st = Some ()" "us_calls_left (ex_used st) = 1" for f c n st
    by (subst exchange_loop.simps, subst m1)
      (simp add: serve_frame_def serve_call_def granted_def deny that reply_frame_def to_encode_def send_frame_def
        MAX_FRAME_def MAX_BODY_def MAX_RESULT_BYTES_def del: append.simps append_Nil2, simp add: l2 [simplified])
  have l0: "ex_log st' = ex_log st @ [Refused ''storage import during action'']"
    if "exchange_loop deny_host f c (Suc n) ?in st = (x, st')" "ex_effects st = Some ()" "us_calls_left (ex_used st) = 1"
    for f c n st x st'
    using l1 [OF that(2,3)] that(1) by (metis snd_conv)
  obtain a st p' where r: "?run = (a, st, p')" using prod_cases3 by blast
  have "ex_log (fst (snd ?run)) = [Refused ''storage import during action'']"
    using r
    by (auto simp: run_checked_out_def exchange_def run_frame_def to_encode_def send_frame_def MAX_REQUEST_BYTES_def
        MAX_FRAME_def MAX_BODY_def new_worker_def numeral_2_eq_2 dest!: l0 [simplified] split: prod.splits sum.splits)
  then have log: "ex_log st = [Refused ''storage import during action'']" using r by simp
  show ?thesis using r log run_within_grant [OF r] by (auto simp: unat_eq_zero)
qed

end
