(* ===== verification/Lifecycle_Clock.thy ===== *)
theory Lifecycle_Clock
  imports Lifecycle_Time
begin

text \<open>
  \<^verbatim>\<open>crates/noxide-store/src/lifecycle_clock.rs\<close>: the durable lifecycle clock, the credential clock
  with its rollback tolerance, and the freshness lease that lets requests use lifecycle time.

  The singleton row of \<open>nx_clock\<close> is a record of its three integer columns.  A transaction is serializable, so
  it works on the committed row; its commit is an argument: applied or not, and confirmed or not.  The
  process-wide \<open>AtomicI64\<close> is passed and returned.  Instants are nanoseconds.
\<close>

section \<open>Definitions\<close>

definition FRESHNESS_LIMIT :: instant where "FRESHNESS_LIMIT = 5000000000"
definition PUBLISHED_TICKS :: nat where "PUBLISHED_TICKS = 8"
definition CLOCK_ROLLBACK_TOLERANCE :: int where "CLOCK_ROLLBACK_TOLERANCE = 60"
definition CLOCK_PERSIST_LAG :: int where "CLOCK_PERSIST_LAG = 2"

record clock_row =
  cr_observed :: int
  cr_lifecycle_ms :: int
  cr_lifecycle_version :: int

record durable_clock =
  dc_watermark :: timestamp
  dc_version :: int

definition time_res :: "time_error + 'a \<Rightarrow> 'a res" where
  "time_res r = (case r of Inl _ \<Rightarrow> Inl ''invalid time'' | Inr a \<Rightarrow> Inr a)"

definition clock_read :: "clock_row option \<Rightarrow> durable_clock res" where
  "clock_read row =
     and_then (ok_or row ''lifecycle clock missing'') (\<lambda>r.
     and_then (time_res (from_unix_millis (cr_lifecycle_ms r))) (\<lambda>watermark.
     ensure (cr_lifecycle_version r \<ge> 0) ''invalid lifecycle version''
       (Inr \<lparr>dc_watermark = watermark, dc_version = cr_lifecycle_version r\<rparr>)))"

text \<open>The credential clock.  \<open>observe_clock\<close> is also given the row it updates.\<close>

definition observe_clock :: "clock_row option \<Rightarrow> int \<Rightarrow> (int \<times> clock_row option) res" where
  "observe_clock row now =
     and_then (ok_or row ''clock missing'') (\<lambda>r.
     ensure (now \<ge> 0 \<and> cr_observed r \<ge> 0) ''invalid clock''
     (ensure (saturating_sub_i64 (cr_observed r) now \<le> CLOCK_ROLLBACK_TOLERANCE) ''clock moved backwards beyond tolerance''
      (Inr (max now (cr_observed r),
            if now > cr_observed r \<and> cr_observed r < now then Some (r\<lparr>cr_observed := now\<rparr>) else Some r))))"

definition observe_clock_read :: "clock_row option \<Rightarrow> int \<Rightarrow> int \<Rightarrow> int res \<times> int" where
  "observe_clock_read row now memory =
     (case row of
        None \<Rightarrow> (Inl ''clock missing'', memory)
      | Some r \<Rightarrow>
          if \<not> (now \<ge> 0 \<and> cr_observed r \<ge> 0) then (Inl ''invalid clock'', memory)
          else let high = max (cr_observed r) memory in
            (ensure (saturating_sub_i64 high now \<le> CLOCK_ROLLBACK_TOLERANCE) ''clock moved backwards beyond tolerance''
               (Inr (max now high)),
             max memory now))"

definition observe_clock_bounded :: "clock_row option \<Rightarrow> int \<Rightarrow> int \<Rightarrow> (int \<times> clock_row option) res \<times> int" where
  "observe_clock_bounded row now memory =
     (case row of
        None \<Rightarrow> (Inl ''clock missing'', memory)
      | Some r \<Rightarrow>
          (case observe_clock_read row now memory of
             (Inl e, memory) \<Rightarrow> (Inl e, memory)
           | (Inr effective, memory) \<Rightarrow>
               (if saturating_sub_i64 effective (cr_observed r) > CLOCK_PERSIST_LAG
                then observe_clock row effective else Inr (effective, row), memory)))"

record committed_tick =
  ct_clock :: durable_clock
  ct_started :: instant
  ct_credential_seconds :: int

datatype commit_outcome = Confirmed | Unknown bool

text \<open>The transaction's last state of the row and its evidence, before the commit.\<close>

definition tick_update :: "clock_row option \<Rightarrow> int \<Rightarrow> timestamp \<Rightarrow> instant \<Rightarrow> (committed_tick \<times> clock_row option) res" where
  "tick_update row seconds wall started =
     and_then (observe_clock row seconds) (\<lambda>(seconds, row).
     and_then (time_res (from_unix_seconds seconds)) (\<lambda>_.
     and_then (clock_read row) (\<lambda>previous.
     and_then (ok_or (checked_add_i64 (dc_version previous) 1) ''lifecycle version exhausted'') (\<lambda>version.
     let watermark = max (dc_watermark previous) wall in
     case row of
       None \<Rightarrow> Inl ''concurrent lifecycle tick; retry maintenance''
     | Some r \<Rightarrow>
         ensure (cr_lifecycle_ms r = dc_watermark previous \<and> cr_lifecycle_version r = dc_version previous)
           ''concurrent lifecycle tick; retry maintenance''
           (Inr (\<lparr>ct_clock = \<lparr>dc_watermark = watermark, dc_version = version\<rparr>, ct_started = started,
                   ct_credential_seconds = seconds\<rparr>,
                 Some (r\<lparr>cr_lifecycle_ms := watermark, cr_lifecycle_version := version\<rparr>)))))))"

definition tick_sampled ::
  "commit_outcome \<Rightarrow> clock_row option \<Rightarrow> int \<Rightarrow> timestamp \<Rightarrow> instant \<Rightarrow> committed_tick res \<times> clock_row option \<times> int" where
  "tick_sampled commit row memory wall started =
     (case observe_clock_read row (unix_seconds_floor wall) memory of
        (Inl e, memory) \<Rightarrow> (Inl e, row, memory)
      | (Inr seconds, memory) \<Rightarrow>
          (case tick_update row seconds wall started of
             Inl e \<Rightarrow> (Inl e, row, memory)
           | Inr (tick, row') \<Rightarrow>
               (case commit of
                  Confirmed \<Rightarrow> (Inr tick, row', memory)
                | Unknown applied \<Rightarrow> (Inl ''commit failed'', if applied then row' else row, memory))))"

section \<open>The freshness lease\<close>

datatype temporal_unavailable = NotStarted | Stale | Inconsistent | Quarantined

record heartbeat =
  hb_clock :: durable_clock
  hb_started :: instant

record freshness =
  fr_quarantined :: bool
  fr_startup_complete :: bool
  fr_progress :: "heartbeat option"
  fr_fresh_since :: "instant option"
  fr_published :: "heartbeat list"

definition freshness_default :: freshness where
  "freshness_default = \<lparr>fr_quarantined = False, fr_startup_complete = False, fr_progress = None, fr_fresh_since = None,
     fr_published = []\<rparr>"

definition freshness_publish :: "heartbeat \<Rightarrow> freshness \<Rightarrow> freshness" where
  "freshness_publish h st =
     (let kept = (if length (fr_published st) = PUBLISHED_TICKS then tl (fr_published st) else fr_published st)
      in st\<lparr>fr_published := kept @ [h], fr_progress := Some h\<rparr>)"

definition recent :: "instant \<Rightarrow> instant \<Rightarrow> bool" where
  "recent started now \<longleftrightarrow> started \<le> now \<and> now - started < FRESHNESS_LIMIT"

definition validate_progress :: "freshness \<Rightarrow> durable_clock \<Rightarrow> instant \<Rightarrow> instant \<Rightarrow> temporal_unavailable + unit" where
  "validate_progress st clock started now =
     ensure (\<not> fr_quarantined st) Quarantined
     (ensure (recent started now) Stale
     (ensure (dc_version clock > 0) NotStarted
     (case fr_progress st of
        None \<Rightarrow> Inr ()
      | Some previous \<Rightarrow>
          ensure (started \<ge> hb_started previous \<and> dc_version clock \<ge> dc_version (hb_clock previous)
              \<and> dc_watermark clock \<ge> dc_watermark (hb_clock previous)
              \<and> (dc_version clock \<noteq> dc_version (hb_clock previous)
                 \<or> dc_watermark clock = dc_watermark (hb_clock previous)))
            Inconsistent (Inr ()))))"

definition quarantine :: "freshness \<Rightarrow> freshness" where
  "quarantine st = st\<lparr>fr_quarantined := True\<rparr>"

definition committed_at :: "freshness \<Rightarrow> committed_tick \<Rightarrow> instant \<Rightarrow> temporal_unavailable + freshness" where
  "committed_at st tick now =
     and_then (validate_progress st (ct_clock tick) (ct_started tick) now) (\<lambda>_.
     Inr (freshness_publish \<lparr>hb_clock = ct_clock tick, hb_started = ct_started tick\<rparr>
            (st\<lparr>fr_startup_complete := True, fr_fresh_since := Some (ct_started tick)\<rparr>)))"

definition observe_at :: "freshness \<Rightarrow> heartbeat \<Rightarrow> instant \<Rightarrow> temporal_unavailable + freshness" where
  "observe_at st h now =
     ensure (fr_startup_complete st) NotStarted
     (and_then (validate_progress st (hb_clock h) (hb_started h) now) (\<lambda>_.
      case fr_progress st of
        None \<Rightarrow> Inr (freshness_publish h st)
      | Some previous \<Rightarrow>
          if dc_version (hb_clock h) = dc_version (hb_clock previous) then Inr st
          else Inr (freshness_publish h
            (st\<lparr>fr_fresh_since := if recent (hb_started previous) now then Some (hb_started previous) else None\<rparr>))))"

definition attempt_at :: "freshness \<Rightarrow> durable_clock \<Rightarrow> instant \<Rightarrow> temporal_unavailable + timestamp" where
  "attempt_at st clock now =
     ensure (\<not> fr_quarantined st) Quarantined
     (and_then (ok_or (fr_fresh_since st) NotStarted) (\<lambda>since.
      ensure (recent since now) Stale
      (and_then (ok_or (fr_progress st) NotStarted) (\<lambda>progress.
       let current = dc_version clock \<ge> dc_version (hb_clock progress)
             \<and> dc_watermark clock \<ge> dc_watermark (hb_clock progress) \<and> dc_version clock > 0
             \<and> (dc_version clock \<noteq> dc_version (hb_clock progress) \<or> dc_watermark clock = dc_watermark (hb_clock progress));
           earlier = list_ex (\<lambda>tick. hb_clock tick = clock \<and> recent (hb_started tick) now) (fr_published st)
       in ensure (current \<or> earlier) Inconsistent (Inr (dc_watermark clock))))))"

section \<open>Credential time and the lifecycle watermark\<close>

lemma observe_clock_read_Inr:
  "observe_clock_read row now memory = (Inr t, memory') \<Longrightarrow>
     \<exists>r. row = Some r \<and> t = max now (max (cr_observed r) memory) \<and> memory' = max memory now \<and> 0 \<le> now"
  by (auto simp: observe_clock_read_def Let_def split: option.splits if_splits)

lemma observe_clock_read_memory: "observe_clock_read row now memory = (r, memory') \<Longrightarrow> memory \<le> memory'"
  by (auto simp: observe_clock_read_def Let_def split: option.splits if_splits)

lemma observe_clock_Inr:
  "observe_clock row now = Inr (t, row') \<Longrightarrow>
     \<exists>r. row = Some r \<and> t = max now (cr_observed r) \<and> row' = Some (r\<lparr>cr_observed := max now (cr_observed r)\<rparr>)"
  by (auto simp: observe_clock_def res_simps max_def split: if_splits)

lemma observe_clock_bounded_Inr:
  "observe_clock_bounded row now memory = (Inr (t, row'), memory') \<Longrightarrow>
     \<exists>r r'. row = Some r \<and> row' = Some r' \<and> t = max now (max (cr_observed r) memory) \<and> memory' = max memory now
       \<and> cr_observed r \<le> cr_observed r' \<and> cr_lifecycle_ms r' = cr_lifecycle_ms r
       \<and> cr_lifecycle_version r' = cr_lifecycle_version r"
  by (auto simp: observe_clock_bounded_def dest!: observe_clock_read_Inr observe_clock_Inr
      split: option.splits sum.splits prod.splits if_splits)

lemma observe_clock_bounded_memory: "observe_clock_bounded row now memory = (r, memory') \<Longrightarrow> memory \<le> memory'"
  by (auto simp: observe_clock_bounded_def dest: observe_clock_read_memory split: option.splits sum.splits prod.splits)

lemma tick_update_Inr:
  assumes "tick_update row seconds wall started = Inr (tick, row')"
  shows "\<exists>r r'. row = Some r \<and> row' = Some r' \<and> ct_credential_seconds tick = max seconds (cr_observed r)
     \<and> cr_observed r' = max seconds (cr_observed r) \<and> ct_started tick = started
     \<and> ct_clock tick = \<lparr>dc_watermark = max (cr_lifecycle_ms r) wall, dc_version = cr_lifecycle_version r + 1\<rparr>
     \<and> cr_lifecycle_ms r' = max (cr_lifecycle_ms r) wall \<and> cr_lifecycle_version r' = cr_lifecycle_version r + 1
     \<and> 0 \<le> cr_lifecycle_version r"
  using assms
  by (auto simp: tick_update_def clock_read_def time_res_def from_unix_millis_def res_simps Let_def
      dest!: observe_clock_Inr split: option.splits sum.splits if_splits)

text \<open>Every process of a deployment has a memory of its own and works on the one row.  The world also
  records each credential time handed out, with the process, and each lifecycle clock that was
  committed, whether or not the commit was confirmed.\<close>

record clock_world =
  cw_row :: "clock_row option"
  cw_memory :: "nat \<Rightarrow> int"
  cw_served :: "(nat \<times> int) list"
  cw_ticks :: "durable_clock list"

definition served_by :: "nat \<Rightarrow> clock_world \<Rightarrow> int list" where
  "served_by p w = map snd (filter (\<lambda>(q, _). q = p) (cw_served w))"

inductive clock_step :: "clock_world \<Rightarrow> clock_world \<Rightarrow> bool" where
  read: "observe_clock_read (cw_row w) now (cw_memory w p) = (r, memory) \<Longrightarrow>
     clock_step w (w\<lparr>cw_memory := (cw_memory w)(p := memory),
       cw_served := cw_served w @ (case r of Inr t \<Rightarrow> [(p, t)] | Inl _ \<Rightarrow> [])\<rparr>)"
| request: "observe_clock_bounded (cw_row w) now (cw_memory w p) = (Inr (t, row'), memory) \<Longrightarrow>
     clock_step w (w\<lparr>cw_row := if applied then row' else cw_row w, cw_memory := (cw_memory w)(p := memory),
       cw_served := cw_served w @ [(p, t)]\<rparr>)"
| request_refused: "observe_clock_bounded (cw_row w) now (cw_memory w p) = (Inl e, memory) \<Longrightarrow>
     clock_step w (w\<lparr>cw_memory := (cw_memory w)(p := memory)\<rparr>)"
| tick: "tick_sampled commit (cw_row w) (cw_memory w p) wall started = (r, row', memory) \<Longrightarrow>
     clock_step w (w\<lparr>cw_row := row', cw_memory := (cw_memory w)(p := memory),
       cw_served := cw_served w @ (case r of Inr t \<Rightarrow> [(p, ct_credential_seconds t)] | Inl _ \<Rightarrow> []),
       cw_ticks := cw_ticks w @ (case (row', cw_row w) of
         (Some r', Some r) \<Rightarrow> if cr_lifecycle_version r' \<noteq> cr_lifecycle_version r
           then [\<lparr>dc_watermark = cr_lifecycle_ms r', dc_version = cr_lifecycle_version r'\<rparr>] else []
       | _ \<Rightarrow> [])\<rparr>)"

inductive clock_reach :: "clock_world \<Rightarrow> bool" where
  start: "clock_reach \<lparr>cw_row = Some r, cw_memory = memory, cw_served = [], cw_ticks = []\<rparr>"
| step: "clock_reach w \<Longrightarrow> clock_step w w' \<Longrightarrow> clock_reach w'"

definition clock_inv :: "clock_world \<Rightarrow> bool" where
  "clock_inv w \<longleftrightarrow> (\<exists>r. cw_row w = Some r
     \<and> (\<forall>(p, t) \<in> set (cw_served w). t \<le> max (cr_observed r) (cw_memory w p))
     \<and> (\<forall>p. sorted (served_by p w))
     \<and> sorted_wrt (\<lambda>a b. dc_version a < dc_version b \<and> dc_watermark a \<le> dc_watermark b) (cw_ticks w)
     \<and> (\<forall>c \<in> set (cw_ticks w). dc_version c \<le> cr_lifecycle_version r \<and> dc_watermark c \<le> cr_lifecycle_ms r))"

text \<open>A step that only raises the row and the memory, and hands out no less than both.\<close>

lemma clock_inv_serve:
  assumes inv: "clock_inv w" and r: "cw_row w = Some r"
    and r': "cr_observed r \<le> cr_observed r'" "cr_lifecycle_ms r' = cr_lifecycle_ms r"
      "cr_lifecycle_version r' = cr_lifecycle_version r"
    and m: "cw_memory w p \<le> memory"
    and ts: "\<forall>t \<in> set ts. max (cr_observed r) (cw_memory w p) \<le> t \<and> t \<le> max (cr_observed r') memory" "sorted ts"
  shows "clock_inv (w\<lparr>cw_row := Some r', cw_memory := (cw_memory w)(p := memory), cw_served := cw_served w @ map (Pair p) ts\<rparr>)"
proof -
  have old: "\<forall>(q, t) \<in> set (cw_served w). t \<le> max (cr_observed r) (cw_memory w q)" "\<forall>q. sorted (served_by q w)"
    using inv r by (auto simp: clock_inv_def)
  let ?w = "w\<lparr>cw_row := Some r', cw_memory := (cw_memory w)(p := memory), cw_served := cw_served w @ map (Pair p) ts\<rparr>"
  have "served_by q ?w = served_by q w @ (if q = p then ts else [])" for q
    by (simp add: served_by_def filter_map comp_def)
  moreover have "\<forall>t \<in> set (served_by p w). t \<le> max (cr_observed r) (cw_memory w p)"
    using old(1) by (auto simp: served_by_def)
  ultimately have "\<forall>q. sorted (served_by q ?w)" using old(2) ts by (fastforce simp: sorted_append)
  moreover have "\<forall>(q, t) \<in> set (cw_served ?w). t \<le> max (cr_observed r') (cw_memory ?w q)"
    using old(1) r'(1) m ts(1) by fastforce
  ultimately show ?thesis using inv r r' by (auto simp: clock_inv_def)
qed

lemma clock_inv_commit:
  assumes "clock_inv w" and "cw_row w = Some r"
    and "cr_observed r' = cr_observed r" "cr_lifecycle_ms r \<le> cr_lifecycle_ms r'" "cr_lifecycle_version r' = cr_lifecycle_version r + 1"
  shows "clock_inv (w\<lparr>cw_row := Some r', cw_ticks := cw_ticks w
     @ [\<lparr>dc_watermark = cr_lifecycle_ms r', dc_version = cr_lifecycle_version r'\<rparr>]\<rparr>)"
  using assms by (fastforce simp: clock_inv_def sorted_wrt_append served_by_def)

lemma tick_sampled_cases:
  assumes "tick_sampled commit (Some r) memory wall started = (res, row', memory')"
  obtains (kept) "row' = Some r" "memory \<le> memory'" "\<And>t. res \<noteq> Inr t"
  | (moved) r' where "row' = Some r'" "memory \<le> memory'" "cr_observed r \<le> cr_observed r'"
      "cr_lifecycle_ms r \<le> cr_lifecycle_ms r'" "cr_lifecycle_version r' = cr_lifecycle_version r + 1"
      "\<And>t. res = Inr t \<Longrightarrow> max (cr_observed r) memory \<le> ct_credential_seconds t \<and> ct_credential_seconds t \<le> cr_observed r'"
proof (cases "observe_clock_read (Some r) (unix_seconds_floor wall) memory")
  case (Pair a m)
  show ?thesis
  proof (cases a)
    case (Inl e)
    then show ?thesis using assms Pair kept observe_clock_read_memory [OF Pair] by (auto simp: tick_sampled_def)
  next
    case (Inr seconds)
    then have sec: "max (cr_observed r) memory \<le> seconds" "memory \<le> m"
      using observe_clock_read_Inr Pair by fastforce+
    show ?thesis
    proof (cases "tick_update (Some r) seconds wall started")
      case (Inl e)
      then show ?thesis using assms Pair \<open>a = Inr seconds\<close> kept sec(2) by (auto simp: tick_sampled_def)
    next
      case t: (Inr tr)
      obtain tick row'' where tr: "tr = (tick, row'')" by (cases tr)
      have u: "\<exists>r'. row'' = Some r' \<and> ct_credential_seconds tick = max seconds (cr_observed r)
          \<and> cr_observed r' = max seconds (cr_observed r) \<and> cr_lifecycle_ms r' = max (cr_lifecycle_ms r) wall
          \<and> cr_lifecycle_version r' = cr_lifecycle_version r + 1"
        using tick_update_Inr [of "Some r" seconds wall started tick row''] t tr by auto
      show ?thesis
      proof (cases "commit = Unknown False")
        case True
        then show ?thesis using assms Pair \<open>a = Inr seconds\<close> t tr kept sec(2) by (auto simp: tick_sampled_def)
      next
        case False
        then have "row' = row''" "memory' = m" "res = Inr tick \<or> (\<exists>e. res = Inl e)"
          using assms Pair \<open>a = Inr seconds\<close> t tr by (auto simp: tick_sampled_def split: commit_outcome.splits)
        then show ?thesis using u sec moved by auto
      qed
    qed
  qed
qed

lemma clock_inv_step: "clock_step w w' \<Longrightarrow> clock_inv w \<Longrightarrow> clock_inv w'"
proof (induction rule: clock_step.induct)
  case (read w now p res memory)
  obtain r where r: "cw_row w = Some r" using read.prems by (auto simp: clock_inv_def)
  let ?ts = "case res of Inr t \<Rightarrow> [t] | Inl _ \<Rightarrow> []"
  have "clock_inv (w\<lparr>cw_row := Some r, cw_memory := (cw_memory w)(p := memory), cw_served := cw_served w @ map (Pair p) ?ts\<rparr>)"
    by (rule clock_inv_serve [OF read.prems r])
      (use read.hyps r observe_clock_read_memory in \<open>fastforce dest: observe_clock_read_Inr split: sum.splits\<close>)+
  moreover have "map (Pair p) ?ts = (case res of Inr t \<Rightarrow> [(p, t)] | Inl _ \<Rightarrow> [])" by (cases res) auto
  moreover have "w\<lparr>cw_row := Some r\<rparr> = w" using r by simp
  ultimately show ?case using r by simp
next
  case (request w now p t row' memory applied)
  obtain r r' where r: "cw_row w = Some r" "row' = Some r'" "t = max now (max (cr_observed r) (cw_memory w p))"
      "memory = max (cw_memory w p) now" "cr_observed r \<le> cr_observed r'" "cr_lifecycle_ms r' = cr_lifecycle_ms r"
      "cr_lifecycle_version r' = cr_lifecycle_version r"
    using observe_clock_bounded_Inr [OF request.hyps] by blast
  let ?r = "if applied then r' else r"
  have "clock_inv (w\<lparr>cw_row := Some ?r, cw_memory := (cw_memory w)(p := memory), cw_served := cw_served w @ map (Pair p) [t]\<rparr>)"
    by (rule clock_inv_serve [OF request.prems r(1)]) (use r in auto)
  then show ?case using r by (cases applied) simp_all
next
  case (request_refused w now p e memory)
  obtain r where r: "cw_row w = Some r" using request_refused.prems by (auto simp: clock_inv_def)
  have "clock_inv (w\<lparr>cw_row := Some r, cw_memory := (cw_memory w)(p := memory), cw_served := cw_served w @ map (Pair p) []\<rparr>)"
    by (rule clock_inv_serve [OF request_refused.prems r])
      (use observe_clock_bounded_memory [OF request_refused.hyps] in auto)
  then show ?case using r by (cases w) simp
next
  case (tick commit w p wall started res row' memory)
  obtain r where r: "cw_row w = Some r" using tick.prems by (auto simp: clock_inv_def)
  let ?ts = "case res of Inr t \<Rightarrow> [ct_credential_seconds t] | Inl _ \<Rightarrow> []"
  have ts: "map (Pair p) ?ts = (case res of Inr t \<Rightarrow> [(p, ct_credential_seconds t)] | Inl _ \<Rightarrow> [])" by (cases res) auto
  from tick.hyps [unfolded r] show ?case
  proof (cases rule: tick_sampled_cases)
    case kept
    then have "?ts = []" by (cases res) auto
    have "clock_inv (w\<lparr>cw_row := Some r, cw_memory := (cw_memory w)(p := memory), cw_served := cw_served w @ map (Pair p) []\<rparr>)"
      by (rule clock_inv_serve [OF tick.prems r]) (use kept in auto)
    then show ?thesis using kept r \<open>?ts = []\<close> by (cases res) simp_all
  next
    case (moved r')
    let ?r = "r\<lparr>cr_observed := cr_observed r'\<rparr>"
    let ?w = "w\<lparr>cw_row := Some ?r, cw_memory := (cw_memory w)(p := memory), cw_served := cw_served w @ map (Pair p) ?ts\<rparr>"
    have "clock_inv ?w"
      by (rule clock_inv_serve [OF tick.prems r]) (use moved in \<open>auto split: sum.splits\<close>)
    then have "clock_inv (?w\<lparr>cw_row := Some r', cw_ticks := cw_ticks ?w
        @ [\<lparr>dc_watermark = cr_lifecycle_ms r', dc_version = cr_lifecycle_version r'\<rparr>]\<rparr>)"
      by (rule clock_inv_commit [where r = ?r]) (use moved in auto)
    then show ?thesis using moved r ts by (cases w) simp
  qed
qed

lemma clock_reach_inv: "clock_reach w \<Longrightarrow> clock_inv w"
proof (induction rule: clock_reach.induct)
  case (start r memory)
  then show ?case by (simp add: clock_inv_def served_by_def)
qed (rule clock_inv_step)

text \<open>C29: time does not run backwards.  However the processes of a deployment interleave their requests,
  read-only observations and maintenance ticks, with any wall clocks, and whether or not a commit is
  confirmed: the credential times a process is handed never decrease; none exceeds what the persisted
  mark and that process's memory still hold it to; and the committed lifecycle clocks have strictly
  increasing versions and non-decreasing watermarks.\<close>

theorem clock_never_regresses:
  assumes "clock_reach w"
  shows "(\<forall>p. sorted (served_by p w))
    \<and> sorted_wrt (\<lambda>a b. dc_version a < dc_version b \<and> dc_watermark a \<le> dc_watermark b) (cw_ticks w)
    \<and> (\<exists>r. cw_row w = Some r \<and> (\<forall>(p, t) \<in> set (cw_served w). t \<le> max (cr_observed r) (cw_memory w p))
         \<and> (\<forall>c \<in> set (cw_ticks w). dc_version c \<le> cr_lifecycle_version r \<and> dc_watermark c \<le> cr_lifecycle_ms r))"
  using clock_reach_inv [OF assms] by (auto simp: clock_inv_def)

theorem clock_never_regresses_witness:
  "\<exists>w. clock_reach w \<and> cw_served w = [(0, 100), (0, 100)] \<and> sorted (served_by 0 w)
     \<and> cw_ticks w = [\<lparr>dc_watermark = 100000, dc_version = 1\<rparr>]"
proof -
  let ?r = "\<lparr>cr_observed = 0, cr_lifecycle_ms = 0, cr_lifecycle_version = 0\<rparr>"
  let ?r' = "\<lparr>cr_observed = 100, cr_lifecycle_ms = 100000, cr_lifecycle_version = 1\<rparr>"
  let ?w0 = "\<lparr>cw_row = Some ?r, cw_memory = (\<lambda>_. 0), cw_served = [], cw_ticks = []\<rparr>"
  let ?t = "\<lparr>ct_clock = \<lparr>dc_watermark = 100000, dc_version = 1\<rparr>, ct_started = 7, ct_credential_seconds = 100\<rparr>"
  let ?w1 = "\<lparr>cw_row = Some ?r', cw_memory = (\<lambda>_. 0)(0 := 100), cw_served = [(0, 100)],
     cw_ticks = [\<lparr>dc_watermark = 100000, dc_version = 1\<rparr>]\<rparr>"
  let ?w2 = "\<lparr>cw_row = Some ?r', cw_memory = (\<lambda>_. 0)(0 := 100), cw_served = [(0, 100), (0, 100)],
     cw_ticks = [\<lparr>dc_watermark = 100000, dc_version = 1\<rparr>]\<rparr>"
  have "tick_sampled Confirmed (Some ?r) 0 100000 7 = (Inr ?t, Some ?r', 100)"
    by (simp add: tick_sampled_def tick_update_def observe_clock_read_def observe_clock_def clock_read_def time_res_def
        time_defs CLOCK_ROLLBACK_TOLERANCE_def saturating_sub_i64_def checked_add_i64_def checked_mul_i64_def in_i64_def int_defs Let_def)
  then have "clock_step ?w0 ?w1" using clock_step.tick [of Confirmed ?w0 0 100000 7 "Inr ?t" "Some ?r'" 100] by simp
  then have r1: "clock_reach ?w1" by (rule clock_reach.step [OF clock_reach.start])
  have "observe_clock_read (Some ?r') 95 100 = (Inr 100, 100)"
    by (simp add: observe_clock_read_def CLOCK_ROLLBACK_TOLERANCE_def saturating_sub_i64_def int_defs Let_def)
  then have "clock_step ?w1 ?w2" using clock_step.read [of ?w1 95 0 "Inr 100" 100] by (simp add: fun_upd_idem)
  then have r2: "clock_reach ?w2" by (rule clock_reach.step [OF r1])
  have "sorted (served_by 0 ?w2)" using clock_never_regresses [OF r2] by blast
  then show ?thesis using r2 by (intro exI [of _ ?w2]) simp
qed

section \<open>Freshness\<close>

text \<open>What the lease may rely on: \<open>c v\<close> is the instant the tick with version \<open>v\<close> is committed, each version
  once.  A tick began before its commit, and a heartbeat before the commit of every version its snapshot
  missed; and either is delivered to the lease only after the commit of the version it carries.\<close>

definition honest_tick :: "(int \<Rightarrow> instant) \<Rightarrow> committed_tick \<Rightarrow> bool" where
  "honest_tick c t \<longleftrightarrow> (\<forall>v \<ge> dc_version (ct_clock t). ct_started t \<le> c v)"

definition honest_heartbeat :: "(int \<Rightarrow> instant) \<Rightarrow> heartbeat \<Rightarrow> bool" where
  "honest_heartbeat c h \<longleftrightarrow> (\<forall>v > dc_version (hb_clock h). hb_started h \<le> c v)"

text \<open>The states of one process at an instant of its monotonic clock, with everything it ever published.\<close>

inductive fresh_reach :: "(int \<Rightarrow> instant) \<Rightarrow> instant \<Rightarrow> freshness \<Rightarrow> heartbeat list \<Rightarrow> bool" for c where
  init: "fresh_reach c T freshness_default []"
| elapsed: "fresh_reach c T st hs \<Longrightarrow> T \<le> now \<Longrightarrow> fresh_reach c now st hs"
| quarantined: "fresh_reach c T st hs \<Longrightarrow> fresh_reach c T (quarantine st) hs"
| committed: "fresh_reach c now st hs \<Longrightarrow> honest_tick c t \<Longrightarrow> c (dc_version (ct_clock t)) \<le> now \<Longrightarrow>
     committed_at st t now = Inr st' \<Longrightarrow>
     fresh_reach c now st' (hs @ [\<lparr>hb_clock = ct_clock t, hb_started = ct_started t\<rparr>])"
| observed: "fresh_reach c now st hs \<Longrightarrow> honest_heartbeat c h \<Longrightarrow> c (dc_version (hb_clock h)) \<le> now \<Longrightarrow>
     observe_at st h now = Inr st' \<Longrightarrow>
     fresh_reach c now st' (if fr_progress st' = fr_progress st then hs else hs @ [h])"

definition hb_le :: "heartbeat \<Rightarrow> heartbeat \<Rightarrow> bool" where
  "hb_le a b \<longleftrightarrow> hb_started a \<le> hb_started b \<and> dc_version (hb_clock a) \<le> dc_version (hb_clock b)
     \<and> dc_watermark (hb_clock a) \<le> dc_watermark (hb_clock b)"

definition fresh_inv :: "(int \<Rightarrow> instant) \<Rightarrow> instant \<Rightarrow> freshness \<Rightarrow> heartbeat list \<Rightarrow> bool" where
  "fresh_inv c T st hs \<longleftrightarrow>
     (fr_progress st = (if hs = [] then None else Some (last hs)))
   \<and> (\<exists>old. hs = old @ fr_published st) \<and> (hs \<noteq> [] \<longrightarrow> fr_published st \<noteq> []) \<and> length (fr_published st) \<le> PUBLISHED_TICKS
   \<and> sorted_wrt hb_le hs \<and> (\<forall>h \<in> set hs. honest_heartbeat c h \<and> dc_version (hb_clock h) > 0
        \<and> c (dc_version (hb_clock h)) \<le> T)
   \<and> (\<forall>s. fr_fresh_since st = Some s \<longrightarrow> hs \<noteq> [] \<and> s \<le> c (dc_version (hb_clock (last hs))))"

lemma hb_le_trans: "hb_le a b \<Longrightarrow> hb_le b d \<Longrightarrow> hb_le a d"
  by (auto simp: hb_le_def)

lemma sorted_hb_snoc: "sorted_wrt hb_le hs \<Longrightarrow> (hs \<noteq> [] \<Longrightarrow> hb_le (last hs) h) \<Longrightarrow> sorted_wrt hb_le (hs @ [h])"
proof (cases hs rule: rev_cases)
  case (snoc xs x)
  assume "sorted_wrt hb_le hs" "hs \<noteq> [] \<Longrightarrow> hb_le (last hs) h"
  then show ?thesis using snoc by (auto simp: sorted_wrt_append intro: hb_le_trans)
qed simp

lemma validate_progress_Inr:
  "validate_progress st clock started now = Inr () \<Longrightarrow>
     recent started now \<and> dc_version clock > 0
   \<and> (\<forall>h. fr_progress st = Some h \<longrightarrow> hb_le h \<lparr>hb_clock = clock, hb_started = started\<rparr>)"
  by (auto simp: validate_progress_def hb_le_def split: if_splits option.splits)

text \<open>Publishing an observation keeps the invariant once its order and its lease are justified.\<close>

lemma fresh_inv_publish:
  assumes inv: "fresh_inv c T st hs" and h: "honest_heartbeat c h" "dc_version (hb_clock h) > 0"
      "c (dc_version (hb_clock h)) \<le> T"
    and le: "\<And>p. fr_progress st = Some p \<Longrightarrow> hb_le p h"
    and st': "fr_progress st' = fr_progress st" "fr_published st' = fr_published st"
    and s: "\<And>s. fr_fresh_since st' = Some s \<Longrightarrow> s \<le> c (dc_version (hb_clock h))"
  shows "fresh_inv c T (freshness_publish h st') (hs @ [h])"
proof -
  obtain old where old: "hs = old @ fr_published st" using inv by (auto simp: fresh_inv_def)
  have "fr_published (freshness_publish h st') = (if length (fr_published st) = PUBLISHED_TICKS then tl (fr_published st)
      else fr_published st) @ [h]"
    by (simp add: freshness_publish_def Let_def st')
  moreover have "\<exists>pre. hs = pre @ tl (fr_published st)"
    using old by (cases "fr_published st") (auto intro: exI [of _ "old @ [hd (fr_published st)]"])
  moreover have "length (fr_published st) \<le> PUBLISHED_TICKS" using inv by (simp add: fresh_inv_def)
  moreover have "sorted_wrt hb_le (hs @ [h])"
    by (rule sorted_hb_snoc) (use inv le in \<open>auto simp: fresh_inv_def\<close>)
  ultimately show ?thesis using inv h s old
    by (auto simp: fresh_inv_def freshness_publish_def Let_def PUBLISHED_TICKS_def)
qed

lemma fresh_reach_inv: "fresh_reach c T st hs \<Longrightarrow> fresh_inv c T st hs"
proof (induction rule: fresh_reach.induct)
  case init
  then show ?case by (simp add: fresh_inv_def freshness_default_def)
next
  case (elapsed T st hs now)
  then show ?case by (fastforce simp: fresh_inv_def)
next
  case (quarantined T st hs)
  then show ?case by (simp add: fresh_inv_def quarantine_def)
next
  case (committed now st hs t st')
  let ?h = "\<lparr>hb_clock = ct_clock t, hb_started = ct_started t\<rparr>"
  have v: "validate_progress st (ct_clock t) (ct_started t) now = Inr ()"
    and st': "st' = freshness_publish ?h (st\<lparr>fr_startup_complete := True, fr_fresh_since := Some (ct_started t)\<rparr>)"
    using committed.hyps(4) by (auto simp: committed_at_def res_simps)
  show ?case unfolding st'
    by (rule fresh_inv_publish [OF committed.IH])
      (use validate_progress_Inr [OF v] committed.hyps(2,3) in \<open>auto simp: honest_tick_def honest_heartbeat_def\<close>)
next
  case (observed now st hs h st')
  have v: "validate_progress st (hb_clock h) (hb_started h) now = Inr ()"
    using observed.hyps(4) by (auto simp: observe_at_def res_simps)
  have h: "\<lparr>hb_clock = hb_clock h, hb_started = hb_started h\<rparr> = h" by simp
  note valid = validate_progress_Inr [OF v, unfolded h]
  show ?case
  proof (cases "fr_progress st")
    case None
    then have "fr_fresh_since st = None"
      using observed.IH by (cases "fr_fresh_since st") (auto simp: fresh_inv_def split: if_splits)
    moreover have st': "st' = freshness_publish h st" using observed.hyps(4) None by (auto simp: observe_at_def res_simps)
    moreover have "fr_progress st' = Some h" unfolding st' by (simp add: freshness_publish_def Let_def)
    moreover have "fresh_inv c now (freshness_publish h st) (hs @ [h])"
      by (rule fresh_inv_publish [OF observed.IH]) (use valid observed.hyps(2,3) calculation(1) in auto)
    ultimately show ?thesis using None by simp
  next
    case (Some p)
    show ?thesis
    proof (cases "dc_version (hb_clock h) = dc_version (hb_clock p)")
      case True
      then have "st' = st" using observed.hyps(4) Some by (auto simp: observe_at_def res_simps)
      then show ?thesis using observed.IH by simp
    next
      case False
      let ?st = "st\<lparr>fr_fresh_since := if recent (hb_started p) now then Some (hb_started p) else None\<rparr>"
      have st': "st' = freshness_publish h ?st" using observed.hyps(4) Some False by (auto simp: observe_at_def res_simps)
      have "honest_heartbeat c p" using observed.IH Some by (auto simp: fresh_inv_def split: if_splits)
      moreover have "dc_version (hb_clock p) < dc_version (hb_clock h)" using valid Some False by (auto simp: hb_le_def)
      ultimately have "hb_started p \<le> c (dc_version (hb_clock h))" by (simp add: honest_heartbeat_def)
      then have "fresh_inv c now (freshness_publish h ?st) (hs @ [h])"
        by (intro fresh_inv_publish [OF observed.IH]) (use valid observed.hyps(2,3) in \<open>auto split: if_splits\<close>)
      moreover have "fr_progress st' = Some h" unfolding st' by (simp add: freshness_publish_def Let_def)
      ultimately show ?thesis using Some False unfolding st' by auto
    qed
  qed
qed

text \<open>C30: a request is given lifecycle time only on recent evidence.  In every state a process reaches by
  confirmed ticks, heartbeats and the passing of time, a granted attempt shows that the process has
  published a tick and that the latest one it published was committed at or before now and less than the
  freshness limit ago; rereading the same version, however often, does not extend this.  Further the
  process is not quarantined, and the time is the watermark read, not below the watermark of any tick the
  process has published since before that window, so a restored or lagging database read by the attempt
  can set lifecycle time back at most to a clock of the last five seconds.  What ticks and heartbeats are
  trusted for is that each version is committed once, after the tick that made it began and before it is
  reported, and after the start of every read that missed it.\<close>

theorem freshness_sound:
  assumes "fresh_reach c now st hs" and "attempt_at st clock now = Inr t"
  shows "t = dc_watermark clock \<and> \<not> fr_quarantined st
    \<and> hs \<noteq> [] \<and> dc_version (hb_clock (last hs)) > 0
    \<and> c (dc_version (hb_clock (last hs))) \<le> now \<and> now < c (dc_version (hb_clock (last hs))) + FRESHNESS_LIMIT
    \<and> (\<forall>h \<in> set hs. hb_started h + FRESHNESS_LIMIT \<le> now \<longrightarrow> dc_watermark (hb_clock h) \<le> t)"
proof -
  have inv: "fresh_inv c now st hs" using assms(1) by (rule fresh_reach_inv)
  obtain since p where since: "fr_fresh_since st = Some since" "recent since now" and p: "fr_progress st = Some p"
    and t: "t = dc_watermark clock" "\<not> fr_quarantined st"
    and cases: "dc_watermark (hb_clock p) \<le> dc_watermark clock
        \<or> (\<exists>tick \<in> set (fr_published st). hb_clock tick = clock \<and> recent (hb_started tick) now)"
    using assms(2) by (auto simp: attempt_at_def res_simps Let_def list_ex_iff split: if_splits)
  have hs: "hs \<noteq> []" "p = last hs" "since \<le> c (dc_version (hb_clock (last hs)))" and sub: "set (fr_published st) \<subseteq> set hs"
    and order: "sorted_wrt hb_le hs" and pos: "dc_version (hb_clock (last hs)) > 0"
      "c (dc_version (hb_clock (last hs))) \<le> now"
    using inv since(1) p by (auto simp: fresh_inv_def split: if_splits)
  have "now < c (dc_version (hb_clock (last hs))) + FRESHNESS_LIMIT"
    using hs(3) since(2) by (auto simp: recent_def)
  moreover have "dc_watermark (hb_clock h) \<le> dc_watermark clock"
    if h: "h \<in> set hs" "hb_started h + FRESHNESS_LIMIT \<le> now" for h
  proof -
    have le_last: "dc_watermark (hb_clock h) \<le> dc_watermark (hb_clock p)"
    proof -
      obtain xs where "hs = xs @ [p]" using hs(1,2) by (metis append_butlast_last_id)
      then show ?thesis using h(1) order by (auto simp: sorted_wrt_append hb_le_def)
    qed
    have "dc_watermark (hb_clock h) \<le> dc_watermark (hb_clock tick)"
      if tick: "tick \<in> set hs" "recent (hb_started tick) now" for tick
    proof -
      have less: "hb_started h < hb_started tick" using h(2) tick(2) by (auto simp: recent_def)
      obtain i j where ij: "i < length hs" "hs ! i = h" "j < length hs" "hs ! j = tick"
        using h(1) tick(1) by (auto simp: in_set_conv_nth)
      have "i < j"
      proof (rule ccontr)
        assume "\<not> i < j"
        then have "hb_started tick \<le> hb_started h"
          using order ij sorted_wrt_nth_less [OF order, of j i] by (cases "i = j") (auto simp: hb_le_def)
        then show False using less by simp
      qed
      then show ?thesis using sorted_wrt_nth_less [OF order, of i j] ij by (simp add: hb_le_def)
    qed
    then show ?thesis using cases le_last sub by auto
  qed
  ultimately show ?thesis using t pos hs(1) by blast
qed

theorem freshness_sound_witness:
  "\<exists>st hs. fresh_reach (\<lambda>_. 10) 20 st hs \<and> attempt_at st \<lparr>dc_watermark = 500, dc_version = 1\<rparr> 20 = Inr 500
     \<and> hs \<noteq> [] \<and> 10 \<le> (20 :: nat) \<and> 20 < 10 + FRESHNESS_LIMIT"
proof -
  let ?t = "\<lparr>ct_clock = \<lparr>dc_watermark = 500, dc_version = 1\<rparr>, ct_started = 7, ct_credential_seconds = 0\<rparr>"
  let ?h = "\<lparr>hb_clock = \<lparr>dc_watermark = 500, dc_version = 1\<rparr>, hb_started = 7\<rparr>"
  let ?st = "\<lparr>fr_quarantined = False, fr_startup_complete = True, fr_progress = Some ?h, fr_fresh_since = Some 7,
      fr_published = [?h]\<rparr>"
  have "committed_at freshness_default ?t 12 = Inr ?st"
    by (simp add: committed_at_def validate_progress_def freshness_default_def recent_def FRESHNESS_LIMIT_def
        freshness_publish_def PUBLISHED_TICKS_def Let_def)
  then have "fresh_reach (\<lambda>_. 10) 12 ?st ([] @ [?h])"
    using fresh_reach.committed [OF fresh_reach.init, of "\<lambda>_. 10" ?t 12 ?st] by (simp add: honest_tick_def)
  then have r: "fresh_reach (\<lambda>_. 10) 20 ?st ([] @ [?h])" by (rule fresh_reach.elapsed) simp
  have a: "attempt_at ?st \<lparr>dc_watermark = 500, dc_version = 1\<rparr> 20 = Inr 500"
    by (simp add: attempt_at_def recent_def FRESHNESS_LIMIT_def Let_def)
  show ?thesis using freshness_sound [OF r a] r a by blast
qed

end
