(* ===== verification/Html.thy ===== *)
theory Html
  imports Contract
begin

text \<open>
  The output side of \<^verbatim>\<open>crates/noxide-render/src/lib.rs\<close>: the bounded buffer with its escaped
  text, and the reference for what a page may be.

  A writer is a function from the bytes written so far to the bytes after it, or an error; \<open>emit\<close> runs
  writers one after the other, stopping at the first error, as \<open>?\<close> does after each call.

  \<open>scan\<close> is the specification: a strict acceptor for the HTML the host means to produce.  It knows the
  open elements, and accepts only the listed elements and attributes, double-quoted values, matching
  end tags, and same-origin values of the attributes a browser follows.  \<open>emits\<close> is a Hoare triple
  over it: whenever a writer succeeds, what it wrote takes the acceptor from one mode to the other,
  whatever elements were open around it.
\<close>

section \<open>The buffer\<close>

definition MAX_OUTPUT_BYTES :: nat where "MAX_OUTPUT_BYTES = 262144"

type_synonym writer = "bytes \<Rightarrow> bytes res"

text \<open>Two buffers use this code, each with the messages of its own limits.\<close>

definition push_with :: "string \<Rightarrow> string \<Rightarrow> writer" where
  "push_with limit s out = ensure (length out + length s \<le> MAX_OUTPUT_BYTES) limit (Inr (out @ s))"

definition escape_char :: "char \<Rightarrow> string" where
  "escape_char c =
     (if c = CHR ''&'' then ''&amp;''
      else if c = CHR ''<'' then ''&lt;''
      else if c = CHR ''>'' then ''&gt;''
      else if c = CHR 0x22 then ''&quot;''
      else if c = CHR 0x27 then ''&#39;''
      else [c])"

text \<open>\<open>chars().any(|c| c.is_control() \&\& !matches!(c, '\n' | '\r' | '\t'))\<close>.\<close>

fun has_control_rt :: "string \<Rightarrow> bool" where
  "has_control_rt [] = False"
| "has_control_rt (a # s) =
     (((of_char a :: nat) < 32 \<and> a \<noteq> LF \<and> a \<noteq> CR \<and> a \<noteq> TAB) \<or> (of_char a :: nat) = 127
      \<or> (of_char a :: nat) = 194 \<and> s \<noteq> [] \<and> 128 \<le> (of_char (hd s) :: nat) \<and> (of_char (hd s) :: nat) \<le> 159
      \<or> has_control_rt s)"

fun push_chars :: "string \<Rightarrow> string \<Rightarrow> writer" where
  "push_chars limit [] out = Inr out"
| "push_chars limit (c # cs) out = and_then (push_with limit (escape_char c) out) (push_chars limit cs)"

definition text_with :: "string \<Rightarrow> string \<Rightarrow> string \<Rightarrow> writer" where
  "text_with limit invalid s out = ensure (\<not> has_control_rt s) invalid (push_chars limit s out)"

definition push :: "string \<Rightarrow> writer" where
  "push = push_with ''response limit''"

definition push_text :: "string \<Rightarrow> writer" where
  "push_text = text_with ''response limit'' ''invalid text''"

fun emit :: "writer list \<Rightarrow> writer" where
  "emit [] out = Inr out"
| "emit (f # fs) out = and_then (f out) (emit fs)"

text \<open>A run of \<open>push\<close> (\<open>L\<close>) and \<open>text\<close> (\<open>T\<close>) calls.\<close>

datatype piece = L string | T string

fun piece_writer :: "string \<Rightarrow> string \<Rightarrow> piece \<Rightarrow> writer" where
  "piece_writer limit invalid (L s) = push_with limit s"
| "piece_writer limit invalid (T s) = text_with limit invalid s"

definition line_with :: "string \<Rightarrow> string \<Rightarrow> piece list \<Rightarrow> writer" where
  "line_with limit invalid ps = emit (map (piece_writer limit invalid) ps)"

definition line :: "piece list \<Rightarrow> writer" where
  "line = line_with ''response limit'' ''invalid text''"

definition check :: "bool \<Rightarrow> string \<Rightarrow> writer" where
  "check c e out = ensure c e (Inr out)"

definition with_value :: "'a res \<Rightarrow> ('a \<Rightarrow> writer) \<Rightarrow> writer" where
  "with_value r f out = and_then r (\<lambda>a. f a out)"

section \<open>Escaping is reversible\<close>

definition escape :: "string \<Rightarrow> string" where
  "escape s = concat (map escape_char s)"

fun unescape :: "string \<Rightarrow> string" where
  "unescape [] = []"
| "unescape (c # s) =
     (if c \<noteq> CHR ''&'' then c # unescape s
      else if take 4 s = ''amp;'' then CHR ''&'' # unescape (drop 4 s)
      else if take 3 s = ''lt;'' then CHR ''<'' # unescape (drop 3 s)
      else if take 3 s = ''gt;'' then CHR ''>'' # unescape (drop 3 s)
      else if take 5 s = ''quot;'' then CHR 0x22 # unescape (drop 5 s)
      else if take 4 s = ''#39;'' then CHR 0x27 # unescape (drop 4 s)
      else c # unescape s)"

lemma escape_simps [simp]: "escape [] = []" "escape (c # s) = escape_char c @ escape s"
  "escape (s @ t) = escape s @ escape t"
  by (simp_all add: escape_def)

lemma unescape_escape_char: "unescape (escape_char c @ s) = c # unescape s"
  by (simp add: escape_char_def eval_nat_numeral)

lemma unescape_escape [simp]: "unescape (escape s) = s"
  by (induction s) (simp_all add: unescape_escape_char)

lemma escape_safe: "c \<in> set (escape s) \<Longrightarrow> c \<noteq> CHR ''<'' \<and> c \<noteq> CHR ''>'' \<and> c \<noteq> CHR 0x22 \<and> c \<noteq> CHR 0x27"
  by (induction s) (auto simp: escape_char_def split: if_splits)

lemma push_with_Inr: "push_with limit s out = Inr out' \<longleftrightarrow> out' = out @ s \<and> length out' \<le> MAX_OUTPUT_BYTES"
  by (auto simp: push_with_def)

lemma push_chars_Inr: "push_chars limit s out = Inr out' \<Longrightarrow> out' = out @ escape s"
  by (induction s arbitrary: out) (fastforce simp: res_simps push_with_Inr)+

lemma text_with_Inr: "text_with limit invalid s out = Inr out' \<Longrightarrow> out' = out @ escape s"
  by (auto simp: text_with_def dest: push_chars_Inr split: if_splits)

section \<open>The acceptor\<close>

definition elements :: "string list" where
  "elements = [''html'', ''head'', ''body'', ''title'', ''meta'', ''link'', ''article'', ''section'', ''h1'', ''h2'', ''p'',
     ''ul'', ''li'', ''strong'', ''em'', ''code'', ''pre'', ''main'', ''nav'', ''header'', ''footer'', ''div'', ''a'', ''img'',
     ''table'', ''caption'', ''thead'', ''tbody'', ''tr'', ''th'', ''td'', ''details'', ''summary'', ''form'', ''input'',
     ''label'', ''select'', ''option'', ''textarea'', ''button'']"

definition void_elements :: "string list" where
  "void_elements = [''meta'', ''link'', ''img'', ''input'']"

definition attributes :: "string list" where
  "attributes = [''lang'', ''charset'', ''name'', ''content'', ''rel'', ''href'', ''src'', ''alt'', ''class'', ''width'', ''height'',
     ''loading'', ''decoding'', ''aria-label'', ''aria-invalid'', ''aria-describedby'', ''role'', ''method'', ''action'',
     ''accept-charset'', ''enctype'', ''type'', ''value'', ''id'', ''for'', ''rows'', ''maxlength'', ''inputmode'', ''autocomplete'']"

definition bare_attributes :: "string list" where
  "bare_attributes = [''required'', ''readonly'', ''disabled'', ''checked'', ''selected'']"

definition url_attributes :: "string list" where
  "url_attributes = [''href'', ''src'', ''action'']"

text \<open>A reference to this origin.  A browser first drops every tab and line break from a URL; then two
  leading slashes (or a slash and a backslash) name another host.\<close>

definition url_break :: "char \<Rightarrow> bool" where
  "url_break c \<longleftrightarrow> c = TAB \<or> c = LF \<or> c = CR"

definition same_origin :: "string \<Rightarrow> bool" where
  "same_origin v \<longleftrightarrow>
     (case filter (\<lambda>c. \<not> url_break c) v of
        [] \<Rightarrow> False
      | c # w \<Rightarrow> c = CHR ''/'' \<and> take 1 w \<noteq> ''/'' \<and> take 1 w \<noteq> [CHR 0x5C])"

text \<open>The text of a URL attribute: no character reference but the five of \<open>escape_char\<close>, and the
  decoded value refers to this origin.\<close>

definition link_ok :: "string \<Rightarrow> bool" where
  "link_ok v \<longleftrightarrow> escape (unescape v) = v \<and> same_origin (unescape v)"

datatype html_mode =
    Data
  | Tag string
  | Close string
  | Attr string string
  | Equals string string
  | Quoted string string string
  | After string

type_synonym html_state = "html_mode \<times> string list"

definition name_char :: "char \<Rightarrow> bool" where
  "name_char c \<longleftrightarrow> is_ascii_lowercase c \<or> is_ascii_digit c \<or> c = CHR ''-''"

definition open_element :: "string \<Rightarrow> string list \<Rightarrow> html_state" where
  "open_element n st = (Data, if n \<in> set void_elements then st else n # st)"

definition scan_char :: "char \<Rightarrow> html_state \<Rightarrow> html_state option" where
  "scan_char c ms =
     (case ms of
        (Data, st) \<Rightarrow> Some (if c = CHR ''<'' then Tag [] else Data, st)
      | (Tag n, st) \<Rightarrow>
          if c = CHR ''/'' \<and> n = [] then Some (Close [], st)
          else if c = CHR '' '' \<and> n \<in> set elements then Some (Attr n [], st)
          else if c = CHR ''>'' \<and> n \<in> set elements then Some (open_element n st)
          else if name_char c then Some (Tag (n @ [c]), st) else None
      | (Close n, st) \<Rightarrow>
          if c = CHR ''>'' then (case st of [] \<Rightarrow> None | e # st \<Rightarrow> if e = n then Some (Data, st) else None)
          else if name_char c then Some (Close (n @ [c]), st) else None
      | (Attr n a, st) \<Rightarrow>
          if c = CHR ''='' \<and> a \<in> set attributes then Some (Equals n a, st)
          else if c = CHR '' '' \<and> a \<in> set bare_attributes then Some (Attr n [], st)
          else if c = CHR ''>'' \<and> a \<in> set bare_attributes then Some (open_element n st)
          else if name_char c then Some (Attr n (a @ [c]), st) else None
      | (Equals n a, st) \<Rightarrow> if c = CHR 0x22 then Some (Quoted n a [], st) else None
      | (Quoted n a v, st) \<Rightarrow>
          if c = CHR 0x22 then (if a \<in> set url_attributes \<and> \<not> link_ok v then None else Some (After n, st))
          else Some (Quoted n a (v @ [c]), st)
      | (After n, st) \<Rightarrow>
          if c = CHR '' '' then Some (Attr n [], st)
          else if c = CHR ''>'' then Some (open_element n st) else None)"

fun scan :: "string \<Rightarrow> html_state \<Rightarrow> html_state option" where
  "scan [] ms = Some ms"
| "scan (c # s) ms = (case scan_char c ms of None \<Rightarrow> None | Some ms \<Rightarrow> scan s ms)"

definition safe_html :: "string \<Rightarrow> bool" where
  "safe_html page \<longleftrightarrow>
     (case strip_prefix_list ''<!doctype html>'' page of
        None \<Rightarrow> False
      | Some s \<Rightarrow> scan s (Data, []) = Some (Data, []))"

lemma scan_append: "scan (s @ t) ms = (case scan s ms of None \<Rightarrow> None | Some ms \<Rightarrow> scan t ms)"
  by (induction s arbitrary: ms) (auto split: option.splits)

lemma scan_data: "CHR ''<'' \<notin> set s \<Longrightarrow> scan s (Data, st) = Some (Data, st)"
  by (induction s) (auto simp: scan_char_def)

lemma scan_quoted: "CHR 0x22 \<notin> set s \<Longrightarrow> scan s (Quoted n a v, st) = Some (Quoted n a (v @ s), st)"
  by (induction s arbitrary: v) (auto simp: scan_char_def)

section \<open>Triples\<close>

definition emits :: "html_mode \<Rightarrow> string list \<Rightarrow> writer \<Rightarrow> html_mode \<Rightarrow> string list \<Rightarrow> bool" where
  "emits m opened f m' opened' \<longleftrightarrow>
     (\<forall>out out'. f out = Inr out' \<longrightarrow>
        (\<exists>s. out' = out @ s \<and> (\<forall>st. scan s (m, opened @ st) = Some (m', opened' @ st))))"

abbreviation fragment :: "writer \<Rightarrow> bool" where
  "fragment f \<equiv> emits Data [] f Data []"

lemma emitsI:
  assumes "\<And>out out'. f out = Inr out' \<Longrightarrow> \<exists>s. out' = out @ s \<and> (\<forall>st. scan s (m, k @ st) = Some (m', k' @ st))"
  shows "emits m k f m' k'"
  using assms by (simp add: emits_def)

lemma emits_push_with: "(\<And>st. scan s (m, k @ st) = Some (m', k' @ st)) \<Longrightarrow> emits m k (push_with limit s) m' k'"
  by (auto simp: emits_def push_with_Inr)

lemma emits_text_with: "(\<And>st. scan (escape s) (m, k @ st) = Some (m', k' @ st)) \<Longrightarrow> emits m k (text_with limit invalid s) m' k'"
  by (auto simp: emits_def dest!: text_with_Inr)

lemma emits_push: "(\<And>st. scan s (m, k @ st) = Some (m', k' @ st)) \<Longrightarrow> emits m k (push s) m' k'"
  unfolding push_def by (rule emits_push_with)

lemma scan_escape_data [simp]: "scan (escape s) (Data, st) = Some (Data, st)"
  by (rule scan_data) (use escape_safe in blast)

lemma scan_escape_quoted [simp]: "scan (escape s) (Quoted n a v, st) = Some (Quoted n a (v @ escape s), st)"
  by (rule scan_quoted) (use escape_safe in blast)

lemma emits_text: "emits Data k (push_text s) Data k"
  unfolding push_text_def by (rule emits_text_with) simp

lemma emits_nil [intro!]: "emits m k (emit []) m k"
  by (auto simp: emits_def)

lemma emits_then:
  assumes "emits m k f m1 k1" and "emits m1 k1 g m' k'"
  shows "emits m k (\<lambda>out. and_then (f out) g) m' k'"
proof (rule emitsI)
  fix out out' assume "and_then (f out) g = Inr out'"
  then obtain mid where mid: "f out = Inr mid" "g mid = Inr out'" by (auto simp: res_simps)
  obtain s where s: "mid = out @ s" "\<forall>st. scan s (m, k @ st) = Some (m1, k1 @ st)"
    using assms(1) mid(1) by (auto simp: emits_def)
  obtain t where t: "out' = mid @ t" "\<forall>st. scan t (m1, k1 @ st) = Some (m', k' @ st)"
    using assms(2) mid(2) by (auto simp: emits_def)
  show "\<exists>s. out' = out @ s \<and> (\<forall>st. scan s (m, k @ st) = Some (m', k' @ st))"
    using s t by (intro exI [of _ "s @ t"]) (simp add: scan_append)
qed

lemma emits_cons: "emits m k f m1 k1 \<Longrightarrow> emits m1 k1 (emit fs) m' k' \<Longrightarrow> emits m k (emit (f # fs)) m' k'"
  using emits_then [of m k f m1 k1 "emit fs" m' k'] by (simp add: emits_def)

lemma emit_append: "emit (fs @ gs) out = and_then (emit fs out) (emit gs)"
  by (induction fs arbitrary: out) (auto simp: and_then_def split: sum.splits)

lemma emits_append: "emits m k (emit fs) m1 k1 \<Longrightarrow> emits m1 k1 (emit gs) m' k' \<Longrightarrow> emits m k (emit (fs @ gs)) m' k'"
  using emits_then [of m k "emit fs" m1 k1 "emit gs" m' k'] by (simp add: emits_def emit_append)

lemma emits_frame: "emits m k f m' k' \<Longrightarrow> emits m (k @ r) f m' (k' @ r)"
  unfolding emits_def by (metis append.assoc)

lemma emits_under: "fragment f \<Longrightarrow> emits Data k f Data k"
  using emits_frame [of Data "[]" f Data "[]" k] by simp

lemma emits_list: "(\<And>f. f \<in> set fs \<Longrightarrow> emits m k f m k) \<Longrightarrow> emits m k (emit fs) m k"
  by (induction fs) (auto intro: emits_cons)

text \<open>A line is accepted when its pieces are, one after the other.\<close>

fun scan_pieces :: "piece list \<Rightarrow> html_state \<Rightarrow> html_state option" where
  "scan_pieces [] ms = Some ms"
| "scan_pieces (L s # ps) ms = (case scan s ms of None \<Rightarrow> None | Some ms \<Rightarrow> scan_pieces ps ms)"
| "scan_pieces (T s # ps) ms = (case scan (escape s) ms of None \<Rightarrow> None | Some ms \<Rightarrow> scan_pieces ps ms)"

lemma line_with_Inr:
  assumes "line_with limit invalid ps out = Inr out'"
  shows "\<exists>s. out' = out @ s \<and> (\<forall>ms. scan s ms = scan_pieces ps ms)"
  using assms
proof (induction ps arbitrary: out)
  case Nil
  then show ?case by (simp add: line_with_def)
next
  case (Cons p ps)
  obtain mid where mid: "piece_writer limit invalid p out = Inr mid" "line_with limit invalid ps mid = Inr out'"
    using Cons.prems by (auto simp: line_with_def res_simps)
  obtain s where s: "out' = mid @ s" "\<forall>ms. scan s ms = scan_pieces ps ms" using Cons.IH [OF mid(2)] by blast
  show ?case
  proof (cases p)
    case (L t)
    then show ?thesis using s mid(1) by (intro exI [of _ "t @ s"]) (auto simp: push_with_Inr scan_append split: option.splits)
  next
    case (T t)
    then show ?thesis using s mid(1) by (intro exI [of _ "escape t @ s"]) (auto simp: scan_append dest: text_with_Inr split: option.splits)
  qed
qed

lemma emits_line_with:
  "(\<And>st. scan_pieces ps (m, k @ st) = Some (m', k' @ st)) \<Longrightarrow> emits m k (line_with limit invalid ps) m' k'"
  unfolding emits_def using line_with_Inr by metis

lemma emits_line: "(\<And>st. scan_pieces ps (m, k @ st) = Some (m', k' @ st)) \<Longrightarrow> emits m k (line ps) m' k'"
  unfolding line_def by (rule emits_line_with)

lemma scan_pieces_append:
  "scan_pieces (ps @ qs) ms = (case scan_pieces ps ms of None \<Rightarrow> None | Some ms \<Rightarrow> scan_pieces qs ms)"
  by (induction ps ms rule: scan_pieces.induct) (auto split: option.splits)

lemma link_ok_escape [simp]: "link_ok (escape p) = same_origin p"
  by (simp add: link_ok_def)

lemma same_origin_escape: "same_origin p \<Longrightarrow> link_ok (escape p)"
  by simp

text \<open>Text without the five escaped characters needs no escaping.\<close>

definition plain_char :: "char \<Rightarrow> bool" where
  "plain_char c \<longleftrightarrow> escape_char c = [c]"

lemma escape_plain: "\<forall>c \<in> set p. plain_char c \<Longrightarrow> escape p = p"
  by (induction p) (simp_all add: plain_char_def)

lemma link_ok_plain: "\<forall>c \<in> set p. plain_char c \<Longrightarrow> same_origin p \<Longrightarrow> link_ok p"
  by (metis escape_plain link_ok_escape)

lemma plain_char_iff: "plain_char c \<longleftrightarrow> c \<notin> {CHR ''&'', CHR ''<'', CHR ''>'', CHR 0x22, CHR 0x27}"
  by (auto simp: plain_char_def escape_char_def)

lemma plain_text: "is_ascii_alphanumeric c \<or> c \<in> set ''/_-.'' \<Longrightarrow> plain_char c"
  unfolding plain_char_iff by (auto simp: ascii_defs)

lemma link_ok_root [simp]: "link_ok ''/''"
  by (rule link_ok_plain) (simp_all add: plain_text same_origin_def url_break_def)

text \<open>What follows a reference cannot change its host, unless it starts like one.\<close>

lemma same_origin_append:
  assumes "same_origin p" and "\<not> url_break c" and "c \<noteq> CHR ''/''" and "c \<noteq> CHR 0x5C"
  shows "same_origin (p @ c # w)"
  using assms by (auto simp: same_origin_def take_Cons' split: list.splits)

text \<open>Decimal numbers and other text of safe characters inside a quoted value.\<close>

lemma scan_digits: "scan (show_nat w) (Quoted n a v, st) = Some (Quoted n a (v @ show_nat w), st)"
proof (rule scan_quoted)
  show "CHR 0x22 \<notin> set (show_nat w)"
    using show_nat_digits [of w] by (auto simp: list_all_iff is_ascii_digit_def dest!: bspec)
qed

lemmas scan_simps = scan_char_def open_element_def name_char_def elements_def attributes_def bare_attributes_def
  void_elements_def url_attributes_def ascii_defs

lemma emits_check: "(c \<Longrightarrow> emits m k (emit fs) m' k') \<Longrightarrow> emits m k (emit (check c e # fs)) m' k'"
  by (auto simp: emits_def check_def)

lemma emits_with_value: "(\<And>a. r = Inr a \<Longrightarrow> emits m k (f a) m' k') \<Longrightarrow> emits m k (with_value r f) m' k'"
  by (auto simp: emits_def with_value_def res_simps)

lemma emits_if: "(c \<Longrightarrow> emits m k f m' k') \<Longrightarrow> (\<not> c \<Longrightarrow> emits m k g m' k') \<Longrightarrow> emits m k (if c then f else g) m' k'"
  by simp

end
