(* ===== verification/Rich_Document.thy ===== *)
theory Rich_Document
  imports Html Routing
begin

text \<open>
  \<^verbatim>\<open>crates/noxide-assets/src/document.rs\<close>: rich document subtrees, with the class tokens of
  \<^verbatim>\<open>crates/noxide-protocol/src/document.rs\<close> and the asset names and paths of
  \<^verbatim>\<open>crates/noxide-protocol/src/assets.rs\<close>.  A bundle maps an asset's name to what was admitted
  under it; the resolver of links is an argument, as in the code.
\<close>

section \<open>Assets\<close>

definition MAX_ASSET_NAME_BYTES :: nat where "MAX_ASSET_NAME_BYTES = 96"
definition ASSET_PATH_PREFIX :: string where "ASSET_PATH_PREFIX = ''/_noxide/assets/''"

datatype asset_media_type = Png | Jpeg | Webp | Woff2 | Css

definition is_image :: "asset_media_type \<Rightarrow> bool" where
  "is_image t = (case t of Png \<Rightarrow> True | Jpeg \<Rightarrow> True | Webp \<Rightarrow> True | _ \<Rightarrow> False)"

definition valid_asset_name :: "string \<Rightarrow> bool" where
  "valid_asset_name name \<longleftrightarrow>
     name \<noteq> [] \<and> length name \<le> MAX_ASSET_NAME_BYTES
     \<and> list_all (\<lambda>part. part \<noteq> [] \<and> part \<noteq> ''.'' \<and> part \<noteq> ''..'' \<and> take 1 part \<noteq> ''.''
         \<and> list_all (\<lambda>c. is_ascii_alphanumeric c \<or> c \<in> set ''_-.'') part) (split_on CHR ''/'' name)"

definition valid_digest :: "string \<Rightarrow> bool" where
  "valid_digest d \<longleftrightarrow>
     length d = 64 \<and> list_all (\<lambda>c. is_ascii_digit c \<or> (97 \<le> (of_char c :: nat) \<and> (of_char c :: nat) \<le> 102)) d"

definition asset_path :: "string \<Rightarrow> string option" where
  "asset_path digest = (if valid_digest digest then Some (ASSET_PATH_PREFIX @ digest) else None)"

record public_asset =
  pa_media_type :: asset_media_type
  pa_served_digest :: string
  pa_dimensions :: "(nat \<times> nat) option"

type_synonym asset_bundle = "string \<rightharpoonup> public_asset"

text \<open>\<open>PublicAsset::path\<close>: its \<open>expect\<close> is the error here.\<close>

definition public_path :: "public_asset \<Rightarrow> string res" where
  "public_path a = ok_or (asset_path (pa_served_digest a)) ''admitted digest''"

section \<open>Nodes\<close>

definition class_token :: "string \<Rightarrow> bool" where
  "class_token s \<longleftrightarrow>
     s \<noteq> [] \<and> length s \<le> 64 \<and> s \<noteq> ''noxide-app'' \<and> is_ascii_alphabetic (hd s)
     \<and> list_all (\<lambda>b. is_ascii_alphanumeric b \<or> b \<in> set ''_-'') s"

definition class_tokens_new :: "string list \<Rightarrow> string list res" where
  "class_tokens_new tokens =
     ensure (length tokens \<le> 8 \<and> list_all class_token tokens) ''invalid class tokens''
       (ensure (distinct tokens) ''duplicate class token'' (Inr tokens))"

datatype element =
    EDiv | ESection | EParagraph | EHeading2 | EStrong | EEmphasis | ETable | ECaption | ETableHead | ETableBody
  | ERow | EHeaderCell | ECell | EDetails | ESummary

datatype presentation_node =
    NText string
  | NImage string string "string list"
  | NLink route_ref string "string list"
  | NElement element "string list" "presentation_node list"
  | NNavigation string "string list" "presentation_node list"

definition node_element :: "presentation_node \<Rightarrow> element option" where
  "node_element n = (case n of NElement e _ _ \<Rightarrow> Some e | _ \<Rightarrow> None)"

definition inline_node :: "presentation_node \<Rightarrow> bool" where
  "inline_node n \<longleftrightarrow>
     (case n of NText _ \<Rightarrow> True | NImage _ _ _ \<Rightarrow> True | NLink _ _ _ \<Rightarrow> True | _ \<Rightarrow> False)
     \<or> node_element n \<in> {Some EStrong, Some EEmphasis}"

definition flow_node :: "presentation_node \<Rightarrow> bool" where
  "flow_node n \<longleftrightarrow>
     node_element n \<notin> {Some ECaption, Some ETableHead, Some ETableBody, Some ERow, Some EHeaderCell, Some ECell, Some ESummary}"

text \<open>The parts of a table seen so far.\<close>

record table_seen =
  ts_head :: bool
  ts_body :: bool
  ts_rows :: bool
  ts_caption :: bool

definition table_child :: "nat \<Rightarrow> presentation_node \<Rightarrow> table_seen \<Rightarrow> table_seen res" where
  "table_child i n t =
     (case node_element n of
        Some ECaption \<Rightarrow> ensure (i = 0 \<and> \<not> ts_caption t) ''table caption'' (Inr (t\<lparr>ts_caption := True\<rparr>))
      | Some ETableHead \<Rightarrow>
          ensure (\<not> ts_head t \<and> \<not> ts_body t \<and> \<not> ts_rows t) ''table head'' (Inr (t\<lparr>ts_head := True\<rparr>))
      | Some ETableBody \<Rightarrow> ensure (\<not> ts_body t \<and> \<not> ts_rows t) ''table body'' (Inr (t\<lparr>ts_body := True\<rparr>))
      | Some ERow \<Rightarrow> ensure (\<not> ts_body t) ''mixed table rows'' (Inr (t\<lparr>ts_rows := True\<rparr>))
      | _ \<Rightarrow> Inl ''table structure'')"

fun table_children :: "nat \<Rightarrow> presentation_node list \<Rightarrow> table_seen \<Rightarrow> unit res" where
  "table_children i [] t = Inr ()"
| "table_children i (n # ns) t = and_then (table_child i n t) (table_children (i + 1) ns)"

definition children_valid :: "element \<Rightarrow> presentation_node list \<Rightarrow> unit res" where
  "children_valid e c =
     (case e of
        ETable \<Rightarrow> table_children 0 c \<lparr>ts_head = False, ts_body = False, ts_rows = False, ts_caption = False\<rparr>
      | ETableHead \<Rightarrow> ensure (list_all (\<lambda>n. node_element n = Some ERow) c) ''table section structure'' (Inr ())
      | ETableBody \<Rightarrow> ensure (list_all (\<lambda>n. node_element n = Some ERow) c) ''table section structure'' (Inr ())
      | ERow \<Rightarrow>
          ensure (list_all (\<lambda>n. node_element n \<in> {Some EHeaderCell, Some ECell}) c) ''table row structure'' (Inr ())
      | EDetails \<Rightarrow>
          ensure ((case c of [] \<Rightarrow> False | n # _ \<Rightarrow> node_element n = Some ESummary) \<and> list_all flow_node (tl c))
            ''details summary structure'' (Inr ())
      | EDiv \<Rightarrow> ensure (list_all flow_node c) ''rich flow structure'' (Inr ())
      | ESection \<Rightarrow> ensure (list_all flow_node c) ''rich flow structure'' (Inr ())
      | EHeaderCell \<Rightarrow> ensure (list_all flow_node c) ''rich flow structure'' (Inr ())
      | ECell \<Rightarrow> ensure (list_all flow_node c) ''rich flow structure'' (Inr ())
      | _ \<Rightarrow> ensure (list_all inline_node c) ''rich phrasing structure'' (Inr ()))"

definition element_tag :: "element \<Rightarrow> string" where
  "element_tag e =
     (case e of EDiv \<Rightarrow> ''div'' | ESection \<Rightarrow> ''section'' | EParagraph \<Rightarrow> ''p'' | EHeading2 \<Rightarrow> ''h2'' | EStrong \<Rightarrow> ''strong''
      | EEmphasis \<Rightarrow> ''em'' | ETable \<Rightarrow> ''table'' | ECaption \<Rightarrow> ''caption'' | ETableHead \<Rightarrow> ''thead'' | ETableBody \<Rightarrow> ''tbody''
      | ERow \<Rightarrow> ''tr'' | EHeaderCell \<Rightarrow> ''th'' | ECell \<Rightarrow> ''td'' | EDetails \<Rightarrow> ''details'' | ESummary \<Rightarrow> ''summary'')"

section \<open>Rendering\<close>

definition frag_line :: "piece list \<Rightarrow> writer" where
  "frag_line = line_with ''fragment byte limit'' ''invalid fragment text''"

fun class_pieces :: "string list \<Rightarrow> piece list" where
  "class_pieces [] = []"
| "class_pieces (c # cs) = (if cs = [] then [T c] else T c # L '' '' # class_pieces cs)"

definition classes :: "string list \<Rightarrow> writer" where
  "classes cs =
     (if cs = [] then emit []
      else frag_line ([L '' class=\"''] @ class_pieces cs @ [L ''\"'']))"

text \<open>\<open>str::trim().is_empty()\<close>: only Unicode white space.\<close>

fun blank :: "string \<Rightarrow> bool" where
  "blank [] = True"
| "blank (a # s) =
     (if (9 \<le> (of_char a :: nat) \<and> (of_char a :: nat) \<le> 13) \<or> a = CHR '' '' then blank s
      else case s of
        [] \<Rightarrow> False
      | b # s \<Rightarrow>
          if a = CHR 0xC2 \<and> (b = CHR 0x85 \<or> b = CHR 0xA0) then blank s
          else case s of
            [] \<Rightarrow> False
          | c # s \<Rightarrow>
              if (a = CHR 0xE1 \<and> b = CHR 0x9A \<and> c = CHR 0x80)
                 \<or> (a = CHR 0xE2 \<and> b = CHR 0x80 \<and> ((128 \<le> (of_char c :: nat) \<and> (of_char c :: nat) \<le> 138)
                       \<or> c = CHR 0xA8 \<or> c = CHR 0xA9 \<or> c = CHR 0xAF))
                 \<or> (a = CHR 0xE2 \<and> b = CHR 0x81 \<and> c = CHR 0x9F)
                 \<or> (a = CHR 0xE3 \<and> b = CHR 0x80 \<and> c = CHR 0x80)
              then blank s else False)"

text \<open>\<open>chars().any(char::is_control)\<close>.\<close>

fun has_any_control :: "string \<Rightarrow> bool" where
  "has_any_control [] = False"
| "has_any_control (a # s) =
     ((of_char a :: nat) < 32 \<or> (of_char a :: nat) = 127
      \<or> (of_char a :: nat) = 194 \<and> s \<noteq> [] \<and> 128 \<le> (of_char (hd s) :: nat) \<and> (of_char (hd s) :: nat) \<le> 159
      \<or> has_any_control s)"

definition render_image :: "asset_bundle \<Rightarrow> string \<Rightarrow> string \<Rightarrow> string list \<Rightarrow> writer" where
  "render_image bundle asset alt c =
     emit [check (valid_asset_name asset) ''image asset name'',
       check (length alt \<le> 1024) ''image alternative text limit'',
       with_value (ok_or (bundle asset) ''undeclared image'') (\<lambda>a.
         emit [check (is_image (pa_media_type a)) ''image media type'',
           with_value (ok_or (pa_dimensions a) ''image metadata'') (\<lambda>(width, height).
           with_value (public_path a) (\<lambda>path.
             emit [frag_line [L ''<img src=\"'', L path, L ''\" alt=\"'', T alt, L ''\"''], classes c,
               frag_line [L ('' width=\"'' @ show_nat width @ ''\" height=\"'' @ show_nat height
                 @ ''\" loading=\"lazy\" decoding=\"async\">'')]]))])]"

definition render_link :: "(route_ref \<Rightarrow> string res) \<Rightarrow> route_ref \<Rightarrow> string \<Rightarrow> string list \<Rightarrow> writer" where
  "render_link resolve destination s c =
     with_value (resolve destination) (\<lambda>path.
       emit [check (take 1 path = ''/'' \<and> take 2 path \<noteq> ''//'' \<and> \<not> has_any_control path) ''resolved link path'',
         frag_line [L ''<a href=\"'', T path, L ''\"''], classes c, frag_line [L ''>'', T s, L ''</a>'']])"

text \<open>\<open>render\<close>: the shared node budget and the output are threaded through.\<close>

fun render_node ::
    "asset_bundle \<Rightarrow> (route_ref \<Rightarrow> string res) \<Rightarrow> presentation_node \<Rightarrow> nat \<Rightarrow> nat \<times> bytes \<Rightarrow> (nat \<times> bytes) res"
  and render_nodes ::
    "asset_bundle \<Rightarrow> (route_ref \<Rightarrow> string res) \<Rightarrow> presentation_node list \<Rightarrow> nat \<Rightarrow> nat \<times> bytes \<Rightarrow> (nat \<times> bytes) res" where
  "render_node bundle resolve n depth (remaining, out) =
     ensure (remaining > 0 \<and> depth > 0) ''rich document node or depth limit''
     (let remaining = remaining - 1 in
      case n of
        NText s \<Rightarrow> and_then (frag_line [T s] out) (\<lambda>out. Inr (remaining, out))
      | NImage asset alt c \<Rightarrow> and_then (render_image bundle asset alt c out) (\<lambda>out. Inr (remaining, out))
      | NLink destination s c \<Rightarrow> and_then (render_link resolve destination s c out) (\<lambda>out. Inr (remaining, out))
      | NElement e c children \<Rightarrow>
          and_then (children_valid e children) (\<lambda>_.
          and_then (emit [frag_line [L ''<'', L (element_tag e)], classes c, frag_line [L ''>'']] out) (\<lambda>out.
          and_then (render_nodes bundle resolve children (depth - 1) (remaining, out)) (\<lambda>(remaining, out).
          and_then (frag_line [L ''</'', L (element_tag e), L ''>''] out) (\<lambda>out. Inr (remaining, out)))))
      | NNavigation label c children \<Rightarrow>
          ensure (\<not> blank label \<and> length label \<le> 128 \<and> list_all flow_node children) ''labeled navigation''
          (and_then (emit [frag_line [L ''<nav aria-label=\"'', T label, L ''\"''], classes c, frag_line [L ''>'']] out) (\<lambda>out.
           and_then (render_nodes bundle resolve children (depth - 1) (remaining, out)) (\<lambda>(remaining, out).
           and_then (frag_line [L ''</nav>''] out) (\<lambda>out. Inr (remaining, out))))))"
| "render_nodes bundle resolve [] depth s = Inr s"
| "render_nodes bundle resolve (n # ns) depth s =
     and_then (render_node bundle resolve n depth s) (render_nodes bundle resolve ns depth)"

definition rich_fragment ::
  "asset_bundle \<Rightarrow> (route_ref \<Rightarrow> string res) \<Rightarrow> presentation_node \<Rightarrow> nat \<Rightarrow> nat \<Rightarrow> (nat \<times> string) res" where
  "rich_fragment bundle resolve n remaining depth_limit =
     ensure (flow_node n) ''rich root flow structure'' (render_node bundle resolve n depth_limit (remaining, []))"

definition asset_stylesheet :: "string \<Rightarrow> asset_bundle \<Rightarrow> string res" where
  "asset_stylesheet name bundle =
     ensure (valid_asset_name name) ''stylesheet asset name''
     (and_then (ok_or (bundle name) ''undeclared stylesheet'') (\<lambda>a.
      ensure (pa_media_type a = Css) ''stylesheet media type''
      (and_then (public_path a) (\<lambda>path. Inr (''<link rel=\"stylesheet\" href=\"'' @ path @ ''\">'')))))"

section \<open>Fragments are accepted\<close>

lemma emits_frag_line: "(\<And>st. scan_pieces ps (m, k @ st) = Some (m', k' @ st)) \<Longrightarrow> emits m k (frag_line ps) m' k'"
  unfolding frag_line_def by (rule emits_line_with)

lemma scan_class_pieces: "\<exists>v'. scan_pieces (class_pieces cs) (Quoted n ''class'' v, st) = Some (Quoted n ''class'' v', st)"
proof (induction cs arbitrary: v)
  case (Cons c cs)
  have "scan '' '' (Quoted n ''class'' u, st) = Some (Quoted n ''class'' (u @ '' ''), st)" for u
    by (rule scan_quoted) simp
  then show ?case using Cons.IH by auto
qed simp

lemma emits_classes: "emits (After n) k (classes cs) (After n) k"
proof (cases "cs = []")
  case True
  then show ?thesis by (auto simp: classes_def)
next
  case False
  have "scan_pieces ([L '' class=\"''] @ class_pieces cs @ [L ''\"'']) (After n, k @ st) = Some (After n, k @ st)" for st
  proof -
    obtain v where "scan_pieces (class_pieces cs) (Quoted n ''class'' [], k @ st) = Some (Quoted n ''class'' v, k @ st)"
      using scan_class_pieces by blast
    then show ?thesis by (simp add: scan_pieces_append scan_simps)
  qed
  then show ?thesis using False by (simp add: classes_def emits_frag_line)
qed

lemma public_path_ok:
  "public_path a = Inr path \<Longrightarrow> link_ok path \<and> scan path (Quoted n x v, st) = Some (Quoted n x (v @ path), st)"
proof -
  assume "public_path a = Inr path"
  then have d: "valid_digest (pa_served_digest a)" "path = ASSET_PATH_PREFIX @ pa_served_digest a"
    by (auto simp: public_path_def asset_path_def res_simps split: if_splits)
  then have "CHR 0x22 \<notin> set path"
    by (auto simp: valid_digest_def list_all_iff is_ascii_digit_def ASSET_PATH_PREFIX_def dest!: bspec)
  then have "scan path (Quoted n x v, st) = Some (Quoted n x (v @ path), st)" by (rule scan_quoted)
  moreover have "link_ok path"
  proof (rule link_ok_plain)
    have "plain_char c" if "c \<in> set (pa_served_digest a)" for c
    proof -
      have "48 \<le> (of_char c :: nat)" "(of_char c :: nat) \<noteq> 60" "(of_char c :: nat) \<noteq> 62"
        using d(1) that by (auto simp: valid_digest_def list_all_iff ascii_defs dest!: bspec)
      then show ?thesis unfolding plain_char_iff by auto
    qed
    then show "\<forall>c \<in> set path. plain_char c"
      using d(2) by (auto simp: ASSET_PATH_PREFIX_def plain_char_def escape_char_def)
    show "same_origin path" using d(2) by (simp add: same_origin_def url_break_def ASSET_PATH_PREFIX_def)
  qed
  ultimately show ?thesis by blast
qed

lemma fragment_image: "fragment (render_image bundle asset alt c)"
  unfolding render_image_def
proof (intro emits_check, rule emits_cons [OF _ emits_nil], rule emits_with_value, rule emits_check,
    rule emits_cons [OF _ emits_nil], rule emits_with_value, clarify, rule emits_with_value)
  fix a width height path assume p: "public_path a = Inr path"
  have img: "emits Data [] (frag_line [L ''<img src=\"'', L path, L ''\" alt=\"'', T alt, L ''\"'']) (After ''img'') []"
    by (rule emits_frag_line) (use public_path_ok [OF p] in \<open>simp add: scan_simps\<close>)
  have rest: "emits (After ''img'') [] (frag_line [L ('' width=\"'' @ show_nat width @ ''\" height=\"'' @ show_nat height
      @ ''\" loading=\"lazy\" decoding=\"async\">'')]) Data []"
    by (rule emits_frag_line) (simp add: scan_append scan_digits scan_simps del: append_assoc)
  show "emits Data [] (emit [frag_line [L ''<img src=\"'', L path, L ''\" alt=\"'', T alt, L ''\"''], classes c,
      frag_line [L ('' width=\"'' @ show_nat width @ ''\" height=\"'' @ show_nat height
        @ ''\" loading=\"lazy\" decoding=\"async\">'')]]) Data []"
    by (intro emits_cons [OF img] emits_cons [OF emits_classes] emits_cons [OF rest] emits_nil)
qed

lemma fragment_link:
  assumes "\<And>p. resolve destination = Inr p \<Longrightarrow> same_origin p"
  shows "fragment (render_link resolve destination s c)"
  unfolding render_link_def
proof (rule emits_with_value, rule emits_check)
  fix path assume "resolve destination = Inr path"
  then have p: "link_ok (escape path)" using assms same_origin_escape by blast
  have a: "emits Data [] (frag_line [L ''<a href=\"'', T path, L ''\"'']) (After ''a'') []"
    by (rule emits_frag_line) (use p in \<open>simp add: scan_simps\<close>)
  have z: "emits (After ''a'') [] (frag_line [L ''>'', T s, L ''</a>'']) Data []"
    by (rule emits_frag_line) (simp add: scan_simps)
  show "emits Data [] (emit [frag_line [L ''<a href=\"'', T path, L ''\"''], classes c, frag_line [L ''>'', T s, L ''</a>'']]) Data []"
    by (intro emits_cons [OF a] emits_cons [OF emits_classes] emits_cons [OF z] emits_nil)
qed

text \<open>What a rendered node appends.\<close>

definition accepted :: "bytes \<Rightarrow> bytes \<Rightarrow> bool" where
  "accepted out out' \<longleftrightarrow> (\<exists>s. out' = out @ s \<and> (\<forall>st. scan s (Data, st) = Some (Data, st)))"

lemma accepted_fragment: "fragment f \<Longrightarrow> f out = Inr out' \<Longrightarrow> accepted out out'"
  by (auto simp: emits_def accepted_def)

lemma accepted_refl [simp]: "accepted out out"
  by (simp add: accepted_def)

lemma accepted_trans: "accepted a b \<Longrightarrow> accepted b c \<Longrightarrow> accepted a c"
proof -
  assume "accepted a b" "accepted b c"
  then obtain s t where "b = a @ s" "\<forall>st. scan s (Data, st) = Some (Data, st)" "c = b @ t" "\<forall>st. scan t (Data, st) = Some (Data, st)"
    by (auto simp: accepted_def)
  then show ?thesis unfolding accepted_def by (intro exI [of _ "s @ t"]) (simp add: scan_append)
qed

text \<open>An element around accepted content.\<close>

lemma accepted_between:
  assumes "emits Data [] f Data [n]" and "f out = Inr out1" and "accepted out1 out2"
    and "emits Data [n] g Data []" and "g out2 = Inr out3"
  shows "accepted out out3"
proof -
  obtain s where s: "out1 = out @ s" "\<forall>st. scan s (Data, st) = Some (Data, n # st)"
    using assms(1,2) by (auto simp: emits_def)
  obtain t where t: "out2 = out1 @ t" "\<forall>st. scan t (Data, st) = Some (Data, st)"
    using assms(3) by (auto simp: accepted_def)
  obtain u where u: "out3 = out2 @ u" "\<forall>st. scan u (Data, n # st) = Some (Data, st)"
    using assms(4,5) by (auto simp: emits_def)
  show ?thesis unfolding accepted_def using s t u by (intro exI [of _ "s @ t @ u"]) (simp add: scan_append)
qed

lemma emits_classes_tag:
  assumes "cs \<noteq> []" and "n \<in> set elements"
  shows "emits (Tag n) k (classes cs) (After n) k"
proof -
  have "scan_pieces ([L '' class=\"''] @ class_pieces cs @ [L ''\"'']) (Tag n, k @ st) = Some (After n, k @ st)" for st
  proof -
    obtain v where "scan_pieces (class_pieces cs) (Quoted n ''class'' [], k @ st) = Some (Quoted n ''class'' v, k @ st)"
      using scan_class_pieces by blast
    moreover have "scan '' class=\"'' (Tag n, k @ st) = Some (Quoted n ''class'' [], k @ st)"
      using assms(2) by (simp add: scan_char_def attributes_def name_char_def ascii_defs)
    moreover have "scan ''\"'' (Quoted n ''class'' v, k @ st) = Some (After n, k @ st)"
      by (simp add: scan_char_def url_attributes_def)
    ultimately show ?thesis by (simp only: scan_pieces_append scan_pieces.simps option.case)
  qed
  then show ?thesis using assms(1) by (simp add: classes_def emits_frag_line)
qed

lemma element_tag_ok: "element_tag e \<in> set elements \<and> element_tag e \<notin> set void_elements"
  by (cases e) (simp_all add: element_tag_def elements_def void_elements_def)

lemma scan_element_tag: "scan (element_tag e) (Tag [], st) = Some (Tag (element_tag e), st)"
  "scan (element_tag e) (Close [], st) = Some (Close (element_tag e), st)"
  by (cases e; simp add: element_tag_def scan_char_def name_char_def ascii_defs)+

lemma emits_element_open:
  "emits Data [] (emit [frag_line [L ''<'', L (element_tag e)], classes c, frag_line [L ''>'']]) Data [element_tag e]"
proof -
  have less: "scan ''<'' (Data, st) = Some (Tag [], st)" for st by (simp add: scan_char_def)
  have a: "emits Data [] (frag_line [L ''<'', L (element_tag e)]) (Tag (element_tag e)) []"
    by (rule emits_frag_line) (simp only: scan_pieces.simps less option.case scan_element_tag append_Nil)
  have z: "emits m [] (frag_line [L ''>'']) Data [element_tag e]" if "m = Tag (element_tag e) \<or> m = After (element_tag e)" for m
    by (rule emits_frag_line) (use that element_tag_ok [of e] in \<open>auto simp: scan_char_def open_element_def name_char_def ascii_defs\<close>)
  show ?thesis
  proof (cases "c = []")
    case True
    then have "classes c = emit []" by (simp add: classes_def)
    then show ?thesis using emits_cons [OF a emits_cons [OF _ emits_cons [OF z emits_nil]]] by auto
  next
    case False
    then show ?thesis
      using emits_cons [OF a emits_cons [OF emits_classes_tag emits_cons [OF z emits_nil]]] element_tag_ok by auto
  qed
qed

lemma emits_element_close: "emits Data [element_tag e] (frag_line [L ''</'', L (element_tag e), L ''>'']) Data []"
proof (rule emits_frag_line)
  fix st
  have "scan ''</'' (Data, st) = Some (Close [], st)" for st by (simp add: scan_char_def)
  then show "scan_pieces [L ''</'', L (element_tag e), L ''>''] (Data, [element_tag e] @ st) = Some (Data, [] @ st)"
    by (simp only: scan_pieces.simps option.case scan_element_tag) (simp add: scan_char_def)
qed

lemma emits_navigation_open:
  "emits Data [] (emit [frag_line [L ''<nav aria-label=\"'', T label, L ''\"''], classes c, frag_line [L ''>'']]) Data [''nav'']"
proof -
  have a: "emits Data [] (frag_line [L ''<nav aria-label=\"'', T label, L ''\"'']) (After ''nav'') []"
    by (rule emits_frag_line) (simp add: scan_simps)
  have z: "emits (After ''nav'') [] (frag_line [L ''>'']) Data [''nav'']"
    by (rule emits_frag_line) (simp add: scan_simps)
  show ?thesis by (intro emits_cons [OF a] emits_cons [OF emits_classes] emits_cons [OF z] emits_nil)
qed

lemma emits_navigation_close: "emits Data [''nav''] (frag_line [L ''</nav>'']) Data []"
  by (rule emits_frag_line) (simp add: scan_simps)

lemma fragment_text: "fragment (frag_line [T s])"
  by (rule emits_frag_line) simp

text \<open>A node that renders has taken part of the budget and appended accepted markup.\<close>

definition node_ok :: "asset_bundle \<Rightarrow> (route_ref \<Rightarrow> string res) \<Rightarrow> presentation_node \<Rightarrow> bool" where
  "node_ok bundle resolve n \<longleftrightarrow>
     (\<forall>depth remaining out remaining' out'. render_node bundle resolve n depth (remaining, out) = Inr (remaining', out')
        \<longrightarrow> accepted out out' \<and> remaining' < remaining)"

lemma render_nodes_accepted:
  assumes "\<forall>n \<in> set ns. node_ok bundle resolve n"
    and "render_nodes bundle resolve ns depth (remaining, out) = Inr (remaining', out')"
  shows "accepted out out' \<and> remaining' \<le> remaining"
  using assms
proof (induction ns arbitrary: remaining out)
  case (Cons n ns)
  obtain r1 out1 where n: "render_node bundle resolve n depth (remaining, out) = Inr (r1, out1)"
    and ns: "render_nodes bundle resolve ns depth (r1, out1) = Inr (remaining', out')"
    using Cons.prems(2) by (auto simp: res_simps simp del: render_node.simps)
  have "accepted out out1 \<and> r1 < remaining" using Cons.prems(1) n by (auto simp: node_ok_def simp del: render_node.simps)
  moreover have "accepted out1 out' \<and> remaining' \<le> r1" using Cons.IH [OF _ ns] Cons.prems(1) by simp
  ultimately show ?case by (auto intro: accepted_trans)
qed simp

lemma node_accepted:
  assumes "\<And>d p. resolve d = Inr p \<Longrightarrow> same_origin p"
  shows "node_ok bundle resolve n"
proof (induction n)
  case (NText s)
  show ?case unfolding node_ok_def
    by (auto simp: res_simps Let_def intro: accepted_fragment [OF fragment_text] split: if_splits)
next
  case (NImage asset alt c)
  show ?case unfolding node_ok_def
    by (auto simp: res_simps Let_def intro: accepted_fragment [OF fragment_image] split: if_splits)
next
  case (NLink destination s c)
  show ?case unfolding node_ok_def
    by (auto simp: res_simps Let_def intro: accepted_fragment [OF fragment_link] assms split: if_splits)
next
  case (NElement e c children)
  show ?case unfolding node_ok_def
  proof (intro allI impI)
    fix depth remaining out remaining' out'
    assume "render_node bundle resolve (NElement e c children) depth (remaining, out) = Inr (remaining', out')"
    then obtain out1 out2 where
      1: "emit [frag_line [L ''<'', L (element_tag e)], classes c, frag_line [L ''>'']] out = Inr out1"
      and 2: "render_nodes bundle resolve children (depth - 1) (remaining - 1, out1) = Inr (remaining', out2)"
      and 3: "frag_line [L ''</'', L (element_tag e), L ''>''] out2 = Inr out'" and r: "remaining > 0"
      by (auto simp: res_simps Let_def split: if_splits simp del: emit.simps)
    have "accepted out1 out2 \<and> remaining' \<le> remaining - 1" using render_nodes_accepted [OF _ 2] NElement by blast
    then show "accepted out out' \<and> remaining' < remaining"
      using accepted_between [OF emits_element_open 1 _ emits_element_close 3] r by auto
  qed
next
  case (NNavigation label c children)
  show ?case unfolding node_ok_def
  proof (intro allI impI)
    fix depth remaining out remaining' out'
    assume "render_node bundle resolve (NNavigation label c children) depth (remaining, out) = Inr (remaining', out')"
    then obtain out1 out2 where
      1: "emit [frag_line [L ''<nav aria-label=\"'', T label, L ''\"''], classes c, frag_line [L ''>'']] out = Inr out1"
      and 2: "render_nodes bundle resolve children (depth - 1) (remaining - 1, out1) = Inr (remaining', out2)"
      and 3: "frag_line [L ''</nav>''] out2 = Inr out'" and r: "remaining > 0"
      by (auto simp: res_simps Let_def split: if_splits simp del: emit.simps)
    have "accepted out1 out2 \<and> remaining' \<le> remaining - 1" using render_nodes_accepted [OF _ 2] NNavigation by blast
    then show "accepted out out' \<and> remaining' < remaining"
      using accepted_between [OF emits_navigation_open 1 _ emits_navigation_close 3] r by auto
  qed
qed

lemma rich_fragment_accepted:
  assumes resolve: "\<And>d p. resolve d = Inr p \<Longrightarrow> same_origin p"
    and r: "rich_fragment bundle resolve n remaining depth = Inr (remaining', s)"
  shows "scan s (Data, st) = Some (Data, st) \<and> remaining' < remaining"
proof -
  have "node_ok bundle resolve n" by (rule node_accepted) (rule resolve)
  moreover have "render_node bundle resolve n depth (remaining, []) = Inr (remaining', s)"
    using r by (auto simp: rich_fragment_def simp del: render_node.simps split: if_splits)
  ultimately have "accepted [] s" "remaining' < remaining" unfolding node_ok_def by blast+
  then show ?thesis by (simp add: accepted_def)
qed

lemma asset_stylesheet_accepted:
  assumes "asset_stylesheet name bundle = Inr s"
  shows "scan s (Data, st) = Some (Data, st)"
proof -
  obtain a path where p: "public_path a = Inr path" and s: "s = ''<link rel=\"stylesheet\" href=\"'' @ path @ ''\">''"
    using assms by (auto simp: asset_stylesheet_def res_simps split: if_splits)
  have "scan ''<link rel=\"stylesheet\" href=\"'' (Data, st) = Some (Quoted ''link'' ''href'' [], st)" by (simp add: scan_simps)
  moreover have "scan ''\">'' (Quoted ''link'' ''href'' path, st) = Some (Data, st)"
    using public_path_ok [OF p] by (simp add: scan_simps)
  moreover have "scan path (Quoted ''link'' ''href'' [], st) = Some (Quoted ''link'' ''href'' path, st)"
    using public_path_ok [OF p] by simp
  ultimately show ?thesis unfolding s scan_append by simp
qed

end
