(* ===== verification/Declarations.thy ===== *)
theory Declarations
  imports Contract
begin

text \<open>
  The declaration vocabulary of a contract: the expressions and guards of
  \<^verbatim>\<open>crates/noxide-protocol/src/computation.rs\<close>, background work (\<^verbatim>\<open>jobs.rs\<close>), outgoing effects
  (\<^verbatim>\<open>effects.rs\<close>), queries (\<^verbatim>\<open>query.rs\<close>), resource expiry (\<^verbatim>\<open>expiry.rs\<close>) and unique
  memberships (\<^verbatim>\<open>membership.rs\<close>).  A \<open>BTreeMap\<close> is its list of entries in key order.
\<close>

section \<open>Expressions and guards\<close>

definition MAX_EXPRESSION_NODES :: nat where "MAX_EXPRESSION_NODES = 64"
definition MAX_EXPRESSION_DEPTH :: nat where "MAX_EXPRESSION_DEPTH = 8"
definition MAX_GUARDS :: nat where "MAX_GUARDS = 8"

datatype literal =
    LText string | LInteger int | LBoolean bool | LChoice string | LAccount string
  | LTimestamp timestamp | LDuration duration

datatype expr =
    EInput string | ELiteral literal | ETarget string | ECreated nat | EPrincipal | ETransactionTime
  | ESnapshotField string string bool | ECurrentField string string
  | EAdd expr expr | ESubtract expr expr | EMultiply expr expr

datatype comparison = CompareEqual | CompareNotEqual | CompareLess | CompareLessOrEqual | CompareGreater | CompareGreaterOrEqual

datatype guard_condition = GCompare expr comparison expr | GAll "guard_condition list"

record guard_rejection =
  gj_input :: "string option"
  gj_message :: string

record guard =
  gu_condition :: guard_condition
  gu_rejection :: guard_rejection

primrec uses_time :: "expr \<Rightarrow> bool" where
  "uses_time (EInput _) = False"
| "uses_time (ELiteral _) = False"
| "uses_time (ETarget _) = False"
| "uses_time (ECreated _) = False"
| "uses_time EPrincipal = False"
| "uses_time ETransactionTime = True"
| "uses_time (ESnapshotField _ _ _) = False"
| "uses_time (ECurrentField _ _) = False"
| "uses_time (EAdd l r) = (uses_time l \<or> uses_time r)"
| "uses_time (ESubtract l r) = (uses_time l \<or> uses_time r)"
| "uses_time (EMultiply l r) = (uses_time l \<or> uses_time r)"

fun condition_uses_time :: "guard_condition \<Rightarrow> bool" where
  "condition_uses_time (GCompare l _ r) = (uses_time l \<or> uses_time r)"
| "condition_uses_time (GAll conditions) = list_ex condition_uses_time conditions"

section \<open>Background work\<close>

definition MAX_SCHEDULES_PER_ACTION :: nat where "MAX_SCHEDULES_PER_ACTION = 2"
definition MAX_PENDING_JOBS :: nat where "MAX_PENDING_JOBS = 1000"
definition MAX_JOB_BYTES :: nat where "MAX_JOB_BYTES = 16384"
definition MAX_SCHEDULE_HORIZON_MILLIS :: int where "MAX_SCHEDULE_HORIZON_MILLIS = 2592000000"
definition MIN_RECURRENCE_MILLIS :: int where "MIN_RECURRENCE_MILLIS = 60000"
definition MAX_RECURRENCE_FANOUT :: nat where "MAX_RECURRENCE_FANOUT = 20"
definition JOB_LEASE_MILLIS :: int where "JOB_LEASE_MILLIS = 30000"
definition MAX_JOB_ATTEMPTS :: int where "MAX_JOB_ATTEMPTS = 5"
definition JOB_RETRY_WINDOW_MILLIS :: int where "JOB_RETRY_WINDOW_MILLIS = 86400000"
definition MAX_WORKERS_PER_APP :: nat where "MAX_WORKERS_PER_APP = 2"

record worker_target =
  wt_resource :: nat
  wt_eligible :: nat

record worker_action =
  wa_action :: nat
  wa_targets :: "(string \<times> worker_target) list"

record service_worker =
  sw_name :: string
  sw_actions :: "worker_action list"

datatype scheduled_target = STarget string | SCreated nat

record schedule =
  sc_source_action :: nat
  sc_ordinal :: nat
  sc_worker :: string
  sc_action :: nat
  sc_targets :: "(string \<times> scheduled_target) list"
  sc_inputs :: "(string \<times> expr) list"
  sc_due_at :: expr

record recurring_selection =
  sel_operation :: nat
  sel_target :: string
  sel_expiry_repair :: bool

record recurring_schedule =
  rs_name :: string
  rs_worker :: string
  rs_action :: nat
  rs_interval :: duration
  rs_inputs :: "(string \<times> literal) list"
  rs_selection :: "recurring_selection option"

record job_contract =
  jc_workers :: "service_worker list"
  jc_schedules :: "schedule list"
  jc_recurring :: "recurring_schedule list"

section \<open>Outgoing effects\<close>

definition MAX_EFFECTS_PER_ACTION :: nat where "MAX_EFFECTS_PER_ACTION = 2"
definition MAX_ENDPOINTS :: nat where "MAX_ENDPOINTS = 32"
definition MAX_PAYLOAD_FIELDS :: nat where "MAX_PAYLOAD_FIELDS = 32"

record effect_endpoint =
  ee_name :: string
  ee_secret_slot :: "string option"

record payload_field =
  pf_schema :: action_input
  pf_value :: expr

record emit_effect =
  em_source_action :: nat
  em_ordinal :: nat
  em_endpoint :: string
  em_fields :: "payload_field list"

record effect_contract =
  ec_endpoints :: "effect_endpoint list"
  ec_emissions :: "emit_effect list"

section \<open>Queries\<close>

definition TOKENIZER_ID :: string where
  "TOKENIZER_ID = ''noxide-token-and-v1;nfkc=0.1.25/unicode17.0.0;category=0.1.4/unicode17.0.0;lower=str-default/unicode17.0.0/rust1.98.0''"

datatype operand = OLiteral string | OParam string

record search_index =
  sx_tokenizer :: string
  sx_fields :: "string list"
  sx_max_bytes :: nat

record search =
  sh_fields :: "string list"
  sh_parameter :: string

record range_bound =
  bd_value :: operand
  bd_inclusive :: bool

record range =
  rg_field :: string
  rg_lower :: "range_bound option"
  rg_upper :: "range_bound option"

datatype direction = Ascending | Descending
datatype sort_mode = ImmutableKey | LiveView

datatype aggregate_function = Count | Sum string | MinOf string | MaxOf string

record aggregate =
  ag_source :: nat
  ag_function :: aggregate_function

datatype disclosure =
    SearchDisclosure string | OrderDisclosure string | RangeDisclosure string | AggregateDisclosure "string option"

record query =
  qu_search :: "search option"
  qu_range :: "range option"
  qu_aggregate :: "aggregate option"
  qu_disclose :: "disclosure list"

definition query_empty :: "query \<Rightarrow> bool" where
  "query_empty q \<longleftrightarrow> qu_search q = None \<and> qu_range q = None \<and> qu_aggregate q = None \<and> qu_disclose q = []"

section \<open>Expiry and unique memberships\<close>

definition MAX_EXPIRY_MILLIS :: int where "MAX_EXPIRY_MILLIS = 2592000000"

record resource_expiry =
  xp_field :: string
  xp_max_after :: duration

record membership_unique =
  mu_reference :: string
  mu_account :: string

end
