(* ===== verification/Manifest.thy ===== *)
theory Manifest
  imports Declarations Rich_Document Blob_Policy
begin

text \<open>
  The manifest of \<^verbatim>\<open>crates/noxide-protocol/src/lib.rs\<close> and its look-ups in
  \<^verbatim>\<open>crates/noxide-admission/src/manifest.rs\<close>.
\<close>

section \<open>Data\<close>

definition VERSION :: nat where "VERSION = 13"
definition MAX_INPUT_BYTES :: nat where "MAX_INPUT_BYTES = 32768"
definition MAX_MANIFEST_BYTES :: nat where "MAX_MANIFEST_BYTES = 32768"

record asset_declaration =
  ad_name :: string
  ad_digest :: string
  ad_media_type :: asset_media_type

record visibility =
  vs_field :: string
  vs_equals :: string

record gate =
  gt_field :: string
  gt_visible :: visibility
  gt_create_when :: visibility

record resource =
  re_search :: "search_index option"
  re_expiry :: "resource_expiry option"
  re_unique :: "membership_unique list"
  re_gate :: "gate option"
  re_id :: nat
  re_name :: string
  re_fields :: "text_field list"

datatype operation_kind = Aggregate | ListOp | ReadOp | CreateOp | UpdateOp | DeleteOp

datatype list_order = FieldOrder string direction sort_mode | CreatedAsc | CreatedDesc

record preview =
  pv_see_all :: "nat option"

record list_settings =
  lt_preview :: "preview option"
  lt_order :: list_order
  lt_page_size :: nat

record via =
  via_source :: nat
  via_field :: string

record filter_condition =
  fc_field :: string
  fc_equals :: operand

record operation =
  op_maintenance :: bool
  op_query :: "query option"
  op_bind :: "(string \<times> nat) list"
  op_scope :: "string option"
  op_via :: "via option"
  op_filter :: "filter_condition list"
  op_disclose :: "string list"
  op_list :: "list_settings option"
  op_id :: nat
  op_resource :: nat
  op_kind :: operation_kind
  op_policy :: policy
  op_visibility :: "visibility option"
  op_fields :: "string list option"

datatype container =
    CMain | CNav | CHeader | CFooter | CDiv | CArticle | CSection | CHeading1 | CHeading2 | CParagraph
  | CList | CItem | CStrong | CEmphasis | CCode | CPre

datatype control = CtlAuto | CtlTextInput | CtlTextarea nat | CtlCheckbox | CtlSelect | CtlFile

datatype form_instruction =
    FBegin container
  | FEnd
  | FText string
  | FField string control
  | FSubmit string

datatype revision = Exact | Identity

record inspection =
  ip_operation :: nat
  ip_fields :: "string list"

datatype target_source =
    TPage "nat list"
  | TService nat
  | TSelected nat nat "string list"
  | TReference string string nat

record action_target =
  tg_name :: string
  tg_resource :: nat
  tg_source :: target_source
  tg_revision :: revision
  tg_projection :: "inspection option"
  tg_inspect :: "inspection option"

datatype step_target = NoTarget | NamedTarget string

datatype change = ChangeSet expr | ChangeDecrease expr guard_rejection | ChangeIncrease expr guard_rejection

record assignment =
  as_field :: string
  as_change :: change

record step =
  sp_guards :: "guard list"
  sp_operation :: nat
  sp_target :: step_target
  sp_assign :: "assignment list"

record action =
  ac_id :: nat
  ac_version :: nat
  ac_name :: string
  ac_targets :: "action_target list"
  ac_inputs :: "action_input list"
  ac_steps :: "step list"

datatype redirect_source = RedirectTarget string | RedirectStep nat | RedirectReference nat string

record redirect =
  rd_route :: nat
  rd_source :: redirect_source

record web_binding =
  wb_id :: nat
  wb_version :: nat
  wb_action :: nat
  wb_layout :: "form_instruction list"
  wb_redirect :: redirect

record manifest =
  mf_effects :: "effect_contract option"
  mf_jobs :: "job_contract option"
  mf_assets :: "asset_declaration list"
  mf_blobs :: "blob_policy option"
  mf_version :: nat
  mf_resources :: "resource list"
  mf_operations :: "operation list"
  mf_routes :: "route list"
  mf_actions :: "action list"
  mf_web_bindings :: "web_binding list"

section \<open>Look-ups\<close>

definition find_operation :: "manifest \<Rightarrow> nat \<Rightarrow> operation res" where
  "find_operation m n = ok_or (find (\<lambda>v. op_id v = n) (mf_operations m)) ''unknown operation''"

definition find_resource :: "manifest \<Rightarrow> nat \<Rightarrow> resource res" where
  "find_resource m n = ok_or (find (\<lambda>v. re_id v = n) (mf_resources m)) ''unknown resource''"

definition manifest_route :: "manifest \<Rightarrow> nat \<Rightarrow> route res" where
  "manifest_route m n = ok_or (find (\<lambda>r. rt_route_id r = n) (mf_routes m)) ''unknown route''"

definition find_action :: "manifest \<Rightarrow> nat \<Rightarrow> action res" where
  "find_action m n = ok_or (find (\<lambda>a. ac_id a = n) (mf_actions m)) ''unknown action''"

definition web_binding_of :: "manifest \<Rightarrow> nat \<Rightarrow> web_binding res" where
  "web_binding_of m n = ok_or (find (\<lambda>b. wb_id b = n) (mf_web_bindings m)) ''unknown web binding''"

record web_action =
  wa_id :: nat
  wa_version :: nat
  wa_layout :: "form_instruction list"
  wa_redirect :: redirect
  wa_core :: action

definition web_action_of :: "manifest \<Rightarrow> nat \<Rightarrow> web_action res" where
  "web_action_of m n =
     and_then (web_binding_of m n) (\<lambda>binding.
     and_then (find_action m (wb_action binding)) (\<lambda>core.
     Inr \<lparr>wa_id = wb_id binding, wa_version = wb_version binding, wa_layout = wb_layout binding,
          wa_redirect = wb_redirect binding, wa_core = core\<rparr>))"

definition is_capability :: "operation \<Rightarrow> bool" where
  "is_capability v = list_ex (\<lambda>p. p = Capability) (concat (any_of (op_policy v)))"

definition is_public :: "operation \<Rightarrow> bool" where
  "is_public v = list_ex (\<lambda>p. p = Public) (concat (any_of (op_policy v)))"

definition anonymous_action :: "operation \<Rightarrow> bool" where
  "anonymous_action v \<longleftrightarrow> is_public v \<and> op_kind v = CreateOp \<or> is_capability v"

definition is_preview :: "operation \<Rightarrow> bool" where
  "is_preview v = (case op_list v of Some s \<Rightarrow> lt_preview s \<noteq> None | None \<Rightarrow> False)"

definition resource_field :: "resource \<Rightarrow> string \<Rightarrow> text_field option" where
  "resource_field r name = find (\<lambda>f. tf_name f = name) (re_fields r)"

definition is_reference :: "text_field \<Rightarrow> bool" where
  "is_reference f = (case tf_kind f of KReference _ \<Rightarrow> True | _ \<Rightarrow> False)"

definition reference_fields :: "resource \<Rightarrow> text_field list" where
  "reference_fields r = filter is_reference (re_fields r)"

definition reference_field :: "resource \<Rightarrow> string \<Rightarrow> text_field option" where
  "reference_field r name = find (\<lambda>f. tf_name f = name) (reference_fields r)"

definition reference_resource :: "manifest \<Rightarrow> nat \<Rightarrow> string \<Rightarrow> resource option res" where
  "reference_resource m child name =
     and_then (find_resource m child) (\<lambda>r.
     case map_option tf_kind (reference_field r name) of
       Some (KReference key) \<Rightarrow>
         and_then (ok_or (find (\<lambda>t. re_name t = key) (mf_resources m)) ''unknown reference resource'') (\<lambda>t. Inr (Some t))
     | _ \<Rightarrow> Inr None)"

definition gate_permits :: "resource \<Rightarrow> fields \<Rightarrow> bool \<Rightarrow> bool" where
  "gate_permits r target write \<longleftrightarrow>
     (case re_gate r of
        None \<Rightarrow> True
      | Some g \<Rightarrow> target (vs_field (gt_visible g)) = Some (vs_equals (gt_visible g))
          \<and> (\<not> write \<or> target (vs_field (gt_create_when g)) = Some (vs_equals (gt_create_when g))))"

definition find_target :: "action_target list \<Rightarrow> string \<Rightarrow> action_target res" where
  "find_target targets name = ok_or (find (\<lambda>t. tg_name t = name) targets) ''unknown named target''"

fun page_resource_from :: "nat option \<Rightarrow> action_target list \<Rightarrow> nat option res" where
  "page_resource_from r [] = Inr r"
| "page_resource_from r (t # ts) =
     (case tg_source t of
        TPage _ \<Rightarrow>
          ensure (r = None \<or> r = Some (tg_resource t)) ''page target resource mismatch''
            (page_resource_from (Some (tg_resource t)) ts)
      | _ \<Rightarrow> page_resource_from r ts)"

definition page_resource :: "action_target list \<Rightarrow> nat option res" where
  "page_resource = page_resource_from None"

fun projected_from :: "resource \<Rightarrow> string list \<Rightarrow> string list \<Rightarrow> text_field list res" where
  "projected_from r [] seen = Inr []"
| "projected_from r (n # ns) seen =
     ensure (n \<notin> set seen) ''duplicate projected field''
     (and_then (ok_or (resource_field r n) ''unknown projected field'') (\<lambda>f.
      and_then (projected_from r ns (n # seen)) (\<lambda>fs. Inr (f # fs))))"

definition projected_fields :: "resource \<Rightarrow> string list \<Rightarrow> text_field list res" where
  "projected_fields r names =
     ensure (length names \<le> length (re_fields r)) ''field projection limit'' (projected_from r names [])"

section \<open>Values\<close>

text \<open>Entry lists of a \<open>BTreeMap\<close>: their keys are distinct.\<close>

fun each_ok :: "('a \<Rightarrow> unit res) \<Rightarrow> 'a list \<Rightarrow> unit res" where
  "each_ok f [] = Inr ()"
| "each_ok f (x # xs) = and_then (f x) (\<lambda>_. each_ok f xs)"

definition validate_field :: "(string \<times> string) list \<Rightarrow> text_field \<Rightarrow> unit res" where
  "validate_field values f =
     and_then (ok_or (map_of values (tf_name f)) ''missing field'') (\<lambda>v. validate_value f v)"

definition validate_fields :: "resource \<Rightarrow> (string \<times> string) list \<Rightarrow> unit res" where
  "validate_fields r values =
     ensure (length values = length (re_fields r)) ''unexpected fields'' (each_ok (validate_field values) (re_fields r))"

definition input_value_ok :: "(string \<times> string) list \<Rightarrow> action_input \<Rightarrow> unit res" where
  "input_value_ok values i =
     and_then (ok_or (map_of values (in_name i)) ''missing input'') (\<lambda>v.
     ensure (input_canonical i v = Inr v) ''noncanonical action input'' (Inr ()))"

definition validate_inputs :: "action_input list \<Rightarrow> (string \<times> string) list \<Rightarrow> unit res" where
  "validate_inputs inputs values =
     ensure (length values = length inputs) ''unexpected action fields'' (each_ok (input_value_ok values) inputs)"

definition raw_input :: "(string \<times> string) list \<Rightarrow> action_input \<Rightarrow> string res" where
  "raw_input values i =
     (case map_of values (in_name i) of
        Some v \<Rightarrow> Inr v
      | None \<Rightarrow> if in_optional i then Inr [] else if in_kind i = KBoolean then Inr ''false''
                else Inl ''missing required field'')"

fun canonical_inputs :: "(string \<times> string) list \<Rightarrow> action_input list \<Rightarrow> (string \<times> string) list res" where
  "canonical_inputs values [] = Inr []"
| "canonical_inputs values (i # is) =
     and_then (raw_input values i) (\<lambda>raw.
     and_then (input_canonical i raw) (\<lambda>v.
     and_then (canonical_inputs values is) (\<lambda>rest. Inr ((in_name i, v) # rest))))"

definition canonical_input :: "action \<Rightarrow> (string \<times> string) list \<Rightarrow> (string \<times> string) list res" where
  "canonical_input a values =
     ensure (\<forall>key \<in> set (map fst values). key \<in> set (map in_name (ac_inputs a))) ''unexpected action field''
       (canonical_inputs values (ac_inputs a))"

section \<open>Lemmas\<close>

lemma each_ok_Inr: "each_ok f xs = Inr u \<longleftrightarrow> (\<forall>x \<in> set xs. f x = Inr ())"
  by (induction xs) (auto simp: res_simps)

lemma find_known:
  "find_operation m n = Inr v \<Longrightarrow> v \<in> set (mf_operations m) \<and> op_id v = n"
  "find_resource m n = Inr r \<Longrightarrow> r \<in> set (mf_resources m) \<and> re_id r = n"
  "find_action m n = Inr a \<Longrightarrow> a \<in> set (mf_actions m) \<and> ac_id a = n"
  "find_target ts name = Inr t \<Longrightarrow> t \<in> set ts \<and> tg_name t = name"
  by (auto simp: find_operation_def find_resource_def find_action_def find_target_def res_simps find_Some_iff)

end
