(* ===== verification/Form_Layout.thy ===== *)
theory Form_Layout
  imports Manifest
begin

text \<open>
  \<^verbatim>\<open>crates/noxide-admission/src/form_layout.rs\<close>: the admission of a form's layout.  The JSON
  encoder that measures a layout is an argument.
\<close>

section \<open>Limits\<close>

definition MAX_NODES :: nat where "MAX_NODES = 1024"
definition MAX_DEPTH :: nat where "MAX_DEPTH = 32"
definition LAYOUT_BYTES :: nat where "LAYOUT_BYTES = 65536"

section \<open>Layouts\<close>

definition form_container :: "container \<Rightarrow> bool" where
  "form_container c \<longleftrightarrow>
     c \<in> {CSection, CDiv, CArticle, CHeader, CFooter, CParagraph, CStrong, CEmphasis, CHeading1, CHeading2}"

definition form_phrasing :: "container \<Rightarrow> bool" where
  "form_phrasing c \<longleftrightarrow> c \<in> {CParagraph, CStrong, CEmphasis, CHeading1, CHeading2}"

definition top_phrasing :: "container list \<Rightarrow> bool" where
  "top_phrasing stack = (case stack of [] \<Rightarrow> False | c # _ \<Rightarrow> form_phrasing c)"

definition control_fits :: "control \<Rightarrow> action_input \<Rightarrow> bool" where
  "control_fits control f =
     (case control of
        CtlFile \<Rightarrow> (case in_kind f of KUploadHandle _ \<Rightarrow> True | _ \<Rightarrow> False)
      | CtlAuto \<Rightarrow> True
      | CtlTextInput \<Rightarrow>
          (case in_kind f of KText \<Rightarrow> True | KAccount _ \<Rightarrow> True | KInteger _ _ \<Rightarrow> True | KTimestamp \<Rightarrow> True | KDuration _ \<Rightarrow> True
           | _ \<Rightarrow> False)
      | CtlTextarea rows \<Rightarrow> in_kind f = KText \<and> 1 \<le> rows \<and> rows \<le> 40
      | CtlCheckbox \<Rightarrow> in_kind f = KBoolean \<and> \<not> in_optional f
      | CtlSelect \<Rightarrow> (case in_kind f of KChoice _ \<Rightarrow> True | _ \<Rightarrow> False) \<or> in_kind f = KBoolean \<and> in_optional f)"

text \<open>The loop's state: fields placed, open containers (innermost first), whether a submit was seen.\<close>

record layout_state =
  ls_seen :: "string list"
  ls_stack :: "container list"
  ls_submit :: bool

definition layout_node :: "action_input list \<Rightarrow> form_instruction \<Rightarrow> layout_state \<Rightarrow> layout_state res" where
  "layout_node inputs node s =
     (case node of
        FBegin c \<Rightarrow>
          ensure (form_container c) ''form container''
          (ensure (length (ls_stack s) < MAX_DEPTH) ''form depth''
          (ensure (\<not> top_phrasing (ls_stack s) \<or> c \<in> {CStrong, CEmphasis}) ''form content model''
           (Inr (s\<lparr>ls_stack := c # ls_stack s\<rparr>))))
      | FEnd \<Rightarrow> ensure (ls_stack s \<noteq> []) ''unmatched form end'' (Inr (s\<lparr>ls_stack := tl (ls_stack s)\<rparr>))
      | FText t \<Rightarrow> ensure (length t \<le> 4096 \<and> \<not> has_control t) ''form text'' (Inr s)
      | FField name control \<Rightarrow>
          ensure (\<not> top_phrasing (ls_stack s)) ''form field context''
          (and_then (ok_or (find (\<lambda>f. in_name f = name) inputs) ''unknown form field'') (\<lambda>f.
           ensure (name \<notin> set (ls_seen s)) ''duplicate form field''
           (ensure (control_fits control f) ''incompatible form control''
            (Inr (s\<lparr>ls_seen := name # ls_seen s\<rparr>)))))
      | FSubmit label \<Rightarrow>
          ensure (\<not> ls_submit s \<and> label \<noteq> [] \<and> length label \<le> 128
              \<and> \<not> (has_control label \<or> LF \<in> set label \<or> TAB \<in> set label)) ''form submit''
          (ensure (\<not> top_phrasing (ls_stack s)) ''submit context''
           (Inr (s\<lparr>ls_submit := True\<rparr>))))"

fun layout_loop :: "action_input list \<Rightarrow> form_instruction list \<Rightarrow> layout_state \<Rightarrow> layout_state res" where
  "layout_loop inputs [] s = Inr s"
| "layout_loop inputs (n # ns) s = and_then (layout_node inputs n s) (layout_loop inputs ns)"

definition validate_layout :: "(form_instruction list \<Rightarrow> bytes res) \<Rightarrow> action \<Rightarrow> form_instruction list \<Rightarrow> unit res" where
  "validate_layout to_vec action layout =
     and_then (if length layout \<le> MAX_NODES then and_then (to_vec layout) (\<lambda>b. Inr (length b \<le> LAYOUT_BYTES)) else Inr False) (\<lambda>ok.
     ensure ok ''form layout limit''
     (and_then (layout_loop (ac_inputs action) layout \<lparr>ls_seen = [], ls_stack = [], ls_submit = False\<rparr>) (\<lambda>s.
      ensure (ls_stack s = [] \<and> ls_submit s \<and> length (ls_seen s) = length (ac_inputs action)) ''incomplete form layout''
        (Inr ()))))"

end
