(* ===== verification/Render_Forms.thy ===== *)
theory Render_Forms
  imports Html Form_Layout
begin

text \<open>
  \<^verbatim>\<open>crates/noxide-render/src/forms.rs\<close>: action forms with their fields, and query forms.

  A \<open>BTreeMap\<close> that is iterated is its association list in key order.  The JSON encoder, the search
  canonicaliser and the parameter table of a route are arguments.  A failed \<open>expect\<close>, an index out of
  range and an \<open>unreachable!\<close> are errors.
\<close>

section \<open>Definitions\<close>

type_synonym field_map = "(string \<times> string) list"

record presentation =
  pr_csrf_field :: string
  pr_submission_field :: string
  pr_capability_field :: string
  pr_account_path :: string
  pr_logout_path :: string
  pr_action_path :: string
  pr_stylesheet_path :: string
  pr_stylesheet :: "string option"

record form_credentials =
  fc_upload_ticket :: "string option"
  fc_csrf :: string
  fc_submission :: string
  fc_values :: field_map
  fc_selections :: "string \<rightharpoonup> (string \<times> string) list"
  fc_selected :: "string \<rightharpoonup> string"

definition container_tag :: "container \<Rightarrow> string" where
  "container_tag c =
     (case c of CArticle \<Rightarrow> ''article'' | CSection \<Rightarrow> ''section'' | CHeading1 \<Rightarrow> ''h1'' | CHeading2 \<Rightarrow> ''h2'' | CParagraph \<Rightarrow> ''p''
      | CList \<Rightarrow> ''ul'' | CItem \<Rightarrow> ''li'' | CStrong \<Rightarrow> ''strong'' | CEmphasis \<Rightarrow> ''em'' | CCode \<Rightarrow> ''code'' | CPre \<Rightarrow> ''pre''
      | CMain \<Rightarrow> ''main'' | CNav \<Rightarrow> ''nav'' | CHeader \<Rightarrow> ''header'' | CFooter \<Rightarrow> ''footer'' | CDiv \<Rightarrow> ''div'')"

definition hidden :: "string \<Rightarrow> string \<Rightarrow> writer" where
  "hidden name value = line [L ''<input type=\"hidden\" name=\"'', T name, L ''\" value=\"'', T value, L ''\">'']"

definition option_line :: "string \<Rightarrow> string \<Rightarrow> bool \<Rightarrow> writer" where
  "option_line value label selected =
     line [L ''<option value=\"'', T value, L (if selected then ''\" selected>'' else ''\">''), T label, L ''</option>'']"

definition resolve_control :: "control \<Rightarrow> action_input \<Rightarrow> control res" where
  "resolve_control requested f =
     (case requested of
        CtlAuto \<Rightarrow>
          (case in_kind f of
             KBlob _ \<Rightarrow> Inl ''blob controls are not available''
           | KUploadHandle _ \<Rightarrow> Inl ''blob controls are not available''
           | KText \<Rightarrow> Inr (CtlTextarea 4)
           | KAccount _ \<Rightarrow> Inr CtlTextInput
           | KBoolean \<Rightarrow> Inr (if \<not> in_optional f then CtlCheckbox else CtlSelect)
           | KChoice _ \<Rightarrow> Inr CtlSelect
           | KInteger _ _ \<Rightarrow> Inr CtlTextInput
           | KTimestamp \<Rightarrow> Inr CtlTextInput
           | KDuration _ \<Rightarrow> Inr CtlTextInput
           | KReference _ \<Rightarrow> Inl ''parent fields cannot be form controls'')
      | control \<Rightarrow> Inr control)"

definition control_matches :: "control \<Rightarrow> action_input \<Rightarrow> bool" where
  "control_matches control f =
     (case (control, in_kind f) of
        (CtlTextarea _, KText) \<Rightarrow> True
      | (CtlTextInput, KText) \<Rightarrow> True
      | (CtlTextInput, KInteger _ _) \<Rightarrow> True
      | (CtlTextInput, KAccount _) \<Rightarrow> True
      | (CtlTextInput, KTimestamp) \<Rightarrow> True
      | (CtlTextInput, KDuration _) \<Rightarrow> True
      | (CtlCheckbox, KBoolean) \<Rightarrow> \<not> in_optional f
      | (CtlSelect, KChoice _) \<Rightarrow> True
      | (CtlSelect, KBoolean) \<Rightarrow> in_optional f
      | _ \<Rightarrow> False)"

definition numeric_kind :: "field_kind \<Rightarrow> bool" where
  "numeric_kind k = (case k of KInteger _ _ \<Rightarrow> True | KTimestamp \<Rightarrow> True | KDuration _ \<Rightarrow> True | _ \<Rightarrow> False)"

text \<open>The opening of the control's tag, left inside the tag.\<close>

definition control_open :: "control \<Rightarrow> action_input \<Rightarrow> string \<Rightarrow> writer" where
  "control_open control f value =
     (case control of
        CtlFile \<Rightarrow> (\<lambda>_. Inl ''blob controls are not available'')
      | CtlTextarea rows \<Rightarrow>
          emit [check (rows > 0 \<and> rows \<le> 64) ''textarea rows'',
            line [L (''<textarea rows=\"'' @ show_nat rows @ ''\" maxlength=\"'' @ show_nat (in_max_bytes f) @ ''\"'')]]
      | CtlTextInput \<Rightarrow>
          emit [line [L ''<input type=\"text\"''],
            (if numeric_kind (in_kind f) then line [L '' inputmode=\"numeric\"''] else emit []),
            line [L ('' maxlength=\"'' @ show_nat (in_max_bytes f) @ ''\" value=\"''), T value, L ''\"'']]
      | CtlCheckbox \<Rightarrow>
          emit [line [L ''<input type=\"checkbox\" value=\"true\"''],
            (if input_canonical f value = Inr ''true'' then line [L '' checked''] else emit [])]
      | CtlSelect \<Rightarrow> line [L ''<select'']
      | CtlAuto \<Rightarrow> (\<lambda>_. Inl ''resolved automatic control''))"

definition boolean_variants :: "choice_variant list" where
  "boolean_variants = [\<lparr>cv_key = ''true'', cv_label = ''Yes''\<rparr>, \<lparr>cv_key = ''false'', cv_label = ''No''\<rparr>]"

definition select_variants :: "field_kind \<Rightarrow> choice_variant list res" where
  "select_variants k =
     (case k of KBoolean \<Rightarrow> Inr boolean_variants | KChoice variants \<Rightarrow> Inr variants | _ \<Rightarrow> Inl ''validated select control'')"

text \<open>The rest of the control after its attributes.\<close>

definition control_body :: "control \<Rightarrow> action_input \<Rightarrow> string \<Rightarrow> writer" where
  "control_body control f value =
     (case control of
        CtlTextarea _ \<Rightarrow> line [L (''>'' @ [LF]), T value, L ''</textarea>'']
      | CtlSelect \<Rightarrow>
          emit [line [L ''>''],
            with_value (select_variants (in_kind f)) (\<lambda>variants.
              emit ([option_line [] (if in_optional f then ''Not set'' else ''Choose an option'') (value = []),
                  (if value \<noteq> [] \<and> \<not> list_ex (\<lambda>v. cv_key v = value) variants then option_line value value True else emit [])]
                @ map (\<lambda>v. option_line (cv_key v) (cv_label v) (cv_key v = value)) variants)),
            line [L ''</select>'']]
      | _ \<Rightarrow> line [L ''>''])"

definition error_text :: "action_input \<Rightarrow> string res" where
  "error_text f =
     (case in_kind f of
        KBlob _ \<Rightarrow> Inl ''blob controls are not available''
      | KUploadHandle _ \<Rightarrow> Inl ''blob controls are not available''
      | KText \<Rightarrow> Inr (''Enter '' @ (if in_optional f then [] else ''nonempty text of '') @ ''at most ''
          @ show_nat (in_max_bytes f) @ '' UTF-8 bytes.'')
      | KAccount _ \<Rightarrow> Inr (''Enter '' @ (if in_optional f then [] else ''nonempty text of '') @ ''at most ''
          @ show_nat (in_max_bytes f) @ '' UTF-8 bytes.'')
      | KBoolean \<Rightarrow> Inr ''Choose a boolean value.''
      | KInteger _ _ \<Rightarrow> Inr ''Enter an integer within the declared bounds.''
      | KTimestamp \<Rightarrow> Inr ''Enter UTC milliseconds since the Unix epoch.''
      | KDuration _ \<Rightarrow> Inr ''Enter duration milliseconds within the declared bound.''
      | KChoice _ \<Rightarrow> Inr ''Choose a declared option.''
      | KReference _ \<Rightarrow> Inl ''parent fields cannot be form controls'')"

definition discrete :: "control \<Rightarrow> bool" where
  "discrete c \<longleftrightarrow> c = CtlCheckbox \<or> c = CtlSelect"

definition write_if :: "bool \<Rightarrow> writer \<Rightarrow> writer" where
  "write_if c f = (if c then f else emit [])"

definition render_control :: "string \<Rightarrow> string \<Rightarrow> control \<Rightarrow> action_input \<Rightarrow> string \<Rightarrow> bool \<Rightarrow> bool \<Rightarrow> writer" where
  "render_control field_id error_id control f value readonly flagged =
     emit [line [L ''<label for=\"'', T field_id, L ''\">'', T (in_label f)],
       control_open control f value,
       line [L '' id=\"'', T field_id, L ''\" name=\"'', T (in_name f), L ''\"''],
       write_if (\<not> in_optional f \<and> control \<noteq> CtlCheckbox) (line [L '' required'']),
       write_if readonly (line [L (if discrete control then '' disabled'' else '' readonly'')]),
       write_if flagged (line [L '' aria-invalid=\"true\" aria-describedby=\"'', T error_id, L ''\"'']),
       control_body control f value,
       line [L ''</label>'']]"

definition render_field ::
  "nat \<Rightarrow> action_input \<Rightarrow> control \<Rightarrow> field_map \<Rightarrow> bool \<Rightarrow> field_map \<Rightarrow> bool \<Rightarrow> nat \<Rightarrow> writer" where
  "render_field action_id f requested input readonly errors validate instance_number =
     with_value (resolve_control requested f) (\<lambda>control.
     emit [check (control_matches control f) ''control type mismatch'',
       (let missing = (if in_kind f = KBoolean \<and> \<not> in_optional f then ''false'' else []);
            value = (case map_of input (in_name f) of Some v \<Rightarrow> v | None \<Rightarrow> missing);
            control = (if control = CtlTextInput \<and> (CR \<in> set value \<or> LF \<in> set value) then CtlTextarea 4 else control);
            invalid = (validate \<and> \<not> is_ok (input_canonical f value));
            error = map_of errors (in_name f);
            flagged = (invalid \<or> error \<noteq> None);
            suffix = show_nat action_id @ ''-'' @ show_nat instance_number @ ''-'' @ in_name f;
            error_id = ''error-'' @ suffix
        in emit [render_control (''field-'' @ suffix) error_id control f value readonly flagged,
             write_if (readonly \<and> discrete control) (hidden (in_name f) value),
             write_if flagged
               (emit [line [L ''<p id=\"'', T error_id, L ''\">''],
                  (case error of Some e \<Rightarrow> line [T e] | None \<Rightarrow> with_value (error_text f) (\<lambda>t. line [T t])),
                  line [L ''</p>'']])])])"

definition selected_target :: "form_credentials \<Rightarrow> action_target \<Rightarrow> writer" where
  "selected_target credentials t =
     (let name = ''_target_'' @ tg_name t in
      case fc_selected credentials (tg_name t) of
        Some value \<Rightarrow> hidden name value
      | None \<Rightarrow>
          emit [line [L ''<label>'', T (map (\<lambda>c. if c = CHR ''_'' then CHR '' '' else c) (tg_name t)), L ''<select name=\"'', T name,
              L ''\" required><option value=\"\">Choose a record</option>''],
            emit (map (\<lambda>(handle, label). line [L ''<option value=\"'', T handle, L ''\">'', T label, L ''</option>''])
              (case fc_selections credentials (tg_name t) of Some options \<Rightarrow> options | None \<Rightarrow> [])),
            line [L ''</select></label>'']])"

definition is_selected :: "action_target \<Rightarrow> bool" where
  "is_selected t = (case tg_source t of TSelected _ _ _ \<Rightarrow> True | _ \<Rightarrow> False)"

definition is_upload :: "action_input \<Rightarrow> bool" where
  "is_upload f = (case in_kind f of KUploadHandle _ \<Rightarrow> True | _ \<Rightarrow> False)"

text \<open>The loop over the layout; \<open>field\<close> renders one field.\<close>

fun layout_writer ::
  "action_input list \<Rightarrow> (action_input \<Rightarrow> control \<Rightarrow> writer) \<Rightarrow> string option \<Rightarrow> container list \<Rightarrow> form_instruction list \<Rightarrow> writer" where
  "layout_writer inputs field button stack [] = emit []"
| "layout_writer inputs field button stack (FBegin c # ns) =
     emit [line [L ''<'', L (container_tag c), L ''>''], layout_writer inputs field button (c # stack) ns]"
| "layout_writer inputs field button stack (FEnd # ns) =
     (case stack of
        [] \<Rightarrow> (\<lambda>_. Inl ''validated layout'')
      | c # stack \<Rightarrow> emit [line [L ''</'', L (container_tag c), L ''>''], layout_writer inputs field button stack ns])"
| "layout_writer inputs field button stack (FText t # ns) = emit [line [T t], layout_writer inputs field button stack ns]"
| "layout_writer inputs field button stack (FField name control # ns) =
     (case find (\<lambda>f. in_name f = name) inputs of
        None \<Rightarrow> (\<lambda>_. Inl ''validated field'')
      | Some f \<Rightarrow> emit [write_if (\<not> is_upload f) (field f control), layout_writer inputs field button stack ns])"
| "layout_writer inputs field button stack (FSubmit label # ns) =
     emit [line [L ''<button type=\"submit\">'', T (case button of Some b \<Rightarrow> b | None \<Rightarrow> label), L ''</button>''],
       layout_writer inputs field button stack ns]"

definition upload_field :: "field_map \<Rightarrow> action_input \<Rightarrow> writer" where
  "upload_field input f =
     (let staged = (case map_of input (in_name f) of Some v \<Rightarrow> v \<noteq> [] | None \<Rightarrow> False)
      in emit [write_if staged (line [L ''<p>File already uploaded. This submission reuses that file.</p>'']),
           line [L ''<label>'', T (in_label f), L ''<input type=\"file\" name=\"'', T (in_name f), L ''\"''],
           write_if (\<not> in_optional f \<and> \<not> staged) (line [L '' required'']),
           line [L ''></label>'']])"

definition first_operation :: "manifest \<Rightarrow> action \<Rightarrow> operation res" where
  "first_operation m action =
     (case ac_steps action of [] \<Rightarrow> Inl ''index out of bounds'' | s # _ \<Rightarrow> find_operation m (sp_operation s))"

definition default_layout :: "action \<Rightarrow> operation \<Rightarrow> form_instruction list" where
  "default_layout action v =
     map (\<lambda>f. FField (in_name f) CtlAuto) (ac_inputs action)
       @ [FSubmit (if op_kind v = DeleteOp then ''Delete record'' else ac_name action)]"

definition form ::
  "(form_instruction list \<Rightarrow> bytes res) \<Rightarrow> manifest \<Rightarrow> web_action \<Rightarrow> form_credentials \<Rightarrow> field_map \<Rightarrow> bool \<Rightarrow> field_map
     \<Rightarrow> string option \<Rightarrow> nat \<Rightarrow> presentation \<Rightarrow> writer" where
  "form to_vec m action credentials input readonly errors button instance_number presentation =
     (let core = wa_core action; inputs = ac_inputs core in
      emit [check (list_all (\<lambda>(name, _). list_ex (\<lambda>i. in_name i = name) inputs) (input @ errors)) ''unexpected form field'',
        line [L (''<form method=\"post\" action=\"'' @ pr_action_path presentation @ ''/'' @ show_nat (wa_id action)
          @ ''\" accept-charset=\"utf-8\"''
          @ (if fc_upload_ticket credentials \<noteq> None then '' enctype=\"multipart/form-data\"'' else []) @ ''>'')],
        hidden (pr_csrf_field presentation) (fc_csrf credentials),
        hidden (pr_submission_field presentation) (fc_submission credentials),
        (case fc_upload_ticket credentials of Some ticket \<Rightarrow> hidden ''_upload'' ticket | None \<Rightarrow> emit []),
        emit (map (selected_target credentials) (filter is_selected (ac_targets core))),
        with_value (first_operation m core) (\<lambda>v.
          emit [write_if (is_capability v)
              (line [L (''<label>Edit secret<input type=\"password\" name=\"'' @ pr_capability_field presentation
                @ ''\" autocomplete=\"off\" maxlength=\"128\" required></label>'')]),
            (let layout = (if wa_layout action = [] then default_layout core v else wa_layout action) in
             with_value (validate_layout to_vec core layout) (\<lambda>_.
               layout_writer inputs
                 (\<lambda>f control. render_field (wa_id action) f control input readonly errors (button \<noteq> None \<or> input \<noteq> []) instance_number)
                 button [] layout)),
            emit (map (upload_field input) (filter is_upload inputs)),
            line [L ''</form>'']])])"

section \<open>Query forms\<close>

datatype parameter_field = PField text_field | PSearch

definition parameter_validate :: "parameter_field \<Rightarrow> string \<Rightarrow> unit res" where
  "parameter_validate p value =
     ensure (length value \<le> 1024) ''route parameter limit''
     (case p of
        PSearch \<Rightarrow> ensure (value \<noteq> []) ''empty search parameter'' (Inr ())
      | PField f \<Rightarrow> ensure (field_canonical f value = Inr value) ''invalid route parameter'' (Inr ()))"

record query_form =
  qf_destination :: route_ref
  qf_search_label :: string
  qf_submit :: string

fun query_values ::
  "(string \<Rightarrow> string list res) \<Rightarrow> field_map \<Rightarrow> (string \<times> parameter_field) list \<Rightarrow> field_map res" where
  "query_values canonical_query params [] = Inr []"
| "query_values canonical_query params ((name, p) # ps) =
     and_then
       (case p of
          PSearch \<Rightarrow>
            (case map_of params name of
               None \<Rightarrow> Inr []
             | Some value \<Rightarrow>
                 and_then (parameter_validate p value) (\<lambda>_.
                 and_then (canonical_query value) (\<lambda>tokens. Inr [(name, join_with CHR '' '' tokens)])))
        | PField _ \<Rightarrow>
            and_then (ok_or (map_of params name) ''missing query form parameter'') (\<lambda>value.
            and_then (parameter_validate p value) (\<lambda>_. Inr [(name, value)])))
       (\<lambda>v. and_then (query_values canonical_query params ps) (\<lambda>vs. Inr (v @ vs)))"

definition query_choices :: "parameter_field \<Rightarrow> (choice_variant list \<times> bool) option" where
  "query_choices p =
     (case p of
        PSearch \<Rightarrow> None
      | PField f \<Rightarrow>
          (case tf_kind f of
             KBoolean \<Rightarrow> Some ([\<lparr>cv_key = ''false'', cv_label = ''False''\<rparr>, \<lparr>cv_key = ''true'', cv_label = ''True''\<rparr>], tf_optional f)
           | KChoice variants \<Rightarrow> Some (variants, tf_optional f)
           | _ \<Rightarrow> None))"

definition query_control :: "string \<Rightarrow> field_map \<Rightarrow> string \<times> parameter_field \<Rightarrow> writer" where
  "query_control search_label vals np =
     (case np of (name, p) \<Rightarrow>
      let value = (case map_of vals name of Some v \<Rightarrow> v | None \<Rightarrow> []) in
      emit [line [L ''<label>''],
        (case p of PSearch \<Rightarrow> line [T search_label] | PField f \<Rightarrow> line [T (tf_label f), L '' ('', T name, L '')'']),
        (case query_choices p of
           Some (choices, optional) \<Rightarrow>
             emit [line [L ''<select name=\"'', T name, L ''\">''],
               write_if optional (option_line [] ''Not set'' (value = [])),
               emit (map (\<lambda>c. option_line (cv_key c) (cv_label c) (cv_key c = value)) choices),
               line [L ''</select>'']]
         | None \<Rightarrow>
             line [L ''<input type=\"'', L (if p = PSearch then ''search'' else ''text''), L ''\" name=\"'', T name, L ''\" value=\"'', T value,
               L ''\" maxlength=\"'', T (show_nat (case p of PSearch \<Rightarrow> 1024 | PField f \<Rightarrow> min (tf_max_bytes f) 1024)),
               L ''\" required>'']),
        line [L ''</label>'']])"

definition query_form_writer ::
  "(route \<Rightarrow> (string \<times> parameter_field) list res) \<Rightarrow> (string \<Rightarrow> string list res) \<Rightarrow> manifest \<Rightarrow> query_form \<Rightarrow> writer" where
  "query_form_writer parameter_fields canonical_query m q =
     emit [check (qf_search_label q \<noteq> [] \<and> length (qf_search_label q) \<le> 128 \<and> qf_submit q \<noteq> [] \<and> length (qf_submit q) \<le> 128)
         ''query form label limit'',
       with_value (find_route (mf_routes m) (rr_route (qf_destination q))) (\<lambda>r.
       emit [check (rt_params r \<noteq> [] \<and> list_ex (\<lambda>n. case find_operation m n of
             Inr v \<Rightarrow> op_kind v = ListOp \<or> op_kind v = Aggregate | Inl _ \<Rightarrow> False) (rt_operations r))
           ''query form requires declared query'',
         with_value (parameter_fields r) (\<lambda>ps.
         emit [check (list_all (\<lambda>(name, _). list_ex (\<lambda>(n, _). n = name) ps) (rr_params (qf_destination q))) ''unknown query form parameter'',
           with_value (resolve_path (mf_routes m) (qf_destination q)) (\<lambda>path.
           with_value (query_values canonical_query (rr_params (qf_destination q)) ps) (\<lambda>vals.
             emit [line [L ''<form method=\"get\" action=\"'', T path, L ''\" accept-charset=\"utf-8\">''],
               emit (map (query_control (qf_search_label q) vals) ps),
               line [L ''<button type=\"submit\">'', T (qf_submit q), L ''</button></form>'']]))])])]"

section \<open>Inside a tag\<close>

text \<open>Where an attribute may follow or the tag may end, and a triple whose modes are predicates.\<close>

definition ready :: "string \<Rightarrow> html_mode \<Rightarrow> bool" where
  "ready n m \<longleftrightarrow> n \<in> set elements \<and> (m = After n \<or> m = Tag n \<or> (\<exists>b \<in> set bare_attributes. m = Attr n b))"

definition triple :: "(html_mode \<Rightarrow> bool) \<Rightarrow> string list \<Rightarrow> writer \<Rightarrow> (html_mode \<Rightarrow> bool) \<Rightarrow> string list \<Rightarrow> bool" where
  "triple P k f Q k' \<longleftrightarrow>
     (\<forall>out out'. f out = Inr out' \<longrightarrow>
        (\<exists>s. out' = out @ s \<and> (\<forall>m st. P m \<longrightarrow> (\<exists>m'. Q m' \<and> scan s (m, k @ st) = Some (m', k' @ st)))))"

lemma triple_emits: "emits m k f m' k' \<longleftrightarrow> triple ((=) m) k f ((=) m') k'"
  by (fastforce simp: emits_def triple_def)

lemma triple_weaken: "triple P k f Q k' \<Longrightarrow> (\<And>m. P' m \<Longrightarrow> P m) \<Longrightarrow> (\<And>m. Q m \<Longrightarrow> Q' m) \<Longrightarrow> triple P' k f Q' k'"
  unfolding triple_def by meson

lemma triple_nil: "triple P k (emit []) P k"
  by (auto simp: triple_def)

lemma triple_cons:
  assumes "triple P k f Q k1" and "triple Q k1 (emit fs) R k'"
  shows "triple P k (emit (f # fs)) R k'"
  unfolding triple_def
proof (intro allI impI)
  fix out out' assume "emit (f # fs) out = Inr out'"
  then obtain mid where mid: "f out = Inr mid" "emit fs mid = Inr out'" by (auto simp: res_simps)
  obtain s where s: "mid = out @ s" "\<forall>m st. P m \<longrightarrow> (\<exists>m'. Q m' \<and> scan s (m, k @ st) = Some (m', k1 @ st))"
    using assms(1) mid(1) unfolding triple_def by meson
  obtain t where t: "out' = mid @ t" "\<forall>m st. Q m \<longrightarrow> (\<exists>m'. R m' \<and> scan t (m, k1 @ st) = Some (m', k' @ st))"
    using assms(2) mid(2) unfolding triple_def by meson
  have "\<exists>m'. R m' \<and> scan (s @ t) (m, k @ st) = Some (m', k' @ st)" if "P m" for m st
  proof -
    obtain m1 where "Q m1" "scan s (m, k @ st) = Some (m1, k1 @ st)" using s(2) \<open>P m\<close> by blast
    moreover obtain m2 where "R m2" "scan t (m1, k1 @ st) = Some (m2, k' @ st)" using t(2) calculation(1) by blast
    ultimately show ?thesis by (intro exI [of _ m2]) (simp add: scan_append)
  qed
  then show "\<exists>s. out' = out @ s \<and> (\<forall>m st. P m \<longrightarrow> (\<exists>m'. R m' \<and> scan s (m, k @ st) = Some (m', k' @ st)))"
    using s(1) t(1) by (intro exI [of _ "s @ t"]) simp
qed

lemma triple_line:
  "(\<And>m st. P m \<Longrightarrow> \<exists>m'. Q m' \<and> scan_pieces ps (m, k @ st) = Some (m', k' @ st)) \<Longrightarrow> triple P k (line ps) Q k'"
  unfolding triple_def line_def using line_with_Inr by metis

lemma triple_write_if: "triple P k f P k \<Longrightarrow> triple P k (write_if c f) P k"
  by (simp add: write_if_def triple_nil)

lemma emits_write_if: "emits m k f m k \<Longrightarrow> emits m k (write_if c f) m k"
  by (simp add: write_if_def emits_nil)

lemma ready_space: "ready n m \<Longrightarrow> scan (CHR '' '' # s) (m, st) = scan s (Attr n [], st)"
  by (auto simp: ready_def scan_char_def bare_attributes_def)

lemma ready_close: "ready n m \<Longrightarrow> scan (CHR ''>'' # s) (m, st) = scan s (open_element n st)"
  by (auto simp: ready_def scan_char_def bare_attributes_def)

lemma ready_after: "n \<in> set elements \<Longrightarrow> ready n (After n)"
  by (simp add: ready_def)

text \<open>A line that starts with a space goes on with an attribute; one that starts with the end of the tag
  opens the element.\<close>

lemma triple_attribute:
  assumes "\<And>st. scan_pieces (L s # ps) (Attr n [], k @ st) = Some (m', k @ st)" and "Q m'"
  shows "triple (ready n) k (line (L (CHR '' '' # s) # ps)) Q k"
  by (rule triple_line) (use assms in \<open>auto simp: ready_space simp del: scan.simps\<close>)

lemma triple_quoted:
  assumes "\<And>st. scan_pieces (L s # ps) (Attr n [], k @ st) = Some (After n, k @ st)" and "n \<in> set elements"
  shows "triple (ready n) k (line (L (CHR '' '' # s) # ps)) (ready n) k"
  using assms by (intro triple_attribute) (auto intro: ready_after)

lemma triple_tag_end:
  assumes "\<And>st. scan_pieces (L s # ps) (open_element n (k @ st)) = Some (m', k' @ st)"
  shows "triple (ready n) k (line (L (CHR ''>'' # s) # ps)) ((=) m') k'"
  by (rule triple_line) (use assms in \<open>auto simp: ready_close simp del: scan.simps\<close>)

lemma triple_bare:
  assumes "b \<in> set bare_attributes" and "n \<in> set elements"
  shows "triple (ready n) k (line [L (CHR '' '' # b)]) (ready n) k"
proof (rule triple_attribute)
  show "scan_pieces [L b] (Attr n [], k @ st) = Some (Attr n b, k @ st)" for st
    using assms(1) by (auto simp: bare_attributes_def scan_char_def name_char_def ascii_defs)
  show "ready n (Attr n b)" using assms by (auto simp: ready_def)
qed

section \<open>Forms are accepted\<close>

lemma fragment_hidden: "fragment (hidden name value)"
  unfolding hidden_def by (rule emits_line) (simp add: scan_simps)

lemma fragment_option: "fragment (option_line value label selected)"
  unfolding option_line_def by (rule emits_line) (simp add: scan_simps)

lemmas emits_option = emits_under [OF fragment_option]

lemma emits_error: "emits m k (\<lambda>_. Inl e) m' k'"
  by (simp add: emits_def)

lemma emits_error_triple: "triple P k (\<lambda>_. Inl e) Q k'"
  by (simp add: triple_def)

lemma triple_check: "triple P k (emit fs) Q k' \<Longrightarrow> triple P k (emit (check c e # fs)) Q k'"
  by (auto simp: triple_def check_def)

definition control_element :: "control \<Rightarrow> string" where
  "control_element c = (case c of CtlTextarea _ \<Rightarrow> ''textarea'' | CtlSelect \<Rightarrow> ''select'' | _ \<Rightarrow> ''input'')"

lemma control_element_ok: "control_element c \<in> set elements"
  by (cases c) (simp_all add: control_element_def elements_def)

lemma triple_control_open: "triple ((=) Data) k (control_open control f value) (ready (control_element control)) k"
proof (cases control)
  case (CtlTextarea rows)
  have "triple ((=) Data) k (line [L (''<textarea rows=\"'' @ show_nat rows @ ''\" maxlength=\"'' @ show_nat (in_max_bytes f) @ ''\"'')])
      (ready ''textarea'') k"
    by (rule triple_line) (auto simp: scan_append scan_digits scan_simps ready_def)
  then show ?thesis using CtlTextarea triple_check triple_cons [OF _ triple_nil]
    by (simp add: control_open_def control_element_def)
next
  case CtlTextInput
  have a: "triple ((=) Data) k (line [L ''<input type=\"text\"'']) (ready ''input'') k"
    by (rule triple_line) (auto simp: scan_simps ready_def)
  have b: "triple (ready ''input'') k (if numeric_kind (in_kind f) then line [L '' inputmode=\"numeric\"''] else emit []) (ready ''input'') k"
    using triple_quoted [of "''inputmode=\"numeric\"''" "[]" "''input''" k] by (simp add: scan_simps triple_nil)
  have c: "triple (ready ''input'') k (line [L ('' maxlength=\"'' @ show_nat (in_max_bytes f) @ ''\" value=\"''), T value, L ''\"'']) (ready ''input'') k"
    using triple_quoted [of "''maxlength=\"'' @ show_nat (in_max_bytes f) @ ''\" value=\"''" "[T value, L ''\"'']" "''input''" k]
    by (simp add: scan_append scan_digits scan_simps)
  show ?thesis using CtlTextInput triple_cons [OF a triple_cons [OF b triple_cons [OF c triple_nil]]]
    by (simp add: control_open_def control_element_def)
next
  case CtlCheckbox
  have a: "triple ((=) Data) k (line [L ''<input type=\"checkbox\" value=\"true\"'']) (ready ''input'') k"
    by (rule triple_line) (auto simp: scan_simps ready_def)
  have b: "triple (ready ''input'') k (if input_canonical f value = Inr ''true'' then line [L '' checked''] else emit []) (ready ''input'') k"
    using triple_bare [of "''checked''" "''input''" k] by (simp add: triple_nil bare_attributes_def elements_def)
  show ?thesis using CtlCheckbox triple_cons [OF a triple_cons [OF b triple_nil]]
    by (simp add: control_open_def control_element_def)
next
  case CtlSelect
  have "triple ((=) Data) k (line [L ''<select'']) (ready ''select'') k"
    by (rule triple_line) (auto simp: scan_simps ready_def)
  then show ?thesis using CtlSelect by (simp add: control_open_def control_element_def)
qed (simp_all add: control_open_def emits_error_triple)

lemma triple_control_body: "triple (ready (control_element control)) k (control_body control f value) ((=) Data) k"
proof (cases control)
  case (CtlTextarea rows)
  have "triple (ready ''textarea'') k (line [L (''>'' @ [LF]), T value, L ''</textarea>'']) ((=) Data) k"
    using triple_tag_end [of "[LF]" "[T value, L ''</textarea>'']" "''textarea''" k] by (simp add: scan_simps)
  then show ?thesis using CtlTextarea by (simp add: control_body_def control_element_def)
next
  case CtlSelect
  have a: "triple (ready ''select'') k (line [L ''>'']) ((=) Data) (''select'' # k)"
    using triple_tag_end [of "[]" "[]" "''select''" k Data "''select'' # k"] by (simp add: scan_simps)
  have b: "emits Data (''select'' # k) (with_value (select_variants (in_kind f)) (\<lambda>variants.
      emit ([option_line [] (if in_optional f then ''Not set'' else ''Choose an option'') (value = []),
        (if value \<noteq> [] \<and> \<not> list_ex (\<lambda>v. cv_key v = value) variants then option_line value value True else emit [])]
      @ map (\<lambda>v. option_line (cv_key v) (cv_label v) (cv_key v = value)) variants))) Data (''select'' # k)"
    by (rule emits_with_value, rule emits_list) (auto intro: emits_option)
  have c: "emits Data (''select'' # k) (line [L ''</select>'']) Data k"
    by (rule emits_line) (simp add: scan_simps)
  show ?thesis using CtlSelect triple_cons [OF a triple_cons [OF b [unfolded triple_emits] triple_cons [OF c [unfolded triple_emits] triple_nil]]]
    by (simp add: control_body_def control_element_def)
qed (use triple_tag_end [of "[]" "[]" "''input''" k Data k] in \<open>simp_all add: control_body_def control_element_def scan_simps\<close>)

lemma fragment_control: "fragment (render_control field_id error_id control f value readonly flagged)"
proof -
  let ?e = "control_element control" and ?k = "[''label'']"
  have label: "triple ((=) Data) [] (line [L ''<label for=\"'', T field_id, L ''\">'', T (in_label f)]) ((=) Data) ?k"
    by (rule triple_line) (auto simp: scan_simps)
  have named: "triple (ready ?e) ?k (line [L '' id=\"'', T field_id, L ''\" name=\"'', T (in_name f), L ''\"'']) (ready ?e) ?k"
    using triple_quoted [of "''id=\"''" "[T field_id, L ''\" name=\"'', T (in_name f), L ''\"'']" ?e ?k] control_element_ok [of control]
    by (simp add: scan_char_def attributes_def url_attributes_def bare_attributes_def name_char_def ascii_defs)
  have required: "triple (ready ?e) ?k (write_if c (line [L '' required''])) (ready ?e) ?k" for c
    using triple_bare [of "''required''" ?e ?k] control_element_ok by (auto intro!: triple_write_if simp: bare_attributes_def)
  have mode: "triple (ready ?e) ?k (write_if c (line [L (if d then '' disabled'' else '' readonly'')])) (ready ?e) ?k" for c d
    using triple_bare [of "''disabled''" ?e ?k] triple_bare [of "''readonly''" ?e ?k] control_element_ok
    by (cases d) (auto intro!: triple_write_if simp: bare_attributes_def)
  have flag: "triple (ready ?e) ?k (write_if c (line [L '' aria-invalid=\"true\" aria-describedby=\"'', T error_id, L ''\"''])) (ready ?e) ?k" for c
    using triple_quoted [of "''aria-invalid=\"true\" aria-describedby=\"''" "[T error_id, L ''\"'']" ?e ?k] control_element_ok [of control]
    by (intro triple_write_if) (simp add: scan_char_def attributes_def url_attributes_def bare_attributes_def name_char_def ascii_defs)
  have close: "triple ((=) Data) ?k (line [L ''</label>'']) ((=) Data) []"
    by (rule triple_line) (auto simp: scan_simps)
  show ?thesis unfolding triple_emits render_control_def
    by (intro triple_cons [OF label] triple_cons [OF triple_control_open] triple_cons [OF named] triple_cons [OF required]
        triple_cons [OF mode] triple_cons [OF flag] triple_cons [OF triple_control_body] triple_cons [OF close] triple_nil)
qed

lemma fragment_emit: "(\<And>f. f \<in> set fs \<Longrightarrow> fragment f) \<Longrightarrow> fragment (emit fs)"
  by (rule emits_list)

lemma fragment_field: "fragment (render_field action_id f requested input readonly errors validate instance_number)"
proof -
  have p: "fragment (emit [line [L ''<p id=\"'', T error_id, L ''\">''], body, line [L ''</p>'']])"
    if "fragment body" for error_id body
  proof -
    have a: "emits Data [] (line [L ''<p id=\"'', T error_id, L ''\">'']) Data [''p'']" by (rule emits_line) (simp add: scan_simps)
    have z: "emits Data [''p''] (line [L ''</p>'']) Data []" by (rule emits_line) (simp add: scan_simps)
    show ?thesis by (intro emits_cons [OF a] emits_cons [OF emits_under [OF \<open>fragment body\<close>]] emits_cons [OF z] emits_nil)
  qed
  have t: "fragment (line [T t])" for t by (rule emits_line) simp
  show ?thesis unfolding render_field_def Let_def
    by (intro emits_with_value emits_check emits_cons [OF _ emits_nil] emits_cons [OF fragment_control]
        emits_cons [OF emits_write_if [OF fragment_hidden]] emits_write_if p)
      (auto simp: t intro: emits_with_value split: option.splits)
qed

lemma fragment_selected_target: "fragment (selected_target credentials t)"
proof (cases "fc_selected credentials (tg_name t)")
  case None
  let ?k = "[''select'', ''label'']"
  have a: "emits Data [] (line [L ''<label>'', T u, L ''<select name=\"'', T name,
      L ''\" required><option value=\"\">Choose a record</option>'']) Data ?k" for u name
    by (rule emits_line) (simp add: scan_simps)
  have b: "emits Data ?k (emit (map (\<lambda>(handle, label). line [L ''<option value=\"'', T handle, L ''\">'', T label, L ''</option>'']) os)) Data ?k" for os
    by (rule emits_list) (auto intro!: emits_line simp: scan_simps)
  have z: "emits Data ?k (line [L ''</select></label>'']) Data []" by (rule emits_line) (simp add: scan_simps)
  show ?thesis using None
    by (simp add: selected_target_def Let_def del: emit.simps) (intro emits_cons [OF a] emits_cons [OF b] emits_cons [OF z] emits_nil)
qed (simp add: selected_target_def fragment_hidden)

lemma fragment_upload: "fragment (upload_field input f)"
proof -
  have staged: "fragment (write_if c (line [L ''<p>File already uploaded. This submission reuses that file.</p>'']))" for c
    by (rule emits_write_if, rule emits_line) (simp add: scan_simps)
  have a: "triple ((=) Data) [] (line [L ''<label>'', T (in_label f), L ''<input type=\"file\" name=\"'', T (in_name f), L ''\"'']) (ready ''input'') [''label'']"
    by (rule triple_line) (auto simp: scan_simps ready_def)
  have b: "triple (ready ''input'') [''label''] (write_if c (line [L '' required''])) (ready ''input'') [''label'']" for c
    using triple_bare [of "''required''" "''input''" "[''label'']"] by (auto intro!: triple_write_if simp: bare_attributes_def elements_def)
  have z: "triple (ready ''input'') [''label''] (line [L ''></label>'']) ((=) Data) []"
    using triple_tag_end [of "''</label>''" "[]" "''input''" "[''label'']"] by (simp add: scan_simps)
  show ?thesis unfolding triple_emits upload_field_def Let_def
    by (intro triple_cons [OF staged [unfolded triple_emits]] triple_cons [OF a] triple_cons [OF b] triple_cons [OF z] triple_nil)
qed

text \<open>An admitted layout closes every container it opens.\<close>

lemma container_tag_scan:
  "scan_pieces [L ''<'', L (container_tag c), L ''>''] (Data, st) = Some (Data, container_tag c # st)"
  "scan_pieces [L ''</'', L (container_tag c), L ''>''] (Data, container_tag c # st) = Some (Data, st)"
  by (cases c; simp add: container_tag_def scan_simps)+

lemma emits_container:
  "emits Data k (line [L ''<'', L (container_tag c), L ''>'']) Data (container_tag c # k)"
  "emits Data (container_tag c # k) (line [L ''</'', L (container_tag c), L ''>'']) Data k"
  by (rule emits_line, simp only: container_tag_scan append_Cons)+

lemma emits_layout:
  assumes "layout_loop inputs ns s = Inr s'" and "ls_stack s' = []" and field: "\<And>f c. fragment (field f c)"
  shows "emits Data (map container_tag (ls_stack s)) (layout_writer inputs field button (ls_stack s) ns) Data []"
  using assms(1)
proof (induction ns arbitrary: s)
  case Nil
  then show ?case using assms(2) by (auto simp del: emit.simps)
next
  case (Cons n ns)
  then obtain t where t: "layout_node inputs n s = Inr t" and rest: "layout_loop inputs ns t = Inr s'"
    by (auto simp: res_simps)
  note IH = Cons.IH [OF rest]
  have one: "emits Data (map container_tag (ls_stack s)) (emit [w, layout_writer inputs field button (ls_stack t) ns]) Data []"
    if "emits Data (map container_tag (ls_stack s)) w Data (map container_tag (ls_stack t))" for w
    using that IH by (intro emits_cons [OF _ emits_cons [OF _ emits_nil]])
  show ?case
  proof (cases n)
    case (FBegin c)
    then have "ls_stack t = c # ls_stack s" using t by (auto simp: layout_node_def split: if_splits)
    then show ?thesis using one emits_container(1) [of "map container_tag (ls_stack s)" c] FBegin by (simp del: emit.simps)
  next
    case FEnd
    then obtain c where "ls_stack s = c # ls_stack t" using t by (cases "ls_stack s") (auto simp: layout_node_def split: if_splits)
    then show ?thesis using one emits_container(2) [of c "map container_tag (ls_stack t)"] FEnd by (simp del: emit.simps)
  next
    case (FText x)
    then have "t = s" using t by (auto simp: layout_node_def split: if_splits)
    then show ?thesis using one [of "line [T x]"] FText by (simp add: emits_line del: emit.simps)
  next
    case (FField name control)
    then have "ls_stack t = ls_stack s" using t by (auto simp: layout_node_def res_simps split: if_splits)
    moreover have "emits Data k (write_if c (field f d)) Data k" for k c f d by (rule emits_write_if, rule emits_under, rule field)
    ultimately show ?thesis using one FField by (simp add: emits_error del: emit.simps split: option.splits)
  next
    case (FSubmit label)
    then have "ls_stack t = ls_stack s" using t by (auto simp: layout_node_def split: if_splits)
    moreover have "emits Data k (line [L ''<button type=\"submit\">'', T b, L ''</button>'']) Data k" for k b
      by (rule emits_line) (simp add: scan_simps)
    ultimately show ?thesis using one FSubmit by (simp del: emit.simps)
  qed
qed

lemma validated_layout:
  assumes "validate_layout to_vec action layout = Inr ()" and "\<And>f c. fragment (field f c)"
  shows "fragment (layout_writer (ac_inputs action) field button [] layout)"
proof -
  obtain s where "layout_loop (ac_inputs action) layout \<lparr>ls_seen = [], ls_stack = [], ls_submit = False\<rparr> = Inr s" "ls_stack s = []"
    using assms(1) by (auto simp: validate_layout_def res_simps split: if_splits)
  then show ?thesis using emits_layout [OF _ _ assms(2)] by fastforce
qed

section \<open>Host endpoints\<close>

text \<open>\<open>Presentation::validate\<close> of the field names and endpoint paths a page quotes without escaping.\<close>

definition host_field_ok :: "string \<Rightarrow> bool" where
  "host_field_ok name \<longleftrightarrow>
     name \<noteq> [] \<and> length name \<le> 32 \<and> list_all (\<lambda>b. is_ascii_alphanumeric b \<or> b \<in> set ''_-'') name"

definition endpoint_ok :: "string \<Rightarrow> bool" where
  "endpoint_ok path \<longleftrightarrow>
     length path \<le> 128 \<and> take 1 path = ''/'' \<and> length path > 1
     \<and> list_all (\<lambda>s. s \<noteq> [] \<and> s \<noteq> ''.'' \<and> s \<noteq> ''..''
         \<and> list_all (\<lambda>b. is_ascii_alphanumeric b \<or> b \<in> set ''_-.'') s) (tl (split_on CHR ''/'' path))"

definition presentation_ok :: "presentation \<Rightarrow> bool" where
  "presentation_ok p \<longleftrightarrow>
     host_field_ok (pr_csrf_field p) \<and> host_field_ok (pr_submission_field p) \<and> host_field_ok (pr_capability_field p)
     \<and> endpoint_ok (pr_account_path p) \<and> endpoint_ok (pr_logout_path p) \<and> endpoint_ok (pr_action_path p)
     \<and> endpoint_ok (pr_stylesheet_path p)"

lemma safe_chars: "is_ascii_alphanumeric c \<or> c \<in> set ''_-.'' \<Longrightarrow>
     c \<noteq> CHR 0x22 \<and> c \<noteq> CHR ''/'' \<and> c \<noteq> CHR 0x5C \<and> \<not> url_break c \<and> plain_char c"
  using plain_text [of c] by (auto simp: url_break_def ascii_defs)

lemma endpoint_shape:
  assumes "endpoint_ok path"
  shows "same_origin (path @ w) \<and> CHR 0x22 \<notin> set path \<and> (\<forall>c \<in> set path. plain_char c)"
proof -
  obtain rest where path: "path = CHR ''/'' # rest" "rest \<noteq> []" using assms by (cases path) (auto simp: endpoint_ok_def)
  then have parts: "tl (split_on CHR ''/'' path) = split_on CHR ''/'' rest" by simp
  have seg: "\<forall>s \<in> set (split_on CHR ''/'' rest). s \<noteq> [] \<and> (\<forall>c \<in> set s. c \<noteq> CHR 0x22 \<and> c \<noteq> CHR ''/'' \<and> c \<noteq> CHR 0x5C
      \<and> \<not> url_break c \<and> plain_char c)"
    using assms safe_chars unfolding endpoint_ok_def parts list_all_iff by blast
  have sub: "set (join_with c ps) \<subseteq> insert c (\<Union> (set ` set ps))" for c :: char and ps
    by (induction c ps rule: join_with.induct) auto
  have "plain_char CHR ''/''" by (simp add: plain_char_def escape_char_def)
  then have "CHR 0x22 \<notin> set rest \<and> (\<forall>c \<in> set path. plain_char c)"
    unfolding path(1) using sub [of "CHR ''/''" "split_on CHR ''/'' rest"] seg join_split_on [of "CHR ''/''" rest] by auto
  moreover obtain s ss where ss: "split_on CHR ''/'' rest = s # ss" by (cases "split_on CHR ''/'' rest") auto
  then have "s \<noteq> []" "hd s \<noteq> CHR ''/''" "hd s \<noteq> CHR 0x5C" "\<not> url_break (hd s)" using seg by auto
  moreover have "rest = join_with CHR ''/'' (s # ss)" using join_split_on [of "CHR ''/''" rest] ss by simp
  then have "hd rest = hd s" using calculation(2) by (cases ss) auto
  moreover have "\<not> url_break CHR ''/''" by (simp add: url_break_def)
  ultimately show ?thesis using path by (cases rest) (auto simp: same_origin_def)
qed

lemma fragment_form_open:
  assumes "endpoint_ok path"
  shows "emits Data [] (line [L (''<form method=\"post\" action=\"'' @ path @ ''/'' @ show_nat n @ ''\" accept-charset=\"utf-8\"''
          @ (if c then '' enctype=\"multipart/form-data\"'' else []) @ ''>'')]) Data [''form'']"
proof (rule emits_line)
  fix st
  have "scan path (Quoted ''form'' ''action'' [], st) = Some (Quoted ''form'' ''action'' path, st)"
    using endpoint_shape [OF assms] by (simp add: scan_quoted)
  moreover have "link_ok (path @ CHR ''/'' # show_nat n)"
  proof (rule link_ok_plain)
    have "\<forall>c \<in> set (show_nat n). plain_char c"
      using show_nat_digits [of n] plain_text by (auto simp: list_all_iff is_ascii_alphanumeric_def)
    then show "\<forall>c \<in> set (path @ CHR ''/'' # show_nat n). plain_char c"
      using endpoint_shape [OF assms] plain_text [of "CHR ''/''"] by auto
  qed (use endpoint_shape [OF assms] in blast)
  ultimately show "scan_pieces [L (''<form method=\"post\" action=\"'' @ path @ ''/'' @ show_nat n @ ''\" accept-charset=\"utf-8\"''
          @ (if c then '' enctype=\"multipart/form-data\"'' else []) @ ''>'')] (Data, [] @ st) = Some (Data, [''form''] @ st)"
    by (simp add: scan_append scan_digits scan_simps)
qed

lemma fragment_form:
  assumes p: "presentation_ok presentation"
  shows "fragment (form to_vec m action credentials input readonly errors button instance_number presentation)"
proof -
  let ?k = "[''form'']"
  have e: "endpoint_ok (pr_action_path presentation)" using p by (simp add: presentation_ok_def)
  have cap: "fragment (line [L (''<label>Edit secret<input type=\"password\" name=\"'' @ pr_capability_field presentation
                @ ''\" autocomplete=\"off\" maxlength=\"128\" required></label>'')])"
  proof (rule emits_line)
    fix st
    have "CHR 0x22 \<notin> set (pr_capability_field presentation)"
      using p by (auto simp: presentation_ok_def host_field_ok_def list_all_iff ascii_defs dest!: bspec)
    then show "scan_pieces [L (''<label>Edit secret<input type=\"password\" name=\"'' @ pr_capability_field presentation
                @ ''\" autocomplete=\"off\" maxlength=\"128\" required></label>'')] (Data, [] @ st) = Some (Data, [] @ st)"
      by (simp add: scan_append scan_quoted scan_simps)
  qed
  have close: "emits Data ?k (line [L ''</form>'']) Data []" by (rule emits_line) (simp add: scan_simps)
  have targets: "emits Data ?k (emit (map (selected_target credentials) ts)) Data ?k" for ts
    by (rule emits_list) (auto intro: emits_under [OF fragment_selected_target])
  have uploads: "emits Data ?k (emit (map (upload_field input) fs)) Data ?k" for fs
    by (rule emits_list) (auto intro: emits_under [OF fragment_upload])
  have ticket: "emits Data ?k (case t of Some ticket \<Rightarrow> hidden ''_upload'' ticket | None \<Rightarrow> emit []) Data ?k" for t
    using emits_under [OF fragment_hidden] by (auto split: option.splits)
  have layout: "emits Data ?k (with_value (validate_layout to_vec (wa_core action) layout) (\<lambda>_.
      layout_writer (ac_inputs (wa_core action)) (\<lambda>f control. render_field (wa_id action) f control input readonly errors
        (button \<noteq> None \<or> input \<noteq> []) instance_number) button [] layout)) Data ?k" for layout
    by (rule emits_with_value, rule emits_under, rule validated_layout) (auto intro: fragment_field)
  have body: "emits Data ?k (with_value r (\<lambda>v. emit [write_if (is_capability v) (line [L (''<label>Edit secret<input type=\"password\" name=\"''
        @ pr_capability_field presentation @ ''\" autocomplete=\"off\" maxlength=\"128\" required></label>'')]),
      with_value (validate_layout to_vec (wa_core action) (ly v)) (\<lambda>_.
      layout_writer (ac_inputs (wa_core action)) (\<lambda>f control. render_field (wa_id action) f control input readonly errors
        (button \<noteq> None \<or> input \<noteq> []) instance_number) button [] (ly v)),
      emit (map (upload_field input) (filter is_upload (ac_inputs (wa_core action)))), line [L ''</form>'']])) Data []" for r ly
    by (rule emits_with_value) (intro emits_cons [OF emits_write_if [OF emits_under [OF cap]]] emits_cons [OF layout]
        emits_cons [OF uploads] emits_cons [OF close] emits_nil)
  note hidden = emits_under [OF fragment_hidden, where k = ?k]
  show ?thesis unfolding form_def Let_def
    by (rule emits_check, rule emits_cons [OF fragment_form_open [OF e]], rule emits_cons [OF hidden], rule emits_cons [OF hidden],
        rule emits_cons [OF ticket], rule emits_cons [OF targets], rule emits_cons [OF body], rule emits_nil)
qed

lemma fragment_query_control: "fragment (query_control search_label vals np)"
proof -
  obtain name p where np: "np = (name, p)" by (cases np)
  let ?k = "[''label'']"
  have a: "emits Data [] (line [L ''<label>'']) Data ?k" by (rule emits_line) (simp add: scan_simps)
  have b: "emits Data ?k (case p of PSearch \<Rightarrow> line [T search_label] | PField f \<Rightarrow> line [T (tf_label f), L '' ('', T name, L '')'']) Data ?k"
    by (cases p) (auto intro!: emits_line simp: scan_simps)
  have s: "emits Data ?k (emit [line [L ''<select name=\"'', T name, L ''\">''], write_if optional (option_line [] ''Not set'' b),
      emit (map (\<lambda>c. option_line (cv_key c) (cv_label c) (cv_key c = value)) choices), line [L ''</select>'']]) Data ?k" for optional b "value" choices
  proof -
    have op: "emits Data ?k (line [L ''<select name=\"'', T name, L ''\">'']) Data (''select'' # ?k)" by (rule emits_line) (simp add: scan_simps)
    have m: "emits Data (''select'' # ?k) (emit (map (\<lambda>c. option_line (cv_key c) (cv_label c) (cv_key c = value)) choices)) Data (''select'' # ?k)"
      by (rule emits_list) (auto intro: emits_option)
    have z: "emits Data (''select'' # ?k) (line [L ''</select>'']) Data ?k" by (rule emits_line) (simp add: scan_simps)
    show ?thesis by (intro emits_cons [OF op] emits_cons [OF emits_write_if [OF emits_option]] emits_cons [OF m] emits_cons [OF z] emits_nil)
  qed
  have i: "emits Data ?k (line [L ''<input type=\"'', L (if p = PSearch then ''search'' else ''text''), L ''\" name=\"'', T name, L ''\" value=\"'', T value,
      L ''\" maxlength=\"'', T n, L ''\" required>'']) Data ?k" for "value" n
    by (rule emits_line) (simp add: scan_simps)
  have c: "emits Data ?k (case query_choices p of
           Some (choices, optional) \<Rightarrow>
             emit [line [L ''<select name=\"'', T name, L ''\">''], write_if optional (option_line [] ''Not set'' (value = [])),
               emit (map (\<lambda>c. option_line (cv_key c) (cv_label c) (cv_key c = value)) choices), line [L ''</select>'']]
         | None \<Rightarrow> line [L ''<input type=\"'', L (if p = PSearch then ''search'' else ''text''), L ''\" name=\"'', T name, L ''\" value=\"'', T value,
               L ''\" maxlength=\"'', T n, L ''\" required>'']) Data ?k" for "value" n
    using s i by (auto simp del: emit.simps split: option.splits prod.splits)
  have z: "emits Data ?k (line [L ''</label>'']) Data []" by (rule emits_line) (simp add: scan_simps)
  show ?thesis unfolding np query_control_def Let_def prod.case
    by (rule emits_cons [OF a], rule emits_cons [OF b], rule emits_cons [OF c], rule emits_cons [OF z], rule emits_nil)
qed

text \<open>A resolved path is a path of this origin.\<close>

lemma resolve_path_same_origin:
  assumes "resolve_path routes ref = Inr path"
  shows "same_origin (path @ (case w of None \<Rightarrow> [] | Some q \<Rightarrow> CHR ''?'' # q))"
proof -
  obtain r ss body where ss: "path_segments r = Inr ss"
    and body: "render_segments (rr_target ref) ss = Inr body" and path: "path = (if body = [] then ''/'' else body)"
    using assms by (auto simp: resolve_path_def res_simps split: if_splits)
  have shown: "body = concat (map (\<lambda>s. CHR ''/'' # (case s of Static v \<Rightarrow> v | Target \<Rightarrow> show_nat (the (rr_target ref)))) ss)"
    using render_segments_Inr [OF body] by blast
  show ?thesis
  proof (cases ss)
    case Nil
    then show ?thesis using shown path by (auto simp: same_origin_def url_break_def split: option.splits)
  next
    case (Cons s rest)
    let ?p = "case s of Static v \<Rightarrow> v | Target \<Rightarrow> show_nat (the (rr_target ref))"
    have ok: "segment_ok s" using path_segments_Inr [OF ss] Cons by simp
    have "?p \<noteq> [] \<and> hd ?p \<noteq> CHR ''/'' \<and> hd ?p \<noteq> CHR 0x5C \<and> \<not> url_break (hd ?p)"
    proof (cases s)
      case (Static v)
      then have "is_identifier v" using ok by (simp add: segment_ok_def)
      then show ?thesis using Static by (auto simp: is_identifier_def url_break_def ascii_defs)
    next
      case Target
      let ?d = "show_nat (the (rr_target ref))"
      have "?d \<noteq> []" using show_nat_part by blast
      moreover from this have "is_ascii_digit (hd ?d)" using show_nat_digits [of "the (rr_target ref)"] by (simp add: list_all_iff)
      ultimately show ?thesis using Target by (auto simp: url_break_def ascii_defs)
    qed
    moreover have "path = CHR ''/'' # ?p @ concat (map (\<lambda>s. CHR ''/'' # (case s of Static v \<Rightarrow> v | Target \<Rightarrow> show_nat (the (rr_target ref)))) rest)"
      using shown path Cons by simp
    moreover have "\<not> url_break CHR ''/''" by (simp add: url_break_def)
    ultimately show ?thesis by (cases ?p) (auto simp: same_origin_def)
  qed
qed

lemma fragment_query_form: "fragment (query_form_writer parameter_fields canonical_query m q)"
proof -
  have "fragment (emit [line [L ''<form method=\"get\" action=\"'', T path, L ''\" accept-charset=\"utf-8\">''],
      emit (map (query_control (qf_search_label q) vals) ps), line [L ''<button type=\"submit\">'', T (qf_submit q), L ''</button></form>'']])"
    if p: "resolve_path (mf_routes m) (qf_destination q) = Inr path" for path vals ps
  proof -
    have "link_ok (escape path)"
      using resolve_path_same_origin [OF p, of None] by simp
    then have a: "emits Data [] (line [L ''<form method=\"get\" action=\"'', T path, L ''\" accept-charset=\"utf-8\">'']) Data [''form'']"
      by (intro emits_line) (simp add: scan_simps)
    have b: "emits Data [''form''] (emit (map (query_control (qf_search_label q) vals) ps)) Data [''form'']"
      by (rule emits_list) (auto intro: emits_under [OF fragment_query_control])
    have c: "emits Data [''form''] (line [L ''<button type=\"submit\">'', T (qf_submit q), L ''</button></form>'']) Data []"
      by (rule emits_line) (simp add: scan_simps)
    show ?thesis by (intro emits_cons [OF a] emits_cons [OF b] emits_cons [OF c] emits_nil)
  qed
  then show ?thesis unfolding query_form_writer_def
    by (intro emits_check emits_cons [OF emits_with_value emits_nil] emits_with_value)
qed

end
