(* ===== verification/Render.thy ===== *)
theory Render
  imports Rich_Document Render_Forms "HOL-Library.AList"
begin

text \<open>
  \<^verbatim>\<open>crates/noxide-render/src/lib.rs\<close>: a guest's response intent to the page the host sends, and
  the recovery page of a submission.

  What other code decides is in \<open>render_env\<close>: the JSON encoders that measure a document and a layout,
  form-urlencoding, the validation of route parameters, the parameter table of a route, the search
  canonicaliser and the check of a rejection against its action.
\<close>

section \<open>Definitions\<close>

record document_download =
  dd_read :: nat
  dd_target :: nat
  dd_field :: string
  dd_text :: string

datatype instruction =
    IBegin container
  | IEnd
  | IText string
  | ILink route_ref string
  | IBeginLink route_ref
  | IEndLink
  | IForm nat
  | IQueryForm query_form
  | IStylesheet string
  | IDownload document_download
  | IRich presentation_node

record document =
  doc_title :: string
  doc_nodes :: "instruction list"

datatype response_intent = Page document | NotFound document | Redirect route_ref | Execute | Rejected field_map string

record render_env =
  en_document_json :: "document \<Rightarrow> bytes res"
  en_layout_json :: "form_instruction list \<Rightarrow> bytes res"
  en_urlencode :: "field_map \<Rightarrow> string"
  en_validate_params :: "manifest \<Rightarrow> route \<Rightarrow> field_map \<Rightarrow> unit res"
  en_parameter_fields :: "manifest \<Rightarrow> route \<Rightarrow> (string \<times> parameter_field) list res"
  en_canonical_query :: "string \<Rightarrow> string list res"
  en_validate_rejection :: "action \<Rightarrow> field_map \<Rightarrow> string \<Rightarrow> unit res"

record render_context =
  rc_assets :: asset_bundle
  rc_presentation :: presentation
  rc_manifest :: "manifest option"
  rc_forms :: "nat \<rightharpoonup> form_credentials option"
  rc_logout_csrf :: "string option"
  rc_next_page :: "string option"
  rc_preview_links :: "route_ref list"
  rc_downloads :: "nat \<times> nat \<times> string \<rightharpoonup> string"

record rendered =
  rd_status :: nat
  rd_body :: bytes
  rd_location :: "string option"

text \<open>\<open>routing::resolve\<close>.\<close>

definition resolve :: "render_env \<Rightarrow> manifest \<Rightarrow> route_ref \<Rightarrow> string res" where
  "resolve env m ref =
     and_then (find_route (mf_routes m) (rr_route ref)) (\<lambda>r.
     and_then (en_validate_params env m r (rr_params ref)) (\<lambda>_.
     and_then (resolve_path (mf_routes m) ref) (\<lambda>path.
     Inr (path @ (case (if rr_params ref = [] then None else Some (en_urlencode env (rr_params ref))) of
                    None \<Rightarrow> [] | Some q \<Rightarrow> CHR ''?'' # q)))))"

definition resolve_in :: "render_env \<Rightarrow> render_context \<Rightarrow> route_ref \<Rightarrow> string res" where
  "resolve_in env ctx ref = and_then (ok_or (rc_manifest ctx) ''no routes'') (\<lambda>m. resolve env m ref)"

definition stylesheet :: "presentation \<Rightarrow> writer" where
  "stylesheet p = write_if (pr_stylesheet p \<noteq> None) (line [L ''<link rel=\"stylesheet\" href=\"'', T (pr_stylesheet_path p), L ''\">''])"

definition inline :: "container \<Rightarrow> bool" where
  "inline c \<longleftrightarrow> c \<in> {CStrong, CEmphasis, CCode}"

definition phrasing :: "container \<Rightarrow> bool" where
  "phrasing c \<longleftrightarrow> inline c \<or> c \<in> {CParagraph, CHeading1, CHeading2, CPre}"

text \<open>Stacks have the innermost container first.\<close>

definition last_is :: "(container \<Rightarrow> bool) \<Rightarrow> container list \<Rightarrow> bool" where
  "last_is P stack = (case stack of [] \<Rightarrow> False | c # _ \<Rightarrow> P c)"

definition flow :: "container list \<Rightarrow> bool" where
  "flow stack \<longleftrightarrow> \<not> last_is (\<lambda>c. phrasing c \<or> c = CList) stack"

text \<open>The first pass: stylesheets, only at the top level.\<close>

record head_state =
  hs_nesting :: int
  hs_in_link :: bool
  hs_styles :: "string list"

definition head_node :: "asset_bundle \<Rightarrow> instruction \<Rightarrow> head_state \<times> bytes \<Rightarrow> (head_state \<times> bytes) res" where
  "head_node bundle node so =
     (case so of (s, out) \<Rightarrow>
      and_then
        (case node of
           IBegin _ \<Rightarrow> Inr (s\<lparr>hs_nesting := hs_nesting s + 1\<rparr>, out)
         | IEnd \<Rightarrow> Inr (s\<lparr>hs_nesting := hs_nesting s - 1\<rparr>, out)
         | IBeginLink _ \<Rightarrow> Inr (s\<lparr>hs_in_link := True\<rparr>, out)
         | IEndLink \<Rightarrow> Inr (s\<lparr>hs_in_link := False\<rparr>, out)
         | IStylesheet asset \<Rightarrow>
             ensure (hs_nesting s = 0 \<and> \<not> hs_in_link s \<and> length (hs_styles s) < 4 \<and> asset \<notin> set (hs_styles s))
               ''stylesheet placement or count''
             (and_then (asset_stylesheet asset bundle) (\<lambda>link.
              and_then (push link out) (\<lambda>out. Inr (s\<lparr>hs_styles := asset # hs_styles s\<rparr>, out))))
         | _ \<Rightarrow> Inr (s, out))
        (\<lambda>(s, out). ensure (hs_nesting s \<ge> 0) ''unmatched document end'' (Inr (s, out))))"

fun head_loop :: "asset_bundle \<Rightarrow> instruction list \<Rightarrow> head_state \<times> bytes \<Rightarrow> (head_state \<times> bytes) res" where
  "head_loop bundle [] s = Inr s"
| "head_loop bundle (n # ns) s = and_then (head_node bundle n s) (head_loop bundle ns)"

text \<open>The second pass: the body.\<close>

record body_state =
  bs_stack :: "container list"
  bs_forms :: nat
  bs_link :: "nat option"
  bs_remaining :: nat
  bs_main_seen :: bool

definition begin_container :: "container \<Rightarrow> body_state \<Rightarrow> unit res" where
  "begin_container c s =
     ensure (bs_link s = None \<or> inline c) ''link content''
     (ensure (length (bs_stack s) < MAX_DEPTH) ''document depth''
     (ensure (c \<noteq> CMain \<or> \<not> bs_main_seen s \<and> bs_stack s = []) ''main structure''
     (if c = CItem then ensure (last_is ((=) CList) (bs_stack s)) ''orphan list item'' (Inr ())
      else if last_is ((=) CList) (bs_stack s) then Inl ''list content''
      else if last_is phrasing (bs_stack s) then ensure (inline c) ''phrasing content'' (Inr ())
      else Inr ())))"

definition render_download :: "render_context \<Rightarrow> document_download \<Rightarrow> body_state \<Rightarrow> writer" where
  "render_download ctx d s =
     emit [check (bs_link s = None \<and> (flow (bs_stack s) \<or> last_is phrasing (bs_stack s))) ''download placement'',
       check (dd_text d \<noteq> [] \<and> length (dd_text d) \<le> 256 \<and> is_identifier (dd_field d)) ''invalid download link'',
       with_value (ok_or (rc_downloads ctx (dd_read d, dd_target d, dd_field d)) ''download lacks successful direct Read provenance'')
         (\<lambda>href. line [L ''<a href=\"'', T href, L ''\">'', T (dd_text d), L ''</a>''])]"

definition render_form :: "render_env \<Rightarrow> render_context \<Rightarrow> nat \<Rightarrow> nat \<Rightarrow> writer" where
  "render_form env ctx action forms =
     with_value (ok_or (rc_forms ctx action) ''form not granted'') (\<lambda>credentials.
     with_value (ok_or (rc_manifest ctx) ''no actions'') (\<lambda>m.
     with_value (web_action_of m action) (\<lambda>a.
       case credentials of
         None \<Rightarrow> emit []
       | Some c \<Rightarrow> form (en_layout_json env) m a c (fc_values c) False [] None forms (rc_presentation ctx))))"

definition write_keeping :: "body_state \<Rightarrow> writer \<Rightarrow> bytes \<Rightarrow> (body_state \<times> bytes) res" where
  "write_keeping s f out = and_then (f out) (\<lambda>out. Inr (s, out))"

definition body_node :: "render_env \<Rightarrow> render_context \<Rightarrow> instruction \<Rightarrow> body_state \<Rightarrow> bytes \<Rightarrow> (body_state \<times> bytes) res" where
  "body_node env ctx node s out =
     (case node of
        IStylesheet _ \<Rightarrow> Inr (s, out)
      | IDownload d \<Rightarrow> write_keeping s (render_download ctx d s) out
      | IRich n \<Rightarrow>
          ensure (bs_link s = None \<and> (flow (bs_stack s) \<or> last_is phrasing (bs_stack s) \<and> inline_node n)) ''rich document placement''
          (and_then (rich_fragment (rc_assets ctx) (resolve_in env ctx) n (bs_remaining s) (MAX_DEPTH - length (bs_stack s)))
             (\<lambda>(remaining, f). write_keeping (s\<lparr>bs_remaining := remaining\<rparr>) (push f) out))
      | IBegin c \<Rightarrow>
          and_then (begin_container c s) (\<lambda>_.
          write_keeping (s\<lparr>bs_stack := c # bs_stack s, bs_main_seen := bs_main_seen s \<or> c = CMain\<rparr>)
            (emit [line [L ''<'', L (container_tag c), L ''>''], write_if (c = CPre) (line [L [LF]])]) out)
      | IEnd \<Rightarrow>
          ensure (case bs_link s of None \<Rightarrow> True | Some depth \<Rightarrow> length (bs_stack s) > depth) ''link boundary''
          (case bs_stack s of
             [] \<Rightarrow> Inl ''unmatched end''
           | c # stack \<Rightarrow> write_keeping (s\<lparr>bs_stack := stack\<rparr>) (line [L ''</'', L (container_tag c), L ''>'']) out)
      | IText t \<Rightarrow> ensure (\<not> last_is ((=) CList) (bs_stack s)) ''list text'' (write_keeping s (line [T t]) out)
      | IBeginLink destination \<Rightarrow>
          ensure (bs_link s = None \<and> \<not> last_is ((=) CList) (bs_stack s)) ''nested or misplaced link''
          (and_then (resolve_in env ctx destination) (\<lambda>path.
           write_keeping (s\<lparr>bs_link := Some (length (bs_stack s))\<rparr>) (line [L ''<a href=\"'', T path, L ''\">'']) out))
      | IEndLink \<Rightarrow>
          ensure (bs_link s = Some (length (bs_stack s))) ''unbalanced link''
            (write_keeping (s\<lparr>bs_link := None\<rparr>) (line [L ''</a>'']) out)
      | ILink destination t \<Rightarrow>
          ensure (bs_link s = None) ''nested link''
          (ensure (\<not> last_is ((=) CList) (bs_stack s)) ''list link''
          (and_then (resolve_in env ctx destination) (\<lambda>path.
           write_keeping s (line [L ''<a href=\"'', T path, L ''\">'', T t, L ''</a>'']) out)))
      | IQueryForm q \<Rightarrow>
          ensure (bs_link s = None \<and> flow (bs_stack s) \<and> bs_forms s < 8) ''form structure or limit''
          (and_then (ok_or (rc_manifest ctx) ''no routes'') (\<lambda>m.
           write_keeping (s\<lparr>bs_forms := bs_forms s + 1\<rparr>)
             (query_form_writer (en_parameter_fields env m) (en_canonical_query env) m q) out))
      | IForm action \<Rightarrow>
          ensure (bs_link s = None \<and> flow (bs_stack s) \<and> bs_forms s < 8) ''form structure or limit''
          (write_keeping (s\<lparr>bs_forms := bs_forms s + 1\<rparr>) (render_form env ctx action (bs_forms s + 1)) out))"

definition is_rich :: "instruction \<Rightarrow> bool" where
  "is_rich n = (case n of IRich _ \<Rightarrow> True | _ \<Rightarrow> False)"

fun body_loop :: "render_env \<Rightarrow> render_context \<Rightarrow> instruction list \<Rightarrow> body_state \<times> bytes \<Rightarrow> (body_state \<times> bytes) res" where
  "body_loop env ctx [] so = Inr so"
| "body_loop env ctx (n # ns) (s, out) =
     ensure (is_rich n \<or> bs_remaining s > 0) ''document node limit''
     (and_then (body_node env ctx n (if is_rich n then s else s\<lparr>bs_remaining := bs_remaining s - 1\<rparr>) out) (body_loop env ctx ns))"

definition account_nav :: "presentation \<Rightarrow> string \<Rightarrow> writer" where
  "account_nav p csrf =
     line [L ''<nav aria-label=\"Account\"><a href=\"/\">Home</a> <a href=\"'', T (pr_account_path p),
       L ''\">Account ID</a><form method=\"post\" action=\"'', T (pr_logout_path p),
       L ''\"><input type=\"hidden\" name=\"'', T (pr_csrf_field p), L ''\" value=\"'', T csrf,
       L ''\"><button>Sign out</button></form></nav>'']"

definition preview_link :: "render_env \<Rightarrow> render_context \<Rightarrow> route_ref \<Rightarrow> writer" where
  "preview_link env ctx ref =
     with_value (ok_or (rc_manifest ctx) ''preview link requires manifest'') (\<lambda>m.
     with_value (resolve env m ref) (\<lambda>path.
       line [L ''<nav aria-label=\"More records\"><a href=\"'', T path, L ''\">See all</a></nav>'']))"

definition next_page_link :: "string \<Rightarrow> writer" where
  "next_page_link next_page = line [L ''<nav aria-label=\"Pages\"><a href=\"'', T next_page, L ''\">Next page</a></nav>'']"

definition page_start :: string where
  "page_start = ''<html lang=\"en\"><head><meta charset=\"utf-8\"><meta name=\"viewport\" content=\"width=device-width,initial-scale=1\"><title>''"

definition render_document :: "render_env \<Rightarrow> render_context \<Rightarrow> document \<Rightarrow> bytes res" where
  "render_document env ctx doc =
     (let explicit_main = list_ex (\<lambda>n. n = IBegin CMain) (doc_nodes doc) in
      and_then (emit [line [L (''<!doctype html>'' @ page_start), T (doc_title doc), L ''</title>''], stylesheet (rc_presentation ctx)] []) (\<lambda>out.
      and_then (head_loop (rc_assets ctx) (doc_nodes doc) (\<lparr>hs_nesting = 0, hs_in_link = False, hs_styles = []\<rparr>, out)) (\<lambda>(h, out).
      let scoped = hs_styles h \<noteq> [] in
      and_then (emit [line [L ''</head><body>''],
          (case rc_logout_csrf ctx of Some csrf \<Rightarrow> account_nav (rc_presentation ctx) csrf | None \<Rightarrow> emit []),
          write_if scoped (line [L ''<div class=\"noxide-app\">'']), write_if (\<not> explicit_main) (line [L ''<main>''])] out) (\<lambda>out.
      and_then (body_loop env ctx (doc_nodes doc)
          (\<lparr>bs_stack = [], bs_forms = 0, bs_link = None, bs_remaining = MAX_NODES, bs_main_seen = False\<rparr>, out)) (\<lambda>(s, out).
      ensure (bs_stack s = [] \<and> bs_link s = None) ''unclosed document''
      (emit [write_if (\<not> explicit_main) (line [L ''</main>'']), write_if scoped (line [L ''</div>'']),
         emit (map (preview_link env ctx) (rc_preview_links ctx)),
         (case rc_next_page ctx of Some p \<Rightarrow> next_page_link p | None \<Rightarrow> emit []),
         line [L ''</body></html>'']] out))))))"

definition document_page :: "render_env \<Rightarrow> render_context \<Rightarrow> nat \<Rightarrow> document \<Rightarrow> rendered res" where
  "document_page env ctx status doc =
     and_then (if length (doc_title doc) \<le> 128 \<and> length (doc_nodes doc) \<le> MAX_NODES
               then and_then (en_document_json env doc) (\<lambda>b. Inr (length b \<le> LAYOUT_BYTES)) else Inr False) (\<lambda>ok.
     ensure ok ''document limit''
     (and_then (render_document env ctx doc) (\<lambda>body. Inr \<lparr>rd_status = status, rd_body = body, rd_location = None\<rparr>)))"

definition render :: "render_env \<Rightarrow> response_intent \<Rightarrow> render_context \<Rightarrow> rendered res" where
  "render env intent ctx =
     (case intent of
        Page d \<Rightarrow> document_page env ctx 200 d
      | NotFound d \<Rightarrow> document_page env ctx 404 d
      | Redirect dest \<Rightarrow>
          and_then (resolve_in env ctx dest) (\<lambda>location. Inr \<lparr>rd_status = 303, rd_body = [], rd_location = Some location\<rparr>)
      | _ \<Rightarrow> Inl ''rejection requires action context'')"

section \<open>Recovery\<close>

datatype recovery_reason = Committed | Retry bool | Conflict field_map | RejectedWith field_map string

text \<open>A selected target leaves the input and becomes a selection.\<close>

fun take_selections :: "action_target list \<Rightarrow> field_map \<times> form_credentials \<Rightarrow> field_map \<times> form_credentials" where
  "take_selections [] ic = ic"
| "take_selections (t # ts) (input, credentials) =
     take_selections ts
       (let key = ''_target_'' @ tg_name t in
        if \<not> is_selected t then (input, credentials)
        else case map_of input key of
          None \<Rightarrow> (input, credentials)
        | Some value \<Rightarrow> (AList.delete key input, credentials\<lparr>fc_selected := (fc_selected credentials)(tg_name t \<mapsto> value)\<rparr>))"

record recovery_text =
  rv_title :: string
  rv_explanation :: string
  rv_status :: nat
  rv_readonly :: bool
  rv_button :: string
  rv_errors :: field_map

definition recovery_text_of :: "manifest \<Rightarrow> web_action \<Rightarrow> recovery_reason \<Rightarrow> recovery_text res" where
  "recovery_text_of m a reason =
     (case reason of
        Committed \<Rightarrow> Inr \<lparr>rv_title = ''Changes saved'', rv_explanation = ''Your change was saved. Recover the original edit secret using this submission before leaving this page.'', rv_status = 200, rv_readonly = True,
          rv_button = ''Recover edit secret'', rv_errors = []\<rparr>
      | Retry True \<Rightarrow> Inr \<lparr>rv_title = ''Submission result'', rv_explanation = ''The result is not yet confirmed. Check this submission before starting another one.'', rv_status = 503, rv_readonly = True,
          rv_button = ''Check this submission'', rv_errors = []\<rparr>
      | Retry False \<Rightarrow> Inr \<lparr>rv_title = ''Submission result'', rv_explanation = ''No change is confirmed. Check the fields and retry this form.'', rv_status = 422, rv_readonly = False,
          rv_button = ''Retry this submission'', rv_errors = []\<rparr>
      | Conflict _ \<Rightarrow>
          and_then (first_operation m (wa_core a)) (\<lambda>v.
          Inr \<lparr>rv_title = ''This record changed'', rv_explanation = ''Your changes were not saved. Review the current values before submitting again.'', rv_status = 409, rv_readonly = False,
            rv_button = (if op_kind v = DeleteOp then ''Delete current version'' else ''Save these changes''), rv_errors = []\<rparr>)
      | RejectedWith errors _ \<Rightarrow> Inr \<lparr>rv_title = ''No changes saved'', rv_explanation = ''The application declined this change. Review its explanation and try again.'', rv_status = 422, rv_readonly = False,
          rv_button = ''Retry this submission'', rv_errors = errors\<rparr>)"

definition current_label :: "manifest \<Rightarrow> action \<Rightarrow> string \<Rightarrow> string res" where
  "current_label m core name =
     (case find (\<lambda>i. in_name i = name) (ac_inputs core) of
        Some i \<Rightarrow> Inr (in_label i)
      | None \<Rightarrow>
          and_then (page_resource (ac_targets core)) (\<lambda>r.
          and_then (ok_or r ''missing current resource'') (\<lambda>n.
          and_then (find_resource m n) (\<lambda>res.
          and_then (ok_or (find (\<lambda>f. tf_name f = name) (re_fields res)) ''unknown current field'') (\<lambda>f. Inr (tf_label f))))))"

definition current_value :: "manifest \<Rightarrow> action \<Rightarrow> string \<times> string \<Rightarrow> writer" where
  "current_value m core nv =
     with_value (current_label m core (fst nv)) (\<lambda>label.
       line [L ''<p>'', T label, L (''</p><pre>'' @ [LF]), T (snd nv), L ''</pre>''])"

definition recovery_details :: "render_env \<Rightarrow> manifest \<Rightarrow> web_action \<Rightarrow> recovery_reason \<Rightarrow> writer" where
  "recovery_details env m a reason =
     (case reason of
        Conflict current \<Rightarrow>
          write_if (current \<noteq> [])
            (emit [line [L ''<section aria-label=\"Current values\"><h2>Current values</h2>''],
               emit (map (current_value m (wa_core a)) current), line [L ''</section>''],
               write_if (ac_inputs (wa_core a) \<noteq> []) (line [L ''<h2>Your changes</h2>''])])
      | RejectedWith errors message \<Rightarrow>
          with_value (en_validate_rejection env (wa_core a) errors message) (\<lambda>_.
            line [L ''<p class=\"application-error\">'', T message, L ''</p>''])
      | _ \<Rightarrow> emit [])"

definition recovery_writer ::
  "render_env \<Rightarrow> presentation \<Rightarrow> manifest \<Rightarrow> web_action \<Rightarrow> form_credentials \<Rightarrow> field_map \<Rightarrow> recovery_reason \<Rightarrow> recovery_text \<Rightarrow> writer" where
  "recovery_writer env presentation m a credentials input reason t =
     emit [line [L (''<!doctype html>'' @ page_start), T (rv_title t), L ''</title>''], stylesheet presentation,
       line [L ''</head><body><main><h1>'', T (rv_title t), L ''</h1><p role=\"status\">'', T (rv_explanation t), L ''</p>''],
       recovery_details env m a reason,
       form (en_layout_json env) m a credentials input (rv_readonly t) (rv_errors t) (Some (rv_button t)) 0 presentation,
       line [L ''<a href=\"/\">Return home</a></main></body></html>'']]"

definition recovery ::
  "render_env \<Rightarrow> presentation \<Rightarrow> manifest \<Rightarrow> nat \<Rightarrow> form_credentials \<Rightarrow> field_map \<Rightarrow> recovery_reason \<Rightarrow> rendered res" where
  "recovery env presentation m action credentials input reason =
     and_then (web_action_of m action) (\<lambda>a.
     case take_selections (ac_targets (wa_core a)) (input, credentials) of (input, credentials) \<Rightarrow>
     and_then (recovery_text_of m a reason) (\<lambda>t.
     and_then (recovery_writer env presentation m a credentials input reason t []) (\<lambda>body.
     Inr \<lparr>rd_status = rv_status t, rd_body = body, rd_location = None\<rparr>)))"

section \<open>Pages are safe\<close>

lemma resolve_same_origin: "resolve env m ref = Inr path \<Longrightarrow> same_origin path"
  by (auto simp: resolve_def res_simps intro: resolve_path_same_origin)

lemma resolve_in_same_origin: "resolve_in env ctx ref = Inr path \<Longrightarrow> same_origin path"
  by (auto simp: resolve_in_def res_simps intro: resolve_same_origin)

lemma fragment_stylesheet: "presentation_ok p \<Longrightarrow> emits Data k (stylesheet p) Data k"
proof -
  assume "presentation_ok p"
  then have "link_ok (escape (pr_stylesheet_path p))"
    using endpoint_shape [of "pr_stylesheet_path p" "[]"] by (simp add: presentation_ok_def)
  then show ?thesis unfolding stylesheet_def by (intro emits_write_if emits_line) (simp add: scan_simps)
qed

lemma fragment_account_nav: "presentation_ok p \<Longrightarrow> emits Data k (account_nav p csrf) Data k"
proof -
  assume "presentation_ok p"
  then have "link_ok (escape (pr_account_path p))" "link_ok (escape (pr_logout_path p))"
    using endpoint_shape [of "pr_account_path p" "[]"] endpoint_shape [of "pr_logout_path p" "[]"]
    by (simp_all add: presentation_ok_def)
  then show ?thesis unfolding account_nav_def by (intro emits_line) (simp add: scan_simps)
qed

text \<open>What was written between two points, and the elements open at each.\<close>

definition moved :: "string list \<Rightarrow> bytes \<Rightarrow> string list \<Rightarrow> bytes \<Rightarrow> bool" where
  "moved k out k' out' \<longleftrightarrow> (\<exists>s. out' = out @ s \<and> (\<forall>st. scan s (Data, k @ st) = Some (Data, k' @ st)))"

lemma moved_emits: "emits Data k f Data k' \<Longrightarrow> f out = Inr out' \<Longrightarrow> moved k out k' out'"
  by (simp add: emits_def moved_def)

lemma moved_refl [simp]: "moved k out k out"
  by (simp add: moved_def)

lemma moved_trans: "moved k a k1 b \<Longrightarrow> moved k1 b k2 c \<Longrightarrow> moved k a k2 c"
proof -
  assume "moved k a k1 b" "moved k1 b k2 c"
  then obtain s t where "b = a @ s" "\<forall>st. scan s (Data, k @ st) = Some (Data, k1 @ st)" "c = b @ t"
      "\<forall>st. scan t (Data, k1 @ st) = Some (Data, k2 @ st)"
    by (auto simp: moved_def)
  then show ?thesis unfolding moved_def by (intro exI [of _ "s @ t"]) (simp add: scan_append)
qed

lemma moved_frame: "moved k a k' b \<Longrightarrow> moved (k @ r) a (k' @ r) b"
  unfolding moved_def by (metis append.assoc)

lemma moved_push: "(\<And>st. scan s (Data, st) = Some (Data, st)) \<Longrightarrow> push s out = Inr out' \<Longrightarrow> moved k out k out'"
  by (auto simp: moved_def push_def push_with_Inr)

lemma head_node_moved: "head_node bundle n (s, out) = Inr (s', out') \<Longrightarrow> moved k out k out'"
  by (auto simp: head_node_def res_simps intro: moved_push asset_stylesheet_accepted split: instruction.splits if_splits)

lemma head_loop_moved: "head_loop bundle ns (s, out) = Inr (s', out') \<Longrightarrow> moved k out k out'"
proof (induction ns arbitrary: s out)
  case (Cons n ns)
  then obtain s1 out1 where "head_node bundle n (s, out) = Inr (s1, out1)" "head_loop bundle ns (s1, out1) = Inr (s', out')"
    by (auto simp: res_simps)
  then show ?case using Cons.IH head_node_moved moved_trans by blast
qed simp

text \<open>The elements open in the body: the containers, with an open link between the ones around it and
  the ones inside it.\<close>

definition open_body :: "body_state \<Rightarrow> string list" where
  "open_body s =
     (case bs_link s of
        None \<Rightarrow> map container_tag (bs_stack s)
      | Some d \<Rightarrow>
          map container_tag (take (length (bs_stack s) - d) (bs_stack s)) @ ''a''
            # map container_tag (drop (length (bs_stack s) - d) (bs_stack s)))"

definition body_inv :: "body_state \<Rightarrow> bool" where
  "body_inv s \<longleftrightarrow> (case bs_link s of None \<Rightarrow> True | Some d \<Rightarrow> d \<le> length (bs_stack s))"

lemma open_body_push:
  "body_inv s \<Longrightarrow> open_body (s\<lparr>bs_stack := c # bs_stack s, bs_main_seen := b\<rparr>) = container_tag c # open_body s"
  by (auto simp: open_body_def body_inv_def Suc_diff_le split: option.splits)

lemma open_body_pop:
  assumes "bs_stack s = c # stack" and "case bs_link s of None \<Rightarrow> True | Some d \<Rightarrow> length (bs_stack s) > d"
  shows "open_body s = container_tag c # open_body (s\<lparr>bs_stack := stack\<rparr>) \<and> body_inv (s\<lparr>bs_stack := stack\<rparr>)"
  using assms by (auto simp: open_body_def body_inv_def Suc_diff_le split: option.splits)

lemma write_keeping_Inr: "write_keeping s f out = Inr (s', out') \<longleftrightarrow> s' = s \<and> f out = Inr out'"
  by (auto simp: write_keeping_def res_simps)

lemma emits_link_open: "same_origin path \<Longrightarrow> emits Data k (line [L ''<a href=\"'', T path, L ''\">'']) Data (''a'' # k)"
  by (rule emits_line) (simp add: scan_simps same_origin_escape)

lemma emits_link: "same_origin path \<Longrightarrow> emits Data k (line [L ''<a href=\"'', T path, L ''\">'', T t, L ''</a>'']) Data k"
  by (rule emits_line) (simp add: scan_simps same_origin_escape)

lemma emits_link_close: "emits Data (''a'' # k) (line [L ''</a>'']) Data k"
  by (rule emits_line) (simp add: scan_simps)

lemma fragment_download:
  assumes "\<And>key href. rc_downloads ctx key = Some href \<Longrightarrow> same_origin href"
  shows "emits Data k (render_download ctx d s) Data k"
  unfolding render_download_def using assms
  by (intro emits_check emits_cons [OF _ emits_nil] emits_with_value emits_link) (auto simp: res_simps)

lemma fragment_render_form:
  assumes "presentation_ok (rc_presentation ctx)"
  shows "emits Data k (render_form env ctx action forms) Data k"
  unfolding render_form_def
  by (intro emits_with_value) (auto intro: emits_under [OF fragment_form [OF assms]] simp del: emit.simps split: option.splits)

definition context_ok :: "render_context \<Rightarrow> bool" where
  "context_ok ctx \<longleftrightarrow>
     presentation_ok (rc_presentation ctx)
     \<and> (\<forall>key href. rc_downloads ctx key = Some href \<longrightarrow> same_origin href)
     \<and> (\<forall>p. rc_next_page ctx = Some p \<longrightarrow> same_origin p)"

lemma body_node_moved:
  assumes ctx: "context_ok ctx" and inv: "body_inv s" and n: "body_node env ctx n s out = Inr (s', out')"
  shows "body_inv s' \<and> moved (open_body s) out (open_body s') out'"
proof -
  have keep: "body_inv t \<and> moved (open_body s) out (open_body t) out'"
    if "bs_stack t = bs_stack s" "bs_link t = bs_link s" "f out = Inr out'" "emits Data (open_body s) f Data (open_body s)" for t f
  proof -
    have "open_body t = open_body s" "body_inv t" using that(1,2) inv by (simp_all add: open_body_def body_inv_def split: option.splits)
    then show ?thesis using moved_emits [OF that(4,3)] by simp
  qed
  have dl: "\<And>key href. rc_downloads ctx key = Some href \<Longrightarrow> same_origin href" and p: "presentation_ok (rc_presentation ctx)"
    using ctx by (auto simp: context_ok_def)
  show ?thesis
  proof (cases n)
    case (IBegin c)
    let ?t = "s\<lparr>bs_stack := c # bs_stack s, bs_main_seen := bs_main_seen s \<or> c = CMain\<rparr>"
    have "emits Data (open_body s) (emit [line [L ''<'', L (container_tag c), L ''>''], write_if (c = CPre) (line [L [LF]])]) Data
        (container_tag c # open_body s)"
      by (intro emits_cons [OF emits_container(1)] emits_cons [OF emits_write_if] emits_nil emits_line) (simp add: scan_char_def)
    moreover have "s' = ?t" "emit [line [L ''<'', L (container_tag c), L ''>''], write_if (c = CPre) (line [L [LF]])] out = Inr out'"
      using n IBegin by (auto simp: body_node_def res_simps write_keeping_Inr)
    moreover have "body_inv ?t" using inv by (auto simp: body_inv_def split: option.splits)
    ultimately show ?thesis using moved_emits open_body_push [OF inv] by metis
  next
    case IEnd
    then obtain c stack where st: "bs_stack s = c # stack" "case bs_link s of None \<Rightarrow> True | Some d \<Rightarrow> length (bs_stack s) > d"
      and w: "s' = s\<lparr>bs_stack := stack\<rparr>" "line [L ''</'', L (container_tag c), L ''>''] out = Inr out'"
      using n by (auto simp: body_node_def write_keeping_Inr split: if_splits list.splits)
    then show ?thesis using open_body_pop [OF st] moved_emits [OF emits_container(2) w(2)] by auto
  next
    case (IText t)
    then have "s' = s" "line [T t] out = Inr out'" using n by (auto simp: body_node_def write_keeping_Inr split: if_splits)
    moreover have "emits Data k (line [T t]) Data k" for k by (rule emits_line) simp
    ultimately show ?thesis using keep [of s "line [T t]"] by simp
  next
    case (ILink destination t)
    then obtain path where "resolve_in env ctx destination = Inr path" "s' = s"
        "line [L ''<a href=\"'', T path, L ''\">'', T t, L ''</a>''] out = Inr out'"
      using n by (auto simp: body_node_def res_simps write_keeping_Inr split: if_splits)
    then show ?thesis using keep [of s] emits_link [OF resolve_in_same_origin] by blast
  next
    case (IBeginLink destination)
    then obtain path where r: "resolve_in env ctx destination = Inr path" "s' = s\<lparr>bs_link := Some (length (bs_stack s))\<rparr>"
        "line [L ''<a href=\"'', T path, L ''\">''] out = Inr out'" "bs_link s = None"
      using n by (auto simp: body_node_def res_simps write_keeping_Inr split: if_splits)
    then have "open_body s' = ''a'' # open_body s" "body_inv s'" by (simp_all add: open_body_def body_inv_def)
    then show ?thesis using moved_emits [OF emits_link_open [OF resolve_in_same_origin [OF r(1)]] r(3)] by simp
  next
    case IEndLink
    then have r: "s' = s\<lparr>bs_link := None\<rparr>" "line [L ''</a>''] out = Inr out'" "bs_link s = Some (length (bs_stack s))"
      using n by (auto simp: body_node_def write_keeping_Inr split: if_splits)
    then have "open_body s = ''a'' # open_body s'" "body_inv s'" by (simp_all add: open_body_def body_inv_def)
    then show ?thesis using moved_emits [OF emits_link_close r(2)] by simp
  next
    case (IForm action)
    then have "s' = s\<lparr>bs_forms := bs_forms s + 1\<rparr>" "render_form env ctx action (bs_forms s + 1) out = Inr out'"
      using n by (auto simp: body_node_def write_keeping_Inr split: if_splits)
    then show ?thesis using keep [of s' "render_form env ctx action (bs_forms s + 1)"] fragment_render_form [OF p] by auto
  next
    case (IQueryForm q)
    then obtain m where "s' = s\<lparr>bs_forms := bs_forms s + 1\<rparr>"
        "query_form_writer (en_parameter_fields env m) (en_canonical_query env) m q out = Inr out'"
      using n by (auto simp: body_node_def res_simps write_keeping_Inr split: if_splits)
    then show ?thesis using keep [of s'] emits_under [OF fragment_query_form] by auto
  next
    case (IStylesheet asset)
    then show ?thesis using n inv by (simp add: body_node_def)
  next
    case (IDownload d)
    then have "s' = s" "render_download ctx d s out = Inr out'" using n by (auto simp: body_node_def write_keeping_Inr)
    moreover have "emits Data (open_body s) (render_download ctx d s) Data (open_body s)"
      by (rule fragment_download) (rule dl)
    ultimately show ?thesis using keep [of s] by blast
  next
    case (IRich node)
    then obtain remaining f where r: "rich_fragment (rc_assets ctx) (resolve_in env ctx) node (bs_remaining s) (MAX_DEPTH - length (bs_stack s))
          = Inr (remaining, f)" "s' = s\<lparr>bs_remaining := remaining\<rparr>" "push f out = Inr out'"
      using n by (auto simp: body_node_def res_simps write_keeping_Inr split: if_splits)
    have "emits Data k (push f) Data k" for k
      by (rule emits_push) (use rich_fragment_accepted [OF _ r(1)] resolve_in_same_origin in blast)
    then show ?thesis using keep [of s' "push f"] r by auto
  qed
qed

lemma body_loop_moved:
  assumes "context_ok ctx" and "body_inv s" and "body_loop env ctx ns (s, out) = Inr (s', out')"
  shows "moved (open_body s) out (open_body s') out'"
  using assms(2,3)
proof (induction ns arbitrary: s out)
  case (Cons n ns)
  let ?s = "if is_rich n then s else s\<lparr>bs_remaining := bs_remaining s - 1\<rparr>"
  have same: "open_body ?s = open_body s" "body_inv ?s"
    using Cons.prems(1) by (auto simp: open_body_def body_inv_def split: option.splits)
  obtain s1 out1 where 1: "body_node env ctx n ?s out = Inr (s1, out1)" and 2: "body_loop env ctx ns (s1, out1) = Inr (s', out')"
    using Cons.prems(2) by (auto simp: res_simps split: if_splits)
  show ?case using body_node_moved [OF assms(1) same(2) 1] Cons.IH [OF _ 2] same(1) moved_trans by metis
qed simp

text \<open>The first line carries the document type, which the acceptor does not read.\<close>

lemma doctype_line:
  assumes "emit (line [L (''<!doctype html>'' @ page_start), T title, L ''</title>''] # fs) [] = Inr out"
  shows "\<exists>t. moved [] [] [''head'', ''html''] t \<and> emit fs (''<!doctype html>'' @ t) = Inr out"
proof -
  obtain mid where mid: "line [L (''<!doctype html>'' @ page_start), T title, L ''</title>''] [] = Inr mid" "emit fs mid = Inr out"
    using assms by (auto simp: res_simps)
  have "mid = ''<!doctype html>'' @ page_start @ escape title @ ''</title>''"
    using mid(1) by (auto simp: line_def line_with_def res_simps push_with_Inr dest!: text_with_Inr)
  moreover have "moved [] [] [''head'', ''html''] (page_start @ escape title @ ''</title>'')"
    unfolding moved_def by (intro exI conjI allI) (auto simp: page_start_def scan_append scan_simps)
  ultimately show ?thesis using mid(2) by auto
qed

text \<open>Writers extend what they are given, so the document type stays in front.\<close>

lemma moved_prefix: "moved k (d @ a) k' b \<Longrightarrow> \<exists>c. b = d @ c \<and> moved k a k' c"
  by (auto simp: moved_def)

lemma safe_htmlI: "moved [] [] [] t \<Longrightarrow> safe_html (''<!doctype html>'' @ t)"
  by (auto simp: moved_def safe_html_def strip_prefix_list_def)

lemma emits_write_if_open:
  assumes "emits Data k f Data (n # k)"
  shows "emits Data k (write_if c f) Data ((if c then [n] else []) @ k)"
  using assms by (auto simp: write_if_def simp del: emit.simps)

lemma emits_write_if_close:
  assumes "emits Data (n # k) f Data k"
  shows "emits Data ((if c then [n] else []) @ k) (write_if c f) Data k"
  using assms by (auto simp: write_if_def simp del: emit.simps)

lemma render_document_safe:
  assumes ctx: "context_ok ctx" and r: "render_document env ctx doc = Inr body"
  shows "safe_html body"
proof -
  let ?html = "[''head'', ''html'']" and ?body = "[''body'', ''html'']"
  let ?main = "list_ex (\<lambda>n. n = IBegin CMain) (doc_nodes doc)"
  have p: "presentation_ok (rc_presentation ctx)" and np: "\<And>q. rc_next_page ctx = Some q \<Longrightarrow> same_origin q"
    using ctx by (auto simp: context_ok_def)
  obtain out1 h out2 out3 s out4 where
    1: "emit [line [L (''<!doctype html>'' @ page_start), T (doc_title doc), L ''</title>''], stylesheet (rc_presentation ctx)] [] = Inr out1"
    and 2: "head_loop (rc_assets ctx) (doc_nodes doc) (\<lparr>hs_nesting = 0, hs_in_link = False, hs_styles = []\<rparr>, out1) = Inr (h, out2)"
    and 3: "emit [line [L ''</head><body>''],
          (case rc_logout_csrf ctx of Some csrf \<Rightarrow> account_nav (rc_presentation ctx) csrf | None \<Rightarrow> emit []),
          write_if (hs_styles h \<noteq> []) (line [L ''<div class=\"noxide-app\">'']), write_if (\<not> ?main) (line [L ''<main>''])] out2 = Inr out3"
    and 4: "body_loop env ctx (doc_nodes doc)
          (\<lparr>bs_stack = [], bs_forms = 0, bs_link = None, bs_remaining = MAX_NODES, bs_main_seen = False\<rparr>, out3) = Inr (s, out4)"
    and s: "bs_stack s = []" "bs_link s = None"
    and 5: "emit [write_if (\<not> ?main) (line [L ''</main>'']), write_if (hs_styles h \<noteq> []) (line [L ''</div>'']),
         emit (map (preview_link env ctx) (rc_preview_links ctx)),
         (case rc_next_page ctx of Some p \<Rightarrow> next_page_link p | None \<Rightarrow> emit []), line [L ''</body></html>'']] out4 = Inr body"
    using r unfolding render_document_def Let_def by (auto simp: res_simps simp del: emit.simps split: prod.splits if_splits)
  let ?div = "(if hs_styles h \<noteq> [] then [''div''] else []) @ ?body"
  let ?in = "(if \<not> ?main then [''main''] else []) @ ?div"
  obtain t where t: "moved [] [] ?html t" and t1: "emit [stylesheet (rc_presentation ctx)] (''<!doctype html>'' @ t) = Inr out1"
    using doctype_line [OF 1] by blast
  have m1: "moved ?html (''<!doctype html>'' @ t) ?html out1"
    by (rule moved_emits [OF emits_cons [OF fragment_stylesheet [OF p] emits_nil] t1])
  have m2: "moved ?html out1 ?html out2" using head_loop_moved [OF 2] .
  have csrf: "emits Data ?body (case c of Some csrf \<Rightarrow> account_nav (rc_presentation ctx) csrf | None \<Rightarrow> emit []) Data ?body" for c
    using fragment_account_nav [OF p] by (auto simp del: emit.simps split: option.splits)
  have "emits Data ?html (line [L ''</head><body>'']) Data ?body" by (rule emits_line) (simp add: scan_simps)
  moreover have "emits Data ?body (write_if (hs_styles h \<noteq> []) (line [L ''<div class=\"noxide-app\">''])) Data ?div"
    by (rule emits_write_if_open, rule emits_line) (simp add: scan_simps)
  moreover have "emits Data ?div (write_if (\<not> ?main) (line [L ''<main>''])) Data ?in"
    by (rule emits_write_if_open, rule emits_line) (simp add: scan_simps)
  ultimately have m3: "moved ?html out2 ?in out3"
    by (intro moved_emits [where f = "emit fs" for fs, OF _ 3]) (rule emits_cons, assumption, rule emits_cons [OF csrf], rule emits_cons, assumption,
        rule emits_cons, assumption, rule emits_nil)
  have "moved [] out3 [] out4"
    using body_loop_moved [OF ctx _ 4] s by (simp add: body_inv_def open_body_def)
  then have m4: "moved ?in out3 ?in out4" using moved_frame [of "[]" out3 "[]" out4 ?in] by simp
  have prev: "emits Data ?body (emit (map (preview_link env ctx) refs)) Data ?body" for refs
  proof (rule emits_list, clarsimp)
    fix ref
    show "emits Data ?body (preview_link env ctx ref) Data ?body"
      unfolding preview_link_def
      by (intro emits_with_value emits_line) (use resolve_same_origin same_origin_escape in \<open>auto simp: scan_simps\<close>)
  qed
  have nxt: "emits Data ?body (case rc_next_page ctx of Some p \<Rightarrow> next_page_link p | None \<Rightarrow> emit []) Data ?body"
    using np by (auto simp: next_page_link_def scan_simps same_origin_escape simp del: emit.simps intro!: emits_line split: option.splits)
  have "emits Data ?in (write_if (\<not> ?main) (line [L ''</main>''])) Data ?div"
    by (rule emits_write_if_close, rule emits_line) (simp add: scan_simps)
  moreover have "emits Data ?div (write_if (hs_styles h \<noteq> []) (line [L ''</div>''])) Data ?body"
    by (rule emits_write_if_close, rule emits_line) (simp add: scan_simps)
  moreover have "emits Data ?body (line [L ''</body></html>'']) Data []" by (rule emits_line) (simp add: scan_simps)
  ultimately have m5: "moved ?in out4 [] body"
    by (intro moved_emits [where f = "emit fs" for fs, OF _ 5]) (rule emits_cons, assumption, rule emits_cons, assumption, rule emits_cons [OF prev],
        rule emits_cons [OF nxt], rule emits_cons, assumption, rule emits_nil)
  have "moved ?html (''<!doctype html>'' @ t) [] body"
    using m1 m2 m3 m4 m5 by (blast intro: moved_trans)
  then obtain c where "body = ''<!doctype html>'' @ c" "moved ?html t [] c" using moved_prefix by blast
  then show ?thesis using moved_trans [OF t] safe_htmlI by blast
qed

lemma emit_last: "emit (fs @ [f]) out = Inr out' \<Longrightarrow> \<exists>mid. f mid = Inr out'"
  by (auto simp: emit_append res_simps)

lemma line_length: "line [L s] out = Inr out' \<Longrightarrow> length out' \<le> MAX_OUTPUT_BYTES"
  by (auto simp: line_def line_with_def res_simps push_with_def split: if_splits)

lemma render_document_length: "render_document env ctx doc = Inr body \<Longrightarrow> length body \<le> MAX_OUTPUT_BYTES"
  using line_length emit_last [of "[_, _, _, _]"]
  by (fastforce simp: render_document_def Let_def res_simps simp del: emit.simps split: prod.splits if_splits)

text \<open>The page under any context whose links the host has made for this origin.\<close>

lemma render_safe:
  assumes "context_ok ctx" and "render env intent ctx = Inr r"
  shows "(case rd_location r of
       Some location \<Rightarrow> rd_status r = 303 \<and> rd_body r = [] \<and> same_origin location
     | None \<Rightarrow> rd_status r \<in> {200, 404} \<and> safe_html (rd_body r) \<and> length (rd_body r) \<le> MAX_OUTPUT_BYTES)"
  using assms
  by (cases intent) (auto simp: render_def document_page_def res_simps
      intro: render_document_safe render_document_length resolve_in_same_origin split: if_splits)

text \<open>C32: the recovery page is safe too.  Whatever the submitted values, the current values, the
  application's message and the reason, the page shown after a submission is accepted by the same
  acceptor.\<close>

theorem recovery_page_safe:
  assumes "presentation_ok presentation" and "recovery env presentation m action credentials input reason = Inr r"
  shows "safe_html (rd_body r) \<and> rd_location r = None"
proof -
  let ?html = "[''head'', ''html'']" and ?main = "[''main'', ''body'', ''html'']"
  obtain a where a: "web_action_of m action = Inr a" using assms(2) by (auto simp: recovery_def res_simps)
  obtain input' credentials' where ic: "take_selections (ac_targets (wa_core a)) (input, credentials) = (input', credentials')"
    by (rule prod.exhaust)
  obtain t where e: "recovery_writer env presentation m a credentials' input' reason t [] = Inr (rd_body r)" and loc: "rd_location r = None"
    using assms(2) a ic by (auto simp: recovery_def res_simps)
  have start: "emits Data ?html (line [L ''</head><body><main><h1>'', T (rv_title t), L ''</h1><p role=\"status\">'', T (rv_explanation t),
      L ''</p>'']) Data ?main"
    by (rule emits_line) (simp add: scan_simps)
  have "emits Data k (current_value m core nv) Data k" for k core nv
    unfolding current_value_def by (rule emits_with_value, rule emits_line) (simp add: scan_simps)
  then have current: "emits Data (''section'' # k) (emit (map (current_value m core) vs)) Data (''section'' # k)" for k core vs
    by (intro emits_list) auto
  have sect: "emits Data k (line [L ''<section aria-label=\"Current values\"><h2>Current values</h2>'']) Data (''section'' # k)"
    "emits Data (''section'' # k) (line [L ''</section>'']) Data k" "emits Data k (line [L ''<h2>Your changes</h2>'']) Data k"
    "emits Data k (line [L ''<p class=\"application-error\">'', T msg, L ''</p>'']) Data k" for k msg
    by (rule emits_line, simp add: scan_simps)+
  have details: "emits Data ?main (recovery_details env m a reason) Data ?main"
  proof (cases reason)
    case (Conflict vs)
    have "emits Data ?main (emit [line [L ''<section aria-label=\"Current values\"><h2>Current values</h2>''],
        emit (map (current_value m (wa_core a)) vs), line [L ''</section>''],
        write_if (ac_inputs (wa_core a) \<noteq> []) (line [L ''<h2>Your changes</h2>''])]) Data ?main"
      by (intro emits_cons [OF sect(1)] emits_cons [OF current] emits_cons [OF sect(2)] emits_cons [OF emits_write_if [OF sect(3)]] emits_nil)
    then show ?thesis using Conflict by (simp add: recovery_details_def emits_write_if del: emit.simps)
  next
    case (RejectedWith errors message)
    then show ?thesis by (auto simp: recovery_details_def simp del: emit.simps intro!: emits_with_value sect(4))
  qed (auto simp: recovery_details_def simp del: emit.simps)
  have fin: "emits Data ?main (line [L ''<a href=\"/\">Return home</a></main></body></html>'']) Data []"
    by (rule emits_line) (simp add: scan_simps)
  obtain u where u: "moved [] [] ?html u"
    and rest: "emit [stylesheet presentation,
         line [L ''</head><body><main><h1>'', T (rv_title t), L ''</h1><p role=\"status\">'', T (rv_explanation t), L ''</p>''],
         recovery_details env m a reason,
         form (en_layout_json env) m a credentials' input' (rv_readonly t) (rv_errors t) (Some (rv_button t)) 0 presentation,
         line [L ''<a href=\"/\">Return home</a></main></body></html>'']] (''<!doctype html>'' @ u) = Inr (rd_body r)"
    using doctype_line [OF e [unfolded recovery_writer_def]] by blast
  have "moved ?html (''<!doctype html>'' @ u) [] (rd_body r)"
    by (rule moved_emits [where f = "emit fs" for fs, OF _ rest]) (intro emits_cons [OF fragment_stylesheet [OF assms(1)]] emits_cons [OF start]
        emits_cons [OF details] emits_cons [OF emits_under [OF fragment_form [OF assms(1)]]] emits_cons [OF fin] emits_nil)
  then obtain c where "rd_body r = ''<!doctype html>'' @ c" "moved ?html u [] c" using moved_prefix by blast
  then show ?thesis using moved_trans [OF u] safe_htmlI loc by metis
qed

definition demo_env :: render_env where
  "demo_env = \<lparr>en_document_json = (\<lambda>_. Inr []), en_layout_json = (\<lambda>_. Inr []), en_urlencode = (\<lambda>_. []),
     en_validate_params = (\<lambda>_ _ _. Inr ()), en_parameter_fields = (\<lambda>_ _. Inr []), en_canonical_query = (\<lambda>_. Inr []),
     en_validate_rejection = (\<lambda>_ _ _. Inr ())\<rparr>"

definition demo_presentation :: presentation where
  "demo_presentation = \<lparr>pr_csrf_field = ''_csrf'', pr_submission_field = ''_submission'', pr_capability_field = ''_capability'',
     pr_account_path = ''/account'', pr_logout_path = ''/logout'', pr_action_path = ''/actions'',
     pr_stylesheet_path = ''/assets/site.css'', pr_stylesheet = None\<rparr>"

definition demo_context :: render_context where
  "demo_context = \<lparr>rc_assets = Map.empty, rc_presentation = demo_presentation, rc_manifest = None, rc_forms = Map.empty,
     rc_logout_csrf = None, rc_next_page = None, rc_preview_links = [], rc_downloads = Map.empty\<rparr>"

lemma demo_presentation_ok: "presentation_ok demo_presentation"
  by (simp add: presentation_ok_def demo_presentation_def host_field_ok_def endpoint_ok_def ascii_defs)

definition demo_operation :: operation where
  "demo_operation = \<lparr>op_maintenance = False, op_query = None, op_bind = [], op_scope = None, op_via = None, op_filter = [],
     op_disclose = [], op_list = None, op_id = 3, op_resource = 1, op_kind = DeleteOp, op_policy = \<lparr>any_of = [[Owner]]\<rparr>,
     op_visibility = None, op_fields = None\<rparr>"

definition demo_manifest :: manifest where
  "demo_manifest = \<lparr>mf_effects = None, mf_jobs = None, mf_assets = [], mf_blobs = None, mf_version = VERSION, mf_resources = [],
     mf_operations = [demo_operation], mf_routes = [],
     mf_actions = [\<lparr>ac_id = 2, ac_version = 1, ac_name = ''remove'', ac_targets = [], ac_inputs = [],
       ac_steps = [\<lparr>sp_guards = [], sp_operation = 3, sp_target = NamedTarget ''target'', sp_assign = []\<rparr>]\<rparr>],
     mf_web_bindings = [\<lparr>wb_id = 1, wb_version = 1, wb_action = 2, wb_layout = [],
       wb_redirect = \<lparr>rd_route = 1, rd_source = RedirectStep 0\<rparr>\<rparr>]\<rparr>"

definition demo_credentials :: form_credentials where
  "demo_credentials = \<lparr>fc_upload_ticket = None, fc_csrf = ''c'', fc_submission = ''s'', fc_values = [],
     fc_selections = Map.empty, fc_selected = Map.empty\<rparr>"

theorem recovery_page_safe_witness:
  "presentation_ok demo_presentation
   \<and> (\<exists>r. recovery demo_env demo_presentation demo_manifest 1 demo_credentials [] (RejectedWith [] ''<no>'') = Inr r
        \<and> safe_html (rd_body r))"
proof -
  have one: "show_nat 1 = ''1''" by code_simp
  have "\<exists>r. recovery demo_env demo_presentation demo_manifest 1 demo_credentials [] (RejectedWith [] ''<no>'') = Inr r"
    by (simp add: recovery_def web_action_of_def web_binding_of_def find_action_def demo_manifest_def demo_operation_def recovery_text_of_def recovery_writer_def
        recovery_details_def demo_env_def demo_presentation_def demo_credentials_def stylesheet_def write_if_def form_def Let_def hidden_def
        first_operation_def find_operation_def is_capability_def default_layout_def validate_layout_def layout_node_def MAX_NODES_def LAYOUT_BYTES_def
        top_phrasing_def line_def line_with_def push_with_def text_with_def escape_char_def page_start_def MAX_OUTPUT_BYTES_def check_def
        with_value_def one [simplified])
  then show ?thesis using recovery_page_safe [OF demo_presentation_ok] demo_presentation_ok by blast
qed

end
