(* ===== verification/Host_Page.thy ===== *)
theory Host_Page
  imports Render
begin

text \<open>
  The host's side of a page: \<^verbatim>\<open>render_page\<close> and \<^verbatim>\<open>next_page_link\<close> of
  \<^verbatim>\<open>crates/noxide-host/src/application/page.rs\<close> and \<^verbatim>\<open>download_links\<close> of
  \<^verbatim>\<open>application/blobs.rs\<close>, which build the links a page carries besides its own document.

  The key service's tokens are parameters: what \<open>issue\<close> signs for a download or a cursor is any text,
  or an error.
\<close>

section \<open>Links\<close>

type_synonym blob_read = "(nat \<times> nat \<times> string) \<times> (string \<times> string)"

text \<open>\<open>download_links\<close>: one ticket for each blob the guest's direct reads delivered; none outside a
  route.  The token is issued for the operation, its resource, the record, its incarnation, the route,
  the field and the blob.\<close>

definition download_link ::
  "manifest \<Rightarrow> (operation \<Rightarrow> nat \<Rightarrow> blob_read \<Rightarrow> string res) \<Rightarrow> nat \<Rightarrow> blob_read
     \<Rightarrow> ((nat \<times> nat \<times> string) \<times> string) res" where
  "download_link m issue route b =
     (case b of ((read, n, field), _) \<Rightarrow>
        and_then (find_operation m read) (\<lambda>v.
        ensure (op_kind v = ReadOp \<and> op_via v = None) ''download requires direct Read''
        (and_then (issue v route b) (\<lambda>ticket.
         Inr ((read, n, field), ''/_noxide/download?ticket='' @ ticket)))))"

fun collect_links :: "'a res list \<Rightarrow> 'a list res" where
  "collect_links [] = Inr []"
| "collect_links (r # rs) = and_then r (\<lambda>a. and_then (collect_links rs) (\<lambda>as. Inr (a # as)))"

definition download_links ::
  "manifest \<Rightarrow> (operation \<Rightarrow> nat \<Rightarrow> blob_read \<Rightarrow> string res) \<Rightarrow> nat option \<Rightarrow> blob_read list
     \<Rightarrow> ((nat \<times> nat \<times> string) \<times> string) list res" where
  "download_links m issue route reads =
     (case route of None \<Rightarrow> Inr [] | Some route \<Rightarrow> collect_links (map (download_link m issue route) reads))"

text \<open>\<open>next_page_link\<close>: the request's own route with the signed cursor.  An unresolvable route is a
  panic (\<open>expect\<close>).\<close>

definition host_next_page ::
  "render_env \<Rightarrow> manifest \<Rightarrow> ('c \<Rightarrow> string res) \<Rightarrow> route_ref \<Rightarrow> 'c option \<Rightarrow> string option res" where
  "host_next_page env m issue reference more_rows =
     (case more_rows of
        None \<Rightarrow> Inr None
      | Some position \<Rightarrow>
          and_then (issue position) (\<lambda>encoded.
          case resolve env m reference of
            Inl _ \<Rightarrow> Inl ''validated route''
          | Inr path \<Rightarrow>
              Inr (Some (path @ (if rr_params reference = [] then ''?'' else ''&'') @ ''cursor='' @ encoded))))"

section \<open>The page\<close>

text \<open>What the host has at hand when the guest has answered: the deployment's manifest, presentation
  and assets, the session's logout token, the forms, and the guest's effects (the routes it may preview,
  the blobs it read, the position after a full page).\<close>

record 'c page_inputs =
  pg_manifest :: manifest
  pg_presentation :: presentation
  pg_assets :: asset_bundle
  pg_forms :: "nat \<rightharpoonup> form_credentials option"
  pg_logout_csrf :: "string option"
  pg_see_all :: "route_ref list"
  pg_blob_reads :: "blob_read list"
  pg_route :: "nat option"
  pg_reference :: route_ref
  pg_more :: "'c option"
  pg_issue_download :: "operation \<Rightarrow> nat \<Rightarrow> blob_read \<Rightarrow> string res"
  pg_issue_cursor :: "'c \<Rightarrow> string res"

text \<open>\<open>render_page\<close> after \<open>next_page_link\<close>; the anonymous cookie it may set on the response is a header,
  not part of the page.\<close>

definition render_page :: "render_env \<Rightarrow> 'c page_inputs \<Rightarrow> response_intent \<Rightarrow> rendered res" where
  "render_page env g response =
     and_then (host_next_page env (pg_manifest g) (pg_issue_cursor g) (pg_reference g) (pg_more g)) (\<lambda>next_page.
     and_then (download_links (pg_manifest g) (pg_issue_download g) (pg_route g) (pg_blob_reads g)) (\<lambda>downloads.
     render env response
       \<lparr>rc_assets = pg_assets g, rc_presentation = pg_presentation g, rc_manifest = Some (pg_manifest g),
        rc_forms = pg_forms g, rc_logout_csrf = pg_logout_csrf g, rc_next_page = next_page,
        rc_preview_links = pg_see_all g, rc_downloads = map_of downloads\<rparr>))"

section \<open>Every link refers to this origin\<close>

lemma download_link_origin:
  "download_link m issue route b = Inr (k, href) \<Longrightarrow> same_origin href"
  by (auto simp: download_link_def same_origin_def url_break_def res_simps split: prod.splits if_splits)

lemma collect_links_Inr:
  "collect_links rs = Inr xs \<Longrightarrow> x \<in> set xs \<Longrightarrow> \<exists>r \<in> set rs. r = Inr x"
  by (induction rs arbitrary: xs) (auto simp: res_simps)

lemma download_links_origin:
  assumes "download_links m issue route reads = Inr links" and "map_of links k = Some href"
  shows "same_origin href"
proof -
  have "(k, href) \<in> set links" using assms(2) by (rule map_of_SomeD)
  then obtain r b where "download_link m issue r b = Inr (k, href)"
    using assms(1) collect_links_Inr by (fastforce simp: download_links_def split: option.splits)
  then show ?thesis by (rule download_link_origin)
qed

lemma next_page_origin:
  assumes "host_next_page env m issue reference more_rows = Inr (Some href)"
  shows "same_origin href"
proof -
  obtain path encoded where path: "resolve env m reference = Inr path"
    and href: "href = path @ (if rr_params reference = [] then ''?'' else ''&'') @ ''cursor='' @ encoded"
    using assms by (cases "resolve env m reference") (auto simp: host_next_page_def res_simps split: option.splits)
  have "same_origin (path @ c # w)" if "c = CHR ''?'' \<or> c = CHR ''&''" for c w
    using that by (intro same_origin_append resolve_same_origin [OF path]) (auto simp: url_break_def)
  then show ?thesis unfolding href by simp
qed

text \<open>C31: pages are safe whatever the guest says.  For every response intent, every document in it
  included, if the host renders it under an admitted presentation (host field names and endpoint paths
  of the admitted shape) then either it is a redirect, with an empty body, to a path of this origin; or
  the body is at most 256 KiB and, after the document type, is accepted by the strict acceptor: it uses
  only the host's elements and attributes, every element is closed in order, every attribute value ends
  where the host ended it, and every link, image, stylesheet and form, read as a browser reads it (with
  references decoded and tabs and line breaks dropped), goes to this origin.  The links to downloads and
  to the next page are covered as the host builds them, whatever text the tokens in them are.  No text of
  the guest, of a record or of a user can open a tag, leave an attribute or add one.\<close>

theorem render_page_safe:
  assumes "presentation_ok (pg_presentation g)" and "render_page env g intent = Inr r"
  shows "(case rd_location r of
       Some location \<Rightarrow> rd_status r = 303 \<and> rd_body r = [] \<and> same_origin location
     | None \<Rightarrow> rd_status r \<in> {200, 404} \<and> safe_html (rd_body r) \<and> length (rd_body r) \<le> MAX_OUTPUT_BYTES)"
proof -
  obtain np ds where np: "host_next_page env (pg_manifest g) (pg_issue_cursor g) (pg_reference g) (pg_more g) = Inr np"
    and ds: "download_links (pg_manifest g) (pg_issue_download g) (pg_route g) (pg_blob_reads g) = Inr ds"
    and r: "render env intent
       \<lparr>rc_assets = pg_assets g, rc_presentation = pg_presentation g, rc_manifest = Some (pg_manifest g),
        rc_forms = pg_forms g, rc_logout_csrf = pg_logout_csrf g, rc_next_page = np,
        rc_preview_links = pg_see_all g, rc_downloads = map_of ds\<rparr> = Inr r"
    using assms(2) by (auto simp: render_page_def res_simps)
  show ?thesis
    by (rule render_safe [OF _ r])
      (use assms(1) np next_page_origin download_links_origin [OF ds] in \<open>auto simp: context_ok_def\<close>)
qed

definition demo_page :: "unit page_inputs" where
  "demo_page = \<lparr>pg_manifest = demo_manifest, pg_presentation = demo_presentation, pg_assets = Map.empty,
     pg_forms = Map.empty, pg_logout_csrf = None, pg_see_all = [], pg_blob_reads = [], pg_route = Some 1,
     pg_reference = \<lparr>rr_params = [], rr_route = 1, rr_target = None\<rparr>, pg_more = None,
     pg_issue_download = (\<lambda>_ _ _. Inr ''t''), pg_issue_cursor = (\<lambda>_. Inr ''c'')\<rparr>"

theorem render_page_safe_witness:
  "presentation_ok (pg_presentation demo_page)
   \<and> (\<exists>r. render_page demo_env demo_page
           (Page \<lparr>doc_title = ''t'', doc_nodes = [IBegin CParagraph, IText ''<b>'', IEnd]\<rparr>) = Inr r
        \<and> rd_location r = None \<and> safe_html (rd_body r))"
proof -
  let ?d = "\<lparr>doc_title = ''t'', doc_nodes = [IBegin CParagraph, IText ''<b>'', IEnd]\<rparr>"
  have c: "presentation_ok (pg_presentation demo_page)" by (simp add: demo_page_def demo_presentation_ok)
  have "\<exists>r. render_page demo_env demo_page (Page ?d) = Inr r \<and> rd_location r = None"
    by (simp add: render_page_def demo_page_def host_next_page_def download_links_def render_def document_page_def demo_env_def
        demo_presentation_def MAX_NODES_def LAYOUT_BYTES_def
        render_document_def Let_def line_def line_with_def push_with_def text_with_def escape_char_def page_start_def MAX_OUTPUT_BYTES_def
        stylesheet_def write_if_def head_node_def body_node_def is_rich_def begin_container_def last_is_def inline_def MAX_DEPTH_def
        write_keeping_def container_tag_def)
  then show ?thesis using render_page_safe [OF c] c by fastforce
qed

end
