(* ===== verification/Job_Types.thy ===== *)
theory Job_Types
  imports Manifest Lifecycle_Clock
begin

text \<open>
  Background jobs: the operator approval of
  \<^verbatim>\<open>crates/noxide-jobs/src/job_deployment.rs\<close> and the captured values of
  \<^verbatim>\<open>crates/noxide-jobs/src/types.rs\<close>.

  A \<open>BTreeMap\<close> is its list of entries in key order.  The JSON codec, SHA-256 and base64 belong to
  other crates: \<open>job_env\<close> holds them, \<open>je_digest\<close> being the composition the function \<open>digest\<close>
  makes of the three on each tuple the code hashes.
\<close>

section \<open>Operator approval\<close>

record job_limits =
  jl_pending_per_app :: nat
  jl_pending_per_tenant :: nat
  jl_worker_concurrency :: nat

record job_grant =
  jg_worker :: string
  jg_tenant :: string
  jg_actions :: "nat list"

record job_deployment =
  jp_grants :: "job_grant list"
  jp_limits :: job_limits

record effective_grant =
  eg_tenant :: string
  eg_worker :: service_worker

record effective_deployment =
  ef_limits :: job_limits
  ef_grants :: "effective_grant list"

definition default_job_limits :: job_limits where
  "default_job_limits =
     \<lparr>jl_pending_per_app = MAX_PENDING_JOBS, jl_pending_per_tenant = MAX_PENDING_JOBS,
      jl_worker_concurrency = MAX_WORKERS_PER_APP\<rparr>"

definition validate_job_limits :: "job_limits \<Rightarrow> unit res" where
  "validate_job_limits l =
     ensure (1 \<le> jl_pending_per_app l \<and> jl_pending_per_app l \<le> MAX_PENDING_JOBS
         \<and> 1 \<le> jl_pending_per_tenant l \<and> jl_pending_per_tenant l \<le> jl_pending_per_app l
         \<and> 1 \<le> jl_worker_concurrency l \<and> jl_worker_concurrency l \<le> MAX_WORKERS_PER_APP)
       ''job limits exceed framework ceilings'' (Inr ())"

definition retain_granted :: "nat list \<Rightarrow> service_worker \<Rightarrow> service_worker" where
  "retain_granted actions w =
     w\<lparr>sw_actions := sort_key wa_action (filter (\<lambda>a. wa_action a \<in> set actions) (sw_actions w))\<rparr>"

text \<open>One requested grant; \<open>seen\<close> holds the tenant and worker pairs already granted.\<close>

definition effective_grant_of ::
  "job_contract \<Rightarrow> job_grant \<Rightarrow> (string \<times> string) list \<Rightarrow> effective_grant res" where
  "effective_grant_of contract g seen =
     ensure (is_identifier (jg_worker g) \<and> (jg_tenant g = [] \<or> is_identifier (jg_tenant g))
         \<and> jg_actions g \<noteq> [] \<and> length (jg_actions g) \<le> 32 \<and> (jg_tenant g, jg_worker g) \<notin> set seen)
       ''invalid or duplicate operator job grant''
     (and_then (ok_or (find (\<lambda>w. sw_name w = jg_worker g) (jc_workers contract)) ''operator granted undeclared worker'')
        (\<lambda>declaration.
         ensure (list_all (\<lambda>n. list_ex (\<lambda>a. wa_action a = n) (sw_actions declaration)) (jg_actions g))
           ''operator granted undeclared action''
         (Inr \<lparr>eg_tenant = jg_tenant g, eg_worker = retain_granted (jg_actions g) declaration\<rparr>)))"

fun effective_grants ::
  "job_contract \<Rightarrow> job_grant list \<Rightarrow> (string \<times> string) list \<Rightarrow> effective_grant list res" where
  "effective_grants contract [] seen = Inr []"
| "effective_grants contract (g # gs) seen =
     and_then (effective_grant_of contract g seen) (\<lambda>e.
     and_then (effective_grants contract gs ((jg_tenant g, jg_worker g) # seen)) (\<lambda>es. Inr (e # es)))"

definition grant_order :: "effective_grant list \<Rightarrow> effective_grant list" where
  "grant_order gs = sort_key eg_tenant (sort_key (\<lambda>g. sw_name (eg_worker g)) gs)"

definition effective_jobs ::
  "(effective_deployment \<Rightarrow> bytes) \<Rightarrow> job_contract \<Rightarrow> job_deployment \<Rightarrow> effective_deployment res" where
  "effective_jobs approval_bytes contract d =
     and_then (validate_job_limits (jp_limits d)) (\<lambda>_.
     ensure (length (jp_grants d) \<le> 64) ''too many operator job grants''
     (and_then (effective_grants contract (jp_grants d) []) (\<lambda>gs.
        let effective = \<lparr>ef_limits = jp_limits d, ef_grants = grant_order gs\<rparr> in
        ensure (length (approval_bytes effective) \<le> MAX_MANIFEST_BYTES) ''operator job approval limit''
          (Inr effective))))"

section \<open>Scopes, seals and grants\<close>

definition opaque :: "string \<Rightarrow> bool" where
  "opaque v \<longleftrightarrow> 1 \<le> length v \<and> length v \<le> 128
     \<and> list_all (\<lambda>b. is_ascii_alphanumeric b \<or> b = CHR ''_'' \<or> b = CHR ''-'') v"

definition job_integer :: "string \<Rightarrow> int res" where
  "job_integer v =
     and_then (ok_or (parse_i64 v) ''invalid digit found in string'') (\<lambda>n.
     ensure (n \<ge> 0 \<and> show_int n = v) ''noncanonical job integer'' (Inr n))"

text \<open>A \<open>BIGINT\<close> column is read through \<open>CAST(... AS TEXT)\<close>.\<close>

definition column_integer :: "int \<Rightarrow> int res" where
  "column_integer v = job_integer (show_int v)"

record job_scope =
  js_deployment :: string
  js_tenant :: string

definition scope_validate :: "job_scope \<Rightarrow> unit res" where
  "scope_validate s =
     ensure (opaque (js_deployment s)) ''invalid job deployment''
     (ensure (js_tenant s = [] \<or> is_identifier (js_tenant s)) ''invalid job tenant'' (Inr ()))"

record sealed_target =
  sg_resource :: nat
  sg_id :: nat
  sg_incarnation :: string
  sg_revision :: int

definition sealed_validate :: "sealed_target \<Rightarrow> unit res" where
  "sealed_validate t =
     ensure (sg_resource t > 0 \<and> sg_id t > 0 \<and> int (sg_id t) \<le> I64_MAX \<and> sg_revision t \<ge> 0 \<and> opaque (sg_incarnation t))
       ''invalid sealed job target'' (Inr ())"

record service_grant =
  gr_scope :: job_scope
  gr_worker :: service_worker
  gr_version :: int
  gr_contract :: string
  gr_epoch :: string

definition grant_target_ok :: "string \<times> worker_target \<Rightarrow> unit res" where
  "grant_target_ok p =
     ensure (is_identifier (fst p) \<and> wt_resource (snd p) > 0 \<and> wt_eligible (snd p) > 0) ''invalid service target rule'' (Inr ())"

fun grant_actions_ok :: "worker_action list \<Rightarrow> nat list \<Rightarrow> unit res" where
  "grant_actions_ok [] seen = Inr ()"
| "grant_actions_ok (a # as) seen =
     ensure (wa_action a > 0 \<and> wa_action a \<notin> set seen \<and> length (wa_targets a) \<le> 4) ''invalid service action grant''
     (and_then (each_ok grant_target_ok (wa_targets a)) (\<lambda>_. grant_actions_ok as (wa_action a # seen)))"

definition grant_validate :: "service_grant \<Rightarrow> unit res" where
  "grant_validate g =
     and_then (scope_validate (gr_scope g)) (\<lambda>_.
     ensure (gr_version g > 0 \<and> opaque (gr_contract g) \<and> opaque (gr_epoch g)) ''invalid service grant version''
     (ensure (is_identifier (sw_name (gr_worker g)) \<and> length (sw_actions (gr_worker g)) \<le> 32) ''invalid service worker''
     (grant_actions_ok (sw_actions (gr_worker g)) [])))"

section \<open>Captured jobs\<close>

record captured_job =
  cj_scope :: job_scope
  cj_origin :: string
  cj_ordinal :: nat
  cj_source_action :: nat
  cj_worker :: string
  cj_action :: nat
  cj_action_version :: nat
  cj_contract :: string
  cj_grant_version :: int
  cj_epoch :: string
  cj_due :: timestamp
  cj_input :: "(string \<times> string) list"
  cj_targets :: "(string \<times> sealed_target) list"
  cj_reconciled_from :: "string option"

datatype digest_input =
    DJob string string nat
  | DInvocation string captured_job
  | DService job_scope string
  | DRecurrence job_scope string "(timestamp \<times> int) option" "(string \<times> nat \<times> nat \<times> string) list" "timestamp option" string
  | DReconcile string job_scope string string int

record job_env =
  je_job_json :: "captured_job \<Rightarrow> string"
  je_job_parse :: "string \<Rightarrow> captured_job option"
  je_grant_json :: "service_grant \<Rightarrow> string"
  je_grant_parse :: "string \<Rightarrow> service_grant option"
  je_digest :: "digest_input \<Rightarrow> string"
  je_sample :: "string \<Rightarrow> nat"

definition target_granted :: "worker_action \<Rightarrow> string \<times> sealed_target \<Rightarrow> unit res" where
  "target_granted a p =
     ensure (case map_of (wa_targets a) (fst p) of Some rule \<Rightarrow> wt_resource rule = sg_resource (snd p) | None \<Rightarrow> False)
       ''service target not granted'' (Inr ())"

definition permits :: "service_grant \<Rightarrow> captured_job \<Rightarrow> unit res" where
  "permits g j =
     and_then (grant_validate g) (\<lambda>_.
     ensure (gr_scope g = cj_scope j \<and> sw_name (gr_worker g) = cj_worker j \<and> gr_version g = cj_grant_version j
         \<and> gr_contract g = cj_contract j \<and> gr_epoch g = cj_epoch j) ''job grant changed''
     (and_then (ok_or (find (\<lambda>a. wa_action a = cj_action j) (sw_actions (gr_worker g))) ''service action not granted'') (\<lambda>a.
      ensure (length (wa_targets a) = length (cj_targets j)) ''service binding mismatch''
        (each_ok (target_granted a) (cj_targets j)))))"

definition job_target_ok :: "string \<times> sealed_target \<Rightarrow> unit res" where
  "job_target_ok p = ensure (is_identifier (fst p)) ''invalid job target alias'' (sealed_validate (snd p))"

definition job_input_ok :: "string \<times> string \<Rightarrow> unit res" where
  "job_input_ok p = ensure (is_identifier (fst p)) ''invalid job input name'' (Inr ())"

definition job_validate :: "job_env \<Rightarrow> captured_job \<Rightarrow> unit res" where
  "job_validate env j =
     and_then (scope_validate (cj_scope j)) (\<lambda>_.
     ensure (case cj_reconciled_from j of None \<Rightarrow> True | Some n \<Rightarrow> opaque n) ''invalid reconciliation parent''
     (ensure (opaque (cj_origin j) \<and> is_identifier (cj_worker j) \<and> cj_source_action j > 0 \<and> cj_action j > 0
         \<and> cj_action_version j > 0 \<and> cj_grant_version j > 0 \<and> cj_ordinal j < 2 \<and> opaque (cj_contract j) \<and> opaque (cj_epoch j))
       ''invalid captured job identity''
     (ensure (length (cj_targets j) \<le> 4 \<and> length (cj_input j) \<le> 32) ''job capture cardinality''
     (and_then (each_ok job_target_ok (cj_targets j)) (\<lambda>_.
      and_then (each_ok job_input_ok (cj_input j)) (\<lambda>_.
      ensure (length (je_job_json env j) \<le> MAX_JOB_BYTES) ''job payload limit'' (Inr ())))))))"

definition job_id :: "job_env \<Rightarrow> captured_job \<Rightarrow> string" where
  "job_id env j = ''j1_'' @ je_digest env (DJob (js_deployment (cj_scope j)) (cj_origin j) (cj_ordinal j))"

definition invocation_digest :: "job_env \<Rightarrow> captured_job \<Rightarrow> string" where
  "invocation_digest env j = je_digest env (DInvocation (job_id env j) j)"

definition receipt_subject :: "job_env \<Rightarrow> captured_job \<Rightarrow> string" where
  "receipt_subject env j = ''s1_'' @ je_digest env (DService (cj_scope j) (cj_worker j))"

text \<open>\<open>timestamp.checked_add(Duration::from_millis(ms)?)?\<close>.\<close>

definition add_millis :: "timestamp \<Rightarrow> int \<Rightarrow> timestamp res" where
  "add_millis t ms =
     and_then (time_res (duration_from_millis ms)) (\<lambda>d. time_res (timestamp_checked_add t d))"

definition capture ::
  "job_env \<Rightarrow> schedule \<Rightarrow> string \<Rightarrow> service_grant \<Rightarrow> nat \<Rightarrow> timestamp \<Rightarrow> timestamp
    \<Rightarrow> (string \<times> string) list \<Rightarrow> (string \<times> sealed_target) list \<Rightarrow> captured_job res" where
  "capture env declaration origin g action_version due now input targets =
     ensure (sc_ordinal declaration < MAX_SCHEDULES_PER_ACTION
         \<and> map fst (sc_targets declaration) = map fst targets \<and> map fst (sc_inputs declaration) = map fst input)
       ''schedule capture differs from declaration''
     (let job = \<lparr>cj_scope = gr_scope g, cj_origin = origin, cj_ordinal = sc_ordinal declaration,
          cj_source_action = sc_source_action declaration, cj_worker = sc_worker declaration, cj_action = sc_action declaration,
          cj_action_version = action_version, cj_contract = gr_contract g, cj_grant_version = gr_version g, cj_epoch = gr_epoch g,
          cj_due = due, cj_input = input, cj_targets = targets, cj_reconciled_from = None\<rparr> in
      and_then (job_validate env job) (\<lambda>_.
      and_then (add_millis now MAX_SCHEDULE_HORIZON_MILLIS) (\<lambda>horizon.
      ensure (due \<le> horizon) ''job exceeds schedule horizon''
      (and_then (permits g job) (\<lambda>_. Inr job)))))"

definition reconcile ::
  "job_env \<Rightarrow> captured_job \<Rightarrow> service_grant \<Rightarrow> nat \<Rightarrow> timestamp
    \<Rightarrow> (string \<times> string) list \<Rightarrow> (string \<times> sealed_target) list \<Rightarrow> captured_job res" where
  "reconcile env previous g action_version now input targets =
     (let parent = job_id env previous;
          origin = ''o1_'' @ je_digest env (DReconcile parent (gr_scope g) (gr_contract g) (gr_epoch g) (gr_version g));
          job = \<lparr>cj_scope = gr_scope g, cj_origin = origin, cj_ordinal = 0, cj_source_action = cj_action previous,
            cj_worker = sw_name (gr_worker g), cj_action = cj_action previous, cj_action_version = action_version,
            cj_contract = gr_contract g, cj_grant_version = gr_version g, cj_epoch = gr_epoch g, cj_due = now,
            cj_input = input, cj_targets = targets, cj_reconciled_from = Some parent\<rparr> in
      and_then (permits g job) (\<lambda>_.
      and_then (job_validate env job) (\<lambda>_.
      ensure (job_id env job \<noteq> job_id env previous) ''reconciliation reused job identity'' (Inr job))))"

section \<open>Claims\<close>

record job_claim =
  cl_id :: string
  cl_scope :: job_scope
  cl_fence :: int
  cl_lease_until :: timestamp
  cl_exhausted :: bool

record verified_job =
  vj_claim :: job_claim
  vj_job :: captured_job
  vj_grant :: service_grant

section \<open>Lemmas\<close>

lemma column_integer_Inr: "column_integer v = Inr n \<longleftrightarrow> n = v \<and> 0 \<le> v \<and> in_i64 v"
proof
  assume "column_integer v = Inr n"
  then have p: "parse_i64 (show_int v) = Some n" "n \<ge> 0" "show_int n = show_int v"
    by (auto simp: column_integer_def job_integer_def res_simps)
  have i: "in_i64 n" using p(1) by (rule parse_i64_in_i64)
  have "nat n = nat v" "v \<ge> 0"
  proof -
    have "show_nat (nat n) = show_int v" using p(2,3) by (simp add: show_int_def)
    moreover have "show_nat (nat n) \<noteq> CHR ''-'' # r" for r
    proof
      assume "show_nat (nat n) = CHR ''-'' # r"
      from show_nat_hd_digit [OF this] show False by (simp add: is_ascii_digit_def)
    qed
    ultimately show "v \<ge> 0" by (auto simp: show_int_def split: if_splits)
    with \<open>show_nat (nat n) = show_int v\<close> show "nat n = nat v" by (simp add: show_int_def show_nat_inj)
  qed
  then have "n = v" using p(2) by (simp add: eq_nat_nat_iff)
  with p(2) i show "n = v \<and> 0 \<le> v \<and> in_i64 v" by simp
qed (auto simp: column_integer_def job_integer_def)

lemma add_millis_Inr: "add_millis t d = Inr u \<Longrightarrow> u = t + d"
  by (auto simp: add_millis_def time_res_def duration_from_millis_def duration_try_from_def timestamp_checked_add_def timestamp_try_from_def checked_add_i64_def res_simps ok_or_def
      split: sum.splits if_splits option.splits)

end
