(* ===== verification/Job_Queue.thy ===== *)
theory Job_Queue
  imports Job_Types "HOL-Library.Product_Lexorder"
begin

text \<open>
  \<^verbatim>\<open>crates/noxide-jobs/src/store.rs\<close> over \<^verbatim>\<open>crates/noxide-store/src/statements/jobs.rs\<close>: the job
  queue.  The tables of \<^verbatim>\<open>database/jobs_layout.rs\<close> are lists of typed rows with their \<open>CHECK\<close>
  constraints and keys (the JSON validity of a column serde wrote is left out); a statement returns
  how many rows it touched.  An operation is one step of its transaction: on an error nothing of it
  is kept.  \<open>jd_calls\<close> is the budget of logical calls that \<open>QueueContext\<close> carries; the CPU
  checkpoints, which can only turn an operation into an error, are not modelled.  \<open>skipped\<close> lists
  the rows \<open>SKIP LOCKED\<close> passes over on PostgreSQL; it is empty on SQLite.
\<close>

section \<open>Tables\<close>

record runtime_row =
  jr_deployment :: string
  jr_contract :: string
  jr_epoch :: string
  jr_state :: string
  jr_pending_limit :: int
  jr_tenant_limit :: int
  jr_concurrency :: int

record grant_row =
  ng_deployment :: string
  ng_tenant :: string
  ng_worker :: string
  ng_version :: int
  ng_contract :: string
  ng_epoch :: string
  ng_state :: string
  ng_declaration :: string

record tenant_row =
  nt_deployment :: string
  nt_tenant :: string
  nt_claim_seq :: int

record job_row =
  nj_id :: string
  nj_deployment :: string
  nj_tenant :: string
  nj_origin :: string
  nj_ordinal :: int
  nj_worker :: string
  nj_action :: int
  nj_contract :: string
  nj_epoch :: string
  nj_grant_version :: int
  nj_payload :: string
  nj_payload_digest :: string
  nj_due_ms :: int
  nj_eligible_ms :: int
  nj_first_eligible_ms :: int
  nj_attempts :: int
  nj_fence :: int
  nj_lease_until_ms :: int
  nj_state :: string
  nj_reason :: string
  nj_reconciled_from :: "string option"

record recurring_row =
  nr_deployment :: string
  nr_tenant :: string
  nr_name :: string
  nr_contract :: string
  nr_epoch :: string
  nr_grant_version :: int
  nr_version :: int
  nr_state :: string
  nr_next_ms :: int
  nr_cutoff_ms :: int
  nr_cutoff_seq :: int
  nr_cursor :: string

record occurrence_row =
  no_deployment :: string
  no_tenant :: string
  no_schedule :: string
  no_occurrence :: string
  no_job :: string

record receipt_row =
  rx_nonce :: string
  rx_subject :: string
  rx_contract :: string
  rx_action :: int
  rx_input :: string
  rx_outcome :: string

record job_db =
  jd_generation :: "string option"
  jd_runtime :: "runtime_row option"
  jd_queue :: "int option"
  jd_grants :: "grant_row list"
  jd_tenants :: "tenant_row list"
  jd_jobs :: "job_row list"
  jd_recurring :: "recurring_row list"
  jd_occurrences :: "occurrence_row list"
  jd_receipts :: "receipt_row list"
  jd_creation :: "int option"
  jd_calls :: nat

type_synonym 'a job_tx = "job_db \<Rightarrow> ('a \<times> job_db) res"

definition text_check :: "nat \<Rightarrow> nat \<Rightarrow> string \<Rightarrow> bool" where
  "text_check lo hi s \<longleftrightarrow> lo \<le> length s \<and> length s \<le> hi \<and> CHR 0x00 \<notin> set s"

definition job_check :: "job_row \<Rightarrow> bool" where
  "job_check r \<longleftrightarrow> text_check 1 64 (nj_id r) \<and> text_check 1 64 (nj_deployment r) \<and> text_check 0 64 (nj_tenant r)
     \<and> text_check 1 128 (nj_origin r) \<and> 0 \<le> nj_ordinal r \<and> nj_ordinal r \<le> 1 \<and> text_check 1 64 (nj_worker r)
     \<and> nj_action r \<ge> 1 \<and> text_check 1 64 (nj_contract r) \<and> text_check 1 64 (nj_epoch r) \<and> nj_grant_version r \<ge> 1
     \<and> text_check 2 16384 (nj_payload r) \<and> text_check 1 64 (nj_payload_digest r) \<and> nj_due_ms r \<ge> 0
     \<and> nj_eligible_ms r \<ge> 0 \<and> nj_first_eligible_ms r \<ge> 0 \<and> 0 \<le> nj_attempts r \<and> nj_attempts r \<le> 5
     \<and> nj_fence r \<ge> 0 \<and> nj_lease_until_ms r \<ge> 0
     \<and> nj_state r \<in> {''pending'', ''running'', ''succeeded'', ''rejected'', ''dead'', ''paused''}
     \<and> text_check 0 24576 (nj_reason r)
     \<and> (case nj_reconciled_from r of None \<Rightarrow> True | Some p \<Rightarrow> text_check 1 64 p)"

section \<open>Statements\<close>

definition update_jobs :: "(job_row \<Rightarrow> bool) \<Rightarrow> (job_row \<Rightarrow> job_row) \<Rightarrow> nat job_tx" where
  "update_jobs P f db =
     (if list_all (\<lambda>r. P r \<longrightarrow> job_check (f r)) (jd_jobs db)
      then Inr (length (filter P (jd_jobs db)), db\<lparr>jd_jobs := map (\<lambda>r. if P r then f r else r) (jd_jobs db)\<rparr>)
      else Inl ''CHECK constraint'')"

definition in_scope :: "string \<Rightarrow> job_scope \<Rightarrow> job_row \<Rightarrow> bool" where
  "in_scope i s r \<longleftrightarrow> nj_id r = i \<and> nj_deployment r = js_deployment s \<and> nj_tenant r = js_tenant s"

definition lock_job_fence :: "string \<Rightarrow> job_scope \<Rightarrow> int \<Rightarrow> nat job_tx" where
  "lock_job_fence i s fence = update_jobs (\<lambda>r. in_scope i s r \<and> nj_fence r = fence) (\<lambda>r. r)"

definition finish_running_job ::
  "string \<Rightarrow> string \<Rightarrow> int \<Rightarrow> string \<Rightarrow> job_scope \<Rightarrow> int \<Rightarrow> nat job_tx" where
  "finish_running_job state reason eligible i s fence =
     update_jobs (\<lambda>r. in_scope i s r \<and> nj_state r = ''running'' \<and> nj_fence r = fence)
       (\<lambda>r. r\<lparr>nj_state := state, nj_reason := reason, nj_eligible_ms := eligible, nj_lease_until_ms := 0\<rparr>)"

definition claim_job ::
  "int \<Rightarrow> int \<Rightarrow> int \<Rightarrow> string \<Rightarrow> string \<Rightarrow> int \<Rightarrow> string \<Rightarrow> nat job_tx" where
  "claim_job next_fence lease attempts i deployment fence state =
     update_jobs (\<lambda>r. nj_id r = i \<and> nj_deployment r = deployment \<and> nj_fence r = fence \<and> nj_state r = state)
       (\<lambda>r. r\<lparr>nj_state := ''running'', nj_fence := next_fence, nj_lease_until_ms := lease, nj_attempts := attempts\<rparr>)"

definition insert_job :: "job_row \<Rightarrow> nat job_tx" where
  "insert_job r db =
     (if job_check r \<and> nj_id r \<notin> set (map nj_id (jd_jobs db))
        \<and> (nj_deployment r, nj_origin r, nj_ordinal r) \<notin> set (map (\<lambda>q. (nj_deployment q, nj_origin q, nj_ordinal q)) (jd_jobs db))
        \<and> (nj_deployment r, nj_tenant r) \<in> set (map (\<lambda>t. (nt_deployment t, nt_tenant t)) (jd_tenants db))
        \<and> (case nj_reconciled_from r of None \<Rightarrow> True | Some p \<Rightarrow> p = nj_id r \<or> p \<in> set (map nj_id (jd_jobs db)))
      then Inr (1, db\<lparr>jd_jobs := r # jd_jobs db\<rparr>) else Inl ''constraint violation'')"

definition ensure_tenant :: "string \<Rightarrow> string \<Rightarrow> nat job_tx" where
  "ensure_tenant deployment tenant db =
     (if list_ex (\<lambda>t. nt_deployment t = deployment \<and> nt_tenant t = tenant) (jd_tenants db) then Inr (0, db)
      else if text_check 1 64 deployment \<and> text_check 0 64 tenant
      then Inr (1, db\<lparr>jd_tenants := \<lparr>nt_deployment = deployment, nt_tenant = tenant, nt_claim_seq = 0\<rparr> # jd_tenants db\<rparr>)
      else Inl ''CHECK constraint'')"

definition live_runtime :: "job_db \<Rightarrow> runtime_row option" where
  "live_runtime db =
     (case jd_runtime db of
        Some r \<Rightarrow> if jd_generation db = Some (jr_deployment r) then Some r else None
      | None \<Rightarrow> None)"

definition advance_claim_sequence :: "string \<Rightarrow> nat job_tx" where
  "advance_claim_sequence deployment db =
     (case (jd_queue db, live_runtime db) of
        (Some seq, Some r) \<Rightarrow>
          if seq < I64_MAX \<and> jr_deployment r = deployment \<and> jr_state r = ''active''
          then Inr (1, db\<lparr>jd_queue := Some (seq + 1)\<rparr>) else Inr (0, db)
      | _ \<Rightarrow> Inr (0, db))"

definition record_tenant_claim :: "string \<Rightarrow> string \<Rightarrow> nat job_tx" where
  "record_tenant_claim deployment tenant db =
     (let P = (\<lambda>t. nt_deployment t = deployment \<and> nt_tenant t = tenant) in
      case jd_queue db of
        None \<Rightarrow> Inl ''NOT NULL constraint''
      | Some seq \<Rightarrow> Inr (length (filter P (jd_tenants db)),
          db\<lparr>jd_tenants := map (\<lambda>t. if P t then t\<lparr>nt_claim_seq := seq\<rparr> else t) (jd_tenants db)\<rparr>))"

definition active_job :: "job_row \<Rightarrow> bool" where
  "active_job r \<longleftrightarrow> nj_state r \<in> {''pending'', ''running'', ''paused''}"

definition active_job_counts :: "string \<Rightarrow> job_db \<Rightarrow> int \<times> int" where
  "active_job_counts tenant db =
     (let active = take 1001 (filter active_job (jd_jobs db)) in
      (int (length active), int (length (filter (\<lambda>r. nj_tenant r = tenant) active))))"

definition running_job_count :: "job_db \<Rightarrow> int" where
  "running_job_count db = int (length (take 3 (filter (\<lambda>r. nj_state r = ''running'') (jd_jobs db))))"

definition tenant_seq :: "job_db \<Rightarrow> job_row \<Rightarrow> int option" where
  "tenant_seq db r = map_option nt_claim_seq
     (find (\<lambda>t. nt_deployment t = nj_deployment r \<and> nt_tenant t = nj_tenant r) (jd_tenants db))"

definition claimable :: "string list \<Rightarrow> string \<Rightarrow> timestamp \<Rightarrow> bool \<Rightarrow> job_db \<Rightarrow> job_row \<Rightarrow> bool" where
  "claimable skipped deployment now capacity db r \<longleftrightarrow>
     tenant_seq db r \<noteq> None \<and> nj_deployment r = deployment \<and> nj_id r \<notin> set skipped
     \<and> (nj_state r = ''running'' \<and> nj_lease_until_ms r \<le> now
        \<or> nj_state r = ''pending'' \<and> nj_eligible_ms r \<le> now \<and> capacity)"

definition claim_key :: "job_db \<Rightarrow> job_row \<Rightarrow> int \<times> int \<times> string" where
  "claim_key db r = (the (tenant_seq db r), nj_eligible_ms r, nj_id r)"

definition next_claimable :: "string list \<Rightarrow> string \<Rightarrow> timestamp \<Rightarrow> bool \<Rightarrow> job_db \<Rightarrow> job_row option" where
  "next_claimable skipped deployment now capacity db =
     (case sort_key (claim_key db) (filter (claimable skipped deployment now capacity db) (jd_jobs db)) of
        [] \<Rightarrow> None | r # _ \<Rightarrow> Some r)"

section \<open>Reading the tables\<close>

definition charge :: "job_db \<Rightarrow> (unit \<times> job_db) res" where
  "charge db = ensure (jd_calls db > 0) ''database call budget'' (Inr ((), db\<lparr>jd_calls := jd_calls db - 1\<rparr>))"

record runtime_snapshot =
  ru_contract :: string
  ru_epoch :: string
  ru_state :: string
  ru_pending_limit :: int
  ru_tenant_limit :: int
  ru_concurrency :: int

definition narrow :: "int \<Rightarrow> int \<Rightarrow> int res" where
  "narrow hi v = ensure (0 \<le> v \<and> v \<le> hi) ''out of range integral type conversion attempted'' (Inr v)"

definition runtime_snapshot_of :: "job_scope \<Rightarrow> job_db \<Rightarrow> runtime_snapshot res" where
  "runtime_snapshot_of s db =
     and_then (ok_or (live_runtime db) ''job runtime unavailable'') (\<lambda>r.
     and_then (and_then (column_integer (jr_pending_limit r)) (narrow 65535)) (\<lambda>pending.
     and_then (and_then (column_integer (jr_tenant_limit r)) (narrow 65535)) (\<lambda>tenant.
     and_then (and_then (column_integer (jr_concurrency r)) (narrow 255)) (\<lambda>concurrency.
     ensure (1 \<le> pending \<and> pending \<le> int MAX_PENDING_JOBS \<and> 1 \<le> tenant \<and> tenant \<le> pending
         \<and> 1 \<le> concurrency \<and> concurrency \<le> int MAX_WORKERS_PER_APP) ''invalid authoritative queue limits''
     (Inr \<lparr>ru_contract = jr_contract r, ru_epoch = jr_epoch r,
        ru_state = (if jr_deployment r = js_deployment s then jr_state r else ''changed''),
        ru_pending_limit = pending, ru_tenant_limit = tenant, ru_concurrency = concurrency\<rparr>)))))"

definition bounded_text :: "nat \<Rightarrow> string \<Rightarrow> string res" where
  "bounded_text hi s = ensure (length s \<le> hi) ''NULL text'' (Inr s)"

definition grant_row_key :: "job_scope \<Rightarrow> string \<Rightarrow> grant_row \<Rightarrow> bool" where
  "grant_row_key s worker g \<longleftrightarrow> ng_deployment g = js_deployment s \<and> ng_tenant g = js_tenant s \<and> ng_worker g = worker"

definition lock_grant :: "job_env \<Rightarrow> job_scope \<Rightarrow> string \<Rightarrow> job_db \<Rightarrow> (service_grant \<times> string) res" where
  "lock_grant env s worker db =
     and_then (ok_or (find (grant_row_key s worker) (jd_grants db)) ''service grant unavailable'') (\<lambda>row.
     and_then (bounded_text MAX_JOB_BYTES (ng_declaration row)) (\<lambda>payload.
     and_then (ok_or (je_grant_parse env payload) ''invalid grant encoding'') (\<lambda>g.
     and_then (grant_validate g) (\<lambda>_.
     and_then (column_integer (ng_version row)) (\<lambda>version.
     ensure (gr_scope g = s \<and> sw_name (gr_worker g) = worker \<and> gr_version g = version
         \<and> gr_contract g = ng_contract row \<and> gr_epoch g = ng_epoch row) ''service grant storage mismatch''
       (Inr (g, ng_state row)))))))"

record job_view =
  jv_job :: captured_job
  jv_state :: string
  jv_attempts :: int
  jv_first_eligible :: timestamp
  jv_fence :: int
  jv_lease_until :: timestamp

text \<open>The checks \<open>row\<close> makes of the columns it has read.\<close>

definition row_identity :: "job_env \<Rightarrow> job_claim \<Rightarrow> captured_job \<Rightarrow> job_row \<Rightarrow> unit res" where
  "row_identity env c j r =
     ensure (job_id env j = cl_id c \<and> cj_scope j = cl_scope c \<and> invocation_digest env j = nj_payload_digest r
         \<and> cj_contract j = nj_contract r \<and> cj_epoch j = nj_epoch r) ''job storage identity mismatch''
     (and_then (column_integer (nj_action r)) (\<lambda>action.
      and_then (column_integer (nj_grant_version r)) (\<lambda>grant_version.
      and_then (column_integer (nj_due_ms r)) (\<lambda>due.
      and_then (column_integer (nj_ordinal r)) (\<lambda>ordinal.
      ensure (cj_worker j = nj_worker r \<and> int (cj_action j) = action \<and> cj_grant_version j = grant_version \<and> cj_due j = due
          \<and> cj_origin j = nj_origin r \<and> int (cj_ordinal j) = ordinal
          \<and> (case cj_reconciled_from j of None \<Rightarrow> [] | Some p \<Rightarrow> p) = (case nj_reconciled_from r of None \<Rightarrow> [] | Some p \<Rightarrow> p))
        ''job indexed metadata differs from capture''
      (and_then (column_integer (nj_first_eligible_ms r)) (\<lambda>first.
       and_then (column_integer (nj_eligible_ms r)) (\<lambda>eligible.
       ensure (due \<le> first \<and> first \<le> eligible) ''job retry time precedes eligibility'' (Inr ())))))))))"

definition state_shape :: "job_view \<Rightarrow> bool" where
  "state_shape v \<longleftrightarrow>
     (if jv_state v = ''running'' then jv_lease_until v > 0 \<and> jv_fence v > 0 \<and> jv_attempts v > 0
      else if jv_state v = ''pending'' then jv_lease_until v = 0 \<and> jv_attempts v < MAX_JOB_ATTEMPTS
      else jv_state v \<in> {''succeeded'', ''rejected'', ''dead'', ''paused''} \<and> jv_lease_until v = 0)"

definition read_row :: "job_env \<Rightarrow> job_claim \<Rightarrow> job_db \<Rightarrow> job_view res" where
  "read_row env c db =
     and_then (ok_or (find (in_scope (cl_id c) (cl_scope c)) (jd_jobs db)) ''job unavailable'') (\<lambda>r.
     and_then (bounded_text MAX_JOB_BYTES (nj_payload r)) (\<lambda>payload.
     and_then (ok_or (je_job_parse env payload) ''invalid job encoding'') (\<lambda>j.
     and_then (job_validate env j) (\<lambda>_.
     and_then (row_identity env c j r) (\<lambda>_.
     and_then (column_integer (nj_attempts r)) (\<lambda>attempts.
     and_then (and_then (column_integer (nj_first_eligible_ms r)) (\<lambda>n. time_res (from_unix_millis n))) (\<lambda>first.
     and_then (column_integer (nj_fence r)) (\<lambda>fence.
     and_then (and_then (column_integer (nj_lease_until_ms r)) (\<lambda>n. time_res (from_unix_millis n))) (\<lambda>lease.
      let v = \<lparr>jv_job = j, jv_state = nj_state r, jv_attempts = attempts, jv_first_eligible = first,
               jv_fence = fence, jv_lease_until = lease\<rparr> in
      ensure (attempts \<le> MAX_JOB_ATTEMPTS \<and> fence = cl_fence c \<and> (nj_state r \<noteq> ''running'' \<or> lease = cl_lease_until c))
        ''invalid or superseded job claim''
      (ensure (state_shape v) ''invalid job state shape'' (Inr v)))))))))))"

definition lock_row :: "job_env \<Rightarrow> job_claim \<Rightarrow> job_view job_tx" where
  "lock_row env c db =
     and_then (lock_job_fence (cl_id c) (cl_scope c) (cl_fence c) db) (\<lambda>(changed, db).
     ensure (changed = 1) ''job claim superseded''
     (and_then (read_row env c db) (\<lambda>v. Inr (v, db))))"

definition receipt :: "job_env \<Rightarrow> job_view \<Rightarrow> (string \<Rightarrow> unit res) \<Rightarrow> job_db \<Rightarrow> string option res" where
  "receipt env v validate db =
     (case find (\<lambda>x. rx_nonce x = job_id env (jv_job v)) (jd_receipts db) of
        None \<Rightarrow> Inr None
      | Some x \<Rightarrow>
          and_then (column_integer (rx_action x)) (\<lambda>action.
          ensure (rx_subject x = receipt_subject env (jv_job v) \<and> rx_contract x = cj_contract (jv_job v)
              \<and> action = int (cj_action (jv_job v)) \<and> rx_input x = invocation_digest env (jv_job v) \<and> rx_outcome x \<noteq> [])
            ''job receipt is incomplete or mismatched''
          (and_then (validate (rx_outcome x)) (\<lambda>_. Inr (Some (rx_outcome x))))))"

definition transition :: "job_claim \<Rightarrow> string \<Rightarrow> string \<Rightarrow> timestamp \<Rightarrow> unit job_tx" where
  "transition c state reason eligible db =
     and_then (finish_running_job state reason eligible (cl_id c) (cl_scope c) (cl_fence c) db) (\<lambda>(changed, db).
     ensure (changed = 1) ''job finalization superseded'' (Inr ((), db)))"

section \<open>Enqueueing\<close>

definition schedule_grant :: "job_env \<Rightarrow> job_scope \<Rightarrow> string \<Rightarrow> string \<Rightarrow> service_grant job_tx" where
  "schedule_grant env s worker contract db =
     and_then (charge db) (\<lambda>(_, db).
     and_then (runtime_snapshot_of s db) (\<lambda>r.
     ensure (ru_state r = ''active'' \<and> ru_contract r = contract) ''job runtime changed''
     (and_then (lock_grant env s worker db) (\<lambda>(g, state).
      ensure (state = ''active'' \<and> gr_contract g = contract \<and> gr_epoch g = ru_epoch r) ''service grant changed''
        (Inr (g, db))))))"

definition pending_row :: "job_env \<Rightarrow> captured_job \<Rightarrow> timestamp \<Rightarrow> job_row" where
  "pending_row env j now =
     \<lparr>nj_id = job_id env j, nj_deployment = js_deployment (cj_scope j), nj_tenant = js_tenant (cj_scope j),
      nj_origin = cj_origin j, nj_ordinal = int (cj_ordinal j), nj_worker = cj_worker j, nj_action = int (cj_action j),
      nj_contract = cj_contract j, nj_epoch = cj_epoch j, nj_grant_version = cj_grant_version j,
      nj_payload = je_job_json env j, nj_payload_digest = invocation_digest env j, nj_due_ms = cj_due j,
      nj_eligible_ms = max now (cj_due j), nj_first_eligible_ms = max now (cj_due j), nj_attempts = 0, nj_fence = 0,
      nj_lease_until_ms = 0, nj_state = ''pending'', nj_reason = [],
      nj_reconciled_from = (case cj_reconciled_from j of Some p \<Rightarrow> if p = [] then None else Some p | None \<Rightarrow> None)\<rparr>"

definition enqueue :: "job_env \<Rightarrow> captured_job \<Rightarrow> timestamp \<Rightarrow> nat \<Rightarrow> bool job_tx" where
  "enqueue env j now tenant_limit db =
     and_then (charge db) (\<lambda>(_, db).
     and_then (job_validate env j) (\<lambda>_.
     ensure (1 \<le> tenant_limit \<and> tenant_limit \<le> MAX_PENDING_JOBS) ''invalid tenant queue limit''
     (and_then (add_millis now MAX_SCHEDULE_HORIZON_MILLIS) (\<lambda>horizon.
      ensure (cj_due j \<le> horizon) ''job schedule horizon''
     (and_then (runtime_snapshot_of (cj_scope j) db) (\<lambda>r.
      ensure (ru_state r = ''active'' \<and> ru_contract r = cj_contract j \<and> ru_epoch r = cj_epoch j) ''job runtime paused or changed''
     (ensure (jd_queue db \<noteq> None) ''job queue unavailable''
     (and_then (lock_grant env (cj_scope j) (cj_worker j) db) (\<lambda>(g, state).
      ensure (state = ''active'') ''service grant revoked''
     (and_then (permits g j) (\<lambda>_.
      case find (\<lambda>q. nj_id q = job_id env j) (jd_jobs db) of
        Some q \<Rightarrow> ensure (nj_payload_digest q = invocation_digest env j) ''origin effect ordinal reused with different capture''
                    (Inr (False, db))
      | None \<Rightarrow>
          (case active_job_counts (js_tenant (cj_scope j)) db of (app, tenant) \<Rightarrow>
           ensure (app < ru_pending_limit r \<and> tenant < min (int tenant_limit) (ru_tenant_limit r)) ''job queue full''
           (and_then (ensure_tenant (js_deployment (cj_scope j)) (js_tenant (cj_scope j)) db) (\<lambda>(_, db).
            and_then (insert_job (pending_row env j now) db) (\<lambda>(_, db). Inr (True, db))))))))))))))))"

section \<open>Claiming\<close>

definition claim :: "string list \<Rightarrow> string \<Rightarrow> timestamp \<Rightarrow> job_claim option job_tx" where
  "claim skipped deployment now db =
     and_then (charge db) (\<lambda>(_, db).
     ensure (opaque deployment) ''invalid job deployment''
     (and_then (runtime_snapshot_of \<lparr>js_deployment = deployment, js_tenant = []\<rparr> db) (\<lambda>r.
      ensure (ru_state r = ''active'') ''job runtime unavailable''
     (and_then (advance_claim_sequence deployment db) (\<lambda>(changed, db).
      ensure (changed = 1) ''job runtime unavailable''
      (case next_claimable skipped deployment now (running_job_count db < ru_concurrency r) db of
         None \<Rightarrow> Inr (None, db)
       | Some q \<Rightarrow>
           and_then (column_integer (nj_fence q)) (\<lambda>fence.
           and_then (ok_or (checked_add_i64 fence 1) ''job fence exhausted'') (\<lambda>next_fence.
           and_then (column_integer (nj_attempts q)) (\<lambda>attempts.
           ensure (attempts \<le> MAX_JOB_ATTEMPTS) ''invalid job attempts''
           (and_then (add_millis now JOB_LEASE_MILLIS) (\<lambda>lease.
            and_then (claim_job next_fence lease (attempts + (if attempts < MAX_JOB_ATTEMPTS then 1 else 0))
                (nj_id q) deployment fence (nj_state q) db) (\<lambda>(changed, db).
            ensure (changed = 1) ''job claim raced''
            (and_then (record_tenant_claim deployment (nj_tenant q) db) (\<lambda>(_, db).
             Inr (Some \<lparr>cl_id = nj_id q, cl_scope = \<lparr>js_deployment = deployment, js_tenant = nj_tenant q\<rparr>,
                    cl_fence = next_fence, cl_lease_until = lease, cl_exhausted = (attempts \<ge> MAX_JOB_ATTEMPTS)\<rparr>, db)))))))))))))))"

section \<open>Executing and settling\<close>

datatype execution = ExReady verified_job | ExRecovered string | ExPaused | ExDead

text \<open>Recovery of a committed outcome: the row is settled as succeeded unless it already is.\<close>

definition settle_receipt :: "job_claim \<Rightarrow> job_view \<Rightarrow> timestamp \<Rightarrow> unit job_tx" where
  "settle_receipt c v eligible db =
     (if jv_state v = ''running'' then transition c ''succeeded'' [] eligible db
      else ensure (jv_state v = ''succeeded'') ''receipt with inconsistent job state'' (Inr ((), db)))"

definition authority_changed :: "runtime_snapshot \<Rightarrow> service_grant \<Rightarrow> string \<Rightarrow> captured_job \<Rightarrow> bool" where
  "authority_changed r g grant_state j \<longleftrightarrow>
     ru_state r \<noteq> ''active'' \<or> cj_contract j \<noteq> ru_contract r \<or> cj_epoch j \<noteq> ru_epoch r \<or> grant_state \<noteq> ''active''
     \<or> \<not> is_ok (permits g j)"

text \<open>
  \<open>sample_time\<close> maps the remaining calls to the lifecycle time and the calls then left; \<open>deadline_ok\<close>
  tells whether the request's own deadline is below the lease.
\<close>

definition lock_execution ::
  "job_env \<Rightarrow> bool \<Rightarrow> job_claim \<Rightarrow> (nat \<Rightarrow> (timestamp \<times> nat) res) \<Rightarrow> (captured_job \<Rightarrow> string \<Rightarrow> unit res)
    \<Rightarrow> (captured_job \<times> execution) job_tx" where
  "lock_execution env deadline_ok c sample_time validate_receipt db =
     and_then (charge db) (\<lambda>(_, db).
     ensure deadline_ok ''action deadline must be below job lease''
     (and_then (runtime_snapshot_of (cl_scope c) db) (\<lambda>r.
      and_then (read_row env c db) (\<lambda>preview.
      and_then (lock_grant env (cl_scope c) (cj_worker (jv_job preview)) db) (\<lambda>(g, grant_state).
      and_then (lock_row env c db) (\<lambda>(v, db).
      and_then (receipt env v (validate_receipt (jv_job v)) db) (\<lambda>outcome.
      case outcome of
        Some o1 \<Rightarrow>
          and_then (settle_receipt c v (jv_first_eligible v) db) (\<lambda>(_, db). Inr ((jv_job v, ExRecovered o1), db))
      | None \<Rightarrow>
          and_then (sample_time (jd_calls db)) (\<lambda>(now, calls). let db = db\<lparr>jd_calls := calls\<rparr> in
          ensure (jv_state v = ''running'' \<and> now < jv_lease_until v) ''job claim expired or settled''
          (if authority_changed r g grant_state (jv_job v)
           then and_then (transition c ''paused'' ''authority_changed'' now db) (\<lambda>(_, db). Inr ((jv_job v, ExPaused), db))
           else and_then (add_millis (jv_first_eligible v) JOB_RETRY_WINDOW_MILLIS) (\<lambda>window.
             if now \<ge> window \<or> cl_exhausted c
             then and_then (transition c ''dead'' ''retry_window'' now db) (\<lambda>(_, db). Inr ((jv_job v, ExDead), db))
             else ensure (jv_attempts v > 0) ''job has no claimed attempt''
               (Inr ((jv_job v, ExReady \<lparr>vj_claim = c, vj_job = jv_job v, vj_grant = g\<rparr>), db))))))))))))"

definition succeed :: "job_env \<Rightarrow> verified_job \<Rightarrow> (string \<Rightarrow> unit res) \<Rightarrow> unit job_tx" where
  "succeed env w validate_receipt db =
     and_then (charge db) (\<lambda>(_, db).
     and_then (runtime_snapshot_of (cj_scope (vj_job w)) db) (\<lambda>r.
     and_then (lock_grant env (cj_scope (vj_job w)) (cj_worker (vj_job w)) db) (\<lambda>(g, grant_state).
     ensure (ru_state r = ''active'' \<and> ru_contract r = cj_contract (vj_job w) \<and> ru_epoch r = cj_epoch (vj_job w)
         \<and> grant_state = ''active'') ''job authority changed before completion''
     (and_then (permits g (vj_job w)) (\<lambda>_.
      and_then (lock_row env (vj_claim w) db) (\<lambda>(v, db).
      ensure (jv_state v = ''running'' \<and> jv_job v = vj_job w) ''job execution changed''
      (and_then (receipt env v validate_receipt db) (\<lambda>outcome.
       ensure (outcome \<noteq> None) ''job success requires complete bound receipt''
         (transition (vj_claim w) ''succeeded'' [] (jv_lease_until v) db)))))))))"

record validated_rejection =
  vr_action :: "nat \<times> nat"
  vr_stored_json :: string

datatype failure = FailTransient | FailRejected | FailBusiness validated_rejection

datatype failure_result =
    FrRetrying timestamp | FrRejected | FrBusiness validated_rejection | FrDead | FrPaused | FrRecovered string

definition retry_base :: "int \<Rightarrow> int res" where
  "retry_base attempts =
     (if attempts = 1 then Inr 60000 else if attempts = 2 then Inr 300000 else if attempts = 3 then Inr 1800000
      else if attempts = 4 then Inr 7200000 else Inl ''invalid retry attempt'')"

definition retry_delay :: "job_env \<Rightarrow> string \<Rightarrow> int \<Rightarrow> int res" where
  "retry_delay env i attempts =
     and_then (retry_base attempts) (\<lambda>base.
       let sample = je_sample env (''noxide/job-retry/v1/'' @ i @ ''/'' @ show_int attempts) in
       Inr (base + int sample mod (base div 10 + 1)))"

definition fail_transient ::
  "job_env \<Rightarrow> job_claim \<Rightarrow> timestamp \<Rightarrow> job_view \<Rightarrow> failure_result job_tx" where
  "fail_transient env c now v db =
     and_then (add_millis (jv_first_eligible v) JOB_RETRY_WINDOW_MILLIS) (\<lambda>end.
     if jv_attempts v \<ge> MAX_JOB_ATTEMPTS \<or> now \<ge> end
     then and_then (transition c ''dead'' ''retry_exhausted'' now db) (\<lambda>(_, db). Inr (FrDead, db))
     else and_then (retry_delay env (job_id env (jv_job v)) (jv_attempts v)) (\<lambda>delay.
          and_then (add_millis now delay) (\<lambda>next.
          if next \<ge> end then and_then (transition c ''dead'' ''retry_window'' now db) (\<lambda>(_, db). Inr (FrDead, db))
          else and_then (transition c ''pending'' ''transient'' next db) (\<lambda>(_, db). Inr (FrRetrying next, db)))))"

definition fail ::
  "job_env \<Rightarrow> job_claim \<Rightarrow> timestamp \<Rightarrow> failure \<Rightarrow> (string \<Rightarrow> unit res) \<Rightarrow> failure_result job_tx" where
  "fail env c now f validate_receipt db =
     and_then (charge db) (\<lambda>(_, db).
     and_then (runtime_snapshot_of (cl_scope c) db) (\<lambda>r.
     and_then (read_row env c db) (\<lambda>preview.
     and_then (lock_grant env (cl_scope c) (cj_worker (jv_job preview)) db) (\<lambda>(g, grant_state).
     and_then (lock_row env c db) (\<lambda>(v, db).
     and_then (receipt env v validate_receipt db) (\<lambda>outcome.
     case outcome of
       Some o1 \<Rightarrow> and_then (settle_receipt c v now db) (\<lambda>(_, db). Inr (FrRecovered o1, db))
     | None \<Rightarrow>
         ensure (jv_state v = ''running'') ''job already settled''
         (if authority_changed r g grant_state (jv_job v)
          then and_then (transition c ''paused'' ''authority_changed'' now db) (\<lambda>(_, db). Inr (FrPaused, db))
          else case f of
            FailRejected \<Rightarrow> and_then (transition c ''rejected'' ''business_or_authority'' now db) (\<lambda>(_, db). Inr (FrRejected, db))
          | FailBusiness rejection \<Rightarrow>
              ensure (vr_action rejection = (cj_action (jv_job v), cj_action_version (jv_job v))) ''rejection belongs to another action''
              (and_then (transition c ''rejected'' (vr_stored_json rejection) now db) (\<lambda>(_, db). Inr (FrBusiness rejection, db)))
          | FailTransient \<Rightarrow> fail_transient env c now v db)))))))"

end
