(* ===== verification/Job_Operator.thy ===== *)
theory Job_Operator
  imports Job_Queue
begin

text \<open>
  \<^verbatim>\<open>crates/noxide-jobs/src/operator.rs\<close>: what an operator and a starting host may do to the queue
  (activation, grants, revocation, cancellation, forks, reconciliation).  The identifiers drawn from
  the entropy source are arguments.  \<open>pause_effects_for_epoch\<close> writes only the effect tables, which
  this state does not hold.
\<close>

section \<open>Statements\<close>

definition runtime_check :: "runtime_row \<Rightarrow> bool" where
  "runtime_check r \<longleftrightarrow> text_check 1 64 (jr_deployment r) \<and> text_check 1 64 (jr_contract r) \<and> text_check 1 64 (jr_epoch r)
     \<and> jr_state r \<in> {''active'', ''paused''} \<and> 1 \<le> jr_pending_limit r \<and> jr_pending_limit r \<le> 1000
     \<and> 1 \<le> jr_tenant_limit r \<and> jr_tenant_limit r \<le> 1000 \<and> 1 \<le> jr_concurrency r \<and> jr_concurrency r \<le> 2
     \<and> jr_tenant_limit r \<le> jr_pending_limit r"

definition grant_check :: "grant_row \<Rightarrow> bool" where
  "grant_check g \<longleftrightarrow> text_check 1 64 (ng_deployment g) \<and> text_check 0 64 (ng_tenant g) \<and> text_check 1 64 (ng_worker g)
     \<and> ng_version g \<ge> 1 \<and> text_check 1 64 (ng_contract g) \<and> text_check 1 64 (ng_epoch g)
     \<and> ng_state g \<in> {''active'', ''revoked''} \<and> text_check 2 16384 (ng_declaration g)"

definition recurring_check :: "recurring_row \<Rightarrow> bool" where
  "recurring_check r \<longleftrightarrow> text_check 1 64 (nr_deployment r) \<and> text_check 0 64 (nr_tenant r) \<and> text_check 1 64 (nr_name r)
     \<and> text_check 1 64 (nr_contract r) \<and> text_check 1 64 (nr_epoch r) \<and> nr_grant_version r \<ge> 1 \<and> nr_version r \<ge> 1
     \<and> nr_state r \<in> {''active'', ''paused''} \<and> nr_next_ms r \<ge> 0 \<and> nr_cutoff_ms r \<ge> 0 \<and> nr_cutoff_seq r \<ge> 0
     \<and> text_check 0 4096 (nr_cursor r)"

definition update_runtime :: "(runtime_row \<Rightarrow> runtime_row) \<Rightarrow> nat job_tx" where
  "update_runtime f db =
     (case jd_runtime db of
        None \<Rightarrow> Inr (0, db)
      | Some r \<Rightarrow> if runtime_check (f r) then Inr (1, db\<lparr>jd_runtime := Some (f r)\<rparr>) else Inl ''CHECK constraint'')"

definition insert_runtime :: "runtime_row \<Rightarrow> nat job_tx" where
  "insert_runtime r db =
     (case jd_runtime db of
        Some _ \<Rightarrow> Inr (0, db)
      | None \<Rightarrow> if runtime_check r then Inr (1, db\<lparr>jd_runtime := Some r\<rparr>) else Inl ''CHECK constraint'')"

definition update_grants :: "(grant_row \<Rightarrow> bool) \<Rightarrow> (grant_row \<Rightarrow> grant_row) \<Rightarrow> nat job_tx" where
  "update_grants P f db =
     (if list_all (\<lambda>g. P g \<longrightarrow> grant_check (f g)) (jd_grants db)
      then Inr (length (filter P (jd_grants db)), db\<lparr>jd_grants := map (\<lambda>g. if P g then f g else g) (jd_grants db)\<rparr>)
      else Inl ''CHECK constraint'')"

definition update_recurring :: "(recurring_row \<Rightarrow> bool) \<Rightarrow> (recurring_row \<Rightarrow> recurring_row) \<Rightarrow> nat job_tx" where
  "update_recurring P f db =
     (if list_all (\<lambda>r. P r \<longrightarrow> recurring_check (f r)) (jd_recurring db)
      then Inr (length (filter P (jd_recurring db)),
        db\<lparr>jd_recurring := map (\<lambda>r. if P r then f r else r) (jd_recurring db)\<rparr>)
      else Inl ''CHECK constraint'')"

definition upsert_grant :: "grant_row \<Rightarrow> nat job_tx" where
  "upsert_grant g db =
     (let s = \<lparr>js_deployment = ng_deployment g, js_tenant = ng_tenant g\<rparr> in
      if \<not> grant_check g then Inl ''CHECK constraint''
      else if list_ex (grant_row_key s (ng_worker g)) (jd_grants db)
      then update_grants (grant_row_key s (ng_worker g)) (\<lambda>_. g) db
      else Inr (1, db\<lparr>jd_grants := g # jd_grants db\<rparr>))"

definition recurring_key :: "string \<Rightarrow> string \<Rightarrow> string \<Rightarrow> recurring_row \<Rightarrow> bool" where
  "recurring_key deployment tenant name r \<longleftrightarrow> nr_deployment r = deployment \<and> nr_tenant r = tenant \<and> nr_name r = name"

definition upsert_recurring ::
  "string \<Rightarrow> string \<Rightarrow> string \<Rightarrow> string \<Rightarrow> string \<Rightarrow> int \<Rightarrow> string \<Rightarrow> nat job_tx" where
  "upsert_recurring deployment tenant name contract epoch grant_version state db =
     (if list_ex (recurring_key deployment tenant name) (jd_recurring db)
      then update_recurring (recurring_key deployment tenant name)
        (\<lambda>r. r\<lparr>nr_contract := contract, nr_epoch := epoch, nr_grant_version := grant_version, nr_version := nr_version r + 1,
              nr_state := state, nr_next_ms := 0, nr_cutoff_ms := 0, nr_cutoff_seq := 0, nr_cursor := []\<rparr>) db
      else let r = \<lparr>nr_deployment = deployment, nr_tenant = tenant, nr_name = name, nr_contract = contract, nr_epoch = epoch,
             nr_grant_version = grant_version, nr_version = 1, nr_state = state, nr_next_ms = 0, nr_cutoff_ms = 0,
             nr_cutoff_seq = 0, nr_cursor = []\<rparr> in
        if recurring_check r then Inr (1, db\<lparr>jd_recurring := r # jd_recurring db\<rparr>) else Inl ''CHECK constraint'')"

text \<open>The statements that pause work: \<open>WHERE ... AND state IN ('pending','running')\<close>.\<close>

definition pause_jobs :: "(job_row \<Rightarrow> bool) \<Rightarrow> string \<Rightarrow> nat job_tx" where
  "pause_jobs P reason =
     update_jobs (\<lambda>r. P r \<and> nj_state r \<in> {''pending'', ''running''})
       (\<lambda>r. r\<lparr>nj_state := ''paused'', nj_reason := reason, nj_lease_until_ms := 0\<rparr>)"

definition cancel_statement :: "string \<Rightarrow> nat job_tx" where
  "cancel_statement i =
     update_jobs (\<lambda>r. nj_id r = i \<and> nj_state r \<in> {''pending'', ''running'', ''paused'', ''dead''})
       (\<lambda>r. r\<lparr>nj_state := ''rejected'', nj_reason := ''operator_cancelled'', nj_lease_until_ms := 0\<rparr>)"

definition lock_reconcilable_job :: "string \<Rightarrow> string \<Rightarrow> string \<Rightarrow> nat job_tx" where
  "lock_reconcilable_job deployment i digest =
     update_jobs (\<lambda>r. nj_deployment r = deployment \<and> nj_id r = i \<and> nj_payload_digest r = digest
         \<and> nj_state r \<in> {''paused'', ''dead'', ''rejected''}) (\<lambda>r. r)"

definition reconcile_statement :: "string \<Rightarrow> string \<Rightarrow> nat job_tx" where
  "reconcile_statement i deployment =
     update_jobs (\<lambda>r. nj_id r = i \<and> nj_deployment r = deployment)
       (\<lambda>r. r\<lparr>nj_state := ''rejected'', nj_reason := ''operator_reconciled'', nj_lease_until_ms := 0\<rparr>)"

definition pause_recurring_where :: "(recurring_row \<Rightarrow> bool) \<Rightarrow> nat job_tx" where
  "pause_recurring_where P = update_recurring P (\<lambda>r. r\<lparr>nr_state := ''paused''\<rparr>)"

definition revoke_grants_where :: "(grant_row \<Rightarrow> bool) \<Rightarrow> nat job_tx" where
  "revoke_grants_where P = update_grants P (\<lambda>g. g\<lparr>ng_state := ''revoked''\<rparr>)"

section \<open>Operations\<close>

definition lock_operator_runtime :: "string \<Rightarrow> job_db \<Rightarrow> (string \<times> string \<times> string) res" where
  "lock_operator_runtime generation db =
     ensure (opaque generation) ''invalid job deployment''
     (ensure (map_option jr_deployment (jd_runtime db) = Some generation \<and> jd_generation db = Some generation)
        ''job runtime retired or unavailable''
     (and_then (ok_or (jd_runtime db) ''job runtime missing'') (\<lambda>r.
      ensure (opaque (jr_contract r) \<and> opaque (jr_epoch r)) ''invalid job runtime identity''
        (Inr (jr_contract r, jr_epoch r, jr_state r)))))"

definition reconciliation_source :: "job_env \<Rightarrow> string \<Rightarrow> string \<Rightarrow> job_db \<Rightarrow> captured_job res" where
  "reconciliation_source env generation i db =
     and_then (lock_operator_runtime generation db) (\<lambda>_.
     ensure (opaque i) ''invalid reconciliation identity''
     (and_then (ok_or (find (\<lambda>r. nj_id r = i) (jd_jobs db)) ''reconciliation source missing'') (\<lambda>r.
      and_then (bounded_text MAX_JOB_BYTES (nj_payload r)) (\<lambda>payload.
      ensure (nj_state r \<in> {''paused'', ''dead'', ''rejected''}) ''only settled operator-reviewed work can be reconciled''
     (and_then (ok_or (je_job_parse env payload) ''invalid job encoding'') (\<lambda>source.
      and_then (job_validate env source) (\<lambda>_.
      ensure (job_id env source = i \<and> invocation_digest env source = nj_payload_digest r)
        ''reconciliation source differs from capture'' (Inr source))))))))"

fun install_recurring ::
  "string \<Rightarrow> string \<Rightarrow> service_grant \<Rightarrow> string \<Rightarrow> recurring_schedule list \<Rightarrow> unit job_tx" where
  "install_recurring generation tenant g state [] db = Inr ((), db)"
| "install_recurring generation tenant g state (s # ss) db =
     (if rs_worker s = sw_name (gr_worker g) \<and> list_ex (\<lambda>a. wa_action a = rs_action s) (sw_actions (gr_worker g))
      then and_then (upsert_recurring generation tenant (rs_name s) (gr_contract g) (gr_epoch g) (gr_version g) state db)
        (\<lambda>(_, db). install_recurring generation tenant g state ss db)
      else install_recurring generation tenant g state ss db)"

definition checked_version :: "int \<Rightarrow> int res" where
  "checked_version v =
     and_then (column_integer v) (\<lambda>n. ok_or (checked_add_i64 n 1) ''service grant version exhausted'')"

definition stored_grant_row :: "job_env \<Rightarrow> service_grant \<Rightarrow> string \<Rightarrow> grant_row" where
  "stored_grant_row env g state =
     \<lparr>ng_deployment = js_deployment (gr_scope g), ng_tenant = js_tenant (gr_scope g), ng_worker = sw_name (gr_worker g),
      ng_version = gr_version g, ng_contract = gr_contract g, ng_epoch = gr_epoch g, ng_state = state,
      ng_declaration = je_grant_json env g\<rparr>"

text \<open>One configured grant of an activation; \<open>None\<close> when the stored one already is it.\<close>

definition activation_version ::
  "job_env \<Rightarrow> bool \<Rightarrow> string \<Rightarrow> string \<Rightarrow> job_scope \<Rightarrow> service_worker \<Rightarrow> job_db \<Rightarrow> int option res" where
  "activation_version env changed contract epoch s worker db =
     (case find (grant_row_key s (sw_name worker)) (jd_grants db) of
        None \<Rightarrow> Inr (Some 1)
      | Some row \<Rightarrow>
          if changed then and_then (checked_version (ng_version row)) (\<lambda>v. Inr (Some v))
          else and_then (ok_or (je_grant_parse env (ng_declaration row)) ''invalid grant encoding'') (\<lambda>stored.
               and_then (grant_validate stored) (\<lambda>_.
               and_then (column_integer (ng_version row)) (\<lambda>version.
               ensure (gr_worker stored = worker \<and> gr_scope stored = s \<and> gr_contract stored = contract \<and> gr_version stored = version
                   \<and> (gr_epoch stored = epoch \<or> ng_state row = ''revoked'')) ''same approval has different grant'' (Inr None)))))"

fun activate_grants ::
  "job_env \<Rightarrow> bool \<Rightarrow> string \<Rightarrow> string \<Rightarrow> string \<Rightarrow> string \<Rightarrow> string \<Rightarrow> job_contract \<Rightarrow> effective_grant list \<Rightarrow> unit job_tx" where
  "activate_grants env changed generation contract epoch grant_state recurring_state declarations [] db = Inr ((), db)"
| "activate_grants env changed generation contract epoch grant_state recurring_state declarations (e # es) db =
     (let s = \<lparr>js_deployment = generation, js_tenant = eg_tenant e\<rparr> in
      and_then (scope_validate s) (\<lambda>_.
      and_then (activation_version env changed contract epoch s (eg_worker e) db) (\<lambda>v.
      case v of
        None \<Rightarrow> activate_grants env changed generation contract epoch grant_state recurring_state declarations es db
      | Some version \<Rightarrow>
          let g = \<lparr>gr_scope = s, gr_worker = eg_worker e, gr_version = version, gr_contract = contract, gr_epoch = epoch\<rparr> in
          and_then (grant_validate g) (\<lambda>_.
          and_then (upsert_grant (stored_grant_row env g grant_state) db) (\<lambda>(_, db).
          and_then (install_recurring generation (eg_tenant e) g recurring_state (jc_recurring declarations) db) (\<lambda>(_, db).
            activate_grants env changed generation contract epoch grant_state recurring_state declarations es db))))))"

definition ensure_queue :: "nat job_tx" where
  "ensure_queue db = (case jd_queue db of None \<Rightarrow> Inr (1, db\<lparr>jd_queue := Some 0\<rparr>) | Some _ \<Rightarrow> Inr (0, db))"

text \<open>The retirement of an approval: every live job pauses, every grant is revoked, the runtime is rewritten.\<close>

definition retire_approval :: "runtime_row \<Rightarrow> unit job_tx" where
  "retire_approval new db =
     and_then (pause_jobs (\<lambda>_. True) ''approval_changed'' db) (\<lambda>(_, db).
     and_then (pause_recurring_where (\<lambda>r. nr_state r = ''active'') db) (\<lambda>(_, db).
     and_then (revoke_grants_where (\<lambda>g. ng_state g = ''active'') db) (\<lambda>(_, db).
     and_then (update_runtime (\<lambda>_. new) db) (\<lambda>(_, db). Inr ((), db)))))"

definition runtime_of :: "string \<Rightarrow> string \<Rightarrow> string \<Rightarrow> string \<Rightarrow> job_limits \<Rightarrow> runtime_row" where
  "runtime_of generation contract epoch state l =
     \<lparr>jr_deployment = generation, jr_contract = contract, jr_epoch = epoch, jr_state = state,
      jr_pending_limit = int (jl_pending_per_app l), jr_tenant_limit = int (jl_pending_per_tenant l),
      jr_concurrency = int (jl_worker_concurrency l)\<rparr>"

definition activate_jobs ::
  "job_env \<Rightarrow> string \<Rightarrow> string \<Rightarrow> effective_deployment option \<Rightarrow> job_contract option \<Rightarrow> bool \<Rightarrow> string \<Rightarrow> string \<Rightarrow> unit job_tx" where
  "activate_jobs env generation contract deployed declarations effects_enabled first_epoch second_epoch db =
     ensure (opaque generation \<and> opaque contract) ''invalid job runtime identity''
     (let limits = (case deployed of Some e \<Rightarrow> ef_limits e | None \<Rightarrow> default_job_limits);
          enabled = (deployed \<noteq> None \<or> effects_enabled) in
      and_then (validate_job_limits limits) (\<lambda>_.
      and_then (insert_runtime (runtime_of generation contract first_epoch (if enabled then ''active'' else ''paused'') limits) db) (\<lambda>(_, db).
      and_then (ok_or (jd_runtime db) ''job runtime missing'') (\<lambda>old.
      let generation_changed = (jr_deployment old \<noteq> generation);
          changed = (generation_changed \<or> jr_contract old \<noteq> contract);
          preserve_pause = (generation_changed \<and> jr_state old = ''paused'');
          runtime_state = (if enabled \<and> \<not> preserve_pause then ''active'' else ''paused'');
          grant_state = (if preserve_pause then ''revoked'' else ''active'');
          recurring_state = (if preserve_pause then ''paused'' else ''active'');
          epoch = (if changed then second_epoch else jr_epoch old) in
      ensure (changed \<or> column_integer (jr_pending_limit old) = Inr (int (jl_pending_per_app limits))
          \<and> column_integer (jr_tenant_limit old) = Inr (int (jl_pending_per_tenant limits))
          \<and> column_integer (jr_concurrency old) = Inr (int (jl_worker_concurrency limits)))
        ''same approval has different job limits''
      (and_then (if changed then retire_approval (runtime_of generation contract epoch runtime_state limits) db else Inr ((), db)) (\<lambda>(_, db).
       and_then (ensure_queue db) (\<lambda>(_, db).
       case deployed of
         None \<Rightarrow> Inr ((), db)
       | Some e \<Rightarrow>
           and_then (ok_or declarations ''operator job approval has no declaration'') (\<lambda>declarations.
           and_then (validate_job_limits (ef_limits e)) (\<lambda>_.
             activate_grants env changed generation contract epoch grant_state recurring_state declarations (ef_grants e) db)))))))))"

definition revoke_job_grant :: "string \<Rightarrow> string \<Rightarrow> string \<Rightarrow> unit job_tx" where
  "revoke_job_grant generation tenant worker db =
     and_then (lock_operator_runtime generation db) (\<lambda>_.
     and_then (scope_validate \<lparr>js_deployment = generation, js_tenant = tenant\<rparr>) (\<lambda>_.
     ensure (is_identifier worker) ''invalid service worker''
     (and_then (revoke_grants_where (grant_row_key \<lparr>js_deployment = generation, js_tenant = tenant\<rparr> worker) db) (\<lambda>(changed, db).
      ensure (changed = 1) ''service grant unavailable''
     (and_then (pause_jobs (\<lambda>r. nj_deployment r = generation \<and> nj_tenant r = tenant \<and> nj_worker r = worker) ''grant_revoked'' db) (\<lambda>(_, db).
      and_then (pause_recurring_where (\<lambda>r. nr_deployment r = generation \<and> nr_tenant r = tenant) db) (\<lambda>(_, db). Inr ((), db))))))))"

definition grant_job_service ::
  "job_env \<Rightarrow> string \<Rightarrow> string \<Rightarrow> effective_grant \<Rightarrow> job_contract \<Rightarrow> unit job_tx" where
  "grant_job_service env generation approved_contract approved declarations db =
     and_then (lock_operator_runtime generation db) (\<lambda>(contract, epoch, _).
     ensure (contract = approved_contract) ''operator approval retired''
     (let s = \<lparr>js_deployment = generation, js_tenant = eg_tenant approved\<rparr>; name = sw_name (eg_worker approved) in
      and_then (scope_validate s) (\<lambda>_.
      and_then (ok_or (find (grant_row_key s name) (jd_grants db)) ''service grant unavailable'') (\<lambda>row.
      and_then (checked_version (ng_version row)) (\<lambda>version.
      let g = \<lparr>gr_scope = s, gr_worker = eg_worker approved, gr_version = version, gr_contract = contract, gr_epoch = epoch\<rparr> in
      and_then (grant_validate g) (\<lambda>_.
      and_then (update_grants (grant_row_key s name)
          (\<lambda>r. r\<lparr>ng_version := version, ng_contract := contract, ng_epoch := epoch, ng_state := ''active'', ng_declaration := je_grant_json env g\<rparr>) db)
        (\<lambda>(_, db).
      and_then (pause_jobs (\<lambda>r. nj_deployment r = generation \<and> nj_tenant r = eg_tenant approved \<and> nj_worker r = name) ''grant_changed'' db)
        (\<lambda>(_, db).
      and_then (install_recurring generation (eg_tenant approved) g ''active'' (jc_recurring declarations) db) (\<lambda>(_, db).
      and_then (update_runtime (\<lambda>r. r\<lparr>jr_state := ''active''\<rparr>) db) (\<lambda>(_, db). Inr ((), db)))))))))))"

definition cancel_job :: "string \<Rightarrow> string \<Rightarrow> unit job_tx" where
  "cancel_job generation i db =
     and_then (lock_operator_runtime generation db) (\<lambda>_.
     ensure (opaque i) ''invalid job identity''
     (and_then (cancel_statement i db) (\<lambda>(changed, db). ensure (changed = 1) ''job cannot be cancelled'' (Inr ((), db)))))"

definition apply_job_fork :: "string \<Rightarrow> string \<Rightarrow> unit job_tx" where
  "apply_job_fork generation epoch db =
     and_then (update_runtime (\<lambda>r. r\<lparr>jr_epoch := epoch, jr_state := ''paused''\<rparr>) db) (\<lambda>(_, db).
     and_then (revoke_grants_where (\<lambda>g. ng_deployment g = generation) db) (\<lambda>(_, db).
     and_then (pause_jobs (\<lambda>r. nj_deployment r = generation) ''restore_reconciliation'' db) (\<lambda>(_, db).
     and_then (pause_recurring_where (\<lambda>r. nr_deployment r = generation) db) (\<lambda>(_, db). Inr ((), db)))))"

definition fork_job_runtime :: "string \<Rightarrow> string \<Rightarrow> unit job_tx" where
  "fork_job_runtime generation epoch db =
     and_then (lock_operator_runtime generation db) (\<lambda>_. apply_job_fork generation epoch db)"

definition enqueue_reconciled ::
  "job_env \<Rightarrow> captured_job \<Rightarrow> service_grant \<Rightarrow> nat \<Rightarrow> timestamp \<Rightarrow> (string \<times> string) list \<Rightarrow> (string \<times> sealed_target) list
    \<Rightarrow> nat \<Rightarrow> string job_tx" where
  "enqueue_reconciled env previous current action_version now input targets tenant_limit db =
     and_then (charge db) (\<lambda>(_, db).
     and_then (lock_reconcilable_job (js_deployment (cj_scope previous)) (job_id env previous) (invocation_digest env previous) db)
       (\<lambda>(changed, db).
     ensure (changed = 1) ''reconciliation source changed''
     (and_then (reconcile env previous current action_version now input targets) (\<lambda>job.
      and_then (reconcile_statement (job_id env previous) (js_deployment (cj_scope previous)) db) (\<lambda>(_, db).
      and_then (enqueue env job now tenant_limit db) (\<lambda>(_, db). Inr (job_id env job, db)))))))"

record job_summary =
  jm_id :: string
  jm_deployment :: string
  jm_tenant :: string
  jm_worker :: string
  jm_action :: nat
  jm_state :: string
  jm_attempts :: nat
  jm_due :: timestamp
  jm_eligible :: timestamp

definition summarise :: "job_row \<Rightarrow> job_summary res" where
  "summarise r =
     ensure (opaque (nj_id r) \<and> opaque (nj_deployment r) \<and> is_identifier (nj_worker r)) ''invalid job metadata''
     (and_then (and_then (column_integer (nj_action r)) (narrow 4294967295)) (\<lambda>action.
      and_then (and_then (column_integer (nj_attempts r)) (narrow 255)) (\<lambda>attempts.
      and_then (and_then (column_integer (nj_due_ms r)) (\<lambda>n. time_res (from_unix_millis n))) (\<lambda>due.
      and_then (and_then (column_integer (nj_eligible_ms r)) (\<lambda>n. time_res (from_unix_millis n))) (\<lambda>eligible.
      Inr \<lparr>jm_id = nj_id r, jm_deployment = nj_deployment r, jm_tenant = nj_tenant r, jm_worker = nj_worker r,
           jm_action = nat action, jm_state = nj_state r, jm_attempts = nat attempts, jm_due = due, jm_eligible = eligible\<rparr>)))))"

fun summarise_all :: "job_row list \<Rightarrow> job_summary list res" where
  "summarise_all [] = Inr []"
| "summarise_all (r # rs) = and_then (summarise r) (\<lambda>m. and_then (summarise_all rs) (\<lambda>ms. Inr (m # ms)))"

definition inspect_jobs :: "string \<Rightarrow> string \<Rightarrow> job_db \<Rightarrow> job_summary list res" where
  "inspect_jobs generation after db =
     ensure (opaque generation \<and> (after = [] \<or> opaque after)) ''invalid job cursor''
     (summarise_all (take 100 (sort_key nj_id (filter (\<lambda>r. map_option jr_deployment (live_runtime db) = Some generation \<and> after < nj_id r)
        (jd_jobs db)))))"

end
