(* ===== verification/Job_Recurrence.thy ===== *)
theory Job_Recurrence
  imports Job_Operator
begin

text \<open>
  \<^verbatim>\<open>crates/noxide-jobs/src/recurrence.rs\<close>: recurring schedules.  A batch scans a declared query up to a
  fixed cutoff and enqueues at most twenty jobs; the scan frontier (an opaque cursor the query adapter
  makes) is advanced in the same transaction.
\<close>

record recurrence_cursor =
  rp_scope :: job_scope
  rp_name :: string
  rp_version :: int
  rp_cutoff :: timestamp
  rp_cutoff_seq :: int
  rp_cursor :: string

record recurrence_batch =
  rb_position :: recurrence_cursor
  rb_declaration :: recurring_schedule
  rb_grant :: service_grant
  rb_emitted :: nat
  rb_now :: timestamp

definition batch_remaining :: "recurrence_batch \<Rightarrow> nat" where
  "batch_remaining b = MAX_RECURRENCE_FANOUT - rb_emitted b"

definition target_identities :: "(string \<times> sealed_target) list \<Rightarrow> (string \<times> nat \<times> nat \<times> string) list" where
  "target_identities targets = map (\<lambda>(name, t). (name, sg_resource t, sg_id t, sg_incarnation t)) targets"

definition occurrence_key ::
  "job_env \<Rightarrow> job_scope \<Rightarrow> string \<Rightarrow> timestamp \<Rightarrow> int \<Rightarrow> (string \<times> sealed_target) list \<Rightarrow> timestamp option \<Rightarrow> string \<Rightarrow> string" where
  "occurrence_key env s name cutoff cutoff_seq targets expiry contract =
     ''r1_'' @ je_digest env (DRecurrence s name (if expiry = None then Some (cutoff, cutoff_seq) else None)
        (target_identities targets) expiry contract)"

section \<open>Statements\<close>

definition lock_recurring :: "job_scope \<Rightarrow> string \<Rightarrow> nat job_tx" where
  "lock_recurring s name = update_recurring (recurring_key (js_deployment s) (js_tenant s) name) (\<lambda>r. r)"

definition advance_recurring_cursor ::
  "int \<Rightarrow> int \<Rightarrow> int \<Rightarrow> string \<Rightarrow> job_scope \<Rightarrow> string \<Rightarrow> int \<Rightarrow> nat job_tx" where
  "advance_recurring_cursor next cutoff cutoff_seq cursor s name version =
     update_recurring (\<lambda>r. recurring_key (js_deployment s) (js_tenant s) name r \<and> nr_version r = version
         \<and> nr_state r = ''active'' \<and> nr_version r < I64_MAX)
       (\<lambda>r. r\<lparr>nr_version := nr_version r + 1, nr_next_ms := next, nr_cutoff_ms := cutoff, nr_cutoff_seq := cutoff_seq,
             nr_cursor := cursor\<rparr>)"

definition advance_recurring_due ::
  "int \<Rightarrow> job_scope \<Rightarrow> string \<Rightarrow> int \<Rightarrow> int \<Rightarrow> int \<Rightarrow> string \<Rightarrow> nat job_tx" where
  "advance_recurring_due next s name version cutoff cutoff_seq cursor =
     update_recurring (\<lambda>r. recurring_key (js_deployment s) (js_tenant s) name r \<and> nr_version r = version
         \<and> nr_state r = ''active'' \<and> nr_version r < I64_MAX \<and> nr_cutoff_ms r = cutoff \<and> nr_cutoff_seq r = cutoff_seq
         \<and> nr_cursor r = cursor)
       (\<lambda>r. r\<lparr>nr_version := nr_version r + 1, nr_next_ms := next\<rparr>)"

definition insert_occurrence :: "occurrence_row \<Rightarrow> nat job_tx" where
  "insert_occurrence x db =
     (let key = (\<lambda>x. (no_deployment x, no_tenant x, no_schedule x, no_occurrence x)) in
      if text_check 1 64 (no_deployment x) \<and> text_check 0 64 (no_tenant x) \<and> text_check 1 64 (no_schedule x)
        \<and> text_check 1 64 (no_occurrence x) \<and> text_check 1 64 (no_job x)
        \<and> key x \<notin> set (map key (jd_occurrences db)) \<and> no_job x \<in> set (map nj_id (jd_jobs db))
      then Inr (1, db\<lparr>jd_occurrences := x # jd_occurrences db\<rparr>) else Inl ''constraint violation'')"

definition next_due_recurring :: "string \<Rightarrow> timestamp \<Rightarrow> job_db \<Rightarrow> (string \<times> string) option" where
  "next_due_recurring deployment now db =
     (case sort_key (\<lambda>r. (nr_next_ms r, nr_tenant r, nr_name r))
        (filter (\<lambda>r. nr_deployment r = deployment \<and> nr_state r = ''active'' \<and> nr_next_ms r \<le> now) (jd_recurring db)) of
        [] \<Rightarrow> None | r # _ \<Rightarrow> Some (nr_tenant r, nr_name r))"

section \<open>Operations\<close>

text \<open>The authority a scan needs: an active schedule installed under this very grant and contract.\<close>

definition scan_authorised ::
  "runtime_snapshot \<Rightarrow> service_grant \<Rightarrow> string \<Rightarrow> recurring_row \<Rightarrow> int \<Rightarrow> bool" where
  "scan_authorised ru g grant_state r grant_version \<longleftrightarrow>
     \<not> (ru_state ru \<noteq> ''active'' \<or> grant_state \<noteq> ''active'' \<or> nr_state r \<noteq> ''active'' \<or> nr_contract r \<noteq> ru_contract ru
        \<or> nr_epoch r \<noteq> ru_epoch ru \<or> gr_contract g \<noteq> ru_contract ru \<or> gr_epoch g \<noteq> ru_epoch ru \<or> gr_version g \<noteq> grant_version)"

definition scan_position ::
  "job_scope \<Rightarrow> recurring_schedule \<Rightarrow> timestamp \<Rightarrow> int \<Rightarrow> recurring_row \<Rightarrow> job_db \<Rightarrow> recurrence_cursor res" where
  "scan_position s declaration now version r db =
     and_then (and_then (column_integer (nr_cutoff_ms r)) (\<lambda>n. time_res (from_unix_millis n))) (\<lambda>cutoff.
     and_then (column_integer (nr_cutoff_seq r)) (\<lambda>cutoff_seq.
     and_then (and_then (ok_or (jd_creation db) ''creation counter unavailable'') column_integer) (\<lambda>current_seq.
     ensure (nr_cursor r = [] \<or> cutoff \<le> now \<and> cutoff_seq \<le> current_seq) ''recurring cutoff is in the future''
     (Inr \<lparr>rp_scope = s, rp_name = rs_name declaration, rp_version = version,
        rp_cutoff = (if nr_cursor r = [] then now else cutoff),
        rp_cutoff_seq = (if nr_cursor r = [] then current_seq else cutoff_seq), rp_cursor = nr_cursor r\<rparr>))))"

definition begin_recurrence ::
  "job_env \<Rightarrow> job_scope \<Rightarrow> recurring_schedule \<Rightarrow> timestamp \<Rightarrow> recurrence_batch option job_tx" where
  "begin_recurrence env s declaration now db =
     and_then (charge db) (\<lambda>(_, db).
     and_then (scope_validate s) (\<lambda>_.
     ensure (MIN_RECURRENCE_MILLIS \<le> rs_interval declaration \<and> rs_interval declaration \<le> MAX_SCHEDULE_HORIZON_MILLIS)
       ''recurring interval limit''
     (and_then (runtime_snapshot_of s db) (\<lambda>ru.
      and_then (lock_grant env s (rs_worker declaration) db) (\<lambda>(g, grant_state).
      and_then (lock_recurring s (rs_name declaration) db) (\<lambda>(changed, db).
      ensure (changed = 1) ''recurring schedule not installed''
     (and_then (ok_or (find (recurring_key (js_deployment s) (js_tenant s) (rs_name declaration)) (jd_recurring db))
        ''recurring schedule unavailable'') (\<lambda>r.
      and_then (bounded_text 4096 (nr_cursor r)) (\<lambda>_.
      and_then (column_integer (nr_version r)) (\<lambda>version.
      and_then (column_integer (nr_grant_version r)) (\<lambda>grant_version.
      ensure (version > 0 \<and> grant_version > 0) ''invalid recurrence version''
     (if \<not> scan_authorised ru g grant_state r grant_version
      then and_then (pause_recurring_where (recurring_key (js_deployment s) (js_tenant s) (rs_name declaration)) db)
             (\<lambda>(_, db). Inr (None, db))
      else and_then (column_integer (nr_next_ms r)) (\<lambda>next.
        if now < next then Inr (None, db)
        else ensure (list_ex (\<lambda>a. wa_action a = rs_action declaration) (sw_actions (gr_worker g))) ''recurring action not granted''
          (and_then (scan_position s declaration now version r db) (\<lambda>position.
             Inr (Some \<lparr>rb_position = position, rb_declaration = declaration, rb_grant = g, rb_emitted = 0, rb_now = now\<rparr>, db))))))))))))))))"

definition recurring_targets_ok :: "recurrence_batch \<Rightarrow> (string \<times> sealed_target) list \<Rightarrow> timestamp option \<Rightarrow> unit res" where
  "recurring_targets_ok b targets expiry =
     (case rs_selection (rb_declaration b) of
        Some sel \<Rightarrow>
          ensure (targets \<noteq> [] \<and> length targets \<le> 4 \<and> sel_target sel \<in> set (map fst targets)
              \<and> (case find (\<lambda>a. wa_action a = rs_action (rb_declaration b)) (sw_actions (gr_worker (rb_grant b))) of
                   Some a \<Rightarrow> map fst (wa_targets a) = map fst targets | None \<Rightarrow> False)
              \<and> sel_expiry_repair sel = (expiry \<noteq> None)) ''recurring target or expiry mismatch''
          (ensure (case expiry of None \<Rightarrow> True | Some e \<Rightarrow> e \<le> rp_cutoff (rb_position b))
             ''expiry repair target not expired at cutoff'' (Inr ()))
      | None \<Rightarrow> ensure (targets = [] \<and> expiry = None) ''unexpected recurring target'' (Inr ()))"

definition recurring_job ::
  "recurrence_batch \<Rightarrow> string \<Rightarrow> nat \<Rightarrow> (string \<times> string) list \<Rightarrow> (string \<times> sealed_target) list \<Rightarrow> captured_job" where
  "recurring_job b occurrence action_version input targets =
     \<lparr>cj_scope = rp_scope (rb_position b), cj_origin = occurrence, cj_ordinal = 0,
      cj_source_action = rs_action (rb_declaration b), cj_worker = rs_worker (rb_declaration b),
      cj_action = rs_action (rb_declaration b), cj_action_version = action_version, cj_contract = gr_contract (rb_grant b),
      cj_grant_version = gr_version (rb_grant b), cj_epoch = gr_epoch (rb_grant b), cj_due = rb_now b, cj_input = input,
      cj_targets = targets, cj_reconciled_from = None\<rparr>"

definition emit_recurrence ::
  "job_env \<Rightarrow> recurrence_batch \<Rightarrow> nat \<Rightarrow> (string \<times> string) list \<Rightarrow> (string \<times> sealed_target) list \<Rightarrow> timestamp option \<Rightarrow> nat
    \<Rightarrow> (bool \<times> recurrence_batch) job_tx" where
  "emit_recurrence env b action_version input targets expiry tenant_limit db =
     and_then (charge db) (\<lambda>(_, db).
     ensure (rb_emitted b < MAX_RECURRENCE_FANOUT) ''recurring fanout limit''
     (let b = b\<lparr>rb_emitted := rb_emitted b + 1\<rparr>; position = rb_position b; s = rp_scope position in
      ensure (map fst (rs_inputs (rb_declaration b)) = map fst input) ''recurring input aliases differ''
     (and_then (recurring_targets_ok b targets expiry) (\<lambda>_.
      let occurrence = occurrence_key env s (rp_name position) (rp_cutoff position) (rp_cutoff_seq position) targets expiry
                         (gr_contract (rb_grant b)) in
      if list_ex (\<lambda>x. no_deployment x = js_deployment s \<and> no_tenant x = js_tenant s \<and> no_schedule x = rp_name position
                      \<and> no_occurrence x = occurrence) (jd_occurrences db)
      then Inr ((False, b), db)
      else let job = recurring_job b occurrence action_version input targets in
        and_then (job_validate env job) (\<lambda>_.
        and_then (permits (rb_grant b) job) (\<lambda>_.
        and_then (enqueue env job (rb_now b) tenant_limit db) (\<lambda>(inserted, db).
        and_then (insert_occurrence \<lparr>no_deployment = js_deployment s, no_tenant = js_tenant s, no_schedule = rp_name position,
            no_occurrence = occurrence, no_job = job_id env job\<rparr> db) (\<lambda>(_, db). Inr ((inserted, b), db)))))))))"

definition finish_recurrence :: "recurrence_batch \<Rightarrow> string option \<Rightarrow> unit job_tx" where
  "finish_recurrence b next_cursor db =
     and_then (charge db) (\<lambda>(_, db).
     ensure (case next_cursor of None \<Rightarrow> True
         | Some c \<Rightarrow> c \<noteq> [] \<and> length c \<le> 4096 \<and> c \<noteq> rp_cursor (rb_position b)) ''recurring scan must advance''
     (and_then (add_millis (rb_now b) (rs_interval (rb_declaration b))) (\<lambda>next.
      and_then (advance_recurring_cursor next
          (if next_cursor \<noteq> None then rp_cutoff (rb_position b) else 0)
          (if next_cursor \<noteq> None then rp_cutoff_seq (rb_position b) else 0)
          (case next_cursor of None \<Rightarrow> [] | Some c \<Rightarrow> c)
          (rp_scope (rb_position b)) (rp_name (rb_position b)) (rp_version (rb_position b)) db) (\<lambda>(changed, db).
      ensure (changed = 1) ''recurring cursor changed'' (Inr ((), db))))))"

definition defer_recurrence :: "recurrence_batch \<Rightarrow> unit job_tx" where
  "defer_recurrence b db =
     and_then (charge db) (\<lambda>(_, db).
     ensure (rp_cursor (rb_position b) \<noteq> []) ''recurring deferral requires a persisted scan frontier''
     (and_then (add_millis (rb_now b) 1000) (\<lambda>next.
      and_then (advance_recurring_due next (rp_scope (rb_position b)) (rp_name (rb_position b)) (rp_version (rb_position b))
          (rp_cutoff (rb_position b)) (rp_cutoff_seq (rb_position b)) (rp_cursor (rb_position b)) db) (\<lambda>(changed, db).
      ensure (changed = 1) ''recurring scan changed before deferral'' (Inr ((), db))))))"

end
