(* ===== verification/Job_Safety.thy ===== *)
theory Job_Safety
  imports Job_Recurrence
begin

text \<open>
  The job queue as an abstract machine and its refinement by the code.  \<open>job_change\<close> and the claim of
  \<open>job_move\<close> list the only
  changes the jobs, their runtime and the tenants' turns may undergo; every operation of
\<open>Job_Queue\<close>, \<open>Job_Operator\<close> and \<open>Job_Recurrence\<close> is shown to be a sequence of such moves.
  Invariants are then proved of the moves only.
\<close>

section \<open>The abstract queue\<close>

definition running_jobs :: "job_db \<Rightarrow> job_row list" where
  "running_jobs db = filter (\<lambda>r. nj_state r = ''running'') (jd_jobs db)"

definition active_jobs :: "job_db \<Rightarrow> job_row list" where
  "active_jobs db = filter active_job (jd_jobs db)"

definition allowed_change :: "string \<Rightarrow> string set" where
  "allowed_change state =
     (if state = ''running'' then {''succeeded'', ''rejected'', ''dead'', ''paused'', ''pending''}
      else if state = ''pending'' then {''paused'', ''rejected''}
      else if state \<in> {''paused'', ''dead'', ''rejected''} then {''rejected''} else {})"

definition settles :: "job_row \<Rightarrow> job_row \<Rightarrow> bool" where
  "settles r r' \<longleftrightarrow> r' = r \<or>
     (\<exists>state reason eligible. r' = r\<lparr>nj_state := state, nj_reason := reason, nj_eligible_ms := eligible, nj_lease_until_ms := 0\<rparr>
        \<and> state \<in> allowed_change (nj_state r) \<and> (state = ''pending'' \<longrightarrow> nj_attempts r < MAX_JOB_ATTEMPTS))"

definition turn_of :: "string \<Rightarrow> string \<Rightarrow> job_db \<Rightarrow> int option" where
  "turn_of d t db = map_option nt_claim_seq (find (\<lambda>x. nt_deployment x = d \<and> nt_tenant x = t) (jd_tenants db))"

definition turns_kept :: "job_db \<Rightarrow> job_db \<Rightarrow> bool" where
  "turns_kept db db' \<longleftrightarrow>
     (\<forall>d t s. turn_of d t db = Some s \<longrightarrow> turn_of d t db' = Some s)
     \<and> (\<forall>d t s. turn_of d t db' = Some s \<longrightarrow> turn_of d t db = Some s \<or> s = 0 \<and> jd_queue db \<noteq> None)
     \<and> (\<forall>q. jd_queue db = Some q \<longrightarrow> (\<exists>q' \<ge> q. jd_queue db' = Some q'))
     \<and> (jd_queue db = None \<longrightarrow> jd_queue db' = None \<or> jd_queue db' = Some 0)"

definition claimed_row :: "int \<Rightarrow> job_row \<Rightarrow> job_row" where
  "claimed_row lease r =
     r\<lparr>nj_state := ''running'', nj_fence := nj_fence r + 1, nj_lease_until_ms := lease,
       nj_attempts := nj_attempts r + (if nj_attempts r < MAX_JOB_ATTEMPTS then 1 else 0)\<rparr>"

definition fresh_pending :: "job_row \<Rightarrow> bool" where
  "fresh_pending r \<longleftrightarrow> nj_state r = ''pending'' \<and> nj_attempts r = 0 \<and> nj_fence r = 0 \<and> nj_lease_until_ms r = 0"

inductive job_change :: "job_db \<Rightarrow> job_db \<Rightarrow> bool" where
  settle: "list_all2 settles (jd_jobs db) (jd_jobs db') \<Longrightarrow> jd_runtime db' = jd_runtime db \<Longrightarrow> turns_kept db db' \<Longrightarrow> job_change db db'"
| insert: "jd_jobs db' = r # jd_jobs db \<Longrightarrow> fresh_pending r \<Longrightarrow> nj_id r \<notin> set (map nj_id (jd_jobs db))
     \<Longrightarrow> length (active_jobs db) < MAX_PENDING_JOBS \<Longrightarrow> jd_runtime db' = jd_runtime db \<Longrightarrow> turns_kept db db' \<Longrightarrow> job_change db db'"
| configure: "jd_jobs db' = jd_jobs db \<Longrightarrow> turns_kept db db'
     \<Longrightarrow> jd_runtime db = None \<or> running_jobs db = [] \<or> map_option jr_concurrency (jd_runtime db') = map_option jr_concurrency (jd_runtime db)
     \<Longrightarrow> jd_runtime db' = Some rt \<Longrightarrow> 1 \<le> jr_concurrency rt \<and> jr_concurrency rt \<le> int MAX_WORKERS_PER_APP \<Longrightarrow> job_change db db'"

inductive job_move :: "job_db \<Rightarrow> job_db \<Rightarrow> bool" where
  change: "job_change db db' \<Longrightarrow> job_move db db'"
| claim: "q \<in> set (jd_jobs db) \<Longrightarrow> nj_state q = ''running'' \<or> nj_state q = ''pending'' \<and> jd_runtime db = Some rt \<and> int (length (running_jobs db)) < jr_concurrency rt
     \<Longrightarrow> lease > 0 \<Longrightarrow> jd_jobs db' = map (\<lambda>r. if nj_id r = nj_id q then claimed_row lease r else r) (jd_jobs db)
     \<Longrightarrow> jd_runtime db' = jd_runtime db \<Longrightarrow> jd_queue db = Some s \<Longrightarrow> jd_queue db' = Some (s + 1)
     \<Longrightarrow> (\<And>d t. turn_of d t db' = (if (d, t) = (nj_deployment q, nj_tenant q) then Some (s + 1) else turn_of d t db)) \<Longrightarrow> job_move db db'"

section \<open>The invariant of the moves\<close>

definition row_inv :: "job_row \<Rightarrow> bool" where
  "row_inv r \<longleftrightarrow> 0 \<le> nj_attempts r \<and> nj_attempts r \<le> MAX_JOB_ATTEMPTS \<and> nj_attempts r \<le> nj_fence r
     \<and> (if nj_state r = ''running'' then nj_lease_until_ms r > 0 \<and> nj_attempts r > 0
        else nj_lease_until_ms r = 0
          \<and> (if nj_state r = ''pending'' then nj_attempts r < MAX_JOB_ATTEMPTS
             else nj_state r \<in> {''succeeded'', ''rejected'', ''dead'', ''paused''}))"

definition turns_inv :: "job_db \<Rightarrow> bool" where
  "turns_inv db \<longleftrightarrow> (\<forall>q. jd_queue db = Some q \<longrightarrow> 0 \<le> q)
     \<and> (\<forall>d t s. turn_of d t db = Some s \<longrightarrow> (\<exists>q. jd_queue db = Some q \<and> s \<le> q))"

definition job_inv :: "job_db \<Rightarrow> bool" where
  "job_inv db \<longleftrightarrow> distinct (map nj_id (jd_jobs db)) \<and> list_all row_inv (jd_jobs db)
     \<and> length (active_jobs db) \<le> MAX_PENDING_JOBS
     \<and> (case jd_runtime db of None \<Rightarrow> running_jobs db = [] | Some rt \<Rightarrow> int (length (running_jobs db)) \<le> jr_concurrency rt \<and> jr_concurrency rt \<le> int MAX_WORKERS_PER_APP)
     \<and> turns_inv db"

lemma allowed_change_states:
  "s' \<in> allowed_change s \<Longrightarrow> s' \<noteq> ''running'' \<and> s' \<in> {''succeeded'', ''rejected'', ''dead'', ''paused'', ''pending''}"
  by (auto simp: allowed_change_def split: if_splits)

lemma settlesE:
  assumes "settles r r'"
  obtains (same) "r' = r"
  | (change) state reason eligible where
      "r' = r\<lparr>nj_state := state, nj_reason := reason, nj_eligible_ms := eligible, nj_lease_until_ms := 0\<rparr>"
      "state \<in> allowed_change (nj_state r)" "state = ''pending'' \<longrightarrow> nj_attempts r < MAX_JOB_ATTEMPTS"
  using assms unfolding settles_def by blast

lemma settles_inv:
  assumes "settles r r'" "row_inv r"
  shows "row_inv r'"
  using assms(1)
proof (cases rule: settlesE)
  case (change state reason eligible)
  note s = allowed_change_states [OF change(2), THEN conjunct1] allowed_change_states [OF change(2), THEN conjunct2]
  have bounds: "0 \<le> nj_attempts r \<and> nj_attempts r \<le> MAX_JOB_ATTEMPTS \<and> nj_attempts r \<le> nj_fence r"
    using assms(2) unfolding row_inv_def by blast
  show ?thesis
  proof (cases "state = ''pending''")
    case True
    then show ?thesis using bounds change(1,3) by (simp add: row_inv_def)
  next
    case False
    then have "state \<in> {''succeeded'', ''rejected'', ''dead'', ''paused''}" using s(2) by blast
    with False s(1) show ?thesis unfolding row_inv_def change(1) using bounds by simp
  qed
qed (use assms(2) in simp)

lemma settles_id [simp]: "settles r r' \<Longrightarrow> nj_id r' = nj_id r"
  by (erule settlesE) simp_all

lemma allowed_change_active: "s' \<in> allowed_change s \<Longrightarrow> s' \<in> {''pending'', ''running'', ''paused''} \<Longrightarrow> s \<in> {''pending'', ''running'', ''paused''}"
  by (simp add: allowed_change_def split: if_splits)

lemma settles_active: "settles r r' \<Longrightarrow> active_job r' \<Longrightarrow> active_job r"
  by (erule settlesE) (use allowed_change_active in \<open>simp_all add: active_job_def\<close>)

lemma settles_running: "settles r r' \<Longrightarrow> nj_state r' = ''running'' \<Longrightarrow> nj_state r = ''running''"
  by (erule settlesE) (use allowed_change_states in \<open>simp_all\<close>)

lemma all2_ids: "list_all2 settles xs ys \<Longrightarrow> map nj_id ys = map nj_id xs"
  by (induction rule: list_all2_induct) simp_all

lemma all2_inv: "list_all2 settles xs ys \<Longrightarrow> list_all row_inv xs \<Longrightarrow> list_all row_inv ys"
  by (induction rule: list_all2_induct) (auto simp: settles_inv)

lemma all2_filter_length:
  assumes "list_all2 settles xs ys" and "\<And>r r'. settles r r' \<Longrightarrow> P r' \<Longrightarrow> P r"
  shows "length (filter P ys) \<le> length (filter P xs)"
  using assms(1)
proof (induction rule: list_all2_induct)
  case (Cons x xs y ys)
  then show ?case using assms(2) [of x y] by auto
qed simp

lemma turns_kept_refl [simp]: "turns_kept db db"
  by (auto simp: turns_kept_def)

lemma turns_kept_inv:
  assumes k: "turns_kept db db'" and i: "turns_inv db"
  shows "turns_inv db'"
proof -
  have q: "0 \<le> q" if "jd_queue db' = Some q" for q
  proof (cases "jd_queue db")
    case None
    then have "jd_queue db' = None \<or> jd_queue db' = Some 0" using k unfolding turns_kept_def by blast
    with that show ?thesis by auto
  next
    case (Some p)
    then obtain p' where "p \<le> p'" "jd_queue db' = Some p'" using k unfolding turns_kept_def by blast
    moreover have "0 \<le> p" using i Some unfolding turns_inv_def by blast
    ultimately show ?thesis using that by simp
  qed
  have "\<exists>q. jd_queue db' = Some q \<and> s \<le> q" if s: "turn_of d t db' = Some s" for d t s
  proof (cases "turn_of d t db = Some s")
    case True
    then obtain q where "jd_queue db = Some q" "s \<le> q" using i unfolding turns_inv_def by blast
    then show ?thesis using k unfolding turns_kept_def by (meson order_trans)
  next
    case False
    then obtain q where "s = 0" "jd_queue db = Some q" using k s unfolding turns_kept_def by blast
    moreover obtain q' where "q \<le> q'" "jd_queue db' = Some q'" using k \<open>jd_queue db = Some q\<close> unfolding turns_kept_def by blast
    ultimately show ?thesis using q by blast
  qed
  with q show ?thesis unfolding turns_inv_def by blast
qed

lemma claimed_row_inv: "row_inv r \<Longrightarrow> nj_state r \<in> {''running'', ''pending''} \<Longrightarrow> lease > 0 \<Longrightarrow> row_inv (claimed_row lease r)"
  by (cases "nj_state r = ''running''") (simp_all add: row_inv_def claimed_row_def MAX_JOB_ATTEMPTS_def)

lemma claimed_row_id [simp]: "nj_id (claimed_row lease r) = nj_id r"
  by (simp add: claimed_row_def)

lemma length_filter_update:
  assumes "distinct (map nj_id xs)" "q \<in> set xs" "\<And>r. nj_id (f r) = nj_id r" "P (f q)"
  shows "length (filter P (map (\<lambda>r. if nj_id r = nj_id q then f r else r) xs)) = length (filter P xs) + (if P q then 0 else 1)"
  using assms
proof (induction xs)
  case (Cons x xs)
  show ?case
  proof (cases "x = q")
    case True
    then have "map (\<lambda>r. if nj_id r = nj_id q then f r else r) xs = xs" using Cons.prems(1)
      by (intro map_idI) (metis distinct.simps(2) image_eqI list.map(2) list.set_map)
    with True Cons.prems(4) show ?thesis by simp
  next
    case False
    then have "q \<in> set xs" "nj_id x \<noteq> nj_id q" using Cons.prems by auto
    then show ?thesis using Cons by simp
  qed
qed simp

lemma job_change_inv:
  assumes "job_change db db'" and "job_inv db"
  shows "job_inv db'"
  using assms
proof (cases rule: job_change.cases)
  case settle
  have "length (active_jobs db') \<le> length (active_jobs db)" "length (running_jobs db') \<le> length (running_jobs db)"
    unfolding active_jobs_def running_jobs_def
    by (rule all2_filter_length [OF settle(1)], erule (1) settles_active settles_running)+
  then show ?thesis using assms(2) settle all2_ids [OF settle(1)] all2_inv [OF settle(1)] turns_kept_inv [OF settle(3)]
    by (auto simp: job_inv_def split: option.splits)
next
  case (insert r)
  then have "row_inv r" "nj_state r = ''pending''" by (auto simp: fresh_pending_def row_inv_def MAX_JOB_ATTEMPTS_def)
  then show ?thesis using assms(2) insert turns_kept_inv [OF insert(6)]
    by (auto simp: job_inv_def active_jobs_def running_jobs_def split: option.splits)
next
  case (configure rt)
  have run: "int (length (running_jobs db)) \<le> jr_concurrency rt"
  proof (cases "running_jobs db = []")
    case True
    then show ?thesis using configure(5) by simp
  next
    case False
    then obtain r where r: "jd_runtime db = Some r" using assms(2) by (cases "jd_runtime db") (simp_all add: job_inv_def)
    then have "int (length (running_jobs db)) \<le> jr_concurrency r" using assms(2) by (simp add: job_inv_def)
    moreover have "jr_concurrency r = jr_concurrency rt" using configure(3,4) False r by simp
    ultimately show ?thesis by simp
  qed
  have same: "running_jobs db' = running_jobs db" "active_jobs db' = active_jobs db"
    using configure(1) by (simp_all add: running_jobs_def active_jobs_def)
  show ?thesis using assms(2) configure run same turns_kept_inv [OF configure(2)] by (simp add: job_inv_def)
qed

theorem job_move_inv:
  assumes "job_move db db'" and "job_inv db"
  shows "job_inv db'"
  using assms
proof (cases rule: job_move.cases)
  case change
  then show ?thesis using assms(2) by (rule job_change_inv)
next
  case (claim q rt lease s)
  let ?f = "\<lambda>r. if nj_id r = nj_id q then claimed_row lease r else r"
  have d: "distinct (map nj_id (jd_jobs db))" and q: "q \<in> set (jd_jobs db)" using assms(2) claim(1) by (auto simp: job_inv_def)
  have only: "r = q" if "r \<in> set (jd_jobs db)" "nj_id r = nj_id q" for r
    using d q that by (auto simp: distinct_map dest: inj_onD)
  have ids: "map nj_id (jd_jobs db') = map nj_id (jd_jobs db)" using claim(4) by simp
  have state: "nj_state q \<in> {''running'', ''pending''}" using claim(2) by blast
  have rows: "list_all row_inv (jd_jobs db')"
  proof -
    have "list_all row_inv (jd_jobs db)" using assms(2) by (simp add: job_inv_def)
    moreover have "row_inv (claimed_row lease q)" using calculation q claimed_row_inv [OF _ state claim(3)] by (simp add: list_all_iff)
    ultimately show ?thesis unfolding claim(4) list_all_iff
    proof (intro ballI)
      fix x assume rows: "\<forall>r \<in> set (jd_jobs db). row_inv r" "row_inv (claimed_row lease q)"
        and x: "x \<in> set (map (\<lambda>r. if nj_id r = nj_id q then claimed_row lease r else r) (jd_jobs db))"
      then obtain r where r: "r \<in> set (jd_jobs db)" "x = (if nj_id r = nj_id q then claimed_row lease r else r)" by auto
      show "row_inv x"
      proof (cases "nj_id r = nj_id q")
        case True
        then show ?thesis using only [OF r(1) True] r(2) rows(2) by simp
      next
        case False
        then show ?thesis using r rows(1) by simp
      qed
    qed
  qed
  have on: "active_job q" "active_job (claimed_row lease q)"
    using claim(2) by (auto simp: active_job_def claimed_row_def)
  have act: "length (active_jobs db') = length (active_jobs db)"
    unfolding active_jobs_def claim(4)
    using length_filter_update [OF d q, of "claimed_row lease" active_job] on by simp
  have run: "length (running_jobs db') = length (running_jobs db) + (if nj_state q = ''running'' then 0 else 1)"
    unfolding running_jobs_def claim(4)
    using length_filter_update [OF d q, of "claimed_row lease" "\<lambda>r. nj_state r = ''running''"]
    unfolding claimed_row_def by fastforce
  have nonempty: "nj_state q = ''running'' \<Longrightarrow> running_jobs db \<noteq> []" using q by (auto simp: running_jobs_def filter_empty_conv)
  have turns: "turns_inv db'" unfolding turns_inv_def
  proof (intro conjI allI impI)
    have old: "turns_inv db" using assms(2) by (simp add: job_inv_def)
    fix p assume "jd_queue db' = Some p"
    then show "0 \<le> p" using old claim(6,7) by (simp add: turns_inv_def)
  next
    have old: "turns_inv db" using assms(2) by (simp add: job_inv_def)
    fix d t p assume p: "turn_of d t db' = Some p"
    have "p \<le> s + 1"
    proof (cases "(d, t) = (nj_deployment q, nj_tenant q)")
      case True
      then show ?thesis using p claim(8) [of d t] by simp
    next
      case False
      then have "turn_of d t db = Some p" using p claim(8) [of d t] by (simp only: if_False)
      then show ?thesis using old claim(6) unfolding turns_inv_def by fastforce
    qed
    then show "\<exists>n. jd_queue db' = Some n \<and> p \<le> n" using claim(7) by simp
  qed
  have quota: "length (active_jobs db') \<le> MAX_PENDING_JOBS" using assms(2) act by (simp add: job_inv_def)
  have slots: "case jd_runtime db' of None \<Rightarrow> running_jobs db' = []
      | Some rt \<Rightarrow> int (length (running_jobs db')) \<le> jr_concurrency rt \<and> jr_concurrency rt \<le> int MAX_WORKERS_PER_APP"
  proof (cases "jd_runtime db")
    case None
    then have "running_jobs db = []" using assms(2) by (simp add: job_inv_def)
    with None show ?thesis using nonempty claim(2) by simp
  next
    case (Some r)
    then have "int (length (running_jobs db)) \<le> jr_concurrency r \<and> jr_concurrency r \<le> int MAX_WORKERS_PER_APP"
      using assms(2) by (simp add: job_inv_def)
    with Some show ?thesis using run claim(2,5) by (cases "nj_state q = ''running''") simp_all
  qed
  show ?thesis unfolding job_inv_def using ids d rows quota slots turns by simp
qed

end
