(* ===== verification/Job_Runs.thy ===== *)
theory Job_Runs
  imports Job_Safety
begin

text \<open>
  The operations of the queue as sequences of the moves of \<open>Job_Safety\<close>.  \<open>yields\<close> says that, from a
  state satisfying the invariant, an operation either fails (and is rolled back) or performs moves;
  its rules follow the code's \<open>?\<close>, \<open>ensure!\<close> and branches, so that an operation needs one line per
  statement.
\<close>

section \<open>Runs of moves\<close>

abbreviation job_moves :: "job_db \<Rightarrow> job_db \<Rightarrow> bool" where
  "job_moves \<equiv> job_change\<^sup>*\<^sup>*"

lemma job_moves_inv: "job_moves db db' \<Longrightarrow> job_inv db \<Longrightarrow> job_inv db'"
  by (induction rule: rtranclp_induct) (auto intro: job_change_inv)

definition yields :: "job_db \<Rightarrow> ('a \<times> job_db) res \<Rightarrow> bool" where
  "yields db r \<longleftrightarrow> (job_inv db \<longrightarrow> (case r of Inl _ \<Rightarrow> True | Inr (_, db') \<Rightarrow> job_moves db db'))"

named_theorems yields_rules \<open>what the statements and combinators yield\<close>

lemma yields_Inr: "yields db (Inr (x, db')) \<longleftrightarrow> (job_inv db \<longrightarrow> job_moves db db')"
  by (simp add: yields_def)

lemma yields_fail [yields_rules]: "yields db (Inl e)"
  by (simp add: yields_def)

lemma yields_done [yields_rules]: "yields db (Inr (x, db))"
  by (simp add: yields_def)

lemma yields_ensure [yields_rules]: "(c \<Longrightarrow> yields db k) \<Longrightarrow> (\<not> c \<Longrightarrow> yields db k') \<Longrightarrow> yields db (if c then k else k')"
  by simp

lemma yields_read [yields_rules]: "(\<And>x. r = Inr x \<Longrightarrow> yields db (k x)) \<Longrightarrow> yields db (and_then r k)"
  by (cases r) (simp_all add: yields_def)

lemma yields_then:
  assumes "yields db r" "\<And>x d. r = Inr (x, d) \<Longrightarrow> yields d (k (x, d))"
  shows "yields db (and_then r k)"
proof (cases r)
  case (Inr p)
  obtain x d where p: "p = (x, d)" by (cases p)
  have "job_moves db d" if "job_inv db" using assms(1) that Inr p by (simp add: yields_def)
  moreover have "yields d (k (x, d))" using assms(2) Inr p by simp
  ultimately show ?thesis unfolding yields_def using Inr p job_moves_inv [of db d]
    by (auto split: sum.splits intro: rtranclp_trans)
qed (simp add: yields_def)

lemma yields_bind:
  assumes "yields db r" "\<And>x d. r = Inr (x, d) \<Longrightarrow> yields d (f x d)"
  shows "yields db (and_then r (\<lambda>(x, d). f x d))"
  using assms by (intro yields_then) simp_all

lemma yields_prod [yields_rules]: "(\<And>a b. p = (a, b) \<Longrightarrow> yields db (f a b)) \<Longrightarrow> yields db (case p of (a, b) \<Rightarrow> f a b)"
  by (cases p) simp

lemma yields_option [yields_rules]:
  "(v = None \<Longrightarrow> yields db f) \<Longrightarrow> (\<And>a. v = Some a \<Longrightarrow> yields db (g a)) \<Longrightarrow> yields db (case v of None \<Rightarrow> f | Some a \<Rightarrow> g a)"
  by (cases v) simp_all

lemma yields_let [yields_rules]: "(\<And>x. x = v \<Longrightarrow> yields db (f x)) \<Longrightarrow> yields db (let x = v in f x)"
  by simp

section \<open>Statements\<close>

definition quiet :: "job_db \<Rightarrow> job_db \<Rightarrow> bool" where
  "quiet db db' \<longleftrightarrow> jd_jobs db' = jd_jobs db \<and> jd_runtime db' = jd_runtime db \<and> jd_tenants db' = jd_tenants db \<and> jd_queue db' = jd_queue db"

lemma settles_refl [simp]: "settles r r"
  unfolding settles_def by (rule disjI1 [OF refl])

lemma all2_settles_refl [simp]: "list_all2 settles xs xs"
  by (simp add: list.rel_refl)

lemma turns_kept_same: "jd_tenants db' = jd_tenants db \<Longrightarrow> jd_queue db' = jd_queue db \<Longrightarrow> turns_kept db db'"
  by (auto simp: turns_kept_def turn_of_def)

lemma quiet_move: "quiet db db' \<Longrightarrow> job_change db db'"
  by (rule job_change.settle) (simp_all add: quiet_def turns_kept_same)

lemma yields_quiet: "(\<And>x db'. r = Inr (x, db') \<Longrightarrow> quiet db db') \<Longrightarrow> yields db r"
  by (auto simp: yields_def split: sum.splits intro!: r_into_rtranclp quiet_move)

lemma yields_charge [yields_rules]: "yields db (charge db)"
  by (rule yields_quiet) (auto simp: charge_def quiet_def split: if_splits)

lemma yields_update_grants [yields_rules]: "yields db (update_grants P f db)"
  by (rule yields_quiet) (auto simp: update_grants_def quiet_def split: if_splits)

lemma yields_update_recurring [yields_rules]: "yields db (update_recurring P f db)"
  by (rule yields_quiet) (auto simp: update_recurring_def quiet_def split: if_splits)

lemma yields_upsert_grant [yields_rules]: "yields db (upsert_grant g db)"
  by (rule yields_quiet) (auto simp: upsert_grant_def update_grants_def quiet_def Let_def split: if_splits)

lemma yields_upsert_recurring [yields_rules]: "yields db (upsert_recurring d t n c e v s db)"
  by (rule yields_quiet) (auto simp: upsert_recurring_def update_recurring_def quiet_def Let_def split: if_splits)

lemma yields_insert_occurrence [yields_rules]: "yields db (insert_occurrence x db)"
  by (rule yields_quiet) (auto simp: insert_occurrence_def quiet_def Let_def split: if_splits)

lemma yields_recurring_where [yields_rules]:
  "yields db (pause_recurring_where P db)" "yields db (revoke_grants_where Q db)" "yields db (lock_recurring s n db)"
  "yields db (advance_recurring_cursor x1 x2 x3 x4 s n v db)" "yields db (advance_recurring_due y1 s n v y2 y3 y4 db)"
  by (simp_all add: pause_recurring_where_def revoke_grants_where_def lock_recurring_def advance_recurring_cursor_def
      advance_recurring_due_def yields_rules)

lemma list_all2_map_settles: "(\<And>r. r \<in> set xs \<Longrightarrow> settles r (f r)) \<Longrightarrow> list_all2 settles xs (map f xs)"
  by (simp add: list_all2_conv_all_nth)

lemma yields_update_jobs:
  assumes "\<And>r. r \<in> set (jd_jobs db) \<Longrightarrow> P r \<Longrightarrow> settles r (f r)"
  shows "yields db (update_jobs P f db)"
proof -
  have "list_all2 settles (jd_jobs db) (map (\<lambda>r. if P r then f r else r) (jd_jobs db))"
    using assms by (intro list_all2_map_settles) simp
  then have "job_change db (db\<lparr>jd_jobs := map (\<lambda>r. if P r then f r else r) (jd_jobs db)\<rparr>)"
    by (intro job_change.settle) (simp_all add: turns_kept_same)
  then show ?thesis unfolding yields_def update_jobs_def by auto
qed

lemma settlesI:
  "state \<in> allowed_change (nj_state r) \<Longrightarrow> (state = ''pending'' \<Longrightarrow> nj_attempts r < MAX_JOB_ATTEMPTS) \<Longrightarrow>
    settles r (r\<lparr>nj_state := state, nj_reason := reason, nj_eligible_ms := eligible, nj_lease_until_ms := 0\<rparr>)"
  unfolding settles_def by blast

lemma settlesI_keep:
  "state \<in> allowed_change (nj_state r) \<Longrightarrow> state \<noteq> ''pending'' \<Longrightarrow>
    settles r (r\<lparr>nj_state := state, nj_reason := reason, nj_lease_until_ms := 0\<rparr>)"
  using settlesI [where state = state and r = r and reason = reason and eligible = "nj_eligible_ms r"] by simp

lemma yields_locks [yields_rules]:
  "yields db (lock_job_fence i s fence db)" "yields db (lock_reconcilable_job d i digest db)"
  unfolding lock_job_fence_def lock_reconcilable_job_def by (rule yields_update_jobs, simp)+

lemma yields_pause_jobs [yields_rules]: "yields db (pause_jobs P reason db)"
  unfolding pause_jobs_def
  by (rule yields_update_jobs, rule settlesI_keep) (auto simp: allowed_change_def)

lemma yields_cancel [yields_rules]: "yields db (cancel_statement i db)"
  unfolding cancel_statement_def
  by (rule yields_update_jobs, rule settlesI_keep) (auto simp: allowed_change_def)

text \<open>An identity is one row: what a lookup returns is the only row of that identity.\<close>

lemma job_inv_unique:
  assumes "job_inv db" "r \<in> set (jd_jobs db)" "r' \<in> set (jd_jobs db)" "nj_id r = nj_id r'"
  shows "r = r'"
proof -
  have "inj_on nj_id (set (jd_jobs db))" using assms(1) by (simp add: job_inv_def distinct_map)
  then show ?thesis using assms(2-4) by (simp add: inj_on_def)
qed

lemma yields_runtime [yields_rules]: "yields db (insert_runtime rt db)"
proof -
  have "job_change db (db\<lparr>jd_runtime := Some rt\<rparr>)" if "jd_runtime db = None" "runtime_check rt"
    using that by (intro job_change.configure [where rt = rt]) (auto simp: turns_kept_same runtime_check_def MAX_WORKERS_PER_APP_def)
  then show ?thesis by (auto simp: insert_runtime_def yields_def split: option.splits)
qed

lemma yields_update_runtime:
  assumes "\<And>r. jr_concurrency (f r) = jr_concurrency r"
  shows "yields db (update_runtime f db)"
proof -
  have "job_change db (db\<lparr>jd_runtime := Some (f r)\<rparr>)" if "jd_runtime db = Some r" "runtime_check (f r)" for r
    using that assms
    by (intro job_change.configure [where rt = "f r"]) (auto simp: turns_kept_same runtime_check_def MAX_WORKERS_PER_APP_def)
  then show ?thesis by (auto simp: update_runtime_def yields_def split: option.splits)
qed

lemma yields_rewrite_runtime:
  assumes "running_jobs db = []"
  shows "yields db (update_runtime (\<lambda>_. rt) db)"
proof -
  have "job_change db (db\<lparr>jd_runtime := Some rt\<rparr>)" if "runtime_check rt"
    using that assms
    by (intro job_change.configure [where rt = rt]) (auto simp: turns_kept_same runtime_check_def MAX_WORKERS_PER_APP_def)
  then show ?thesis by (auto simp: update_runtime_def yields_def split: option.splits)
qed

lemma turn_of_Cons:
  "turn_of d t (db\<lparr>jd_tenants := x # ts\<rparr>) =
     (if nt_deployment x = d \<and> nt_tenant x = t then Some (nt_claim_seq x) else turn_of d t (db\<lparr>jd_tenants := ts\<rparr>))"
  by (simp add: turn_of_def)

lemma yields_ensure_queue [yields_rules]: "yields db (ensure_queue db)"
proof -
  have "turns_kept db (db\<lparr>jd_queue := Some 0\<rparr>)" if "jd_queue db = None"
    using that by (auto simp: turns_kept_def turn_of_def)
  then have "job_change db (db\<lparr>jd_queue := Some 0\<rparr>)" if "jd_queue db = None"
    using that by (intro job_change.settle) simp_all
  then show ?thesis by (auto simp: ensure_queue_def yields_def split: option.splits)
qed

lemma ensure_tenant_kept:
  assumes "ensure_tenant d t db = Inr (n, db')" "jd_queue db \<noteq> None"
  shows "turns_kept db db' \<and> jd_jobs db' = jd_jobs db \<and> jd_runtime db' = jd_runtime db"
proof (cases "list_ex (\<lambda>x. nt_deployment x = d \<and> nt_tenant x = t) (jd_tenants db)")
  case True
  then show ?thesis using assms by (simp add: ensure_tenant_def)
next
  case False
  then have new: "turn_of d t db = None" by (auto simp: turn_of_def find_None_iff list_ex_iff)
  have db': "db' = db\<lparr>jd_tenants := \<lparr>nt_deployment = d, nt_tenant = t, nt_claim_seq = 0\<rparr> # jd_tenants db\<rparr>"
    using assms False by (auto simp: ensure_tenant_def split: if_splits)
  have "turn_of d' t' db' = (if (d', t') = (d, t) then Some 0 else turn_of d' t' db)" for d' t'
    unfolding db' turn_of_Cons by auto
  then have "turns_kept db db'" using new assms(2) unfolding turns_kept_def db' by auto
  then show ?thesis by (simp add: db')
qed

lemma ensure_tenant_tenants: "ensure_tenant d t db = Inr (n, db') \<Longrightarrow> jd_queue db' = jd_queue db"
  by (auto simp: ensure_tenant_def split: if_splits)

section \<open>Operations of the queue\<close>

lemmas yields_steps =
  yields_fail yields_done yields_charge yields_locks yields_runtime yields_pause_jobs yields_cancel yields_update_grants yields_update_recurring
  yields_upsert_grant yields_upsert_recurring yields_insert_occurrence yields_recurring_where yields_ensure_queue
  yields_bind yields_prod yields_option yields_let yields_ensure yields_read

lemma yields_finish:
  assumes "\<And>r. r \<in> set (jd_jobs db) \<Longrightarrow> in_scope i s r \<Longrightarrow> nj_state r = ''running'' \<Longrightarrow> state = ''pending'' \<Longrightarrow> nj_attempts r < MAX_JOB_ATTEMPTS"
    and "state \<in> {''succeeded'', ''rejected'', ''dead'', ''paused'', ''pending''}"
  shows "yields db (finish_running_job state reason e i s fence db)"
  unfolding finish_running_job_def
proof (rule yields_update_jobs)
  fix r assume r: "r \<in> set (jd_jobs db)" and p: "in_scope i s r \<and> nj_state r = ''running'' \<and> nj_fence r = fence"
  then have "state \<in> allowed_change (nj_state r)" using assms(2) by (simp add: allowed_change_def)
  then show "settles r (r\<lparr>nj_state := state, nj_reason := reason, nj_eligible_ms := e, nj_lease_until_ms := 0\<rparr>)"
    by (rule settlesI) (use assms(1) r p in blast)
qed

lemma yields_transition_any:
  assumes "\<And>r. r \<in> set (jd_jobs db) \<Longrightarrow> in_scope (cl_id c) (cl_scope c) r \<Longrightarrow> nj_state r = ''running'' \<Longrightarrow> state = ''pending'' \<Longrightarrow> nj_attempts r < MAX_JOB_ATTEMPTS"
    and "state \<in> {''succeeded'', ''rejected'', ''dead'', ''paused'', ''pending''}"
  shows "yields db (transition c state reason e db)"
  unfolding transition_def
  by (rule yields_finish [OF assms] yields_steps | assumption)+

lemma yields_transition [yields_rules]:
  "yields db (transition c ''succeeded'' reason e db)" "yields db (transition c ''rejected'' reason e db)"
  "yields db (transition c ''dead'' reason e db)" "yields db (transition c ''paused'' reason e db)"
  by (rule yields_transition_any; simp)+

lemma yields_lock_row [yields_rules]: "yields db (lock_row env c db)"
  unfolding lock_row_def by (rule yields_steps)+

lemma yields_settle_receipt [yields_rules]: "yields db (settle_receipt c v e db)"
  unfolding settle_receipt_def by (rule yields_transition yields_steps)+

lemma fresh_pending_row: "fresh_pending (pending_row env j now)"
  by (simp add: fresh_pending_def pending_row_def)

lemma yields_insert_job:
  assumes "fresh_pending r" "length (active_jobs db) < MAX_PENDING_JOBS"
  shows "yields db (insert_job r db)"
proof -
  have "job_change db (db\<lparr>jd_jobs := r # jd_jobs db\<rparr>)" if "nj_id r \<notin> set (map nj_id (jd_jobs db))"
    using that assms by (intro job_change.insert [where r = r]) (simp_all add: turns_kept_same)
  then show ?thesis by (auto simp: insert_job_def yields_def)
qed

lemma snapshot_limits:
  assumes "runtime_snapshot_of s db = Inr r"
  shows "\<exists>rt. jd_runtime db = Some rt \<and> jd_generation db = Some (jr_deployment rt) \<and> ru_pending_limit r = jr_pending_limit rt
    \<and> ru_tenant_limit r = jr_tenant_limit rt \<and> ru_concurrency r = jr_concurrency rt \<and> ru_contract r = jr_contract rt \<and> ru_epoch r = jr_epoch rt
    \<and> (ru_state r = ''active'' \<longrightarrow> jr_state rt = ''active'' \<and> jr_deployment rt = js_deployment s)
    \<and> 1 \<le> jr_pending_limit rt \<and> jr_pending_limit rt \<le> int MAX_PENDING_JOBS
    \<and> 1 \<le> jr_concurrency rt \<and> jr_concurrency rt \<le> int MAX_WORKERS_PER_APP"
proof -
  obtain rt where rt: "live_runtime db = Some rt" using assms by (auto simp: runtime_snapshot_of_def res_simps)
  then have live: "jd_runtime db = Some rt" "jd_generation db = Some (jr_deployment rt)"
    by (auto simp: live_runtime_def split: option.splits if_splits)
  show ?thesis using assms rt live
    by (auto simp: runtime_snapshot_of_def res_simps narrow_def column_integer_Inr split: if_splits)
qed

lemma counts_below:
  assumes "active_job_counts tenant db = (app, n)" "app < limit" "limit \<le> int MAX_PENDING_JOBS"
  shows "length (active_jobs db) < MAX_PENDING_JOBS" "int (length (active_jobs db)) < limit"
    "int (length (filter (\<lambda>r. nj_tenant r = tenant) (active_jobs db))) = n"
proof -
  have short: "length (active_jobs db) \<le> 1001" and app: "app = int (length (active_jobs db))"
    using assms by (auto simp: active_job_counts_def active_jobs_def Let_def MAX_PENDING_JOBS_def)
  then show "length (active_jobs db) < MAX_PENDING_JOBS" "int (length (active_jobs db)) < limit"
    using assms by simp_all
  show "int (length (filter (\<lambda>r. nj_tenant r = tenant) (active_jobs db))) = n"
    using assms(1) short by (simp add: active_job_counts_def active_jobs_def Let_def)
qed

lemma yields_admit:
  assumes "jd_queue db \<noteq> None" "length (active_jobs db) < MAX_PENDING_JOBS"
  shows "yields db (and_then (ensure_tenant d t db) (\<lambda>(_, db). and_then (insert_job (pending_row env j now) db) (\<lambda>(_, db). Inr (True, db))))"
proof (rule yields_bind)
  have "job_change db db'" if "ensure_tenant d t db = Inr (n, db')" for n db'
    using ensure_tenant_kept [OF that assms(1)] by (intro job_change.settle) simp_all
  then show "yields db (ensure_tenant d t db)" by (auto simp: yields_def split: sum.splits)
  fix x db' assume "ensure_tenant d t db = Inr (x, db')"
  then have room: "length (active_jobs db') < MAX_PENDING_JOBS"
    using ensure_tenant_kept [of d t db x db'] assms by (simp add: active_jobs_def)
  show "yields db' (and_then (insert_job (pending_row env j now) db') (\<lambda>(_, db). Inr (True, db)))"
    by (rule yields_insert_job [OF fresh_pending_row room] yields_steps)+
qed

lemma yields_enqueue [yields_rules]: "yields db (enqueue env j now tenant_limit db)"
  unfolding enqueue_def
  by (rule yields_admit yields_steps | assumption | (auto dest!: snapshot_limits intro: counts_below(1))[1])+

section \<open>Claims\<close>

lemma next_claimable_Some:
  assumes "next_claimable skipped d now capacity db = Some q"
  shows "q \<in> set (jd_jobs db)" "claimable skipped d now capacity db q"
    "\<And>r. r \<in> set (jd_jobs db) \<Longrightarrow> claimable skipped d now capacity db r \<Longrightarrow> claim_key db q \<le> claim_key db r"
proof -
  let ?xs = "filter (claimable skipped d now capacity db) (jd_jobs db)"
  obtain rest where q: "sort_key (claim_key db) ?xs = q # rest"
    using assms by (auto simp: next_claimable_def split: list.splits)
  then have mem: "q \<in> set ?xs" by (metis list.set_intros(1) set_sort)
  then show "q \<in> set (jd_jobs db)" "claimable skipped d now capacity db q" by simp_all
  have "sorted (map (claim_key db) (q # rest))" using sorted_sort_key [of "claim_key db" ?xs] q by simp
  then have le: "claim_key db q \<le> claim_key db r" if "r \<in> set (q # rest)" for r using that by auto
  fix r assume "r \<in> set (jd_jobs db)" "claimable skipped d now capacity db r"
  then have "r \<in> set (q # rest)" unfolding q [symmetric] by simp
  then show "claim_key db q \<le> claim_key db r" by (rule le)
qed

lemma next_claimable_None:
  "next_claimable skipped d now capacity db = None \<longleftrightarrow> (\<forall>r \<in> set (jd_jobs db). \<not> claimable skipped d now capacity db r)"
proof -
  let ?xs = "filter (claimable skipped d now capacity db) (jd_jobs db)"
  have "sort_key (claim_key db) ?xs = [] \<longleftrightarrow> ?xs = []" by (metis length_0_conv length_sort)
  then have "next_claimable skipped d now capacity db = None \<longleftrightarrow> ?xs = []"
    by (auto simp: next_claimable_def simp del: sort_key_simps split: list.splits)
  then show ?thesis by (simp add: filter_empty_conv)
qed

lemma next_claimable_cong:
  assumes "jd_jobs db' = jd_jobs db" "jd_tenants db' = jd_tenants db"
  shows "next_claimable skipped d now capacity db' = next_claimable skipped d now capacity db"
proof -
  have "tenant_seq db' = tenant_seq db" using assms by (simp add: tenant_seq_def fun_eq_iff)
  then have "claimable skipped d now capacity db' = claimable skipped d now capacity db" "claim_key db' = claim_key db"
    by (simp_all add: claimable_def claim_key_def fun_eq_iff)
  then show ?thesis using assms by (simp add: next_claimable_def)
qed

definition has_capacity :: "job_db \<Rightarrow> bool" where
  "has_capacity db = (case jd_runtime db of None \<Rightarrow> False | Some rt \<Rightarrow> running_job_count db < jr_concurrency rt)"

definition claim_of :: "timestamp \<Rightarrow> job_row \<Rightarrow> job_claim" where
  "claim_of now q =
     \<lparr>cl_id = nj_id q, cl_scope = \<lparr>js_deployment = nj_deployment q, js_tenant = nj_tenant q\<rparr>, cl_fence = nj_fence q + 1,
      cl_lease_until = now + JOB_LEASE_MILLIS, cl_exhausted = (nj_attempts q \<ge> MAX_JOB_ATTEMPTS)\<rparr>"

lemma running_count_below: "running_job_count db < c \<Longrightarrow> c \<le> int MAX_WORKERS_PER_APP \<Longrightarrow> int (length (running_jobs db)) < c"
  by (auto simp: running_job_count_def running_jobs_def MAX_WORKERS_PER_APP_def)

lemma update_jobs_Inr:
  "update_jobs P f db = Inr (n, db') \<Longrightarrow> db' = db\<lparr>jd_jobs := map (\<lambda>r. if P r then f r else r) (jd_jobs db)\<rparr>"
  "update_jobs P f db = Inr (n, db') \<Longrightarrow> r \<in> set (jd_jobs db) \<Longrightarrow> P r \<Longrightarrow> job_check (f r)"
  "update_jobs P f db = Inr (n, db') \<Longrightarrow> n = length (filter P (jd_jobs db))"
  by (auto simp: update_jobs_def list_all_iff split: if_splits)

lemma claim_shape:
  assumes "claim skipped d now db = Inr (res, db')"
  obtains (none) d1 rt where "charge db = Inr ((), d1)" "runtime_snapshot_of \<lparr>js_deployment = d, js_tenant = []\<rparr> d1 = Inr rt"
      "ru_state rt = ''active''" "advance_claim_sequence d d1 = Inr (1, db')" "res = None"
      "next_claimable skipped d now (running_job_count db' < ru_concurrency rt) db' = None"
  | (some) d1 d2 d3 rt q n where "charge db = Inr ((), d1)" "runtime_snapshot_of \<lparr>js_deployment = d, js_tenant = []\<rparr> d1 = Inr rt"
      "ru_state rt = ''active''" "advance_claim_sequence d d1 = Inr (1, d2)"
      "next_claimable skipped d now (running_job_count d2 < ru_concurrency rt) d2 = Some q"
      "res = Some \<lparr>cl_id = nj_id q, cl_scope = \<lparr>js_deployment = d, js_tenant = nj_tenant q\<rparr>, cl_fence = nj_fence q + 1,
                 cl_lease_until = now + JOB_LEASE_MILLIS, cl_exhausted = (nj_attempts q \<ge> MAX_JOB_ATTEMPTS)\<rparr>"
      "claim_job (nj_fence q + 1) (now + JOB_LEASE_MILLIS) (nj_attempts q + (if nj_attempts q < MAX_JOB_ATTEMPTS then 1 else 0))
               (nj_id q) d (nj_fence q) (nj_state q) d2 = Inr (1, d3)"
      "record_tenant_claim d (nj_tenant q) d3 = Inr (n, db')"
proof -
  obtain d1 rt d2 where 1: "charge db = Inr ((), d1)" "runtime_snapshot_of \<lparr>js_deployment = d, js_tenant = []\<rparr> d1 = Inr rt"
      "ru_state rt = ''active''" "advance_claim_sequence d d1 = Inr (1, d2)"
    and rest: "(case next_claimable skipped d now (running_job_count d2 < ru_concurrency rt) d2 of
         None \<Rightarrow> Inr (None, d2)
       | Some q \<Rightarrow>
           and_then (column_integer (nj_fence q)) (\<lambda>fence.
           and_then (ok_or (checked_add_i64 fence 1) ''job fence exhausted'') (\<lambda>next_fence.
           and_then (column_integer (nj_attempts q)) (\<lambda>attempts.
           ensure (attempts \<le> MAX_JOB_ATTEMPTS) ''invalid job attempts''
           (and_then (add_millis now JOB_LEASE_MILLIS) (\<lambda>lease.
            and_then (claim_job next_fence lease (attempts + (if attempts < MAX_JOB_ATTEMPTS then 1 else 0))
                (nj_id q) d fence (nj_state q) d2) (\<lambda>(changed, db).
            ensure (changed = 1) ''job claim raced''
            (and_then (record_tenant_claim d (nj_tenant q) db) (\<lambda>(_, db).
             Inr (Some \<lparr>cl_id = nj_id q, cl_scope = \<lparr>js_deployment = d, js_tenant = nj_tenant q\<rparr>,
                    cl_fence = next_fence, cl_lease_until = lease, cl_exhausted = (attempts \<ge> MAX_JOB_ATTEMPTS)\<rparr>, db)))))))))) = Inr (res, db')"
    using assms unfolding claim_def by (auto simp: and_then_eq_Inr split: if_splits)
  show thesis
  proof (cases "next_claimable skipped d now (running_job_count d2 < ru_concurrency rt) d2")
    case None
    with rest have "res = None" "db' = d2" by auto
    with None 1 none show thesis by blast
  next
    case (Some q)
    with rest have "\<exists>d3 n. claim_job (nj_fence q + 1) (now + JOB_LEASE_MILLIS) (nj_attempts q + (if nj_attempts q < MAX_JOB_ATTEMPTS then 1 else 0))
               (nj_id q) d (nj_fence q) (nj_state q) d2 = Inr (1, d3)
           \<and> record_tenant_claim d (nj_tenant q) d3 = Inr (n, db')
       \<and> res = Some \<lparr>cl_id = nj_id q, cl_scope = \<lparr>js_deployment = d, js_tenant = nj_tenant q\<rparr>, cl_fence = nj_fence q + 1,
                 cl_lease_until = now + JOB_LEASE_MILLIS, cl_exhausted = (nj_attempts q \<ge> MAX_JOB_ATTEMPTS)\<rparr>"
      by (auto simp: and_then_eq_Inr ok_or_eq_Inr column_integer_Inr checked_add_i64_Some dest!: add_millis_Inr split: if_splits)
    then obtain d3 n where 2: "claim_job (nj_fence q + 1) (now + JOB_LEASE_MILLIS) (nj_attempts q + (if nj_attempts q < MAX_JOB_ATTEMPTS then 1 else 0))
               (nj_id q) d (nj_fence q) (nj_state q) d2 = Inr (1, d3)"
        "record_tenant_claim d (nj_tenant q) d3 = Inr (n, db')"
        "res = Some \<lparr>cl_id = nj_id q, cl_scope = \<lparr>js_deployment = d, js_tenant = nj_tenant q\<rparr>, cl_fence = nj_fence q + 1,
                 cl_lease_until = now + JOB_LEASE_MILLIS, cl_exhausted = (nj_attempts q \<ge> MAX_JOB_ATTEMPTS)\<rparr>"
      by blast
    show thesis by (rule some [OF 1 Some 2(3,1,2)])
  qed
qed

lemma find_stamp:
  assumes "find (\<lambda>x. nt_deployment x = d \<and> nt_tenant x = u) ts \<noteq> None"
  shows "map_option nt_claim_seq (find (\<lambda>x. nt_deployment x = d' \<and> nt_tenant x = t)
      (map (\<lambda>x. if nt_deployment x = d \<and> nt_tenant x = u then x\<lparr>nt_claim_seq := n\<rparr> else x) ts))
    = (if (d', t) = (d, u) then Some n else map_option nt_claim_seq (find (\<lambda>x. nt_deployment x = d' \<and> nt_tenant x = t) ts))"
proof -
  have "(d', t) \<noteq> (d, u) \<Longrightarrow> ?thesis" by (induction ts) auto
  moreover have ?thesis if "(d', t) = (d, u)" using assms that by (induction ts) auto
  ultimately show ?thesis by blast
qed

text \<open>What a claim does, on a state satisfying the invariant.\<close>

lemma claim_effect:
  assumes "claim skipped d now db = Inr (res, db')" "job_inv db"
  obtains s where "jd_queue db = Some s" "jd_queue db' = Some (s + 1)" "jd_runtime db' = jd_runtime db" "jd_runtime db \<noteq> None"
    and "res = None \<Longrightarrow> jd_jobs db' = jd_jobs db \<and> jd_tenants db' = jd_tenants db
           \<and> next_claimable skipped d now (has_capacity db) db = None"
    and "\<And>c. res = Some c \<Longrightarrow> \<exists>q. next_claimable skipped d now (has_capacity db) db = Some q \<and> nj_deployment q = d
           \<and> c = claim_of now q \<and> now + JOB_LEASE_MILLIS \<ge> 0
           \<and> jd_jobs db' = map (\<lambda>r. if nj_id r = nj_id q then claimed_row (now + JOB_LEASE_MILLIS) r else r) (jd_jobs db)
           \<and> (\<forall>d' t. turn_of d' t db' = (if (d', t) = (d, nj_tenant q) then Some (s + 1) else turn_of d' t db))"
  using assms(1)
proof (cases rule: claim_shape)
  case (none d1 rt)
  obtain r where r: "jd_runtime d1 = Some r" "ru_concurrency rt = jr_concurrency r" using snapshot_limits [OF none(2)] by blast
  obtain s where s: "jd_queue d1 = Some s" "db' = d1\<lparr>jd_queue := Some (s + 1)\<rparr>"
    using none(4) by (auto simp: advance_claim_sequence_def split: option.splits prod.splits if_splits)
  have d1: "d1 = db\<lparr>jd_calls := jd_calls db - 1\<rparr>" using none(1) by (simp add: charge_def split: if_splits)
  have cap: "(running_job_count db' < ru_concurrency rt) = has_capacity db"
    using r s(2) d1 by (simp add: has_capacity_def running_job_count_def)
  show thesis
    by (rule that [of s]) (use s d1 r none(5,6) cap next_claimable_cong [of db' db] in simp_all)
next
  case (some d1 d2 d3 rt q n)
  obtain r where r: "jd_runtime d1 = Some r" "ru_concurrency rt = jr_concurrency r" using snapshot_limits [OF some(2)] by blast
  obtain s where s: "jd_queue d1 = Some s" "d2 = d1\<lparr>jd_queue := Some (s + 1)\<rparr>"
    using some(4) by (auto simp: advance_claim_sequence_def split: option.splits prod.splits if_splits)
  have d1: "d1 = db\<lparr>jd_calls := jd_calls db - 1\<rparr>" using some(1) by (simp add: charge_def split: if_splits)
  have cap: "(running_job_count d2 < ru_concurrency rt) = has_capacity db"
    using r s(2) d1 by (simp add: has_capacity_def running_job_count_def)
  have pick: "next_claimable skipped d now (has_capacity db) db = Some q"
    using some(5) cap next_claimable_cong [of d2 db] s(2) d1 by simp
  note q = next_claimable_Some(1,2) [OF pick]
  have qd: "nj_deployment q = d" and turn: "turn_of d (nj_tenant q) db \<noteq> None"
    using q(2) by (auto simp: claimable_def tenant_seq_def turn_of_def)
  have jobs: "jd_jobs d2 = jd_jobs db" using s(2) d1 by simp
  have d3: "d3 = d2\<lparr>jd_jobs := map (\<lambda>x. if nj_id x = nj_id q then claimed_row (now + JOB_LEASE_MILLIS) x else x) (jd_jobs db)\<rparr>"
    and check: "now + JOB_LEASE_MILLIS \<ge> 0"
  proof -
    have same: "x = q" if "x \<in> set (jd_jobs db)" "nj_id x = nj_id q" for x using job_inv_unique [OF assms(2) that(1) q(1) that(2)] .
    have "map (\<lambda>x. if nj_id x = nj_id q \<and> nj_deployment x = d \<and> nj_fence x = nj_fence q \<and> nj_state x = nj_state q
          then x\<lparr>nj_state := ''running'', nj_fence := nj_fence q + 1, nj_lease_until_ms := now + JOB_LEASE_MILLIS,
                 nj_attempts := nj_attempts q + (if nj_attempts q < MAX_JOB_ATTEMPTS then 1 else 0)\<rparr> else x) (jd_jobs db)
        = map (\<lambda>x. if nj_id x = nj_id q then claimed_row (now + JOB_LEASE_MILLIS) x else x) (jd_jobs db)"
    proof (intro map_cong [OF refl])
      fix x assume "x \<in> set (jd_jobs db)"
      then have eq: "nj_id x = nj_id q \<Longrightarrow> x = q" by (rule same)
      have row: "q\<lparr>nj_state := ''running'', nj_fence := nj_fence q + 1, nj_lease_until_ms := now + JOB_LEASE_MILLIS,
          nj_attempts := nj_attempts q + (if nj_attempts q < MAX_JOB_ATTEMPTS then 1 else 0)\<rparr> = claimed_row (now + JOB_LEASE_MILLIS) q"
        by (cases q) (simp add: claimed_row_def)
      show "(if nj_id x = nj_id q \<and> nj_deployment x = d \<and> nj_fence x = nj_fence q \<and> nj_state x = nj_state q
          then x\<lparr>nj_state := ''running'', nj_fence := nj_fence q + 1, nj_lease_until_ms := now + JOB_LEASE_MILLIS,
                 nj_attempts := nj_attempts q + (if nj_attempts q < MAX_JOB_ATTEMPTS then 1 else 0)\<rparr> else x)
        = (if nj_id x = nj_id q then claimed_row (now + JOB_LEASE_MILLIS) x else x)"
      proof (cases "nj_id x = nj_id q")
        case True
        then have "x = q" by (rule eq)
        then show ?thesis by (simp only: qd row simp_thms if_True)
      qed (simp only: simp_thms if_False)
    qed
    then show "d3 = d2\<lparr>jd_jobs := map (\<lambda>x. if nj_id x = nj_id q then claimed_row (now + JOB_LEASE_MILLIS) x else x) (jd_jobs db)\<rparr>"
      using update_jobs_Inr(1) [OF some(7) [unfolded claim_job_def]] unfolding jobs by (simp only:)
    have "job_check (q\<lparr>nj_state := ''running'', nj_fence := nj_fence q + 1, nj_lease_until_ms := now + JOB_LEASE_MILLIS,
                 nj_attempts := nj_attempts q + (if nj_attempts q < MAX_JOB_ATTEMPTS then 1 else 0)\<rparr>)"
      by (rule update_jobs_Inr(2) [OF some(7) [unfolded claim_job_def]]) (simp_all only: jobs q(1) qd simp_thms)
    then show "now + JOB_LEASE_MILLIS \<ge> 0" by (simp add: job_check_def)
  qed
  have db': "db' = d3\<lparr>jd_tenants := map (\<lambda>t. if nt_deployment t = d \<and> nt_tenant t = nj_tenant q then t\<lparr>nt_claim_seq := s + 1\<rparr> else t) (jd_tenants db)\<rparr>"
    using some(8) d3 s d1 by (simp add: record_tenant_claim_def Let_def)
  have turns: "turn_of d' t db' = (if (d', t) = (d, nj_tenant q) then Some (s + 1) else turn_of d' t db)" for d' t
    using find_stamp [of d "nj_tenant q" "jd_tenants db" d' t "s + 1"] turn by (simp add: turn_of_def db')
  show thesis
  proof (rule that [of s])
    show "\<exists>q. next_claimable skipped d now (has_capacity db) db = Some q \<and> nj_deployment q = d \<and> c = claim_of now q \<and> now + JOB_LEASE_MILLIS \<ge> 0
           \<and> jd_jobs db' = map (\<lambda>r. if nj_id r = nj_id q then claimed_row (now + JOB_LEASE_MILLIS) r else r) (jd_jobs db)
           \<and> (\<forall>d' t. turn_of d' t db' = (if (d', t) = (d, nj_tenant q) then Some (s + 1) else turn_of d' t db))"
      if "res = Some c" for c
      using that some(6) pick qd check turns d3 db' by (intro exI [of _ q]) (simp add: claim_of_def)
  qed (use s d1 r some(6) d3 db' in simp_all)
qed

lemma claim_move:
  assumes run: "claim skipped d now db = Inr (res, db')" and inv: "job_inv db" and now: "0 \<le> now"
  shows "if res = None then job_change db db' else job_move db db'"
proof (rule claim_effect [OF run inv])
  fix s
  assume q: "jd_queue db = Some s" "jd_queue db' = Some (s + 1)" and rt: "jd_runtime db' = jd_runtime db" "jd_runtime db \<noteq> None"
    and idle: "res = None \<Longrightarrow> jd_jobs db' = jd_jobs db \<and> jd_tenants db' = jd_tenants db \<and> next_claimable skipped d now (has_capacity db) db = None"
    and busy: "\<And>c. res = Some c \<Longrightarrow> \<exists>q. next_claimable skipped d now (has_capacity db) db = Some q \<and> nj_deployment q = d
         \<and> c = claim_of now q \<and> now + JOB_LEASE_MILLIS \<ge> 0
         \<and> jd_jobs db' = map (\<lambda>r. if nj_id r = nj_id q then claimed_row (now + JOB_LEASE_MILLIS) r else r) (jd_jobs db)
         \<and> (\<forall>d' t. turn_of d' t db' = (if (d', t) = (d, nj_tenant q) then Some (s + 1) else turn_of d' t db))"
  show ?thesis
  proof (cases res)
    case None
    then have "turns_kept db db'" using q idle by (auto simp: turns_kept_def turn_of_def)
    then have "job_change db db'" using idle [OF None] rt by (intro job_change.settle) simp_all
    with None show ?thesis by simp
  next
    case (Some c)
    then obtain x where x: "next_claimable skipped d now (has_capacity db) db = Some x" "nj_deployment x = d"
        "jd_jobs db' = map (\<lambda>r. if nj_id r = nj_id x then claimed_row (now + JOB_LEASE_MILLIS) r else r) (jd_jobs db)"
        "\<And>d' t. turn_of d' t db' = (if (d', t) = (d, nj_tenant x) then Some (s + 1) else turn_of d' t db)"
      using busy by blast
    obtain r where r: "jd_runtime db = Some r" using rt(2) by blast
    have "jr_concurrency r \<le> int MAX_WORKERS_PER_APP" using inv r by (simp add: job_inv_def)
    then have cap: "nj_state x = ''running'' \<or> nj_state x = ''pending'' \<and> jd_runtime db = Some r \<and> int (length (running_jobs db)) < jr_concurrency r"
      using next_claimable_Some(2) [OF x(1)] r running_count_below unfolding claimable_def has_capacity_def by auto
    have "job_move db db'"
      by (rule job_move.claim [OF next_claimable_Some(1) [OF x(1)] cap _ x(3) rt(1) q])
        (use now x(2,4) in \<open>simp_all add: JOB_LEASE_MILLIS_def\<close>)
    with Some show ?thesis by simp
  qed
qed

section \<open>Executing and settling\<close>

lemma yields_calls: "yields (db\<lparr>jd_calls := n\<rparr>) r \<Longrightarrow> yields db r"
proof -
  assume r: "yields (db\<lparr>jd_calls := n\<rparr>) r"
  have "job_change db (db\<lparr>jd_calls := n\<rparr>)" by (rule quiet_move) (simp add: quiet_def)
  then show ?thesis using r job_change_inv unfolding yields_def
    by (auto split: sum.splits intro: converse_rtranclp_into_rtranclp)
qed

lemma yields_execution [yields_rules]: "yields db (lock_execution env ok c sample_time validate db)"
  unfolding lock_execution_def Let_def
  by (rule yields_transition yields_lock_row yields_settle_receipt yields_steps | rule yields_calls)+

lemma yields_succeed [yields_rules]: "yields db (succeed env w validate db)"
  unfolding succeed_def by (rule yields_transition yields_lock_row yields_steps)+

lemma read_row_attempts:
  assumes "read_row env c db = Inr v" "job_inv db" "r \<in> set (jd_jobs db)" "in_scope (cl_id c) (cl_scope c) r"
  shows "nj_attempts r = jv_attempts v \<and> nj_fence r = cl_fence c \<and> nj_state r = jv_state v \<and> jv_fence v = cl_fence c"
proof -
  obtain q where q: "find (in_scope (cl_id c) (cl_scope c)) (jd_jobs db) = Some q"
    and v: "jv_attempts v = nj_attempts q" "nj_fence q = cl_fence c" "jv_state v = nj_state q" "jv_fence v = cl_fence c"
    using assms(1) by (auto simp: read_row_def res_simps column_integer_Inr Let_def split: if_splits)
  have "q \<in> set (jd_jobs db)" "in_scope (cl_id c) (cl_scope c) q" using q by (auto simp: find_Some_iff)
  then have "r = q" using job_inv_unique [OF assms(2,3)] assms(4) by (simp add: in_scope_def)
  with v show ?thesis by simp
qed

lemma yields_invI: "(job_inv db \<Longrightarrow> yields db r) \<Longrightarrow> yields db r"
  by (simp add: yields_def)

lemma lock_row_read: "lock_row env c db = Inr (v, d) \<Longrightarrow> read_row env c d = Inr v"
  by (auto simp: lock_row_def res_simps split: if_splits)

lemma yields_retry:
  assumes "lock_row env c d0 = Inr (v, db)" "jv_attempts v < MAX_JOB_ATTEMPTS"
  shows "yields db (transition c ''pending'' reason e db)"
proof (rule yields_invI, rule yields_transition_any)
  fix r assume inv: "job_inv db" and r: "r \<in> set (jd_jobs db)" "in_scope (cl_id c) (cl_scope c) r"
  from read_row_attempts [OF lock_row_read [OF assms(1)] inv r] assms(2)
  show "nj_attempts r < MAX_JOB_ATTEMPTS" by simp
qed simp

lemma yields_fail_transient:
  assumes "lock_row env c d0 = Inr (v, db)"
  shows "yields db (fail_transient env c now v db)"
  unfolding fail_transient_def
  by (rule yields_transition yields_retry [OF assms] yields_steps | simp)+

lemma yields_failure: "(f = FailTransient \<Longrightarrow> yields db a) \<Longrightarrow> (f = FailRejected \<Longrightarrow> yields db b) \<Longrightarrow> (\<And>r. f = FailBusiness r \<Longrightarrow> yields db (g r))
    \<Longrightarrow> yields db (case f of FailTransient \<Rightarrow> a | FailRejected \<Rightarrow> b | FailBusiness r \<Rightarrow> g r)"
  by (cases f) simp_all

lemma yields_fail_op [yields_rules]: "yields db (fail env c now f validate db)"
  unfolding fail_def
  by (rule yields_transition yields_lock_row yields_settle_receipt yields_failure yields_steps | erule yields_fail_transient)+

lemma yields_schedule_grant [yields_rules]: "yields db (schedule_grant env s worker contract db)"
  unfolding schedule_grant_def by (rule yields_steps)+

section \<open>Operators\<close>

lemma yields_cancel_job: "yields db (cancel_job generation i db)"
  unfolding cancel_job_def by (rule yields_steps)+

lemma yields_revoke: "yields db (revoke_job_grant generation tenant worker db)"
  unfolding revoke_job_grant_def by (rule yields_steps)+

lemma yields_install: "yields db (install_recurring generation tenant g state ss db)"
  by (induction ss arbitrary: db) (simp_all add: yields_steps)

lemma yields_grant: "yields db (grant_job_service env generation contract approved declarations db)"
  unfolding grant_job_service_def
  by (rule yields_update_runtime yields_install yields_steps | simp)+

lemma yields_fork: "yields db (apply_job_fork generation epoch db)"
  unfolding apply_job_fork_def by (rule yields_update_runtime yields_steps | simp)+

lemma yields_fork_runtime: "yields db (fork_job_runtime generation epoch db)"
  unfolding fork_job_runtime_def by (rule yields_fork yields_steps)+

lemma paused_all:
  assumes "pause_jobs (\<lambda>_. True) reason db = Inr (n, d)"
  shows "running_jobs d = []"
proof -
  have d: "jd_jobs d = map (\<lambda>r. if nj_state r \<in> {''pending'', ''running''} then r\<lparr>nj_state := ''paused'', nj_reason := reason, nj_lease_until_ms := 0\<rparr> else r) (jd_jobs db)"
    using update_jobs_Inr(1) [OF assms [unfolded pause_jobs_def]] by simp
  show ?thesis unfolding running_jobs_def d by (auto simp: filter_empty_conv)
qed

lemma running_kept:
  "pause_recurring_where P db = Inr (n, d) \<Longrightarrow> running_jobs d = running_jobs db"
  "revoke_grants_where Q db = Inr (n, d) \<Longrightarrow> running_jobs d = running_jobs db"
  by (auto simp: pause_recurring_where_def revoke_grants_where_def update_recurring_def update_grants_def running_jobs_def split: if_splits)

lemma yields_retire: "yields db (retire_approval new db)"
  unfolding retire_approval_def
  by (rule yields_rewrite_runtime yields_steps | (simp add: running_kept paused_all; fail))+

lemma yields_activate_grants:
  "yields db (activate_grants env changed generation contract epoch gs rs declarations es db)"
proof (induction es arbitrary: db)
  case (Cons e es)
  show ?case unfolding activate_grants.simps
    by (rule Cons.IH yields_install yields_steps)+
qed (simp add: yields_done)

lemma yields_activate: "yields db (activate_jobs env generation contract deployed declarations enabled e1 e2 db)"
  unfolding activate_jobs_def
  by (rule yields_activate_grants yields_retire yields_steps)+

lemma yields_reconcile_statement:
  assumes "lock_reconcilable_job d i digest d0 = Inr (changed, db)" "changed = 1"
  shows "yields db (reconcile_statement i d db)"
proof (rule yields_invI)
  assume inv: "job_inv db"
  note u = assms(1) [unfolded lock_reconcilable_job_def]
  have same: "jd_jobs db = jd_jobs d0" using update_jobs_Inr(1) [OF u] by (simp cong: map_cong)
  have "filter (\<lambda>r. nj_deployment r = d \<and> nj_id r = i \<and> nj_payload_digest r = digest \<and> nj_state r \<in> {''paused'', ''dead'', ''rejected''}) (jd_jobs d0) \<noteq> []"
    using update_jobs_Inr(3) [OF u] assms(2) by (metis length_0_conv zero_neq_one)
  then obtain q where q: "q \<in> set (jd_jobs db)" "nj_id q = i" "nj_state q \<in> {''paused'', ''dead'', ''rejected''}"
    unfolding same filter_empty_conv by blast
  show "yields db (reconcile_statement i d db)"
    unfolding reconcile_statement_def
  proof (rule yields_update_jobs, rule settlesI_keep)
    fix r assume "r \<in> set (jd_jobs db)" "nj_id r = i \<and> nj_deployment r = d"
    then have "r = q" using job_inv_unique [OF inv] q by blast
    then show "''rejected'' \<in> allowed_change (nj_state r)" using q(3) by (auto simp: allowed_change_def)
  qed simp
qed

lemma yields_enqueue_reconciled: "yields db (enqueue_reconciled env previous current av now input targets limit db)"
  unfolding enqueue_reconciled_def
  by (rule yields_enqueue yields_steps | erule (1) yields_reconcile_statement)+

section \<open>Recurring schedules\<close>

lemma yields_begin: "yields db (begin_recurrence env s declaration now db)"
  unfolding begin_recurrence_def by (rule yields_steps)+

lemma yields_emit: "yields db (emit_recurrence env b av input targets expiry limit db)"
  unfolding emit_recurrence_def by (rule yields_enqueue yields_steps)+

lemma yields_finish_recurrence: "yields db (finish_recurrence b next_cursor db)"
  unfolding finish_recurrence_def by (rule yields_steps)+

lemma yields_defer: "yields db (defer_recurrence b db)"
  unfolding defer_recurrence_def by (rule yields_steps)+

end
