(* ===== verification/Job_System.thy ===== *)
theory Job_System
  imports Job_Runs "HOL-Library.Code_Target_Nat"
begin

text \<open>
  Runs of the job queue: any interleaving of its operations, each one a transaction that commits
  whole, with the claims handed out so far as a history.  Operations are offered any claim, batch and
  receipt check, not only honest ones, and the rest of the database (receipts, the deployment row,
  the creation counter) may change between them.
\<close>

section \<open>Interleavings\<close>

inductive job_op :: "job_env \<Rightarrow> job_db \<Rightarrow> job_db \<Rightarrow> bool" for env where
  enqueue: "enqueue env j now limit db = Inr (b, db') \<Longrightarrow> job_op env db db'"
| schedule: "schedule_grant env s worker contract db = Inr (g, db') \<Longrightarrow> job_op env db db'"
| execute: "lock_execution env ok c sample_time validate db = Inr (x, db') \<Longrightarrow> job_op env db db'"
| succeed: "succeed env w validate_outcome db = Inr (u, db') \<Longrightarrow> job_op env db db'"
| fail: "fail env c now f validate_outcome db = Inr (z, db') \<Longrightarrow> job_op env db db'"
| cancel: "cancel_job generation i db = Inr (u, db') \<Longrightarrow> job_op env db db'"
| revoke: "revoke_job_grant generation tenant worker db = Inr (u, db') \<Longrightarrow> job_op env db db'"
| regrant: "grant_job_service env generation contract approved declarations db = Inr (u, db') \<Longrightarrow> job_op env db db'"
| fork: "apply_job_fork generation epoch db = Inr (u, db') \<Longrightarrow> job_op env db db'"
| fork_runtime: "fork_job_runtime generation epoch db = Inr (u, db') \<Longrightarrow> job_op env db db'"
| activate: "activate_jobs env generation contract deployed declared enabled e1 e2 db = Inr (u, db') \<Longrightarrow> job_op env db db'"
| reconcile: "enqueue_reconciled env previous g av now input targets limit db = Inr (i, db') \<Longrightarrow> job_op env db db'"
| begin_scan: "begin_recurrence env s declaration now db = Inr (b, db') \<Longrightarrow> job_op env db db'"
| emit: "emit_recurrence env batch av input targets expiry limit db = Inr (p, db') \<Longrightarrow> job_op env db db'"
| finish: "finish_recurrence batch cursor db = Inr (u, db') \<Longrightarrow> job_op env db db'"
| defer_scan: "defer_recurrence batch db = Inr (u, db') \<Longrightarrow> job_op env db db'"
| world: "job_op env db (db\<lparr>jd_receipts := receipts, jd_generation := deployed, jd_creation := counter, jd_calls := calls\<rparr>)"

inductive job_step :: "job_env \<Rightarrow> job_db \<times> job_claim list \<Rightarrow> job_db \<times> job_claim list \<Rightarrow> bool" for env where
  op: "job_op env db db' \<Longrightarrow> job_step env (db, cs) (db', cs)"
| idle: "0 \<le> now \<Longrightarrow> claim skipped d now db = Inr (None, db') \<Longrightarrow> job_step env (db, cs) (db', cs)"
| claim: "0 \<le> now \<Longrightarrow> claim skipped d now db = Inr (Some c, db') \<Longrightarrow> job_step env (db, cs) (db', c # cs)"

definition empty_queue :: job_db where
  "empty_queue = \<lparr>jd_generation = None, jd_runtime = None, jd_queue = None, jd_grants = [], jd_tenants = [], jd_jobs = [],
     jd_recurring = [], jd_occurrences = [], jd_receipts = [], jd_creation = None, jd_calls = 0\<rparr>"

abbreviation job_run :: "job_env \<Rightarrow> job_db \<times> job_claim list \<Rightarrow> job_db \<times> job_claim list \<Rightarrow> bool" where
  "job_run env \<equiv> (job_step env)\<^sup>*\<^sup>*"

abbreviation job_reach :: "job_env \<Rightarrow> job_db \<times> job_claim list \<Rightarrow> bool" where
  "job_reach env s \<equiv> job_run env (empty_queue, []) s"

inductive_cases job_stepE: "job_step env (db, cs) s"

lemma yields_moves: "yields db r \<Longrightarrow> r = Inr (x, db') \<Longrightarrow> job_inv db \<Longrightarrow> job_moves db db'"
  by (simp add: yields_def)

lemma job_op_moves: "job_op env db db' \<Longrightarrow> job_inv db \<Longrightarrow> job_moves db db'"
proof (induction rule: job_op.induct)
  case (world db receipts deployed counter calls)
  show ?case by (intro r_into_rtranclp quiet_move) (simp add: quiet_def)
qed (erule (1) yields_moves [rotated], rule yields_enqueue yields_schedule_grant yields_execution yields_succeed yields_fail_op
    yields_cancel_job yields_revoke yields_grant yields_fork yields_fork_runtime yields_activate yields_enqueue_reconciled
    yields_begin yields_emit yields_finish_recurrence yields_defer)+

lemma empty_queue_inv: "job_inv empty_queue"
  by (simp add: job_inv_def empty_queue_def active_jobs_def running_jobs_def turns_inv_def turn_of_def)

lemma job_step_inv:
  assumes "job_step env s s'" "job_inv (fst s)"
  shows "job_inv (fst s')"
  using assms
proof (cases rule: job_step.cases)
  case (op db db' cs)
  then show ?thesis using assms(2) job_op_moves job_moves_inv by fastforce
next
  case (idle now skipped d db db' cs)
  have "job_inv db" using assms(2) idle(1) by simp
  from claim_move [OF idle(4) this idle(3)] this show ?thesis using idle(2) job_change_inv by simp
next
  case (claim now skipped d db c db' cs)
  have "job_inv db" using assms(2) claim(1) by simp
  from claim_move [OF claim(4) this claim(3)] this show ?thesis using claim(2) job_move_inv by simp
qed

lemma job_run_inv: "job_run env s s' \<Longrightarrow> job_inv (fst s) \<Longrightarrow> job_inv (fst s')"
  by (induction rule: rtranclp_induct) (auto intro: job_step_inv)

lemma job_reach_inv: "job_reach env (db, cs) \<Longrightarrow> job_inv db"
  using job_run_inv [of env "(empty_queue, [])" "(db, cs)"] empty_queue_inv by simp

section \<open>How rows evolve\<close>

definition job_capture :: "job_row \<Rightarrow> job_row" where
  "job_capture r = r\<lparr>nj_eligible_ms := 0, nj_attempts := 0, nj_fence := 0, nj_lease_until_ms := 0, nj_state := [], nj_reason := []\<rparr>"

definition resting :: "job_row \<Rightarrow> bool" where
  "resting r \<longleftrightarrow> nj_state r \<in> {''succeeded'', ''rejected'', ''dead'', ''paused''}"

definition evolves :: "job_row \<Rightarrow> job_row \<Rightarrow> bool" where
  "evolves r r' \<longleftrightarrow> job_capture r' = job_capture r \<and> nj_fence r \<le> nj_fence r' \<and> nj_attempts r \<le> nj_attempts r'
     \<and> (resting r \<longrightarrow> resting r' \<and> nj_fence r' = nj_fence r
          \<and> (nj_state r' = nj_state r \<or> nj_state r \<in> {''dead'', ''paused''} \<and> nj_state r' = ''rejected''))"

lemma job_capture_fields:
  assumes "job_capture r' = job_capture r"
  shows "nj_id r' = nj_id r" "nj_deployment r' = nj_deployment r" "nj_tenant r' = nj_tenant r"
proof -
  have "nj_id (job_capture r') = nj_id (job_capture r)" "nj_deployment (job_capture r') = nj_deployment (job_capture r)"
    "nj_tenant (job_capture r') = nj_tenant (job_capture r)" using assms by simp_all
  then show "nj_id r' = nj_id r" "nj_deployment r' = nj_deployment r" "nj_tenant r' = nj_tenant r"
    by (simp_all add: job_capture_def)
qed

lemma evolves_id: "evolves r r' \<Longrightarrow> nj_id r' = nj_id r"
  using job_capture_fields(1) [of r' r] by (simp add: evolves_def)

lemma evolves_refl [simp]: "evolves r r"
  by (simp add: evolves_def)

lemma evolves_trans:
  assumes "evolves a b" "evolves b c"
  shows "evolves a c"
proof -
  have "resting a \<Longrightarrow> nj_state c = nj_state a \<or> nj_state a \<in> {''dead'', ''paused''} \<and> nj_state c = ''rejected''"
  proof -
    assume a: "resting a"
    then have b: "resting b" and ab: "nj_state b = nj_state a \<or> nj_state a \<in> {''dead'', ''paused''} \<and> nj_state b = ''rejected''"
      using assms(1) by (simp_all add: evolves_def)
    then have bc: "nj_state c = nj_state b \<or> nj_state b \<in> {''dead'', ''paused''} \<and> nj_state c = ''rejected''"
      using assms(2) by (simp add: evolves_def)
    from ab show ?thesis
    proof
      assume "nj_state b = nj_state a"
      with bc show ?thesis by simp
    next
      assume "nj_state a \<in> {''dead'', ''paused''} \<and> nj_state b = ''rejected''"
      with bc show ?thesis by simp
    qed
  qed
  then show ?thesis using assms by (simp add: evolves_def)
qed

lemma settles_evolves:
  assumes "settles r r'"
  shows "evolves r r' \<and> nj_fence r' = nj_fence r \<and> nj_attempts r' = nj_attempts r"
  using assms
proof (cases rule: settlesE)
  case (change state reason eligible)
  have "resting r \<Longrightarrow> state = ''rejected'' \<and> (nj_state r = ''rejected'' \<or> nj_state r \<in> {''dead'', ''paused''})"
    using change(2) by (auto simp: resting_def allowed_change_def)
  then show ?thesis unfolding evolves_def change(1) by (simp add: job_capture_def) (auto simp: resting_def)
qed simp

lemma claimed_evolves: "nj_state r = ''running'' \<or> nj_state r = ''pending'' \<Longrightarrow> evolves r (claimed_row lease r)"
  by (auto simp: evolves_def claimed_row_def job_capture_def resting_def)

lemma job_change_rows:
  assumes "job_change db db'"
  shows "\<And>r. r \<in> set (jd_jobs db) \<Longrightarrow> \<exists>r' \<in> set (jd_jobs db'). settles r r'"
    and "\<And>r'. r' \<in> set (jd_jobs db') \<Longrightarrow>
      (\<exists>r \<in> set (jd_jobs db). settles r r') \<or> fresh_pending r' \<and> nj_id r' \<notin> nj_id ` set (jd_jobs db)"
  using assms
proof (induction rule: job_change.induct)
  case (settle db db')
  { fix r assume "r \<in> set (jd_jobs db)"
    then obtain i where "i < length (jd_jobs db)" "r = jd_jobs db ! i" by (metis in_set_conv_nth)
    then show "\<exists>r' \<in> set (jd_jobs db'). settles r r'"
      using list_all2_nthD [OF settle(1)] list_all2_lengthD [OF settle(1)] by (metis nth_mem) }
  { fix r' assume "r' \<in> set (jd_jobs db')"
    then obtain i where "i < length (jd_jobs db')" "r' = jd_jobs db' ! i" by (metis in_set_conv_nth)
    then show "(\<exists>r \<in> set (jd_jobs db). settles r r') \<or> fresh_pending r' \<and> nj_id r' \<notin> nj_id ` set (jd_jobs db)"
      using list_all2_nthD [OF settle(1)] list_all2_lengthD [OF settle(1)] by (metis nth_mem) }
qed (use settles_refl in fastforce)+

lemma evolves_change: "job_change db db' \<Longrightarrow> r \<in> set (jd_jobs db) \<Longrightarrow> \<exists>r' \<in> set (jd_jobs db'). evolves r r'"
  using job_change_rows(1) settles_evolves by blast

lemma evolves_moves: "job_moves db db' \<Longrightarrow> r \<in> set (jd_jobs db) \<Longrightarrow> \<exists>r' \<in> set (jd_jobs db'). evolves r r'"
proof (induction rule: rtranclp_induct)
  case (step y z)
  then obtain r' where "r' \<in> set (jd_jobs y)" "evolves r r'" by blast
  moreover obtain r'' where "r'' \<in> set (jd_jobs z)" "evolves r' r''" using evolves_change [OF step(2)] \<open>r' \<in> set (jd_jobs y)\<close> by blast
  ultimately show ?case using evolves_trans by blast
qed (use evolves_refl in blast)

text \<open>The row a claim takes.\<close>

lemma claim_taken:
  assumes "claim skipped d now db = Inr (Some c, db')" "job_inv db"
  obtains q where "q \<in> set (jd_jobs db)" "claimable skipped d now (has_capacity db) db q" "c = claim_of now q"
    "jd_jobs db' = map (\<lambda>r. if nj_id r = nj_id q then claimed_row (now + JOB_LEASE_MILLIS) r else r) (jd_jobs db)"
    "nj_state q = ''running'' \<or> nj_state q = ''pending''"
proof (rule claim_effect [OF assms])
  fix s
  assume "\<And>c'. Some c = Some c' \<Longrightarrow> \<exists>q. next_claimable skipped d now (has_capacity db) db = Some q \<and> nj_deployment q = d
         \<and> c' = claim_of now q \<and> now + JOB_LEASE_MILLIS \<ge> 0
         \<and> jd_jobs db' = map (\<lambda>r. if nj_id r = nj_id q then claimed_row (now + JOB_LEASE_MILLIS) r else r) (jd_jobs db)
         \<and> (\<forall>d' t. turn_of d' t db' = (if (d', t) = (d, nj_tenant q) then Some (s + 1) else turn_of d' t db))"
  then obtain q where q: "next_claimable skipped d now (has_capacity db) db = Some q" "c = claim_of now q"
      "jd_jobs db' = map (\<lambda>r. if nj_id r = nj_id q then claimed_row (now + JOB_LEASE_MILLIS) r else r) (jd_jobs db)" by blast
  have "claimable skipped d now (has_capacity db) db q" using next_claimable_Some(2) [OF q(1)] .
  then have "nj_state q = ''running'' \<or> nj_state q = ''pending''" unfolding claimable_def by blast
  then show thesis using that next_claimable_Some(1,2) [OF q(1)] q(2,3) by blast
qed

lemma evolves_step:
  assumes "job_step env s s'" "job_inv (fst s)" "r \<in> set (jd_jobs (fst s))"
  shows "\<exists>r' \<in> set (jd_jobs (fst s')). evolves r r'"
  using assms(1)
proof (cases rule: job_step.cases)
  case (op db db' cs)
  then show ?thesis using assms(2,3) job_op_moves evolves_moves by fastforce
next
  case (idle now skipped d db db' cs)
  have "job_inv db" using assms(2) idle(1) by simp
  from claim_move [OF idle(4) this idle(3)] show ?thesis using assms(3) idle(1,2) evolves_change by simp
next
  case (claim now skipped d db c db' cs)
  have inv: "job_inv db" and r: "r \<in> set (jd_jobs db)" using assms(2,3) claim(1) by simp_all
  obtain q where q: "q \<in> set (jd_jobs db)" "nj_state q = ''running'' \<or> nj_state q = ''pending''"
      "jd_jobs db' = map (\<lambda>r. if nj_id r = nj_id q then claimed_row (now + JOB_LEASE_MILLIS) r else r) (jd_jobs db)"
    using claim_taken [OF claim(4) inv] by blast
  show ?thesis
  proof (cases "nj_id r = nj_id q")
    case True
    then have "r = q" by (rule job_inv_unique [OF inv r q(1)])
    moreover have "claimed_row (now + JOB_LEASE_MILLIS) q \<in> set (jd_jobs db')" using q(1,3) by force
    ultimately show ?thesis using claimed_evolves [OF q(2)] claim(2) by auto
  next
    case False
    then have "r \<in> set (jd_jobs db')" using r q(3) by force
    then show ?thesis using claim(2) by (intro bexI [of _ r]) simp_all
  qed
qed

lemma evolves_run:
  assumes "job_run env s s'" "job_inv (fst s)" "r \<in> set (jd_jobs (fst s))"
  shows "\<exists>r' \<in> set (jd_jobs (fst s')). evolves r r'"
  using assms
proof (induction rule: rtranclp_induct)
  case (step y z)
  then obtain r' where r': "r' \<in> set (jd_jobs (fst y))" "evolves r r'" by blast
  have "job_inv (fst y)" using job_run_inv step by blast
  from evolves_step [OF step(2) this r'(1)] r'(2) evolves_trans show ?case by blast
qed (use evolves_refl in blast)

section \<open>The history of claims\<close>

definition claims_of :: "string \<Rightarrow> job_claim list \<Rightarrow> job_claim list" where
  "claims_of i cs = filter (\<lambda>c. cl_id c = i) cs"

definition history_inv :: "job_db \<Rightarrow> job_claim list \<Rightarrow> bool" where
  "history_inv db cs \<longleftrightarrow>
     (\<forall>c \<in> set cs. \<exists>r \<in> set (jd_jobs db). nj_id r = cl_id c \<and> cl_fence c \<le> nj_fence r)
     \<and> distinct (map (\<lambda>c. (cl_id c, cl_fence c)) cs)
     \<and> (\<forall>r \<in> set (jd_jobs db). int (length (filter (\<lambda>c. \<not> cl_exhausted c) (claims_of (nj_id r) cs))) = nj_attempts r
          \<and> int (length (claims_of (nj_id r) cs)) = nj_fence r)"

lemma history_claimD: "history_inv db cs \<Longrightarrow> c \<in> set cs \<Longrightarrow> \<exists>r \<in> set (jd_jobs db). nj_id r = cl_id c \<and> cl_fence c \<le> nj_fence r"
  unfolding history_inv_def by (elim conjE) (erule (1) bspec)

lemma history_countD:
  "history_inv db cs \<Longrightarrow> r \<in> set (jd_jobs db) \<Longrightarrow>
    int (length (filter (\<lambda>c. \<not> cl_exhausted c) (claims_of (nj_id r) cs))) = nj_attempts r \<and> int (length (claims_of (nj_id r) cs)) = nj_fence r"
  unfolding history_inv_def by (elim conjE) (erule (1) bspec)

lemma history_distinctD: "history_inv db cs \<Longrightarrow> distinct (map (\<lambda>c. (cl_id c, cl_fence c)) cs)"
  unfolding history_inv_def by (elim conjE)

lemma history_change:
  assumes c: "job_change db db'" and h: "history_inv db cs"
  shows "history_inv db' cs"
proof -
  have kept: "\<exists>r \<in> set (jd_jobs db'). nj_id r = cl_id c \<and> cl_fence c \<le> nj_fence r" if known: "c \<in> set cs" for c
  proof -
    obtain r where r: "r \<in> set (jd_jobs db)" "nj_id r = cl_id c" "cl_fence c \<le> nj_fence r" using history_claimD [OF h known] by blast
    then obtain r' where "r' \<in> set (jd_jobs db')" "settles r r'" using job_change_rows(1) [OF c] by blast
    then show ?thesis using r settles_evolves settles_id by metis
  qed
  have counts: "int (length (filter (\<lambda>c. \<not> cl_exhausted c) (claims_of (nj_id r') cs))) = nj_attempts r'
      \<and> int (length (claims_of (nj_id r') cs)) = nj_fence r'" if r': "r' \<in> set (jd_jobs db')" for r'
    using job_change_rows(2) [OF c r']
  proof
    assume "\<exists>r \<in> set (jd_jobs db). settles r r'"
    then obtain r where r: "r \<in> set (jd_jobs db)" "settles r r'" by blast
    have "nj_id r' = nj_id r" using settles_id r(2) .
    moreover have "nj_fence r' = nj_fence r \<and> nj_attempts r' = nj_attempts r" using settles_evolves [OF r(2)] by blast
    ultimately show ?thesis using history_countD [OF h r(1)] by metis
  next
    assume f: "fresh_pending r' \<and> nj_id r' \<notin> nj_id ` set (jd_jobs db)"
    have "claims_of (nj_id r') cs = []"
      unfolding claims_of_def filter_empty_conv using f history_claimD [OF h] by (metis image_eqI)
    then show ?thesis using f by (simp add: fresh_pending_def)
  qed
  have "distinct (map (\<lambda>c. (cl_id c, cl_fence c)) cs)" by (rule history_distinctD [OF h])
  with kept counts show ?thesis unfolding history_inv_def by blast
qed

lemma history_moves: "job_moves db db' \<Longrightarrow> history_inv db cs \<Longrightarrow> history_inv db' cs"
  by (induction rule: rtranclp_induct) (auto intro: history_change)

lemma history_claim:
  assumes run: "claim skipped d now db = Inr (Some c, db')" and inv: "job_inv db" and h: "history_inv db cs"
  shows "history_inv db' (c # cs)"
proof -
  obtain q where q: "q \<in> set (jd_jobs db)" "c = claim_of now q"
      "jd_jobs db' = map (\<lambda>r. if nj_id r = nj_id q then claimed_row (now + JOB_LEASE_MILLIS) r else r) (jd_jobs db)"
    using claim_taken [OF run inv] by blast
  let ?f = "\<lambda>r. if nj_id r = nj_id q then claimed_row (now + JOB_LEASE_MILLIS) r else r"
  have c: "cl_id c = nj_id q" "cl_fence c = nj_fence q + 1" "cl_exhausted c = (MAX_JOB_ATTEMPTS \<le> nj_attempts q)"
    using q(2) by (simp_all add: claim_of_def)
  have old: "cl_fence x \<le> nj_fence q" if x: "x \<in> set cs" "cl_id x = nj_id q" for x
  proof -
    obtain r where r: "r \<in> set (jd_jobs db)" "nj_id r = cl_id x" "cl_fence x \<le> nj_fence r" using history_claimD [OF h x(1)] by blast
    then have "r = q" using job_inv_unique [OF inv r(1) q(1)] x(2) by simp
    with r(3) show ?thesis by simp
  qed
  have "\<exists>r \<in> set (jd_jobs db'). nj_id r = cl_id x \<and> cl_fence x \<le> nj_fence r" if member: "x \<in> set (c # cs)" for x
  proof (cases "cl_id x = nj_id q")
    case True
    have "?f q \<in> set (jd_jobs db')" using q(1,3) by simp
    moreover have "cl_fence x \<le> nj_fence (?f q)"
    proof (cases "x = c")
      case False
      then have "cl_fence x \<le> nj_fence q" using old [of x] member True by simp
      then show ?thesis by (simp add: claimed_row_def)
    qed (simp add: c claimed_row_def)
    ultimately show ?thesis using True by (intro bexI [of _ "?f q"]) simp_all
  next
    case False
    then have "x \<in> set cs" using member c(1) by auto
    then obtain r where r: "r \<in> set (jd_jobs db)" "nj_id r = cl_id x" "cl_fence x \<le> nj_fence r"
      using history_claimD [OF h] by blast
    then have "r \<in> set (jd_jobs db')" using q(3) False by force
    with r show ?thesis by blast
  qed
  moreover have "distinct (map (\<lambda>c. (cl_id c, cl_fence c)) (c # cs))"
  proof -
    have "(cl_id c, cl_fence c) \<noteq> (cl_id x, cl_fence x)" if x: "x \<in> set cs" for x
    proof
      assume "(cl_id c, cl_fence c) = (cl_id x, cl_fence x)"
      then have "cl_id x = nj_id q" "cl_fence x = nj_fence q + 1" using c by simp_all
      then show False using old [OF x] by simp
    qed
    then have "(cl_id c, cl_fence c) \<notin> (\<lambda>c. (cl_id c, cl_fence c)) ` set cs" by blast
    then show ?thesis using history_distinctD [OF h] unfolding list.map distinct.simps set_map by blast
  qed
  moreover have "int (length (filter (\<lambda>c. \<not> cl_exhausted c) (claims_of (nj_id r') (c # cs)))) = nj_attempts r'
      \<and> int (length (claims_of (nj_id r') (c # cs))) = nj_fence r'" if found: "r' \<in> set (jd_jobs db')" for r'
  proof -
    obtain r where r: "r \<in> set (jd_jobs db)" "r' = ?f r" using found unfolding q(3) set_map by blast
    have n: "int (length (filter (\<lambda>c. \<not> cl_exhausted c) (claims_of (nj_id r) cs))) = nj_attempts r"
        "int (length (claims_of (nj_id r) cs)) = nj_fence r" using history_countD [OF h r(1)] by blast+
    show ?thesis
    proof (cases "nj_id r = nj_id q")
      case True
      then have rq: "r = q" by (rule job_inv_unique [OF inv r(1) q(1)])
      then have r': "r' = claimed_row (now + JOB_LEASE_MILLIS) q" using r(2) by simp
      have "claims_of (nj_id r') (c # cs) = c # claims_of (nj_id q) cs" using c(1) r' by (simp add: claims_of_def)
      moreover have "nj_fence r' = nj_fence q + 1" "nj_attempts r' = nj_attempts q + (if cl_exhausted c then 0 else 1)"
        unfolding r' using c(3) by (simp_all add: claimed_row_def)
      ultimately show ?thesis using n unfolding rq by (cases "cl_exhausted c") simp_all
    next
      case False
      then have "r' = r" "claims_of (nj_id r) (c # cs) = claims_of (nj_id r) cs" using r(2) c(1) by (simp_all add: claims_of_def)
      with n show ?thesis by simp
    qed
  qed
  ultimately show ?thesis unfolding history_inv_def by blast
qed

lemma history_step:
  assumes "job_step env s s'" "job_inv (fst s)" "history_inv (fst s) (snd s)"
  shows "history_inv (fst s') (snd s')"
  using assms(1)
proof (cases rule: job_step.cases)
  case (op db db' cs)
  then show ?thesis using assms(2,3) job_op_moves history_moves by fastforce
next
  case (idle now skipped d db db' cs)
  have "job_inv db" using assms(2) idle(1) by simp
  from claim_move [OF idle(4) this idle(3)] show ?thesis using assms(3) idle(1,2) history_change by simp
next
  case (claim now skipped d db c db' cs)
  then show ?thesis using assms(2,3) history_claim by fastforce
qed

lemma job_reach_history: "job_reach env (db, cs) \<Longrightarrow> history_inv db cs"
proof -
  assume "job_reach env (db, cs)"
  then have "job_inv (fst (db, cs)) \<and> history_inv (fst (db, cs)) (snd (db, cs))"
  proof (induction rule: rtranclp_induct)
    case base
    show ?case using empty_queue_inv by (simp add: history_inv_def empty_queue_def)
  next
    case (step y z)
    then show ?case using job_step_inv history_step by blast
  qed
  then show ?thesis by simp
qed

end
