(* ===== verification/Job_Guarantees.thy ===== *)
theory Job_Guarantees
  imports Job_System
begin

text \<open>
  What the job queue promises in every reachable state, each time with a concrete run of the
  operations on which it can be seen.
\<close>

section \<open>A concrete run\<close>

definition demo_job :: "string \<Rightarrow> captured_job" where
  "demo_job tenant =
     \<lparr>cj_scope = \<lparr>js_deployment = ''g1'', js_tenant = tenant\<rparr>, cj_origin = ''o_'' @ tenant, cj_ordinal = 0, cj_source_action = 1,
      cj_worker = ''mailer'', cj_action = 7, cj_action_version = 1, cj_contract = ''c1'', cj_grant_version = 1, cj_epoch = ''e1'',
      cj_due = 0, cj_input = [], cj_targets = [], cj_reconciled_from = None\<rparr>"

definition demo_worker :: service_worker where
  "demo_worker = \<lparr>sw_name = ''mailer'', sw_actions = [\<lparr>wa_action = 7, wa_targets = []\<rparr>]\<rparr>"

definition demo_grant :: "string \<Rightarrow> service_grant" where
  "demo_grant tenant =
     \<lparr>gr_scope = \<lparr>js_deployment = ''g1'', js_tenant = tenant\<rparr>, gr_worker = demo_worker, gr_version = 1, gr_contract = ''c1'', gr_epoch = ''e1''\<rparr>"

definition demo_env :: job_env where
  "demo_env =
     \<lparr>je_job_json = (\<lambda>j. ''{}'' @ js_tenant (cj_scope j)), je_job_parse = (\<lambda>s. Some (demo_job (drop 2 s))),
      je_grant_json = (\<lambda>g. ''{}'' @ js_tenant (gr_scope g)), je_grant_parse = (\<lambda>s. Some (demo_grant (drop 2 s))),
      je_digest = (\<lambda>d. case d of DJob _ origin _ \<Rightarrow> origin | _ \<Rightarrow> ''d''), je_sample = (\<lambda>_. 0)\<rparr>"

definition demo_queue :: "nat \<Rightarrow> int \<Rightarrow> (string \<times> int) list \<Rightarrow> job_row list \<Rightarrow> job_db" where
  "demo_queue calls turn tenants jobs =
     \<lparr>jd_generation = Some ''g1'', jd_runtime = Some (runtime_of ''g1'' ''c1'' ''e1'' ''active'' default_job_limits), jd_queue = Some turn,
      jd_grants = map (\<lambda>t. stored_grant_row demo_env (demo_grant t) ''active'') [''zeta'', ''acme''],
      jd_tenants = map (\<lambda>(t, n). \<lparr>nt_deployment = ''g1'', nt_tenant = t, nt_claim_seq = n\<rparr>) tenants, jd_jobs = jobs,
      jd_recurring = [], jd_occurrences = [], jd_receipts = [], jd_creation = None, jd_calls = calls\<rparr>"

definition demo_row :: "string \<Rightarrow> string \<Rightarrow> int \<Rightarrow> int \<Rightarrow> job_row" where
  "demo_row tenant state fence lease =
     (pending_row demo_env (demo_job tenant) 0)\<lparr>nj_state := state, nj_attempts := fence, nj_fence := fence, nj_lease_until_ms := lease\<rparr>"

definition demo_claim :: "string \<Rightarrow> int \<Rightarrow> timestamp \<Rightarrow> job_claim" where
  "demo_claim tenant fence lease =
     \<lparr>cl_id = ''j1_o_'' @ tenant, cl_scope = \<lparr>js_deployment = ''g1'', js_tenant = tenant\<rparr>, cl_fence = fence, cl_lease_until = lease,
      cl_exhausted = False\<rparr>"

text \<open>Two tenants enqueue a job each; three claims follow, the last one of a job whose lease has expired.\<close>

definition demo_start :: job_db where "demo_start = demo_queue 100 0 [] []"
definition demo_one :: job_db where "demo_one = demo_queue 99 0 [(''acme'', 0)] [demo_row ''acme'' ''pending'' 0 0]"
definition demo_two :: job_db where
  "demo_two = demo_queue 98 0 [(''zeta'', 0), (''acme'', 0)] [demo_row ''zeta'' ''pending'' 0 0, demo_row ''acme'' ''pending'' 0 0]"
definition demo_first :: job_db where
  "demo_first = demo_queue 97 1 [(''zeta'', 0), (''acme'', 1)] [demo_row ''zeta'' ''pending'' 0 0, demo_row ''acme'' ''running'' 1 31000]"
definition demo_second :: job_db where
  "demo_second = demo_queue 96 2 [(''zeta'', 2), (''acme'', 1)] [demo_row ''zeta'' ''running'' 1 70000, demo_row ''acme'' ''running'' 1 31000]"
definition demo_third :: job_db where
  "demo_third = demo_queue 95 3 [(''zeta'', 2), (''acme'', 3)] [demo_row ''zeta'' ''running'' 1 70000, demo_row ''acme'' ''running'' 2 120000]"
definition demo_cancelled :: job_db where
  "demo_cancelled = demo_queue 95 3 [(''zeta'', 2), (''acme'', 3)]
     [demo_row ''zeta'' ''running'' 1 70000, (demo_row ''acme'' ''rejected'' 2 0)\<lparr>nj_reason := ''operator_cancelled''\<rparr>]"
definition demo_later :: job_db where
  "demo_later = demo_queue 94 4 [(''zeta'', 4), (''acme'', 3)]
     [demo_row ''zeta'' ''running'' 2 230000, (demo_row ''acme'' ''rejected'' 2 0)\<lparr>nj_reason := ''operator_cancelled''\<rparr>]"

abbreviation demo_claims :: "job_claim list" where
  "demo_claims \<equiv> [demo_claim ''acme'' 2 120000, demo_claim ''zeta'' 1 70000, demo_claim ''acme'' 1 31000]"

lemma demo_activation:
  "activate_jobs demo_env ''g1'' ''c1''
     (Some \<lparr>ef_limits = default_job_limits, ef_grants = [\<lparr>eg_tenant = ''acme'', eg_worker = demo_worker\<rparr>, \<lparr>eg_tenant = ''zeta'', eg_worker = demo_worker\<rparr>]\<rparr>)
     (Some \<lparr>jc_workers = [demo_worker], jc_schedules = [], jc_recurring = []\<rparr>) False ''e1'' ''e2'' empty_queue
   = Inr ((), demo_start\<lparr>jd_generation := None, jd_calls := 0\<rparr>)"
  by code_simp

lemma demo_enqueues:
  "enqueue demo_env (demo_job ''acme'') 0 1000 demo_start = Inr (True, demo_one)"
  "enqueue demo_env (demo_job ''zeta'') 0 1000 demo_one = Inr (True, demo_two)"
  by code_simp+

lemma demo_claimed:
  "claim [] ''g1'' 1000 demo_two = Inr (Some (demo_claim ''acme'' 1 31000), demo_first)"
  "claim [] ''g1'' 40000 demo_first = Inr (Some (demo_claim ''zeta'' 1 70000), demo_second)"
  "claim [] ''g1'' 90000 demo_second = Inr (Some (demo_claim ''acme'' 2 120000), demo_third)"
  "claim [] ''g1'' 200000 demo_cancelled = Inr (Some (demo_claim ''zeta'' 2 230000), demo_later)"
  by code_simp+

lemma demo_cancels: "cancel_job ''g1'' ''j1_o_acme'' demo_third = Inr ((), demo_cancelled)"
  by code_simp

lemma demo_two_reach: "job_reach demo_env (demo_two, [])"
proof -
  let ?d = "demo_start\<lparr>jd_generation := None, jd_calls := 0\<rparr>"
  have start: "?d\<lparr>jd_receipts := [], jd_generation := Some ''g1'', jd_creation := None, jd_calls := 100\<rparr> = demo_start"
    by (simp add: demo_start_def demo_queue_def)
  have "job_step demo_env (?d, []) (demo_start, [])"
    using job_step.op [OF job_op.world [where env = demo_env and db = ?d and receipts = "[]" and deployed = "Some ''g1''" and counter = None and calls = 100]] by (simp only: start)
  then show ?thesis
    using job_step.op [OF job_op.activate [OF demo_activation]] job_step.op [OF job_op.enqueue [OF demo_enqueues(1)]]
      job_step.op [OF job_op.enqueue [OF demo_enqueues(2)]]
    by (meson converse_rtranclp_into_rtranclp r_into_rtranclp)
qed

lemma demo_third_reach: "job_reach demo_env (demo_third, demo_claims)"
  using demo_two_reach job_step.claim [OF _ demo_claimed(1)] job_step.claim [OF _ demo_claimed(2)] job_step.claim [OF _ demo_claimed(3)]
  by (meson rtranclp.rtrancl_into_rtrancl zero_le_numeral)

lemma demo_later_run: "job_run demo_env (demo_cancelled, cs) (demo_later, demo_claim ''zeta'' 2 230000 # cs)"
  by (rule r_into_rtranclp, rule job_step.claim [OF _ demo_claimed(4)]) simp

section \<open>The queue is bounded\<close>

text \<open>C33: In every state reachable by interleaving the operations of the queue, the operator commands and
  the recurrence scans (with any claims, batches and clock readings as arguments), job identities are
  unique, at most 1000 jobs are active, at most as many run as the runtime row allows and never more
  than two, no job has more than five attempts or more attempts than its fence, and a job holds a
  lease exactly while it runs.\<close>

theorem job_queue_bounded:
  assumes "job_reach env (db, cs)"
  shows "distinct (map nj_id (jd_jobs db))
    \<and> length (filter active_job (jd_jobs db)) \<le> MAX_PENDING_JOBS
    \<and> int (length (filter (\<lambda>r. nj_state r = ''running'') (jd_jobs db))) \<le> (case jd_runtime db of None \<Rightarrow> 0 | Some rt \<Rightarrow> jr_concurrency rt)
    \<and> length (filter (\<lambda>r. nj_state r = ''running'') (jd_jobs db)) \<le> MAX_WORKERS_PER_APP
    \<and> (\<forall>r \<in> set (jd_jobs db). 0 \<le> nj_attempts r \<and> nj_attempts r \<le> MAX_JOB_ATTEMPTS \<and> nj_attempts r \<le> nj_fence r
         \<and> (nj_state r = ''running'' \<longleftrightarrow> nj_lease_until_ms r > 0) \<and> (nj_state r = ''pending'' \<longrightarrow> nj_attempts r < MAX_JOB_ATTEMPTS))"
proof -
  have inv: "job_inv db" using assms by (rule job_reach_inv)
  then have rows: "\<And>r. r \<in> set (jd_jobs db) \<Longrightarrow> row_inv r" by (simp add: job_inv_def list_all_iff)
  have shape: "0 \<le> nj_attempts r \<and> nj_attempts r \<le> MAX_JOB_ATTEMPTS \<and> nj_attempts r \<le> nj_fence r
      \<and> (nj_state r = ''running'' \<longleftrightarrow> nj_lease_until_ms r > 0) \<and> (nj_state r = ''pending'' \<longrightarrow> nj_attempts r < MAX_JOB_ATTEMPTS)"
    if "row_inv r" for r
    using that by (cases "nj_state r = ''running''"; cases "nj_state r = ''pending''") (simp_all add: row_inv_def)
  show ?thesis using inv shape [OF rows] by (auto simp: job_inv_def active_jobs_def running_jobs_def split: option.splits)
qed

theorem job_queue_bounded_witness:
  "length (filter (\<lambda>r. nj_state r = ''running'') (jd_jobs demo_third)) = 2
    \<and> length (filter (\<lambda>r. nj_state r = ''running'') (jd_jobs demo_third)) \<le> MAX_WORKERS_PER_APP"
proof -
  have "length (filter (\<lambda>r. nj_state r = ''running'') (jd_jobs demo_third)) = 2" by code_simp
  with job_queue_bounded [OF demo_third_reach] show ?thesis by blast
qed

section \<open>A settled job stays settled\<close>

lemma evolves_restingD:
  "evolves r r' \<Longrightarrow> resting r \<Longrightarrow> nj_fence r' = nj_fence r
    \<and> (nj_state r' = nj_state r \<or> nj_state r \<in> {''dead'', ''paused''} \<and> nj_state r' = ''rejected'')"
  unfolding evolves_def by blast

text \<open>C34: A job is never lost or rewritten: whatever runs after it was enqueued, its captured columns stay, its
  fence and attempts only grow, a succeeded or rejected job keeps state and fence for ever, and a dead
  or paused one can only become rejected (by an operator), never run again.\<close>

theorem settled_job_final:
  assumes "job_reach env (db, cs)" "job_run env (db, cs) (db', cs')" "r \<in> set (jd_jobs db)"
  shows "\<exists>r' \<in> set (jd_jobs db'). job_capture r' = job_capture r \<and> nj_fence r \<le> nj_fence r' \<and> nj_attempts r \<le> nj_attempts r'
    \<and> (nj_state r \<in> {''succeeded'', ''rejected''} \<longrightarrow> nj_state r' = nj_state r \<and> nj_fence r' = nj_fence r)
    \<and> (nj_state r \<in> {''dead'', ''paused''} \<longrightarrow> nj_state r' \<in> {nj_state r, ''rejected''} \<and> nj_fence r' = nj_fence r)"
proof -
  obtain r' where r': "r' \<in> set (jd_jobs db')" "evolves r r'"
    using evolves_run [OF assms(2)] job_reach_inv [OF assms(1)] assms(3) by auto
  have kept: "job_capture r' = job_capture r" "nj_fence r \<le> nj_fence r'" "nj_attempts r \<le> nj_attempts r'"
    using r'(2) by (simp_all add: evolves_def)
  show ?thesis
  proof (cases "resting r")
    case False
    then have "nj_state r \<notin> {''succeeded'', ''rejected''}" "nj_state r \<notin> {''dead'', ''paused''}" by (simp_all add: resting_def)
    with kept show ?thesis by (intro bexI [OF _ r'(1)]) blast
  next
    case True
    note rest = evolves_restingD [OF r'(2) True]
    have "nj_state r' = nj_state r" if "nj_state r \<in> {''succeeded'', ''rejected''}"
    proof -
      have "nj_state r \<notin> {''dead'', ''paused''}" using that by (elim insertE) simp_all
      with rest show ?thesis by blast
    qed
    with kept rest show ?thesis by (intro bexI [OF _ r'(1)]) blast
  qed
qed

theorem settled_job_final_witness:
  "\<exists>r' \<in> set (jd_jobs demo_later). nj_id r' = ''j1_o_acme'' \<and> nj_state r' = ''rejected'' \<and> nj_fence r' = 2"
proof -
  let ?r = "(demo_row ''acme'' ''rejected'' 2 0)\<lparr>nj_reason := ''operator_cancelled''\<rparr>"
  have reach: "job_reach demo_env (demo_cancelled, demo_claims)"
    using demo_third_reach job_step.op [OF job_op.cancel [OF demo_cancels]] by (meson rtranclp.rtrancl_into_rtrancl)
  have r: "?r \<in> set (jd_jobs demo_cancelled)" by (simp add: demo_cancelled_def demo_queue_def)
  have f: "nj_id ?r = ''j1_o_acme''" "nj_state ?r = ''rejected''" "nj_fence ?r = 2" by code_simp+
  have "nj_state ?r \<in> {''succeeded'', ''rejected''}" unfolding f by simp
  with settled_job_final [OF reach demo_later_run r]
  obtain r' where r': "r' \<in> set (jd_jobs demo_later)" "job_capture r' = job_capture ?r" "nj_state r' = nj_state ?r" "nj_fence r' = nj_fence ?r"
    by blast
  show ?thesis using r'(3,4) job_capture_fields(1) [OF r'(2)] unfolding f by (intro bexI [OF _ r'(1)] conjI)
qed

section \<open>A superseded claim can do nothing\<close>

lemma stale_row:
  assumes "job_reach env (db, cs)" "c \<in> set cs" "c' \<in> set cs" "cl_id c' = cl_id c" "cl_fence c < cl_fence c'"
    and r: "r \<in> set (jd_jobs db)" "in_scope (cl_id c) s r"
  shows "nj_fence r \<noteq> cl_fence c"
proof -
  obtain r' where r': "r' \<in> set (jd_jobs db)" "nj_id r' = cl_id c'" "cl_fence c' \<le> nj_fence r'"
    using history_claimD [OF job_reach_history [OF assms(1)] assms(3)] by blast
  have "r' = r" using job_inv_unique [OF job_reach_inv [OF assms(1)] r'(1) r(1)] r(2) r'(2) assms(4) by (simp add: in_scope_def)
  then show ?thesis using r'(3) assms(5) by simp
qed

lemma read_row_fence:
  assumes "read_row env c db = Inr v"
  obtains r where "r \<in> set (jd_jobs db)" "in_scope (cl_id c) (cl_scope c) r" "nj_fence r = cl_fence c"
proof -
  obtain q where q: "find (in_scope (cl_id c) (cl_scope c)) (jd_jobs db) = Some q" "nj_fence q = cl_fence c"
    using assms by (auto simp: read_row_def res_simps column_integer_Inr Let_def split: if_splits)
  then have "q \<in> set (jd_jobs db)" "in_scope (cl_id c) (cl_scope c) q" by (auto simp: find_Some_iff)
  from that [OF this q(2)] show thesis .
qed

lemma lock_row_jobs:
  assumes "lock_row env c db = Inr (v, db')"
  shows "db' = db"
proof -
  have "(\<lambda>r. if in_scope i s r \<and> nj_fence r = f then r else r) = (\<lambda>r. r)" for i s f by auto
  then show ?thesis using assms
    by (auto simp: lock_row_def lock_job_fence_def update_jobs_def res_simps map_idI split: if_splits prod.splits)
qed

lemma charge_Inr: "charge db = Inr (u, db') \<longleftrightarrow> jd_calls db > 0 \<and> db' = db\<lparr>jd_calls := jd_calls db - 1\<rparr>"
  by (auto simp: charge_def)

lemma stale_read:
  assumes "\<And>r. r \<in> set (jd_jobs db) \<Longrightarrow> in_scope (cl_id c) (cl_scope c) r \<Longrightarrow> nj_fence r \<noteq> cl_fence c"
  shows "\<not> is_ok (read_row env c db)"
proof
  assume "is_ok (read_row env c db)"
  then obtain v where "read_row env c db = Inr v" by (auto simp: is_ok_iff)
  from read_row_fence [OF this] assms show False by metis
qed

text \<open>C35: Once a job has been claimed again, the earlier claim is fenced off: starting it, completing it and
  failing it are all refused, even when the stale worker still holds a verified job.  No two claims
  ever carry the same fence of a job, and at most five of its claims may execute it.\<close>

theorem stale_claim_fenced:
  assumes "job_reach env (db, cs)" "c \<in> set cs" "c' \<in> set cs" "cl_id c' = cl_id c" "cl_fence c < cl_fence c'"
  shows "\<not> is_ok (lock_execution env deadline_ok c sample_time validate_receipt db)
    \<and> \<not> is_ok (fail env c now f validate_outcome db)
    \<and> (vj_claim w = c \<longrightarrow> \<not> is_ok (succeed env w validate_outcome db))
    \<and> distinct (map (\<lambda>c. (cl_id c, cl_fence c)) cs)
    \<and> int (length (filter (\<lambda>x. cl_id x = cl_id c \<and> \<not> cl_exhausted x) cs)) \<le> MAX_JOB_ATTEMPTS"
proof -
  let ?d = "db\<lparr>jd_calls := jd_calls db - 1\<rparr>"
  have read: "\<not> is_ok (read_row env c ?d)"
    by (rule stale_read) (use stale_row [OF assms] in simp)
  have lock: "\<not> is_ok (lock_row env c ?d)"
    using read lock_row_jobs lock_row_read by (metis is_ok_iff surj_pair)
  have "\<not> is_ok (lock_execution env deadline_ok c sample_time validate_receipt db)"
    using read by (auto simp: lock_execution_def is_ok_iff res_simps charge_Inr)
  moreover have "\<not> is_ok (fail env c now f validate_outcome db)"
    using read by (auto simp: fail_def is_ok_iff res_simps charge_Inr)
  moreover have "\<not> is_ok (succeed env w validate_outcome db)" if "vj_claim w = c"
    using lock that by (auto simp: succeed_def is_ok_iff res_simps charge_Inr)
  moreover have "int (length (filter (\<lambda>x. cl_id x = cl_id c \<and> \<not> cl_exhausted x) cs)) \<le> MAX_JOB_ATTEMPTS"
  proof -
    note h = job_reach_history [OF assms(1)]
    obtain r where r: "r \<in> set (jd_jobs db)" "nj_id r = cl_id c" using history_claimD [OF h assms(2)] by blast
    have "filter (\<lambda>x. cl_id x = cl_id c \<and> \<not> cl_exhausted x) cs = filter (\<lambda>x. \<not> cl_exhausted x) (claims_of (nj_id r) cs)"
      using r(2) by (simp add: claims_of_def conj_commute)
    moreover have "nj_attempts r \<le> MAX_JOB_ATTEMPTS"
      using job_reach_inv [OF assms(1)] r(1) by (auto simp: job_inv_def list_all_iff row_inv_def)
    ultimately show ?thesis using history_countD [OF h r(1)] by simp
  qed
  ultimately show ?thesis using history_distinctD [OF job_reach_history [OF assms(1)]] by blast
qed

theorem stale_claim_fenced_witness:
  "is_ok (lock_execution demo_env True (demo_claim ''acme'' 2 120000) (\<lambda>n. Inr (90001, n)) (\<lambda>_ _. Inr ()) demo_third)
    \<and> \<not> is_ok (lock_execution demo_env True (demo_claim ''acme'' 1 31000) (\<lambda>n. Inr (90001, n)) (\<lambda>_ _. Inr ()) demo_third)"
proof -
  have "cl_id (demo_claim ''acme'' 2 120000) = cl_id (demo_claim ''acme'' 1 31000)"
    "cl_fence (demo_claim ''acme'' 1 31000) < cl_fence (demo_claim ''acme'' 2 120000)" by (simp_all add: demo_claim_def)
  from stale_claim_fenced [OF demo_third_reach _ _ this]
  have "\<not> is_ok (lock_execution demo_env True (demo_claim ''acme'' 1 31000) (\<lambda>n. Inr (90001, n)) (\<lambda>_ _. Inr ()) demo_third)" by simp
  moreover have "is_ok (lock_execution demo_env True (demo_claim ''acme'' 2 120000) (\<lambda>n. Inr (90001, n)) (\<lambda>_ _. Inr ()) demo_third)"
    by code_simp
  ultimately show ?thesis by blast
qed

end
