(* ===== verification/Job_Fairness.thy ===== *)
theory Job_Fairness
  imports Job_Guarantees
begin

text \<open>
  The order in which \<open>claim\<close> serves tenants: a tenant with claimable work is passed over at most once
  by each other tenant, whatever else happens in between.
\<close>

section \<open>Waiting\<close>

text \<open>
  \<open>passed_over env d t s ts s'\<close>: the run from \<open>s\<close> to \<open>s'\<close> never claims a job of tenant \<open>t\<close>, and \<open>ts\<close> are the
  tenants of the claims it made at moments when \<open>t\<close> had a job the same claim could have taken.
\<close>

inductive passed_over ::
  "job_env \<Rightarrow> string \<Rightarrow> string \<Rightarrow> job_db \<times> job_claim list \<Rightarrow> string list \<Rightarrow> job_db \<times> job_claim list \<Rightarrow> bool"
  for env d t s where
  start: "passed_over env d t s [] s"
| other: "passed_over env d t s ts s' \<Longrightarrow> job_step env s' s'' \<Longrightarrow> snd s'' = snd s' \<or> cl_scope (hd (snd s'')) \<noteq> \<lparr>js_deployment = d, js_tenant = t\<rparr>
     \<Longrightarrow> passed_over env d t s ts s''"
| passed: "passed_over env d t s ts (db, cs) \<Longrightarrow> 0 \<le> now \<Longrightarrow> r \<in> set (jd_jobs db) \<Longrightarrow> nj_tenant r = t
     \<Longrightarrow> claimable skipped d now (has_capacity db) db r \<Longrightarrow> claim skipped d now db = Inr (Some c, db') \<Longrightarrow> js_tenant (cl_scope c) \<noteq> t
     \<Longrightarrow> passed_over env d t s (js_tenant (cl_scope c) # ts) (db', c # cs)"

definition ahead :: "string \<Rightarrow> string \<Rightarrow> job_db \<Rightarrow> string \<Rightarrow> bool" where
  "ahead d t db t' \<longleftrightarrow> (\<exists>a b. turn_of d t db = Some a \<and> turn_of d t' db = Some b \<and> a < b)"

lemma turn_of_row: "tenant_seq db r = turn_of (nj_deployment r) (nj_tenant r) db"
  by (simp add: tenant_seq_def turn_of_def)

lemma ahead_kept: "turns_kept db db' \<Longrightarrow> ahead d t db t' \<Longrightarrow> ahead d t db' t'"
  unfolding turns_kept_def ahead_def by blast

lemma job_change_turns: "job_change db db' \<Longrightarrow> turns_kept db db'"
  by (auto elim: job_change.cases)

lemma ahead_moves: "job_moves db db' \<Longrightarrow> ahead d t db t' \<Longrightarrow> ahead d t db' t'"
  by (induction rule: rtranclp_induct) (auto intro: ahead_kept job_change_turns)

text \<open>What one claim does to the turns.\<close>

lemma claim_turns:
  assumes "claim skipped d now db = Inr (Some c, db')" "job_inv db"
  obtains q s where "next_claimable skipped d now (has_capacity db) db = Some q" "jd_queue db = Some s"
    "cl_scope c = \<lparr>js_deployment = d, js_tenant = nj_tenant q\<rparr>" "nj_deployment q = d"
    "\<And>d' t. turn_of d' t db' = (if (d', t) = (d, nj_tenant q) then Some (s + 1) else turn_of d' t db)"
proof (rule claim_effect [OF assms])
  fix s
  assume s: "jd_queue db = Some s"
    and "\<And>c'. Some c = Some c' \<Longrightarrow> \<exists>q. next_claimable skipped d now (has_capacity db) db = Some q \<and> nj_deployment q = d
         \<and> c' = claim_of now q \<and> now + JOB_LEASE_MILLIS \<ge> 0
         \<and> jd_jobs db' = map (\<lambda>r. if nj_id r = nj_id q then claimed_row (now + JOB_LEASE_MILLIS) r else r) (jd_jobs db)
         \<and> (\<forall>d' t. turn_of d' t db' = (if (d', t) = (d, nj_tenant q) then Some (s + 1) else turn_of d' t db))"
  then obtain q where q: "next_claimable skipped d now (has_capacity db) db = Some q" "nj_deployment q = d" "c = claim_of now q"
    "\<And>d' t. turn_of d' t db' = (if (d', t) = (d, nj_tenant q) then Some (s + 1) else turn_of d' t db)" by blast
  show thesis by (rule that [OF q(1) s _ q(2) q(4)]) (simp add: q(2,3) claim_of_def)
qed

lemma turn_below: "job_inv db \<Longrightarrow> jd_queue db = Some s \<Longrightarrow> turn_of d t db = Some a \<Longrightarrow> a \<le> s"
  unfolding job_inv_def turns_inv_def by force

lemma ahead_claim:
  assumes run: "claim skipped d' now db = Inr (Some c, db')" and inv: "job_inv db"
    and other: "cl_scope c \<noteq> \<lparr>js_deployment = d, js_tenant = t\<rparr>" and a: "ahead d t db t'"
  shows "ahead d t db' t'"
proof -
  obtain q s where "next_claimable skipped d' now (has_capacity db) db = Some q" and q: "jd_queue db = Some s"
    "cl_scope c = \<lparr>js_deployment = d', js_tenant = nj_tenant q\<rparr>" and "nj_deployment q = d'"
    and turns: "\<And>d'' t. turn_of d'' t db' = (if (d'', t) = (d', nj_tenant q) then Some (s + 1) else turn_of d'' t db)"
    by (rule claim_turns [OF run inv]) (rule that)
  note q = q turns
  obtain a b where ab: "turn_of d t db = Some a" "turn_of d t' db = Some b" "a < b" using a unfolding ahead_def by blast
  have "(d, t) \<noteq> (d', nj_tenant q)" using other q(2) by auto
  then have t: "turn_of d t db' = Some a" using q(3) [of d t] ab(1) by (simp only: if_False)
  show ?thesis
  proof (cases "(d, t') = (d', nj_tenant q)")
    case True
    then have "turn_of d t' db' = Some (s + 1)" using q(3) [of d t'] by simp
    then show ?thesis using t turn_below [OF inv q(1) ab(1)] unfolding ahead_def by force
  next
    case False
    then have "turn_of d t' db' = Some b" using q(3) [of d t'] ab(2) by (simp only: if_False)
    then show ?thesis using t ab(3) unfolding ahead_def by blast
  qed
qed

lemma ahead_step:
  assumes "job_step env s s'" "job_inv (fst s)" "snd s' = snd s \<or> cl_scope (hd (snd s')) \<noteq> \<lparr>js_deployment = d, js_tenant = t\<rparr>"
    "ahead d t (fst s) t'"
  shows "ahead d t (fst s') t'"
  using assms(1)
proof (cases rule: job_step.cases)
  case (op db db' cs)
  then show ?thesis using assms(2,4) job_op_moves ahead_moves by fastforce
next
  case (idle now skipped d' db db' cs)
  have "job_inv db" using assms(2) idle(1) by simp
  from claim_move [OF idle(4) this idle(3)] have "turns_kept db db'" using job_change_turns by simp
  then show ?thesis using assms(4) idle(1,2) ahead_kept by simp
next
  case (claim now skipped d' db c db' cs)
  then have "cl_scope c \<noteq> \<lparr>js_deployment = d, js_tenant = t\<rparr>" "job_inv db" "ahead d t db t'" using assms(2-4) by auto
  then show ?thesis using ahead_claim [OF claim(4)] claim(2) by simp
qed

lemma passing_turn:
  assumes run: "claim skipped d now db = Inr (Some c, db')" and inv: "job_inv db"
    and r: "r \<in> set (jd_jobs db)" "nj_tenant r = t" "claimable skipped d now (has_capacity db) db r"
    and other: "js_tenant (cl_scope c) \<noteq> t"
  shows "\<not> ahead d t db (js_tenant (cl_scope c))" "ahead d t db' (js_tenant (cl_scope c))"
proof -
  obtain q s where q: "next_claimable skipped d now (has_capacity db) db = Some q" "jd_queue db = Some s"
    "cl_scope c = \<lparr>js_deployment = d, js_tenant = nj_tenant q\<rparr>" "nj_deployment q = d"
    "\<And>d' t. turn_of d' t db' = (if (d', t) = (d, nj_tenant q) then Some (s + 1) else turn_of d' t db)"
    by (rule claim_turns [OF run inv]) (rule that)
  have q': "tenant_seq db q \<noteq> None" using next_claimable_Some(2) [OF q(1)] unfolding claimable_def by blast
  have r': "tenant_seq db r \<noteq> None" "nj_deployment r = d" using r(3) unfolding claimable_def by blast+
  obtain b where b: "turn_of d (nj_tenant q) db = Some b" using q' q(4) turn_of_row by auto
  obtain a where a: "turn_of d t db = Some a" using r' r(2) turn_of_row by auto
  have "claim_key db q \<le> claim_key db r" by (rule next_claimable_Some(3) [OF q(1) r(1,3)])
  then have "b \<le> a" using a b q(4) r(2) r'(2) by (auto simp: claim_key_def turn_of_row)
  then show "\<not> ahead d t db (js_tenant (cl_scope c))" using a b q(3) by (simp add: ahead_def)
  have "turn_of d t db' = Some a" using q(5) [of d t] other q(3) a by auto
  moreover have "turn_of d (nj_tenant q) db' = Some (s + 1)" using q(5) [of d "nj_tenant q"] by simp
  ultimately show "ahead d t db' (js_tenant (cl_scope c))" using turn_below [OF inv q(2) a] q(3) unfolding ahead_def by force
qed

lemma passed_over_run: "passed_over env d t s ts s' \<Longrightarrow> job_run env s s'"
  by (induction rule: passed_over.induct) (auto intro: rtranclp.rtrancl_into_rtrancl job_step.claim)

lemma passed_over_ahead:
  assumes "passed_over env d t s ts s'" "job_inv (fst s)"
  shows "distinct ts \<and> t \<notin> set ts \<and> (\<forall>t' \<in> set ts. ahead d t (fst s') t')"
  using assms
proof (induction rule: passed_over.induct)
  case (other ts s' s'')
  have "job_inv (fst s')" using passed_over_run [OF other(1)] other.prems job_run_inv by blast
  then show ?case using other ahead_step by blast
next
  case (passed ts db cs now r skipped c db')
  let ?t = "js_tenant (cl_scope c)"
  have inv: "job_inv db" using passed_over_run [OF passed(1)] passed.prems job_run_inv [of env s "(db, cs)"] by simp
  have ih: "distinct ts" "t \<notin> set ts" "\<And>t'. t' \<in> set ts \<Longrightarrow> ahead d t db t'" using passed by simp_all
  note new = passing_turn [OF passed(6) inv passed(3,4,5,7)]
  have "cl_scope c \<noteq> \<lparr>js_deployment = d, js_tenant = t\<rparr>" using passed(7) by (metis job_scope.select_convs(2))
  from ahead_claim [OF passed(6) inv this] have "ahead d t db' t'" if "t' \<in> set ts" for t' using ih(3) [OF that] by blast
  moreover have "?t \<notin> set ts" using ih(3) new(1) by blast
  ultimately show ?case using ih(1,2) new(2) passed(7) by simp
qed simp

text \<open>C38: Claiming is fair between tenants: along any run in which a tenant is not served, each other tenant is
  preferred at most once at moments when that tenant had a job the claim could have taken, so it is
  passed over at most as often as the deployment has other tenants.\<close>

theorem claim_fair:
  assumes "job_reach env s" "passed_over env d t s ts (db, cs)"
  shows "distinct ts \<and> t \<notin> set ts
    \<and> length ts \<le> length (filter (\<lambda>x. nt_deployment x = d \<and> nt_tenant x \<noteq> t) (jd_tenants db))"
proof -
  have "job_inv (fst s)" using assms(1) job_reach_inv [of env "fst s" "snd s"] by simp
  from passed_over_ahead [OF assms(2) this]
  have ts: "distinct ts" "t \<notin> set ts" "\<And>t'. t' \<in> set ts \<Longrightarrow> ahead d t db t'" by simp_all
  let ?rows = "filter (\<lambda>x. nt_deployment x = d \<and> nt_tenant x \<noteq> t) (jd_tenants db)"
  have "set ts \<subseteq> nt_tenant ` set ?rows"
  proof
    fix t' assume t': "t' \<in> set ts"
    then obtain b where "turn_of d t' db = Some b" using ts(3) unfolding ahead_def by blast
    then obtain x where "x \<in> set (jd_tenants db)" "nt_deployment x = d" "nt_tenant x = t'"
      by (auto simp: turn_of_def find_Some_iff) (metis nth_mem)
    moreover have "t' \<noteq> t" using t' ts(2) by blast
    ultimately show "t' \<in> nt_tenant ` set ?rows" by force
  qed
  then have "card (set ts) \<le> card (nt_tenant ` set ?rows)" by (intro card_mono) simp_all
  also have "\<dots> \<le> length ?rows" using card_image_le [of "set ?rows" nt_tenant] card_length [of ?rows] by simp
  finally have "card (set ts) \<le> length ?rows" .
  then show ?thesis using ts(1,2) by (simp add: distinct_card)
qed

theorem claim_fair_witness:
  "passed_over demo_env ''g1'' ''zeta'' (demo_two, []) [''acme''] (demo_first, [demo_claim ''acme'' 1 31000])
    \<and> 1 \<le> length (filter (\<lambda>x. nt_deployment x = ''g1'' \<and> nt_tenant x \<noteq> ''zeta'') (jd_tenants demo_first))"
proof -
  let ?r = "demo_row ''zeta'' ''pending'' 0 0"
  have r: "?r \<in> set (jd_jobs demo_two)" by (simp add: demo_two_def demo_queue_def)
  have t: "nj_tenant ?r = ''zeta''" "claimable [] ''g1'' 1000 (has_capacity demo_two) demo_two ?r" by code_simp+
  have acme: "js_tenant (cl_scope (demo_claim ''acme'' 1 31000)) = ''acme''" by (simp add: demo_claim_def)
  then have "js_tenant (cl_scope (demo_claim ''acme'' 1 31000)) \<noteq> ''zeta''" by simp
  from passed_over.passed [OF passed_over.start _ r t demo_claimed(1) this]
  have run: "passed_over demo_env ''g1'' ''zeta'' (demo_two, []) [''acme''] (demo_first, [demo_claim ''acme'' 1 31000])"
    using acme by simp
  from claim_fair [OF demo_two_reach run] run show ?thesis by simp
qed

end
