(* ===== verification/Job_Admission.thy ===== *)
theory Job_Admission
  imports Job_Guarantees
begin

text \<open>What it takes for a job to enter the queue and for a claimed job to run.\<close>

section \<open>Enqueueing\<close>

lemma live_runtime_cong: "jd_runtime db' = jd_runtime db \<Longrightarrow> jd_generation db' = jd_generation db \<Longrightarrow> live_runtime db' = live_runtime db"
  by (cases "jd_runtime db") (simp_all add: live_runtime_def)

lemma snapshot_cong: "jd_runtime db' = jd_runtime db \<Longrightarrow> jd_generation db' = jd_generation db \<Longrightarrow> runtime_snapshot_of s db' = runtime_snapshot_of s db"
  unfolding runtime_snapshot_of_def by (drule (1) live_runtime_cong) simp

lemma lock_grant_cong: "jd_grants db' = jd_grants db \<Longrightarrow> lock_grant env s w db' = lock_grant env s w db"
  by (simp add: lock_grant_def)

lemma charge_fields:
  "runtime_snapshot_of s (db\<lparr>jd_calls := n\<rparr>) = runtime_snapshot_of s db" "lock_grant env s w (db\<lparr>jd_calls := n\<rparr>) = lock_grant env s w db"
  by (rule snapshot_cong lock_grant_cong; simp)+

text \<open>An admitted enqueue inserts the pending row and nothing else but the tenant's turn row.\<close>

lemma enqueue_True:
  assumes "enqueue env j now limit db = Inr (True, db')"
  obtains tenants r g where
    "runtime_snapshot_of (cj_scope j) db = Inr r" "ru_state r = ''active''" "ru_contract r = cj_contract j" "ru_epoch r = cj_epoch j"
    "lock_grant env (cj_scope j) (cj_worker j) db = Inr (g, ''active'')" "permits g j = Inr ()" "job_validate env j = Inr ()"
    "is_ok (add_millis now MAX_SCHEDULE_HORIZON_MILLIS)" "cj_due j \<le> now + MAX_SCHEDULE_HORIZON_MILLIS" "jd_queue db \<noteq> None"
    "fst (active_job_counts (js_tenant (cj_scope j)) db) < ru_pending_limit r"
    "snd (active_job_counts (js_tenant (cj_scope j)) db) < min (int limit) (ru_tenant_limit r)"
    "job_id env j \<notin> nj_id ` set (jd_jobs db)" "jd_calls db > 0"
    "db' = db\<lparr>jd_calls := jd_calls db - 1, jd_tenants := tenants, jd_jobs := pending_row env j now # jd_jobs db\<rparr>"
proof -
  let ?d = "db\<lparr>jd_calls := jd_calls db - 1\<rparr>"
  obtain h r g state where e: "jd_calls db > 0" "job_validate env j = Inr ()" "add_millis now MAX_SCHEDULE_HORIZON_MILLIS = Inr h"
      "cj_due j \<le> h" "runtime_snapshot_of (cj_scope j) db = Inr r" "ru_state r = ''active''" "ru_contract r = cj_contract j" "ru_epoch r = cj_epoch j"
      "jd_queue db \<noteq> None" "lock_grant env (cj_scope j) (cj_worker j) db = Inr (g, state)" "state = ''active''" "permits g j = Inr ()"
    and new: "find (\<lambda>q. nj_id q = job_id env j) (jd_jobs db) = None"
    and counts: "fst (active_job_counts (js_tenant (cj_scope j)) ?d) < ru_pending_limit r"
      "snd (active_job_counts (js_tenant (cj_scope j)) ?d) < min (int limit) (ru_tenant_limit r)"
    and ins: "\<exists>d1 n m. ensure_tenant (js_deployment (cj_scope j)) (js_tenant (cj_scope j)) ?d = Inr (n, d1)
      \<and> insert_job (pending_row env j now) d1 = Inr (m, db')"
    using assms unfolding enqueue_def
    by (auto simp: res_simps charge_Inr charge_fields split: option.splits if_splits prod.splits)
  obtain d1 n m where d1: "ensure_tenant (js_deployment (cj_scope j)) (js_tenant (cj_scope j)) ?d = Inr (n, d1)"
    and d2: "insert_job (pending_row env j now) d1 = Inr (m, db')" using ins by blast
  obtain tenants where t: "d1 = ?d\<lparr>jd_tenants := tenants\<rparr>"
  proof -
    have "d1 = ?d\<lparr>jd_tenants := jd_tenants d1\<rparr>" using d1 by (auto simp: ensure_tenant_def split: if_splits)
    with that show thesis by blast
  qed
  have "db' = d1\<lparr>jd_jobs := pending_row env j now # jd_jobs d1\<rparr>" using d2 by (simp add: insert_job_def split: if_splits)
  then have db': "db' = db\<lparr>jd_calls := jd_calls db - 1, jd_tenants := tenants, jd_jobs := pending_row env j now # jd_jobs db\<rparr>"
    using t by simp
  have fresh: "job_id env j \<notin> nj_id ` set (jd_jobs db)" using new by (auto simp: find_None_iff)
  have due: "cj_due j \<le> now + MAX_SCHEDULE_HORIZON_MILLIS" using add_millis_Inr [OF e(3)] e(4) by simp
  have horizon: "is_ok (add_millis now MAX_SCHEDULE_HORIZON_MILLIS)" using e(3) by simp
  have active: "active_job_counts t ?d = active_job_counts t db" for t by (simp add: active_job_counts_def)
  show thesis by (rule that [OF e(5-8) _ e(12,2) horizon due e(9) counts [unfolded active] fresh e(1) db']) (use e(10,11) in simp)
qed

text \<open>C36: Enqueueing is idempotent: after an enqueue that inserted a job (within the quota of the queue), the
  same capture can be offered again at the same time, under any valid limit, and leaves the database
  as it is, while another capture with the same identity is refused.\<close>

theorem enqueue_once:
  assumes "enqueue env j now limit db = Inr (True, db1)" "1 \<le> limit'" "limit' \<le> MAX_PENDING_JOBS"
  shows "pending_row env j now \<in> set (jd_jobs db1) \<and> length (filter (\<lambda>r. nj_id r = job_id env j) (jd_jobs db1)) = 1
    \<and> fst (active_job_counts (js_tenant (cj_scope j)) db) < int MAX_PENDING_JOBS
    \<and> enqueue env j now limit' (db1\<lparr>jd_calls := Suc n\<rparr>) = Inr (False, db1\<lparr>jd_calls := n\<rparr>)
    \<and> (job_id env j' = job_id env j \<and> invocation_digest env j' \<noteq> invocation_digest env j
        \<longrightarrow> \<not> is_ok (enqueue env j' now' limit' db1))"
proof -
  obtain tenants r g where e: "runtime_snapshot_of (cj_scope j) db = Inr r" "ru_state r = ''active''" "ru_contract r = cj_contract j" "ru_epoch r = cj_epoch j"
    "lock_grant env (cj_scope j) (cj_worker j) db = Inr (g, ''active'')" "permits g j = Inr ()" "job_validate env j = Inr ()"
    "is_ok (add_millis now MAX_SCHEDULE_HORIZON_MILLIS)" "cj_due j \<le> now + MAX_SCHEDULE_HORIZON_MILLIS" "jd_queue db \<noteq> None"
    "fst (active_job_counts (js_tenant (cj_scope j)) db) < ru_pending_limit r" "job_id env j \<notin> nj_id ` set (jd_jobs db)"
    and db1: "db1 = db\<lparr>jd_calls := jd_calls db - 1, jd_tenants := tenants, jd_jobs := pending_row env j now # jd_jobs db\<rparr>"
    using enqueue_True [OF assms(1)] by metis
  have same: "runtime_snapshot_of s (db1\<lparr>jd_calls := m\<rparr>) = runtime_snapshot_of s db" "lock_grant env s w (db1\<lparr>jd_calls := m\<rparr>) = lock_grant env s w db" for s w m
    unfolding db1 by (rule snapshot_cong lock_grant_cong; simp)+
  have row: "nj_id (pending_row env j now) = job_id env j" "nj_payload_digest (pending_row env j now) = invocation_digest env j"
    by (simp_all add: pending_row_def)
  have found: "find (\<lambda>q. nj_id q = job_id env j) (jd_jobs db1) = Some (pending_row env j now)" unfolding db1 by (simp add: row)
  have horizon: "add_millis now MAX_SCHEDULE_HORIZON_MILLIS = Inr (now + MAX_SCHEDULE_HORIZON_MILLIS)"
    using e(8) add_millis_Inr by (auto simp: is_ok_iff)
  have queue: "jd_queue db1 \<noteq> None" using e(10) db1 by simp
  have retry: "enqueue env j now limit' (db1\<lparr>jd_calls := Suc n\<rparr>) = Inr (False, db1\<lparr>jd_calls := n\<rparr>)"
    using assms(2,3) e(1-7,9) horizon queue found row by (simp add: enqueue_def charge_def same)
  have clash: "\<not> is_ok (enqueue env j' now' limit' db1)"
    if other: "job_id env j' = job_id env j" "invocation_digest env j' \<noteq> invocation_digest env j"
  proof
    assume "is_ok (enqueue env j' now' limit' db1)"
    then show False using found other row
      by (auto simp: is_ok_iff enqueue_def res_simps charge_Inr split: if_splits prod.splits)
  qed
  have "ru_pending_limit r \<le> int MAX_PENDING_JOBS" using snapshot_limits [OF e(1)] by auto
  moreover have "filter (\<lambda>r. nj_id r = job_id env j) (jd_jobs db) = []" using e(12) by (force simp: filter_empty_conv)
  ultimately show ?thesis using e(11) retry clash by (simp add: db1 row)
qed

theorem enqueue_once_witness:
  "enqueue demo_env (demo_job ''acme'') 0 5 (demo_one\<lparr>jd_calls := Suc 3\<rparr>) = Inr (False, demo_one\<lparr>jd_calls := 3\<rparr>)"
  using enqueue_once [OF demo_enqueues(1), of 5 3] by (simp add: MAX_PENDING_JOBS_def)

section \<open>Running\<close>

lemma millis_read: "time_res (from_unix_millis n) = Inr t \<Longrightarrow> t = n"
  by (auto simp: time_res_def from_unix_millis_def timestamp_try_from_def split: sum.splits if_splits)

lemma find_member: "find P xs = Some x \<Longrightarrow> x \<in> set xs \<and> P x"
  by (auto simp: find_Some_iff)

lemma read_row_cases:
  assumes "read_row env c db = Inr v"
  obtains r where "find (in_scope (cl_id c) (cl_scope c)) (jd_jobs db) = Some r" "nj_fence r = cl_fence c" "jv_state v = nj_state r"
    "job_id env (jv_job v) = cl_id c" "cj_scope (jv_job v) = cl_scope c" "invocation_digest env (jv_job v) = nj_payload_digest r"
    "jv_first_eligible v = nj_first_eligible_ms r" "jv_lease_until v = nj_lease_until_ms r" "nj_state r = ''running'' \<longrightarrow> nj_lease_until_ms r = cl_lease_until c"
  using assms by (auto simp: read_row_def row_identity_def res_simps column_integer_Inr Let_def dest!: millis_read split: if_splits)

lemma lock_grant_cases:
  assumes "lock_grant env s w db = Inr (g, state)"
  obtains row where "row \<in> set (jd_grants db)" "grant_row_key s w row" "ng_state row = state" "je_grant_parse env (ng_declaration row) = Some g"
proof -
  obtain row where "find (grant_row_key s w) (jd_grants db) = Some row" "ng_state row = state" "je_grant_parse env (ng_declaration row) = Some g"
    using assms by (auto simp: lock_grant_def bounded_text_def res_simps split: if_splits)
  then show thesis using that find_member by metis
qed

text \<open>C37: A claim is handed to the executor only when, in that transaction, its row is running under the very
  fence and lease of the claim with an unaltered capture, the lease and the 24 hour retry window are
  open at the sampled time, attempts are left, the live runtime is active under the job's contract and
  epoch, an active grant permits the job, and no receipt of the job exists.\<close>

theorem ready_is_authorised:
  assumes "lock_execution env deadline_ok c sample_time validate_receipt db = Inr ((j, ExReady w), db')"
  shows "vj_claim w = c \<and> vj_job w = j \<and> deadline_ok \<and> \<not> cl_exhausted c \<and> jd_jobs db' = jd_jobs db
    \<and> (\<exists>r \<in> set (jd_jobs db). in_scope (cl_id c) (cl_scope c) r \<and> nj_state r = ''running'' \<and> nj_fence r = cl_fence c
         \<and> job_id env j = nj_id r \<and> cj_scope j = cl_scope c \<and> invocation_digest env j = nj_payload_digest r
         \<and> (\<exists>now calls. sample_time (jd_calls db - 1) = Inr (now, calls) \<and> now < nj_lease_until_ms r
              \<and> nj_lease_until_ms r = cl_lease_until c \<and> now < nj_first_eligible_ms r + JOB_RETRY_WINDOW_MILLIS))
    \<and> (\<exists>rt. jd_runtime db = Some rt \<and> jd_generation db = Some (jr_deployment rt) \<and> jr_deployment rt = js_deployment (cl_scope c)
         \<and> jr_state rt = ''active'' \<and> jr_contract rt = cj_contract j \<and> jr_epoch rt = cj_epoch j)
    \<and> (\<exists>row \<in> set (jd_grants db). grant_row_key (cl_scope c) (cj_worker j) row \<and> ng_state row = ''active''
         \<and> je_grant_parse env (ng_declaration row) = Some (vj_grant w)) \<and> permits (vj_grant w) j = Inr ()
    \<and> (\<forall>x \<in> set (jd_receipts db). rx_nonce x \<noteq> job_id env j)"
proof -
  let ?d = "db\<lparr>jd_calls := jd_calls db - 1\<rparr>"
  obtain rt preview g gs v db1 now calls e where
      rt: "runtime_snapshot_of (cl_scope c) ?d = Inr rt" and p: "read_row env c ?d = Inr preview"
      and g: "lock_grant env (cl_scope c) (cj_worker (jv_job preview)) ?d = Inr (g, gs)" and v: "lock_row env c ?d = Inr (v, db1)"
      and none: "receipt env v (validate_receipt (jv_job v)) db1 = Inr None" and t: "sample_time (jd_calls db1) = Inr (now, calls)"
      and run: "jv_state v = ''running''" "now < jv_lease_until v" and auth: "\<not> authority_changed rt g gs (jv_job v)"
      and win: "add_millis (jv_first_eligible v) JOB_RETRY_WINDOW_MILLIS = Inr e" "\<not> now \<ge> e" "\<not> cl_exhausted c"
      and out: "j = jv_job v" "w = \<lparr>vj_claim = c, vj_job = jv_job v, vj_grant = g\<rparr>" "db' = db1\<lparr>jd_calls := calls\<rparr>" "deadline_ok"
    using assms unfolding lock_execution_def
    by (auto simp: res_simps charge_Inr Let_def split: option.splits if_splits prod.splits)
  have db1: "db1 = ?d" using lock_row_jobs [OF v] .
  have same: "read_row env c ?d = Inr v" using lock_row_read [OF v] db1 by simp
  then have pv: "preview = v" using p by simp
  obtain r where r: "find (in_scope (cl_id c) (cl_scope c)) (jd_jobs ?d) = Some r" "nj_fence r = cl_fence c" "jv_state v = nj_state r"
    "job_id env (jv_job v) = cl_id c" "cj_scope (jv_job v) = cl_scope c" "invocation_digest env (jv_job v) = nj_payload_digest r"
    "jv_first_eligible v = nj_first_eligible_ms r" "jv_lease_until v = nj_lease_until_ms r" "nj_state r = ''running'' \<longrightarrow> nj_lease_until_ms r = cl_lease_until c"
    by (rule read_row_cases [OF same])
  have r': "r \<in> set (jd_jobs db)" "in_scope (cl_id c) (cl_scope c) r" using r(1) by (auto simp: find_Some_iff)
  then have rid: "nj_id r = cl_id c" by (simp add: in_scope_def)
  have "now < nj_first_eligible_ms r + JOB_RETRY_WINDOW_MILLIS" using win(2) add_millis_Inr [OF win(1)] r(7) by simp
  moreover have "sample_time (jd_calls db - 1) = Inr (now, calls)" using t db1 by simp
  ultimately have row: "\<exists>r \<in> set (jd_jobs db). in_scope (cl_id c) (cl_scope c) r \<and> nj_state r = ''running'' \<and> nj_fence r = cl_fence c
         \<and> job_id env j = nj_id r \<and> cj_scope j = cl_scope c \<and> invocation_digest env j = nj_payload_digest r
         \<and> (\<exists>now calls. sample_time (jd_calls db - 1) = Inr (now, calls) \<and> now < nj_lease_until_ms r
              \<and> nj_lease_until_ms r = cl_lease_until c \<and> now < nj_first_eligible_ms r + JOB_RETRY_WINDOW_MILLIS)"
    using r' r rid run out(1) by (intro bexI [OF _ r'(1)]) auto
  have a: "ru_state rt = ''active''" "cj_contract j = ru_contract rt" "cj_epoch j = ru_epoch rt" "gs = ''active''" "permits g j = Inr ()"
    using auth out(1) by (auto simp: authority_changed_def is_ok_iff)
  have runtime: "\<exists>rt. jd_runtime db = Some rt \<and> jd_generation db = Some (jr_deployment rt) \<and> jr_deployment rt = js_deployment (cl_scope c)
         \<and> jr_state rt = ''active'' \<and> jr_contract rt = cj_contract j \<and> jr_epoch rt = cj_epoch j"
    using snapshot_limits [OF rt] a(1-3) by auto
  obtain gr where gr: "gr \<in> set (jd_grants ?d)" "grant_row_key (cl_scope c) (cj_worker (jv_job preview)) gr" "ng_state gr = gs"
      "je_grant_parse env (ng_declaration gr) = Some g" by (rule lock_grant_cases [OF g])
  have grant: "\<exists>row \<in> set (jd_grants db). grant_row_key (cl_scope c) (cj_worker j) row \<and> ng_state row = ''active''
         \<and> je_grant_parse env (ng_declaration row) = Some (vj_grant w)"
    using gr a(4) pv out(1,2) by (intro bexI [of _ gr]) simp_all
  have "find (\<lambda>x. rx_nonce x = job_id env j) (jd_receipts db) = None"
    using none out(1) db1 by (auto simp: receipt_def res_simps split: option.splits if_splits)
  then have "\<forall>x \<in> set (jd_receipts db). rx_nonce x \<noteq> job_id env j" by (auto simp: find_None_iff)
  with row runtime grant a(5) win(3) out db1 show ?thesis by simp
qed

theorem ready_is_authorised_witness:
  "case lock_execution demo_env True (demo_claim ''acme'' 2 120000) (\<lambda>n. Inr (90001, n)) (\<lambda>_ _. Inr ()) demo_third of
     Inr ((j, ExReady w), _) \<Rightarrow> j = demo_job ''acme'' \<and> permits (vj_grant w) j = Inr () \<and> \<not> cl_exhausted (demo_claim ''acme'' 2 120000)
   | _ \<Rightarrow> False"
proof -
  let ?x = "lock_execution demo_env True (demo_claim ''acme'' 2 120000) (\<lambda>n. Inr (90001, n)) (\<lambda>_ _. Inr ()) demo_third"
  have "case ?x of Inr ((j, ExReady w), _) \<Rightarrow> j = demo_job ''acme'' | _ \<Rightarrow> False" by code_simp
  then obtain w d where x: "?x = Inr ((demo_job ''acme'', ExReady w), d)" by (cases ?x) (auto split: prod.splits execution.splits)
  from ready_is_authorised [OF x] show ?thesis unfolding x by simp
qed

end
