(* ===== verification/Resource_Admission.thy ===== *)
theory Resource_Admission
  imports Manifest Policy "HOL-Library.Product_Lexorder"
begin

text \<open>
  Admission of the declared resources: \<open>validate_contract_limits\<close>, \<open>validate_resources\<close> and
  \<open>validate_resource_gates\<close> of \<^verbatim>\<open>crates/noxide-admission/src/manifest.rs\<close>, resource expiry
  (\<^verbatim>\<open>expiry.rs\<close>) and membership declarations (\<^verbatim>\<open>membership.rs\<close>), joined as in
  \<^verbatim>\<open>manifest/authority.rs\<close>.  A \<open>BTreeSet\<close> that only detects repetition is a set.
\<close>

section \<open>Identifiers and limits\<close>

fun unique_from :: "nat set \<Rightarrow> nat list \<Rightarrow> unit res" where
  "unique_from seen [] = Inr ()"
| "unique_from seen (n # ns) =
     ensure (n \<noteq> 0 \<and> n \<notin> seen) ''duplicate or zero identifier'' (unique_from (insert n seen) ns)"

definition unique :: "nat list \<Rightarrow> unit res" where
  "unique = unique_from {}"

definition starts_with :: "string \<Rightarrow> string \<Rightarrow> bool" where
  "starts_with s p \<longleftrightarrow> take (length p) s = p"

definition validate_contract_limits :: "manifest \<Rightarrow> unit res" where
  "validate_contract_limits m =
     ensure (list_all (\<lambda>r. \<not> starts_with (rt_path r) ''/_noxide/assets'' \<and> rt_path r \<noteq> ''/_noxide/download'') (mf_routes m))
       ''reserved asset path''
     (ensure (mf_resources m \<noteq> [] \<and> length (mf_resources m) \<le> 16) ''resource limit''
     (ensure (length (mf_routes m) \<le> 32) ''route limit''
     (ensure (mf_routes m \<noteq> [] \<or> mf_actions m \<noteq> []) ''empty application''
     (ensure (length (mf_operations m) \<le> 64 \<and> length (mf_actions m) \<le> 32 \<and> length (mf_web_bindings m) \<le> 32) ''contract limit''
     (and_then (unique (map re_id (mf_resources m))) (\<lambda>_.
      and_then (unique (map op_id (mf_operations m))) (\<lambda>_.
      and_then (unique (map rt_route_id (mf_routes m))) (\<lambda>_.
      and_then (unique (map ac_id (mf_actions m))) (\<lambda>_.
      unique (map wb_id (mf_web_bindings m)))))))))))"

section \<open>Fields\<close>

fun default_kind :: "field_kind \<Rightarrow> bool" where
  "default_kind KBoolean = True"
| "default_kind (KChoice _) = True"
| "default_kind _ = False"

fun is_account :: "field_kind \<Rightarrow> bool" where
  "is_account (KAccount _) = True"
| "is_account _ = False"

definition initial_ok :: "text_field \<Rightarrow> unit res" where
  "initial_ok f =
     (case tf_initial f of
        None \<Rightarrow> Inr ()
      | Some v \<Rightarrow>
          ensure (\<not> tf_optional f \<and> default_kind (tf_kind f)) ''initial requires a non-optional boolean or choice''
          (ensure (field_canonical f v = Inr v) ''invalid initial value'' (Inr ())))"

definition label_ok :: "string \<Rightarrow> bool" where
  "label_ok l \<longleftrightarrow> l \<noteq> [] \<and> length l \<le> 128 \<and> \<not> has_any_control l"

fun variants_ok :: "string \<Rightarrow> string \<Rightarrow> nat \<Rightarrow> string set \<Rightarrow> choice_variant list \<Rightarrow> unit res" where
  "variants_ok key_error label_error max_bytes keys [] = Inr ()"
| "variants_ok key_error label_error max_bytes keys (v # vs) =
     ensure (is_identifier (cv_key v) \<and> cv_key v \<notin> keys \<and> length (cv_key v) \<le> max_bytes) key_error
     (ensure (label_ok (cv_label v)) label_error
       (variants_ok key_error label_error max_bytes (insert (cv_key v) keys) vs))"

definition bounds_ordered :: "int option \<Rightarrow> int option \<Rightarrow> bool" where
  "bounds_ordered lo hi \<longleftrightarrow> (case (lo, hi) of (Some lo, Some hi) \<Rightarrow> lo \<le> hi | _ \<Rightarrow> True)"

definition field_kind_ok :: "manifest \<Rightarrow> text_field \<Rightarrow> unit res" where
  "field_kind_ok m f =
     (case tf_kind f of
        KUploadHandle _ \<Rightarrow> Inl ''upload handles are action inputs only''
      | KBlob max_bytes \<Rightarrow>
          ensure (max_bytes > 0 \<and> max_bytes \<le> MAX_UPLOAD_BYTES \<and> tf_max_bytes f = 67 \<and> tf_initial f = None)
            ''invalid Blob field'' (Inr ())
      | KReference key \<Rightarrow>
          ensure (\<not> tf_optional f \<and> tf_initial f = None \<and> tf_max_bytes f \<ge> 19)
            ''reference must be required without defaults and hold an ID''
          (ensure (list_ex (\<lambda>r. re_name r = key) (mf_resources m)) ''unknown reference resource'' (Inr ()))
      | KAccount _ \<Rightarrow>
          ensure (\<not> tf_optional f \<and> tf_initial f = None \<and> tf_max_bytes f \<ge> 43)
            ''account fields must be required without defaults'' (Inr ())
      | KText \<Rightarrow> Inr ()
      | KTimestamp \<Rightarrow> ensure (tf_max_bytes f \<ge> 20) ''timestamp field budget'' (Inr ())
      | KDuration max_millis \<Rightarrow> ensure (tf_max_bytes f \<ge> 20 \<and> max_millis \<ge> 0) ''duration field schema'' (Inr ())
      | KBoolean \<Rightarrow> ensure (tf_max_bytes f \<ge> 5) ''boolean field budget'' (Inr ())
      | KInteger lo hi \<Rightarrow> ensure (tf_max_bytes f \<ge> 20 \<and> bounds_ordered lo hi) ''integer schema'' (Inr ())
      | KChoice variants \<Rightarrow>
          ensure (variants \<noteq> [] \<and> length variants \<le> 32) ''choice limit''
            (variants_ok ''choice key'' ''choice label'' (tf_max_bytes f) {} variants))"

fun fields_ok :: "manifest \<Rightarrow> string set \<Rightarrow> text_field list \<Rightarrow> unit res" where
  "fields_ok m names [] = Inr ()"
| "fields_ok m names (f # fs) =
     ensure (is_identifier (tf_name f) \<and> tf_name f \<notin> names) ''invalid field''
     (ensure (tf_max_bytes f > 0 \<and> tf_max_bytes f \<le> 4096) ''field limit''
     (and_then (field_kind_ok m f) (\<lambda>_.
      ensure (label_ok (tf_label f)) ''invalid label'' (fields_ok m (insert (tf_name f) names) fs))))"

section \<open>Resources\<close>

definition resource_ok :: "manifest \<Rightarrow> string set \<Rightarrow> resource \<Rightarrow> unit res" where
  "resource_ok m keys r =
     and_then (each_ok initial_ok (re_fields r)) (\<lambda>_.
     ensure (is_identifier (re_name r) \<and> re_name r \<notin> keys \<and> re_fields r \<noteq> [] \<and> length (re_fields r) \<le> 8) ''invalid resource''
     (ensure (length (filter is_reference (re_fields r)) \<le> 4) ''reference field limit''
     (ensure (length (filter (\<lambda>f. is_account (tf_kind f)) (re_fields r)) \<le> 4) ''account field limit''
     (and_then (fields_ok m {} (re_fields r)) (\<lambda>_.
      ensure (sum_list (map tf_max_bytes (re_fields r)) \<le> 8192) ''record limit'' (Inr ()))))))"

fun resources_from :: "manifest \<Rightarrow> string set \<Rightarrow> resource list \<Rightarrow> unit res" where
  "resources_from m keys [] = Inr ()"
| "resources_from m keys (r # rs) =
     and_then (resource_ok m keys r) (\<lambda>_. resources_from m (insert (re_name r) keys) rs)"

definition validate_resources :: "manifest \<Rightarrow> unit res" where
  "validate_resources m = resources_from m {} (mf_resources m)"

definition gate_predicate_ok :: "resource \<Rightarrow> visibility \<Rightarrow> unit res" where
  "gate_predicate_ok target p =
     and_then (ok_or (resource_field target (vs_field p)) ''unknown gate predicate field'') (\<lambda>f.
     ensure (default_kind (tf_kind f) \<and> field_canonical f (vs_equals p) = Inr (vs_equals p)) ''invalid gate predicate'' (Inr ()))"

text \<open>The \<open>expect\<close> on the gate's target is the error \<open>reference target\<close>.\<close>

definition gate_ok :: "manifest \<Rightarrow> resource \<Rightarrow> unit res" where
  "gate_ok m r =
     (case re_gate r of
        None \<Rightarrow> Inr ()
      | Some g \<Rightarrow>
          and_then (ok_or (reference_field r (gt_field g)) ''gate requires reference'') (\<lambda>f.
          ensure (gt_field g = tf_name f) ''gate must name reference''
          (and_then (reference_resource m (re_id r) (gt_field g)) (\<lambda>found.
           and_then (ok_or found ''reference target'') (\<lambda>target.
           ensure (re_gate target = None) ''gate target cannot have a gate''
             (each_ok (gate_predicate_ok target) [gt_visible g, gt_create_when g]))))))"

definition validate_resource_gates :: "manifest \<Rightarrow> unit res" where
  "validate_resource_gates m = each_ok (gate_ok m) (mf_resources m)"

section \<open>Expiry\<close>

definition validate_expiry :: "resource \<Rightarrow> unit res" where
  "validate_expiry r =
     (case re_expiry r of
        None \<Rightarrow> Inr ()
      | Some x \<Rightarrow>
          ensure (is_identifier (xp_field x)) ''invalid expiry field''
          (and_then (ok_or (resource_field r (xp_field x)) ''unknown expiry field'') (\<lambda>f.
           ensure (\<not> tf_optional f \<and> tf_initial f = None \<and> tf_kind f = KTimestamp)
             ''expiry requires a nonoptional timestamp without an initial value''
           (ensure (xp_max_after x \<le> MAX_EXPIRY_MILLIS) ''expiry horizon exceeds 30 days'' (Inr ())))))"

section \<open>Memberships\<close>

definition MAX_MEMBERSHIP_PREDICATES :: nat where "MAX_MEMBERSHIP_PREDICATES = 2"
definition MAX_MEMBERSHIP_CONDITIONS :: nat where "MAX_MEMBERSHIP_CONDITIONS = 4"
definition MAX_MEMBERSHIP_UNIQUE_TUPLES :: nat where "MAX_MEMBERSHIP_UNIQUE_TUPLES = 4"

definition membership_field :: "resource \<Rightarrow> string \<Rightarrow> text_field res" where
  "membership_field r name =
     ensure (is_identifier name) ''invalid membership field'' (ok_or (resource_field r name) ''unknown membership field'')"

definition unique_fields :: "resource \<Rightarrow> membership_unique \<Rightarrow> (text_field \<times> text_field) res" where
  "unique_fields r u =
     and_then (membership_field r (mu_reference u)) (\<lambda>reference.
     and_then (membership_field r (mu_account u)) (\<lambda>account.
     ensure (\<not> tf_optional reference \<and> tf_initial reference = None \<and> is_reference reference
             \<and> \<not> tf_optional account \<and> tf_initial account = None \<and> is_account (tf_kind account))
       ''invalid membership unique tuple'' (Inr (reference, account))))"

fun unique_tuples_from :: "resource \<Rightarrow> membership_unique set \<Rightarrow> membership_unique list \<Rightarrow> unit res" where
  "unique_tuples_from r seen [] = Inr ()"
| "unique_tuples_from r seen (u # us) =
     ensure (u \<notin> seen) ''duplicate membership unique tuple''
     (and_then (unique_fields r u) (\<lambda>_. unique_tuples_from r (insert u seen) us))"

definition validate_unique :: "resource \<Rightarrow> unit res" where
  "validate_unique r =
     ensure (length (re_unique r) \<le> MAX_MEMBERSHIP_UNIQUE_TUPLES) ''membership unique tuple limit''
       (unique_tuples_from r {} (re_unique r))"

definition canonical_tuple :: "resource \<Rightarrow> membership_unique \<Rightarrow> (string \<times> string) list \<Rightarrow> (string \<times> string) res" where
  "canonical_tuple r u values =
     and_then (unique_fields r u) (\<lambda>(reference, account).
     and_then (ok_or (map_of values (mu_reference u)) ''missing membership reference'') (\<lambda>a.
     and_then (ok_or (map_of values (mu_account u)) ''missing membership account'') (\<lambda>b.
     and_then (validate_value reference a) (\<lambda>_.
     and_then (validate_value account b) (\<lambda>_. Inr (a, b))))))"

record membership_plan =
  mp_declaration :: exists_related
  mp_reference :: text_field
  mp_account :: text_field
  mp_protected :: "text_field option"
  mp_resource :: resource

definition literal_text :: "membership_literal \<Rightarrow> string" where
  "literal_text l = (case l of MBoolean b \<Rightarrow> if b then ''true'' else ''false'' | MChoice v \<Rightarrow> v)"

definition membership_condition_ok :: "resource \<Rightarrow> string \<times> membership_literal \<Rightarrow> unit res" where
  "membership_condition_ok membership = (\<lambda>(name, l).
     and_then (membership_field membership name) (\<lambda>c.
     ensure (\<not> tf_optional c) ''membership condition must be required''
     (ensure (case (tf_kind c, l) of (KBoolean, MBoolean _) \<Rightarrow> True | (KChoice _, MChoice _) \<Rightarrow> True | _ \<Rightarrow> False)
       ''membership condition requires a typed literal''
       (validate_value c (literal_text l)))))"

definition protected_reference :: "resource \<Rightarrow> string \<Rightarrow> related_target \<Rightarrow> text_field option res" where
  "protected_reference protected target t =
     (case t of
        SelfRecord \<Rightarrow> ensure (target = re_name protected) ''membership target resource mismatch'' (Inr None)
      | RelatedReference name \<Rightarrow>
          and_then (membership_field protected name) (\<lambda>f.
          ensure (\<not> tf_optional f \<and> tf_initial f = None) ''protected reference must be required''
          (ensure (tf_kind f = KReference target) ''membership target resource mismatch'' (Inr (Some f)))))"

definition admit_membership :: "resource list \<Rightarrow> resource \<Rightarrow> exists_related \<Rightarrow> membership_plan res" where
  "admit_membership resources protected d =
     ensure (is_identifier (er_resource d)) ''invalid membership resource''
     (and_then (ok_or (find (\<lambda>r. re_name r = er_resource d) resources) ''unknown membership resource'') (\<lambda>membership.
      ensure (length (er_conditions d) \<le> MAX_MEMBERSHIP_CONDITIONS) ''membership condition limit''
      (and_then (membership_field membership (er_reference d)) (\<lambda>reference.
       case tf_kind reference of
         KReference target \<Rightarrow>
           ensure (\<not> tf_optional reference \<and> tf_initial reference = None) ''membership reference must be required''
           (and_then (protected_reference protected target (er_target d)) (\<lambda>via.
            and_then (membership_field membership (er_account d)) (\<lambda>account.
            ensure (\<not> tf_optional account \<and> tf_initial account = None \<and> is_account (tf_kind account))
              ''membership account must be required''
            (and_then (each_ok (membership_condition_ok membership) (er_conditions d)) (\<lambda>_.
             Inr \<lparr>mp_declaration = d, mp_reference = reference, mp_account = account, mp_protected = via, mp_resource = membership\<rparr>)))))
       | _ \<Rightarrow> Inl ''membership match requires an immutable reference''))))"

fun admit_from :: "resource list \<Rightarrow> resource \<Rightarrow> exists_related set \<Rightarrow> exists_related list \<Rightarrow> membership_plan list res" where
  "admit_from resources protected seen [] = Inr []"
| "admit_from resources protected seen (d # ds) =
     ensure (d \<notin> seen) ''duplicate membership predicate''
     (and_then (admit_membership resources protected d) (\<lambda>p.
      and_then (admit_from resources protected (insert d seen) ds) (\<lambda>ps. Inr (p # ps))))"

definition admit_memberships :: "resource list \<Rightarrow> resource \<Rightarrow> exists_related list \<Rightarrow> membership_plan list res" where
  "admit_memberships resources protected ds =
     ensure (length ds \<le> MAX_MEMBERSHIP_PREDICATES) ''membership predicate limit'' (admit_from resources protected {} ds)"

text \<open>A \<open>BTreeSet\<close> of declarations is iterated in the derived order: the fields in order, an enum by its
  constructor first.\<close>

definition target_key :: "related_target \<Rightarrow> nat \<times> string" where
  "target_key t = (case t of SelfRecord \<Rightarrow> (0, []) | RelatedReference f \<Rightarrow> (1, f))"

definition literal_key :: "membership_literal \<Rightarrow> nat \<times> bool \<times> string" where
  "literal_key l = (case l of MBoolean b \<Rightarrow> (0, b, []) | MChoice v \<Rightarrow> (1, False, v))"

definition related_key :: "exists_related \<Rightarrow> string \<times> string \<times> (nat \<times> string) \<times> string \<times> (string \<times> nat \<times> bool \<times> string) list" where
  "related_key d = (er_resource d, er_reference d, target_key (er_target d), er_account d,
     map (\<lambda>(name, l). (name, literal_key l)) (er_conditions d))"

definition related_set :: "exists_related list \<Rightarrow> exists_related list" where
  "related_set ds = sort_key related_key (remdups ds)"

fun related_of :: "predicate \<Rightarrow> exists_related option" where
  "related_of (ExistsRelated d) = Some d"
| "related_of _ = None"

definition membership_plans :: "manifest \<Rightarrow> operation \<Rightarrow> membership_plan list res" where
  "membership_plans m v =
     (let declarations = List.map_filter related_of (concat (any_of (op_policy v))) in
      ensure (length declarations \<le> MAX_MEMBERSHIP_PREDICATES) ''membership predicate limit''
      (and_then (find_resource m (op_resource v)) (\<lambda>r.
       admit_memberships (mf_resources m) r (related_set declarations))))"

definition resource_authority :: "resource \<Rightarrow> unit res" where
  "resource_authority r = and_then (validate_expiry r) (\<lambda>_. validate_unique r)"

definition validate_authority :: "manifest \<Rightarrow> unit res" where
  "validate_authority m =
     and_then (each_ok resource_authority (mf_resources m)) (\<lambda>_.
     each_ok (\<lambda>v. and_then (membership_plans m v) (\<lambda>_. Inr ())) (mf_operations m))"

section \<open>What admission establishes\<close>

lemma unique_from_Inr: "unique_from seen ns = Inr u \<longleftrightarrow> distinct ns \<and> 0 \<notin> set ns \<and> set ns \<inter> seen = {}"
  by (induction ns arbitrary: seen) auto

lemma unique_Inr: "unique ns = Inr u \<longleftrightarrow> distinct ns \<and> 0 \<notin> set ns"
  by (simp add: unique_def unique_from_Inr)

lemma variants_ok_Inr:
  "variants_ok ke le n keys vs = Inr u \<longleftrightarrow>
     distinct (map cv_key vs) \<and> cv_key ` set vs \<inter> keys = {}
     \<and> (\<forall>v \<in> set vs. is_identifier (cv_key v) \<and> length (cv_key v) \<le> n \<and> label_ok (cv_label v))"
  by (induction vs arbitrary: keys) auto

lemma fields_ok_Inr:
  "fields_ok m names fs = Inr u \<longleftrightarrow>
     distinct (map tf_name fs) \<and> tf_name ` set fs \<inter> names = {}
     \<and> (\<forall>f \<in> set fs. is_identifier (tf_name f) \<and> 0 < tf_max_bytes f \<and> tf_max_bytes f \<le> 4096
           \<and> field_kind_ok m f = Inr () \<and> label_ok (tf_label f))"
  by (induction fs arbitrary: names) (auto simp: res_simps)

lemma resources_from_Inr:
  "resources_from m keys rs = Inr u \<Longrightarrow>
     distinct (map re_name rs) \<and> (\<forall>r \<in> set rs. \<exists>seen. resource_ok m seen r = Inr ())"
proof (induction rs arbitrary: keys)
  case (Cons r rs)
  have fresh: "re_name x \<notin> seen" if "resources_from m seen rs = Inr u" "x \<in> set rs" for x seen
    using that by (induction rs arbitrary: seen) (auto simp: res_simps resource_ok_def split: if_splits)
  from Cons show ?case using fresh by (fastforce simp: res_simps)
qed simp

lemma validate_resources_Inr:
  assumes "validate_resources m = Inr ()"
  shows "distinct (map re_name (mf_resources m))"
    and "r \<in> set (mf_resources m) \<Longrightarrow> re_fields r \<noteq> [] \<and> length (re_fields r) \<le> 8 \<and> is_identifier (re_name r)
      \<and> distinct (map tf_name (re_fields r)) \<and> sum_list (map tf_max_bytes (re_fields r)) \<le> 8192"
    and "r \<in> set (mf_resources m) \<Longrightarrow> f \<in> set (re_fields r) \<Longrightarrow> initial_ok f = Inr () \<and> field_kind_ok m f = Inr ()
      \<and> is_identifier (tf_name f) \<and> 0 < tf_max_bytes f \<and> tf_max_bytes f \<le> 4096"
proof -
  note loop = resources_from_Inr [OF assms [unfolded validate_resources_def]]
  show "distinct (map re_name (mf_resources m))" using loop by blast
  have ok: "\<exists>seen. resource_ok m seen r = Inr ()" if "r \<in> set (mf_resources m)" for r using loop that by blast
  show "re_fields r \<noteq> [] \<and> length (re_fields r) \<le> 8 \<and> is_identifier (re_name r)
      \<and> distinct (map tf_name (re_fields r)) \<and> sum_list (map tf_max_bytes (re_fields r)) \<le> 8192" if "r \<in> set (mf_resources m)"
    using ok [OF that] by (auto simp: resource_ok_def fields_ok_Inr res_simps split: if_splits)
  show "initial_ok f = Inr () \<and> field_kind_ok m f = Inr () \<and> is_identifier (tf_name f) \<and> 0 < tf_max_bytes f \<and> tf_max_bytes f \<le> 4096"
    if "r \<in> set (mf_resources m)" "f \<in> set (re_fields r)"
    using ok [OF that(1)] that(2) by (auto simp: resource_ok_def fields_ok_Inr each_ok_Inr res_simps split: if_splits)
qed

lemma resource_name_unique:
  "distinct (map re_name rs) \<Longrightarrow> r \<in> set rs \<Longrightarrow> find (\<lambda>t. re_name t = re_name r) rs = Some r"
  by (induction rs) auto

lemma find_reference:
  "distinct (map tf_name fs) \<Longrightarrow> f \<in> set fs \<Longrightarrow> is_reference f \<Longrightarrow> find (\<lambda>q. tf_name q = tf_name f) (filter is_reference fs) = Some f"
  by (induction fs) auto

text \<open>In an admitted manifest every reference field leads to a declared resource.\<close>

lemma reference_resolves:
  assumes "validate_resources m = Inr ()" "find_resource m n = Inr r" "f \<in> set (re_fields r)" "tf_kind f = KReference key"
  shows "\<exists>t \<in> set (mf_resources m). re_name t = key \<and> reference_resource m n (tf_name f) = Inr (Some t)"
proof -
  have r: "r \<in> set (mf_resources m)" using find_known(2) [OF assms(2)] by blast
  have "list_ex (\<lambda>r. re_name r = key) (mf_resources m)"
    using validate_resources_Inr(3) [OF assms(1) r assms(3)] assms(4) by (auto simp: field_kind_ok_def split: if_splits)
  then obtain t where t: "t \<in> set (mf_resources m)" "re_name t = key" by (auto simp: list_ex_iff)
  have find: "find (\<lambda>q. re_name q = key) (mf_resources m) = Some t"
    using resource_name_unique [OF validate_resources_Inr(1) [OF assms(1)] t(1)] t(2) by simp
  have "distinct (map tf_name (re_fields r))" using validate_resources_Inr(2) [OF assms(1) r] by blast
  then have "find (\<lambda>q. tf_name q = tf_name f) (filter is_reference (re_fields r)) = Some f"
    using assms(3,4) by (intro find_reference) (auto simp: is_reference_def)
  then show ?thesis using t find assms(2,4)
    by (auto simp: reference_resource_def reference_field_def reference_fields_def)
qed

end
