(* ===== verification/Computation.thy ===== *)
theory Computation
  imports Manifest Policy Ordered_Map
begin

text \<open>
  The expressions of an action.  Admission gives every expression a domain
  (\<^verbatim>\<open>crates/noxide-admission/src/manifest/computation.rs\<close>, \<open>input_fits\<close> of \<^verbatim>\<open>manifest.rs\<close>); the
  executor evaluates it to a typed scalar (\<^verbatim>\<open>crates/noxide-admission/src/scalar.rs\<close>,
  \<^verbatim>\<open>crates/noxide-repository/src/repository/computation.rs\<close>).  The counters and the set of used inputs
  that admission mutates are the state \<open>admission\<close>.
\<close>

section \<open>Domains\<close>

record domain =
  dm_kind :: field_kind
  dm_optional :: bool
  dm_max_bytes :: nat

fun opaque_kind :: "field_kind \<Rightarrow> bool" where
  "opaque_kind (KBlob _) = True"
| "opaque_kind (KUploadHandle _) = True"
| "opaque_kind _ = False"

definition domain_field :: "text_field \<Rightarrow> domain res" where
  "domain_field f =
     ensure (\<not> opaque_kind (tf_kind f)) ''opaque blob identity is not an expression operand''
       (Inr \<lparr>dm_kind = tf_kind f, dm_optional = tf_optional f, dm_max_bytes = tf_max_bytes f\<rparr>)"

definition domain_input :: "action_input \<Rightarrow> domain res" where
  "domain_input i =
     ensure (\<not> opaque_kind (in_kind i)) ''opaque blob identity is not an expression operand''
       (Inr \<lparr>dm_kind = in_kind i, dm_optional = in_optional i, dm_max_bytes = in_max_bytes i\<rparr>)"

definition domain_integer :: "int \<Rightarrow> int \<Rightarrow> domain" where
  "domain_integer lo hi = \<lparr>dm_kind = KInteger (Some lo) (Some hi), dm_optional = False, dm_max_bytes = 20\<rparr>"

definition domain_account :: domain where
  "domain_account = \<lparr>dm_kind = KAccount AccountSameTenant, dm_optional = False, dm_max_bytes = 43\<rparr>"

definition domain_timestamp :: domain where
  "domain_timestamp = \<lparr>dm_kind = KTimestamp, dm_optional = False, dm_max_bytes = 20\<rparr>"

definition domain_reference :: "string \<Rightarrow> domain" where
  "domain_reference key = \<lparr>dm_kind = KReference key, dm_optional = False, dm_max_bytes = 19\<rparr>"

definition lower_bound :: "int option \<Rightarrow> int" where "lower_bound lo = (case lo of Some n \<Rightarrow> n | None \<Rightarrow> I64_MIN)"
definition upper_bound :: "int option \<Rightarrow> int" where "upper_bound hi = (case hi of Some n \<Rightarrow> n | None \<Rightarrow> I64_MAX)"

definition number :: "domain \<Rightarrow> (int \<times> int) res" where
  "number d =
     ensure (\<not> dm_optional d) ''optional arithmetic operand''
       (case dm_kind d of
          KInteger lo hi \<Rightarrow> Inr (lower_bound lo, upper_bound hi)
        | _ \<Rightarrow> Inl ''integer arithmetic required'')"

section \<open>Admission of expressions\<close>

datatype value_site = SiteStep nat bool | SiteSchedule | SiteEffect

record admission =
  am_nodes :: nat
  am_guards :: nat
  am_used :: "string set"

definition admission_default :: admission where
  "admission_default = \<lparr>am_nodes = 0, am_guards = 0, am_used = {}\<rparr>"

definition count_node :: "nat \<Rightarrow> admission \<Rightarrow> admission res" where
  "count_node depth st =
     (let st = st\<lparr>am_nodes := am_nodes st + 1\<rparr> in
      ensure (am_nodes st \<le> MAX_EXPRESSION_NODES \<and> depth \<le> MAX_EXPRESSION_DEPTH) ''expression node/depth limit'' (Inr st))"

definition find_input :: "action_input list \<Rightarrow> string \<Rightarrow> action_input option" where
  "find_input inputs name = find (\<lambda>i. in_name i = name) inputs"

text \<open>The principal may only fill a field of a row being created, or an effect.\<close>

definition principal_site :: "manifest \<Rightarrow> action \<Rightarrow> value_site \<Rightarrow> bool res" where
  "principal_site m a site =
     (case site of
        SiteEffect \<Rightarrow> Inr True
      | SiteStep index False \<Rightarrow>
          and_then (find_operation m (sp_operation (ac_steps a ! index))) (\<lambda>v. Inr (op_kind v = CreateOp))
      | _ \<Rightarrow> Inr False)"

definition created_bound :: "action \<Rightarrow> value_site \<Rightarrow> nat res" where
  "created_bound a site =
     (case site of
        SiteStep index _ \<Rightarrow> Inr index
      | SiteEffect \<Rightarrow> Inr (length (ac_steps a))
      | SiteSchedule \<Rightarrow> Inl ''created identity is not a scheduled scalar'')"

definition created_domain :: "manifest \<Rightarrow> action \<Rightarrow> value_site \<Rightarrow> nat \<Rightarrow> domain res" where
  "created_domain m a site created =
     and_then (created_bound a site) (\<lambda>bound.
     ensure (created < bound) ''created reference must name an earlier step''
     (and_then (find_operation m (sp_operation (ac_steps a ! created))) (\<lambda>v.
      ensure (op_kind v = CreateOp) ''created reference requires create step''
      (and_then (find_resource m (op_resource v)) (\<lambda>r. Inr (domain_reference (re_name r)))))))"

definition target_domain :: "manifest \<Rightarrow> action \<Rightarrow> value_site \<Rightarrow> string \<Rightarrow> domain res" where
  "target_domain m a site name =
     ensure (site \<noteq> SiteSchedule) ''target identity is not a scheduled scalar''
     (and_then (find_target (ac_targets a) name) (\<lambda>t.
      and_then (find_resource m (tg_resource t)) (\<lambda>r. Inr (domain_reference (re_name r)))))"

text \<open>A field read needs an approved projection of its target; \<open>reviewed\<close> and \<open>current\<close> add their own
  conditions.\<close>

definition current_site :: "action \<Rightarrow> value_site \<Rightarrow> string \<Rightarrow> bool" where
  "current_site a site target =
     (case site of SiteStep index True \<Rightarrow> sp_target (ac_steps a ! index) = NamedTarget target | _ \<Rightarrow> False)"

definition read_domain :: "manifest \<Rightarrow> action \<Rightarrow> value_site \<Rightarrow> bool \<Rightarrow> bool \<Rightarrow> string \<Rightarrow> string \<Rightarrow> domain res" where
  "read_domain m a site reviewed current target field =
     and_then (find_target (ac_targets a) target) (\<lambda>declaration.
     ensure (reviewed \<longrightarrow> tg_revision declaration = Exact) ''reviewed source requires exact target revision''
     (ensure (current \<longrightarrow> current_site a site target) ''current fields are current-step guard-only''
     (and_then (ok_or (tg_projection declaration) ''expression requires explicit compute projection'') (\<lambda>projection.
      ensure (field \<in> set (ip_fields projection)) ''expression field outside compute projection''
      (and_then (find_operation m (ip_operation projection)) (\<lambda>read.
       ensure (op_kind read = ReadOp \<and> op_via read = None \<and> op_resource read = tg_resource declaration)
         ''invalid expression read authority''
       (and_then (find_resource m (tg_resource declaration)) (\<lambda>r.
        and_then (ok_or (resource_field r field) ''unknown expression field'') domain_field))))))))"

definition literal_encoding :: "literal \<Rightarrow> (field_kind \<times> string) res" where
  "literal_encoding l =
     (case l of
        LText v \<Rightarrow> Inr (KText, v)
      | LInteger v \<Rightarrow> Inr (KInteger (Some v) (Some v), show_int v)
      | LBoolean v \<Rightarrow> Inr (KBoolean, if v then ''true'' else ''false'')
      | LChoice v \<Rightarrow> ensure (is_identifier v) ''invalid choice literal'' (Inr (KChoice [\<lparr>cv_key = v, cv_label = v\<rparr>], v))
      | LAccount v \<Rightarrow> Inr (KAccount AccountSameTenant, v)
      | LTimestamp v \<Rightarrow> Inr (KTimestamp, show_int v)
      | LDuration v \<Rightarrow> Inr (KDuration v, show_int v))"

definition literal_domain :: "literal \<Rightarrow> domain res" where
  "literal_domain l =
     (case l of
        LInteger v \<Rightarrow> Inr (domain_integer v v)
      | _ \<Rightarrow>
          and_then (literal_encoding l) (\<lambda>(kind, encoded).
          ensure (field_canonical \<lparr>tf_immutable = False, tf_kind = kind, tf_optional = False, tf_initial = None,
                    tf_name = ''literal'', tf_label = ''Literal'', tf_max_bytes = 4096\<rparr> encoded = Inr encoded)
            ''noncanonical literal''
            (Inr \<lparr>dm_kind = kind, dm_optional = False, dm_max_bytes = length encoded\<rparr>)))"

datatype arithmetic = AddOp | SubtractOp | MultiplyOp

definition clamp_i64 :: "int \<Rightarrow> int" where
  "clamp_i64 v = max I64_MIN (min I64_MAX v)"

definition interval :: "arithmetic \<Rightarrow> int \<times> int \<Rightarrow> int \<times> int \<Rightarrow> int \<times> int" where
  "interval k l r =
     (case (l, r) of ((a, b), (c, d)) \<Rightarrow>
        (case k of
           AddOp \<Rightarrow> (a + c, b + d)
         | SubtractOp \<Rightarrow> (a - d, b - c)
         | MultiplyOp \<Rightarrow>
             (min (min (a * c) (a * d)) (min (b * c) (b * d)), max (max (a * c) (a * d)) (max (b * c) (b * d)))))"

fun duration_kind :: "field_kind \<Rightarrow> bool" where
  "duration_kind (KDuration _) = True"
| "duration_kind _ = False"

definition combine_domains :: "arithmetic \<Rightarrow> domain \<Rightarrow> domain \<Rightarrow> domain res" where
  "combine_domains k left right =
     (if k = AddOp \<and> dm_kind left = KTimestamp \<and> duration_kind (dm_kind right) then
        ensure (\<not> dm_optional left \<and> \<not> dm_optional right) ''optional timestamp arithmetic'' (Inr domain_timestamp)
      else
        and_then (number left) (\<lambda>l.
        and_then (number right) (\<lambda>r.
        let (lo, hi) = interval k l r in
        ensure (lo \<le> I64_MAX \<and> hi \<ge> I64_MIN) ''expression always overflows''
          (Inr (domain_integer (clamp_i64 lo) (clamp_i64 hi))))))"

primrec walk :: "manifest \<Rightarrow> action \<Rightarrow> value_site \<Rightarrow> expr \<Rightarrow> nat \<Rightarrow> admission \<Rightarrow> (domain \<times> admission) res" where
  "walk m a site (EInput name) depth st =
     and_then (count_node depth st) (\<lambda>st.
     and_then (ok_or (find_input (ac_inputs a) name) ''undeclared input'') (\<lambda>i.
     and_then (domain_input i) (\<lambda>d. Inr (d, st\<lparr>am_used := insert (in_name i) (am_used st)\<rparr>))))"
| "walk m a site (ELiteral l) depth st =
     and_then (count_node depth st) (\<lambda>st. and_then (literal_domain l) (\<lambda>d. Inr (d, st)))"
| "walk m a site EPrincipal depth st =
     and_then (count_node depth st) (\<lambda>st.
     and_then (principal_site m a site) (\<lambda>ok.
     ensure ok ''principal is create-account-only'' (Inr (domain_account, st))))"
| "walk m a site ETransactionTime depth st =
     and_then (count_node depth st) (\<lambda>st. Inr (domain_timestamp, st))"
| "walk m a site (ETarget name) depth st =
     and_then (count_node depth st) (\<lambda>st. and_then (target_domain m a site name) (\<lambda>d. Inr (d, st)))"
| "walk m a site (ECreated created) depth st =
     and_then (count_node depth st) (\<lambda>st. and_then (created_domain m a site created) (\<lambda>d. Inr (d, st)))"
| "walk m a site (ESnapshotField target field reviewed) depth st =
     and_then (count_node depth st) (\<lambda>st.
     and_then (read_domain m a site reviewed False target field) (\<lambda>d. Inr (d, st)))"
| "walk m a site (ECurrentField target field) depth st =
     and_then (count_node depth st) (\<lambda>st.
     and_then (read_domain m a site False True target field) (\<lambda>d. Inr (d, st)))"
| "walk m a site (EAdd l r) depth st =
     and_then (count_node depth st) (\<lambda>st.
     and_then (walk m a site l (depth + 1) st) (\<lambda>(dl, st).
     and_then (walk m a site r (depth + 1) st) (\<lambda>(dr, st).
     and_then (combine_domains AddOp dl dr) (\<lambda>d. Inr (d, st)))))"
| "walk m a site (ESubtract l r) depth st =
     and_then (count_node depth st) (\<lambda>st.
     and_then (walk m a site l (depth + 1) st) (\<lambda>(dl, st).
     and_then (walk m a site r (depth + 1) st) (\<lambda>(dr, st).
     and_then (combine_domains SubtractOp dl dr) (\<lambda>d. Inr (d, st)))))"
| "walk m a site (EMultiply l r) depth st =
     and_then (count_node depth st) (\<lambda>st.
     and_then (walk m a site l (depth + 1) st) (\<lambda>(dl, st).
     and_then (walk m a site r (depth + 1) st) (\<lambda>(dr, st).
     and_then (combine_domains MultiplyOp dl dr) (\<lambda>d. Inr (d, st)))))"

definition admit_value :: "manifest \<Rightarrow> action \<Rightarrow> nat \<Rightarrow> expr \<Rightarrow> bool \<Rightarrow> admission \<Rightarrow> (domain \<times> admission) res" where
  "admit_value m a index v in_guard st =
     walk m a (if index < length (ac_steps a) then SiteStep index in_guard else SiteSchedule) v 1 st"

definition effect_value :: "manifest \<Rightarrow> action \<Rightarrow> expr \<Rightarrow> admission \<Rightarrow> (domain \<times> admission) res" where
  "effect_value m a v st = walk m a SiteEffect v 1 st"

section \<open>Admission of guards\<close>

fun same_type :: "field_kind \<Rightarrow> field_kind \<Rightarrow> bool" where
  "same_type (KInteger _ _) (KInteger _ _) = True"
| "same_type (KChoice _) (KChoice _) = True"
| "same_type (KDuration _) (KDuration _) = True"
| "same_type l r = (l = r)"

fun ordered_kind :: "field_kind \<Rightarrow> bool" where
  "ordered_kind (KInteger _ _) = True"
| "ordered_kind KTimestamp = True"
| "ordered_kind (KDuration _) = True"
| "ordered_kind _ = False"

definition comparison_ok :: "comparison \<Rightarrow> domain \<Rightarrow> domain \<Rightarrow> unit res" where
  "comparison_ok c left right =
     ensure (same_type (dm_kind left) (dm_kind right)) ''guard comparison type mismatch''
     (ensure (c \<in> {CompareEqual, CompareNotEqual}
              \<or> \<not> dm_optional left \<and> \<not> dm_optional right \<and> ordered_kind (dm_kind left))
        ''ordered guard requires nonoptional numeric/time operands'' (Inr ()))"

definition count_guard :: "nat \<Rightarrow> admission \<Rightarrow> admission res" where
  "count_guard depth st =
     (let st = st\<lparr>am_guards := am_guards st + 1\<rparr> in
      ensure (am_guards st \<le> MAX_GUARDS \<and> depth \<le> MAX_EXPRESSION_DEPTH) ''guard count/depth limit'' (Inr st))"

fun admit_condition :: "manifest \<Rightarrow> action \<Rightarrow> nat \<Rightarrow> guard_condition \<Rightarrow> nat \<Rightarrow> admission \<Rightarrow> admission res"
  and admit_conditions :: "manifest \<Rightarrow> action \<Rightarrow> nat \<Rightarrow> guard_condition list \<Rightarrow> nat \<Rightarrow> admission \<Rightarrow> admission res" where
  "admit_condition m a index (GAll conditions) depth st =
     and_then (count_guard depth st) (\<lambda>st.
     ensure (conditions \<noteq> [] \<and> length conditions \<le> MAX_GUARDS) ''invalid guard conjunction''
       (admit_conditions m a index conditions (depth + 1) st))"
| "admit_condition m a index (GCompare left c right) depth st =
     and_then (count_guard depth st) (\<lambda>st.
     and_then (admit_value m a index left True st) (\<lambda>(dl, st).
     and_then (admit_value m a index right True st) (\<lambda>(dr, st).
     and_then (comparison_ok c dl dr) (\<lambda>_. Inr st))))"
| "admit_conditions m a index [] depth st = Inr st"
| "admit_conditions m a index (c # cs) depth st =
     and_then (admit_condition m a index c depth st) (\<lambda>st. admit_conditions m a index cs depth st)"

definition admit_rejection :: "action \<Rightarrow> guard_rejection \<Rightarrow> unit res" where
  "admit_rejection a r =
     ensure (case gj_input r of None \<Rightarrow> True | Some name \<Rightarrow> list_ex (\<lambda>i. in_name i = name) (ac_inputs a))
       ''undeclared rejection input''
     (ensure (gj_message r \<noteq> [] \<and> length (gj_message r) \<le> 256 \<and> \<not> has_control (gj_message r))
       ''invalid guard rejection message'' (Inr ()))"

fun admit_guard_list :: "manifest \<Rightarrow> action \<Rightarrow> nat \<Rightarrow> guard list \<Rightarrow> admission \<Rightarrow> admission res" where
  "admit_guard_list m a index [] st = Inr st"
| "admit_guard_list m a index (g # gs) st =
     and_then (admit_rejection a (gu_rejection g)) (\<lambda>_.
     and_then (admit_condition m a index (gu_condition g) 1 st) (\<lambda>st. admit_guard_list m a index gs st))"

definition admit_guards :: "manifest \<Rightarrow> action \<Rightarrow> nat \<Rightarrow> admission \<Rightarrow> admission res" where
  "admit_guards m a index st = admit_guard_list m a index (sp_guards (ac_steps a ! index)) st"

section \<open>Does a domain fit a destination?\<close>

definition kind_fits :: "field_kind \<Rightarrow> nat \<Rightarrow> field_kind \<Rightarrow> nat \<Rightarrow> bool" where
  "kind_fits input input_bytes kind bytes =
     (case (input, kind) of
        (KText, KText) \<Rightarrow> input_bytes \<le> bytes
      | (KBoolean, KBoolean) \<Rightarrow> True
      | (KTimestamp, KTimestamp) \<Rightarrow> True
      | (KDuration i, KDuration n) \<Rightarrow> i \<le> n
      | (KAccount i, KAccount s) \<Rightarrow> i = s
      | (KInteger ilo ihi, KInteger lo hi) \<Rightarrow> lower_bound ilo \<ge> lower_bound lo \<and> upper_bound ihi \<le> upper_bound hi
      | (KChoice i, KChoice variants) \<Rightarrow> list_all (\<lambda>v. list_ex (\<lambda>w. cv_key w = cv_key v) variants) i
      | _ \<Rightarrow> False)"

definition input_fits :: "action_input \<Rightarrow> text_field \<Rightarrow> bool" where
  "input_fits i f =
     (if in_optional i \<and> \<not> tf_optional f then False
      else kind_fits (in_kind i) (in_max_bytes i) (tf_kind f) (tf_max_bytes f))"

definition domain_fits :: "domain \<Rightarrow> text_field \<Rightarrow> bool" where
  "domain_fits d f =
     input_fits \<lparr>in_name = ''value'', in_label = ''Value'', in_kind = dm_kind d, in_optional = dm_optional d,
       in_max_bytes = dm_max_bytes d\<rparr> f"

definition fits_input :: "domain \<Rightarrow> action_input \<Rightarrow> bool" where
  "fits_input d i =
     domain_fits d \<lparr>tf_immutable = False, tf_kind = in_kind i, tf_optional = in_optional i, tf_initial = None,
       tf_name = in_name i, tf_label = in_label i, tf_max_bytes = in_max_bytes i\<rparr>"

section \<open>Scalars\<close>

datatype scalar =
    ScText string | ScInteger int | ScBoolean bool | ScChoice string | ScAccount string
  | ScTimestamp timestamp | ScDuration duration | ScReference string nat | ScMissing field_kind

definition encode :: "scalar \<Rightarrow> string" where
  "encode s =
     (case s of
        ScText v \<Rightarrow> v | ScChoice v \<Rightarrow> v | ScAccount v \<Rightarrow> v
      | ScInteger v \<Rightarrow> show_int v
      | ScBoolean v \<Rightarrow> if v then ''true'' else ''false''
      | ScTimestamp v \<Rightarrow> show_int v
      | ScDuration v \<Rightarrow> show_int v
      | ScReference _ n \<Rightarrow> show_nat n
      | ScMissing _ \<Rightarrow> [])"

datatype ordering = Less | Equal | Greater

definition cmp :: "'a :: linorder \<Rightarrow> 'a \<Rightarrow> ordering" where
  "cmp a b = (if a < b then Less else if a = b then Equal else Greater)"

text \<open>\<open>std::mem::discriminant\<close>.\<close>

definition discriminant :: "field_kind \<Rightarrow> nat" where
  "discriminant k =
     (case k of KText \<Rightarrow> 0 | KAccount _ \<Rightarrow> 1 | KBoolean \<Rightarrow> 2 | KBlob _ \<Rightarrow> 3 | KUploadHandle _ \<Rightarrow> 4 | KTimestamp \<Rightarrow> 5
      | KDuration _ \<Rightarrow> 6 | KReference _ \<Rightarrow> 7 | KInteger _ _ \<Rightarrow> 8 | KChoice _ \<Rightarrow> 9)"

definition compare_scalars :: "scalar \<Rightarrow> scalar \<Rightarrow> ordering res" where
  "compare_scalars x y =
     (case (x, y) of
        (ScText a, ScText b) \<Rightarrow> Inr (cmp a b)
      | (ScChoice a, ScChoice b) \<Rightarrow> Inr (cmp a b)
      | (ScAccount a, ScAccount b) \<Rightarrow> Inr (cmp a b)
      | (ScInteger a, ScInteger b) \<Rightarrow> Inr (cmp a b)
      | (ScBoolean a, ScBoolean b) \<Rightarrow> Inr (cmp a b)
      | (ScTimestamp a, ScTimestamp b) \<Rightarrow> Inr (cmp a b)
      | (ScDuration a, ScDuration b) \<Rightarrow> Inr (cmp a b)
      | (ScReference a n, ScReference b p) \<Rightarrow> if a = b then Inr (cmp n p) else Inl ''calculation unavailable''
      | (ScMissing a, ScMissing b) \<Rightarrow> if discriminant a = discriminant b then Inr Equal else Inr Less
      | (ScMissing _, _) \<Rightarrow> Inr Less
      | (_, ScMissing _) \<Rightarrow> Inr Greater
      | _ \<Rightarrow> Inl ''calculation unavailable'')"

definition read_i64 :: "string \<Rightarrow> int res" where
  "read_i64 s = ok_or (parse_i64 s) ''invalid digit''"

definition time_value :: "time_error + int \<Rightarrow> int res" where
  "time_value r = (case r of Inl _ \<Rightarrow> Inl ''time out of range'' | Inr v \<Rightarrow> Inr v)"

definition scalar_of :: "field_kind \<Rightarrow> bool \<Rightarrow> string \<Rightarrow> scalar res" where
  "scalar_of kind optional s =
     ensure (\<not> opaque_kind kind) ''opaque blob identity is not a scalar operand''
     (if optional \<and> s = [] then Inr (ScMissing kind)
      else
        (case kind of
           KBlob _ \<Rightarrow> Inl ''opaque blob identity is not a scalar operand''
         | KUploadHandle _ \<Rightarrow> Inl ''opaque blob identity is not a scalar operand''
         | KText \<Rightarrow> Inr (ScText s)
         | KInteger _ _ \<Rightarrow> and_then (read_i64 s) (\<lambda>v. Inr (ScInteger v))
         | KBoolean \<Rightarrow>
             ensure (s = ''true'' \<or> s = ''false'') ''calculation unavailable'' (Inr (ScBoolean (s = ''true'')))
         | KChoice _ \<Rightarrow> Inr (ScChoice s)
         | KAccount _ \<Rightarrow> Inr (ScAccount s)
         | KTimestamp \<Rightarrow> and_then (read_i64 s) (\<lambda>v. and_then (time_value (from_unix_millis v)) (\<lambda>t. Inr (ScTimestamp t)))
         | KDuration _ \<Rightarrow> and_then (read_i64 s) (\<lambda>v. and_then (time_value (duration_from_millis v)) (\<lambda>t. Inr (ScDuration t)))
         | KReference r \<Rightarrow> and_then (ok_or (parse_u64 s) ''invalid digit'') (\<lambda>v. Inr (ScReference r v))))"

section \<open>Evaluation\<close>

text \<open>The execution view of an action, and what a transaction knows while it evaluates.\<close>

record action_core =
  co_id :: nat
  co_version :: nat
  co_inputs :: "action_input list"
  co_steps :: "step list"
  co_targets :: "action_target list"

definition core_of :: "action \<Rightarrow> action_core" where
  "core_of a = \<lparr>co_id = ac_id a, co_version = ac_version a, co_inputs = ac_inputs a, co_steps = ac_steps a,
     co_targets = ac_targets a\<rparr>"

fun change_uses_time :: "change \<Rightarrow> bool" where
  "change_uses_time (ChangeSet v) = uses_time v"
| "change_uses_time (ChangeIncrease v _) = uses_time v"
| "change_uses_time (ChangeDecrease v _) = uses_time v"

definition core_uses_time :: "action_core \<Rightarrow> bool" where
  "core_uses_time c =
     list_ex (\<lambda>s. list_ex (\<lambda>g. condition_uses_time (gu_condition g)) (sp_guards s)
       \<or> list_ex (\<lambda>x. change_uses_time (as_change x)) (sp_assign s)) (co_steps c)"

record record_target =
  tk_resource :: nat
  tk_record :: nat
  tk_incarnation :: string
  tk_revision :: int
  tk_route :: "nat option"

datatype mutation_kind = Created | Updated | Deleted

record mutation_outcome =
  mo_kind :: mutation_kind
  mo_resource :: nat
  mo_id :: nat
  mo_incarnation :: string

type_synonym entries = "(string \<times> string) list"

record app_record =
  rc_resource :: nat
  rc_id :: nat
  rc_fields :: entries

record stored_record =
  sr_record :: app_record
  sr_owner :: string
  sr_tenant :: string
  sr_incarnation :: string
  sr_revision :: int
  sr_cap_version :: "int option"

record computation_values =
  vl_manifest :: manifest
  vl_input :: entries
  vl_principal :: principal
  vl_grants :: "string \<Rightarrow> record_target option"
  vl_snapshots :: "nat \<times> nat \<Rightarrow> stored_record option"
  vl_outcomes :: "mutation_outcome list"
  vl_time :: "timestamp option"
  vl_current :: "(string \<times> stored_record) option"

definition principal_user :: "principal \<Rightarrow> user res" where
  "principal_user p = (case p of User u \<Rightarrow> Inr u | _ \<Rightarrow> Inl ''policy denied'')"

definition nth_opt :: "'a list \<Rightarrow> nat \<Rightarrow> 'a option" where
  "nth_opt xs n = (if n < length xs then Some (xs ! n) else None)"

definition stored_scalar :: "manifest \<Rightarrow> nat \<Rightarrow> stored_record \<Rightarrow> string \<Rightarrow> scalar res" where
  "stored_scalar m resource stored field =
     and_then (find_resource m resource) (\<lambda>r.
     and_then (ok_or (resource_field r field) ''calculation unavailable'') (\<lambda>schema.
     and_then (ok_or (map_of (rc_fields (sr_record stored)) field) ''calculation unavailable'') (\<lambda>v.
     scalar_of (tf_kind schema) (tf_optional schema) v)))"

definition literal_scalar :: "literal \<Rightarrow> scalar" where
  "literal_scalar l =
     (case l of LText v \<Rightarrow> ScText v | LInteger v \<Rightarrow> ScInteger v | LBoolean v \<Rightarrow> ScBoolean v | LChoice v \<Rightarrow> ScChoice v
      | LAccount v \<Rightarrow> ScAccount v | LTimestamp v \<Rightarrow> ScTimestamp v | LDuration v \<Rightarrow> ScDuration v)"

definition checked :: "arithmetic \<Rightarrow> int \<Rightarrow> int \<Rightarrow> int option" where
  "checked k a b = (case k of AddOp \<Rightarrow> checked_add_i64 a b | SubtractOp \<Rightarrow> checked_sub_i64 a b | MultiplyOp \<Rightarrow> checked_mul_i64 a b)"

definition combine_scalars :: "arithmetic \<Rightarrow> scalar \<Rightarrow> scalar \<Rightarrow> scalar res" where
  "combine_scalars k x y =
     (case (x, y) of
        (ScInteger a, ScInteger b) \<Rightarrow> and_then (ok_or (checked k a b) ''calculation unavailable'') (\<lambda>v. Inr (ScInteger v))
      | (ScTimestamp t, ScDuration d) \<Rightarrow>
          (if k = AddOp then
             (case timestamp_checked_add t d of Inl _ \<Rightarrow> Inl ''calculation unavailable'' | Inr v \<Rightarrow> Inr (ScTimestamp v))
           else Inl ''calculation unavailable'')
      | _ \<Rightarrow> Inl ''calculation unavailable'')"

primrec eval :: "computation_values \<Rightarrow> action_core \<Rightarrow> expr \<Rightarrow> scalar res" where
  "eval w c (EInput name) =
     and_then (ok_or (find_input (co_inputs c) name) ''calculation unavailable'') (\<lambda>schema.
     and_then (ok_or (map_of (vl_input w) name) ''calculation unavailable'') (\<lambda>v.
     scalar_of (in_kind schema) (in_optional schema) v))"
| "eval w c (ELiteral l) = Inr (literal_scalar l)"
| "eval w c EPrincipal =
     (case principal_user (vl_principal w) of Inl _ \<Rightarrow> Inl ''reference unavailable'' | Inr u \<Rightarrow> Inr (ScAccount (user_id u)))"
| "eval w c ETransactionTime = and_then (ok_or (vl_time w) ''calculation unavailable'') (\<lambda>t. Inr (ScTimestamp t))"
| "eval w c (ETarget name) =
     and_then (ok_or (vl_grants w name) ''reference unavailable'') (\<lambda>grant.
     and_then (find_resource (vl_manifest w) (tk_resource grant)) (\<lambda>r. Inr (ScReference (re_name r) (tk_record grant))))"
| "eval w c (ECreated index) =
     and_then (ok_or (nth_opt (vl_outcomes w) index) ''calculation unavailable'') (\<lambda>outcome.
     ensure (mo_kind outcome = Created) ''calculation unavailable''
     (and_then (find_resource (vl_manifest w) (mo_resource outcome)) (\<lambda>r. Inr (ScReference (re_name r) (mo_id outcome)))))"
| "eval w c (ESnapshotField target field reviewed) =
     and_then (ok_or (vl_grants w target) ''reference unavailable'') (\<lambda>grant.
     and_then (ok_or (vl_snapshots w (tk_resource grant, tk_record grant)) ''reference unavailable'') (\<lambda>stored.
     stored_scalar (vl_manifest w) (tk_resource grant) stored field))"
| "eval w c (ECurrentField target field) =
     and_then (ok_or (vl_grants w target) ''reference unavailable'') (\<lambda>grant.
     and_then (ok_or (vl_current w) ''calculation unavailable'') (\<lambda>(name, stored).
     ensure (name = target) ''calculation unavailable''
       (stored_scalar (vl_manifest w) (tk_resource grant) stored field)))"
| "eval w c (EAdd l r) = and_then (eval w c l) (\<lambda>x. and_then (eval w c r) (\<lambda>y. combine_scalars AddOp x y))"
| "eval w c (ESubtract l r) = and_then (eval w c l) (\<lambda>x. and_then (eval w c r) (\<lambda>y. combine_scalars SubtractOp x y))"
| "eval w c (EMultiply l r) = and_then (eval w c l) (\<lambda>x. and_then (eval w c r) (\<lambda>y. combine_scalars MultiplyOp x y))"

fun comparison_holds :: "comparison \<Rightarrow> ordering \<Rightarrow> bool" where
  "comparison_holds CompareEqual ord = (ord = Equal)"
| "comparison_holds CompareNotEqual ord = (ord \<noteq> Equal)"
| "comparison_holds CompareLess ord = (ord = Less)"
| "comparison_holds CompareLessOrEqual ord = (ord \<noteq> Greater)"
| "comparison_holds CompareGreater ord = (ord = Greater)"
| "comparison_holds CompareGreaterOrEqual ord = (ord \<noteq> Less)"

fun eval_condition :: "computation_values \<Rightarrow> action_core \<Rightarrow> guard_condition \<Rightarrow> bool res"
  and eval_conditions :: "computation_values \<Rightarrow> action_core \<Rightarrow> guard_condition list \<Rightarrow> bool res" where
  "eval_condition w c (GAll conditions) = eval_conditions w c conditions"
| "eval_condition w c (GCompare left cp right) =
     and_then (eval w c left) (\<lambda>x. and_then (eval w c right) (\<lambda>y.
     and_then (compare_scalars x y) (\<lambda>ord. Inr (comparison_holds cp ord))))"
| "eval_conditions w c [] = Inr True"
| "eval_conditions w c (g # gs) =
     and_then (eval_condition w c g) (\<lambda>b. if \<not> b then Inr False else eval_conditions w c gs)"

text \<open>A guard that does not hold is the refusal its author wrote, every other failure is an error.\<close>

datatype step_error = GuardFailure guard_rejection | StepFailure string

fun eval_guards :: "computation_values \<Rightarrow> action_core \<Rightarrow> guard list \<Rightarrow> step_error + unit" where
  "eval_guards w c [] = Inr ()"
| "eval_guards w c (g # gs) =
     (case eval_condition w c (gu_condition g) of
        Inl e \<Rightarrow> Inl (StepFailure e)
      | Inr b \<Rightarrow> if \<not> b then Inl (GuardFailure (gu_rejection g)) else eval_guards w c gs)"

primrec current_value :: "expr \<Rightarrow> bool" where
  "current_value (EInput _) = False"
| "current_value (ELiteral _) = False"
| "current_value (ETarget _) = False"
| "current_value (ECreated _) = False"
| "current_value EPrincipal = False"
| "current_value ETransactionTime = False"
| "current_value (ESnapshotField _ _ _) = False"
| "current_value (ECurrentField _ _) = True"
| "current_value (EAdd l r) = (current_value l \<or> current_value r)"
| "current_value (ESubtract l r) = (current_value l \<or> current_value r)"
| "current_value (EMultiply l r) = (current_value l \<or> current_value r)"

fun current_field :: "guard_condition \<Rightarrow> bool" where
  "current_field (GAll conditions) = list_ex current_field conditions"
| "current_field (GCompare left _ right) = (current_value left \<or> current_value right)"

end
