(* ===== verification/Operation_Admission.thy ===== *)
theory Operation_Admission
  imports Resource_Admission Computation
begin

text \<open>
  Admission of operations: \<open>validate_selection\<close>, \<open>validate_operations\<close>,
  \<open>validate_public_operations\<close> and \<open>validate_capability_operations\<close> of
  \<^verbatim>\<open>crates/noxide-admission/src/manifest.rs\<close>, the query declarations of \<^verbatim>\<open>manifest/query.rs\<close>, and
  the compiled plans and index shapes of \<^verbatim>\<open>query_plan.rs\<close> and \<^verbatim>\<open>query_plan/indexes.rs\<close>.  The registry
  of index shapes is an association list; the order in which a \<open>BTreeMap\<close> would list the shapes is not
  modelled.
\<close>

section \<open>Compiled plans\<close>

record list_plan =
  lp_operation :: nat
  lp_resource :: nat
  lp_preview :: bool
  lp_scope :: "string option"
  lp_strategy :: list_strategy_result
  lp_selection :: "filter_condition list"
  lp_order :: list_order
  lp_limit :: nat

definition compile_plan :: "manifest \<Rightarrow> operation \<Rightarrow> list_plan res" where
  "compile_plan m v =
     ensure (op_kind v = ListOp) ''expected list operation''
     (and_then (find_resource m (op_resource v)) (\<lambda>r.
      Inr \<lparr>lp_operation = op_id v, lp_resource = op_resource v, lp_preview = is_preview v, lp_scope = op_scope v,
        lp_strategy = (if re_expiry r \<noteq> None then residual_strategy (op_policy v)
                       else list_strategy (op_policy v) (op_scope v \<noteq> None)),
        lp_selection = op_filter v,
        lp_order = (case op_list v of None \<Rightarrow> CreatedAsc | Some s \<Rightarrow> lt_order s),
        lp_limit = (case op_list v of None \<Rightarrow> 3 | Some s \<Rightarrow> lt_page_size s)\<rparr>))"

section \<open>Selection\<close>

definition unprojected :: "operation \<Rightarrow> string \<Rightarrow> bool" where
  "unprojected v name \<longleftrightarrow> is_public v \<and> (case op_fields v of None \<Rightarrow> True | Some p \<Rightarrow> name \<notin> set p)"

definition parameter_name :: "string \<Rightarrow> bool" where
  "parameter_name name \<longleftrightarrow> is_identifier name \<and> name \<noteq> ''cursor''"

definition filter_operand_ok :: "text_field \<Rightarrow> operand \<Rightarrow> unit res" where
  "filter_operand_ok f e =
     (case e of
        OLiteral v \<Rightarrow> ensure (field_canonical f v = Inr v) ''noncanonical filter value'' (Inr ())
      | OParam name \<Rightarrow> ensure (parameter_name name) ''invalid filter parameter'' (Inr ()))"

definition filter_ok :: "operation \<Rightarrow> resource \<Rightarrow> filter_condition \<Rightarrow> unit res" where
  "filter_ok v r c =
     and_then (ok_or (resource_field r (fc_field c)) ''unknown filter field'') (\<lambda>f.
     ensure (default_kind (tf_kind f)) ''invalid filter kind''
     (and_then (filter_operand_ok f (fc_equals c)) (\<lambda>_.
      ensure (case op_visibility v of None \<Rightarrow> True | Some s \<Rightarrow> vs_field s \<noteq> fc_field c) ''filter duplicates visibility'' (Inr ()))))"

fun filters_from :: "operation \<Rightarrow> resource \<Rightarrow> string set \<Rightarrow> string set \<Rightarrow> filter_condition list \<Rightarrow> string set res" where
  "filters_from v r filtered inferred [] = Inr inferred"
| "filters_from v r filtered inferred (c # cs) =
     ensure (fc_field c \<notin> filtered) ''duplicate filter field''
     (and_then (filter_ok v r c) (\<lambda>_.
      filters_from v r (insert (fc_field c) filtered)
        (if unprojected v (fc_field c) then insert (fc_field c) inferred else inferred) cs))"

definition list_or_aggregate :: "operation \<Rightarrow> bool" where
  "list_or_aggregate v \<longleftrightarrow> op_kind v \<in> {ListOp, Aggregate}"

definition validate_selection :: "manifest \<Rightarrow> operation \<Rightarrow> unit res" where
  "validate_selection m v =
     ensure (op_filter v = [] \<or> list_or_aggregate v) ''filter requires list''
     (ensure (op_disclose v = [] \<or> list_or_aggregate v \<and> is_public v) ''disclose requires public list''
     (ensure (length (op_filter v) \<le> 4) ''filter limit''
     (and_then (find_resource m (op_resource v)) (\<lambda>r.
      and_then (filters_from v r {} {} (op_filter v)) (\<lambda>inferred.
      ensure (distinct (op_disclose v) \<and> set (op_disclose v) = inferred) ''invalid filter disclosure'' (Inr ()))))))"

section \<open>Operations\<close>

definition follow_ok :: "manifest \<Rightarrow> operation \<Rightarrow> via \<Rightarrow> unit res" where
  "follow_ok m v via =
     and_then (find_operation m (via_source via)) (\<lambda>source.
     ensure (op_via source = None \<and> op_kind source \<in> {ReadOp, ListOp}) ''invalid follow source''
     (and_then (find_resource m (op_resource source)) (\<lambda>r.
      and_then (if reference_field r (via_field via) = None then Inr False
                else and_then (reference_resource m (op_resource source) (via_field via)) (\<lambda>found.
                       Inr (case found of None \<Rightarrow> False | Some target \<Rightarrow> re_id target = op_resource v))) (\<lambda>ok.
      ensure ok ''invalid follow reference''
      (ensure (case op_fields source of None \<Rightarrow> True | Some fields' \<Rightarrow> via_field via \<in> set fields')
        ''follow source projection hides reference'' (Inr ()))))))"

definition bind_ok :: "manifest \<Rightarrow> operation \<Rightarrow> string \<times> nat \<Rightarrow> unit res" where
  "bind_ok m v = (\<lambda>(field, n).
     and_then (reference_resource m (op_resource v) field) (\<lambda>found.
     and_then (ok_or found ''binding requires reference field'') (\<lambda>target.
     and_then (find_operation m n) (\<lambda>eligible.
     ensure (op_kind eligible = ReadOp \<and> op_via eligible = None \<and> op_resource eligible = re_id target)
       ''invalid binding eligibility'' (Inr ())))))"

definition predicate_ok :: "manifest \<Rightarrow> operation \<Rightarrow> predicate \<Rightarrow> unit res" where
  "predicate_ok m v p =
     (case p of
        PrincipalIs field \<Rightarrow>
          ensure (op_kind v \<in> {ReadOp, ListOp, Aggregate, CreateOp}) ''principal_is requires read, list, or create''
          (and_then (find_resource m (op_resource v)) (\<lambda>r.
           ensure (list_ex (\<lambda>f. tf_name f = field \<and> is_account (tf_kind f)) (re_fields r))
             ''principal_is requires an account field'' (Inr ())))
      | Role name _ \<Rightarrow> ensure (is_identifier name) ''invalid role'' (Inr ())
      | _ \<Rightarrow> Inr ())"

definition rule_ok :: "manifest \<Rightarrow> operation \<Rightarrow> predicate list \<Rightarrow> unit res" where
  "rule_ok m v rule =
     ensure (rule \<noteq> [] \<and> length rule \<le> 4) ''invalid policy rule'' (each_ok (predicate_ok m v) rule)"

definition binds_ok :: "manifest \<Rightarrow> operation \<Rightarrow> resource \<Rightarrow> unit res" where
  "binds_ok m v r =
     ensure (op_bind v = [] \<or> op_kind v = CreateOp) ''binding eligibility requires create''
     (ensure (op_kind v = CreateOp \<longrightarrow> length (op_bind v) = length (reference_fields r)) ''every reference requires eligibility''
       (each_ok (bind_ok m v) (op_bind v)))"

definition scope_ok :: "operation \<Rightarrow> resource \<Rightarrow> unit res" where
  "scope_ok v r =
     ensure (case op_scope v of None \<Rightarrow> True | Some s \<Rightarrow> reference_field r s \<noteq> None) ''scope requires reference field''
     (ensure (case re_gate r of Some g \<Rightarrow> list_or_aggregate v \<longrightarrow> op_scope v = Some (gt_field g) | None \<Rightarrow> True)
       ''gated list requires scope'' (Inr ()))"

definition operation_ok :: "manifest \<Rightarrow> operation \<Rightarrow> unit res" where
  "operation_ok m v =
     ensure (op_scope v = None \<or> list_or_aggregate v) ''scope requires list''
     (ensure (op_via v = None \<or> op_kind v = ReadOp) ''via requires read''
     (ensure (op_scope v = None \<or> op_via v = None) ''scope and via are exclusive''
     (and_then (find_resource m (op_resource v)) (\<lambda>r.
      and_then (scope_ok v r) (\<lambda>_.
      and_then (case op_via v of None \<Rightarrow> Inr () | Some via \<Rightarrow> follow_ok m v via) (\<lambda>_.
      and_then (binds_ok m v r) (\<lambda>_.
      and_then (validate_selection m v) (\<lambda>_.
      and_then (if op_kind v = ListOp then and_then (compile_plan m v) (\<lambda>_. Inr ()) else Inr ()) (\<lambda>_.
      ensure (case op_list v of None \<Rightarrow> True | Some s \<Rightarrow> op_kind v = ListOp \<and> 1 \<le> lt_page_size s \<and> lt_page_size s \<le> 20)
        ''invalid list settings''
      (ensure (list_ex (\<lambda>r. re_id r = op_resource v) (mf_resources m)) ''unknown resource''
      (ensure (any_of (op_policy v) \<noteq> [] \<and> length (any_of (op_policy v)) \<le> 8) ''invalid policy''
        (each_ok (rule_ok m v) (any_of (op_policy v))))))))))))))"

definition validate_operations :: "manifest \<Rightarrow> unit res" where
  "validate_operations m = each_ok (operation_ok m) (mf_operations m)"

section \<open>Public and capability operations\<close>

definition public_ok :: "manifest \<Rightarrow> operation \<Rightarrow> unit res" where
  "public_ok m v =
     (if \<not> is_public v then
        ensure (op_visibility v = None \<and> op_fields v = None)
          ''private operations cannot declare public visibility or fields'' (Inr ())
      else
        ensure (any_of (op_policy v) = [[Public]]) ''public policy must stand alone''
        (if op_kind v = CreateOp then
           ensure (op_visibility v = None \<and> op_fields v = None) ''public create cannot project or filter'' (Inr ())
         else
           ensure (op_kind v \<in> {ListOp, ReadOp, Aggregate}) ''public operations must read''
           (and_then (ok_or (op_visibility v) ''public visibility required'') (\<lambda>s.
            and_then (find_resource m (op_resource v)) (\<lambda>r.
            and_then (ok_or (resource_field r (vs_field s)) ''unknown visibility field'') (\<lambda>f.
            ensure (default_kind (tf_kind f)) ''visibility must be boolean or choice''
            (ensure (field_canonical f (vs_equals s) = Inr (vs_equals s)) ''visibility must be canonical''
            (and_then (ok_or (op_fields v) ''public fields required'') (\<lambda>names.
             ensure (names \<noteq> []) ''empty public fields''
               (and_then (projected_fields r names) (\<lambda>_. Inr ())))))))))))"

definition validate_public_operations :: "manifest \<Rightarrow> unit res" where
  "validate_public_operations m = each_ok (public_ok m) (mf_operations m)"

definition capability_ok :: "operation \<Rightarrow> unit res" where
  "capability_ok v =
     (if is_capability v then
        ensure (any_of (op_policy v) = [[Capability]] \<and> op_kind v \<in> {UpdateOp, DeleteOp})
          ''capability policy requires standalone update or delete'' (Inr ())
      else Inr ())"

definition validate_capability_operations :: "manifest \<Rightarrow> unit res" where
  "validate_capability_operations m = each_ok capability_ok (mf_operations m)"

section \<open>Query declarations\<close>

datatype cursor_value = CursorInteger int | CursorBinary string

definition query_scalar :: "text_field \<Rightarrow> string \<Rightarrow> cursor_value res" where
  "query_scalar f v =
     ensure (\<not> tf_optional f) ''optional query scalar''
     (ensure (field_canonical f v = Inr v) ''noncanonical query scalar''
      (case tf_kind f of
         KInteger _ _ \<Rightarrow> and_then (read_i64 v) (\<lambda>n. Inr (CursorInteger n))
       | KTimestamp \<Rightarrow> and_then (read_i64 v) (\<lambda>n. Inr (CursorInteger n))
       | KDuration _ \<Rightarrow> and_then (read_i64 v) (\<lambda>n. Inr (CursorInteger n))
       | KReference _ \<Rightarrow> and_then (read_i64 v) (\<lambda>n. Inr (CursorInteger n))
       | KText \<Rightarrow> Inr (CursorBinary v)
       | KBoolean \<Rightarrow> Inr (CursorBinary v)
       | KChoice _ \<Rightarrow> Inr (CursorBinary v)
       | KAccount _ \<Rightarrow> Inr (CursorBinary v)
       | _ \<Rightarrow> Inl ''query scalar kind is unsupported''))"

definition scalar_field :: "text_field \<Rightarrow> unit res" where
  "scalar_field f =
     ensure (\<not> tf_optional f) ''optional sort/range key''
     (case tf_kind f of
        KText \<Rightarrow> ensure (tf_max_bytes f \<le> 512) ''Text sort/range key exceeds512 UTF8 bytes'' (Inr ())
      | k \<Rightarrow> ensure (\<not> opaque_kind k) ''query scalar kind is unsupported'' (Inr ()))"

definition query_field :: "resource \<Rightarrow> string \<Rightarrow> text_field res" where
  "query_field r name = ok_or (resource_field r name) ''unknown query field''"

definition query_names :: "string list \<Rightarrow> nat \<Rightarrow> unit res" where
  "query_names names limit =
     ensure (names \<noteq> [] \<and> length names \<le> limit) ''query field limit''
     (ensure (list_all is_identifier names \<and> distinct names) ''duplicate or invalid query field'' (Inr ()))"

definition query_operand :: "text_field \<Rightarrow> operand \<Rightarrow> unit res" where
  "query_operand f e =
     (case e of
        OLiteral v \<Rightarrow> and_then (query_scalar f v) (\<lambda>_. Inr ())
      | OParam name \<Rightarrow> ensure (parameter_name name) ''invalid range parameter'' (Inr ()))"

definition envelope_equal :: "operation \<Rightarrow> operation \<Rightarrow> bool" where
  "envelope_equal l r \<longleftrightarrow>
     op_resource l = op_resource r \<and> op_policy l = op_policy r \<and> op_scope l = op_scope r \<and> op_via l = op_via r
     \<and> op_bind l = op_bind r \<and> op_filter l = op_filter r \<and> op_disclose l = op_disclose r
     \<and> op_visibility l = op_visibility r \<and> op_fields l = op_fields r"

definition search_index_ok :: "resource \<Rightarrow> unit res" where
  "search_index_ok r =
     (case re_search r of
        None \<Rightarrow> Inr ()
      | Some x \<Rightarrow>
          ensure (sx_tokenizer x = TOKENIZER_ID) ''unsupported search tokenizer; explicit rebuild required''
          (and_then (query_names (sx_fields x) 4) (\<lambda>_.
           ensure (1 \<le> sx_max_bytes x \<and> sx_max_bytes x \<le> 16384) ''indexed input byte declaration''
             (each_ok (\<lambda>name. and_then (query_field r name) (\<lambda>f.
                ensure (tf_kind f = KText) ''search index requires Text fields'' (Inr ()))) (sx_fields x)))))"

text \<open>Each part of a query infers what a reader could learn about fields it is not shown.\<close>

definition infers :: "operation \<Rightarrow> string \<Rightarrow> disclosure \<Rightarrow> disclosure set" where
  "infers v name d = (if unprojected v name then {d} else {})"

definition order_disclosure :: "operation \<Rightarrow> resource \<Rightarrow> disclosure set res" where
  "order_disclosure v r =
     (case map_option lt_order (op_list v) of
        Some (FieldOrder name _ mode) \<Rightarrow>
          ensure (op_kind v = ListOp) ''scalar order requires list''
          (and_then (query_field r name) (\<lambda>key.
           and_then (scalar_field key) (\<lambda>_.
           ensure (mode = LiveView \<or> is_immutable key) ''mutable order requires explicit live_view''
             (Inr (infers v name (OrderDisclosure name))))))
      | _ \<Rightarrow> Inr {})"

fun search_fields :: "operation \<Rightarrow> search_index \<Rightarrow> string list \<Rightarrow> disclosure set res" where
  "search_fields v x [] = Inr {}"
| "search_fields v x (name # names) =
     ensure (name \<in> set (sx_fields x)) ''search field is not indexed''
     (and_then (search_fields v x names) (\<lambda>ds. Inr (infers v name (SearchDisclosure name) \<union> ds)))"

definition search_disclosure :: "operation \<Rightarrow> resource \<Rightarrow> search \<Rightarrow> disclosure set res" where
  "search_disclosure v r s =
     ensure (op_kind v = ListOp) ''search requires list''
     (and_then (query_names (sh_fields s) 4) (\<lambda>_.
      ensure (parameter_name (sh_parameter s)) ''invalid search parameter''
      (and_then (ok_or (re_search r) ''search index is not declared'') (\<lambda>x. search_fields v x (sh_fields s)))))"

definition compare_cursors :: "cursor_value \<Rightarrow> cursor_value \<Rightarrow> ordering res" where
  "compare_cursors l r =
     (case (l, r) of
        (CursorInteger a, CursorInteger b) \<Rightarrow> Inr (cmp a b)
      | (CursorBinary a, CursorBinary b) \<Rightarrow> Inr (cmp a b)
      | _ \<Rightarrow> Inl ''unreachable'')"

definition bounds_ok :: "text_field \<Rightarrow> range \<Rightarrow> unit res" where
  "bounds_ok key g =
     (case (rg_lower g, rg_upper g) of
        (Some lower, Some upper) \<Rightarrow>
          (case (bd_value lower, bd_value upper) of
             (OLiteral a, OLiteral b) \<Rightarrow>
               and_then (query_scalar key a) (\<lambda>x.
               and_then (query_scalar key b) (\<lambda>y.
               and_then (compare_cursors x y) (\<lambda>ord.
               ensure (ord = Less \<or> ord = Equal \<and> bd_inclusive lower \<and> bd_inclusive upper) ''empty or inverted range''
                 (Inr ()))))
           | _ \<Rightarrow> Inr ())
      | _ \<Rightarrow> Inr ())"

definition range_bounds :: "range \<Rightarrow> range_bound list" where
  "range_bounds g = List.map_filter (\<lambda>b. b) [rg_lower g, rg_upper g]"

definition range_disclosure :: "operation \<Rightarrow> resource \<Rightarrow> range \<Rightarrow> disclosure set res" where
  "range_disclosure v r g =
     ensure (op_kind v = ListOp) ''range requires list''
     (ensure (case map_option lt_order (op_list v) of Some (FieldOrder name _ _) \<Rightarrow> name = rg_field g | _ \<Rightarrow> False)
       ''range must use the ordered scalar''
     (and_then (query_field r (rg_field g)) (\<lambda>key.
      and_then (scalar_field key) (\<lambda>_.
      ensure (rg_lower g \<noteq> None \<or> rg_upper g \<noteq> None) ''range requires a bound''
      (and_then (each_ok (\<lambda>b. query_operand key (bd_value b)) (range_bounds g)) (\<lambda>_.
       and_then (bounds_ok key g) (\<lambda>_.
       Inr (infers v (rg_field g) (RangeDisclosure (rg_field g))))))))))"

definition aggregate_operand :: "resource \<Rightarrow> aggregate_function \<Rightarrow> string option res" where
  "aggregate_operand r fn =
     (case fn of
        Count \<Rightarrow> Inr None
      | Sum name \<Rightarrow>
          and_then (query_field r name) (\<lambda>key.
          ensure (\<not> tf_optional key \<and> (case tf_kind key of KInteger _ _ \<Rightarrow> True | _ \<Rightarrow> False)) ''sum requires required i64 field''
            (Inr (Some name)))
      | MinOf name \<Rightarrow>
          and_then (query_field r name) (\<lambda>key.
          ensure (\<not> tf_optional key \<and> (case tf_kind key of KInteger _ _ \<Rightarrow> True | KTimestamp \<Rightarrow> True | _ \<Rightarrow> False))
            ''min/max require required i64 or Timestamp field'' (Inr (Some name)))
      | MaxOf name \<Rightarrow>
          and_then (query_field r name) (\<lambda>key.
          ensure (\<not> tf_optional key \<and> (case tf_kind key of KInteger _ _ \<Rightarrow> True | KTimestamp \<Rightarrow> True | _ \<Rightarrow> False))
            ''min/max require required i64 or Timestamp field'' (Inr (Some name))))"

definition no_aggregate :: "operation \<Rightarrow> bool" where
  "no_aggregate v \<longleftrightarrow> (case op_query v of None \<Rightarrow> True | Some q \<Rightarrow> qu_aggregate q = None)"

definition aggregate_disclosure :: "manifest \<Rightarrow> operation \<Rightarrow> resource \<Rightarrow> query \<Rightarrow> aggregate \<Rightarrow> disclosure set res" where
  "aggregate_disclosure m v r q g =
     ensure (qu_search q = None \<and> qu_range q = None \<and> op_list v = None) ''aggregate cannot override list search/range/order''
     (and_then (find_operation m (ag_source g)) (\<lambda>source.
      ensure (op_id source \<noteq> op_id v \<and> op_kind source = ListOp \<and> op_via source = None \<and> no_aggregate source)
        ''aggregate source must be a direct List''
      (ensure (case op_list source of None \<Rightarrow> True | Some s \<Rightarrow> lt_preview s = None) ''aggregate source cannot be a preview''
      (ensure (envelope_equal v source) ''aggregate source authority/selection mismatch''
      (and_then (aggregate_operand r (ag_function g)) (\<lambda>e.
       Inr (if is_public v then {AggregateDisclosure e} else {})))))))"

definition declared_query :: "manifest \<Rightarrow> operation \<Rightarrow> unit res" where
  "declared_query m v =
     and_then (find_resource m (op_resource v)) (\<lambda>r.
     let q = op_query v in
     ensure (case q of None \<Rightarrow> True | Some q \<Rightarrow> \<not> query_empty q) ''empty query extension''
     (and_then (order_disclosure v r) (\<lambda>d1.
      and_then (case Option.bind q qu_search of None \<Rightarrow> Inr {} | Some s \<Rightarrow> search_disclosure v r s) (\<lambda>d2.
      and_then (case Option.bind q qu_range of None \<Rightarrow> Inr {} | Some g \<Rightarrow> range_disclosure v r g) (\<lambda>d3.
      let aggregate = Option.bind q qu_aggregate in
      ensure ((op_kind v = Aggregate) = (aggregate \<noteq> None)) ''aggregate kind/source declaration mismatch''
      (and_then (case (q, aggregate) of (Some q, Some g) \<Rightarrow> aggregate_disclosure m v r q g | _ \<Rightarrow> Inr {}) (\<lambda>d4.
       let declared = (case q of None \<Rightarrow> [] | Some q \<Rightarrow> qu_disclose q) in
       ensure (distinct declared \<and> set declared = d1 \<union> d2 \<union> d3 \<union> d4) ''invalid query inference disclosure'' (Inr ()))))))))"

definition validate_query_declarations :: "manifest \<Rightarrow> unit res" where
  "validate_query_declarations m =
     and_then (each_ok search_index_ok (mf_resources m)) (\<lambda>_. each_ok (declared_query m) (mf_operations m))"

section \<open>Required indexes\<close>

datatype index_table = Records | Postings
datatype scalar_representation = Numeric | Binary
datatype index_order = CreatedOrder | ScalarOrder string scalar_representation

type_synonym index_shape = "string \<times> index_table \<times> index_column list \<times> index_order"
type_synonym index_keys = "(index_shape \<times> nat list) list"

definition posting_shape :: "resource \<Rightarrow> index_shape" where
  "posting_shape r = (re_name r, Postings, [], CreatedOrder)"

definition posting_keys :: "manifest \<Rightarrow> index_keys" where
  "posting_keys m = map (\<lambda>r. (posting_shape r, [])) (filter (\<lambda>r. re_search r \<noteq> None) (mf_resources m))"

definition push_query :: "index_shape \<Rightarrow> nat \<Rightarrow> index_keys \<Rightarrow> index_keys" where
  "push_query shape n keys = AList.update shape ((case map_of keys shape of None \<Rightarrow> [] | Some ns \<Rightarrow> ns) @ [n]) keys"

definition representation :: "field_kind \<Rightarrow> scalar_representation res" where
  "representation k =
     (case k of
        KInteger _ _ \<Rightarrow> Inr Numeric | KTimestamp \<Rightarrow> Inr Numeric | KDuration _ \<Rightarrow> Inr Numeric | KReference _ \<Rightarrow> Inr Numeric
      | KText \<Rightarrow> Inr Binary | KBoolean \<Rightarrow> Inr Binary | KChoice _ \<Rightarrow> Inr Binary | KAccount _ \<Rightarrow> Inr Binary
      | _ \<Rightarrow> Inl ''unsupported scalar index'')"

definition plan_order :: "resource \<Rightarrow> list_order \<Rightarrow> index_order res" where
  "plan_order r ord =
     (case ord of
        FieldOrder name _ _ \<Rightarrow>
          and_then (ok_or (resource_field r name) ''unknown scalar field'') (\<lambda>schema.
          and_then (representation (tf_kind schema)) (\<lambda>p. Inr (ScalarOrder name p)))
      | _ \<Rightarrow> Inr CreatedOrder)"

definition strategy_scans :: "list_strategy_result \<Rightarrow> scan_rule option list" where
  "strategy_scans s = (case s of Single \<Rightarrow> [None] | Merge scans \<Rightarrow> map Some scans)"

definition is_search :: "operation \<Rightarrow> bool" where
  "is_search v \<longleftrightarrow> Option.bind (op_query v) qu_search \<noteq> None"

definition is_scalar_list :: "operation \<Rightarrow> bool" where
  "is_scalar_list v \<longleftrightarrow> (case map_option lt_order (op_list v) of Some (FieldOrder _ _ _) \<Rightarrow> True | _ \<Rightarrow> False)"

definition is_aggregate_source :: "manifest \<Rightarrow> operation \<Rightarrow> bool" where
  "is_aggregate_source m v \<longleftrightarrow>
     list_ex (\<lambda>c. case Option.bind (op_query c) qu_aggregate of None \<Rightarrow> False | Some g \<Rightarrow> ag_source g = op_id v) (mf_operations m)"

definition scan_columns :: "operation \<Rightarrow> list_plan \<Rightarrow> bool \<Rightarrow> scan_rule option \<Rightarrow> index_column list" where
  "scan_columns v plan extended chosen =
     index_prefix (op_policy v) chosen
     @ (if extended \<or> lp_strategy plan = Single then
          (case lp_scope plan of None \<Rightarrow> [] | Some p \<Rightarrow> [ColField p])
          @ (case op_visibility v of None \<Rightarrow> [] | Some s \<Rightarrow> [ColField (vs_field s)])
        else [])
     @ map ColField (sort (map fc_field (op_filter v)))"

definition list_keys :: "manifest \<Rightarrow> operation \<Rightarrow> index_keys \<Rightarrow> index_keys res" where
  "list_keys m v keys =
     (let search = is_search v; scalar = is_scalar_list v; source = is_aggregate_source m v;
          extended = (search \<or> scalar \<or> source) in
      if search \<and> \<not> scalar \<and> op_scope v = None then
        and_then (find_resource m (op_resource v)) (\<lambda>r.
        and_then (ok_or (map_of keys (posting_shape r)) ''search declaration required'') (\<lambda>_.
        Inr (push_query (posting_shape r) (op_id v) keys)))
      else if op_filter v = [] \<and> \<not> extended then Inr keys
      else
        and_then (compile_plan m v) (\<lambda>plan.
        and_then (find_resource m (op_resource v)) (\<lambda>r.
        and_then (plan_order r (lp_order plan)) (\<lambda>order.
        let scans = strategy_scans (if extended then residual_strategy (op_policy v) else lp_strategy plan)
              @ (if source \<and> \<not> search \<and> \<not> scalar \<and> op_filter v \<noteq> [] then strategy_scans (lp_strategy plan) else []) in
        Inr (fold (\<lambda>chosen. push_query (re_name r, Records, scan_columns v plan extended chosen, order) (op_id v)) scans keys)))))"

definition membership_shape :: "membership_plan \<Rightarrow> index_shape" where
  "membership_shape p =
     (er_resource (mp_declaration p), Records,
      [ColTenant, ColField (er_reference (mp_declaration p)), ColField (er_account (mp_declaration p))]
        @ map (\<lambda>(name, _). ColField name) (er_conditions (mp_declaration p))
        @ (case re_expiry (mp_resource p) of None \<Rightarrow> [] | Some x \<Rightarrow> [ColTimestamp (xp_field x)]),
      CreatedOrder)"

definition membership_keys :: "manifest \<Rightarrow> operation \<Rightarrow> index_keys \<Rightarrow> index_keys res" where
  "membership_keys m v keys =
     and_then (membership_plans m v) (\<lambda>plans. Inr (fold (\<lambda>p. push_query (membership_shape p) (op_id v)) plans keys))"

fun fold_ok :: "('a \<Rightarrow> 's \<Rightarrow> 's res) \<Rightarrow> 'a list \<Rightarrow> 's \<Rightarrow> 's res" where
  "fold_ok f [] s = Inr s"
| "fold_ok f (x # xs) s = and_then (f x s) (fold_ok f xs)"

record index_requirement =
  ir_shape :: index_shape
  ir_queries :: "nat list"

definition required_indexes :: "manifest \<Rightarrow> index_requirement list res" where
  "required_indexes m =
     and_then (fold_ok (list_keys m) (filter (\<lambda>v. op_kind v = ListOp) (mf_operations m)) (posting_keys m)) (\<lambda>keys.
     and_then (fold_ok (membership_keys m) (mf_operations m) keys) (\<lambda>keys.
     ensure (list_all (\<lambda>r. length (filter (\<lambda>((name, _), _). name = re_name r) keys) \<le> 8) (mf_resources m)) ''derived index limit''
       (Inr (map (\<lambda>(shape, ns). \<lparr>ir_shape = shape, ir_queries = sort (remdups ns)\<rparr>) keys))))"

end
