(* ===== verification/Route_Admission.thy ===== *)
theory Route_Admission
  imports Operation_Admission Render_Forms Ordered_Map
begin

text \<open>
  Admission of routes: the parameter table of a route, its validation against a request
  (\<open>parameter_fields\<close>, \<open>validate_params\<close>) and \<open>validate_routes\<close> of
  \<^verbatim>\<open>crates/noxide-admission/src/manifest.rs\<close>.
\<close>

section \<open>Parameters\<close>

definition compatible_destination :: "parameter_field \<Rightarrow> parameter_field \<Rightarrow> bool" where
  "compatible_destination source target =
     (case (source, target) of
        (PSearch, PSearch) \<Rightarrow> True
      | (PField s, PField t) \<Rightarrow> tf_kind s = tf_kind t \<and> (\<not> tf_optional s \<or> tf_optional t)
      | _ \<Rightarrow> False)"

definition merge_parameter :: "parameter_field \<Rightarrow> parameter_field \<Rightarrow> parameter_field res" where
  "merge_parameter previous p =
     (case (previous, p) of
        (PSearch, PSearch) \<Rightarrow> Inr PSearch
      | (PField a, PField b) \<Rightarrow>
          ensure (tf_kind a = tf_kind b) ''inconsistent parameter kind''
            (Inr (PField (a\<lparr>tf_optional := tf_optional a \<and> tf_optional b, tf_max_bytes := min (tf_max_bytes a) (tf_max_bytes b)\<rparr>)))
      | _ \<Rightarrow> Inl ''inconsistent parameter kind'')"

type_synonym parameter_table = "(string, parameter_field) btree"

definition add_parameter :: "route \<Rightarrow> string \<times> parameter_field \<Rightarrow> parameter_table \<Rightarrow> parameter_table res" where
  "add_parameter r = (\<lambda>(name, p) table.
     ensure (name \<in> set (rt_params r)) ''undeclared route parameter''
     (case bt_get table name of
        None \<Rightarrow> Inr (bt_insert name p table)
      | Some previous \<Rightarrow> and_then (merge_parameter previous p) (\<lambda>q. Inr (bt_insert name q table))))"

text \<open>An aggregate takes the parameters of its source list.\<close>

definition parameter_source :: "manifest \<Rightarrow> operation \<Rightarrow> operation res" where
  "parameter_source m declared =
     (case Option.bind (op_query declared) qu_aggregate of
        None \<Rightarrow> Inr declared
      | Some g \<Rightarrow>
          and_then (find_operation m (ag_source g)) (\<lambda>source.
          ensure (op_kind source = ListOp \<and> no_aggregate source) ''invalid aggregate source'' (Inr source)))"

definition field_parameter :: "resource \<Rightarrow> string \<Rightarrow> operand \<Rightarrow> (string \<times> parameter_field) list res" where
  "field_parameter r name e =
     (case e of
        OLiteral _ \<Rightarrow> Inr []
      | OParam p \<Rightarrow> and_then (query_field r name) (\<lambda>f. Inr [(p, PField f)]))"

fun map_ok :: "('a \<Rightarrow> 'b res) \<Rightarrow> 'a list \<Rightarrow> 'b list res" where
  "map_ok f [] = Inr []"
| "map_ok f (x # xs) = and_then (f x) (\<lambda>y. and_then (map_ok f xs) (\<lambda>ys. Inr (y # ys)))"

definition operation_parameters :: "manifest \<Rightarrow> nat \<Rightarrow> (string \<times> parameter_field) list res" where
  "operation_parameters m n =
     and_then (find_operation m n) (\<lambda>declared.
     and_then (parameter_source m declared) (\<lambda>v.
     and_then (find_resource m (op_resource v)) (\<lambda>r.
     and_then (map_ok (\<lambda>c. field_parameter r (fc_field c) (fc_equals c)) (op_filter v)) (\<lambda>filters.
     let search = (case Option.bind (op_query v) qu_search of None \<Rightarrow> [] | Some s \<Rightarrow> [(sh_parameter s, PSearch)]) in
     and_then (case Option.bind (op_query v) qu_range of
                 None \<Rightarrow> Inr []
               | Some g \<Rightarrow> map_ok (\<lambda>b. field_parameter r (rg_field g) (bd_value b)) (range_bounds g)) (\<lambda>ranges.
     Inr (concat filters @ search @ concat ranges))))))"

definition parameter_fields :: "manifest \<Rightarrow> route \<Rightarrow> parameter_table res" where
  "parameter_fields m r =
     fold_ok (\<lambda>n table. and_then (operation_parameters m n) (\<lambda>ps. fold_ok (add_parameter r) ps table)) (rt_operations r) []"

definition validate_route_params :: "manifest \<Rightarrow> route \<Rightarrow> unit res" where
  "validate_route_params m r =
     ensure (rt_path r \<noteq> ''/'' \<or> rt_params r = []) ''index route cannot declare parameters''
     (ensure (length (rt_params r) \<le> 4 \<and> distinct (rt_params r) \<and> list_all parameter_name (rt_params r)) ''invalid route parameters''
     (and_then (parameter_fields m r) (\<lambda>table.
      ensure (length table = length (rt_params r)) ''unused route parameter'' (Inr ()))))"

definition parameter_value_ok :: "entries \<Rightarrow> string \<times> parameter_field \<Rightarrow> unit res" where
  "parameter_value_ok given = (\<lambda>(name, p).
     and_then (ok_or (map_of given name) ''missing route parameter'') (parameter_validate p))"

definition validate_params :: "manifest \<Rightarrow> route \<Rightarrow> entries \<Rightarrow> unit res" where
  "validate_params m r given =
     and_then (parameter_fields m r) (\<lambda>table.
     ensure (length given = length (rt_params r) \<and> list_all (\<lambda>name. name \<in> set (map fst given)) (rt_params r)) ''invalid route parameters''
       (each_ok (parameter_value_ok given) table))"

section \<open>Routes\<close>

definition selection_map :: "operation \<Rightarrow> string \<Rightarrow> operand option" where
  "selection_map v = map_of (rev (map (\<lambda>c. (fc_field c, fc_equals c)) (op_filter v)))"

definition selection_equal :: "operation \<Rightarrow> operation \<Rightarrow> bool" where
  "selection_equal l r \<longleftrightarrow>
     list_all (\<lambda>name. selection_map l name = selection_map r name) (map fc_field (op_filter l) @ map fc_field (op_filter r))"

definition public_route_ok :: "manifest \<Rightarrow> route \<Rightarrow> unit res" where
  "public_route_ok m r =
     (if rt_access r = AccessPublic then
        ensure (rt_forms r = []) ''public routes cannot have forms''
          (each_ok (\<lambda>n. and_then (find_operation m n) (\<lambda>v.
             ensure (is_public v) ''public routes require public operations'' (Inr ()))) (rt_operations r))
      else Inr ())"

definition list_rows :: "operation \<Rightarrow> nat" where
  "list_rows v = (case op_list v of None \<Rightarrow> 3 | Some s \<Rightarrow> lt_page_size s)"

definition full_list :: "manifest \<Rightarrow> operation \<Rightarrow> nat \<Rightarrow> bool" where
  "full_list m v n =
     (case find_operation m n of
        Inl _ \<Rightarrow> False
      | Inr full \<Rightarrow> op_kind full = ListOp \<and> \<not> is_preview full \<and> op_resource full = op_resource v \<and> op_policy full = op_policy v
          \<and> op_visibility full = op_visibility v \<and> op_scope full = op_scope v \<and> selection_equal full v)"

definition preview_ok :: "manifest \<Rightarrow> route \<Rightarrow> operation \<Rightarrow> unit res" where
  "preview_ok m r v =
     (case Option.bind (Option.bind (op_list v) lt_preview) pv_see_all of
        None \<Rightarrow> Inr ()
      | Some n \<Rightarrow>
          and_then (manifest_route m n) (\<lambda>destination.
          ensure (list_all (\<lambda>name. name \<in> set (rt_params r)) (rt_params destination)) ''preview destination parameters''
          (and_then (parameter_fields m r) (\<lambda>source.
           and_then (parameter_fields m destination) (\<lambda>targets.
           and_then (each_ok (\<lambda>(name, target).
               and_then (ok_or (bt_get source name) ''preview destination parameters'') (\<lambda>s.
               ensure (compatible_destination s target) ''incompatible preview destination parameter'' (Inr ()))) targets) (\<lambda>_.
           ensure (list_ex (full_list m v) (rt_operations destination)) ''invalid preview destination'' (Inr ())))))))"

definition route_lists_ok :: "manifest \<Rightarrow> route \<Rightarrow> unit res" where
  "route_lists_ok m r =
     and_then (map_ok (find_operation m) (rt_operations r)) (\<lambda>vs.
     let lists = filter (\<lambda>v. op_kind v = ListOp) vs in
     ensure (length lists \<le> 4) ''route list limit''
     (ensure (length (filter (\<lambda>v. \<not> is_preview v) lists) \<le> 1) ''route paginated list limit''
     (ensure (sum_list (map list_rows lists) \<le> 40) ''route list row budget''
       (each_ok (preview_ok m r) lists))))"

definition list_metadata :: "manifest \<Rightarrow> operation \<Rightarrow> operation res" where
  "list_metadata m v =
     (case Option.bind (op_query v) qu_aggregate of None \<Rightarrow> Inr v | Some g \<Rightarrow> find_operation m (ag_source g))"

definition scope_target :: "manifest \<Rightarrow> operation \<Rightarrow> nat option res" where
  "scope_target m v =
     (case op_scope v of
        None \<Rightarrow> Inr None
      | Some scope \<Rightarrow> and_then (reference_resource m (op_resource v) scope) (\<lambda>p. Inr (map_option re_id p)))"

definition route_operation_ok :: "manifest \<Rightarrow> route \<Rightarrow> nat \<Rightarrow> unit res" where
  "route_operation_ok m r n =
     and_then (find_operation m n) (\<lambda>v.
     case op_via v of
       Some via \<Rightarrow> ensure (via_source via \<in> set (rt_operations r)) ''follow route requires source'' (Inr ())
     | None \<Rightarrow>
         if list_or_aggregate v then
           and_then (list_metadata m v) (\<lambda>metadata.
           and_then (scope_target m metadata) (\<lambda>target.
           ensure (rt_route_resource r = target) ''list requires scope route or collection route'' (Inr ())))
         else
           ensure (op_kind v = ReadOp \<and> rt_route_resource r = Some (op_resource v)) ''route operation mismatch'' (Inr ()))"

definition record_route_ok :: "manifest \<Rightarrow> route \<Rightarrow> unit res" where
  "record_route_ok m r =
     (case rt_route_resource r of
        None \<Rightarrow> Inr ()
      | Some n \<Rightarrow>
          and_then (find_resource m n) (\<lambda>_.
          ensure (list_ex (\<lambda>k. case find_operation m k of Inl _ \<Rightarrow> False
                    | Inr v \<Rightarrow> op_kind v = ReadOp \<and> op_via v = None \<and> op_resource v = n) (rt_operations r))
            ''record route requires a read operation'' (Inr ())))"

definition page_source :: "target_source \<Rightarrow> bool" where
  "page_source s = (case s of TPage _ \<Rightarrow> True | _ \<Rightarrow> False)"

definition form_assignment_ok :: "route \<Rightarrow> action \<Rightarrow> operation \<Rightarrow> assignment \<Rightarrow> unit res" where
  "form_assignment_ok r a v x =
     (case as_change x of
        ChangeSet (ETarget name) \<Rightarrow>
          and_then (find_target (ac_targets a) name) (\<lambda>t.
          if page_source (tg_source t) then
            and_then (ok_or (map_of (op_bind v) (as_field x)) ''reference create requires field eligibility'') (\<lambda>eligible.
            ensure (eligible \<in> set (rt_operations r)) ''page reference eligibility must be on form route'' (Inr ()))
          else Inr ())
      | _ \<Rightarrow> Inr ())"

definition route_form_ok :: "manifest \<Rightarrow> route \<Rightarrow> nat \<Rightarrow> unit res" where
  "route_form_ok m r n =
     and_then (web_action_of m n) (\<lambda>w.
     and_then (each_ok (\<lambda>s. and_then (find_operation m (sp_operation s)) (\<lambda>v.
         each_ok (form_assignment_ok r (wa_core w) v) (sp_assign s))) (ac_steps (wa_core w))) (\<lambda>_.
     and_then (page_resource (ac_targets (wa_core w))) (\<lambda>target.
     ensure (case target of None \<Rightarrow> True | Some t \<Rightarrow> rt_route_resource r = Some t)
       ''mutation form requires its signed target route'' (Inr ()))))"

definition route_ok :: "manifest \<Rightarrow> string set \<Rightarrow> route \<Rightarrow> unit res" where
  "route_ok m paths r =
     and_then (validate_route_params m r) (\<lambda>_.
     and_then (validate_path r) (\<lambda>_.
     ensure (rt_path r \<notin> paths) ''duplicate route path''
     (ensure (list_all (\<lambda>other. rt_route_id other \<noteq> rt_route_id r \<longrightarrow> \<not> paths_overlap r other) (mf_routes m)) ''ambiguous route patterns''
     (and_then (unique (rt_operations r)) (\<lambda>_.
      and_then (unique (rt_forms r)) (\<lambda>_.
      and_then (public_route_ok m r) (\<lambda>_.
      and_then (route_lists_ok m r) (\<lambda>_.
      and_then (each_ok (route_operation_ok m r) (rt_operations r)) (\<lambda>_.
      and_then (record_route_ok m r) (\<lambda>_.
      each_ok (route_form_ok m r) (rt_forms r)))))))))))"

fun routes_from :: "manifest \<Rightarrow> string set \<Rightarrow> route list \<Rightarrow> unit res" where
  "routes_from m paths [] = Inr ()"
| "routes_from m paths (r # rs) =
     and_then (route_ok m paths r) (\<lambda>_. routes_from m (insert (rt_path r) paths) rs)"

definition validate_routes :: "manifest \<Rightarrow> unit res" where
  "validate_routes m = routes_from m {} (mf_routes m)"

section \<open>Lemmas\<close>

lemma fold_ok_append: "fold_ok f (xs @ ys) s = and_then (fold_ok f xs s) (fold_ok f ys)"
  by (induction xs arbitrary: s) (auto simp: and_then_def split: sum.splits)

lemma fold_ok_invariant:
  assumes "fold_ok f xs s = Inr s'" "P s" "\<And>x s s'. x \<in> set xs \<Longrightarrow> P s \<Longrightarrow> f x s = Inr s' \<Longrightarrow> P s'"
  shows "P s'"
  using assms by (induction xs arbitrary: s) (auto simp: res_simps)

lemma map_ok_Inr: "map_ok f xs = Inr ys \<longleftrightarrow> list_all2 (\<lambda>x y. f x = Inr y) xs ys"
  by (induction xs arbitrary: ys) (auto simp: res_simps list_all2_Cons1)

lemma routes_from_paths: "routes_from m paths rs = Inr u \<Longrightarrow> check_route_paths (mf_routes m) paths rs = Inr ()"
  by (induction rs arbitrary: paths) (auto simp: res_simps route_ok_def split: if_splits)

lemma routes_from_each: "routes_from m paths rs = Inr u \<Longrightarrow> r \<in> set rs \<Longrightarrow> \<exists>paths. route_ok m paths r = Inr ()"
  by (induction rs arbitrary: paths) (auto simp: res_simps)

text \<open>The parameter table only holds declared parameters.\<close>

lemma parameter_table_declared:
  assumes "parameter_fields m r = Inr table"
  shows "bt_ok table \<and> fst ` set table \<subseteq> set (rt_params r)"
proof -
  have insert: "bt_ok (bt_insert k v t) \<and> fst ` set (bt_insert k v t) = insert k (fst ` set t)" if "bt_ok t" for k and v :: parameter_field and t
    using that bt_insert_ok keys_bt_insert [of k v t] by simp
  have add: "bt_ok t' \<and> fst ` set t' \<subseteq> set (rt_params r)"
    if known: "add_parameter r p t = Inr t'" "bt_ok t \<and> fst ` set t \<subseteq> set (rt_params r)" for p t t'
  proof -
    obtain name q where t': "t' = bt_insert name q t" "name \<in> set (rt_params r)"
      using known(1) by (auto simp: add_parameter_def res_simps split: prod.splits if_splits option.splits)
    then show ?thesis using insert [of t name q] known(2) by simp
  qed
  have step: "bt_ok t' \<and> fst ` set t' \<subseteq> set (rt_params r)"
    if known: "and_then (operation_parameters m n) (\<lambda>ps. fold_ok (add_parameter r) ps t) = Inr t'" "bt_ok t \<and> fst ` set t \<subseteq> set (rt_params r)" for n t t'
  proof -
    obtain ps where "fold_ok (add_parameter r) ps t = Inr t'" using known(1) by (auto simp: res_simps)
    then show ?thesis by (rule fold_ok_invariant) (use known(2) add in auto)
  qed
  show ?thesis
    by (rule fold_ok_invariant [OF assms [unfolded parameter_fields_def]]) (use step in \<open>auto simp: bt_ok_def\<close>)
qed

end
