(* ===== verification/Computation_Soundness.thy ===== *)
theory Computation_Soundness
  imports Computation
begin

text \<open>
  Type soundness of the expression language: what admission computes about an expression before any
  action runs is what evaluation delivers inside the transaction.
\<close>

section \<open>Values of a domain\<close>

definition has_domain :: "scalar \<Rightarrow> domain \<Rightarrow> bool" where
  "has_domain s d =
     (case s of
        ScMissing k \<Rightarrow> dm_optional d \<and> k = dm_kind d
      | ScText v \<Rightarrow> dm_kind d = KText \<and> canonical_value KText v = Inr v \<and> length v \<le> dm_max_bytes d
      | ScInteger n \<Rightarrow> in_i64 n \<and> (\<exists>lo hi. dm_kind d = KInteger lo hi \<and> lower_bound lo \<le> n \<and> n \<le> upper_bound hi)
      | ScBoolean _ \<Rightarrow> dm_kind d = KBoolean
      | ScChoice v \<Rightarrow> (\<exists>vs. dm_kind d = KChoice vs \<and> v \<in> cv_key ` set vs)
      | ScAccount v \<Rightarrow> (\<exists>scope. dm_kind d = KAccount scope) \<and> account_id v
      | ScTimestamp t \<Rightarrow> dm_kind d = KTimestamp \<and> time_ok t
      | ScDuration t \<Rightarrow> time_ok t \<and> (\<exists>n. dm_kind d = KDuration n \<and> t \<le> n)
      | ScReference key n \<Rightarrow> dm_kind d = KReference key \<and> 0 < n \<and> int n \<le> I64_MAX)"

text \<open>The ranges of the Rust types behind a literal.\<close>

fun literal_typed :: "literal \<Rightarrow> bool" where
  "literal_typed (LInteger v) = in_i64 v"
| "literal_typed (LTimestamp v) = time_ok v"
| "literal_typed (LDuration v) = time_ok v"
| "literal_typed _ = True"

primrec expr_typed :: "expr \<Rightarrow> bool" where
  "expr_typed (EInput _) = True"
| "expr_typed (ELiteral l) = literal_typed l"
| "expr_typed (ETarget _) = True"
| "expr_typed (ECreated _) = True"
| "expr_typed EPrincipal = True"
| "expr_typed ETransactionTime = True"
| "expr_typed (ESnapshotField _ _ _) = True"
| "expr_typed (ECurrentField _ _) = True"
| "expr_typed (EAdd l r) = (expr_typed l \<and> expr_typed r)"
| "expr_typed (ESubtract l r) = (expr_typed l \<and> expr_typed r)"
| "expr_typed (EMultiply l r) = (expr_typed l \<and> expr_typed r)"

definition stored_valid :: "manifest \<Rightarrow> nat \<Rightarrow> stored_record \<Rightarrow> bool" where
  "stored_valid m resource s \<longleftrightarrow>
     (\<exists>r. find_resource m resource = Inr r \<and> validate_fields r (rc_fields (sr_record s)) = Inr ())"

text \<open>What a transaction's values satisfy when the request was validated against the action: canonical
  inputs, grants for declared targets, rows that validate, outcomes of the steps already done.\<close>

definition id_ok :: "nat \<Rightarrow> bool" where
  "id_ok n \<longleftrightarrow> 0 < n \<and> int n \<le> I64_MAX"

definition outcomes_typed :: "manifest \<Rightarrow> action \<Rightarrow> mutation_outcome list \<Rightarrow> bool" where
  "outcomes_typed m a outcomes \<longleftrightarrow>
     (\<forall>i < length outcomes. \<exists>v. find_operation m (sp_operation (ac_steps a ! i)) = Inr v
        \<and> mo_resource (outcomes ! i) = op_resource v \<and> id_ok (mo_id (outcomes ! i)))"

definition grants_typed :: "action \<Rightarrow> (string \<Rightarrow> record_target option) \<Rightarrow> bool" where
  "grants_typed a grants \<longleftrightarrow>
     (\<forall>name grant. grants name = Some grant \<longrightarrow> id_ok (tk_record grant)
        \<and> (\<forall>t. find_target (ac_targets a) name = Inr t \<longrightarrow> tk_resource grant = tg_resource t))"

definition values_typed :: "manifest \<Rightarrow> action \<Rightarrow> computation_values \<Rightarrow> bool" where
  "values_typed m a w \<longleftrightarrow>
     vl_manifest w = m
     \<and> validate_inputs (ac_inputs a) (vl_input w) = Inr ()
     \<and> (\<forall>u. vl_principal w = User u \<longrightarrow> account_id (user_id u))
     \<and> grants_typed a (vl_grants w)
     \<and> (\<forall>k s. vl_snapshots w k = Some s \<longrightarrow> stored_valid m (fst k) s)
     \<and> (\<forall>name s grant. vl_current w = Some (name, s) \<and> vl_grants w name = Some grant \<longrightarrow> stored_valid m (tk_resource grant) s)
     \<and> outcomes_typed m a (vl_outcomes w)
     \<and> (\<forall>t. vl_time w = Some t \<longrightarrow> time_ok t)"

section \<open>Reading a canonical value\<close>

lemma scalar_of_canonical:
  assumes "canonical_scalar k opt n v = Inr v" "\<not> opaque_kind k"
  shows "\<exists>s. scalar_of k opt v = Inr s \<and> has_domain s \<lparr>dm_kind = k, dm_optional = opt, dm_max_bytes = n\<rparr> \<and> encode s = v"
proof (cases "opt \<and> v = []")
  case True
  with assms show ?thesis by (simp add: scalar_of_def has_domain_def encode_def)
next
  case False
  with assms(1) have c: "canonical_value k v = Inr v" and n: "length v \<le> n"
    by (auto simp: canonical_scalar_def res_simps split: if_splits)
  have skip: "\<not> (opt \<and> v = [])" using False .
  show ?thesis
  proof (cases k)
    case KText
    with c n skip show ?thesis by (auto simp: scalar_of_def has_domain_def encode_def)
  next
    case (KAccount s)
    with c skip show ?thesis by (auto simp: scalar_of_def has_domain_def encode_def canonical_value_def split: if_splits)
  next
    case KBoolean
    with c have "v = ''true'' \<or> v = ''false''" by (auto simp: canonical_value_def split: if_splits)
    with KBoolean show ?thesis by (auto simp: scalar_of_def has_domain_def encode_def)
  next
    case KTimestamp
    with c obtain t where t: "parse_i64 v = Some t" "show_int t = v" "0 \<le> t"
      by (auto simp: canonical_value_def from_unix_millis_def timestamp_try_from_def split: option.splits sum.splits if_splits)
    moreover have "t \<le> I64_MAX" using parse_i64_in_i64 [OF t(1)] by (simp add: in_i64_def)
    ultimately show ?thesis using KTimestamp skip
      by (auto simp: scalar_of_def has_domain_def encode_def read_i64_def time_value_def from_unix_millis_def timestamp_try_from_def time_ok_def)
  next
    case (KDuration m)
    with c obtain t where t: "parse_i64 v = Some t" "show_int t = v" "0 \<le> t" "t \<le> m"
      by (auto simp: canonical_value_def split: option.splits if_splits)
    moreover have "t \<le> I64_MAX" using parse_i64_in_i64 [OF t(1)] by (simp add: in_i64_def)
    ultimately show ?thesis using KDuration skip
      by (auto simp: scalar_of_def has_domain_def encode_def read_i64_def time_value_def duration_from_millis_def duration_try_from_def time_ok_def)
  next
    case (KReference r)
    with c obtain n where "parse_u64 v = Some n" "show_nat n = v" "0 < n" "int n \<le> I64_MAX"
      by (auto simp: canonical_value_def split: option.splits if_splits)
    with KReference skip show ?thesis by (auto simp: scalar_of_def has_domain_def encode_def)
  next
    case (KInteger lo hi)
    with c obtain t where t: "parse_i64 v = Some t" "show_int t = v"
      "\<not> (case lo of None \<Rightarrow> False | Some m \<Rightarrow> t < m)" "\<not> (case hi of None \<Rightarrow> False | Some m \<Rightarrow> m < t)"
      by (auto simp: canonical_value_def split: option.splits if_splits)
    moreover have "in_i64 t" using parse_i64_in_i64 [OF t(1)] .
    ultimately show ?thesis using KInteger skip
      by (auto simp: scalar_of_def has_domain_def encode_def read_i64_def lower_bound_def upper_bound_def in_i64_def split: option.splits)
  next
    case (KChoice vs)
    with c skip show ?thesis
      by (auto simp: scalar_of_def has_domain_def encode_def canonical_value_def list_ex_iff split: if_splits)
  qed (use assms(2) in auto)
qed

lemma input_scalar:
  assumes "validate_inputs inputs values = Inr ()" "find_input inputs name = Some i" "domain_input i = Inr d"
    "map_of values name = Some v" "scalar_of (in_kind i) (in_optional i) v = Inr s"
  shows "has_domain s d \<and> encode s = v"
proof -
  have i: "i \<in> set inputs" "in_name i = name" using assms(2) by (auto simp: find_input_def find_Some_iff)
  have c: "input_canonical i v = Inr v"
    using assms(1,4) i by (auto simp: validate_inputs_def input_value_ok_def each_ok_Inr res_simps split: if_splits)
  have op: "\<not> opaque_kind (in_kind i)" and d: "d = \<lparr>dm_kind = in_kind i, dm_optional = in_optional i, dm_max_bytes = in_max_bytes i\<rparr>"
    using assms(3) by (auto simp: domain_input_def split: if_splits)
  have "canonical_scalar (in_kind i) (in_optional i) (in_max_bytes i) v = Inr v"
    using c op by (auto simp: input_canonical_def split: field_kind.splits)
  from scalar_of_canonical [OF this op] assms(5) d show ?thesis by auto
qed

lemma validate_fields_value:
  assumes "validate_fields r values = Inr ()" "resource_field r name = Some f"
  shows "\<exists>v. map_of values name = Some v \<and> field_canonical f v = Inr v"
proof -
  have "f \<in> set (re_fields r)" "tf_name f = name" using assms(2) by (auto simp: resource_field_def find_Some_iff)
  then show ?thesis using assms(1)
    by (auto simp: validate_fields_def validate_field_def validate_value_iff each_ok_Inr res_simps split: if_splits)
qed

lemma stored_scalar_domain:
  assumes "stored_valid m n s" "find_resource m n = Inr r" "resource_field r field = Some f" "domain_field f = Inr d"
    "stored_scalar m n s field = Inr x"
  shows "has_domain x d"
proof -
  obtain v where v: "map_of (rc_fields (sr_record s)) field = Some v" "field_canonical f v = Inr v"
    using assms(1,2) validate_fields_value [OF _ assms(3)] by (auto simp: stored_valid_def)
  have op: "\<not> opaque_kind (tf_kind f)" and d: "d = \<lparr>dm_kind = tf_kind f, dm_optional = tf_optional f, dm_max_bytes = tf_max_bytes f\<rparr>"
    using assms(4) by (auto simp: domain_field_def split: if_splits)
  have "canonical_scalar (tf_kind f) (tf_optional f) (tf_max_bytes f) v = Inr v"
    using field_canonical_eq [OF v(2)] by blast
  from scalar_of_canonical [OF this op] assms v d show ?thesis by (auto simp: stored_scalar_def)
qed

section \<open>Interval arithmetic\<close>

lemma between_products:
  fixes lo x hi c :: int
  assumes "lo \<le> x" "x \<le> hi"
  shows "min (lo * c) (hi * c) \<le> x * c \<and> x * c \<le> max (lo * c) (hi * c)"
proof (cases "0 \<le> c")
  case True
  with assms have "lo * c \<le> x * c" "x * c \<le> hi * c" by (auto intro: mult_right_mono)
  then show ?thesis by simp
next
  case False
  with assms have "hi * c \<le> x * c" "x * c \<le> lo * c" by (auto intro: mult_right_mono_neg)
  then show ?thesis by simp
qed

definition apply_op :: "arithmetic \<Rightarrow> int \<Rightarrow> int \<Rightarrow> int" where
  "apply_op k a b = (case k of AddOp \<Rightarrow> a + b | SubtractOp \<Rightarrow> a - b | MultiplyOp \<Rightarrow> a * b)"

lemma interval_contains:
  assumes "alo \<le> a" "a \<le> ahi" "blo \<le> b" "b \<le> bhi"
  shows "fst (interval k (alo, ahi) (blo, bhi)) \<le> apply_op k a b \<and> apply_op k a b \<le> snd (interval k (alo, ahi) (blo, bhi))"
proof (cases k)
  case MultiplyOp
  note row = between_products [OF assms(1,2), of b]
  have c: "min (alo * blo) (alo * bhi) \<le> alo * b \<and> alo * b \<le> max (alo * blo) (alo * bhi)"
    "min (ahi * blo) (ahi * bhi) \<le> ahi * b \<and> ahi * b \<le> max (ahi * blo) (ahi * bhi)"
    using between_products [OF assms(3,4), of alo] between_products [OF assms(3,4), of ahi] by (simp_all add: mult.commute)
  show ?thesis using row c MultiplyOp by (auto simp: interval_def apply_op_def min_def max_def split: if_splits)
qed (use assms in \<open>auto simp: interval_def apply_op_def\<close>)

lemma checked_Some: "checked k a b = Some v \<longleftrightarrow> v = apply_op k a b \<and> in_i64 (apply_op k a b)"
  by (cases k) (auto simp: checked_def apply_op_def res_simps)

lemma in_clamp: "in_i64 v \<Longrightarrow> lo \<le> v \<Longrightarrow> v \<le> hi \<Longrightarrow> clamp_i64 lo \<le> v \<and> v \<le> clamp_i64 hi"
  by (auto simp: in_i64_def clamp_i64_def)

lemma combine_sound:
  assumes d: "combine_domains k dl dr = Inr d" and x: "has_domain x dl" and y: "has_domain y dr" and s: "combine_scalars k x y = Inr s"
  shows "has_domain s d"
proof (cases "\<exists>a b. x = ScInteger a \<and> y = ScInteger b")
  case True
  then obtain a b where ab: "x = ScInteger a" "y = ScInteger b" by blast
  with x y obtain alo ahi blo bhi where k: "dm_kind dl = KInteger alo ahi" "lower_bound alo \<le> a" "a \<le> upper_bound ahi"
    "dm_kind dr = KInteger blo bhi" "lower_bound blo \<le> b" "b \<le> upper_bound bhi" by (auto simp: has_domain_def)
  let ?i = "interval k (lower_bound alo, upper_bound ahi) (lower_bound blo, upper_bound bhi)"
  have d': "d = domain_integer (clamp_i64 (fst ?i)) (clamp_i64 (snd ?i))"
    using d k by (auto simp: combine_domains_def number_def res_simps Let_def split: if_splits prod.splits)
  have s': "s = ScInteger (apply_op k a b)" "in_i64 (apply_op k a b)"
    using s ab by (auto simp: combine_scalars_def res_simps checked_Some)
  note i = interval_contains [OF k(2,3,5,6), of k]
  from in_clamp [OF s'(2) conjunct1 [OF i] conjunct2 [OF i]] s' d' show ?thesis
    by (auto simp: has_domain_def domain_integer_def lower_bound_def upper_bound_def)
next
  case False
  with s obtain t u v where v: "x = ScTimestamp t" "y = ScDuration u" "timestamp_checked_add t u = Inr v" "s = ScTimestamp v" "k = AddOp"
    by (auto simp: combine_scalars_def split: scalar.splits if_splits sum.splits)
  with x y have "dm_kind dl = KTimestamp" "\<exists>n. dm_kind dr = KDuration n" by (auto simp: has_domain_def)
  with d v have d': "d = domain_timestamp" by (auto simp: combine_domains_def split: if_splits)
  have "time_ok v" using v(3)
    by (auto simp: timestamp_checked_add_def res_simps timestamp_try_from_def time_ok_def in_i64_def split: if_splits)
  with v d' show ?thesis by (simp add: has_domain_def domain_timestamp_def)
qed

section \<open>Literals\<close>

lemma literal_sound:
  assumes "literal_domain l = Inr d" "literal_typed l"
  shows "has_domain (literal_scalar l) d"
  using assms
  by (cases l)
    (auto simp: literal_domain_def literal_encoding_def literal_scalar_def res_simps has_domain_def domain_integer_def
      lower_bound_def upper_bound_def field_canonical_def canonical_scalar_def canonical_value_def split: if_splits)

section \<open>Soundness\<close>

lemma binary_sound:
  assumes "and_then (count_node depth st) (\<lambda>st.
     and_then (walk m a site l (depth + 1) st) (\<lambda>(dl, st).
     and_then (walk m a site r (depth + 1) st) (\<lambda>(dr, st).
     and_then (combine_domains k dl dr) (\<lambda>d. Inr (d, st))))) = Inr (d, st')"
    "and_then (eval w c l) (\<lambda>x. and_then (eval w c r) (\<lambda>y. combine_scalars k x y)) = Inr s"
    "\<And>depth st d st' s. walk m a site l depth st = Inr (d, st') \<Longrightarrow> eval w c l = Inr s \<Longrightarrow> has_domain s d"
    "\<And>depth st d st' s. walk m a site r depth st = Inr (d, st') \<Longrightarrow> eval w c r = Inr s \<Longrightarrow> has_domain s d"
  shows "has_domain s d"
proof -
  obtain s0 s1 s2 dl dr where w: "walk m a site l (depth + 1) s0 = Inr (dl, s1)" "walk m a site r (depth + 1) s1 = Inr (dr, s2)"
    "combine_domains k dl dr = Inr d" using assms(1) by (auto simp: res_simps)
  obtain x y where e: "eval w c l = Inr x" "eval w c r = Inr y" "combine_scalars k x y = Inr s" using assms(2) by (auto simp: res_simps)
  from combine_sound [OF w(3) assms(3) [OF w(1) e(1)] assms(4) [OF w(2) e(2)] e(3)] show ?thesis .
qed

lemma read_sound:
  assumes "read_domain m a site reviewed cur target field = Inr d" "vl_grants w target = Some grant"
    "stored_scalar m (tk_resource grant) s field = Inr x" "grants_typed a (vl_grants w)" "stored_valid m (tk_resource grant) s"
  shows "has_domain x d"
proof -
  obtain t r f where t: "find_target (ac_targets a) target = Inr t" "find_resource m (tg_resource t) = Inr r"
    "resource_field r field = Some f" "domain_field f = Inr d"
    using assms(1) by (auto simp: read_domain_def res_simps)
  have g: "tk_resource grant = tg_resource t" using assms(2,4) t(1) by (auto simp: grants_typed_def)
  from stored_scalar_domain [OF assms(5) t(2) [folded g] t(3,4) assms(3)] show ?thesis .
qed

lemma eval_sound:
  assumes "walk m a site v depth st = Inr (d, st')" "eval w (core_of a) v = Inr s" "values_typed m a w" "expr_typed v"
  shows "has_domain s d"
  using assms
proof (induction v arbitrary: depth st d st' s)
  case (EInput name)
  then obtain i v where i: "find_input (ac_inputs a) name = Some i" "domain_input i = Inr d"
    "map_of (vl_input w) name = Some v" "scalar_of (in_kind i) (in_optional i) v = Inr s"
    by (auto simp: res_simps core_of_def)
  show ?case using input_scalar [OF _ i] EInput.prems(3) by (simp add: values_typed_def)
next
  case (ELiteral l)
  then show ?case using literal_sound by (auto simp: res_simps)
next
  case (ETarget name)
  then obtain t r grant where t: "find_target (ac_targets a) name = Inr t" "find_resource m (tg_resource t) = Inr r"
    "d = domain_reference (re_name r)" "vl_grants w name = Some grant"
    and s: "and_then (find_resource (vl_manifest w) (tk_resource grant)) (\<lambda>r. Inr (ScReference (re_name r) (tk_record grant))) = Inr s"
    by (auto simp: target_domain_def res_simps)
  have g: "tk_resource grant = tg_resource t" "id_ok (tk_record grant)" "vl_manifest w = m"
    using ETarget.prems(3) t by (auto simp: values_typed_def grants_typed_def)
  with s t show ?case by (auto simp: has_domain_def domain_reference_def id_ok_def)
next
  case (ECreated i)
  then obtain v r where v: "find_operation m (sp_operation (ac_steps a ! i)) = Inr v" "find_resource m (op_resource v) = Inr r"
    "d = domain_reference (re_name r)" by (auto simp: created_domain_def res_simps)
  obtain q where q: "i < length (vl_outcomes w)" "find_resource (vl_manifest w) (mo_resource (vl_outcomes w ! i)) = Inr q"
    "s = ScReference (re_name q) (mo_id (vl_outcomes w ! i))"
    using ECreated.prems(2) by (auto simp: nth_opt_def res_simps split: if_splits)
  have "mo_resource (vl_outcomes w ! i) = op_resource v" "id_ok (mo_id (vl_outcomes w ! i))" "vl_manifest w = m"
    using ECreated.prems(3) q(1) v(1) by (auto simp: values_typed_def outcomes_typed_def)
  with v q show ?case by (auto simp: has_domain_def domain_reference_def id_ok_def)
next
  case EPrincipal
  then show ?case
    by (auto simp: res_simps has_domain_def domain_account_def values_typed_def principal_user_def split: principal.splits sum.splits)
next
  case ETransactionTime
  then show ?case by (auto simp: res_simps has_domain_def domain_timestamp_def values_typed_def)
next
  case (ESnapshotField target field reviewed)
  then obtain grant stored where g: "read_domain m a site reviewed False target field = Inr d" "vl_grants w target = Some grant"
    "vl_snapshots w (tk_resource grant, tk_record grant) = Some stored" "stored_scalar m (tk_resource grant) stored field = Inr s"
    by (auto simp: res_simps values_typed_def)
  have "grants_typed a (vl_grants w)" "stored_valid m (tk_resource grant) stored"
    using ESnapshotField.prems(3) g(3) by (auto simp: values_typed_def)
  from read_sound [OF g(1,2,4) this] show ?case .
next
  case (ECurrentField target field)
  then obtain grant stored where g: "read_domain m a site False True target field = Inr d" "vl_grants w target = Some grant"
    "vl_current w = Some (target, stored)" "stored_scalar m (tk_resource grant) stored field = Inr s"
    by (auto simp: res_simps values_typed_def split: if_splits)
  have "grants_typed a (vl_grants w)" "stored_valid m (tk_resource grant) stored"
    using ECurrentField.prems(3) g(2,3) by (auto simp: values_typed_def)
  from read_sound [OF g(1,2,4) this] show ?case .
next
  case (EAdd l r)
  show ?case by (rule binary_sound [OF EAdd.prems(1,2) [simplified walk.simps eval.simps]]) (use EAdd in auto)
next
  case (ESubtract l r)
  show ?case by (rule binary_sound [OF ESubtract.prems(1,2) [simplified walk.simps eval.simps]]) (use ESubtract in auto)
next
  case (EMultiply l r)
  show ?case by (rule binary_sound [OF EMultiply.prems(1,2) [simplified walk.simps eval.simps]]) (use EMultiply in auto)
qed

section \<open>Domains that fit a destination\<close>

text \<open>What the admission of a resource guarantees about the byte budget of a field.\<close>

definition field_budget :: "text_field \<Rightarrow> bool" where
  "field_budget f \<longleftrightarrow>
     (case tf_kind f of
        KAccount _ \<Rightarrow> 43 \<le> tf_max_bytes f
      | KBoolean \<Rightarrow> 5 \<le> tf_max_bytes f
      | KTimestamp \<Rightarrow> 20 \<le> tf_max_bytes f
      | KDuration _ \<Rightarrow> 20 \<le> tf_max_bytes f
      | KInteger _ _ \<Rightarrow> 20 \<le> tf_max_bytes f
      | KReference _ \<Rightarrow> 19 \<le> tf_max_bytes f
      | KChoice vs \<Rightarrow> (\<forall>v \<in> set vs. length (cv_key v) \<le> tf_max_bytes f)
      | _ \<Rightarrow> True)"

lemma length_show_int: "in_i64 n \<Longrightarrow> length (show_int n) \<le> 20"
proof -
  assume n: "in_i64 n"
  then have "nat \<bar>n\<bar> < 10 ^ 19" by (auto simp: in_i64_def int_defs nat_less_iff)
  then have "length (show_nat (nat \<bar>n\<bar>)) \<le> 19" by (rule length_show_nat) simp
  then show ?thesis by (auto simp: show_int_def split: if_splits)
qed

lemma length_show_id: "int n \<le> I64_MAX \<Longrightarrow> length (show_nat n) \<le> 19"
  by (rule length_show_nat) (auto simp: int_defs)

lemma time_in_i64: "time_ok t \<Longrightarrow> in_i64 t"
  by (auto simp: time_ok_def in_i64_def int_defs)

lemma field_canonical_scalar:
  "\<not> opaque_kind (tf_kind f) \<Longrightarrow> field_canonical f v = canonical_scalar (tf_kind f) (tf_optional f) (tf_max_bytes f) v"
  by (auto simp: field_canonical_def split: field_kind.splits)

lemma canonical_scalarI:
  "canonical_value k v = Inr v \<Longrightarrow> length v \<le> n \<Longrightarrow> canonical_scalar k opt n v = Inr v"
  by (auto simp: canonical_scalar_def)

lemma bounds_iff:
  "in_i64 n \<Longrightarrow> (case lo of None \<Rightarrow> False | Some m \<Rightarrow> n < m) \<longleftrightarrow> \<not> lower_bound lo \<le> n"
  "in_i64 n \<Longrightarrow> (case hi of None \<Rightarrow> False | Some m \<Rightarrow> m < n) \<longleftrightarrow> \<not> n \<le> upper_bound hi"
  by (auto simp: lower_bound_def upper_bound_def in_i64_def split: option.splits)

lemma canonical_encodings:
  "in_i64 n \<Longrightarrow> lower_bound lo \<le> n \<Longrightarrow> n \<le> upper_bound hi \<Longrightarrow> canonical_value (KInteger lo hi) (show_int n) = Inr (show_int n)"
  "canonical_value KBoolean (if b then ''true'' else ''false'') = Inr (if b then ''true'' else ''false'')"
  "v \<in> cv_key ` set vs \<Longrightarrow> canonical_value (KChoice vs) v = Inr v"
  "account_id v \<Longrightarrow> canonical_value (KAccount scope) v = Inr v"
  "time_ok t \<Longrightarrow> canonical_value KTimestamp (show_int t) = Inr (show_int t)"
  "time_ok t \<Longrightarrow> t \<le> n \<Longrightarrow> canonical_value (KDuration n) (show_int t) = Inr (show_int t)"
  "id_ok k \<Longrightarrow> canonical_value (KReference key) (show_nat k) = Inr (show_nat k)"
proof -
  show "in_i64 n \<Longrightarrow> lower_bound lo \<le> n \<Longrightarrow> n \<le> upper_bound hi \<Longrightarrow> canonical_value (KInteger lo hi) (show_int n) = Inr (show_int n)"
    by (simp add: canonical_value_def bounds_iff)
  show "v \<in> cv_key ` set vs \<Longrightarrow> canonical_value (KChoice vs) v = Inr v" by (auto simp: canonical_value_def list_ex_iff)
  show "time_ok t \<Longrightarrow> canonical_value KTimestamp (show_int t) = Inr (show_int t)"
    using time_in_i64 [of t] by (auto simp: canonical_value_def from_unix_millis_def timestamp_try_from_def time_ok_def)
  show "time_ok t \<Longrightarrow> t \<le> n \<Longrightarrow> canonical_value (KDuration n) (show_int t) = Inr (show_int t)"
    using time_in_i64 [of t] by (auto simp: canonical_value_def time_ok_def)
  show "id_ok k \<Longrightarrow> canonical_value (KReference key) (show_nat k) = Inr (show_nat k)"
    by (auto simp: canonical_value_def id_ok_def int_defs)
qed (auto simp: canonical_value_def)

lemma reference_value:
  assumes "has_domain s d" "dm_kind d = tf_kind f" "tf_kind f = KReference key" "field_budget f" "\<not> dm_optional d"
  shows "validate_value f (encode s) = Inr ()"
proof -
  obtain k where k: "s = ScReference key k" "id_ok k"
    using assms(1-3,5) by (auto simp: has_domain_def id_ok_def split: scalar.splits)
  have "length (show_nat k) \<le> tf_max_bytes f"
    using length_show_id [of k] k(2) assms(3,4) by (simp add: id_ok_def field_budget_def)
  with k(1) canonical_encodings(7) [OF k(2)] assms(3) show ?thesis
    by (simp add: validate_value_iff field_canonical_scalar canonical_scalarI encode_def)
qed

lemma choice_fits:
  assumes "kind_fits (KChoice i) b k n"
  obtains vs where "k = KChoice vs" "cv_key ` set i \<subseteq> cv_key ` set vs"
proof (cases k)
  case (KChoice vs)
  have "cv_key v \<in> cv_key ` set vs" if known: "v \<in> set i" for v
  proof -
    obtain w where "w \<in> set vs" "cv_key w = cv_key v" using assms KChoice known by (auto simp: kind_fits_def list_all_iff list_ex_iff)
    then show ?thesis by (metis image_eqI)
  qed
  then show thesis using that KChoice by blast
qed (use assms in \<open>simp_all add: kind_fits_def\<close>)

lemma fits_sound:
  assumes h: "has_domain s d" and f: "domain_fits d f" and b: "field_budget f"
  shows "validate_value f (encode s) = Inr ()"
proof -
  have k: "kind_fits (dm_kind d) (dm_max_bytes d) (tf_kind f) (tf_max_bytes f)" and opt: "dm_optional d \<Longrightarrow> tf_optional f"
    using f by (auto simp: domain_fits_def input_fits_def split: if_splits)
  have transparent: "\<not> opaque_kind (tf_kind f)" using k by (cases "tf_kind f") (auto simp: kind_fits_def split: field_kind.splits)
  have goal: "canonical_scalar (tf_kind f) (tf_optional f) (tf_max_bytes f) (encode s) = Inr (encode s)"
  proof (cases s)
    case (ScMissing q)
    then show ?thesis using h opt by (simp add: has_domain_def encode_def canonical_scalar_def)
  next
    case (ScText v)
    then show ?thesis using h k by (auto simp: has_domain_def encode_def kind_fits_def intro: canonical_scalarI split: field_kind.splits)
  next
    case (ScInteger n)
    then obtain lo hi where "tf_kind f = KInteger lo hi" "in_i64 n" "lower_bound lo \<le> n" "n \<le> upper_bound hi"
      using h k by (cases "tf_kind f") (auto simp: has_domain_def kind_fits_def)
    then show ?thesis using ScInteger b canonical_encodings(1) order_trans [OF length_show_int [of n]]
      by (auto simp: encode_def field_budget_def intro!: canonical_scalarI)
  next
    case (ScBoolean v)
    then have "tf_kind f = KBoolean" using h k by (cases "tf_kind f") (auto simp: has_domain_def kind_fits_def)
    then show ?thesis using ScBoolean b by (auto simp: encode_def field_budget_def canonical_value_def intro!: canonical_scalarI)
  next
    case (ScChoice v)
    then obtain i where i: "dm_kind d = KChoice i" "v \<in> cv_key ` set i" using h by (auto simp: has_domain_def)
    obtain vs where vs: "tf_kind f = KChoice vs" "cv_key ` set i \<subseteq> cv_key ` set vs" using k unfolding i(1) by (rule choice_fits)
    then have v: "v \<in> cv_key ` set vs" using i(2) by blast
    then have "length v \<le> tf_max_bytes f" using b vs by (auto simp: field_budget_def)
    then show ?thesis using ScChoice v vs canonical_encodings(3) by (simp add: encode_def canonical_scalarI)
  next
    case (ScAccount v)
    then have v: "\<exists>scope. tf_kind f = KAccount scope" "account_id v" using h k
      by (cases "tf_kind f"; auto simp: has_domain_def kind_fits_def)+
    then have "length v \<le> tf_max_bytes f" using b by (auto simp: field_budget_def account_id_def)
    then show ?thesis using ScAccount v canonical_encodings(4) by (auto simp: encode_def canonical_scalarI)
  next
    case (ScTimestamp t)
    then have "tf_kind f = KTimestamp" "time_ok t" using h k by (cases "tf_kind f"; auto simp: has_domain_def kind_fits_def)+
    then show ?thesis using ScTimestamp b canonical_encodings(5) order_trans [OF length_show_int [OF time_in_i64 [of t]]]
      by (auto simp: encode_def field_budget_def intro!: canonical_scalarI)
  next
    case (ScDuration t)
    then obtain n where "tf_kind f = KDuration n" "time_ok t" "t \<le> n" using h k by (cases "tf_kind f") (auto simp: has_domain_def kind_fits_def)
    then show ?thesis using ScDuration b canonical_encodings(6) order_trans [OF length_show_int [OF time_in_i64 [of t]]]
      by (auto simp: encode_def field_budget_def intro!: canonical_scalarI)
  next
    case (ScReference key n)
    then show ?thesis using h k by (cases "tf_kind f") (auto simp: has_domain_def kind_fits_def)
  qed
  then show ?thesis using transparent by (simp add: validate_value_iff field_canonical_scalar)
qed

section \<open>Guards\<close>

lemma compare_total:
  assumes "has_domain x dl" "has_domain y dr" "same_type (dm_kind dl) (dm_kind dr)"
  shows "is_ok (compare_scalars x y)"
  using assms by (cases x; cases y; auto simp: has_domain_def compare_scalars_def)

fun operands :: "guard_condition \<Rightarrow> expr list" where
  "operands (GAll conditions) = concat (map operands conditions)"
| "operands (GCompare l _ r) = [l, r]"

lemma comparison_total:
  assumes "admit_value m a index l True st = Inr (dl, st1)" "admit_value m a index r True st1 = Inr (dr, st2)"
    "comparison_ok c dl dr = Inr ()" "eval w (core_of a) l = Inr x" "eval w (core_of a) r = Inr y"
    "values_typed m a w" "expr_typed l" "expr_typed r"
  shows "is_ok (compare_scalars x y)"
proof -
  have "has_domain x dl" "has_domain y dr" using assms eval_sound by (auto simp: admit_value_def)
  then show ?thesis using compare_total assms(3) by (auto simp: comparison_ok_def split: if_splits)
qed

lemma condition_total:
  shows "admit_condition m a index c depth st = Inr st' \<Longrightarrow> values_typed m a w \<Longrightarrow>
      \<forall>e \<in> set (operands c). expr_typed e \<and> is_ok (eval w (core_of a) e) \<Longrightarrow> is_ok (eval_condition w (core_of a) c)"
    and "admit_conditions m a index cs depth st = Inr st' \<Longrightarrow> values_typed m a w \<Longrightarrow>
      \<forall>c \<in> set cs. \<forall>e \<in> set (operands c). expr_typed e \<and> is_ok (eval w (core_of a) e) \<Longrightarrow> is_ok (eval_conditions w (core_of a) cs)"
proof (induction m a index c depth st and m a index cs depth st arbitrary: st' and st' rule: admit_condition_admit_conditions.induct)
  case (1 m a index conditions depth st)
  then show ?case by (auto simp: res_simps)
next
  case (2 m a index l c r depth st)
  then obtain x y where xy: "eval w (core_of a) l = Inr x" "eval w (core_of a) r = Inr y" by (auto simp: is_ok_iff)
  obtain s0 dl s1 dr s2 where w: "admit_value m a index l True s0 = Inr (dl, s1)" "admit_value m a index r True s1 = Inr (dr, s2)"
    "comparison_ok c dl dr = Inr ()" using "2.prems"(1) by (auto simp: res_simps)
  have "is_ok (compare_scalars x y)" by (rule comparison_total [OF w xy "2.prems"(2)]) (use "2.prems"(3) in auto)
  then show ?case using xy by (auto simp: is_ok_iff)
next
  case (4 m a index c cs depth st)
  obtain s1 where s1: "admit_condition m a index c depth st = Inr s1" "admit_conditions m a index cs depth s1 = Inr st'"
    using "4.prems"(1) by (auto simp: res_simps)
  obtain b where "eval_condition w (core_of a) c = Inr b" using "4.IH"(1) [OF s1(1)] "4.prems"(2,3) by (auto simp: is_ok_iff)
  moreover have "is_ok (eval_conditions w (core_of a) cs)" using "4.IH"(2) [OF s1(2)] "4.prems"(2,3) by simp
  ultimately show ?case by simp
qed simp

section \<open>Budgets\<close>

primrec nodes :: "expr \<Rightarrow> nat" where
  "nodes (EInput _) = 1" | "nodes (ELiteral _) = 1" | "nodes (ETarget _) = 1" | "nodes (ECreated _) = 1" | "nodes EPrincipal = 1"
| "nodes ETransactionTime = 1" | "nodes (ESnapshotField _ _ _) = 1" | "nodes (ECurrentField _ _) = 1"
| "nodes (EAdd l r) = nodes l + nodes r + 1"
| "nodes (ESubtract l r) = nodes l + nodes r + 1"
| "nodes (EMultiply l r) = nodes l + nodes r + 1"

primrec height :: "expr \<Rightarrow> nat" where
  "height (EInput _) = 1" | "height (ELiteral _) = 1" | "height (ETarget _) = 1" | "height (ECreated _) = 1" | "height EPrincipal = 1"
| "height ETransactionTime = 1" | "height (ESnapshotField _ _ _) = 1" | "height (ECurrentField _ _) = 1"
| "height (EAdd l r) = max (height l) (height r) + 1"
| "height (ESubtract l r) = max (height l) (height r) + 1"
| "height (EMultiply l r) = max (height l) (height r) + 1"

primrec inputs_of :: "expr \<Rightarrow> string set" where
  "inputs_of (EInput name) = {name}" | "inputs_of (ELiteral _) = {}" | "inputs_of (ETarget _) = {}" | "inputs_of (ECreated _) = {}"
| "inputs_of EPrincipal = {}" | "inputs_of ETransactionTime = {}" | "inputs_of (ESnapshotField _ _ _) = {}" | "inputs_of (ECurrentField _ _) = {}"
| "inputs_of (EAdd l r) = inputs_of l \<union> inputs_of r"
| "inputs_of (ESubtract l r) = inputs_of l \<union> inputs_of r"
| "inputs_of (EMultiply l r) = inputs_of l \<union> inputs_of r"

lemma count_node_Inr:
  "count_node depth st = Inr st' \<longleftrightarrow> st' = st\<lparr>am_nodes := am_nodes st + 1\<rparr> \<and> am_nodes st < 64 \<and> depth \<le> 8"
  by (auto simp: count_node_def Let_def MAX_EXPRESSION_NODES_def MAX_EXPRESSION_DEPTH_def)

lemma walk_budget:
  "walk m a site v depth st = Inr (d, st') \<Longrightarrow>
     am_nodes st' = am_nodes st + nodes v \<and> am_nodes st' \<le> 64 \<and> depth + height v \<le> 9
     \<and> am_used st' = am_used st \<union> inputs_of v \<and> am_guards st' = am_guards st"
proof (induction v arbitrary: depth st d st')
  case (EInput name)
  then show ?case by (auto simp: res_simps count_node_Inr find_input_def find_Some_iff)
next
  case (EAdd l r)
  then show ?case by (fastforce simp: res_simps count_node_Inr)
next
  case (ESubtract l r)
  then show ?case by (fastforce simp: res_simps count_node_Inr)
next
  case (EMultiply l r)
  then show ?case by (fastforce simp: res_simps count_node_Inr)
qed (auto simp: res_simps count_node_Inr)

end
