(* ===== verification/Action_Admission.thy ===== *)
theory Action_Admission
  imports Route_Admission Computation_Soundness
begin

text \<open>
  Admission of actions (\<open>validate_action\<close> and what it calls in
  \<^verbatim>\<open>crates/noxide-admission/src/manifest.rs\<close>) with the scheduled and emitted values that share its
  counters (\<open>action_values\<close> of \<^verbatim>\<open>manifest/job_admission.rs\<close> and \<^verbatim>\<open>manifest/effect_admission.rs\<close>), and of
  web bindings.
\<close>

section \<open>Inputs\<close>

definition input_kind_ok :: "action_input \<Rightarrow> unit res" where
  "input_kind_ok i =
     (case in_kind i of
        KBlob _ \<Rightarrow> Inl ''Blob fields are storage only''
      | KUploadHandle max_bytes \<Rightarrow>
          ensure (max_bytes > 0 \<and> max_bytes \<le> MAX_UPLOAD_BYTES \<and> in_max_bytes i = 67) ''invalid UploadHandle input'' (Inr ())
      | KText \<Rightarrow> Inr ()
      | KTimestamp \<Rightarrow> ensure (in_max_bytes i \<ge> 20) ''timestamp input budget'' (Inr ())
      | KDuration max_millis \<Rightarrow> ensure (in_max_bytes i \<ge> 20 \<and> max_millis \<ge> 0) ''duration input schema'' (Inr ())
      | KBoolean \<Rightarrow> ensure (in_max_bytes i \<ge> 5) ''boolean input budget'' (Inr ())
      | KInteger lo hi \<Rightarrow> ensure (in_max_bytes i \<ge> 20 \<and> bounds_ordered lo hi) ''integer input schema'' (Inr ())
      | KChoice variants \<Rightarrow>
          ensure (variants \<noteq> [] \<and> length variants \<le> 32) ''choice input limit''
            (variants_ok ''choice input key'' ''choice input label'' (in_max_bytes i) {} variants)
      | KAccount _ \<Rightarrow> ensure (in_max_bytes i \<ge> 43 \<and> \<not> in_optional i) ''account inputs must be required and hold an ID'' (Inr ())
      | KReference _ \<Rightarrow> Inl ''invalid input kind'')"

definition validate_input_schema :: "action_input \<Rightarrow> unit res" where
  "validate_input_schema i =
     ensure (label_ok (in_label i)) ''invalid input label''
     (ensure (in_max_bytes i > 0 \<and> in_max_bytes i \<le> 4096) ''input byte limit'' (input_kind_ok i))"

fun inputs_from :: "string set \<Rightarrow> action_input list \<Rightarrow> unit res" where
  "inputs_from names [] = Inr ()"
| "inputs_from names (i # is) =
     ensure (is_identifier (in_name i) \<and> \<not> starts_with (in_name i) ''_target_'' \<and> in_name i \<notin> names) ''invalid or duplicate input''
     (and_then (validate_input_schema i) (\<lambda>_. inputs_from (insert (in_name i) names) is))"

section \<open>Targets\<close>

definition target_projection :: "manifest \<Rightarrow> action_target \<Rightarrow> inspection \<Rightarrow> bool \<Rightarrow> unit res" where
  "target_projection m t p guest =
     and_then (find_operation m (ip_operation p)) (\<lambda>read.
     ensure (op_kind read = ReadOp \<and> op_via read = None \<and> op_resource read = tg_resource t) ''invalid target projection operation''
     (ensure (\<not> guest \<or> \<not> is_public read) ''inspection cannot use a public operation''
     (ensure (\<not> guest \<or> ip_fields p \<noteq> []) ''empty inspection''
     (and_then (find_resource m (op_resource read)) (\<lambda>r.
      and_then (projected_fields r (ip_fields p)) (\<lambda>_.
      ensure (case op_fields read of None \<Rightarrow> True | Some names \<Rightarrow> list_all (\<lambda>f. f \<in> set names) (ip_fields p))
        ''target projection exceeds approved read'' (Inr ())))))))"

definition page_read_ok :: "manifest \<Rightarrow> action_target \<Rightarrow> nat \<Rightarrow> unit res" where
  "page_read_ok m t n =
     and_then (find_operation m n) (\<lambda>read.
     ensure (op_kind read = ReadOp \<and> op_via read = None \<and> op_resource read = tg_resource t) ''invalid page target read'' (Inr ()))"

definition capability_edit :: "manifest \<Rightarrow> action \<Rightarrow> string \<Rightarrow> bool" where
  "capability_edit m a name =
     list_ex (\<lambda>s. sp_target s = NamedTarget name
       \<and> (case find_operation m (sp_operation s) of Inl _ \<Rightarrow> False | Inr v \<Rightarrow> is_capability v)) (ac_steps a)"

definition projection_holds :: "action_target \<Rightarrow> string \<Rightarrow> bool" where
  "projection_holds t field \<longleftrightarrow> (case tg_projection t of None \<Rightarrow> False | Some p \<Rightarrow> field \<in> set (ip_fields p))"

definition target_source_ok :: "manifest \<Rightarrow> action \<Rightarrow> action_target \<Rightarrow> nat option res" where
  "target_source_ok m a t =
     (case tg_source t of
        TPage reads \<Rightarrow>
          and_then (unique reads) (\<lambda>_.
          ensure (length reads \<le> 8) ''target read limit''
          (and_then (each_ok (page_read_ok m t) reads) (\<lambda>_.
           ensure (reads \<noteq> [] \<or> capability_edit m a (tg_name t)) ''page target requires eligible reads'' (Inr None))))
      | TService eligible \<Rightarrow> Inr (Some eligible)
      | TSelected query eligible label \<Rightarrow>
          and_then (find_resource m (tg_resource t)) (\<lambda>r.
          and_then (projected_fields r label) (\<lambda>_.
          ensure (tg_projection t \<noteq> None \<and> list_all (projection_holds t) label) ''picker labels exceed approved target projection''
          (and_then (find_operation m query) (\<lambda>q.
           ensure (op_kind q = ListOp \<and> op_via q = None \<and> op_scope q = None \<and> op_resource q = tg_resource t
                   \<and> list_all (\<lambda>c. case fc_equals c of OLiteral _ \<Rightarrow> True | OParam _ \<Rightarrow> False) (op_filter q))
             ''invalid selection query'' (Inr (Some eligible))))))
      | TReference parent field eligible \<Rightarrow>
          and_then (find_target (ac_targets a) parent) (\<lambda>source.
          ensure (case tg_source source of TReference _ _ _ \<Rightarrow> False | _ \<Rightarrow> True) ''derived target depth limit''
          (and_then (reference_resource m (tg_resource source) field) (\<lambda>found.
           ensure (case found of None \<Rightarrow> False | Some r \<Rightarrow> re_id r = tg_resource t) ''derived target reference mismatch''
           (ensure (projection_holds source field) ''derived target requires an approved source projection'' (Inr (Some eligible)))))))"

definition eligible_ok :: "manifest \<Rightarrow> action_target \<Rightarrow> nat \<Rightarrow> unit res" where
  "eligible_ok m t n =
     and_then (find_operation m n) (\<lambda>read.
     ensure (op_kind read = ReadOp \<and> op_via read = None \<and> op_resource read = tg_resource t) ''invalid target eligibility''
     (ensure (case tg_projection t of None \<Rightarrow> False | Some p \<Rightarrow> ip_operation p = n)
       ''selected and derived targets require explicit eligible-read projections'' (Inr ())))"

definition validate_action_target :: "manifest \<Rightarrow> action \<Rightarrow> action_target \<Rightarrow> unit res" where
  "validate_action_target m a t =
     ensure (is_identifier (tg_name t)) ''invalid target name''
     (and_then (find_resource m (tg_resource t)) (\<lambda>_.
      and_then (target_source_ok m a t) (\<lambda>eligible.
      and_then (case eligible of None \<Rightarrow> Inr () | Some n \<Rightarrow> eligible_ok m t n) (\<lambda>_.
      and_then (case tg_projection t of None \<Rightarrow> Inr () | Some p \<Rightarrow> target_projection m t p False) (\<lambda>_.
      case tg_inspect t of
        None \<Rightarrow> Inr ()
      | Some p \<Rightarrow>
          and_then (target_projection m t p True) (\<lambda>_.
          ensure (tg_revision t = Exact) ''inspection requires exact review'' (Inr ())))))))"

section \<open>Assignments\<close>

definition protected_names :: "string list" where
  "protected_names = [''owner'', ''tenant'', ''id'', ''incarnation'', ''revision'']"

definition destination_ok :: "operation \<Rightarrow> text_field \<Rightarrow> unit res" where
  "destination_ok v f =
     ensure (op_kind v \<noteq> CreateOp \<or> tf_initial f = None) ''initial value is host-applied''
     (ensure (op_kind v = CreateOp \<or> \<not> is_account (tf_kind f)) ''account fields are immutable''
     (ensure (op_kind v \<noteq> UpdateOp \<or> (case tf_kind f of KReference _ \<Rightarrow> False | KBlob _ \<Rightarrow> False | _ \<Rightarrow> True)) ''reference is immutable''
     (ensure (op_kind v \<noteq> UpdateOp \<or> \<not> tf_immutable f) ''declared immutable field cannot be updated'' (Inr ()))))"

definition blob_assignment_ok :: "action \<Rightarrow> operation \<Rightarrow> text_field \<Rightarrow> nat \<Rightarrow> expr \<Rightarrow> admission \<Rightarrow> admission res" where
  "blob_assignment_ok a v f max_bytes e st =
     (case e of
        EInput name \<Rightarrow>
          and_then (ok_or (find_input (ac_inputs a) name) ''unknown upload input'') (\<lambda>i.
          ensure (op_kind v = CreateOp \<and> (case in_kind i of KUploadHandle limit \<Rightarrow> limit \<le> max_bytes | _ \<Rightarrow> False)
                  \<and> (\<not> in_optional i \<or> tf_optional f))
            ''invalid Blob assignment'' (Inr (st\<lparr>am_used := insert (in_name i) (am_used st)\<rparr>)))
      | _ \<Rightarrow> Inl ''Blob requires one host upload input'')"

definition set_assignment_ok :: "manifest \<Rightarrow> action \<Rightarrow> nat \<Rightarrow> operation \<Rightarrow> text_field \<Rightarrow> expr \<Rightarrow> admission \<Rightarrow> admission res" where
  "set_assignment_ok m a index v f e st =
     (case tf_kind f of
        KBlob max_bytes \<Rightarrow> blob_assignment_ok a v f max_bytes e st
      | k \<Rightarrow>
          and_then (admit_value m a index e False st) (\<lambda>(d, st).
          if is_reference f then
            ensure (case e of ETarget _ \<Rightarrow> True | ECreated _ \<Rightarrow> True | _ \<Rightarrow> False)
              ''reference requires a declared target or earlier create''
            (ensure (dm_kind d = tf_kind f) ''wrong named or created reference type'' (Inr st))
          else ensure (domain_fits d f) ''expression/input domain does not fit destination'' (Inr st)))"

definition adjustment_ok :: "manifest \<Rightarrow> action \<Rightarrow> nat \<Rightarrow> step \<Rightarrow> operation \<Rightarrow> text_field \<Rightarrow> expr \<Rightarrow> guard_rejection \<Rightarrow> admission \<Rightarrow> admission res" where
  "adjustment_ok m a index s v f by_value rejection st =
     ensure (op_kind v = UpdateOp \<and> sp_target s \<noteq> NoTarget) ''adjustments require named update steps''
     (case tf_kind f of
        KInteger (Some lo) (Some hi) \<Rightarrow>
          and_then (admit_value m a index by_value False st) (\<lambda>(d, st).
          (case dm_kind d of
             KInteger (Some amount_min) (Some amount_max) \<Rightarrow>
               ensure (\<not> dm_optional d \<and> amount_min \<ge> 1 \<and> amount_max \<le> hi - lo) ''invalid adjustment amount domain''
                 (and_then (admit_rejection a rejection) (\<lambda>_. Inr st))
           | _ \<Rightarrow> Inl ''adjustment requires bounded integer expression''))
      | _ \<Rightarrow> Inl ''adjustment requires bounded integer field'')"

definition named :: "step_target \<Rightarrow> string set" where
  "named t = (case t of NoTarget \<Rightarrow> {} | NamedTarget name \<Rightarrow> {name})"

definition validate_assignment ::
  "manifest \<Rightarrow> action \<Rightarrow> nat \<Rightarrow> step \<Rightarrow> operation \<Rightarrow> resource \<Rightarrow> assignment \<Rightarrow> admission \<times> string set \<Rightarrow> (admission \<times> string set) res" where
  "validate_assignment m a index s v r x = (\<lambda>(st, exact).
     ensure (as_field x \<notin> set protected_names) ''protected assignment''
     (and_then (ok_or (resource_field r (as_field x)) ''unknown or protected assignment'') (\<lambda>f.
      and_then (destination_ok v f) (\<lambda>_.
      case as_change x of
        ChangeSet e \<Rightarrow> and_then (set_assignment_ok m a index v f e st) (\<lambda>st. Inr (st, exact \<union> named (sp_target s)))
      | ChangeDecrease e rejection \<Rightarrow> and_then (adjustment_ok m a index s v f e rejection st) (\<lambda>st. Inr (st, exact))
      | ChangeIncrease e rejection \<Rightarrow> and_then (adjustment_ok m a index s v f e rejection st) (\<lambda>st. Inr (st, exact))))))"

fun assignments_from ::
  "manifest \<Rightarrow> action \<Rightarrow> nat \<Rightarrow> step \<Rightarrow> operation \<Rightarrow> resource \<Rightarrow> string set \<Rightarrow> assignment list \<Rightarrow> admission \<times> string set
     \<Rightarrow> (admission \<times> string set) res" where
  "assignments_from m a index s v r assigned [] st = Inr st"
| "assignments_from m a index s v r assigned (x # xs) st =
     ensure (as_field x \<notin> assigned) ''duplicate assignment''
     (and_then (validate_assignment m a index s v r x st) (\<lambda>st.
      assignments_from m a index s v r (insert (as_field x) assigned) xs st))"

section \<open>Steps\<close>

record step_state =
  ss_creates :: nat
  ss_exact :: "string set"
  ss_admission :: admission

definition step_kind_ok :: "manifest \<Rightarrow> action \<Rightarrow> step \<Rightarrow> operation \<Rightarrow> step_state \<Rightarrow> step_state res" where
  "step_kind_ok m a s v st =
     (case op_kind v of
        CreateOp \<Rightarrow>
          (let st = st\<lparr>ss_creates := ss_creates st + 1\<rparr> in
           ensure (ss_creates st \<le> 2) ''transaction create limit''
           (ensure (sp_target s = NoTarget) ''create has no target''
           (ensure (sp_assign s \<noteq> []) ''create requires writable fields'' (Inr st))))
      | k \<Rightarrow>
          if k = UpdateOp \<or> k = DeleteOp then
            (case sp_target s of
               NoTarget \<Rightarrow> Inl ''mutation requires named target''
             | NamedTarget name \<Rightarrow>
                 and_then (find_target (ac_targets a) name) (\<lambda>t.
                 ensure (tg_resource t = op_resource v) ''mutation target resource mismatch''
                 (if k = DeleteOp then
                    ensure (length (ac_steps a) = 1 \<and> sp_assign s = []) ''delete must be the only step without assignments''
                      (Inr (st\<lparr>ss_exact := insert name (ss_exact st)\<rparr>))
                  else ensure (sp_assign s \<noteq> []) ''update requires writable fields'' (Inr st))))
          else Inl ''action must declare a mutation'')"

definition required_fields :: "resource \<Rightarrow> assignment list \<Rightarrow> text_field list" where
  "required_fields r xs =
     filter (\<lambda>f. tf_initial f = None
       \<and> \<not> (tf_optional f \<and> (case tf_kind f of KBlob _ \<Rightarrow> True | _ \<Rightarrow> False) \<and> \<not> list_ex (\<lambda>x. as_field x = tf_name f) xs)) (re_fields r)"

definition step_ok :: "manifest \<Rightarrow> action \<Rightarrow> nat \<times> step \<Rightarrow> step_state \<Rightarrow> step_state res" where
  "step_ok m a = (\<lambda>(index, s) st.
     and_then (find_operation m (sp_operation s)) (\<lambda>v.
     and_then (find_resource m (op_resource v)) (\<lambda>r.
     ensure (length (ac_steps a) > 1 \<longrightarrow> \<not> is_public v \<and> \<not> is_capability v)
       ''multi-step action cannot use public or capability operations''
     (and_then (step_kind_ok m a s v st) (\<lambda>st.
      and_then (admit_guards m a index (ss_admission st)) (\<lambda>am.
      and_then (assignments_from m a index s v r {} (sp_assign s) (am, ss_exact st)) (\<lambda>(am, exact).
      ensure (op_kind v = CreateOp \<longrightarrow> length (sp_assign s) = length (required_fields r (sp_assign s)))
        ''creation requires every writable field'' (Inr (st\<lparr>ss_admission := am, ss_exact := exact\<rparr>)))))))))"

section \<open>Scheduled and emitted values\<close>

definition scheduled_input_ok :: "manifest \<Rightarrow> action \<Rightarrow> action \<Rightarrow> string \<times> expr \<Rightarrow> admission \<Rightarrow> admission res" where
  "scheduled_input_ok m a called = (\<lambda>(name, v) st.
     and_then (ok_or (find_input (ac_inputs called) name) ''unknown scheduled action input'') (\<lambda>i.
     and_then (admit_value m a (length (ac_steps a)) v False st) (\<lambda>(d, st).
     ensure (fits_input d i) ''scheduled input domain does not fit destination'' (Inr st))))"

definition schedule_values_ok :: "manifest \<Rightarrow> action \<Rightarrow> schedule \<Rightarrow> admission \<Rightarrow> admission res" where
  "schedule_values_ok m a sc st =
     and_then (find_action m (sc_action sc)) (\<lambda>called.
     and_then (fold_ok (scheduled_input_ok m a called) (sc_inputs sc) st) (\<lambda>st.
     and_then (admit_value m a (length (ac_steps a)) (sc_due_at sc) False st) (\<lambda>(due, st).
     ensure (dm_kind due = KTimestamp \<and> \<not> dm_optional due) ''schedule due time requires a nonoptional timestamp'' (Inr st))))"

definition job_action_values :: "manifest \<Rightarrow> action \<Rightarrow> admission \<Rightarrow> admission res" where
  "job_action_values m a st =
     (case mf_jobs m of
        None \<Rightarrow> Inr st
      | Some jobs \<Rightarrow> fold_ok (schedule_values_ok m a) (filter (\<lambda>sc. sc_source_action sc = ac_id a) (jc_schedules jobs)) st)"

definition validate_payload_schema :: "manifest \<Rightarrow> action_input \<Rightarrow> unit res" where
  "validate_payload_schema m i =
     ensure (is_identifier (in_name i)) ''invalid effect payload field''
     (ensure (\<not> opaque_kind (in_kind i)) ''opaque blob identity cannot be disclosed''
     (case in_kind i of
        KReference key \<Rightarrow>
          and_then (validate_input_schema (i\<lparr>in_kind := KText\<rparr>)) (\<lambda>_.
          ensure (in_max_bytes i \<ge> 19 \<and> list_ex (\<lambda>r. re_name r = key) (mf_resources m))
            ''invalid effect resource identity schema'' (Inr ()))
      | _ \<Rightarrow> validate_input_schema i))"

definition payload_fits :: "domain \<Rightarrow> action_input \<Rightarrow> bool" where
  "payload_fits d i =
     (case (dm_kind d, in_kind i) of
        (KReference source, KReference destination) \<Rightarrow>
          source = destination \<and> (\<not> dm_optional d \<or> in_optional i) \<and> in_max_bytes i \<ge> 19
      | _ \<Rightarrow> fits_input d i)"

definition payload_ok :: "manifest \<Rightarrow> action \<Rightarrow> payload_field \<Rightarrow> admission \<Rightarrow> admission res" where
  "payload_ok m a p st =
     and_then (validate_payload_schema m (pf_schema p)) (\<lambda>_.
     and_then (effect_value m a (pf_value p) st) (\<lambda>(d, st).
     ensure (payload_fits d (pf_schema p)) ''effect source domain does not fit payload schema'' (Inr st)))"

definition effect_action_values :: "manifest \<Rightarrow> action \<Rightarrow> admission \<Rightarrow> admission res" where
  "effect_action_values m a st =
     (case mf_effects m of
        None \<Rightarrow> Inr st
      | Some c \<Rightarrow>
          fold_ok (\<lambda>e. fold_ok (payload_ok m a) (em_fields e)) (filter (\<lambda>e. em_source_action e = ac_id a) (ec_emissions c)) st)"

section \<open>Actions\<close>

definition exact_ok :: "action \<Rightarrow> string \<Rightarrow> unit res" where
  "exact_ok a name =
     and_then (find_target (ac_targets a) name) (\<lambda>t.
     ensure ((case tg_source t of TService _ \<Rightarrow> True | TReference _ _ _ \<Rightarrow> True | _ \<Rightarrow> False) \<or> tg_revision t = Exact)
       ''identity revision is weaker than required exact revision'' (Inr ()))"

definition exact_names :: "action \<Rightarrow> string set \<Rightarrow> string list" where
  "exact_names a exact = filter (\<lambda>name. name \<in> exact) (remdups (concat (map (\<lambda>s. case sp_target s of NoTarget \<Rightarrow> [] | NamedTarget name \<Rightarrow> [name]) (ac_steps a))))"

definition validate_action :: "manifest \<Rightarrow> action \<Rightarrow> unit res" where
  "validate_action m a =
     ensure (ac_version a > 0 \<and> ac_name a \<noteq> [] \<and> length (ac_name a) \<le> 64 \<and> \<not> has_any_control (ac_name a)) ''invalid action''
     (ensure (1 \<le> length (ac_steps a) \<and> length (ac_steps a) \<le> 4) ''transaction step limit''
     (ensure (length (ac_targets a) \<le> 4) ''existing target limit''
     (ensure (length (ac_inputs a) \<le> 32) ''action input count limit''
     (ensure (distinct (map tg_name (ac_targets a))) ''duplicate target name''
     (and_then (page_resource (ac_targets a)) (\<lambda>_.
      and_then (each_ok (validate_action_target m a) (ac_targets a)) (\<lambda>_.
      and_then (inputs_from {} (ac_inputs a)) (\<lambda>_.
      ensure (sum_list (map in_max_bytes (ac_inputs a)) \<le> MAX_INPUT_BYTES) ''action input limit''
      (and_then (fold_ok (step_ok m a) (enumerate 0 (ac_steps a)) \<lparr>ss_creates = 0, ss_exact = {}, ss_admission = admission_default\<rparr>) (\<lambda>st.
       and_then (job_action_values m a (ss_admission st)) (\<lambda>am.
       and_then (effect_action_values m a am) (\<lambda>am.
       and_then (each_ok (exact_ok a) (exact_names a (ss_exact st))) (\<lambda>_.
       ensure (am_used am = set (map in_name (ac_inputs a))) ''unused action input'' (Inr ()))))))))))))))"

section \<open>Web bindings\<close>

definition single_read :: "manifest \<Rightarrow> route \<Rightarrow> bool" where
  "single_read m r \<longleftrightarrow>
     length (filter (\<lambda>n. case find_operation m n of Inl _ \<Rightarrow> False
       | Inr read \<Rightarrow> op_kind read = ReadOp \<and> op_via read = None \<and> Some (op_resource read) = rt_route_resource r) (rt_operations r)) = 1"

text \<open>The resource the redirect leads to, or \<open>None\<close> when the step deletes its row.\<close>

definition redirect_resource :: "manifest \<Rightarrow> action \<Rightarrow> route \<Rightarrow> redirect_source \<Rightarrow> nat option res" where
  "redirect_resource m a destination source =
     (case source of
        RedirectTarget name \<Rightarrow> and_then (find_target (ac_targets a) name) (\<lambda>t. Inr (Some (tg_resource t)))
      | RedirectStep index \<Rightarrow>
          and_then (ok_or (nth_opt (ac_steps a) index) ''redirect step out of range'') (\<lambda>s.
          and_then (find_operation m (sp_operation s)) (\<lambda>v.
          if op_kind v = DeleteOp then
            ensure (rt_route_resource destination = None) ''delete destination requires collection route'' (Inr None)
          else Inr (Some (op_resource v))))
      | RedirectReference index field \<Rightarrow>
          and_then (ok_or (nth_opt (ac_steps a) index) ''redirect step out of range'') (\<lambda>s.
          and_then (find_operation m (sp_operation s)) (\<lambda>v.
          and_then (find_resource m (op_resource v)) (\<lambda>r.
          ensure (reference_field r field \<noteq> None) ''redirect requires reference field''
          (ensure (single_read m destination) ''parent destination requires one unambiguous resource read''
          (and_then (reference_resource m (op_resource v) field) (\<lambda>found.
           and_then (ok_or found ''validated reference'') (\<lambda>p. Inr (Some (re_id p))))))))))"

definition deletes_destination :: "manifest \<Rightarrow> action \<Rightarrow> redirect_source \<Rightarrow> bool res" where
  "deletes_destination m a source =
     (if length (ac_steps a) = 1 then
        and_then (find_operation m (sp_operation (ac_steps a ! 0))) (\<lambda>v.
        Inr (op_kind v = DeleteOp
             \<and> (source = RedirectStep 0
                \<or> (case (source, sp_target (ac_steps a ! 0)) of (RedirectTarget d, NamedTarget n) \<Rightarrow> d = n | _ \<Rightarrow> False))))
      else Inr False)"

definition validate_web_binding :: "(form_instruction list \<Rightarrow> bytes res) \<Rightarrow> manifest \<Rightarrow> web_action \<Rightarrow> unit res" where
  "validate_web_binding encode_layout m w =
     ensure (wa_version w > 0) ''invalid web binding version''
     (and_then (if wa_layout w = [] then Inr () else validate_layout encode_layout (wa_core w) (wa_layout w)) (\<lambda>_.
      and_then (manifest_route m (rd_route (wa_redirect w))) (\<lambda>destination.
      ensure (rt_params destination = []) ''mutation redirect requires an unparameterized route''
      (and_then (deletes_destination m (wa_core w) (rd_source (wa_redirect w))) (\<lambda>gone.
       if gone then ensure (rt_route_resource destination = None) ''delete destination requires collection route'' (Inr ())
       else
         and_then (redirect_resource m (wa_core w) destination (rd_source (wa_redirect w))) (\<lambda>target.
         case target of
           None \<Rightarrow> Inr ()
         | Some n \<Rightarrow> ensure (rt_route_resource destination = Some n) ''invalid outcome route'' (Inr ()))))))) "

end
