(* ===== verification/Job_Contract.thy ===== *)
theory Job_Contract
  imports Action_Admission
begin

text \<open>
  Admission of background work: the structure of a job contract
  (\<^verbatim>\<open>crates/noxide-admission/src/manifest/job_contract.rs\<close>) and its authority within a manifest
  (\<open>validate\<close> of \<^verbatim>\<open>manifest/job_admission.rs\<close>).
\<close>

section \<open>Workers\<close>

definition source_eligible :: "target_source \<Rightarrow> nat option" where
  "source_eligible s = (case s of TService n \<Rightarrow> Some n | TReference _ _ n \<Rightarrow> Some n | _ \<Rightarrow> None)"

definition worker_target_ok :: "manifest \<Rightarrow> worker_action \<Rightarrow> action_target \<Rightarrow> unit res" where
  "worker_target_ok m rule t =
     and_then (ok_or (map_of (wa_targets rule) (tg_name t)) ''missing worker target rule'') (\<lambda>b.
     ensure (wt_resource b = tg_resource t) ''worker target resource mismatch''
     (ensure (source_eligible (tg_source t) = Some (wt_eligible b))
       ''worker target requires service root or approved reference binding''
     (and_then (find_operation m (wt_eligible b)) (\<lambda>read.
      ensure (op_kind read = ReadOp \<and> op_resource read = wt_resource b) ''invalid worker eligible read'' (Inr ())))))"

definition worker_step_ok :: "manifest \<Rightarrow> step \<Rightarrow> unit res" where
  "worker_step_ok m s =
     and_then (find_operation m (sp_operation s)) (\<lambda>v.
     ensure (op_kind v \<in> {UpdateOp, DeleteOp}) ''service actions update or delete only'' (Inr ()))"

definition worker_input_ok :: "action_input \<Rightarrow> unit res" where
  "worker_input_ok i =
     ensure (case in_kind i of KUploadHandle _ \<Rightarrow> False | KBlob _ \<Rightarrow> False | KReference _ \<Rightarrow> False | _ \<Rightarrow> True)
       ''service input cannot persist opaque browser handles'' (Inr ())"

definition worker_rule_ok :: "manifest \<Rightarrow> worker_action \<Rightarrow> unit res" where
  "worker_rule_ok m rule =
     and_then (find_action m (wa_action rule)) (\<lambda>a.
     ensure (\<not> list_ex (\<lambda>b. wb_action b = ac_id a) (mf_web_bindings m)) ''worker action cannot have a web binding''
     (ensure (length (ac_targets a) = length (wa_targets rule)) ''worker target rules must be exact''
     (and_then (each_ok (worker_target_ok m rule) (ac_targets a)) (\<lambda>_.
      and_then (each_ok (worker_step_ok m) (ac_steps a)) (\<lambda>_. each_ok worker_input_ok (ac_inputs a))))))"

fun worker_rules_from :: "manifest \<Rightarrow> nat set \<Rightarrow> worker_action list \<Rightarrow> unit res" where
  "worker_rules_from m actions [] = Inr ()"
| "worker_rules_from m actions (rule # rules) =
     ensure (wa_action rule \<notin> actions) ''duplicate worker action''
     (and_then (worker_rule_ok m rule) (\<lambda>_. worker_rules_from m (insert (wa_action rule) actions) rules))"

fun workers_from :: "manifest \<Rightarrow> string set \<Rightarrow> service_worker list \<Rightarrow> unit res" where
  "workers_from m names [] = Inr ()"
| "workers_from m names (w # ws) =
     ensure (is_identifier (sw_name w) \<and> sw_actions w \<noteq> [] \<and> length (sw_actions w) \<le> 32 \<and> sw_name w \<notin> names)
       ''invalid or duplicate worker''
     (and_then (worker_rules_from m {} (sw_actions w)) (\<lambda>_. workers_from m (insert (sw_name w) names) ws))"

definition find_worker_action :: "job_contract \<Rightarrow> string \<Rightarrow> nat \<Rightarrow> worker_action res" where
  "find_worker_action c worker n =
     and_then (ok_or (find (\<lambda>w. sw_name w = worker) (jc_workers c)) ''undeclared service worker'') (\<lambda>w.
     ok_or (find (\<lambda>rule. wa_action rule = n) (sw_actions w)) ''undeclared service action'')"

section \<open>Schedules\<close>

definition safe_node :: "nat \<Rightarrow> nat \<Rightarrow> (nat \<Rightarrow> nat res) \<Rightarrow> nat res" where
  "safe_node depth n k = ensure (depth < 8 \<and> Suc n \<le> 64) ''schedule expression limit'' (k (Suc n))"

abbreviation unsafe_value :: "nat \<Rightarrow> nat res" where
  "unsafe_value \<equiv> \<lambda>_. Inl ''invalid persisted scalar expression''"

primrec safe_value :: "expr \<Rightarrow> nat \<Rightarrow> nat \<Rightarrow> nat res" where
  "safe_value (EInput _) depth n = safe_node depth n Inr"
| "safe_value (ELiteral _) depth n = safe_node depth n Inr"
| "safe_value (ETarget _) depth n = safe_node depth n unsafe_value"
| "safe_value (ECreated _) depth n = safe_node depth n unsafe_value"
| "safe_value EPrincipal depth n = safe_node depth n unsafe_value"
| "safe_value ETransactionTime depth n = safe_node depth n Inr"
| "safe_value (ESnapshotField _ _ _) depth n = safe_node depth n Inr"
| "safe_value (ECurrentField _ _) depth n = safe_node depth n unsafe_value"
| "safe_value (EAdd l r) depth n = safe_node depth n (\<lambda>n. and_then (safe_value l (Suc depth) n) (safe_value r (Suc depth)))"
| "safe_value (ESubtract l r) depth n = safe_node depth n (\<lambda>n. and_then (safe_value l (Suc depth) n) (safe_value r (Suc depth)))"
| "safe_value (EMultiply l r) depth n = safe_node depth n (\<lambda>n. and_then (safe_value l (Suc depth) n) (safe_value r (Suc depth)))"

definition scheduled_resource :: "manifest \<Rightarrow> action \<Rightarrow> scheduled_target \<Rightarrow> nat res" where
  "scheduled_resource m source t =
     (case t of
        STarget name \<Rightarrow> and_then (find_target (ac_targets source) name) (\<lambda>t. Inr (tg_resource t))
      | SCreated index \<Rightarrow>
          and_then (ok_or (nth_opt (ac_steps source) index) ''schedule create index unavailable'') (\<lambda>s.
          and_then (find_operation m (sp_operation s)) (\<lambda>v.
          ensure (op_kind v = CreateOp) ''schedule requires a created target'' (Inr (op_resource v)))))"

definition scheduled_target_ok :: "manifest \<Rightarrow> action \<Rightarrow> worker_action \<Rightarrow> string \<times> scheduled_target \<Rightarrow> unit res" where
  "scheduled_target_ok m source destination = (\<lambda>(alias, t).
     and_then (scheduled_resource m source t) (\<lambda>n.
     ensure (map_option wt_resource (map_of (wa_targets destination) alias) = Some n) ''schedule target resource differs'' (Inr ())))"

definition same_names :: "action \<Rightarrow> (string \<times> 'a) list \<Rightarrow> bool" where
  "same_names called inputs \<longleftrightarrow> set (map in_name (ac_inputs called)) = set (map fst inputs)"

type_synonym positions = "(nat \<times> nat) set"
type_synonym call_graph = "(nat, nat list) btree"

definition schedule_ok :: "(schedule \<Rightarrow> unit res) \<Rightarrow> manifest \<Rightarrow> job_contract \<Rightarrow> schedule \<Rightarrow> action res" where
  "schedule_ok schedule_values m c sc =
     and_then (find_action m (sc_source_action sc)) (\<lambda>source.
     and_then (find_worker_action c (sc_worker sc) (sc_action sc)) (\<lambda>destination.
     ensure (map fst (sc_targets sc) = map fst (wa_targets destination)) ''schedule target aliases differ''
     (and_then (find_action m (sc_action sc)) (\<lambda>called.
      ensure (same_names called (sc_inputs sc)) ''schedule input aliases differ''
      (and_then (each_ok (scheduled_target_ok m source destination) (sc_targets sc)) (\<lambda>_.
       and_then (each_ok (\<lambda>v. and_then (safe_value v 0 0) (\<lambda>_. Inr ())) (map snd (sc_inputs sc) @ [sc_due_at sc])) (\<lambda>_.
       and_then (schedule_values sc) (\<lambda>_. Inr source))))))))"

definition push_call :: "nat \<Rightarrow> nat \<Rightarrow> call_graph \<Rightarrow> call_graph" where
  "push_call source n graph = bt_insert source ((case bt_get graph source of None \<Rightarrow> [] | Some ns \<Rightarrow> ns) @ [n]) graph"

fun schedules_from ::
  "(schedule \<Rightarrow> unit res) \<Rightarrow> manifest \<Rightarrow> job_contract \<Rightarrow> positions \<Rightarrow> call_graph \<Rightarrow> schedule list \<Rightarrow> call_graph res" where
  "schedules_from schedule_values m c seen graph [] = Inr graph"
| "schedules_from schedule_values m c seen graph (sc # scs) =
     ensure (sc_ordinal sc < MAX_SCHEDULES_PER_ACTION \<and> (sc_source_action sc, sc_ordinal sc) \<notin> seen)
       ''duplicate or excessive schedule position''
     (and_then (schedule_ok schedule_values m c sc) (\<lambda>source.
      schedules_from schedule_values m c (insert (sc_source_action sc, sc_ordinal sc) seen)
        (push_call (ac_id source) (sc_action sc) graph) scs))"

section \<open>No cycle of schedules\<close>

text \<open>
  Depth-first search.  \<open>visiting\<close> is restored by the code when a call returns, so it is passed down and
  only \<open>visited\<close> is threaded.
\<close>

definition calls :: "call_graph \<Rightarrow> nat \<Rightarrow> nat list" where
  "calls graph n = (case bt_get graph n of None \<Rightarrow> [] | Some ns \<Rightarrow> ns)"

lemma calls_outside: "n \<notin> fst ` set graph \<Longrightarrow> calls graph n = []"
  by (auto simp: calls_def bt_get_def map_of_eq_None_iff split: option.splits dest: map_of_SomeD) (metis fst_conv image_eqI map_of_SomeD)

lemma unvisited_less:
  "n \<in> fst ` set graph \<Longrightarrow> n \<notin> visiting \<Longrightarrow> card (fst ` set graph - insert n visiting) < card (fst ` set graph - visiting)"
  by (rule psubset_card_mono) auto

lemma unvisited_le: "card (fst ` set (graph :: call_graph) - insert n visiting) \<le> card (fst ` set graph - visiting)"
  by (rule card_mono) auto

function visit :: "call_graph \<Rightarrow> nat set \<Rightarrow> nat \<Rightarrow> nat set \<Rightarrow> nat set res"
  and visit_each :: "call_graph \<Rightarrow> nat set \<Rightarrow> nat list \<Rightarrow> nat set \<Rightarrow> nat set res" where
  "visit graph visiting n visited =
     (if n \<in> visited then Inr visited
      else ensure (n \<notin> visiting) ''schedule call graph must be acyclic''
        (and_then (visit_each graph (insert n visiting) (calls graph n) visited) (\<lambda>visited. Inr (insert n visited))))"
| "visit_each graph visiting [] visited = Inr visited"
| "visit_each graph visiting (n # ns) visited =
     and_then (visit graph visiting n visited) (visit_each graph visiting ns)"
  by pat_completeness auto

termination
proof (relation "measures [\<lambda>x. case x of Inl (graph, visiting, _, _) \<Rightarrow> card (fst ` set graph - visiting)
      | Inr (graph, visiting, _, _) \<Rightarrow> card (fst ` set graph - visiting),
    \<lambda>x. case x of Inl _ \<Rightarrow> 1 | Inr (_, _, ns, _) \<Rightarrow> 2 * length ns]", goal_cases)
  case (2 graph visiting n visited)
  then show ?case using unvisited_less [of n graph visiting] unvisited_le [of graph n visiting] calls_outside [of n graph]
    by (cases "n \<in> fst ` set graph") auto
qed auto

fun visit_roots :: "call_graph \<Rightarrow> nat list \<Rightarrow> nat set \<Rightarrow> nat set res" where
  "visit_roots graph [] visited = Inr visited"
| "visit_roots graph (n # ns) visited = and_then (visit graph {} n visited) (visit_roots graph ns)"

section \<open>Recurring schedules\<close>

definition recurring_eligible :: "manifest \<Rightarrow> action_target \<Rightarrow> action_target \<Rightarrow> nat res" where
  "recurring_eligible m root t =
     (case tg_source t of
        TService n \<Rightarrow> ensure (tg_name t = tg_name root) ''recurrence requires one service root and one-hop references'' (Inr n)
      | TReference parent field n \<Rightarrow>
          ensure (parent = tg_name root) ''recurrence requires one service root and one-hop references''
          (and_then (reference_resource m (tg_resource root) field) (\<lambda>found.
           ensure (map_option re_id found = Some (tg_resource t)) ''recurrence derived resource mismatch'' (Inr n)))
      | _ \<Rightarrow> Inl ''recurrence requires one service root and one-hop references'')"

definition recurring_target_ok :: "manifest \<Rightarrow> worker_action \<Rightarrow> action_target \<Rightarrow> action_target \<Rightarrow> unit res" where
  "recurring_target_ok m rule root t =
     and_then (recurring_eligible m root t) (\<lambda>eligible.
     and_then (ok_or (map_of (wa_targets rule) (tg_name t)) ''recurrence binding missing'') (\<lambda>b.
     and_then (find_operation m eligible) (\<lambda>read.
     ensure (wt_resource b = tg_resource t \<and> wt_eligible b = eligible \<and> op_kind read = ReadOp \<and> op_resource read = tg_resource t)
       ''recurrence independent read mismatch'' (Inr ()))))"

definition validate_recurring_targets :: "manifest \<Rightarrow> worker_action \<Rightarrow> recurring_selection \<Rightarrow> unit res" where
  "validate_recurring_targets m rule s =
     and_then (find_action m (wa_action rule)) (\<lambda>a.
     ensure (ac_targets a \<noteq> [] \<and> length (ac_targets a) \<le> 4 \<and> length (wa_targets rule) = length (ac_targets a))
       ''recurrence target bound differs from action''
     (and_then (ok_or (find (\<lambda>t. tg_name t = sel_target s) (ac_targets a)) ''recurrence service root missing'') (\<lambda>root.
      ensure (case tg_source root of TService _ \<Rightarrow> True | _ \<Rightarrow> False) ''recurrence must select its service root''
        (each_ok (recurring_target_ok m rule root) (ac_targets a)))))"

definition literal_operand :: "operand \<Rightarrow> bool" where
  "literal_operand e = (case e of OLiteral _ \<Rightarrow> True | OParam _ \<Rightarrow> False)"

definition recurring_selection_ok :: "manifest \<Rightarrow> worker_action \<Rightarrow> recurring_selection \<Rightarrow> unit res" where
  "recurring_selection_ok m rule s =
     and_then (validate_recurring_targets m rule s) (\<lambda>_.
     and_then (find_operation m (sel_operation s)) (\<lambda>q.
     ensure (op_kind q = ListOp \<and> Some (op_resource q) = map_option wt_resource (map_of (wa_targets rule) (sel_target s))
             \<and> op_scope q = None \<and> list_all (\<lambda>c. literal_operand (fc_equals c)) (op_filter q))
       ''invalid recurring indexed selection''
     (if sel_expiry_repair s then
        and_then (find_resource m (op_resource q)) (\<lambda>r.
        ensure (re_expiry r \<noteq> None) ''expiry repair requires resource expiry'' (Inr ()))
      else Inr ())))"

definition recurring_ok :: "(recurring_schedule \<Rightarrow> unit res) \<Rightarrow> manifest \<Rightarrow> job_contract \<Rightarrow> recurring_schedule \<Rightarrow> unit res" where
  "recurring_ok recurring_inputs m c s =
     and_then (find_worker_action c (rs_worker s) (rs_action s)) (\<lambda>rule.
     and_then (find_action m (rs_action s)) (\<lambda>called.
     ensure (same_names called (rs_inputs s)) ''recurring input aliases differ''
     (and_then (case rs_selection s of
                  Some selection \<Rightarrow> recurring_selection_ok m rule selection
                | None \<Rightarrow> ensure (wa_targets rule = []) ''targeted recurrence requires selection'' (Inr ())) (\<lambda>_.
      recurring_inputs s))))"

fun recurring_from ::
  "(recurring_schedule \<Rightarrow> unit res) \<Rightarrow> manifest \<Rightarrow> job_contract \<Rightarrow> string set \<Rightarrow> recurring_schedule list \<Rightarrow> unit res" where
  "recurring_from recurring_inputs m c names [] = Inr ()"
| "recurring_from recurring_inputs m c names (s # ss) =
     ensure (is_identifier (rs_name s) \<and> rs_name s \<notin> names \<and> MIN_RECURRENCE_MILLIS \<le> rs_interval s
             \<and> rs_interval s \<le> MAX_SCHEDULE_HORIZON_MILLIS) ''invalid recurring schedule''
     (and_then (recurring_ok recurring_inputs m c s) (\<lambda>_. recurring_from recurring_inputs m c (insert (rs_name s) names) ss))"

definition validate_contract ::
  "manifest \<Rightarrow> job_contract \<Rightarrow> (schedule \<Rightarrow> unit res) \<Rightarrow> (recurring_schedule \<Rightarrow> unit res) \<Rightarrow> unit res" where
  "validate_contract m c schedule_values recurring_inputs =
     ensure (length (jc_workers c) \<le> 32 \<and> length (jc_schedules c) \<le> 64 \<and> length (jc_recurring c) \<le> 32) ''job declaration limit''
     (and_then (workers_from m {} (jc_workers c)) (\<lambda>_.
      and_then (schedules_from schedule_values m c {} [] (jc_schedules c)) (\<lambda>graph.
      and_then (visit_roots graph (map fst graph) {}) (\<lambda>_.
      recurring_from recurring_inputs m c {} (jc_recurring c)))))"

section \<open>Authority of jobs\<close>

definition recurring_literal_ok :: "action \<Rightarrow> string \<times> literal \<Rightarrow> unit res" where
  "recurring_literal_ok called = (\<lambda>(name, l).
     and_then (ok_or (find_input (ac_inputs called) name) ''unknown recurring action input'') (\<lambda>i.
     and_then (literal_domain l) (\<lambda>d.
     ensure (fits_input d i) ''recurring literal does not fit destination input'' (Inr ()))))"

definition recurring_filter_ok :: "manifest \<Rightarrow> operation \<Rightarrow> filter_condition \<Rightarrow> unit res" where
  "recurring_filter_ok m q c =
     and_then (find_resource m (op_resource q)) (\<lambda>r.
     and_then (ok_or (resource_field r (fc_field c)) ''unknown recurring filter field'') (\<lambda>f.
     ensure (default_kind (tf_kind f) \<and> literal_operand (fc_equals c))
       ''recurring filters require fixed boolean or choice literals'' (Inr ())))"

definition repair_ok :: "manifest \<Rightarrow> action \<Rightarrow> operation \<Rightarrow> recurring_selection \<Rightarrow> unit res" where
  "repair_ok m called q s =
     and_then (find_target (ac_targets called) (sel_target s)) (\<lambda>t.
     case tg_source t of
       TService n \<Rightarrow>
         and_then (find_operation m n) (\<lambda>eligible.
         ensure (op_maintenance q \<and> op_maintenance eligible
                 \<and> list_all (\<lambda>s. case find_operation m (sp_operation s) of Inl _ \<Rightarrow> False | Inr v \<Rightarrow> op_maintenance v) (ac_steps called))
           ''expiry repair requires approved maintenance selection, read and mutations'' (Inr ()))
     | _ \<Rightarrow> Inl ''recurring selection requires a service root'')"

definition recurring_query_ok :: "manifest \<Rightarrow> action \<Rightarrow> string \<Rightarrow> recurring_selection \<Rightarrow> unit res" where
  "recurring_query_ok m called worker s =
     and_then (find_operation m (sel_operation s)) (\<lambda>q.
     ensure (case any_of (op_policy q) of
               [rule] \<Rightarrow> length rule = 2 \<and> Service worker \<in> set rule \<and> SameTenant \<in> set rule
             | _ \<Rightarrow> False) ''recurring selection requires exactly its service and tenant predicates''
     (ensure (op_via q = None \<and> op_scope q = None \<and> op_query q = None
              \<and> (case op_list q of None \<Rightarrow> True | Some l \<Rightarrow> lt_preview l = None \<and> lt_order l \<in> {CreatedAsc, CreatedDesc}))
       ''recurring selection requires fixed creation order without search or ranges''
     (and_then (each_ok (recurring_filter_ok m q) (op_filter q)) (\<lambda>_.
      if sel_expiry_repair s then repair_ok m called q s else Inr ()))))"

definition recurring_inputs_ok :: "manifest \<Rightarrow> recurring_schedule \<Rightarrow> unit res" where
  "recurring_inputs_ok m s =
     and_then (find_action m (rs_action s)) (\<lambda>called.
     and_then (each_ok (recurring_literal_ok called) (rs_inputs s)) (\<lambda>_.
     case rs_selection s of None \<Rightarrow> Inr () | Some selection \<Rightarrow> recurring_query_ok m called (rs_worker s) selection))"

definition no_service_authority :: "manifest \<Rightarrow> bool" where
  "no_service_authority m \<longleftrightarrow>
     list_all (\<lambda>v. \<not> op_maintenance v \<and> \<not> list_ex is_service (concat (any_of (op_policy v)))) (mf_operations m)
     \<and> list_all (\<lambda>a. list_all (\<lambda>t. case tg_source t of TService _ \<Rightarrow> False | _ \<Rightarrow> True) (ac_targets a)) (mf_actions m)"

definition target_operations :: "action_target \<Rightarrow> nat list res" where
  "target_operations t =
     and_then (ok_or (source_eligible (tg_source t)) ''worker target source is not server verified'') (\<lambda>eligible.
     Inr (eligible # map ip_operation (List.map_filter (\<lambda>p. p) [tg_projection t, tg_inspect t])))"

definition rule_operations :: "manifest \<Rightarrow> worker_action \<Rightarrow> nat list res" where
  "rule_operations m rule =
     and_then (find_action m (wa_action rule)) (\<lambda>called.
     and_then (map_ok target_operations (ac_targets called)) (\<lambda>ns.
     Inr (map sp_operation (ac_steps called) @ concat ns)))"

definition worker_operations :: "manifest \<Rightarrow> service_worker \<Rightarrow> (string \<times> nat list) res" where
  "worker_operations m w =
     and_then (map_ok (rule_operations m) (sw_actions w)) (\<lambda>ns. Inr (sw_name w, concat ns))"

definition recurring_operations :: "job_contract \<Rightarrow> (string \<times> nat list) list" where
  "recurring_operations jobs =
     List.map_filter (\<lambda>s. map_option (\<lambda>x. (rs_worker s, [sel_operation x])) (rs_selection s)) (jc_recurring jobs)"

text \<open>The operations each worker can reach, as (worker, operations) entries.\<close>

definition service_operations :: "manifest \<Rightarrow> job_contract \<Rightarrow> (string \<times> nat list) list res" where
  "service_operations m jobs =
     and_then (map_ok (worker_operations m) (jc_workers jobs)) (\<lambda>entries. Inr (entries @ recurring_operations jobs))"

definition reachable_by :: "(string \<times> nat list) list \<Rightarrow> string \<Rightarrow> nat \<Rightarrow> bool" where
  "reachable_by entries worker n = list_ex (\<lambda>(w, ns). w = worker \<and> n \<in> set ns) entries"

definition service_root_ok :: "job_contract \<Rightarrow> action \<Rightarrow> unit res" where
  "service_root_ok jobs a =
     ensure (list_all (\<lambda>t. case tg_source t of TService _ \<Rightarrow> False | _ \<Rightarrow> True) (ac_targets a)
             \<or> list_ex (\<lambda>w. list_ex (\<lambda>rule. wa_action rule = ac_id a) (sw_actions w)) (jc_workers jobs))
       ''service targets require a declared worker action'' (Inr ())"

fun service_worker_of :: "predicate \<Rightarrow> string option" where
  "service_worker_of (Service worker) = Some worker"
| "service_worker_of _ = None"

definition service_identity_ok :: "job_contract \<Rightarrow> string \<Rightarrow> unit res" where
  "service_identity_ok jobs worker =
     ensure (is_identifier worker \<and> worker \<in> set (map sw_name (jc_workers jobs))) ''unknown service identity'' (Inr ())"

definition maintenance_rule :: "(string \<times> nat list) list \<Rightarrow> nat \<Rightarrow> predicate list \<Rightarrow> bool" where
  "maintenance_rule entries n rule =
     (case List.map_filter service_worker_of rule of [worker] \<Rightarrow> reachable_by entries worker n | _ \<Rightarrow> False)"

definition target_exposes :: "nat \<Rightarrow> action_target \<Rightarrow> bool" where
  "target_exposes n t \<longleftrightarrow>
     (case tg_source t of
        TPage reads \<Rightarrow> n \<in> set reads
      | TService eligible \<Rightarrow> eligible = n
      | TReference _ _ eligible \<Rightarrow> eligible = n
      | TSelected _ eligible _ \<Rightarrow> eligible = n)
     \<or> list_ex (\<lambda>p. ip_operation p = n) (List.map_filter (\<lambda>p. p) [tg_projection t, tg_inspect t])"

definition binding_hides :: "manifest \<Rightarrow> nat \<Rightarrow> web_binding \<Rightarrow> unit res" where
  "binding_hides m n b =
     and_then (find_action m (wb_action b)) (\<lambda>called.
     ensure (\<not> list_ex (\<lambda>s. sp_operation s = n) (ac_steps called) \<and> \<not> list_ex (target_exposes n) (ac_targets called))
       ''web bindings cannot expose maintenance authority'' (Inr ()))"

definition maintenance_ok :: "manifest \<Rightarrow> (string \<times> nat list) list \<Rightarrow> operation \<Rightarrow> unit res" where
  "maintenance_ok m entries v =
     ensure (op_kind v \<in> {ReadOp, ListOp, UpdateOp, DeleteOp} \<and> op_via v = None
             \<and> list_all (maintenance_rule entries (op_id v)) (any_of (op_policy v)))
       ''maintenance requires explicit reachable service-only authority''
     (ensure (\<not> list_ex (\<lambda>r. op_id v \<in> set (rt_operations r)) (mf_routes m)) ''maintenance operations cannot be exposed by routes''
       (each_ok (binding_hides m (op_id v)) (mf_web_bindings m)))"

definition operation_service_ok :: "manifest \<Rightarrow> job_contract \<Rightarrow> (string \<times> nat list) list \<Rightarrow> operation \<Rightarrow> unit res" where
  "operation_service_ok m jobs entries v =
     and_then (each_ok (service_identity_ok jobs) (List.map_filter service_worker_of (concat (any_of (op_policy v))))) (\<lambda>_.
     if op_maintenance v then maintenance_ok m entries v else Inr ())"

definition validate_jobs :: "manifest \<Rightarrow> unit res" where
  "validate_jobs m =
     (case mf_jobs m of
        None \<Rightarrow> ensure (no_service_authority m) ''service authority requires declared workers'' (Inr ())
      | Some jobs \<Rightarrow>
          and_then (validate_contract m jobs (\<lambda>_. Inr ()) (recurring_inputs_ok m)) (\<lambda>_.
          and_then (service_operations m jobs) (\<lambda>entries.
          and_then (each_ok (service_root_ok jobs) (mf_actions m)) (\<lambda>_.
          each_ok (operation_service_ok m jobs entries) (mf_operations m)))))"

end
