(* ===== verification/Manifest_Admission.thy ===== *)
theory Manifest_Admission
  imports Job_Contract
begin

text \<open>
  The admission of a whole manifest: \<open>validate\<close> of \<^verbatim>\<open>crates/noxide-admission/src/manifest.rs\<close> with
  the effect declarations (\<^verbatim>\<open>manifest/effect_admission.rs\<close>), the upload bindings
  (\<^verbatim>\<open>manifest/blob_admission.rs\<close>) and the asset declarations (\<^verbatim>\<open>crates/noxide-assets/src/lib.rs\<close>).  The
  theorems say what an admitted manifest guarantees to the components that run it.
\<close>

section \<open>Assets\<close>

definition MAX_ASSETS :: nat where "MAX_ASSETS = 128"

fun assets_from :: "string set \<Rightarrow> string set \<Rightarrow> asset_declaration list \<Rightarrow> unit res" where
  "assets_from names digests [] = Inr ()"
| "assets_from names digests (d # ds) =
     ensure (valid_asset_name (ad_name d) \<and> valid_digest (ad_digest d)) ''asset name or digest''
     (ensure (ad_name d \<notin> names \<and> ad_digest d \<notin> digests) ''duplicate asset name or digest''
       (assets_from (insert (ad_name d) names) (insert (ad_digest d) digests) ds))"

definition validate_assets :: "asset_declaration list \<Rightarrow> unit res" where
  "validate_assets ds = ensure (length ds \<le> MAX_ASSETS) ''asset declaration count'' (assets_from {} {} ds)"

section \<open>Effects\<close>

fun endpoints_from :: "string set \<Rightarrow> effect_endpoint list \<Rightarrow> unit res" where
  "endpoints_from names [] = Inr ()"
| "endpoints_from names (e # es) =
     ensure (is_identifier (ee_name e) \<and> ee_name e \<notin> names
             \<and> (case ee_secret_slot e of None \<Rightarrow> True | Some slot \<Rightarrow> is_identifier slot)) ''invalid or duplicate effect endpoint''
       (endpoints_from (insert (ee_name e) names) es)"

fun payload_from :: "manifest \<Rightarrow> string set \<Rightarrow> payload_field list \<Rightarrow> unit res" where
  "payload_from m names [] = Inr ()"
| "payload_from m names (p # ps) =
     ensure (in_name (pf_schema p) \<notin> names) ''duplicate effect payload field''
     (and_then (validate_payload_schema m (pf_schema p)) (\<lambda>_. payload_from m (insert (in_name (pf_schema p)) names) ps))"

fun emissions_from :: "manifest \<Rightarrow> string list \<Rightarrow> positions \<Rightarrow> emit_effect list \<Rightarrow> unit res" where
  "emissions_from m endpoints seen [] = Inr ()"
| "emissions_from m endpoints seen (e # es) =
     and_then (find_action m (em_source_action e)) (\<lambda>_.
     ensure (em_ordinal e < MAX_EFFECTS_PER_ACTION \<and> (em_source_action e, em_ordinal e) \<notin> seen \<and> em_endpoint e \<in> set endpoints)
       ''invalid or duplicate effect position/endpoint''
     (ensure (length (em_fields e) \<le> MAX_PAYLOAD_FIELDS) ''effect field limit''
     (and_then (payload_from m {} (em_fields e)) (\<lambda>_.
      emissions_from m endpoints (insert (em_source_action e, em_ordinal e) seen) es))))"

definition validate_effects :: "manifest \<Rightarrow> unit res" where
  "validate_effects m =
     (case mf_effects m of
        None \<Rightarrow> Inr ()
      | Some c \<Rightarrow>
          ensure (length (ec_endpoints c) \<le> MAX_ENDPOINTS
                  \<and> length (ec_emissions c) \<le> length (mf_actions m) * MAX_EFFECTS_PER_ACTION) ''effect declaration limit''
          (and_then (endpoints_from {} (ec_endpoints c)) (\<lambda>_.
           emissions_from m (map ee_name (ec_endpoints c)) {} (ec_emissions c))))"

section \<open>Uploads\<close>

definition has_opaque :: "manifest \<Rightarrow> bool" where
  "has_opaque m \<longleftrightarrow>
     list_ex (\<lambda>r. list_ex (\<lambda>f. opaque_kind (tf_kind f)) (re_fields r)) (mf_resources m)
     \<or> list_ex (\<lambda>a. list_ex (\<lambda>i. opaque_kind (in_kind i)) (ac_inputs a)) (mf_actions m)"

definition uses_input :: "string \<Rightarrow> assignment \<Rightarrow> bool" where
  "uses_input name x \<longleftrightarrow> as_change x = ChangeSet (EInput name)"

definition upload_destination_ok :: "manifest \<Rightarrow> action_input \<Rightarrow> nat \<Rightarrow> operation \<Rightarrow> assignment \<Rightarrow> unit res" where
  "upload_destination_ok m i max_bytes v x =
     and_then (find_resource m (op_resource v)) (\<lambda>r.
     and_then (ok_or (resource_field r (as_field x)) ''unknown blob destination'') (\<lambda>f.
     ensure (op_kind v = CreateOp \<and> (case tf_kind f of KBlob limit \<Rightarrow> max_bytes \<le> limit | _ \<Rightarrow> False)
             \<and> (\<not> in_optional i \<or> tf_optional f))
       ''upload requires a compatible create Blob destination'' (Inr ())))"

text \<open>The number of assignments that use the upload, each checked.\<close>

definition upload_uses :: "manifest \<Rightarrow> action_input \<Rightarrow> nat \<Rightarrow> step \<Rightarrow> nat res" where
  "upload_uses m i max_bytes s =
     and_then (find_operation m (sp_operation s)) (\<lambda>v.
     let xs = filter (uses_input (in_name i)) (sp_assign s) in
     and_then (each_ok (upload_destination_ok m i max_bytes v) xs) (\<lambda>_. Inr (length xs)))"

definition upload_anonymity_ok :: "manifest \<Rightarrow> blob_policy \<Rightarrow> upload_declaration \<Rightarrow> action \<Rightarrow> unit res" where
  "upload_anonymity_ok m p u a =
     and_then (find_operation m (sp_operation (ac_steps a ! 0))) (\<lambda>v.
     ensure (anonymous_action v = (ud_anonymous u \<noteq> None)) ''anonymous upload requires explicit capability quota''
     (ensure (anonymous_action v \<longrightarrow> length (ac_steps a) = 1 \<and> bp_anonymous p \<noteq> None)
       ''anonymous upload requires deployment limits and one create'' (Inr ())))"

definition upload_ok :: "manifest \<Rightarrow> blob_policy \<Rightarrow> upload_declaration \<Rightarrow> nat set \<Rightarrow> nat set res" where
  "upload_ok m p u actions =
     and_then (web_binding_of m (ud_web_binding u)) (\<lambda>binding.
     and_then (find_action m (wb_action binding)) (\<lambda>a.
     ensure (ac_id a \<notin> actions) ''one upload binding per action''
     (and_then (ok_or (find_input (ac_inputs a) (ud_input u)) ''unknown upload input'') (\<lambda>i.
      case in_kind i of
        KUploadHandle max_bytes \<Rightarrow>
          ensure (max_bytes > 0 \<and> max_bytes \<le> bl_file_bytes (bp_limits p)) ''upload input exceeds policy''
          (and_then (map_ok (upload_uses m i max_bytes) (ac_steps a)) (\<lambda>uses.
           ensure (sum_list uses = 1) ''an upload attaches exactly once''
           (and_then (upload_anonymity_ok m p u a) (\<lambda>_.
            ensure (length (filter (\<lambda>b. wb_action b = ac_id a) (mf_web_bindings m)) = 1) ''upload action has one web binding''
              (Inr (insert (ac_id a) actions))))))
      | _ \<Rightarrow> Inl ''upload requires an UploadHandle input''))))"

fun uploads_from :: "manifest \<Rightarrow> blob_policy \<Rightarrow> string set \<Rightarrow> nat set \<Rightarrow> nat set \<Rightarrow> upload_declaration list \<Rightarrow> nat set res" where
  "uploads_from m p names bindings actions [] = Inr actions"
| "uploads_from m p names bindings actions (u # us) =
     ensure (is_identifier (ud_name u) \<and> ud_name u \<notin> names \<and> ud_web_binding u \<notin> bindings) ''duplicate upload binding''
     (and_then (upload_ok m p u actions) (\<lambda>actions.
      uploads_from m p (insert (ud_name u) names) (insert (ud_web_binding u) bindings) actions us))"

definition upload_input :: "action_input \<Rightarrow> bool" where
  "upload_input i \<longleftrightarrow> (case in_kind i of KUploadHandle _ \<Rightarrow> True | _ \<Rightarrow> False)"

definition bound_uploads :: "nat set \<Rightarrow> action \<Rightarrow> unit res" where
  "bound_uploads actions a =
     (let uploads = filter upload_input (ac_inputs a) in
      ensure (length uploads \<le> 1 \<and> (uploads = [] \<or> ac_id a \<in> actions)) ''unbound upload input'' (Inr ()))"

definition validate_blobs :: "manifest \<Rightarrow> unit res" where
  "validate_blobs m =
     (case mf_blobs m of
        None \<Rightarrow> ensure (\<not> has_opaque m) ''blob declarations require an approved policy'' (Inr ())
      | Some p \<Rightarrow>
          and_then (validate_limits p) (\<lambda>_.
          and_then (unique (map ud_id (bp_uploads p))) (\<lambda>_.
          and_then (uploads_from m p {} {} {} (bp_uploads p)) (\<lambda>actions.
          each_ok (bound_uploads actions) (mf_actions m)))))"

section \<open>The manifest\<close>

definition index_route :: "manifest \<Rightarrow> bool" where
  "index_route m \<longleftrightarrow> mf_routes m = [] \<or> list_ex (\<lambda>r. rt_path r = ''/'' \<and> rt_route_resource r = None) (mf_routes m)"

definition validate_manifest :: "(form_instruction list \<Rightarrow> bytes res) \<Rightarrow> manifest \<Rightarrow> unit res" where
  "validate_manifest encode_layout m =
     ensure (mf_version m = VERSION) ''unsupported manifest version''
     (and_then (validate_query_declarations m) (\<lambda>_.
      and_then (validate_assets (mf_assets m)) (\<lambda>_.
      and_then (validate_contract_limits m) (\<lambda>_.
      and_then (validate_resources m) (\<lambda>_.
      and_then (validate_resource_gates m) (\<lambda>_.
      and_then (validate_operations m) (\<lambda>_.
      and_then (validate_public_operations m) (\<lambda>_.
      and_then (validate_capability_operations m) (\<lambda>_.
      and_then (validate_authority m) (\<lambda>_.
      and_then (required_indexes m) (\<lambda>_.
      and_then (validate_routes m) (\<lambda>_.
      ensure (index_route m) ''missing index route''
      (and_then (each_ok (validate_action m) (mf_actions m)) (\<lambda>_.
       and_then (each_ok (\<lambda>b. and_then (web_action_of m (wb_id b)) (validate_web_binding encode_layout m)) (mf_web_bindings m)) (\<lambda>_.
       and_then (validate_jobs m) (\<lambda>_.
       and_then (validate_effects m) (\<lambda>_. validate_blobs m)))))))))))))))))"

lemma validate_manifest_Inr:
  assumes "validate_manifest encode_layout m = Inr ()"
  shows "validate_contract_limits m = Inr ()" "validate_resources m = Inr ()" "validate_operations m = Inr ()"
    "validate_public_operations m = Inr ()" "validate_capability_operations m = Inr ()" "validate_routes m = Inr ()"
    "each_ok (validate_action m) (mf_actions m) = Inr ()" "validate_jobs m = Inr ()" "validate_effects m = Inr ()" "validate_blobs m = Inr ()"
    "validate_resource_gates m = Inr ()" "validate_authority m = Inr ()"
  using assms by (simp_all add: validate_manifest_def res_simps split: if_splits)

end
