(* ===== verification/Admission_Demo.thy ===== *)
theory Admission_Demo
  imports Manifest_Admission
begin

text \<open>
  A small application that admission accepts: the concrete input of the theorems about admitted
  manifests.
\<close>

text \<open>A task list: tasks expire, a worker sweeps them, and finished ones are public.\<close>

definition demo_tasks :: resource where
  "demo_tasks = \<lparr>re_search = None, re_expiry = Some \<lparr>xp_field = ''expires'', xp_max_after = 86400000\<rparr>, re_unique = [], re_gate = None,
     re_id = 1, re_name = ''tasks'',
     re_fields =
       [\<lparr>tf_immutable = False, tf_kind = KText, tf_optional = False, tf_initial = None, tf_name = ''title'', tf_label = ''Title'', tf_max_bytes = 64\<rparr>,
        \<lparr>tf_immutable = False, tf_kind = KBoolean, tf_optional = False, tf_initial = Some ''false'', tf_name = ''done'', tf_label = ''Done'', tf_max_bytes = 5\<rparr>,
        \<lparr>tf_immutable = False, tf_kind = KInteger (Some 0) (Some 100), tf_optional = False, tf_initial = None, tf_name = ''count'', tf_label = ''Count'', tf_max_bytes = 20\<rparr>,
        \<lparr>tf_immutable = False, tf_kind = KTimestamp, tf_optional = False, tf_initial = None, tf_name = ''expires'', tf_label = ''Expires'', tf_max_bytes = 20\<rparr>]\<rparr>"

definition demo_operation :: "nat \<Rightarrow> operation_kind \<Rightarrow> predicate list \<Rightarrow> operation" where
  "demo_operation n kind rule = \<lparr>op_maintenance = False, op_query = None, op_bind = [], op_scope = None, op_via = None, op_filter = [],
     op_disclose = [], op_list = None, op_id = n, op_resource = 1, op_kind = kind, op_policy = \<lparr>any_of = [rule]\<rparr>,
     op_visibility = None, op_fields = None\<rparr>"

definition demo_sweep :: "nat \<Rightarrow> operation_kind \<Rightarrow> operation" where
  "demo_sweep n kind = (demo_operation n kind [Service ''sweep'', SameTenant])\<lparr>op_maintenance := True\<rparr>"

definition demo_operations :: "operation list" where
  "demo_operations =
     [demo_operation 1 ListOp [SameTenant], demo_operation 2 ReadOp [SameTenant], demo_operation 3 CreateOp [SameTenant],
      demo_operation 4 UpdateOp [SameTenant], demo_sweep 5 ReadOp, demo_sweep 6 ListOp, demo_sweep 7 DeleteOp,
      (demo_operation 8 ListOp [Public])\<lparr>op_visibility := Some \<lparr>vs_field = ''done'', vs_equals = ''true''\<rparr>, op_fields := Some [''title'']\<rparr>]"

definition demo_route :: "nat \<Rightarrow> string \<Rightarrow> nat option \<Rightarrow> nat list \<Rightarrow> nat list \<Rightarrow> access \<Rightarrow> route" where
  "demo_route n path target operations forms access' = \<lparr>rt_params = [], rt_route_id = n, rt_path = path, rt_route_resource = target,
     rt_operations = operations, rt_forms = forms, rt_access = access'\<rparr>"

definition demo_input :: action_input where
  "demo_input = \<lparr>in_name = ''title'', in_label = ''Title'', in_kind = KText, in_optional = False, in_max_bytes = 64\<rparr>"

definition demo_tomorrow :: expr where "demo_tomorrow = EAdd ETransactionTime (ELiteral (LDuration 60))"

definition demo_create :: action where
  "demo_create = \<lparr>ac_id = 1, ac_version = 1, ac_name = ''Create'', ac_targets = [], ac_inputs = [demo_input],
     ac_steps = [\<lparr>sp_guards = [], sp_operation = 3, sp_target = NoTarget,
       sp_assign = [\<lparr>as_field = ''title'', as_change = ChangeSet (EInput ''title'')\<rparr>,
                    \<lparr>as_field = ''count'', as_change = ChangeSet (EAdd (ELiteral (LInteger 1)) (ELiteral (LInteger 2)))\<rparr>,
                    \<lparr>as_field = ''expires'', as_change = ChangeSet demo_tomorrow\<rparr>]\<rparr>]\<rparr>"

definition demo_full :: guard_rejection where "demo_full = \<lparr>gj_input = None, gj_message = ''The count is full.''\<rparr>"

definition demo_update :: action where
  "demo_update = \<lparr>ac_id = 2, ac_version = 1, ac_name = ''Update'',
     ac_targets = [\<lparr>tg_name = ''task'', tg_resource = 1, tg_source = TPage [2], tg_revision = Exact,
       tg_projection = Some \<lparr>ip_operation = 2, ip_fields = [''count'']\<rparr>, tg_inspect = None\<rparr>],
     ac_inputs = [demo_input],
     ac_steps = [\<lparr>sp_guards = [\<lparr>gu_condition = GAll [GCompare (ECurrentField ''task'' ''count'') CompareLess (ELiteral (LInteger 100))],
         gu_rejection = demo_full\<rparr>],
       sp_operation = 4, sp_target = NamedTarget ''task'',
       sp_assign = [\<lparr>as_field = ''title'', as_change = ChangeSet (EInput ''title'')\<rparr>,
                    \<lparr>as_field = ''count'', as_change = ChangeIncrease (ELiteral (LInteger 1)) demo_full\<rparr>]\<rparr>]\<rparr>"

definition demo_remove :: action where
  "demo_remove = \<lparr>ac_id = 3, ac_version = 1, ac_name = ''Sweep'',
     ac_targets = [\<lparr>tg_name = ''row'', tg_resource = 1, tg_source = TService 5, tg_revision = Identity,
       tg_projection = Some \<lparr>ip_operation = 5, ip_fields = []\<rparr>, tg_inspect = None\<rparr>],
     ac_inputs = [],
     ac_steps = [\<lparr>sp_guards = [], sp_operation = 7, sp_target = NamedTarget ''row'', sp_assign = []\<rparr>]\<rparr>"

definition demo_jobs :: job_contract where
  "demo_jobs = \<lparr>jc_workers = [\<lparr>sw_name = ''sweep'',
       sw_actions = [\<lparr>wa_action = 3, wa_targets = [(''row'', \<lparr>wt_resource = 1, wt_eligible = 5\<rparr>)]\<rparr>]\<rparr>],
     jc_schedules = [\<lparr>sc_source_action = 1, sc_ordinal = 0, sc_worker = ''sweep'', sc_action = 3,
       sc_targets = [(''row'', SCreated 0)], sc_inputs = [], sc_due_at = demo_tomorrow\<rparr>],
     jc_recurring = [\<lparr>rs_name = ''nightly'', rs_worker = ''sweep'', rs_action = 3, rs_interval = 86400000, rs_inputs = [],
       rs_selection = Some \<lparr>sel_operation = 6, sel_target = ''row'', sel_expiry_repair = True\<rparr>\<rparr>]\<rparr>"

definition demo_manifest :: manifest where
  "demo_manifest = \<lparr>mf_effects = None, mf_jobs = Some demo_jobs, mf_assets = [], mf_blobs = None, mf_version = 13,
     mf_resources = [demo_tasks], mf_operations = demo_operations,
     mf_routes = [demo_route 1 ''/'' None [1] [1] Authenticated, demo_route 2 ''/tasks/{id}'' (Some 1) [2] [2] Authenticated,
       demo_route 3 ''/open'' None [8] [] AccessPublic],
     mf_actions = [demo_create, demo_update, demo_remove],
     mf_web_bindings =
       [\<lparr>wb_id = 1, wb_version = 1, wb_action = 1, wb_layout = [], wb_redirect = \<lparr>rd_route = 2, rd_source = RedirectStep 0\<rparr>\<rparr>,
        \<lparr>wb_id = 2, wb_version = 1, wb_action = 2, wb_layout = [], wb_redirect = \<lparr>rd_route = 2, rd_source = RedirectTarget ''task''\<rparr>\<rparr>]\<rparr>"

text \<open>Checked part by part; the counters of an action are what its steps leave.\<close>

lemma validate_actionI:
  assumes "ac_version a > 0 \<and> ac_name a \<noteq> [] \<and> length (ac_name a) \<le> 64 \<and> \<not> has_any_control (ac_name a)"
    "1 \<le> length (ac_steps a) \<and> length (ac_steps a) \<le> 4 \<and> length (ac_targets a) \<le> 4 \<and> length (ac_inputs a) \<le> 32
       \<and> distinct (map tg_name (ac_targets a)) \<and> sum_list (map in_max_bytes (ac_inputs a)) \<le> MAX_INPUT_BYTES"
    "page_resource (ac_targets a) = Inr p" "each_ok (validate_action_target m a) (ac_targets a) = Inr ()" "inputs_from {} (ac_inputs a) = Inr ()"
    "fold_ok (step_ok m a) (enumerate 0 (ac_steps a)) \<lparr>ss_creates = 0, ss_exact = {}, ss_admission = admission_default\<rparr> = Inr st"
    "job_action_values m a (ss_admission st) = Inr am" "effect_action_values m a am = Inr am'"
    "each_ok (exact_ok a) (exact_names a (ss_exact st)) = Inr ()" "am_used am' = set (map in_name (ac_inputs a))"
  shows "validate_action m a = Inr ()"
  unfolding validate_action_def using assms by simp

lemma demo_remove_admitted: "validate_action demo_manifest demo_remove = Inr ()"
  by (rule validate_actionI [of _ "None" _ "\<lparr>ss_creates = 0, ss_exact = {''row''}, ss_admission = admission_default\<rparr>" admission_default admission_default])
    code_simp+

lemma demo_create_admitted: "validate_action demo_manifest demo_create = Inr ()"
  by (rule validate_actionI [of _ "None" _ "\<lparr>ss_creates = 1, ss_exact = {}, ss_admission = \<lparr>am_nodes = 7, am_guards = 0, am_used = {''title''}\<rparr>\<rparr>"
        "\<lparr>am_nodes = 10, am_guards = 0, am_used = {''title''}\<rparr>" "\<lparr>am_nodes = 10, am_guards = 0, am_used = {''title''}\<rparr>"])
    code_simp+

lemma demo_update_admitted: "validate_action demo_manifest demo_update = Inr ()"
  by (rule validate_actionI [of _ "Some 1" _ "\<lparr>ss_creates = 0, ss_exact = {''task''}, ss_admission = \<lparr>am_nodes = 4, am_guards = 2, am_used = {''title''}\<rparr>\<rparr>"
        "\<lparr>am_nodes = 4, am_guards = 2, am_used = {''title''}\<rparr>" "\<lparr>am_nodes = 4, am_guards = 2, am_used = {''title''}\<rparr>"])
    code_simp+

lemma demo_queries_admitted: "validate_query_declarations demo_manifest = Inr ()"
  by code_simp

lemma demo_limits_admitted: "validate_contract_limits demo_manifest = Inr ()"
  by code_simp

lemma demo_resources_admitted: "validate_resources demo_manifest = Inr ()"
  by code_simp

lemma demo_operations_admitted: "validate_operations demo_manifest = Inr ()"
  by code_simp

lemma demo_public_admitted: "validate_public_operations demo_manifest = Inr ()"
  by code_simp

lemma demo_authority_admitted: "validate_authority demo_manifest = Inr ()"
  by code_simp

lemma demo_indexes_admitted: "and_then (required_indexes demo_manifest) (\<lambda>_. Inr ()) = Inr ()"
  by code_simp

lemma demo_routes_admitted: "validate_routes demo_manifest = Inr ()"
  by code_simp

lemma demo_bindings_admitted:
  "each_ok (\<lambda>b. and_then (web_action_of demo_manifest (wb_id b)) (validate_web_binding (\<lambda>_. Inr []) demo_manifest)) (mf_web_bindings demo_manifest) = Inr ()"
  by code_simp

lemma demo_jobs_admitted: "validate_jobs demo_manifest = Inr ()"
  by code_simp

lemma demo_rest_admitted:
  "mf_version demo_manifest = VERSION" "validate_assets (mf_assets demo_manifest) = Inr ()" "validate_resource_gates demo_manifest = Inr ()"
  "validate_capability_operations demo_manifest = Inr ()" "index_route demo_manifest" "validate_effects demo_manifest = Inr ()"
  "validate_blobs demo_manifest = Inr ()" "mf_actions demo_manifest = [demo_create, demo_update, demo_remove]"
  by code_simp+

lemma demo_admitted: "validate_manifest (\<lambda>_. Inr []) demo_manifest = Inr ()"
proof -
  obtain ns where "required_indexes demo_manifest = Inr ns" using demo_indexes_admitted by (auto simp: res_simps)
  then show ?thesis
    by (simp add: validate_manifest_def demo_rest_admitted demo_queries_admitted demo_limits_admitted demo_resources_admitted
        demo_operations_admitted demo_public_admitted demo_authority_admitted demo_routes_admitted demo_bindings_admitted demo_jobs_admitted
        demo_create_admitted demo_update_admitted demo_remove_admitted)
qed

end
