(* ===== verification/Admission_Guarantees.thy ===== *)
theory Admission_Guarantees
  imports Manifest_Admission Admission_Demo
begin

text \<open>
  What an admitted manifest guarantees: the values an action computes fit the fields they are written to,
  guards always decide, scheduled actions cannot call each other in a circle, and maintenance
  operations are reachable by their service only.
\<close>

section \<open>Every element of an admitted list was checked\<close>

lemma fold_ok_each: "fold_ok f xs s = Inr s' \<Longrightarrow> x \<in> set xs \<Longrightarrow> \<exists>s1 s2. f x s1 = Inr s2"
  by (induction xs arbitrary: s) (auto simp: res_simps)

lemma assignments_from_each:
  "assignments_from m a index s v r assigned xs st = Inr st' \<Longrightarrow> x \<in> set xs \<Longrightarrow>
     \<exists>s1 s2. validate_assignment m a index s v r x s1 = Inr s2"
  by (induction xs arbitrary: assigned st) (auto simp: res_simps)

lemma admitted_step:
  assumes "validate_action m a = Inr ()" "index < length (ac_steps a)"
  shows "\<exists>s1 s2. step_ok m a (index, ac_steps a ! index) s1 = Inr s2"
proof -
  obtain st where st: "fold_ok (step_ok m a) (enumerate 0 (ac_steps a)) \<lparr>ss_creates = 0, ss_exact = {}, ss_admission = admission_default\<rparr> = Inr st"
    using assms(1) by (auto simp: validate_action_def res_simps split: if_splits)
  have "(index, ac_steps a ! index) \<in> set (enumerate 0 (ac_steps a))" using assms(2) by (auto simp: in_set_enumerate_eq)
  with fold_ok_each [OF st] show ?thesis by blast
qed

lemma admitted_assignment:
  assumes "validate_action m a = Inr ()" "index < length (ac_steps a)" "x \<in> set (sp_assign (ac_steps a ! index))"
    "find_operation m (sp_operation (ac_steps a ! index)) = Inr v" "find_resource m (op_resource v) = Inr r"
  shows "\<exists>s1 s2. validate_assignment m a index (ac_steps a ! index) v r x s1 = Inr s2"
proof -
  obtain s1 s2 where "step_ok m a (index, ac_steps a ! index) s1 = Inr s2" using admitted_step [OF assms(1,2)] by blast
  then obtain am exact st where "assignments_from m a index (ac_steps a ! index) v r {} (sp_assign (ac_steps a ! index)) am = Inr st"
    using assms(4,5) by (auto simp: step_ok_def res_simps split: if_splits)
  from assignments_from_each [OF this assms(3)] show ?thesis .
qed

lemma admitted_guards:
  assumes "validate_action m a = Inr ()" "index < length (ac_steps a)"
  shows "\<exists>s1 s2. admit_guards m a index s1 = Inr s2"
  using admitted_step [OF assms] by (auto simp: step_ok_def res_simps split: if_splits)

section \<open>Fields\<close>

lemma budget_of_kind: "field_kind_ok m f = Inr () \<Longrightarrow> field_budget f"
  by (auto simp: field_kind_ok_def field_budget_def variants_ok_Inr split: field_kind.splits if_splits)

lemma admitted_budget:
  assumes "validate_resources m = Inr ()" "find_resource m n = Inr r" "resource_field r name = Some f"
  shows "field_budget f \<and> field_kind_ok m f = Inr ()"
proof -
  have "r \<in> set (mf_resources m)" "f \<in> set (re_fields r)"
    using find_known(2) [OF assms(2)] assms(3) by (auto simp: resource_field_def find_Some_iff)
  from validate_resources_Inr(3) [OF assms(1) this] show ?thesis using budget_of_kind by blast
qed

lemma set_value_sound:
  assumes "set_assignment_ok m a index v f e st = Inr st'" "field_budget f" "\<not> opaque_kind (tf_kind f)"
    "values_typed m a w" "expr_typed e" "eval w (core_of a) e = Inr s"
  shows "validate_value f (encode s) = Inr ()"
proof -
  obtain d st2 where d: "admit_value m a index e False st = Inr (d, st2)"
    and fit: "if is_reference f then (case e of ETarget _ \<Rightarrow> True | ECreated _ \<Rightarrow> True | _ \<Rightarrow> False) \<and> dm_kind d = tf_kind f else domain_fits d f"
    using assms(1,3) by (auto simp: set_assignment_ok_def res_simps split: field_kind.splits if_splits prod.splits)
  have dom: "has_domain s d" using eval_sound [OF d [unfolded admit_value_def] assms(6,4,5)] .
  show ?thesis
  proof (cases "is_reference f")
    case False
    then show ?thesis using fits_sound [OF dom _ assms(2)] fit by simp
  next
    case True
    then obtain key where key: "tf_kind f = KReference key" by (auto simp: is_reference_def split: field_kind.splits)
    have "\<not> dm_optional d"
      using d fit True by (auto simp: admit_value_def target_domain_def created_domain_def domain_reference_def res_simps split: expr.splits if_splits)
    with reference_value [OF dom _ key assms(2)] fit True show ?thesis by simp
  qed
qed

section \<open>Guards\<close>

lemma guards_decide:
  assumes "admit_guard_list m a index gs st = Inr st'" "values_typed m a w"
    "\<forall>g \<in> set gs. \<forall>e \<in> set (operands (gu_condition g)). expr_typed e \<and> is_ok (eval w (core_of a) e)"
  shows "eval_guards w (core_of a) gs = Inr ()
     \<or> (\<exists>g \<in> set gs. eval_condition w (core_of a) (gu_condition g) = Inr False
          \<and> eval_guards w (core_of a) gs = Inl (GuardFailure (gu_rejection g)))"
  using assms(1,3)
proof (induction gs arbitrary: st)
  case (Cons g gs)
  obtain s1 where s1: "admit_condition m a index (gu_condition g) 1 st = Inr s1" "admit_guard_list m a index gs s1 = Inr st'"
    using Cons.prems(1) by (auto simp: res_simps)
  obtain b where b: "eval_condition w (core_of a) (gu_condition g) = Inr b"
    using condition_total(1) [OF s1(1) assms(2)] Cons.prems(2) by (auto simp: is_ok_iff)
  show ?case
  proof (cases b)
    case True
    with Cons.IH [OF s1(2)] Cons.prems(2) b show ?thesis by auto
  qed (use b in auto)
qed simp

section \<open>The schedule graph\<close>

definition edges :: "call_graph \<Rightarrow> nat set \<Rightarrow> (nat \<times> nat) set" where
  "edges graph V = {(x, y). x \<in> V \<and> y \<in> set (calls graph x)}"

definition settled :: "call_graph \<Rightarrow> nat set \<Rightarrow> bool" where
  "settled graph V \<longleftrightarrow> (\<forall>x \<in> V. set (calls graph x) \<subseteq> V) \<and> acyclic (edges graph V)"

lemma settled_insert:
  assumes "settled graph V" "n \<notin> V" "set (calls graph n) \<subseteq> V"
  shows "settled graph (insert n V)"
proof -
  have path: "y \<in> V \<and> (x \<in> V \<longrightarrow> (x, y) \<in> (edges graph V)\<^sup>+)" if known: "(x, y) \<in> (edges graph (insert n V))\<^sup>+" for x y
    using known
  proof (induction rule: trancl_induct)
    case (base y)
    then show ?case using assms by (auto simp: edges_def settled_def)
  next
    case (step y z)
    then have "z \<in> V" "(y, z) \<in> edges graph V" using assms by (auto simp: edges_def settled_def)
    with step.IH show ?case by (auto intro: trancl_into_trancl)
  qed
  have "acyclic (edges graph (insert n V))"
    unfolding acyclic_def
  proof (intro allI notI)
    fix x assume x: "(x, x) \<in> (edges graph (insert n V))\<^sup>+"
    then have "(x, x) \<in> (edges graph V)\<^sup>+" using path [OF x] by blast
    with assms(1) show False by (simp add: settled_def acyclic_def)
  qed
  then show ?thesis using assms by (auto simp: settled_def)
qed

lemma visit_settles:
  shows "visit graph visiting n visited = Inr visited' \<Longrightarrow> visited \<inter> visiting = {} \<Longrightarrow> settled graph visited \<Longrightarrow>
      visited \<subseteq> visited' \<and> n \<in> visited' \<and> visited' \<inter> visiting = {} \<and> settled graph visited'"
    and "visit_each graph visiting ns visited = Inr visited' \<Longrightarrow> visited \<inter> visiting = {} \<Longrightarrow> settled graph visited \<Longrightarrow>
      visited \<subseteq> visited' \<and> set ns \<subseteq> visited' \<and> visited' \<inter> visiting = {} \<and> settled graph visited'"
proof (induction graph visiting n visited and graph visiting ns visited arbitrary: visited' and visited' rule: visit_visit_each.induct)
  case (1 graph visiting n visited)
  show ?case
  proof (cases "n \<in> visited")
    case True
    then show ?thesis using "1.prems" by simp
  next
    case False
    then obtain V where V: "visit_each graph (insert n visiting) (calls graph n) visited = Inr V" "visited' = insert n V" and fresh: "n \<notin> visiting"
      using "1.prems"(1) by (auto simp: res_simps split: if_splits)
    have "visited \<subseteq> V \<and> set (calls graph n) \<subseteq> V \<and> V \<inter> insert n visiting = {} \<and> settled graph V"
      using "1.IH" [OF False _ V(1)] fresh "1.prems"(2,3) False by simp
    with V fresh settled_insert [of graph V n] show ?thesis by auto
  qed
next
  case (2 graph visiting visited)
  then show ?case by simp
next
  case (3 graph visiting n ns visited)
  then obtain V where V: "visit graph visiting n visited = Inr V" "visit_each graph visiting ns V = Inr visited'" by (auto simp: res_simps simp del: visit.simps)
  from "3.IH"(1) [OF V(1) "3.prems"(2,3)] "3.IH"(2) [OF V(2)] show ?case by (auto simp del: visit.simps)
qed

lemma roots_settled:
  "visit_roots graph ns visited = Inr V \<Longrightarrow> settled graph visited \<Longrightarrow> set ns \<subseteq> V \<and> visited \<subseteq> V \<and> settled graph V"
proof (induction ns arbitrary: visited)
  case (Cons n ns)
  then obtain U where U: "visit graph {} n visited = Inr U" "visit_roots graph ns U = Inr V" by (auto simp: res_simps simp del: visit.simps)
  from visit_settles(1) [OF U(1) _ Cons.prems(2)] Cons.IH [OF U(2)] show ?case by (auto simp del: visit.simps)
qed simp

lemma calls_push: "bt_ok graph \<Longrightarrow> calls (push_call s n graph) x = (if x = s then calls graph s @ [n] else calls graph x)"
  using map_of_bt_insert [of graph s "calls graph s @ [n]"]
  by (simp add: calls_def push_call_def bt_get_def split: option.splits)

lemma schedules_graph:
  assumes "schedules_from sv m c seen graph scs = Inr graph'" "bt_ok graph"
  shows "bt_ok graph' \<and> (\<forall>x. set (calls graph x) \<subseteq> set (calls graph' x))
     \<and> (\<forall>sc \<in> set scs. sc_action sc \<in> set (calls graph' (sc_source_action sc)))"
  using assms
proof (induction scs arbitrary: seen graph)
  case (Cons sc scs)
  then obtain source where s: "schedule_ok sv m c sc = Inr source"
    "schedules_from sv m c (insert (sc_source_action sc, sc_ordinal sc) seen) (push_call (ac_id source) (sc_action sc) graph) scs = Inr graph'"
    by (auto simp: res_simps split: if_splits)
  have source: "ac_id source = sc_source_action sc"
    using s(1) find_known(3) by (auto simp: schedule_ok_def res_simps split: if_splits)
  have ok: "bt_ok (push_call (ac_id source) (sc_action sc) graph)" using Cons.prems(2) by (simp add: push_call_def bt_insert_ok)
  note IH = Cons.IH [OF s(2) ok]
  have grow: "set (calls graph x) \<subseteq> set (calls (push_call (ac_id source) (sc_action sc) graph) x)" for x
    by (simp add: calls_push [OF Cons.prems(2)] subset_insertI)
  have new: "sc_action sc \<in> set (calls (push_call (ac_id source) (sc_action sc) graph) (sc_source_action sc))"
    by (simp add: calls_push [OF Cons.prems(2)] source)
  show ?case using IH grow new by (simp add: subset_iff)
qed simp

lemma contract_acyclic:
  assumes "validate_contract m c sv ri = Inr ()"
  shows "acyclic ((\<lambda>sc. (sc_source_action sc, sc_action sc)) ` set (jc_schedules c))"
proof -
  obtain graph V where g: "schedules_from sv m c {} [] (jc_schedules c) = Inr graph" "visit_roots graph (map fst graph) {} = Inr V"
    using assms by (auto simp: validate_contract_def res_simps split: if_splits)
  have all: "sc \<in> set (jc_schedules c) \<Longrightarrow> sc_action sc \<in> set (calls graph (sc_source_action sc))" for sc
    using schedules_graph [OF g(1)] by (simp add: bt_ok_def)
  have V: "fst ` set graph \<subseteq> V" "settled graph V"
    using roots_settled [OF g(2)] by (simp_all add: settled_def edges_def acyclic_def)
  have "(\<lambda>sc. (sc_source_action sc, sc_action sc)) ` set (jc_schedules c) \<subseteq> edges graph V"
  proof (clarsimp simp: edges_def)
    fix sc assume "sc \<in> set (jc_schedules c)"
    then have call: "sc_action sc \<in> set (calls graph (sc_source_action sc))" by (rule all)
    then have "sc_source_action sc \<in> fst ` set graph" using calls_outside [of "sc_source_action sc" graph] by (cases "sc_source_action sc \<in> fst ` set graph") auto
    with call V(1) show "sc_source_action sc \<in> V \<and> sc_action sc \<in> set (calls graph (sc_source_action sc))" by blast
  qed
  then show ?thesis using V(2) acyclic_subset by (auto simp: settled_def)
qed

section \<open>Service authority\<close>

lemma service_rule_principal:
  assumes "List.map_filter service_worker_of rule = [worker]" "\<forall>p \<in> set rule. condition_holds related r (bind_predicate p pr)"
  shows "\<exists>s. pr = ServicePrincipal s \<and> svc_worker s = worker \<and> row_tenant r = svc_tenant s"
proof -
  have "Service worker \<in> set rule"
  proof -
    have "worker \<in> set (List.map_filter service_worker_of rule)" using assms(1) by simp
    then obtain p where p: "p \<in> set rule" "service_worker_of p = Some worker" by (auto simp: List.map_filter_def)
    have "p = Service worker" using p(2) by (cases p) simp_all
    with p(1) show ?thesis by simp
  qed
  with assms(2) have "condition_holds related r (bind_predicate (Service worker) pr)" by blast
  then show ?thesis by (auto simp: bind_predicate_def condition_holds_def split: principal.splits if_splits)
qed

lemma maintenance_facts:
  assumes "validate_jobs m = Inr ()" "v \<in> set (mf_operations m)" "op_maintenance v"
  shows "\<exists>jobs entries. mf_jobs m = Some jobs \<and> service_operations m jobs = Inr entries \<and> maintenance_ok m entries v = Inr ()
     \<and> operation_service_ok m jobs entries v = Inr ()"
  using assms by (auto simp: validate_jobs_def no_service_authority_def list_all_iff each_ok_Inr operation_service_ok_def res_simps
      split: option.splits if_splits)

section \<open>The guarantees\<close>

lemma admitted_action: "validate_manifest enc m = Inr () \<Longrightarrow> a \<in> set (mf_actions m) \<Longrightarrow> validate_action m a = Inr ()"
  by (drule validate_manifest_Inr(7)) (simp add: each_ok_Inr)

text \<open>C5: the type safety of admitted actions.  Whatever the request, the rows read and the clock, a value
  that an admitted action computes for a field it sets passes the validation of that field: the
  executor's own check of the finished row cannot fail on it.\<close>

theorem admitted_assignment_typed:
  assumes "validate_manifest enc m = Inr ()" "a \<in> set (mf_actions m)" "index < length (ac_steps a)"
    "x \<in> set (sp_assign (ac_steps a ! index))" "as_change x = ChangeSet e"
    "find_operation m (sp_operation (ac_steps a ! index)) = Inr v" "find_resource m (op_resource v) = Inr r"
    "values_typed m a w" "expr_typed e" "eval w (core_of a) e = Inr s"
  shows "\<exists>f. resource_field r (as_field x) = Some f \<and> (opaque_kind (tf_kind f) \<or> validate_value f (encode s) = Inr ())"
proof -
  obtain s1 s2 where "validate_assignment m a index (ac_steps a ! index) v r x s1 = Inr s2"
    using admitted_assignment [OF admitted_action [OF assms(1,2)] assms(3,4,6,7)] by blast
  then obtain f st st' where f: "resource_field r (as_field x) = Some f" "set_assignment_ok m a index v f e st = Inr st'"
    using assms(5) by (auto simp: validate_assignment_def res_simps split: prod.splits if_splits)
  have "field_budget f" using admitted_budget [OF validate_manifest_Inr(2) [OF assms(1)] assms(7) f(1)] by blast
  with set_value_sound [OF f(2)] f(1) assms(8-10) show ?thesis by blast
qed

definition demo_values :: computation_values where
  "demo_values = \<lparr>vl_manifest = demo_manifest, vl_input = [(''title'', ''Water the plants'')],
     vl_principal = Anonymous, vl_grants = (\<lambda>_. None), vl_snapshots = (\<lambda>_. None), vl_outcomes = [], vl_time = Some 7000, vl_current = None\<rparr>"

lemma demo_values_typed: "values_typed demo_manifest demo_create demo_values"
proof -
  have "validate_inputs (ac_inputs demo_create) [(''title'', ''Water the plants'')] = Inr ()" by code_simp
  then show ?thesis by (simp add: values_typed_def demo_values_def grants_typed_def outcomes_typed_def time_ok_def int_defs)
qed

theorem admitted_assignment_typed_witness:
  "\<exists>f. resource_field demo_tasks ''expires'' = Some f \<and> (opaque_kind (tf_kind f) \<or> validate_value f (encode (ScTimestamp 7060)) = Inr ())"
proof -
  let ?x = "\<lparr>as_field = ''expires'', as_change = ChangeSet demo_tomorrow\<rparr>"
  have a: "demo_create \<in> set (mf_actions demo_manifest)" by (simp add: demo_manifest_def)
  have x: "0 < length (ac_steps demo_create)" "?x \<in> set (sp_assign (ac_steps demo_create ! 0))" by (simp_all add: demo_create_def)
  have v: "find_operation demo_manifest (sp_operation (ac_steps demo_create ! 0)) = Inr (demo_operation 3 CreateOp [SameTenant])"
    "find_resource demo_manifest (op_resource (demo_operation 3 CreateOp [SameTenant])) = Inr demo_tasks"
    by code_simp+
  have e: "expr_typed demo_tomorrow" "eval demo_values (core_of demo_create) demo_tomorrow = Inr (ScTimestamp 7060)"
    by code_simp+
  from admitted_assignment_typed [OF demo_admitted a x _ v demo_values_typed e] show ?thesis by simp
qed

text \<open>C13: the guards of an admitted step always decide.  When the values they compare can be computed, the
  executor either goes on or refuses with the rejection its author wrote, because one condition is
  false; a guard never fails for a mismatch of types.\<close>

theorem admitted_guards_decide:
  assumes "validate_manifest enc m = Inr ()" "a \<in> set (mf_actions m)" "index < length (ac_steps a)" "values_typed m a w"
    "\<forall>g \<in> set (sp_guards (ac_steps a ! index)). \<forall>e \<in> set (operands (gu_condition g)). expr_typed e \<and> is_ok (eval w (core_of a) e)"
  shows "eval_guards w (core_of a) (sp_guards (ac_steps a ! index)) = Inr ()
     \<or> (\<exists>g \<in> set (sp_guards (ac_steps a ! index)). eval_condition w (core_of a) (gu_condition g) = Inr False
          \<and> eval_guards w (core_of a) (sp_guards (ac_steps a ! index)) = Inl (GuardFailure (gu_rejection g)))"
proof -
  obtain s1 s2 where "admit_guard_list m a index (sp_guards (ac_steps a ! index)) s1 = Inr s2"
    using admitted_guards [OF admitted_action [OF assms(1,2)] assms(3)] by (auto simp: admit_guards_def)
  with guards_decide assms(4,5) show ?thesis by blast
qed

definition demo_row :: stored_record where
  "demo_row = \<lparr>sr_record = \<lparr>rc_resource = 1, rc_id = 5,
     rc_fields = [(''count'', ''100''), (''done'', ''false''), (''expires'', ''90''), (''title'', ''Water'')]\<rparr>,
     sr_owner = ''u'', sr_tenant = ''t'', sr_incarnation = ''i'', sr_revision = 3, sr_cap_version = None\<rparr>"

definition demo_update_values :: computation_values where
  "demo_update_values = demo_values\<lparr>
     vl_grants := [''task'' \<mapsto> \<lparr>tk_resource = 1, tk_record = 5, tk_incarnation = ''i'', tk_revision = 3, tk_route = Some 2\<rparr>],
     vl_current := Some (''task'', demo_row)\<rparr>"

lemma demo_update_typed: "values_typed demo_manifest demo_update demo_update_values"
proof -
  have "validate_inputs (ac_inputs demo_update) [(''title'', ''Water the plants'')] = Inr ()"
    "find_resource demo_manifest 1 = Inr demo_tasks" "validate_fields demo_tasks (rc_fields (sr_record demo_row)) = Inr ()" by code_simp+
  moreover have "tg_resource t = 1" if "find_target (ac_targets demo_update) ''task'' = Inr t" for t
    using that by (auto simp: find_target_def demo_update_def)
  ultimately show ?thesis
    by (auto simp: values_typed_def demo_update_values_def demo_values_def grants_typed_def outcomes_typed_def time_ok_def int_defs id_ok_def stored_valid_def)
qed

theorem admitted_guards_decide_witness:
  "\<exists>g \<in> set (sp_guards (ac_steps demo_update ! 0)). eval_condition demo_update_values (core_of demo_update) (gu_condition g) = Inr False
     \<and> eval_guards demo_update_values (core_of demo_update) (sp_guards (ac_steps demo_update ! 0)) = Inl (GuardFailure demo_full)"
proof -
  have a: "demo_update \<in> set (mf_actions demo_manifest)" by (simp add: demo_manifest_def)
  have i: "0 < length (ac_steps demo_update)" by (simp add: demo_update_def)
  have g: "sp_guards (ac_steps demo_update ! 0)
      = [\<lparr>gu_condition = GAll [GCompare (ECurrentField ''task'' ''count'') CompareLess (ELiteral (LInteger 100))], gu_rejection = demo_full\<rparr>]"
    by (simp add: demo_update_def)
  have e: "is_ok (eval demo_update_values (core_of demo_update) (ECurrentField ''task'' ''count''))"
    "eval_guards demo_update_values (core_of demo_update) (sp_guards (ac_steps demo_update ! 0)) \<noteq> Inr ()" by code_simp+
  have o: "\<forall>g \<in> set (sp_guards (ac_steps demo_update ! 0)). \<forall>e \<in> set (operands (gu_condition g)).
      expr_typed e \<and> is_ok (eval demo_update_values (core_of demo_update) e)"
    using e(1) by (simp add: g is_ok_iff in_i64_def int_defs)
  from admitted_guards_decide [OF demo_admitted a i demo_update_typed o] e(2) show ?thesis by (simp add: g)
qed

text \<open>C14: admitted schedules cannot call each other in a circle.  The relation "an action schedules another
  action" of an admitted manifest is acyclic, so a chain of scheduled jobs ends.\<close>

theorem admitted_schedules_acyclic:
  assumes "validate_manifest enc m = Inr ()" "mf_jobs m = Some c"
  shows "acyclic ((\<lambda>sc. (sc_source_action sc, sc_action sc)) ` set (jc_schedules c))"
proof -
  have "validate_contract m c (\<lambda>_. Inr ()) (recurring_inputs_ok m) = Inr ()"
    using validate_manifest_Inr(8) [OF assms(1)] assms(2) by (auto simp: validate_jobs_def res_simps)
  then show ?thesis by (rule contract_acyclic)
qed

theorem admitted_schedules_acyclic_witness: "acyclic {(1::nat, 3::nat)}"
  using admitted_schedules_acyclic [OF demo_admitted, of demo_jobs] by (simp add: demo_manifest_def demo_jobs_def)

text \<open>C6: maintenance authority is confined.  A maintenance operation of an admitted manifest admits only a
  service of a declared worker, on rows of the service's own tenant; no route lists the operation and no
  web binding runs an action with it.\<close>

theorem maintenance_confined:
  assumes "validate_manifest enc m = Inr ()" "v \<in> set (mf_operations m)" "op_maintenance v"
  shows "(allowed_with (op_policy v) pr r rel \<longrightarrow>
            (\<exists>s jobs. pr = ServicePrincipal s \<and> row_tenant r = svc_tenant s \<and> mf_jobs m = Some jobs
               \<and> svc_worker s \<in> set (map sw_name (jc_workers jobs))))
     \<and> (\<forall>rt \<in> set (mf_routes m). op_id v \<notin> set (rt_operations rt))
     \<and> (\<forall>b \<in> set (mf_web_bindings m). \<exists>a. find_action m (wb_action b) = Inr a \<and> op_id v \<notin> sp_operation ` set (ac_steps a))"
proof -
  obtain jobs entries where j: "mf_jobs m = Some jobs" "maintenance_ok m entries v = Inr ()" "operation_service_ok m jobs entries v = Inr ()"
    using maintenance_facts [OF validate_manifest_Inr(8) [OF assms(1)] assms(2,3)] by blast
  have rule: "maintenance_rule entries (op_id v) rule" if "rule \<in> set (any_of (op_policy v))" for rule
    using j(2) that by (auto simp: maintenance_ok_def list_all_iff split: if_splits)
  have known: "worker \<in> set (map sw_name (jc_workers jobs))"
    if w: "worker \<in> set (List.map_filter service_worker_of rule)" "rule \<in> set (any_of (op_policy v))" for worker rule
  proof -
    have "worker \<in> set (List.map_filter service_worker_of (concat (any_of (op_policy v))))" using w by (auto simp: List.map_filter_def)
    then have "service_identity_ok jobs worker = Inr ()" using j(3) by (auto simp: operation_service_ok_def each_ok_Inr res_simps)
    then show ?thesis by (simp add: service_identity_ok_def split: if_splits)
  qed
  have "\<exists>s jobs. pr = ServicePrincipal s \<and> row_tenant r = svc_tenant s \<and> mf_jobs m = Some jobs
      \<and> svc_worker s \<in> set (map sw_name (jc_workers jobs))" if allowed: "allowed_with (op_policy v) pr r rel"
  proof -
    obtain rule where r: "rule \<in> set (any_of (op_policy v))" "\<forall>p \<in> set rule. condition_holds rel r (bind_predicate p pr)"
      using allowed by (auto simp: allowed_with_iff)
    obtain worker where w: "List.map_filter service_worker_of rule = [worker]"
      using rule [OF r(1)] by (auto simp: maintenance_rule_def split: list.splits)
    then have "worker \<in> set (map sw_name (jc_workers jobs))" using known [OF _ r(1), of worker] by simp
    with service_rule_principal [OF w r(2)] j(1) show ?thesis by auto
  qed
  moreover have "op_id v \<notin> set (rt_operations rt)" if "rt \<in> set (mf_routes m)" for rt
    using j(2) that by (auto simp: maintenance_ok_def list_ex_iff split: if_splits)
  moreover have "\<exists>a. find_action m (wb_action b) = Inr a \<and> op_id v \<notin> sp_operation ` set (ac_steps a)" if "b \<in> set (mf_web_bindings m)" for b
  proof -
    have "binding_hides m (op_id v) b = Inr ()" using j(2) that by (auto simp: maintenance_ok_def each_ok_Inr split: if_splits)
    then show ?thesis by (fastforce simp: binding_hides_def list_ex_iff res_simps split: if_splits)
  qed
  ultimately show ?thesis by blast
qed

theorem maintenance_confined_witness:
  "allowed_with (op_policy (demo_sweep 7 DeleteOp)) (ServicePrincipal \<lparr>svc_deployment = ''d'', svc_tenant = ''t'', svc_worker = ''sweep''\<rparr>)
      \<lparr>row_owner = ''u'', row_tenant = ''t'', row_fields = Map.empty\<rparr> (\<lambda>_. False)
   \<and> \<not> allowed_with (op_policy (demo_sweep 7 DeleteOp)) (User \<lparr>user_id = ''u'', user_tenant = ''t'', user_roles = []\<rparr>)
      \<lparr>row_owner = ''u'', row_tenant = ''t'', row_fields = Map.empty\<rparr> (\<lambda>_. False)"
proof -
  have v: "demo_sweep 7 DeleteOp \<in> set (mf_operations demo_manifest)" "op_maintenance (demo_sweep 7 DeleteOp)"
    by (simp_all add: demo_manifest_def demo_operations_def demo_sweep_def)
  have "allowed_with (op_policy (demo_sweep 7 DeleteOp)) (ServicePrincipal \<lparr>svc_deployment = ''d'', svc_tenant = ''t'', svc_worker = ''sweep''\<rparr>)
      \<lparr>row_owner = ''u'', row_tenant = ''t'', row_fields = Map.empty\<rparr> (\<lambda>_. False)"
    by (simp add: demo_sweep_def demo_operation_def allowed_with_def bind_predicate_def condition_holds_def)
  with maintenance_confined [OF demo_admitted v, of "User \<lparr>user_id = ''u'', user_tenant = ''t'', user_roles = []\<rparr>"] show ?thesis by blast
qed

text \<open>C7: the anonymous surface of an admitted application is what its author made public.  An operation that
  admits an anonymous visitor on any row has the policy \<open>Public\<close> alone, and either creates rows or reads
  through a declared visibility condition and a non-empty declared projection.\<close>

theorem anonymous_surface:
  assumes "validate_manifest enc m = Inr ()" "v \<in> set (mf_operations m)" "allowed_with (op_policy v) Anonymous r rel"
  shows "any_of (op_policy v) = [[Public]]
     \<and> (op_kind v = CreateOp
        \<or> op_kind v \<in> {ListOp, ReadOp, Aggregate}
          \<and> (\<exists>s names. op_visibility v = Some s \<and> op_fields v = Some names \<and> names \<noteq> []))"
proof -
  obtain rule where "rule \<in> set (any_of (op_policy v))" "rule \<noteq> []" "\<forall>p \<in> set rule. p = Public"
    using assms(3) by (auto simp: allowed_with_iff anonymous_condition)
  then have "Public \<in> set (concat (any_of (op_policy v)))" by (metis UN_I last_in_set set_concat)
  then have "is_public v" by (auto simp: is_public_def list_ex_iff)
  moreover have "public_ok m v = Inr ()"
    using validate_manifest_Inr(4) [OF assms(1)] assms(2) by (simp add: validate_public_operations_def each_ok_Inr)
  ultimately show ?thesis by (auto simp: public_ok_def res_simps split: if_splits)
qed

theorem anonymous_surface_witness:
  "any_of (op_policy (demo_operations ! 7)) = [[Public]] \<and> op_visibility (demo_operations ! 7) \<noteq> None"
proof -
  have v: "demo_operations ! 7 \<in> set (mf_operations demo_manifest)" by (simp add: demo_manifest_def demo_operations_def)
  have a: "allowed_with (op_policy (demo_operations ! 7)) Anonymous \<lparr>row_owner = [], row_tenant = [], row_fields = Map.empty\<rparr> (\<lambda>_. False)"
    by (simp add: demo_operations_def demo_operation_def allowed_with_def bind_predicate_def condition_holds_def)
  have k: "op_kind (demo_operations ! 7) = ListOp" by (simp add: demo_operations_def demo_operation_def)
  from anonymous_surface [OF demo_admitted v a] k show ?thesis by auto
qed

end
