(* ===== verification/Spec2Isabelle.thy ===== *)
theory Spec2Isabelle
  imports Limiter Policy Blob_System Multipart_File Multipart_Prefix Routing Guest_Exchange Lifecycle_Clock Host_Page Job_Fairness Job_Admission Admission_Guarantees
begin

text \<open>
  A verification library for Noxide, a server-rendered web framework whose host enforces its
  security policies around sandboxed guest code.

  \<^bold>\<open>The program.\<close>  An application is a manifest: resources, operations with access policies, routes,
  actions, background work, uploads and outgoing effects.  The host admits the manifest once
  (\<^verbatim>\<open>crates/noxide-admission\<close>).  A request is limited (\<^verbatim>\<open>noxide-authority\<close>), dispatched to a route, decoded
  (uploads stream through \<^verbatim>\<open>noxide-blobs\<close>), run by an untrusted guest over a framed protocol
  (\<^verbatim>\<open>noxide-guest\<close>), and answered with a page the host renders itself (\<^verbatim>\<open>noxide-render\<close>).  Rows are read and
  written under the admitted policies (\<^verbatim>\<open>noxide-repository\<close>); stored files, background jobs and the clock
  keep their own tables (\<^verbatim>\<open>noxide-blobs\<close>, \<^verbatim>\<open>noxide-jobs\<close>, \<^verbatim>\<open>noxide-store\<close>).

  \<^bold>\<open>Conventions.\<close>  \<open>Prelude\<close> holds the result type \<open>'a res = string + 'a\<close> with \<open>and_then\<close>, \<open>ensure\<close> and
  \<open>ok_or\<close> for \<open>?\<close>, \<open>ensure!\<close> and \<open>ok_or\<close>, the simplification set \<open>res_simps\<close>, and the machine integers as
  bounded \<open>nat\<close> and \<open>int\<close> with their checked and saturating operations.  \<open>Decimal\<close>, \<open>Utf8\<close> and \<open>Ordered_Map\<close> model what
  the source uses of the standard library: \<open>to_string\<close> and \<open>parse\<close>, \<open>str::from_utf8\<close>, \<open>BTreeMap\<close>.  A panic is an error
  value.  A database table is a list or a map of rows; a statement is a function on the tables that
  also returns the number of rows it changed; a transaction that fails leaves the old tables.

  \<^bold>\<open>Vocabulary.\<close>  \<open>Contract\<close>, \<open>Declarations\<close> and \<open>Manifest\<close> model \<^verbatim>\<open>crates/noxide-protocol/src\<close>: field kinds, canonical
  scalars, expressions, jobs, effects, queries and the manifest, with the look-ups of
  \<^verbatim>\<open>noxide-admission/src/manifest.rs\<close>.  \<open>field_canonical_projection\<close>: a canonical text is a fixed point of the
  canonical form.  \<open>Lifecycle_Time\<close> models \<^verbatim>\<open>time.rs\<close>.

  \<^bold>\<open>Access policy.\<close>  \<open>Policy\<close> and \<open>Sql_Text\<close> model \<^verbatim>\<open>policy.rs\<close>, \<^verbatim>\<open>principal.rs\<close> and \<^verbatim>\<open>noxide-sql\<close>.  \<open>Filter_Text\<close> is a
  reader for the SQL subset of compiled filters, so that the text the code emits has one meaning: that
  of a list filter is the check of a single row (\<open>policy_filter_refines_allowed\<close>); the scans of a merged list cover the policy; a service never leaves
  its tenant.  The compiler of membership predicates is a parameter (the locale \<open>membership_compiler\<close>).

  \<^bold>\<open>Admission.\<close>  \<open>Resource_Admission\<close>, \<open>Operation_Admission\<close>, \<open>Route_Admission\<close>, \<open>Action_Admission\<close>, \<open>Form_Layout\<close>,
  \<open>Job_Contract\<close> and \<open>Manifest_Admission\<close> model \<open>validate\<close> of \<^verbatim>\<open>manifest.rs\<close> with every check it makes.
  \<open>Computation\<close> models the expressions, on both sides: the domains that admission computes and the
  scalars that \<^verbatim>\<open>noxide-repository/src/repository/computation.rs\<close> evaluates.  \<open>Computation_Soundness\<close> proves that a
  value lies in its domain; \<open>Admission_Guarantees\<close> draws the consequences for an admitted manifest: what an
  action assigns passes the validation of the field, guards always decide, schedules are acyclic,
  maintenance authority and the anonymous surface are what was declared.  \<open>Admission_Demo\<close> is a manifest that
  admission accepts, the input of the witnesses.

  \<^bold>\<open>Requests.\<close>  \<open>Limiter\<close> (\<^verbatim>\<open>limiter.rs\<close>): rate windows, token buckets with eviction of the least recently used,
  permit lanes.  \<open>Routing\<close> (\<^verbatim>\<open>routing.rs\<close>): two admitted routes never match one path, and a link dispatches back to its
  route.  \<open>Matcher\<close>, \<open>Multipart\<close>, \<open>Multipart_File\<close> and \<open>Multipart_Prefix\<close> (\<^verbatim>\<open>multipart.rs\<close>): the streaming decoder gives what
  the whole body says, however it is cut, and is ready only when the declared parts were read.
  \<open>Guest_Wire\<close>, \<open>Guest_Pool\<close> and \<open>Guest_Exchange\<close> (\<^verbatim>\<open>wire.rs\<close>, \<^verbatim>\<open>pool.rs\<close>): messages round trip, a warm worker serves only
  the key it was started for, and a guest obtains only what the request granted.  \<open>Html\<close>, \<open>Rich_Document\<close>,
  \<open>Render_Forms\<close> and \<open>Render\<close> (\<^verbatim>\<open>noxide-render\<close>, \<^verbatim>\<open>noxide-assets/src/document.rs\<close>): every page is balanced markup in which
  untrusted text appears escaped.  \<open>Host_Page\<close> (\<^verbatim>\<open>noxide-host/src/application\<close>) builds the links the host adds to a
  page and renders it: every link of the page, as a browser reads it, stays on this origin.

  \<^bold>\<open>Stored files.\<close>  \<open>Blob_State\<close> is the state machine of \<^verbatim>\<open>state.rs\<close>; \<open>Blob_Metadata\<close> the tables and every operation of
  \<^verbatim>\<open>metadata.rs\<close>; \<open>Blob_Rows\<close> the row codec; \<open>Blob_Accounting\<close> and \<open>Blob_System\<close> the quota invariants over any interleaving;
  \<open>Blob_Pairing\<close> the crash points of \<^verbatim>\<open>pairing.rs\<close>, over files and directory states that are durable only once they
  are synced (a crash leaves a prefix of unsynced data and one of the directory states since the last sync); \<open>Blob_Policy\<close> and \<open>Blob_Transport\<close> limits and transfers.

  \<^bold>\<open>Background jobs.\<close>  \<open>Job_Types\<close>, \<open>Job_Queue\<close>, \<open>Job_Operator\<close> and \<open>Job_Recurrence\<close> model \<^verbatim>\<open>noxide-jobs\<close> with its statements.
  \<open>Job_Safety\<close> is the abstract queue and the refinement; \<open>Job_Runs\<close> and \<open>Job_System\<close> the reachable states;
  \<open>Job_Guarantees\<close>, \<open>Job_Admission\<close> and \<open>Job_Fairness\<close> the theorems: the queue is bounded, a settled job is final, a
  stale claim changes nothing, an enqueue happens once, a claim is authorised, tenants take turns.

  \<^bold>\<open>Clock.\<close>  \<open>Lifecycle_Clock\<close> models \<^verbatim>\<open>lifecycle_clock.rs\<close> and \<^verbatim>\<open>temporal.rs\<close>: the persisted clock never goes back, and a
  freshness lease, however often it is read again, ends within the limit of the last commit it knows.

  \<^bold>\<open>Bounds and fuel.\<close>  No definition needs fuel: loops recurse on the input, or have a measure (the failure
  table of the matcher by the position in the pattern, the depth-first search of schedules by the nodes not
  yet on the path).

  \<^bold>\<open>Parameters.\<close>  SHA-256, the JSON and postcard codecs, the encoder of form layouts, the URL encoder and the
  membership compiler are arguments of the definitions that use them, with documented behaviour
  as named hypotheses where a theorem needs it.  The tokens of the key service in links and the clock readings are
  arbitrary.

  \<^bold>\<open>Not modelled.\<close>  Operating-system and network I/O (sockets, hyper, tokio, and the file system but for the
  pairing markers); the
  SQLite and PostgreSQL providers, their DDL, layout verification and metering; Wasmtime, seccomp,
  landlock and the key service; Argon2 and session cookies; procedural macros and generated code; the CSS
  tokenizer and image decoding of assets; the HTTP delivery of effects; query cursors, frontiers and
  aggregates; serde encodings, the parsing and the digest of a manifest, and the disclosure reports
  for reviewers; command-line tools, fixtures and tests.
\<close>

end
